(* ===== verification/Prelude.thy ===== *)
theory Prelude
  imports Main "HOL-Library.Word"
begin

text \<open>
  Shared vocabulary of the development: the fixed-width integer types of the
  sources, the errors a C++ operation can end in, sequencing of fallible
  operations, \<^verbatim>\<open>size_t\<close> arithmetic with its wrap-around written out, C's
  truncating division, byte blocks (\<^verbatim>\<open>memcpy\<close>, \<^verbatim>\<open>vector::resize\<close>), little-endian
  byte images of integers, decimal and hexadecimal printing, C string functions
  and the generic list lemmas the component theories use.
\<close>

section \<open>Collections used by the component proofs\<close>

named_theorems result_simps
named_theorems mem_simps
named_theorems op_defs

section \<open>Integer types\<close>

type_synonym byte = "8 word"
type_synonym u8 = "8 word"
type_synonym u16 = "16 word"
type_synonym u32 = "32 word"
type_synonym u64 = "64 word"

abbreviation two64 :: nat where
  "two64 \<equiv> 18446744073709551616"

abbreviation int64_max :: int where
  "int64_max \<equiv> 9223372036854775807"

abbreviation int64_min :: int where
  "int64_min \<equiv> -9223372036854775808"

definition in_int64 :: "int \<Rightarrow> bool" where
  "in_int64 x \<longleftrightarrow> int64_min \<le> x \<and> x \<le> int64_max"

section \<open>Errors and sequencing\<close>

text \<open>
  What ends a C++ operation other than its return: a failed \<^verbatim>\<open>assert\<close>, a thrown
  exception of the standard library, or behaviour the standard leaves undefined
  (an access outside an object, a dangling pointer); signed integer overflow is
  kept apart from the rest of the latter, and so is a thread that waits for a lock
  it holds itself.
\<close>

datatype cpp_error =
    Assert_failed
  | Undefined_behaviour
  | Signed_overflow
  | Bad_alloc
  | Length_error
  | Invalid_argument
  | Logic_error
  | Runtime_error
  | Deadlock
  | Thread_exit

type_synonym 'a result = "cpp_error + 'a"

definition rbind :: "'a result \<Rightarrow> ('a \<Rightarrow> 'b result) \<Rightarrow> 'b result" where
  "rbind m f = (case m of Inl e \<Rightarrow> Inl e | Inr x \<Rightarrow> f x)"

definition assert_r :: "bool \<Rightarrow> unit result" where
  "assert_r b = (if b then Inr () else Inl Assert_failed)"

definition is_ok :: "'a result \<Rightarrow> bool" where
  "is_ok m = (case m of Inl _ \<Rightarrow> False | Inr _ \<Rightarrow> True)"

text \<open>
  \<open>rsafe P m\<close>: \<open>m\<close> returns a value with \<open>P\<close>, or stops because memory or the
  64-bit range is exhausted; it never fails an assertion and never runs into
  undefined behaviour.
\<close>

definition rsafe :: "('a \<Rightarrow> bool) \<Rightarrow> 'a result \<Rightarrow> bool" where
  "rsafe P m = (case m of Inl e \<Rightarrow> e = Bad_alloc \<or> e = Signed_overflow | Inr x \<Rightarrow> P x)"

section \<open>size\_t arithmetic and truncating division\<close>

definition size_add :: "nat \<Rightarrow> nat \<Rightarrow> nat" where
  "size_add a b = (a + b) mod two64"

definition size_sub :: "nat \<Rightarrow> nat \<Rightarrow> nat" where
  "size_sub a b = (a + (two64 - b mod two64)) mod two64"

definition trunc_div :: "int \<Rightarrow> int \<Rightarrow> int" where
  "trunc_div a b = sgn a * sgn b * (\<bar>a\<bar> div \<bar>b\<bar>)"

definition trunc_mod :: "int \<Rightarrow> int \<Rightarrow> int" where
  "trunc_mod a b = a - b * trunc_div a b"

section \<open>Byte blocks\<close>

text \<open>
  \<^verbatim>\<open>peek\<close> reads \<open>n\<close> cells from \<open>pos\<close>, \<^verbatim>\<open>poke\<close> overwrites cells from \<open>pos\<close>;
  both are only called on ranges inside the block, which their callers check.
  \<^verbatim>\<open>resize\<close> is \<^verbatim>\<open>std::vector::resize\<close>: truncate, or extend with value-initialised
  cells.
\<close>

definition peek :: "'a list \<Rightarrow> nat \<Rightarrow> nat \<Rightarrow> 'a list" where
  "peek buf pos n = take n (drop pos buf)"

definition poke :: "'a list \<Rightarrow> nat \<Rightarrow> 'a list \<Rightarrow> 'a list" where
  "poke buf pos xs = take pos buf @ xs @ drop (pos + length xs) buf"

definition resize :: "'a \<Rightarrow> nat \<Rightarrow> 'a list \<Rightarrow> 'a list" where
  "resize z n xs = take n xs @ replicate (n - length xs) z"

section \<open>Byte images and printing of integers\<close>

fun le_bytes :: "nat \<Rightarrow> nat \<Rightarrow> byte list" where
  "le_bytes 0 v = []"
| "le_bytes (Suc n) v = word_of_nat (v mod 256) # le_bytes n (v div 256)"

fun of_le :: "byte list \<Rightarrow> nat" where
  "of_le [] = 0"
| "of_le (b # bs) = unat b + 256 * of_le bs"

definition digit_char :: "nat \<Rightarrow> char" where
  "digit_char d = char_of (if d < 10 then 48 + d else 87 + d)"

fun show_base :: "nat \<Rightarrow> nat \<Rightarrow> string" where
  "show_base b n =
     (if b < 2 then [] else if n < b then [digit_char n]
      else show_base b (n div b) @ [digit_char (n mod b)])"

declare show_base.simps [simp del]

definition show_nat :: "nat \<Rightarrow> string" where
  "show_nat n = show_base 10 n"

definition show_int :: "int \<Rightarrow> string" where
  "show_int i = (if i < 0 then CHR ''-'' # show_nat (nat (- i)) else show_nat (nat i))"

definition pad_left :: "nat \<Rightarrow> char \<Rightarrow> string \<Rightarrow> string" where
  "pad_left n c s = replicate (n - length s) c @ s"

section \<open>C strings\<close>

text \<open>
  \<^verbatim>\<open>c_str\<close> of a \<^verbatim>\<open>std::string\<close> read as a C string stops at the first NUL.
  \<^verbatim>\<open>strncmp (p, s, strlen p) == 0\<close> for a literal \<open>p\<close> is the prefix test.
\<close>

definition NUL :: char where
  "NUL = char_of (0 :: nat)"

definition CR :: char where
  "CR = char_of (13 :: nat)"

definition LF :: char where
  "LF = char_of (10 :: nat)"

definition TAB :: char where
  "TAB = char_of (9 :: nat)"

definition CRLF :: string where
  "CRLF = [CR, LF]"

definition c_str :: "string \<Rightarrow> string" where
  "c_str s = takeWhile (\<lambda>c. c \<noteq> NUL) s"

fun is_prefix :: "'a list \<Rightarrow> 'a list \<Rightarrow> bool" where
  "is_prefix [] ys = True"
| "is_prefix (x # xs) [] = False"
| "is_prefix (x # xs) (y # ys) = (x = y \<and> is_prefix xs ys)"

definition is_upper :: "char \<Rightarrow> bool" where
  "is_upper c = (65 \<le> (of_char c :: nat) \<and> (of_char c :: nat) \<le> 90)"

definition is_lower :: "char \<Rightarrow> bool" where
  "is_lower c = (97 \<le> (of_char c :: nat) \<and> (of_char c :: nat) \<le> 122)"

definition is_alpha :: "char \<Rightarrow> bool" where
  "is_alpha c = (is_upper c \<or> is_lower c)"

definition is_digit :: "char \<Rightarrow> bool" where
  "is_digit c = (48 \<le> (of_char c :: nat) \<and> (of_char c :: nat) \<le> 57)"

definition is_space :: "char \<Rightarrow> bool" where
  "is_space c \<longleftrightarrow> c = CHR '' '' \<or> (9 \<le> (of_char c :: nat) \<and> (of_char c :: nat) \<le> 13)"

definition to_lower :: "char \<Rightarrow> char" where
  "to_lower c = (if is_upper c then char_of ((of_char c :: nat) + 32) else c)"

section \<open>Generic lemmas\<close>

subsection \<open>Results\<close>

lemma rbind_Inr [simp, result_simps]: "rbind (Inr x) f = f x"
  by (simp add: rbind_def)

lemma rbind_Inl [simp, result_simps]: "rbind (Inl e) f = Inl e"
  by (simp add: rbind_def)

lemma rbind_eq_Inr [result_simps]:
  "(rbind m f = Inr y) \<longleftrightarrow> (\<exists>x. m = Inr x \<and> f x = Inr y)"
  by (cases m) auto

lemma rbind_assoc: "rbind (rbind m f) g = rbind m (\<lambda>x. rbind (f x) g)"
  by (cases m) auto

lemma assert_r_True [simp]: "assert_r True = Inr ()"
  by (simp add: assert_r_def)

lemma assert_r_False [simp]: "assert_r False = Inl Assert_failed"
  by (simp add: assert_r_def)

lemma assert_r_eq_Inr [simp]: "(assert_r b = Inr u) \<longleftrightarrow> b"
  by (simp add: assert_r_def)

lemma is_ok_simps [simp]: "is_ok (Inr x)" "\<not> is_ok (Inl e)"
  by (simp_all add: is_ok_def)

lemma is_okE: "is_ok m \<Longrightarrow> (\<And>x. m = Inr x \<Longrightarrow> P) \<Longrightarrow> P"
  by (cases m) auto

lemma rsafe_simps [simp]:
  "rsafe P (Inr x) = P x" "rsafe P (Inl e) \<longleftrightarrow> e = Bad_alloc \<or> e = Signed_overflow"
  by (simp_all add: rsafe_def)

lemma rsafe_bind: "rsafe P m \<Longrightarrow> (\<And>x. P x \<Longrightarrow> m = Inr x \<Longrightarrow> rsafe Q (f x)) \<Longrightarrow> rsafe Q (rbind m f)"
  by (cases m) auto

lemma rsafe_mono: "rsafe P m \<Longrightarrow> (\<And>x. P x \<Longrightarrow> m = Inr x \<Longrightarrow> Q x) \<Longrightarrow> rsafe Q m"
  by (cases m) auto

lemma rsafeD: "rsafe P m \<Longrightarrow> m = Inr x \<Longrightarrow> P x"
  by simp

subsection \<open>size\_t\<close>

lemma size_sub_le [simp]: "b \<le> a \<Longrightarrow> a < two64 \<Longrightarrow> size_sub a b = a - b"
proof -
  assume "b \<le> a" "a < two64"
  then have "a + (two64 - b mod two64) = (a - b) + two64" by simp
  moreover have "a - b < two64" using \<open>a < two64\<close> by simp
  ultimately show ?thesis unfolding size_sub_def by (simp only: mod_add_self2 mod_less)
qed

lemma size_add_small [simp]: "a + b < two64 \<Longrightarrow> size_add a b = a + b"
  by (simp add: size_add_def)

subsection \<open>Truncating division\<close>

lemma trunc_div_nonneg [simp]: "0 \<le> a \<Longrightarrow> 0 < b \<Longrightarrow> trunc_div a b = a div b"
  by (cases "a = 0") (simp_all add: trunc_div_def)

lemma trunc_mod_nonneg [simp]: "0 \<le> a \<Longrightarrow> 0 < b \<Longrightarrow> trunc_mod a b = a mod b"
  by (simp add: trunc_mod_def minus_mult_div_eq_mod)

subsection \<open>Byte blocks\<close>

lemma length_peek [simp]: "pos + n \<le> length buf \<Longrightarrow> length (peek buf pos n) = n"
  by (simp add: peek_def)

lemma length_poke [simp]: "pos + length xs \<le> length buf \<Longrightarrow> length (poke buf pos xs) = length buf"
  by (simp add: poke_def)

lemma length_resize [simp]: "length (resize z n xs) = n"
  by (simp add: resize_def)

lemma peek_0 [simp]: "peek buf pos 0 = []"
  by (simp add: peek_def)

lemma peek_poke_same [mem_simps]:
  "pos + length xs \<le> length buf \<Longrightarrow> peek (poke buf pos xs) pos (length xs) = xs"
  by (simp add: peek_def poke_def)

lemma peek_poke_extend [mem_simps]:
  assumes "r \<le> w" "w + length xs \<le> length buf"
  shows "peek (poke buf w xs) r (w + length xs - r) = peek buf r (w - r) @ xs"
proof -
  have "drop r (poke buf w xs) = peek buf r (w - r) @ xs @ drop (w + length xs) buf"
    using assms by (simp add: poke_def peek_def drop_take)
  moreover have "length (peek buf r (w - r) @ xs) = w + length xs - r"
    using assms by simp
  ultimately show ?thesis by (simp add: peek_def)
qed

lemma peek_resize [mem_simps]:
  "pos + n \<le> length buf \<Longrightarrow> pos + n \<le> m \<Longrightarrow> peek (resize z m buf) pos n = peek buf pos n"
  by (simp add: peek_def resize_def drop_take min_def)

lemma peek_advance [mem_simps]:
  "k \<le> n \<Longrightarrow> peek buf (pos + k) (n - k) = drop k (peek buf pos n)"
  by (simp add: peek_def drop_take add.commute)

lemma take_peek [mem_simps]: "k \<le> n \<Longrightarrow> take k (peek buf pos n) = peek buf pos k"
  by (simp add: peek_def min_def)

subsection \<open>Byte images\<close>

lemma unat_bound: "unat (w :: 'a::len word) < 2 ^ LENGTH('a)"
  by (rule unsigned_less)

lemma length_le_bytes [simp]: "length (le_bytes n v) = n"
  by (induction n arbitrary: v) auto

lemma of_le_le_bytes: "v < 256 ^ n \<Longrightarrow> of_le (le_bytes n v) = v"
proof (induction n arbitrary: v)
  case 0
  then show ?case by simp
next
  case (Suc n)
  have "v div 256 < 256 ^ n"
    using Suc.prems by (simp add: less_mult_imp_div_less mult.commute)
  then have "of_le (le_bytes n (v div 256)) = v div 256" by (rule Suc.IH)
  moreover have "unat (word_of_nat (v mod 256) :: byte) = v mod 256"
    by (simp add: unat_of_nat)
  ultimately show ?case by simp
qed

subsection \<open>Strings\<close>

lemma special_chars: "NUL = CHR 0x00" "CR = CHR 0x0D" "LF = CHR 0x0A" "TAB = CHR 0x09"
  by (simp_all add: NUL_def CR_def LF_def TAB_def char_of_def bit_Suc_0_iff)

lemma NUL_neq_iff: "NUL \<noteq> c \<longleftrightarrow> c \<noteq> CHR 0x00"
  by (auto simp: special_chars)

lemma is_prefix_append [simp]: "is_prefix xs (xs @ ys)"
  by (induction xs) auto

lemma is_prefix_iff: "is_prefix xs ys \<longleftrightarrow> (\<exists>zs. ys = xs @ zs)"
  by (induction xs ys rule: is_prefix.induct) auto

lemma c_str_no_NUL: "NUL \<notin> set s \<Longrightarrow> c_str s = s"
  unfolding c_str_def by (rule takeWhile_eq_all_conv [THEN iffD2]) auto

lemma show_base_nonempty: "2 \<le> b \<Longrightarrow> show_base b n \<noteq> []"
  by (subst show_base.simps) simp

lemma length_show_base: "length (show_base b n) \<le> Suc n"
proof (induction b n rule: show_base.induct)
  case (1 b n)
  show ?case
  proof (cases "b < 2 \<or> n < b")
    case True
    then show ?thesis by (auto simp: show_base.simps [of b n])
  next
    case False
    then have "Suc (n div b) \<le> n" by (simp add: Suc_le_eq)
    moreover have "length (show_base b (n div b)) \<le> Suc (n div b)" using 1 False by simp
    ultimately have "length (show_base b (n div b)) \<le> n" by (rule order.trans [rotated])
    then show ?thesis using False by (simp add: show_base.simps [of b n])
  qed
qed

lemma length_show_nat: "length (show_nat n) \<le> Suc n"
  unfolding show_nat_def by (rule length_show_base)

lemma of_char_int: "of_char c = int (of_char c)"
  by (simp add: of_nat_of_char)

lemma digit_char_digit: "d < 10 \<Longrightarrow> is_digit (digit_char d) \<and> of_char (digit_char d) = (48 + int d)"
  by (simp add: digit_char_def is_digit_def of_char_int [of "char_of _"])

lemma show_base_digits: "list_all is_digit (show_base 10 n)"
proof (induction "10 :: nat" n rule: show_base.induct)
  case (1 n)
  then show ?case by (subst show_base.simps) (simp add: digit_char_digit)
qed

lemma show_nat_digits: "list_all is_digit (show_nat n)" "show_nat n \<noteq> []"
  by (simp_all add: show_nat_def show_base_digits show_base_nonempty)

lemma length_pad_left: "length s \<le> n \<Longrightarrow> length (pad_left n c s) = n"
  by (simp add: pad_left_def)

end
