(* ===== verification/Containers.thy ===== *)
theory Containers
  imports Prelude "HOL-Library.List_Lexorder" "HOL-Library.Char_ord" "HOL-Library.Product_Lexorder"
begin

text \<open>
  The ordered containers of the C++ standard library, as far as the sources use
  them: \<^verbatim>\<open>std::set\<close> over a linear order as a strictly increasing list and
  \<^verbatim>\<open>std::map\<close> with a comparator as an association list in increasing key order.
  The comparator contract is the locale \<open>key_order\<close> (a strict weak order, as the
  standard demands); its lemmas are the container laws, and it is interpreted here
  for the default comparator of strings and, in the HTTP theory, for the
  case-insensitive one.
\<close>

section \<open>std::set\<close>

definition sset :: "'a::linorder list \<Rightarrow> bool" where
  "sset xs \<longleftrightarrow> sorted xs \<and> distinct xs"

definition sset_insert :: "'a::linorder \<Rightarrow> 'a list \<Rightarrow> 'a list" where
  "sset_insert x xs = (if x \<in> set xs then xs else insort x xs)"

definition sset_erase :: "'a::linorder \<Rightarrow> 'a list \<Rightarrow> 'a list" where
  "sset_erase x xs = removeAll x xs"

lemma set_sset_insert [simp]: "set (sset_insert x xs) = insert x (set xs)"
  by (auto simp: sset_insert_def set_insort_key)

lemma set_sset_erase [simp]: "set (sset_erase x xs) = set xs - {x}"
  by (auto simp: sset_erase_def)

lemma sset_Nil [simp]: "sset []"
  by (simp add: sset_def)

lemma sset_Cons: "sset (x # xs) \<longleftrightarrow> (\<forall>y \<in> set xs. x < y) \<and> sset xs"
  by (auto simp: sset_def order.strict_iff_order)

lemma sset_sset_insert [simp]: "sset xs \<Longrightarrow> sset (sset_insert x xs)"
  by (auto simp: sset_def sset_insert_def sorted_insort distinct_insort)

lemma sset_sset_erase [simp]: "sset xs \<Longrightarrow> sset (sset_erase x xs)"
  by (simp add: sset_def sset_erase_def removeAll_filter_not_eq sorted_wrt_filter)

lemma length_sset_insert: "x \<notin> set xs \<Longrightarrow> length (sset_insert x xs) = Suc (length xs)"
  by (simp add: sset_insert_def)

lemma length_sset_erase: "sset xs \<Longrightarrow> x \<in> set xs \<Longrightarrow> Suc (length (sset_erase x xs)) = length xs"
  by (metis Suc_pred' distinct_remove1_removeAll length_pos_if_in_set length_remove1 sset_def sset_erase_def)

lemma length_eq_card: "sset xs \<Longrightarrow> length xs = card (set xs)"
  by (simp add: sset_def distinct_card)

lemma sset_hd_least: "sset xs \<Longrightarrow> x \<in> set xs \<Longrightarrow> hd xs \<le> x"
  by (cases xs) (auto simp: sset_def)

lemma sset_takeWhile: "sset xs \<Longrightarrow> sset (takeWhile P xs)"
  by (simp add: sset_def sorted_takeWhile)

lemma sset_dropWhile: "sset xs \<Longrightarrow> sset (dropWhile P xs)"
  by (simp add: sset_def sorted_dropWhile)

section \<open>std::map with a comparator\<close>

fun smap_find :: "('k \<Rightarrow> 'k \<Rightarrow> bool) \<Rightarrow> 'k \<Rightarrow> ('k \<times> 'v) list \<Rightarrow> 'v option" where
  "smap_find lt k [] = None"
| "smap_find lt k ((a, w) # m) =
     (if lt a k then smap_find lt k m else if lt k a then None else Some w)"

text \<open>\<^verbatim>\<open>m[k] = v\<close>: an equivalent key that is present stays, its value changes.\<close>

fun smap_put :: "('k \<Rightarrow> 'k \<Rightarrow> bool) \<Rightarrow> 'k \<Rightarrow> 'v \<Rightarrow> ('k \<times> 'v) list \<Rightarrow> ('k \<times> 'v) list" where
  "smap_put lt k v [] = [(k, v)]"
| "smap_put lt k v ((a, w) # m) =
     (if lt a k then (a, w) # smap_put lt k v m
      else if lt k a then (k, v) # (a, w) # m else (a, v) # m)"

fun smap_erase :: "('k \<Rightarrow> 'k \<Rightarrow> bool) \<Rightarrow> 'k \<Rightarrow> ('k \<times> 'v) list \<Rightarrow> ('k \<times> 'v) list" where
  "smap_erase lt k [] = []"
| "smap_erase lt k ((a, w) # m) =
     (if lt a k then (a, w) # smap_erase lt k m else if lt k a then (a, w) # m else m)"

definition smap :: "('k \<Rightarrow> 'k \<Rightarrow> bool) \<Rightarrow> ('k \<times> 'v) list \<Rightarrow> bool" where
  "smap lt m \<longleftrightarrow> sorted_wrt (\<lambda>x y. lt (fst x) (fst y)) m"

definition key_equiv :: "('k \<Rightarrow> 'k \<Rightarrow> bool) \<Rightarrow> 'k \<Rightarrow> 'k \<Rightarrow> bool" where
  "key_equiv lt a b \<longleftrightarrow> \<not> lt a b \<and> \<not> lt b a"

lemma smap_Nil [simp]: "smap lt []"
  by (simp add: smap_def)

lemma smap_Cons: "smap lt ((a, w) # m) \<longleftrightarrow> (\<forall>(b, _) \<in> set m. lt a b) \<and> smap lt m"
  by (auto simp: smap_def)

locale key_order =
  fixes lt :: "'k \<Rightarrow> 'k \<Rightarrow> bool"
  assumes irrefl: "\<not> lt a a"
    and trans: "lt a b \<Longrightarrow> lt b c \<Longrightarrow> lt a c"
    and negtrans: "\<not> lt a b \<Longrightarrow> \<not> lt b c \<Longrightarrow> \<not> lt a c"
begin

lemma asym: "lt a b \<Longrightarrow> \<not> lt b a"
  using irrefl trans by blast

lemma equiv_lt_left: "key_equiv lt a b \<Longrightarrow> lt a c \<longleftrightarrow> lt b c"
  using negtrans unfolding key_equiv_def by blast

lemma equiv_lt_right: "key_equiv lt a b \<Longrightarrow> lt c a \<longleftrightarrow> lt c b"
  using negtrans unfolding key_equiv_def by blast

lemma keys_put: "(b, u) \<in> set (smap_put lt k v m) \<Longrightarrow> b = k \<or> b \<in> fst ` set m"
  by (induction m) (force split: if_splits)+

lemma smap_put_smap: "smap lt m \<Longrightarrow> smap lt (smap_put lt k v m)"
proof (induction m)
  case Nil
  then show ?case by (simp add: smap_def)
next
  case (Cons x m)
  obtain a w where x: "x = (a, w)" by (cases x)
  have head: "\<And>b. b \<in> fst ` set m \<Longrightarrow> lt a b"
    using Cons.prems by (auto simp: x smap_Cons)
  show ?case
  proof (cases "lt a k")
    case True
    have "\<forall>(b, _) \<in> set (smap_put lt k v m). lt a b"
      using True head keys_put by fastforce
    with True Cons show ?thesis by (simp add: x smap_Cons)
  next
    case False
    then show ?thesis
      using Cons.prems head trans by (auto simp: x smap_Cons)
  qed
qed

lemma keys_erase: "set (smap_erase lt k m) \<subseteq> set m"
  by (induction m) (auto split: if_splits)

lemma smap_erase_smap: "smap lt m \<Longrightarrow> smap lt (smap_erase lt k m)"
proof (induction m)
  case Nil
  then show ?case by simp
next
  case (Cons x m)
  obtain a w where x: "x = (a, w)" by (cases x)
  show ?case
    using Cons keys_erase [of k m] by (auto simp: x smap_Cons)
qed

lemma find_below: "\<forall>(b, _) \<in> set m. lt k b \<Longrightarrow> smap_find lt k m = None"
  using asym by (cases m) auto

lemma find_equiv: "key_equiv lt k k' \<Longrightarrow> smap_find lt k m = smap_find lt k' m"
  by (induction m) (auto simp: equiv_lt_left equiv_lt_right)

lemma find_put:
  "smap lt m \<Longrightarrow> smap_find lt k' (smap_put lt k v m) =
     (if key_equiv lt k k' then Some v else smap_find lt k' m)"
proof (induction m)
  case Nil
  then show ?case by (auto simp: key_equiv_def)
next
  case (Cons x m)
  obtain a w where x: "x = (a, w)" by (cases x)
  show ?case
  proof (cases "key_equiv lt k k'")
    case True
    then have "lt a k \<longleftrightarrow> lt a k'" "lt k a \<longleftrightarrow> lt k' a"
      by (auto simp: equiv_lt_left equiv_lt_right)
    with True Cons asym irrefl show ?thesis by (auto simp: x smap_Cons key_equiv_def)
  next
    case False
    then have distinct_keys: "lt k k' \<or> lt k' k" by (auto simp: key_equiv_def)
    have IH: "smap_find lt k' (smap_put lt k v m) = smap_find lt k' m"
      using Cons False by (simp add: x smap_Cons)
    consider "lt a k" | "\<not> lt a k" "lt k a" | "\<not> lt a k" "\<not> lt k a" by blast
    then show ?thesis
    proof cases
      case 1
      with False IH show ?thesis by (simp add: x)
    next
      case 2
      have "\<not> lt k k' \<Longrightarrow> lt k' a \<and> \<not> lt a k'" using distinct_keys 2 trans asym by blast
      with 2 False distinct_keys show ?thesis by (auto simp: x)
    next
      case 3
      then have "key_equiv lt a k" by (simp add: key_equiv_def)
      with distinct_keys have "lt a k' \<or> lt k' a"
        using equiv_lt_left [of a k k'] equiv_lt_right [of a k k'] by simp
      with 3 False show ?thesis by (auto simp: x)
    qed
  qed
qed

lemma find_fold_put:
  "smap lt hs \<Longrightarrow> smap lt m \<Longrightarrow>
   smap_find lt k (fold (\<lambda>(a, v). smap_put lt a v) hs m) = (case smap_find lt k hs of None \<Rightarrow> smap_find lt k m | Some v \<Rightarrow> Some v)"
proof (induction hs arbitrary: m)
  case (Cons h hs)
  obtain a v where h: "h = (a, v)" by (cases h)
  have hs: "smap lt hs" "\<And>b w. (b, w) \<in> set hs \<Longrightarrow> lt a b" using Cons.prems(1) by (auto simp: h smap_Cons)
  have step: "smap_find lt k (fold (\<lambda>(a, v). smap_put lt a v) (h # hs) m)
      = (case smap_find lt k hs of None \<Rightarrow> if key_equiv lt a k then Some v else smap_find lt k m | Some v \<Rightarrow> Some v)"
    using Cons.IH [OF hs(1) smap_put_smap [OF Cons.prems(2)]] by (simp add: h find_put [OF Cons.prems(2)] split: option.split)
  show ?case
  proof (cases "lt a k")
    case True
    then show ?thesis unfolding step by (simp add: h key_equiv_def)
  next
    case False
    have "\<forall>(b, _) \<in> set hs. lt k b" using hs(2) False negtrans by blast
    then have "smap_find lt k hs = None" by (rule find_below)
    then show ?thesis unfolding step using False by (simp add: h key_equiv_def)
  qed
qed simp

lemma find_filter_key:
  "smap lt m \<Longrightarrow> \<not> key_equiv lt a k \<Longrightarrow> smap_find lt k (filter (\<lambda>(b, v). b \<noteq> a) m) = smap_find lt k m"
proof (induction m)
  case (Cons x m)
  obtain b w where x: "x = (b, w)" by (cases x)
  have s: "smap lt m" "\<And>c u. (c, u) \<in> set m \<Longrightarrow> lt b c" using Cons.prems(1) by (auto simp: x smap_Cons)
  show ?case
  proof (cases "b = a \<and> lt k b")
    case True
    then have "\<forall>(c, _) \<in> set m. lt k c" using s(2) trans by blast
    then have "smap_find lt k m = None" by (rule find_below)
    then show ?thesis using True Cons.IH [OF s(1) Cons.prems(2)] asym by (auto simp: x)
  next
    case False
    then show ?thesis using Cons.IH [OF s(1) Cons.prems(2)] Cons.prems(2) by (auto simp: x key_equiv_def)
  qed
qed simp

lemma smap_filter: "smap lt m \<Longrightarrow> smap lt (filter P m)"
  by (simp add: smap_def sorted_wrt_filter)

lemma find_erase:
  "smap lt m \<Longrightarrow> smap_find lt k' (smap_erase lt k m) =
     (if key_equiv lt k k' then None else smap_find lt k' m)"
proof (induction m)
  case Nil
  then show ?case by simp
next
  case (Cons x m)
  obtain a w where x: "x = (a, w)" by (cases x)
  have tail: "smap lt m" and head: "\<And>b u. (b, u) \<in> set m \<Longrightarrow> lt a b"
    using Cons.prems by (auto simp: x smap_Cons)
  have below: "\<not> lt a k' \<Longrightarrow> smap_find lt k' m = None"
    using head negtrans by (intro find_below) blast
  note cong = equiv_lt_left [of k k'] equiv_lt_right [of k k']
  consider "lt a k" | "\<not> lt a k" "lt k a" | "key_equiv lt a k"
    by (auto simp: key_equiv_def)
  then show ?case
  proof cases
    case 1
    then have "key_equiv lt k k' \<Longrightarrow> lt a k'" using cong by simp
    with 1 Cons.IH [OF tail] show ?thesis by (simp add: x)
  next
    case 2
    then have "key_equiv lt k k' \<Longrightarrow> lt k' a \<and> \<not> lt a k'" using cong asym by simp
    with 2 show ?thesis by (auto simp: x)
  next
    case 3
    have "\<not> key_equiv lt k k' \<Longrightarrow> lt a k' \<or> lt k' a" "key_equiv lt k k' \<Longrightarrow> \<not> lt a k'"
      using 3 equiv_lt_left [OF 3, of k'] equiv_lt_right [OF 3, of k'] by (auto simp: key_equiv_def)
    with 3 below show ?thesis by (auto simp: x key_equiv_def)
  qed
qed

lemma put_fresh_length:
  "smap lt m \<Longrightarrow> smap_find lt k m = None \<Longrightarrow> length (smap_put lt k v m) = Suc (length m)"
  by (induction m) (auto simp: smap_Cons split: if_splits)

lemma find_SomeD: "smap_find lt k m = Some v \<Longrightarrow> \<exists>a. (a, v) \<in> set m \<and> key_equiv lt a k"
  by (induction m) (auto simp: key_equiv_def split: if_splits)

end

section \<open>The default comparator\<close>

definition str_less :: "string \<Rightarrow> string \<Rightarrow> bool" where
  "str_less a b \<longleftrightarrow> a < b"

interpretation str: key_order str_less
  by unfold_locales (auto simp: str_less_def)

lemma key_equiv_str [simp]: "key_equiv str_less a b \<longleftrightarrow> a = b"
  by (auto simp: key_equiv_def str_less_def)

end
