(* ===== verification/Timestamp.thy ===== *)
theory Timestamp
  imports Containers
begin

text \<open>
  Points in time (\<^verbatim>\<open>qslary/net/Timestamp.h\<close>, \<^verbatim>\<open>Timestamp.cc\<close>): microseconds since
  the epoch in an \<^verbatim>\<open>int64_t\<close>, compared by value (the type is made a linear order).
  Arithmetic that leaves the 64-bit range is the error \<^const>\<open>Signed_overflow\<close>.
  A finite \<^verbatim>\<open>double\<close> is an integer mantissa and a binary exponent; the product
  \<^verbatim>\<open>seconds * kMicroSecondsPerSecond\<close> is rounded to 53 bits, ties to even, before
  the truncating conversion, as IEEE arithmetic does (no infinities, no NaN, no
  subnormals).  \<^verbatim>\<open>gettimeofday\<close> and \<^verbatim>\<open>gmtime_r\<close> are arguments.
\<close>

section \<open>Finite doubles\<close>

datatype double = Dbl (mant: int) (expo: int)

fun bit_count :: "nat \<Rightarrow> nat" where
  "bit_count n = (if n = 0 then 0 else Suc (bit_count (n div 2)))"

declare bit_count.simps [simp del]

definition round53 :: "int \<Rightarrow> int \<Rightarrow> double" where
  "round53 p e =
     (let a = nat \<bar>p\<bar>; k = bit_count a - 53; q = a div 2 ^ k; r = a mod 2 ^ k in
      if k = 0 then Dbl p e
      else if r > 2 ^ (k - 1) \<or> (r = 2 ^ (k - 1) \<and> odd q)
      then Dbl (sgn p * (int q + 1)) (e + int k)
      else Dbl (sgn p * int q) (e + int k))"

definition double_mult_int :: "double \<Rightarrow> int \<Rightarrow> double" where
  "double_mult_int d i = round53 (mant d * i) (expo d)"

definition double_trunc :: "double \<Rightarrow> int" where
  "double_trunc d =
     (if expo d \<ge> 0 then mant d * 2 ^ nat (expo d) else trunc_div (mant d) (2 ^ nat (- expo d)))"

definition double_pos :: "double \<Rightarrow> bool" where
  "double_pos d \<longleftrightarrow> mant d > 0"

definition double_of_int :: "int \<Rightarrow> double" where
  "double_of_int i = round53 i 0"

section \<open>Timestamps\<close>

(* net/Timestamp.h 12-62: Timestamp *)
datatype timestamp = Timestamp (microSecondsSinceEpoch: int)

(* net/Timestamp.h 58: kMicroSecondsPerSecond *)
definition kMicroSecondsPerSecond :: int where
  "kMicroSecondsPerSecond = 1000 * 1000"

(* net/Timestamp.h 64: operator< *)
definition ts_less :: "timestamp \<Rightarrow> timestamp \<Rightarrow> bool" where
  "ts_less lhs rhs \<longleftrightarrow> microSecondsSinceEpoch lhs < microSecondsSinceEpoch rhs"

instantiation timestamp :: linorder
begin

definition less_timestamp :: "timestamp \<Rightarrow> timestamp \<Rightarrow> bool" where
  "less_timestamp lhs rhs \<longleftrightarrow> ts_less lhs rhs"

definition less_eq_timestamp :: "timestamp \<Rightarrow> timestamp \<Rightarrow> bool" where
  "less_eq_timestamp lhs rhs \<longleftrightarrow> microSecondsSinceEpoch lhs \<le> microSecondsSinceEpoch rhs"

instance
  by standard (auto simp: less_timestamp_def ts_less_def less_eq_timestamp_def timestamp.expand)

end

(* net/Timestamp.h 34: Timestamp::valid *)
definition ts_valid :: "timestamp \<Rightarrow> bool" where
  "ts_valid t \<longleftrightarrow> microSecondsSinceEpoch t > 0"

(* net/Timestamp.h 48: Timestamp::invalid *)
definition ts_invalid :: timestamp where
  "ts_invalid = Timestamp 0"

(* net/Timestamp.h 38: Timestamp::secondsSinceEpoch *)
definition secondsSinceEpoch :: "timestamp \<Rightarrow> int" where
  "secondsSinceEpoch t = trunc_div (microSecondsSinceEpoch t) kMicroSecondsPerSecond"

definition ts_checked :: "int \<Rightarrow> timestamp result" where
  "ts_checked us = (if in_int64 us then Inr (Timestamp us) else Inl Signed_overflow)"

(* net/Timestamp.h 52: Timestamp::fromUnixTime *)
definition fromUnixTime :: "int \<Rightarrow> int \<Rightarrow> timestamp result" where
  "fromUnixTime t microseconds =
     (if in_int64 (t * kMicroSecondsPerSecond)
      then ts_checked (t * kMicroSecondsPerSecond + microseconds) else Inl Signed_overflow)"

(* net/Timestamp.cc 51: Timestamp::now *)
definition ts_now :: "int \<times> int \<Rightarrow> timestamp result" where
  "ts_now tv = fromUnixTime (fst tv) (snd tv)"

(* net/Timestamp.h 92: addTime *)
definition addTime :: "timestamp \<Rightarrow> double \<Rightarrow> timestamp result" where
  "addTime ts seconds =
     (let delta = double_trunc (double_mult_int seconds kMicroSecondsPerSecond) in
      if in_int64 delta then ts_checked (microSecondsSinceEpoch ts + delta)
      else Inl Signed_overflow)"

definition fmt_0d :: "nat \<Rightarrow> int \<Rightarrow> string" where
  "fmt_0d n i =
     (if i < 0 then CHR ''-'' # pad_left (n - 1) (CHR ''0'') (show_nat (nat (- i)))
      else pad_left n (CHR ''0'') (show_nat (nat i)))"

definition snprintf :: "nat \<Rightarrow> string \<Rightarrow> string" where
  "snprintf bufsize s = take (bufsize - 1) s"

(* net/Timestamp.cc 15: Timestamp::toString *)
definition ts_toString :: "timestamp \<Rightarrow> string" where
  "ts_toString t =
     (let seconds = trunc_div (microSecondsSinceEpoch t) kMicroSecondsPerSecond;
          microseconds = trunc_mod (microSecondsSinceEpoch t) kMicroSecondsPerSecond in
      snprintf 32 (show_int seconds @ ''.'' @ fmt_0d 6 microseconds))"

record tm =
  tm_year :: int
  tm_mon :: int
  tm_mday :: int
  tm_hour :: int
  tm_min :: int
  tm_sec :: int

(* net/Timestamp.cc 26: Timestamp::toFormattedString *)
definition toFormattedString :: "(int \<Rightarrow> tm) \<Rightarrow> bool \<Rightarrow> timestamp \<Rightarrow> string" where
  "toFormattedString gmtime_r showMicroseconds t =
     (let seconds = trunc_div (microSecondsSinceEpoch t) kMicroSecondsPerSecond;
          g = gmtime_r seconds;
          date = pad_left 4 (CHR '' '') (show_int (tm_year g + 1900)) @ fmt_0d 2 (tm_mon g + 1)
                 @ fmt_0d 2 (tm_mday g) @ '' '' @ fmt_0d 2 (tm_hour g) @ '':'' @ fmt_0d 2 (tm_min g)
                 @ '':'' @ fmt_0d 2 (tm_sec g) in
      if showMicroseconds
      then snprintf 64 (date @ ''.'' @ fmt_0d 6 (trunc_mod (microSecondsSinceEpoch t) kMicroSecondsPerSecond))
      else snprintf 64 date)"

section \<open>Lemmas\<close>

lemma timestamp_less_iff [simp]: "Timestamp a < Timestamp b \<longleftrightarrow> a < b"
  and timestamp_le_iff [simp]: "Timestamp a \<le> Timestamp b \<longleftrightarrow> a \<le> b"
  by (simp_all add: less_timestamp_def ts_less_def less_eq_timestamp_def)

lemma bit_count_le: "n < 2 ^ k \<Longrightarrow> bit_count n \<le> k"
proof (induction k arbitrary: n)
  case 0
  then show ?case by (simp add: bit_count.simps)
next
  case (Suc k)
  then have "bit_count (n div 2) \<le> k" by simp
  then show ?case by (subst bit_count.simps) simp
qed

lemma round53_exact: "\<bar>p\<bar> < 2 ^ 53 \<Longrightarrow> round53 p e = Dbl p e"
proof -
  assume "\<bar>p\<bar> < 2 ^ 53"
  then have "nat \<bar>p\<bar> < 2 ^ 53" by (simp add: nat_less_iff)
  then have "bit_count (nat \<bar>p\<bar>) - 53 = 0" using bit_count_le by simp
  then show ?thesis by (simp add: round53_def)
qed

lemma addTime_whole_seconds:
  assumes "\<bar>n * 1000000\<bar> < 2 ^ 53"
  shows "addTime t (double_of_int n) = ts_checked (microSecondsSinceEpoch t + n * 1000000)"
proof -
  have small: "\<bar>n\<bar> < 2 ^ 53" using assms by (simp add: abs_mult)
  have "in_int64 (n * 1000000)" using assms by (auto simp: in_int64_def)
  then show ?thesis
    using assms small
    by (simp add: addTime_def double_of_int_def double_mult_int_def round53_exact double_trunc_def
        kMicroSecondsPerSecond_def)
qed

end
