(* ===== verification/Sync.thy ===== *)
theory Sync
  imports Timestamp
begin

text \<open>
  Locks and latches (\<^verbatim>\<open>qslary/base/Mutex.h\<close>, \<^verbatim>\<open>Condition.h\<close>, \<^verbatim>\<open>Condition.cc\<close>,
  \<^verbatim>\<open>CountDownLatch.cc\<close>, \<^verbatim>\<open>Atomic.h\<close>).

  A thread is the list of the steps it still has to take; each member function is such
  a list, one element per access of a shared object, and the step relation interleaves
  the threads of the process in any order.  A \<^verbatim>\<open>pthread_mutex_t\<close> is the thread that owns
  it, a condition variable the list of the threads blocked on it.  As POSIX specifies,
  a thread that waits gives the mutex up and joins the list in one step, is taken off
  by a signal, a broadcast or a spurious wake-up, and takes the mutex again before it
  goes on; releasing a mutex one does not own is \<^const>\<open>Undefined_behaviour\<close>.
  Statements and conditions on the data a lock protects are labels, interpreted by
  \<open>sem\<close> and \<open>tst\<close>.

  The lemmas show, for every program whose members are properly bracketed, that the
  owner recorded in \<^verbatim>\<open>m_holder\<close> is the thread inside, that there is one such thread at
  a time, and that a process in which no thread can go on is one in which every
  unfinished thread waits for a signal; for the latch, that no waiter is left behind.
\<close>

section \<open>Definitions\<close>

type_synonym tid = int

(* base/Mutex.h 101-102: m_mutex, m_holder *)
record mutex_lock =
  m_mutex :: "tid option"
  m_holder :: tid

(* base/Mutex.h 46: MutexLock::MutexLock *)
definition MutexLock_ctor :: mutex_lock where
  "MutexLock_ctor = \<lparr>m_mutex = None, m_holder = 0\<rparr>"

text \<open>Destroying a mutex that is locked is reported as \<^verbatim>\<open>EBUSY\<close>, which \<^verbatim>\<open>MCHECK\<close> asserts not to happen.\<close>

(* base/Mutex.h 52: MutexLock::~MutexLock *)
definition MutexLock_dtor :: "mutex_lock \<Rightarrow> unit result" where
  "MutexLock_dtor m = rbind (assert_r (m_holder m = 0)) (\<lambda>_. assert_r (m_mutex m = None))"

(* base/Mutex.h 58: MutexLock::isLockedByThisThread *)
definition isLockedByThisThread :: "tid \<Rightarrow> mutex_lock \<Rightarrow> bool" where
  "isLockedByThisThread t m \<longleftrightarrow> m_holder m = t"

(* base/Mutex.h 63: MutexLock::assertLocked *)
definition assertLocked :: "tid \<Rightarrow> mutex_lock \<Rightarrow> unit result" where
  "assertLocked t m = assert_r (isLockedByThisThread t m)"

(* base/Mutex.h 65: MutexLock::assignHolder *)
definition assignHolder :: "tid \<Rightarrow> mutex_lock \<Rightarrow> mutex_lock" where
  "assignHolder t m = m\<lparr>m_holder := t\<rparr>"

(* base/Mutex.h 67: MutexLock::unassignHolder *)
definition unassignHolder :: "mutex_lock \<Rightarrow> mutex_lock" where
  "unassignHolder m = m\<lparr>m_holder := 0\<rparr>"

text \<open>The steps of a thread; a lock and its condition variable have the same number.\<close>

datatype ('s, 'b) tinstr =
    Pmutex_lock nat
  | Pmutex_unlock nat
  | Pcond_wait nat
  | Pcond_relock nat
  | Pcond_signal nat
  | Pcond_broadcast nat
  | Assign_holder nat
  | Unassign_holder nat
  | Stmt 's
  | Assert_that 'b
  | If_then 'b "('s, 'b) tinstr list"
  | While_do 'b "('s, 'b) tinstr list"

type_synonym ('s, 'b) tcode = "('s, 'b) tinstr list"

record ('s, 'b, 'd) sys =
  s_mutex :: "nat \<Rightarrow> mutex_lock"
  s_waiting :: "nat \<Rightarrow> tid list"
  s_data :: 'd
  s_code :: "tid \<Rightarrow> ('s, 'b) tcode"
  s_fault :: "cpp_error option"

definition upd_mutex :: "nat \<Rightarrow> (mutex_lock \<Rightarrow> mutex_lock) \<Rightarrow> ('s, 'b, 'd) sys \<Rightarrow> ('s, 'b, 'd) sys" where
  "upd_mutex n f s = s\<lparr>s_mutex := (s_mutex s)(n := f (s_mutex s n))\<rparr>"

definition owner :: "nat \<Rightarrow> ('s, 'b, 'd) sys \<Rightarrow> tid option" where
  "owner n s = m_mutex (s_mutex s n)"

definition unblock :: "nat \<Rightarrow> tid \<Rightarrow> ('s, 'b, 'd) sys \<Rightarrow> ('s, 'b, 'd) sys" where
  "unblock n t s = s\<lparr>s_waiting := (s_waiting s)(n := removeAll t (s_waiting s n))\<rparr>"

text \<open>
  One step of thread \<open>t\<close>, whose remaining steps \<open>s\<close> already holds; \<open>c\<close> is the thread a
  signal wakes.  \<open>None\<close> is a step that cannot be taken now.
\<close>

fun exec_instr :: "('s \<Rightarrow> 'd \<Rightarrow> 'd result) \<Rightarrow> ('b \<Rightarrow> 'd \<Rightarrow> bool) \<Rightarrow> tid \<Rightarrow> tid \<Rightarrow> ('s, 'b) tinstr
    \<Rightarrow> ('s, 'b, 'd) sys \<Rightarrow> ('s, 'b, 'd) sys option" where
  "exec_instr sem tst c t (Pmutex_lock n) s =
     (if owner n s = None then Some (upd_mutex n (\<lambda>m. m\<lparr>m_mutex := Some t\<rparr>) s) else None)"
| "exec_instr sem tst c t (Pmutex_unlock n) s =
     Some (if owner n s = Some t then upd_mutex n (\<lambda>m. m\<lparr>m_mutex := None\<rparr>) s
           else s\<lparr>s_fault := Some Undefined_behaviour\<rparr>)"
| "exec_instr sem tst c t (Pcond_wait n) s =
     Some (if owner n s = Some t
           then upd_mutex n (\<lambda>m. m\<lparr>m_mutex := None\<rparr>) (s\<lparr>s_waiting := (s_waiting s)(n := s_waiting s n @ [t])\<rparr>)
           else s\<lparr>s_fault := Some Undefined_behaviour\<rparr>)"
| "exec_instr sem tst c t (Pcond_relock n) s =
     (if owner n s = None \<and> t \<notin> set (s_waiting s n) then Some (upd_mutex n (\<lambda>m. m\<lparr>m_mutex := Some t\<rparr>) s) else None)"
| "exec_instr sem tst c t (Pcond_signal n) s =
     (if s_waiting s n = [] then Some s else if c \<in> set (s_waiting s n) then Some (unblock n c s) else None)"
| "exec_instr sem tst c t (Pcond_broadcast n) s = Some (s\<lparr>s_waiting := (s_waiting s)(n := [])\<rparr>)"
| "exec_instr sem tst c t (Assign_holder n) s = Some (upd_mutex n (assignHolder t) s)"
| "exec_instr sem tst c t (Unassign_holder n) s = Some (upd_mutex n unassignHolder s)"
| "exec_instr sem tst c t (Stmt x) s =
     Some (case sem x (s_data s) of Inr d \<Rightarrow> s\<lparr>s_data := d\<rparr> | Inl e \<Rightarrow> s\<lparr>s_fault := Some e\<rparr>)"
| "exec_instr sem tst c t (Assert_that b) s = Some (if tst b (s_data s) then s else s\<lparr>s_fault := Some Assert_failed\<rparr>)"
| "exec_instr sem tst c t (If_then b body) s =
     Some (if tst b (s_data s) then s\<lparr>s_code := (s_code s)(t := body @ s_code s t)\<rparr> else s)"
| "exec_instr sem tst c t (While_do b body) s =
     Some (if tst b (s_data s) then s\<lparr>s_code := (s_code s)(t := body @ While_do b body # s_code s t)\<rparr> else s)"

definition exec :: "('s \<Rightarrow> 'd \<Rightarrow> 'd result) \<Rightarrow> ('b \<Rightarrow> 'd \<Rightarrow> bool) \<Rightarrow> tid \<Rightarrow> tid
    \<Rightarrow> ('s, 'b, 'd) sys \<Rightarrow> ('s, 'b, 'd) sys option" where
  "exec sem tst c t s =
     (if s_fault s \<noteq> None then None
      else case s_code s t of [] \<Rightarrow> None
         | i # is \<Rightarrow> exec_instr sem tst c t i (s\<lparr>s_code := (s_code s)(t := is)\<rparr>))"

inductive sys_step :: "('s \<Rightarrow> 'd \<Rightarrow> 'd result) \<Rightarrow> ('b \<Rightarrow> 'd \<Rightarrow> bool) \<Rightarrow> ('s, 'b, 'd) sys \<Rightarrow> ('s, 'b, 'd) sys \<Rightarrow> bool"
  for sem tst where
  thread_step: "exec sem tst c t s = Some s' \<Longrightarrow> sys_step sem tst s s'"
| spurious_wakeup: "s_fault s = None \<Longrightarrow> t \<in> set (s_waiting s n) \<Longrightarrow> sys_step sem tst s (unblock n t s)"

inductive_cases sys_step_cases: "sys_step sem tst s s'"

text \<open>No thread can take a step.\<close>

definition stuck :: "('s \<Rightarrow> 'd \<Rightarrow> 'd result) \<Rightarrow> ('b \<Rightarrow> 'd \<Rightarrow> bool) \<Rightarrow> ('s, 'b, 'd) sys \<Rightarrow> bool" where
  "stuck sem tst s \<longleftrightarrow> (\<forall>c t. exec sem tst c t s = None)"

(* base/Mutex.h 69: MutexLock::lock *)
definition MutexLock_lock :: "nat \<Rightarrow> ('s, 'b) tcode" where
  "MutexLock_lock n = [Pmutex_lock n, Assign_holder n]"

(* base/Mutex.h 75: MutexLock::unlock *)
definition MutexLock_unlock :: "nat \<Rightarrow> ('s, 'b) tcode" where
  "MutexLock_unlock n = [Unassign_holder n, Pmutex_unlock n]"

(* base/Mutex.h 233-243: MutexLockGuard *)
definition MutexLockGuard :: "nat \<Rightarrow> ('s, 'b) tcode \<Rightarrow> ('s, 'b) tcode" where
  "MutexLockGuard n body = MutexLock_lock n @ body @ MutexLock_unlock n"

(* base/Mutex.h 86-99: MutexLock::UnassignGuard *)
definition UnassignGuard :: "nat \<Rightarrow> ('s, 'b) tcode \<Rightarrow> ('s, 'b) tcode" where
  "UnassignGuard n body = Unassign_holder n # body @ [Assign_holder n]"

(* base/Condition.h 21: Condition::wait *)
definition Condition_wait :: "nat \<Rightarrow> ('s, 'b) tcode" where
  "Condition_wait n = UnassignGuard n [Pcond_wait n, Pcond_relock n]"

(* base/Condition.h 35: Condition::notify *)
definition Condition_notify :: "nat \<Rightarrow> ('s, 'b) tcode" where
  "Condition_notify n = [Pcond_signal n]"

(* base/Condition.h 37: Condition::notifyAll *)
definition Condition_notifyAll :: "nat \<Rightarrow> ('s, 'b) tcode" where
  "Condition_notifyAll n = [Pcond_broadcast n]"

lemmas lock_code = MutexLockGuard_def MutexLock_lock_def MutexLock_unlock_def UnassignGuard_def Condition_wait_def
  Condition_notify_def Condition_notifyAll_def

text \<open>
  \<^verbatim>\<open>waitForSeconds\<close> computes an absolute time and waits like \<^verbatim>\<open>wait\<close>; running into the
  time is one of the wake-ups that need no signal.  The clock is an argument.
\<close>

(* base/Condition.cc 9-19: Condition::waitForSeconds, the absolute time *)
definition wait_abstime :: "int \<times> int \<Rightarrow> double \<Rightarrow> (int \<times> int) result" where
  "wait_abstime now seconds =
     (let nanoseconds = double_trunc (double_mult_int seconds 1000000000); total = snd now + nanoseconds in
      if \<not> in_int64 nanoseconds \<or> \<not> in_int64 total then Inl Signed_overflow
      else Inr (fst now + trunc_div total 1000000000, trunc_mod total 1000000000))"

subsection \<open>Reader-writer locks, scoped locks and atomic integers\<close>

record rw_mutex =
  rw_writer :: "tid option"
  rw_readers :: "tid list"

(* base/Mutex.h 125: RWMutex::rlock *)
definition rlock :: "tid \<Rightarrow> rw_mutex \<Rightarrow> rw_mutex option" where
  "rlock t m = (if rw_writer m = None then Some (m\<lparr>rw_readers := t # rw_readers m\<rparr>) else None)"

(* base/Mutex.h 127: RWMutex::wlock *)
definition wlock :: "tid \<Rightarrow> rw_mutex \<Rightarrow> rw_mutex option" where
  "wlock t m = (if rw_writer m = None \<and> rw_readers m = [] then Some (m\<lparr>rw_writer := Some t\<rparr>) else None)"

(* base/Mutex.h 128: RWMutex::unlock *)
definition rw_unlock :: "tid \<Rightarrow> rw_mutex \<Rightarrow> rw_mutex result" where
  "rw_unlock t m =
     (if rw_writer m = Some t then Inr (m\<lparr>rw_writer := None\<rparr>)
      else if t \<in> set (rw_readers m) then Inr (m\<lparr>rw_readers := remove1 t (rw_readers m)\<rparr>)
      else Inl Undefined_behaviour)"

text \<open>
  The three scoped locks differ in the member they lock with, an argument here; \<open>None\<close>
  is a call that blocks.
\<close>

(* base/Mutex.h 163-164: mutex_, locked_ *)
record 'm scoped_lock =
  sl_mutex :: 'm
  sl_locked :: bool

(* base/Mutex.h 137: ScopedLockImpl::ScopedLockImpl *)
definition ScopedLock_ctor :: "('m \<Rightarrow> 'm option) \<Rightarrow> 'm \<Rightarrow> 'm scoped_lock option" where
  "ScopedLock_ctor lock m = map_option (\<lambda>m'. \<lparr>sl_mutex = m', sl_locked = True\<rparr>) (lock m)"

(* base/Mutex.h 144: ScopedLockImpl::lock *)
definition ScopedLock_lock :: "('m \<Rightarrow> 'm option) \<Rightarrow> 'm scoped_lock \<Rightarrow> 'm scoped_lock option" where
  "ScopedLock_lock lock s =
     (if \<not> sl_locked s then map_option (\<lambda>m'. \<lparr>sl_mutex = m', sl_locked = True\<rparr>) (lock (sl_mutex s)) else Some s)"

(* base/Mutex.h 153: ScopedLockImpl::unlock *)
definition ScopedLock_unlock :: "('m \<Rightarrow> 'm result) \<Rightarrow> 'm scoped_lock \<Rightarrow> 'm scoped_lock result" where
  "ScopedLock_unlock unlock s =
     (if sl_locked s then rbind (unlock (sl_mutex s)) (\<lambda>m'. Inr \<lparr>sl_mutex = m', sl_locked = False\<rparr>) else Inr s)"

(* base/Mutex.h 142: ScopedLockImpl::~ScopedLockImpl *)
definition ScopedLock_dtor :: "('m \<Rightarrow> 'm result) \<Rightarrow> 'm scoped_lock \<Rightarrow> 'm scoped_lock result" where
  "ScopedLock_dtor unlock s = ScopedLock_unlock unlock s"

(* base/Mutex.h 170: ReadScopedLockImpl::ReadScopedLockImpl *)
definition ReadLockGuard_ctor :: "tid \<Rightarrow> rw_mutex \<Rightarrow> rw_mutex scoped_lock option" where
  "ReadLockGuard_ctor t = ScopedLock_ctor (rlock t)"

(* base/Mutex.h 177: ReadScopedLockImpl::lock *)
definition ReadLockGuard_lock :: "tid \<Rightarrow> rw_mutex scoped_lock \<Rightarrow> rw_mutex scoped_lock option" where
  "ReadLockGuard_lock t = ScopedLock_lock (rlock t)"

(* base/Mutex.h 186: ReadScopedLockImpl::unlock *)
definition ReadLockGuard_unlock :: "tid \<Rightarrow> rw_mutex scoped_lock \<Rightarrow> rw_mutex scoped_lock result" where
  "ReadLockGuard_unlock t = ScopedLock_unlock (rw_unlock t)"

(* base/Mutex.h 203: WriteScopedLockImpl::WriteScopedLockImpl *)
definition WriteLockGuard_ctor :: "tid \<Rightarrow> rw_mutex \<Rightarrow> rw_mutex scoped_lock option" where
  "WriteLockGuard_ctor t = ScopedLock_ctor (wlock t)"

(* base/Mutex.h 210: WriteScopedLockImpl::lock *)
definition WriteLockGuard_lock :: "tid \<Rightarrow> rw_mutex scoped_lock \<Rightarrow> rw_mutex scoped_lock option" where
  "WriteLockGuard_lock t = ScopedLock_lock (wlock t)"

(* base/Mutex.h 219: WriteScopedLockImpl::unlock *)
definition WriteLockGuard_unlock :: "tid \<Rightarrow> rw_mutex scoped_lock \<Rightarrow> rw_mutex scoped_lock result" where
  "WriteLockGuard_unlock t = ScopedLock_unlock (rw_unlock t)"

text \<open>An atomic integer of \<open>w\<close> bits; the compiler's primitive wraps around, the addition in \<^verbatim>\<open>addAndGet\<close> is a signed one.\<close>

(* base/Atomic.h 36: AtomicIntegerT::getAndAdd *)
definition getAndAdd :: "'w::len word \<Rightarrow> 'w word \<Rightarrow> 'w word \<times> 'w word" where
  "getAndAdd x v = (v, v + x)"

(* base/Atomic.h 38: AtomicIntegerT::addAndGet *)
definition addAndGet :: "'w::len word \<Rightarrow> 'w word \<Rightarrow> ('w word \<times> 'w word) result" where
  "addAndGet x v =
     (let (r, v') = getAndAdd x v in
      if sint (r + x) = sint r + sint x then Inr (r + x, v') else Inl Signed_overflow)"

(* base/Atomic.h 40: AtomicIntegerT::incrementAndGet *)
definition incrementAndGet :: "'w::len word \<Rightarrow> ('w word \<times> 'w word) result" where
  "incrementAndGet v = addAndGet 1 v"

(* base/Atomic.h 42: AtomicIntegerT::decrementAndGet *)
definition decrementAndGet :: "'w::len word \<Rightarrow> ('w word \<times> 'w word) result" where
  "decrementAndGet v = addAndGet (- 1) v"

(* base/Atomic.h 30: AtomicIntegerT::get *)
definition atomic_get :: "'w::len word \<Rightarrow> 'w word \<times> 'w word" where
  "atomic_get v = (v, if v = 0 then 0 else v)"

(* base/Atomic.h 50: AtomicIntegerT::getAndSet *)
definition getAndSet :: "'w::len word \<Rightarrow> 'w word \<Rightarrow> 'w word \<times> 'w word" where
  "getAndSet newValue v = (v, newValue)"

text \<open>A scoped lock gives back what it took exactly once, however often it is unlocked and locked.\<close>

lemma scoped_unlock_once:
  "ScopedLock_unlock unlock s = Inr s' \<Longrightarrow> \<not> sl_locked s' \<and> ScopedLock_dtor unlock s' = Inr s'"
  by (auto simp: ScopedLock_dtor_def ScopedLock_unlock_def rbind_def split: if_splits sum.splits)

lemma write_guard_round_trip:
  assumes "WriteLockGuard_ctor t m = Some s"
  shows "rlock u (sl_mutex s) = None" "wlock u (sl_mutex s) = None"
    "\<exists>s'. WriteLockGuard_unlock t s = Inr s' \<and> sl_mutex s' = m"
  using assms
  by (auto simp: WriteLockGuard_ctor_def WriteLockGuard_unlock_def ScopedLock_ctor_def ScopedLock_unlock_def wlock_def rlock_def
      rw_unlock_def split: if_splits)

section \<open>Bracketed programs\<close>

text \<open>
  Where a thread is with respect to lock \<open>n\<close>: it does not have it, has it without
  being recorded as its holder, is inside, or has yet to take it again after a wait.
  \<open>after\<close> follows the steps of a thread and is undefined where they leave the order of
  the brackets, or where a step that \<open>guarded\<close> says the lock protects is taken outside.
\<close>

datatype lstate = L_free | L_taken | L_held | L_waiting

definition move :: "lstate \<Rightarrow> lstate \<Rightarrow> lstate \<Rightarrow> lstate option" where
  "move a b st = (if st = a then Some b else None)"

definition keep :: "('i \<Rightarrow> bool) \<Rightarrow> 'i \<Rightarrow> lstate \<Rightarrow> lstate option" where
  "keep g i st = (if g i \<longrightarrow> st = L_held then Some st else None)"

lemmas place_defs = move_def keep_def

fun after_instr :: "(('s, 'b) tinstr \<Rightarrow> bool) \<Rightarrow> nat \<Rightarrow> lstate \<Rightarrow> ('s, 'b) tinstr \<Rightarrow> lstate option"
  and after :: "(('s, 'b) tinstr \<Rightarrow> bool) \<Rightarrow> nat \<Rightarrow> lstate \<Rightarrow> ('s, 'b) tcode \<Rightarrow> lstate option" where
  "after_instr g n st (Pmutex_lock m) = (if m = n then move L_free L_taken st else keep g (Pmutex_lock m) st)"
| "after_instr g n st (Pmutex_unlock m) = (if m = n then move L_taken L_free st else keep g (Pmutex_unlock m) st)"
| "after_instr g n st (Pcond_wait m) = (if m = n then move L_taken L_waiting st else keep g (Pcond_wait m) st)"
| "after_instr g n st (Pcond_relock m) = (if m = n then move L_waiting L_taken st else keep g (Pcond_relock m) st)"
| "after_instr g n st (Assign_holder m) = (if m = n then move L_taken L_held st else keep g (Assign_holder m) st)"
| "after_instr g n st (Unassign_holder m) = (if m = n then move L_held L_taken st else keep g (Unassign_holder m) st)"
| "after_instr g n st (If_then b body) =
     (if (g (If_then b body) \<longrightarrow> st = L_held) \<and> after g n st body = Some st then Some st else None)"
| "after_instr g n st (While_do b body) =
     (if (g (While_do b body) \<longrightarrow> st = L_held) \<and> after g n st body = Some st then Some st else None)"
| "after_instr g n st i = keep g i st"
| "after g n st [] = Some st"
| "after g n st (i # is) = (case after_instr g n st i of None \<Rightarrow> None | Some st' \<Rightarrow> after g n st' is)"

lemma after_append: "after g n st (xs @ ys) = (case after g n st xs of None \<Rightarrow> None | Some st' \<Rightarrow> after g n st' ys)"
  by (induction xs arbitrary: st) (auto split: option.split)

definition lock_inv :: "(('s, 'b) tinstr \<Rightarrow> bool) \<Rightarrow> nat \<Rightarrow> (tid \<Rightarrow> lstate) \<Rightarrow> ('s, 'b, 'd) sys \<Rightarrow> bool" where
  "lock_inv g n st s \<longleftrightarrow>
     (\<forall>t. after g n (st t) (s_code s t) = Some L_free)
     \<and> (\<forall>t. owner n s = Some t \<longleftrightarrow> st t = L_taken \<or> st t = L_held)
     \<and> (\<forall>t. st t = L_held \<longrightarrow> m_holder (s_mutex s n) = t) \<and> ((\<forall>t. st t \<noteq> L_held) \<longrightarrow> m_holder (s_mutex s n) = 0)
     \<and> (\<forall>t. t \<in> set (s_waiting s n) \<longrightarrow> st t = L_waiting)"

lemma lock_inv_unblock: "lock_inv g n st s \<Longrightarrow> lock_inv g n st (unblock m t s)"
  by (auto simp: lock_inv_def unblock_def owner_def)


text \<open>The steps that open and close lock \<open>n\<close>; every other step leaves the lock and the thread's place.\<close>

fun is_bracket :: "nat \<Rightarrow> ('s, 'b) tinstr \<Rightarrow> bool" where
  "is_bracket n (Pmutex_lock m) = (m = n)"
| "is_bracket n (Pmutex_unlock m) = (m = n)"
| "is_bracket n (Pcond_wait m) = (m = n)"
| "is_bracket n (Pcond_relock m) = (m = n)"
| "is_bracket n (Assign_holder m) = (m = n)"
| "is_bracket n (Unassign_holder m) = (m = n)"
| "is_bracket n i = False"

lemma other_step:
  assumes "\<not> is_bracket n i" "after_instr g n st i = Some x" "exec_instr sem tst c t i s = Some s'"
  shows "x = st" "s_mutex s' n = s_mutex s n" "set (s_waiting s' n) \<subseteq> set (s_waiting s n)"
    "after g n st (s_code s' t) = after g n st (s_code s t)" "u \<noteq> t \<Longrightarrow> s_code s' u = s_code s u"
  using assms
  by (cases i; auto simp: place_defs upd_mutex_def unblock_def after_append split: if_splits sum.splits; fail)+

lemma bracket_step:
  assumes "is_bracket n i" "after_instr g n st i = Some x" "exec_instr sem tst c t i s = Some s'"
    "owner n s = Some t \<longleftrightarrow> st = L_taken \<or> st = L_held"
  shows "s_code s' = s_code s" "s_fault s' = s_fault s"
    "owner n s' = (if x = L_taken \<or> x = L_held then Some t else None)"
    "owner n s = None \<or> owner n s = Some t"
    "m_holder (s_mutex s' n) = (if st = L_held then 0 else if x = L_held then t else m_holder (s_mutex s n))"
    "set (s_waiting s' n) = (if x = L_waiting then insert t (set (s_waiting s n)) else set (s_waiting s n))"
    "x \<noteq> st" "st = L_waiting \<longrightarrow> t \<notin> set (s_waiting s n)"
  using assms
  by (cases i; auto simp: place_defs upd_mutex_def owner_def assignHolder_def unassignHolder_def split: if_splits; fail)+

lemma exec_inv:
  assumes "lock_inv g n st s" "exec sem tst c t s = Some s'"
  shows "\<exists>st'. lock_inv g n st' s'"
proof -
  obtain i "is" where i: "s_code s t = i # is" "exec_instr sem tst c t i (s\<lparr>s_code := (s_code s)(t := is)\<rparr>) = Some s'"
    using assms(2) by (auto simp: exec_def split: if_splits list.splits)
  let ?s = "s\<lparr>s_code := (s_code s)(t := is)\<rparr>"
  have inv: "after g n (st u) (s_code s u) = Some L_free" "owner n s = Some u \<longleftrightarrow> st u = L_taken \<or> st u = L_held"
    "st u = L_held \<Longrightarrow> m_holder (s_mutex s n) = u" "(\<forall>u. st u \<noteq> L_held) \<longrightarrow> m_holder (s_mutex s n) = 0"
    "u \<in> set (s_waiting s n) \<Longrightarrow> st u = L_waiting" for u
    using assms(1) unfolding lock_inv_def by blast+
  obtain x where x: "after_instr g n (st t) i = Some x" "after g n x is = Some L_free"
    using inv(1) [of t] i(1) by (auto split: option.splits)
  show ?thesis
  proof (cases "is_bracket n i")
    case False
    note o = other_step [OF False x(1) i(2)]
    have "after g n (st u) (s_code s' u) = Some L_free" for u
      using o(1,4) o(5) [of u] x(2) inv(1) [of u] by (cases "u = t") auto
    moreover have "owner n s' = owner n s" using o(2) by (simp add: owner_def)
    ultimately have "lock_inv g n st s'" using o(2,3) inv(2-5) unfolding lock_inv_def by auto
    then show ?thesis by blast
  next
    case True
    have own: "owner n ?s = Some t \<longleftrightarrow> st t = L_taken \<or> st t = L_held" using inv(2) by (simp add: owner_def)
    note b = bracket_step [OF True x(1) i(2) own]
    let ?st = "st(t := x)"
    have others: "st u \<noteq> L_taken \<and> st u \<noteq> L_held" if "u \<noteq> t" for u
      using b(4) inv(2) [of u] that by (auto simp: owner_def)
    have "after g n (?st u) (s_code s' u) = Some L_free" for u using b(1) x(2) inv(1) by auto
    moreover have "owner n s' = Some u \<longleftrightarrow> ?st u = L_taken \<or> ?st u = L_held" for u using b(3) others by auto
    moreover have "m_holder (s_mutex s' n) = u" if "?st u = L_held" for u
      using that b(5,7) others [of u] by (cases "u = t") auto
    moreover have "m_holder (s_mutex s' n) = 0" if "\<forall>u. ?st u \<noteq> L_held"
      using that b(5) inv(4) others by (auto split: if_splits)
    moreover have "?st u = L_waiting" if "u \<in> set (s_waiting s' n)" for u
      using that b(6,7,8) inv(5) [of u] by (cases "u = t") (auto split: if_splits)
    ultimately have "lock_inv g n ?st s'" unfolding lock_inv_def by blast
    then show ?thesis by blast
  qed
qed

lemma step_inv: "sys_step sem tst s s' \<Longrightarrow> lock_inv g n st s \<Longrightarrow> \<exists>st'. lock_inv g n st' s'"
  by (erule sys_step_cases) (auto intro: exec_inv lock_inv_unblock)

text \<open>Steps that concern no lock never block.\<close>

fun plain :: "('s, 'b) tinstr \<Rightarrow> bool" where
  "plain (Pcond_broadcast m) = True"
| "plain (Stmt x) = True"
| "plain (Assert_that b) = True"
| "plain (If_then b body) = True"
| "plain (While_do b body) = True"
| "plain i = False"

lemma nonblocking:
  "is_bracket n i \<or> plain i \<Longrightarrow> i \<noteq> Pmutex_lock n \<Longrightarrow> i \<noteq> Pcond_relock n \<Longrightarrow> exec_instr sem tst c t i s \<noteq> None"
  by (cases i) auto

section \<open>Programs around a lock\<close>

text \<open>
  The contract of a lock with the threads that use it: their programs are bracketed,
  take the steps the lock guards inside, and start with the lock free.
\<close>

locale lock_program =
  fixes sem :: "'s \<Rightarrow> 'd \<Rightarrow> 'd result" and tst :: "'b \<Rightarrow> 'd \<Rightarrow> bool"
    and g :: "('s, 'b) tinstr \<Rightarrow> bool" and n :: nat and s0 :: "('s, 'b, 'd) sys"
  assumes bracketed: "after g n L_free (s_code s0 t) = Some L_free"
    and unlocked: "s_mutex s0 n = MutexLock_ctor" and nobody_waits: "s_waiting s0 n = []"
begin

lemma start_inv: "lock_inv g n (\<lambda>_. L_free) s0"
  using bracketed unlocked nobody_waits by (simp add: lock_inv_def owner_def MutexLock_ctor_def)

lemma reach_inv: "(sys_step sem tst)\<^sup>*\<^sup>* s0 s \<Longrightarrow> \<exists>st. lock_inv g n st s"
  by (induction rule: rtranclp_induct) (use start_inv step_inv in blast)+

text \<open>A thread that is not about to take the lock and whose next step concerns it has it.\<close>

lemma owner_head:
  assumes "(sys_step sem tst)\<^sup>*\<^sup>* s0 s" "s_code s t = i # is" "is_bracket n i \<or> g i" "i \<noteq> Pmutex_lock n" "i \<noteq> Pcond_relock n"
  shows "owner n s = Some t"
proof -
  obtain st where inv: "lock_inv g n st s" using reach_inv [OF assms(1)] by blast
  then have "after g n (st t) (i # is) = Some L_free" using assms(2) unfolding lock_inv_def by metis
  then have "st t = L_taken \<or> st t = L_held" using assms(3-5) by (cases i) (auto simp: place_defs split: if_splits)
  then show ?thesis using inv by (simp add: lock_inv_def)
qed

text \<open>A thread whose next step the lock guards has it and is recorded as its holder, and no other thread is in that place.\<close>

lemma guarded_head:
  assumes "(sys_step sem tst)\<^sup>*\<^sup>* s0 s" "s_code s t = i # is" "g i" "\<not> is_bracket n i"
  shows "owner n s = Some t" "assertLocked t (s_mutex s n) = Inr ()"
proof -
  obtain st where inv: "lock_inv g n st s" using reach_inv [OF assms(1)] by blast
  then have "after g n (st t) (i # is) = Some L_free" using assms(2) unfolding lock_inv_def by metis
  then have "st t = L_held" using assms(3,4) by (cases i) (auto simp: place_defs split: if_splits)
  then show "owner n s = Some t" "assertLocked t (s_mutex s n) = Inr ()"
    using inv by (simp_all add: lock_inv_def assertLocked_def isLockedByThisThread_def)
qed

lemma relock_after_wait:
  assumes "(sys_step sem tst)\<^sup>*\<^sup>* s0 s" "s_code s t = i # is" "t \<in> set (s_waiting s n)" "is_bracket n i"
  shows "i = Pcond_relock n"
proof -
  obtain st where inv: "lock_inv g n st s" using reach_inv [OF assms(1)] by blast
  then have "after g n (st t) (i # is) = Some L_free" "st t = L_waiting" using assms(2,3) unfolding lock_inv_def by metis+
  then show ?thesis using assms(4) by (cases i) (auto simp: place_defs split: if_splits)
qed

lemma owner_inside:
  assumes "(sys_step sem tst)\<^sup>*\<^sup>* s0 s" "owner n s = Some t"
  obtains i "is" where "s_code s t = i # is" "i \<noteq> Pmutex_lock n" "i \<noteq> Pcond_relock n"
proof -
  obtain st where inv: "lock_inv g n st s" using reach_inv [OF assms(1)] by blast
  then have a: "after g n (st t) (s_code s t) = Some L_free" "st t = L_taken \<or> st t = L_held"
    using assms(2) unfolding lock_inv_def by metis+
  then obtain i "is" where i: "s_code s t = i # is" by (cases "s_code s t") auto
  have "i \<noteq> Pmutex_lock n" "i \<noteq> Pcond_relock n" using a i by (auto simp: place_defs)
  then show ?thesis by (rule that [OF i])
qed

text \<open>Where no thread can take a step and the lock is the only one, every unfinished thread waits for a signal.\<close>

lemma stuck_waits:
  assumes "(sys_step sem tst)\<^sup>*\<^sup>* s0 s" "stuck sem tst s" "s_fault s = None"
    and own: "\<And>u i. i \<in> set (s_code s u) \<Longrightarrow> is_bracket n i \<or> plain i"
  shows "s_code s t = [] \<or> t \<in> set (s_waiting s n) \<and> (\<exists>is. s_code s t = Pcond_relock n # is)"
proof (cases "s_code s t")
  case (Cons i "is")
  have b: "exec_instr sem tst 0 u j (s\<lparr>s_code := (s_code s)(u := js)\<rparr>) = None" if "s_code s u = j # js" for u j js
    using assms(2,3) that unfolding stuck_def exec_def by (metis list.simps(5))
  have h: "j = Pmutex_lock n \<or> j = Pcond_relock n" if "s_code s u = j # js" for u j js
    using nonblocking [of n j sem tst 0 u] own [of j u] b [OF that] that by (metis list.set_intros(1))
  have "owner n s = None" using owner_inside [OF assms(1)] h by (metis not_None_eq)
  then show ?thesis using h [OF Cons] b [OF Cons] Cons by (auto simp: owner_def split: if_splits)
qed simp

end

section \<open>The latch\<close>

(* base/CountDownLatch.cc 11: CountDownLatch::wait *)
definition CountDownLatch_wait :: "nat \<Rightarrow> 'b \<Rightarrow> ('s, 'b) tcode" where
  "CountDownLatch_wait n positive = MutexLockGuard n [While_do positive (Condition_wait n)]"

(* base/CountDownLatch.cc 22: CountDownLatch::countDown *)
definition CountDownLatch_countDown :: "nat \<Rightarrow> 's \<Rightarrow> 'b \<Rightarrow> ('s, 'b) tcode" where
  "CountDownLatch_countDown n decrement zero = MutexLockGuard n [Stmt decrement, If_then zero (Condition_notifyAll n)]"

(* base/CountDownLatch.cc 32: CountDownLatch::getCount *)
definition CountDownLatch_getCount :: "nat \<Rightarrow> 's \<Rightarrow> ('s, 'b) tcode" where
  "CountDownLatch_getCount n get = MutexLockGuard n [Stmt get]"

text \<open>The data of a latch is \<^verbatim>\<open>m_count\<close>, an \<^verbatim>\<open>int\<close>.\<close>

datatype latch_stmt = Count_down | Get_count
datatype latch_test = Count_positive | Count_zero

fun latch_sem :: "latch_stmt \<Rightarrow> int \<Rightarrow> int result" where
  "latch_sem Count_down m_count = (if m_count = - 2147483648 then Inl Signed_overflow else Inr (m_count - 1))"
| "latch_sem Get_count m_count = Inr m_count"

fun latch_tst :: "latch_test \<Rightarrow> int \<Rightarrow> bool" where
  "latch_tst Count_positive m_count = (m_count > 0)"
| "latch_tst Count_zero m_count = (m_count = 0)"

datatype latch_op = Op_wait | Op_countDown | Op_getCount

fun latch_op_code :: "latch_op \<Rightarrow> (latch_stmt, latch_test) tcode" where
  "latch_op_code Op_wait = CountDownLatch_wait 0 Count_positive"
| "latch_op_code Op_countDown = CountDownLatch_countDown 0 Count_down Count_zero"
| "latch_op_code Op_getCount = CountDownLatch_getCount 0 Get_count"

definition latch_code :: "latch_op list \<Rightarrow> (latch_stmt, latch_test) tcode" where
  "latch_code ops = concat (map latch_op_code ops)"

text \<open>A new latch, and threads that call the members \<open>prog\<close> lists for them.\<close>

(* base/CountDownLatch.cc 7: CountDownLatch::CountDownLatch *)
definition latch_sys :: "int \<Rightarrow> (tid \<Rightarrow> latch_op list) \<Rightarrow> (latch_stmt, latch_test, int) sys" where
  "latch_sys count prog =
     \<lparr>s_mutex = (\<lambda>_. MutexLock_ctor), s_waiting = (\<lambda>_. []), s_data = count, s_code = latch_code \<circ> prog, s_fault = None\<rparr>"

lemma latch_code_bracketed: "after (\<lambda>_. True) 0 L_free (latch_code ops) = Some L_free"
proof (induction ops)
  case (Cons p ps)
  then show ?case
    by (cases p) (simp_all add: latch_code_def after_append CountDownLatch_wait_def CountDownLatch_countDown_def
        CountDownLatch_getCount_def lock_code place_defs)
qed (simp add: latch_code_def)

interpretation latch: lock_program latch_sem latch_tst "\<lambda>_. True" 0 "latch_sys count prog" for count prog
  by unfold_locales (simp_all add: latch_sys_def latch_code_bracketed)

abbreviation latch_steps :: "(latch_stmt, latch_test, int) sys \<Rightarrow> (latch_stmt, latch_test, int) sys \<Rightarrow> bool" where
  "latch_steps \<equiv> (sys_step latch_sem latch_tst)\<^sup>*\<^sup>*"

abbreviation (input) the_loop :: "(latch_stmt, latch_test) tinstr" where
  "the_loop \<equiv> While_do Count_positive (Condition_wait 0)"

abbreviation (input) the_notice :: "(latch_stmt, latch_test) tinstr" where
  "the_notice \<equiv> If_then Count_zero (Condition_notifyAll 0)"

text \<open>The steps the members of a latch are made of.\<close>

definition latch_instr :: "(latch_stmt, latch_test) tinstr \<Rightarrow> bool" where
  "latch_instr i \<longleftrightarrow> i \<in> {Pmutex_lock 0, Pmutex_unlock 0, Pcond_wait 0, Pcond_relock 0, Pcond_broadcast 0, Assign_holder 0,
     Unassign_holder 0, Stmt Count_down, Stmt Get_count, the_loop, the_notice}"

lemma latch_instr_kind: "latch_instr i \<Longrightarrow> is_bracket 0 i \<or> plain i"
  by (auto simp: latch_instr_def)

text \<open>
  The order of the steps within a thread: a decrement is followed by its notice, and a
  thread that is to wait does not count down later.
\<close>

fun paired :: "(latch_stmt, latch_test) tcode \<Rightarrow> bool" where
  "paired [] = True"
| "paired (i # is) = ((i = Stmt Count_down \<longrightarrow> take 1 is = [the_notice]) \<and> paired is)"

fun ordered :: "(latch_stmt, latch_test) tcode \<Rightarrow> bool" where
  "ordered [] = True"
| "ordered (i # is) = ((i = the_loop \<or> i = Pcond_relock 0 \<longrightarrow> Stmt Count_down \<notin> set is) \<and> ordered is)"

definition latch_next :: "(latch_stmt, latch_test) tinstr \<Rightarrow> (latch_stmt, latch_test) tcode \<Rightarrow> int \<Rightarrow> (latch_stmt, latch_test) tcode" where
  "latch_next i is m_count =
     (if i = the_loop \<and> m_count > 0 then Condition_wait 0 @ the_loop # is
      else if i = the_notice \<and> m_count = 0 then Pcond_broadcast 0 # is else is)"

text \<open>What thread \<open>t\<close> changes by the step \<open>i\<close> of a latch, with \<open>is\<close> left after it.\<close>

definition latch_move :: "tid \<Rightarrow> (latch_stmt, latch_test) tinstr \<Rightarrow> (latch_stmt, latch_test) tcode
    \<Rightarrow> (latch_stmt, latch_test, int) sys \<Rightarrow> (latch_stmt, latch_test, int) sys \<Rightarrow> bool" where
  "latch_move t i is s s' \<longleftrightarrow> s_code s t = i # is \<and> (\<forall>u. u \<noteq> t \<longrightarrow> s_code s' u = s_code s u)
    \<and> s_code s' t = latch_next i is (s_data s)
    \<and> s_data s' = (if i = Stmt Count_down \<and> s_data s \<noteq> - 2147483648 then s_data s - 1 else s_data s)
    \<and> s_fault s' = (if i = Stmt Count_down \<and> s_data s = - 2147483648 then Some Signed_overflow else None)
    \<and> set (s_waiting s' 0) = (if i = Pcond_wait 0 then insert t (set (s_waiting s 0))
        else if i = Pcond_broadcast 0 then {} else set (s_waiting s 0))"

lemma latch_exec:
  assumes "exec latch_sem latch_tst c t s = Some s'" "\<forall>i \<in> set (s_code s t). latch_instr i"
    and own: "\<And>i is. s_code s t = i # is \<Longrightarrow> i \<noteq> Pmutex_lock 0 \<Longrightarrow> i \<noteq> Pcond_relock 0 \<Longrightarrow> owner 0 s = Some t"
  shows "\<exists>i is. latch_move t i is s s'"
proof -
  obtain i "is" where i: "s_code s t = i # is" "s_fault s = None"
      "exec_instr latch_sem latch_tst c t i (s\<lparr>s_code := (s_code s)(t := is)\<rparr>) = Some s'"
    using assms(1) by (auto simp: exec_def split: if_splits list.splits)
  have l: "latch_instr i" using assms(2) i(1) by simp
  have o: "owner 0 s = Some t" if "i \<noteq> Pmutex_lock 0" "i \<noteq> Pcond_relock 0" using own i(1) that by blast
  have "latch_move t i is s s'"
    using l unfolding latch_instr_def insert_iff empty_iff
    by (elim disjE FalseE;
        use o i in \<open>auto simp: latch_move_def latch_next_def owner_def upd_mutex_def Condition_notifyAll_def split: if_splits\<close>)
  then show ?thesis by blast
qed

text \<open>
  A thread about to wait has seen a positive count, and where threads wait the count is
  still positive or the thread that made it zero is about to wake them.
\<close>

definition about_to_wait :: "(latch_stmt, latch_test) tcode \<Rightarrow> bool" where
  "about_to_wait code \<longleftrightarrow> (\<exists>is. Pcond_wait 0 \<notin> set is \<and> (code = Pcond_wait 0 # is \<or> code = Unassign_holder 0 # Pcond_wait 0 # is))"

definition pending :: "(latch_stmt, latch_test, int) sys \<Rightarrow> bool" where
  "pending s \<longleftrightarrow> (\<exists>t is. s_code s t = Pcond_broadcast 0 # is \<or> s_code s t = the_notice # is \<and> s_data s = 0)"

definition shape_ok :: "(latch_stmt, latch_test) tcode \<Rightarrow> int \<Rightarrow> bool" where
  "shape_ok code m_count \<longleftrightarrow> (\<forall>i \<in> set code. latch_instr i) \<and> paired code
     \<and> (Pcond_wait 0 \<in> set code \<longrightarrow> about_to_wait code \<and> m_count > 0)"

definition latch_inv :: "(latch_stmt, latch_test, int) sys \<Rightarrow> bool" where
  "latch_inv s \<longleftrightarrow> (\<forall>t. shape_ok (s_code s t) (s_data s)) \<and> (s_waiting s 0 \<noteq> [] \<longrightarrow> s_data s > 0 \<or> pending s)"

lemma shape_pop:
  assumes "shape_ok (i # is) d" "i \<noteq> Stmt Count_down"
  shows "shape_ok (latch_next i is d) d"
  using assms by (auto simp: latch_next_def shape_ok_def about_to_wait_def latch_instr_def lock_code)

text \<open>A step of a latch, and that only one thread is past the lock at a time.\<close>

definition alone :: "tid \<Rightarrow> (latch_stmt, latch_test) tinstr \<Rightarrow> (latch_stmt, latch_test, int) sys \<Rightarrow> bool" where
  "alone t i s \<longleftrightarrow> i = Pmutex_lock 0 \<or> i = Pcond_relock 0
     \<or> (\<forall>u j js. s_code s u = j # js \<longrightarrow> j \<noteq> Pmutex_lock 0 \<longrightarrow> j \<noteq> Pcond_relock 0 \<longrightarrow> u = t)"

lemma latch_move_alone:
  assumes "latch_steps (latch_sys count prog) s" "latch_inv s" "exec latch_sem latch_tst c t s = Some s'"
  obtains i "is" where "latch_move t i is s s'" "alone t i s"
proof -
  have own: "owner 0 s = Some u" if "s_code s u = j # js" "j \<noteq> Pmutex_lock 0" "j \<noteq> Pcond_relock 0" for u j js
    using latch.owner_head [OF assms(1) that(1) _ that(2,3)] by simp
  have "\<exists>i is. latch_move t i is s s'"
  proof (rule latch_exec [OF assms(3)])
    show "\<forall>i \<in> set (s_code s t). latch_instr i" using assms(2) by (simp add: latch_inv_def shape_ok_def)
  qed (rule own)
  then obtain i "is" where m: "latch_move t i is s s'" by blast
  then have "s_code s t = i # is" by (simp add: latch_move_def)
  then have "alone t i s" using own unfolding alone_def by (metis option.inject)
  with m show ?thesis by (rule that)
qed

lemma shape_move:
  assumes "latch_inv s" "latch_move t i is s s'" "alone t i s"
  shows "shape_ok (s_code s' u) (s_data s')"
proof (cases "i = Stmt Count_down")
  case False
  have shape: "shape_ok (s_code s v) (s_data s)" for v using assms(1) by (simp add: latch_inv_def)
  have c: "s_code s t = i # is" "s_data s' = s_data s" "u \<noteq> t \<Longrightarrow> s_code s' u = s_code s u"
    using assms(2) False by (simp_all add: latch_move_def)
  have "shape_ok (s_code s' t) (s_data s)"
    using shape_pop [OF _ False, of "is" "s_data s"] shape [of t] assms(2) by (simp add: latch_move_def)
  then show ?thesis using c shape [of u] by (cases "u = t") simp_all
next
  case True
  have shape: "shape_ok (s_code s u) (s_data s)" using assms(1) by (simp add: latch_inv_def)
  have "Pcond_wait 0 \<notin> set (s_code s u)"
  proof
    assume "Pcond_wait 0 \<in> set (s_code s u)"
    then have "about_to_wait (s_code s u)" using shape by (simp add: shape_ok_def)
    then obtain j js where "s_code s u = j # js" "j = Pcond_wait 0 \<or> j = Unassign_holder 0" by (auto simp: about_to_wait_def)
    moreover from this have "u = t" using assms(3) True by (auto simp: alone_def)
    ultimately show False using assms(2) True by (auto simp: latch_move_def)
  qed
  then show ?thesis using shape True assms(2) by (cases "u = t") (auto simp: shape_ok_def latch_move_def latch_next_def)
qed

lemma pending_move:
  assumes "pending s" "latch_move t i is s s'" "alone t i s" "i \<noteq> Pcond_broadcast 0"
  shows "pending s'"
proof -
  obtain u j js where u: "s_code s u = j # js" "j = Pcond_broadcast 0 \<or> j = the_notice \<and> s_data s = 0"
    using assms(1) by (auto simp: pending_def)
  show ?thesis
  proof (cases "u = t")
    case True
    then show ?thesis using u assms(2,4) by (auto simp: pending_def latch_move_def latch_next_def)
  next
    case False
    then have "i = Pmutex_lock 0 \<or> i = Pcond_relock 0" using u assms(3) by (auto simp: alone_def)
    moreover have "s_code s' u = s_code s u" using assms(2) False by (simp add: latch_move_def)
    ultimately show ?thesis using u assms(2) by (auto simp: pending_def latch_move_def latch_next_def)
  qed
qed

lemma last_decrement:
  assumes "shape_ok (s_code s t) (s_data s)" "latch_move t (Stmt Count_down) is s s'" "s_data s = 1"
  shows "pending s'"
  using assms by (cases "is") (auto simp: shape_ok_def pending_def latch_move_def latch_next_def)

lemma latch_inv_exec:
  assumes "latch_steps (latch_sys count prog) s" "latch_inv s" "exec latch_sem latch_tst c t s = Some s'"
  shows "latch_inv s'"
proof -
  obtain i "is" where m: "latch_move t i is s s'" "alone t i s" using latch_move_alone [OF assms] .
  have shape: "shape_ok (s_code s t) (s_data s)" using assms(2) by (simp add: latch_inv_def)
  have "s_data s' > 0 \<or> pending s'" if "s_waiting s' 0 \<noteq> []"
  proof (cases "i = Pcond_wait 0")
    case True
    then show ?thesis using shape m(1) by (simp add: shape_ok_def latch_move_def)
  next
    case False
    then have w: "s_waiting s 0 \<noteq> []" "i \<noteq> Pcond_broadcast 0" using that m(1) by (auto simp: latch_move_def split: if_splits)
    show ?thesis
    proof (cases "pending s")
      case True
      then show ?thesis using pending_move [OF _ m w(2)] by blast
    next
      case False
      then have "s_data s > 0" using w(1) assms(2) by (simp add: latch_inv_def)
      moreover have "s_data s' = s_data s - 1 \<and> i = Stmt Count_down \<or> s_data s' = s_data s" using m(1) by (auto simp: latch_move_def)
      moreover have "pending s'" if "i = Stmt Count_down" "s_data s = 1" using last_decrement [OF shape] m(1) that by blast
      ultimately show ?thesis by (cases "s_data s = 1") auto
    qed
  qed
  then show ?thesis using shape_move [OF assms(2) m] by (simp add: latch_inv_def)
qed

lemma paired_append: "paired xs \<Longrightarrow> paired ys \<Longrightarrow> paired (xs @ ys)"
proof (induction xs)
  case (Cons i xs)
  then show ?case by (cases xs) auto
qed simp

lemmas latch_members = CountDownLatch_wait_def CountDownLatch_countDown_def CountDownLatch_getCount_def lock_code

lemma latch_op_shape: "Pcond_wait 0 \<notin> set (latch_op_code p)" "i \<in> set (latch_op_code p) \<Longrightarrow> latch_instr i" "paired (latch_op_code p)"
  by (cases p; auto simp: latch_members latch_instr_def)+

lemma shape_start: "shape_ok (latch_code ops) d"
  by (induction ops) (auto simp: latch_code_def shape_ok_def latch_op_shape intro: paired_append)

lemma latch_inv_reach: "latch_steps (latch_sys count prog) s \<Longrightarrow> latch_inv s"
proof (induction rule: rtranclp_induct)
  case base
  show ?case by (simp add: latch_inv_def latch_sys_def shape_start)
next
  case (step s s')
  then show ?case
    by (auto elim!: sys_step_cases intro: latch_inv_exec) (auto simp: latch_inv_def unblock_def pending_def)
qed

subsection \<open>Counting\<close>

abbreviation decrements :: "(latch_stmt, latch_test) tcode \<Rightarrow> nat" where
  "decrements code \<equiv> count_list code (Stmt Count_down)"

text \<open>A program that counts down, if at all, before it waits.\<close>

fun waits_last :: "latch_op list \<Rightarrow> bool" where
  "waits_last [] = True"
| "waits_last (p # ps) = ((p = Op_wait \<longrightarrow> Op_countDown \<notin> set ps) \<and> waits_last ps)"

definition latch_total :: "tid set \<Rightarrow> (tid \<Rightarrow> latch_op list) \<Rightarrow> nat" where
  "latch_total T prog = (\<Sum>t\<in>T. count_list (prog t) Op_countDown)"

definition latch_run :: "tid set \<Rightarrow> int \<Rightarrow> (tid \<Rightarrow> latch_op list) \<Rightarrow> (latch_stmt, latch_test, int) sys \<Rightarrow> bool" where
  "latch_run T count prog s \<longleftrightarrow> s_fault s = None \<and> (\<forall>t. t \<notin> T \<longrightarrow> s_code s t = [])
     \<and> s_data s = count - int (latch_total T prog) + int (\<Sum>t\<in>T. decrements (s_code s t))
     \<and> (\<forall>t. waits_last (prog t) \<longrightarrow> ordered (s_code s t))
     \<and> (\<forall>t. Op_wait \<in> set (prog t) \<longrightarrow> the_loop \<in> set (s_code s t) \<or> s_data s \<le> 0)"

lemma decrements_start: "decrements (latch_code ops) = count_list ops Op_countDown"
proof (induction ops)
  case (Cons p ps)
  then show ?case by (cases p) (auto simp: latch_code_def latch_members)
qed (simp add: latch_code_def)

lemma ordered_append: "ordered xs \<Longrightarrow> ordered ys \<Longrightarrow> Stmt Count_down \<notin> set ys \<or> the_loop \<notin> set xs \<and> Pcond_relock 0 \<notin> set xs \<Longrightarrow> ordered (xs @ ys)"
  by (induction xs) auto

lemma ordered_start: "waits_last ops \<Longrightarrow> ordered (latch_code ops)"
proof (induction ops)
  case (Cons p ps)
  have "Stmt Count_down \<notin> set (latch_code ps)" if "Op_countDown \<notin> set ps"
    using decrements_start [of ps] that by (metis count_list_0_iff)
  then show ?case using Cons by (cases p) (auto simp: latch_code_def latch_members)
qed (simp add: latch_code_def)

lemma waits_start: "Op_wait \<in> set ops \<Longrightarrow> the_loop \<in> set (latch_code ops)"
  by (force simp: latch_code_def latch_members intro!: bexI [of _ Op_wait])

lemma latch_run_start:
  assumes "finite T" "\<forall>t. t \<notin> T \<longrightarrow> prog t = []"
  shows "latch_run T count prog (latch_sys count prog)"
  using assms by (auto simp: latch_run_def latch_sys_def decrements_start latch_total_def ordered_start waits_start) (simp add: latch_code_def)

lemma latch_next_facts:
  "decrements (latch_next i is d) = decrements is" "ordered (i # is) \<Longrightarrow> ordered (latch_next i is d)"
  "the_loop \<in> set (i # is) \<Longrightarrow> the_loop \<in> set (latch_next i is d) \<or> i = the_loop \<and> d \<le> 0"
  by (auto simp: latch_next_def lock_code)

lemma latch_run_move:
  assumes run: "latch_run T count prog s" and move: "latch_move t i is s s'"
    and "finite T" "- 2147483648 \<le> count - int (latch_total T prog)"
  shows "latch_run T count prog s'"
proof -
  have m: "s_code s t = i # is" "s_code s' t = latch_next i is (s_data s)" "\<And>u. u \<noteq> t \<Longrightarrow> s_code s' u = s_code s u"
    using move by (simp_all add: latch_move_def)
  have r: "\<And>u. u \<notin> T \<Longrightarrow> s_code s u = []" "\<And>u. waits_last (prog u) \<Longrightarrow> ordered (s_code s u)"
    "\<And>u. Op_wait \<in> set (prog u) \<Longrightarrow> the_loop \<in> set (s_code s u) \<or> s_data s \<le> 0"
    "s_data s = count - int (latch_total T prog) + int (\<Sum>t\<in>T. decrements (s_code s t))"
    using run by (auto simp: latch_run_def)
  have "t \<in> T" using m(1) r(1) by fastforce
  then have sums: "(\<Sum>u\<in>T. decrements (s_code s u)) = decrements (i # is) + (\<Sum>u\<in>T - {t}. decrements (s_code s u))"
    "(\<Sum>u\<in>T. decrements (s_code s' u)) = decrements is + (\<Sum>u\<in>T - {t}. decrements (s_code s u))"
    using sum.remove [OF assms(3), of t "\<lambda>u. decrements (s_code s u)"] sum.remove [OF assms(3), of t "\<lambda>u. decrements (s_code s' u)"] m
    by (simp_all add: latch_next_facts(1) cong: sum.cong_simp)
  have "s_data s \<noteq> - 2147483648" if "i = Stmt Count_down" using r(4) sums(1) assms(4) that by (simp del: of_nat_sum)
  then have d: "s_fault s' = None" "s_data s' = (if i = Stmt Count_down then s_data s - 1 else s_data s)"
    using move by (simp_all add: latch_move_def)
  have "s_data s' = count - int (latch_total T prog) + int (\<Sum>t\<in>T. decrements (s_code s' t))"
    using r(4) sums d(2) by (auto simp del: of_nat_sum)
  moreover have "ordered (s_code s' u)" if "waits_last (prog u)" for u
    using r(2) [OF that] m latch_next_facts(2) by (cases "u = t") auto
  moreover have "the_loop \<in> set (s_code s' u) \<or> s_data s' \<le> 0" if "Op_wait \<in> set (prog u)" for u
    using r(3) [OF that] m latch_next_facts(3) [of i "is" "s_data s"] d(2) by (cases "u = t") auto
  moreover have "s_code s' u = []" if "u \<notin> T" for u using r(1) [OF that] m(3) [of u] \<open>t \<in> T\<close> that by auto
  ultimately show ?thesis using d(1) by (simp add: latch_run_def)
qed

lemma latch_run_reach:
  assumes "latch_steps (latch_sys count prog) s" "finite T" "\<forall>t. t \<notin> T \<longrightarrow> prog t = []"
    and "- 2147483648 \<le> count - int (latch_total T prog)"
  shows "latch_run T count prog s"
  using assms(1)
proof (induction rule: rtranclp_induct)
  case base
  show ?case using latch_run_start assms(2,3) by blast
next
  case (step s s')
  from step.hyps(2) show ?case
  proof (cases rule: sys_step.cases)
    case (thread_step c t)
    then show ?thesis
      using latch_move_alone [OF step.hyps(1) latch_inv_reach [OF step.hyps(1)]] latch_run_move [OF step.IH _ assms(2,4)] by metis
  next
    case (spurious_wakeup t n)
    then show ?thesis using step.IH unfolding latch_run_def unblock_def by simp metis
  qed
qed

text \<open>A schedule: the threads that take a step, in order, each with the thread a signal of it wakes.\<close>

fun run_sched :: "('s \<Rightarrow> 'd \<Rightarrow> 'd result) \<Rightarrow> ('b \<Rightarrow> 'd \<Rightarrow> bool) \<Rightarrow> (tid \<times> tid) list
    \<Rightarrow> ('s, 'b, 'd) sys \<Rightarrow> ('s, 'b, 'd) sys option" where
  "run_sched sem tst [] s = Some s"
| "run_sched sem tst ((c, t) # ts) s = (case exec sem tst c t s of None \<Rightarrow> None | Some s' \<Rightarrow> run_sched sem tst ts s')"

lemma run_sched_reach: "run_sched sem tst ts s = Some s' \<Longrightarrow> (sys_step sem tst)\<^sup>*\<^sup>* s s'"
proof (induction sem tst ts s rule: run_sched.induct)
  case (2 sem tst c t ts s)
  then show ?case by (auto split: option.splits intro: converse_rtranclp_into_rtranclp thread_step)
qed simp

section \<open>Programs made of the members\<close>

text \<open>
  What a thread does with a lock and its condition variable, written with their members:
  sections under a \<^verbatim>\<open>MutexLockGuard\<close>, of statements, assertions, conditionals, loops, waits
  and notifications, and statements outside.  The statements inside are labelled \<^const>\<open>Inl\<close>,
  those outside \<^const>\<open>Inr\<close>.
\<close>

datatype ('s, 'b) locked =
    Do 's
  | Require 'b
  | Wait
  | Notify
  | Notify_all
  | When 'b "('s, 'b) locked list"
  | Loop 'b "('s, 'b) locked list"

datatype ('s, 'b) lock_use = Locked "('s, 'b) locked list" | Outside 's

fun locked_code :: "nat \<Rightarrow> ('s, 'b) locked \<Rightarrow> ('s + 's, 'b) tcode" where
  "locked_code n (Do x) = [Stmt (Inl x)]"
| "locked_code n (Require b) = [Assert_that b]"
| "locked_code n Wait = Condition_wait n"
| "locked_code n Notify = Condition_notify n"
| "locked_code n Notify_all = Condition_notifyAll n"
| "locked_code n (When b body) = [If_then b (concat (map (locked_code n) body))]"
| "locked_code n (Loop b body) = [While_do b (concat (map (locked_code n) body))]"

fun use_code :: "nat \<Rightarrow> ('s, 'b) lock_use \<Rightarrow> ('s + 's, 'b) tcode" where
  "use_code n (Locked body) = MutexLockGuard n (concat (map (locked_code n) body))"
| "use_code n (Outside x) = [Stmt (Inr x)]"

definition uses_code :: "nat \<Rightarrow> ('s, 'b) lock_use list \<Rightarrow> ('s + 's, 'b) tcode" where
  "uses_code n ops = concat (map (use_code n) ops)"

text \<open>The steps that are taken only under the lock.\<close>

fun protected_step :: "('s + 's, 'b) tinstr \<Rightarrow> bool" where
  "protected_step (Stmt x) = (case x of Inl _ \<Rightarrow> True | Inr _ \<Rightarrow> False)"
| "protected_step (Assert_that b) = True"
| "protected_step (If_then b body) = True"
| "protected_step (While_do b body) = True"
| "protected_step i = False"

lemma protected_plain: "protected_step i \<Longrightarrow> \<not> is_bracket n i"
  by (cases i) auto

lemma after_concat:
  "(\<And>c. c \<in> set cs \<Longrightarrow> after g n st (f c) = Some st) \<Longrightarrow> after g n st (concat (map f cs)) = Some st"
  by (induction cs) (auto simp: after_append)

lemma locked_bracketed: "after protected_step n L_held (locked_code n c) = Some L_held"
  by (induction c rule: locked_code.induct) (auto simp: lock_code place_defs after_concat)

lemma uses_bracketed: "after protected_step n L_free (uses_code n ops) = Some L_free"
proof -
  have "after protected_step n L_free (use_code n p) = Some L_free" for p
    by (cases p) (simp_all add: MutexLockGuard_def MutexLock_lock_def MutexLock_unlock_def place_defs after_append
        after_concat locked_bracketed)
  then show ?thesis unfolding uses_code_def by (intro after_concat)
qed

section \<open>Properties\<close>

text \<open>
  C14: Locks exclude.  Let threads use a lock through its members only: sections under a
  \<^verbatim>\<open>MutexLockGuard\<close>, with waits on and notifications of its condition variable inside, and
  statements outside.  Whenever a thread's next step is one of a section (a statement, an
  assertion or the test of a conditional or a loop), that thread owns the mutex and
  \<^verbatim>\<open>assertLocked\<close> succeeds for it, and no other thread's next step is one of a section,
  whatever the interleaving and the spurious wake-ups.
\<close>

theorem mutex_exclusion:
  assumes "\<forall>t. s_code s0 t = uses_code n (prog t)" "s_mutex s0 n = MutexLock_ctor" "s_waiting s0 n = []"
    and "(sys_step sem tst)\<^sup>*\<^sup>* s0 s" "s_code s t = i # is" "protected_step i"
  shows "owner n s = Some t \<and> assertLocked t (s_mutex s n) = Inr ()
    \<and> (\<forall>u j js. u \<noteq> t \<longrightarrow> s_code s u = j # js \<longrightarrow> \<not> protected_step j)"
proof -
  have p: "lock_program protected_step n s0" using assms(1-3) uses_bracketed by unfold_locales auto
  have own: "owner n s = Some u" if "s_code s u = j # js" "protected_step j" for u j js
    using lock_program.guarded_head(1) [OF p assms(4) that protected_plain [OF that(2)]] .
  then show ?thesis
    using lock_program.guarded_head(2) [OF p assms(4-6) protected_plain [OF assms(6)]] own assms(5,6) by (metis option.inject)
qed

text \<open>
  C6: The latch releases its waiters.  Threads that share a latch with a count no greater than
  the number of their calls of \<^verbatim>\<open>countDown\<close>, none of which waits before it counts down,
  never fail; a call of \<^verbatim>\<open>wait\<close> returns only once the count is used up; and the threads
  cannot get stuck before all of them have finished: no waiter is left behind, whatever
  the interleaving.
\<close>

theorem latch_releases:
  assumes "finite T" "\<forall>t. t \<notin> T \<longrightarrow> prog t = []" "\<forall>t. waits_last (prog t)"
    and "count \<le> int (latch_total T prog)" "- 2147483648 \<le> count - int (latch_total T prog)"
    and "latch_steps (latch_sys count prog) s"
  shows "s_fault s = None \<and> (\<forall>t. Op_wait \<in> set (prog t) \<longrightarrow> s_code s t = [] \<longrightarrow> s_data s \<le> 0)
    \<and> (stuck latch_sem latch_tst s \<longrightarrow> (\<forall>t. s_code s t = []))"
proof -
  have run: "latch_run T count prog s" using latch_run_reach assms by blast
  have inv: "latch_inv s" using latch_inv_reach assms(6) by blast
  have "s_code s t = []" if stuck: "stuck latch_sem latch_tst s" for t
  proof -
    have "is_bracket 0 i \<or> plain i" if "i \<in> set (s_code s u)" for u i
      using inv that latch_instr_kind by (simp add: latch_inv_def shape_ok_def)
    then have w: "s_code s u = [] \<or> u \<in> set (s_waiting s 0) \<and> (\<exists>is. s_code s u = Pcond_relock 0 # is)" for u
      using latch.stuck_waits [OF assms(6) stuck] run by (auto simp: latch_run_def)
    then have "\<not> pending s" unfolding pending_def by (metis list.distinct(1) list.inject tinstr.distinct(47) tinstr.distinct)
    moreover have "decrements (s_code s u) = 0" for u
    proof (cases "s_code s u")
      case (Cons i "is")
      have "ordered (s_code s u)" using assms(3) run by (simp add: latch_run_def)
      then show ?thesis using Cons w [of u] by (auto simp: count_list_0_iff)
    qed simp
    ultimately show ?thesis using w [of t] run inv assms(4) by (auto simp: latch_inv_def latch_run_def)
  qed
  then show ?thesis using run by (auto simp: latch_run_def)
qed

abbreviation (input) one_waits :: "tid \<Rightarrow> latch_op list" where
  "one_waits \<equiv> (\<lambda>t. if t = 1 then [Op_wait] else if t = 2 then [Op_countDown] else [])"

definition meet_sched :: "(tid \<times> tid) list" where
  "meet_sched = map (Pair 0) [1, 1, 1, 1, 1, 2, 2, 2, 2, 2, 2, 2, 1, 1, 1, 1, 1]"

lemmas sched_simps = exec_def owner_def upd_mutex_def unblock_def assignHolder_def unassignHolder_def MutexLock_ctor_def

lemma meet_run:
  "\<exists>s. run_sched latch_sem latch_tst meet_sched (latch_sys 1 one_waits) = Some s \<and> s_code s 1 = []"
  by (simp add: meet_sched_def latch_sys_def latch_code_def latch_members sched_simps)

theorem latch_releases_witness:
  "\<exists>s. run_sched latch_sem latch_tst meet_sched (latch_sys 1 one_waits) = Some s \<and> s_fault s = None \<and> s_data s \<le> 0"
proof -
  obtain s where s: "run_sched latch_sem latch_tst meet_sched (latch_sys 1 one_waits) = Some s" "s_code s 1 = []"
    using meet_run by blast
  have "\<forall>t. t \<notin> {1, 2} \<longrightarrow> one_waits t = []" "\<forall>t. waits_last (one_waits t)" "latch_total {1, 2} one_waits = 1"
    by (simp_all add: latch_total_def)
  then show ?thesis
    using latch_releases [of "{1, 2}" one_waits 1 s] run_sched_reach [OF s(1)] s by (auto dest: spec [of _ 1])
qed

text \<open>Two threads that each count under the lock; the first is in its section.\<close>

definition two_users :: "(unit + unit, unit, int) sys" where
  "two_users = \<lparr>s_mutex = (\<lambda>_. MutexLock_ctor), s_waiting = (\<lambda>_. []), s_data = 0,
     s_code = (\<lambda>t. uses_code 0 (if t = 1 \<or> t = 2 then [Outside (), Locked [Do ()]] else [])), s_fault = None\<rparr>"

theorem mutex_exclusion_witness:
  "\<exists>s. run_sched (\<lambda>_ d. Inr (d + 1)) (\<lambda>_ _. True) (map (Pair 0) [2, 1, 1, 1]) two_users = Some s
     \<and> owner 0 s = Some 1 \<and> assertLocked 1 (s_mutex s 0) = Inr ()"
proof -
  let ?sem = "\<lambda>_ d. Inr (d + 1)" and ?tst = "\<lambda>_ _. True"
  have "\<exists>s is. run_sched ?sem ?tst (map (Pair 0) [2, 1, 1, 1]) two_users = Some s \<and> s_code s 1 = Stmt (Inl ()) # is"
    by (simp add: two_users_def uses_code_def lock_code sched_simps)
  then obtain s "is" where s: "run_sched ?sem ?tst (map (Pair 0) [2, 1, 1, 1]) two_users = Some s" "s_code s 1 = Stmt (Inl ()) # is"
    by blast
  then show ?thesis
    using mutex_exclusion [of two_users 0 "\<lambda>t. if t = 1 \<or> t = 2 then [Outside (), Locked [Do ()]] else []" ?sem ?tst s 1 "Stmt (Inl ())" "is"]
      run_sched_reach [OF s(1)] by (simp add: two_users_def)
qed

end
