(* ===== verification/Thread.thy ===== *)
theory Thread
  imports Sync
begin

text \<open>
  Threads and event loop threads (\<^verbatim>\<open>qslary/base/Thread.h\<close>, \<^verbatim>\<open>Thread.cc\<close>,
  \<^verbatim>\<open>CurrentThread.h\<close>, \<^verbatim>\<open>qslary/net/EventLoopThread.cc\<close>).  The thread object's own
  members are functions on a record; what \<^verbatim>\<open>pthread_create\<close> and \<^verbatim>\<open>pthread_join\<close> return and
  how the thread's function ends are arguments.  \<^verbatim>\<open>startLoop\<close> and \<^verbatim>\<open>threadFunc\<close> run
  concurrently: they are two threads over the lock of the thread's latch (number 0) and
  the lock of the event loop thread (number 1).

  The lemmas show that \<^verbatim>\<open>start\<close> never fails its assertion on the new thread's identifier,
  that \<^verbatim>\<open>startLoop\<close> never returns a null loop, and that it may never return.
\<close>

section \<open>Thread objects\<close>

(* base/Thread.h 36-43: Thread *)
record thread_obj =
  pthreadId :: nat
  th_tid :: tid
  th_name :: string
  started :: bool
  joined :: bool

text \<open>\<^verbatim>\<open>tid()\<close> caches what the system call reports.\<close>

(* base/CurrentThread.cc 14-16: t_cachedTid, t_tidString, t_tidStringLength *)
record cached_tid =
  t_cachedTid :: tid
  t_tidString :: string
  t_tidStringLength :: nat

(* base/Thread.cc 109: CurrentThread::cacheTid *)
definition cacheTid :: "tid \<Rightarrow> cached_tid \<Rightarrow> cached_tid" where
  "cacheTid gettid c =
     (if t_cachedTid c = 0
      then let str = replicate (5 - length (show_int gettid)) CHR '' '' @ show_int gettid @ '' '' in
           \<lparr>t_cachedTid = gettid, t_tidString = take 31 str, t_tidStringLength = length str\<rparr>
      else c)"

(* base/CurrentThread.h 20: tid *)
definition tid :: "tid \<Rightarrow> cached_tid \<Rightarrow> tid \<times> cached_tid" where
  "tid gettid c = (let c' = (if t_cachedTid c = 0 then cacheTid gettid c else c) in (t_cachedTid c', c'))"

(* base/Thread.cc 120: CurrentThread::isMainThread *)
definition isMainThread :: "tid \<Rightarrow> tid \<Rightarrow> cached_tid \<Rightarrow> bool" where
  "isMainThread getpid gettid c \<longleftrightarrow> fst (tid gettid c) = getpid"

(* base/Thread.cc 139: Thread::setDefaultName *)
definition setDefaultName :: "64 word \<Rightarrow> thread_obj \<Rightarrow> (64 word \<times> thread_obj) result" where
  "setDefaultName threadNum th =
     rbind (incrementAndGet threadNum) (\<lambda>(num, threadNum').
       Inr (threadNum', if th_name th = [] then th\<lparr>th_name := take 31 (''Thread'' @ show_int (sint num))\<rparr> else th))"

(* base/Thread.cc 124: Thread::Thread *)
definition Thread_ctor :: "string \<Rightarrow> 64 word \<Rightarrow> (64 word \<times> thread_obj) result" where
  "Thread_ctor n threadNum =
     setDefaultName threadNum \<lparr>pthreadId = 0, th_tid = 0, th_name = n, started = False, joined = False\<rparr>"

text \<open>
  \<^verbatim>\<open>start\<close> on its own: \<open>created\<close> is the new thread, if \<^verbatim>\<open>pthread_create\<close> succeeds, as its
  \<^verbatim>\<open>pthread_t\<close> and the identifier it has stored by the time the latch opens.
\<close>

(* base/Thread.cc 150: Thread::start *)
definition Thread_start :: "(nat \<times> tid) option \<Rightarrow> thread_obj \<Rightarrow> thread_obj result" where
  "Thread_start created th =
     rbind (assert_r (\<not> started th)) (\<lambda>_.
     let th1 = th\<lparr>started := True\<rparr> in
     case created of
       None \<Rightarrow> Inr (th1\<lparr>started := False\<rparr>)
     | Some (pt, t) \<Rightarrow>
         let th2 = th1\<lparr>pthreadId := pt, th_tid := t\<rparr> in
         rbind (assert_r (th_tid th2 > 0)) (\<lambda>_. Inr th2))"

(* base/Thread.cc 171: Thread::join *)
definition Thread_join :: "(nat \<Rightarrow> int) \<Rightarrow> thread_obj \<Rightarrow> (int \<times> thread_obj) result" where
  "Thread_join pthread_join th =
     rbind (assert_r (started th)) (\<lambda>_.
     rbind (assert_r (\<not> joined th)) (\<lambda>_.
       Inr (pthread_join (pthreadId th), th\<lparr>joined := True\<rparr>)))"

text \<open>The thread the destructor detaches, if any.\<close>

(* base/Thread.cc 131: Thread::~Thread *)
definition Thread_dtor :: "thread_obj \<Rightarrow> nat option" where
  "Thread_dtor th = (if started th \<and> \<not> joined th then Some (pthreadId th) else None)"

text \<open>
  How a thread's function ends, and what \<^verbatim>\<open>runInThread\<close> makes of it: the thread's name while
  the function runs and afterwards, and whether the process ends.
\<close>

datatype func_end = Func_returns | Func_throws_exception | Func_throws_other
datatype thread_end = Thread_returns | Process_aborts | Exception_escapes

(* base/Thread.cc 66-97: ThreadData::runInThread, from the name on *)
definition runInThread :: "string \<Rightarrow> func_end \<Rightarrow> string \<times> string \<times> thread_end" where
  "runInThread name f =
     (if name = [] then ''qslary thread'' else name,
      case f of Func_returns \<Rightarrow> (''finished'', Thread_returns)
      | Func_throws_exception \<Rightarrow> (''crashed'', Process_aborts)
      | Func_throws_other \<Rightarrow> (''crashed'', Exception_escapes))"

section \<open>Event loop threads\<close>

text \<open>
  The data of an event loop thread: the members \<^verbatim>\<open>tid_\<close> and \<^verbatim>\<open>m_count\<close> of the thread and
  its latch, \<^verbatim>\<open>loop_\<close>, the local \<^verbatim>\<open>retLoop\<close> of \<^verbatim>\<open>startLoop\<close>, whether \<^verbatim>\<open>callback_\<close> holds a
  function, and the loops it was called with (what it does with the loop is its own).
\<close>

record elt_data =
  e_tid :: tid
  e_count :: int
  e_loop :: "nat option"
  e_retLoop :: "nat option"
  e_callback :: bool
  e_called :: "nat list"

datatype elt_stmt = Set_tid | Decrement | Call_callback | Set_loop | Run_loop | Clear_loop | Read_loop
datatype elt_test = Latch_positive | Latch_zero | Tid_positive | Has_callback | Loop_null

fun elt_sem :: "tid \<Rightarrow> nat \<Rightarrow> elt_stmt \<Rightarrow> elt_data \<Rightarrow> elt_data result" where
  "elt_sem t lp Set_tid d = Inr (d\<lparr>e_tid := t\<rparr>)"
| "elt_sem t lp Decrement d =
     (if e_count d = - 2147483648 then Inl Signed_overflow else Inr (d\<lparr>e_count := e_count d - 1\<rparr>))"
| "elt_sem t lp Call_callback d = Inr (d\<lparr>e_called := e_called d @ [lp]\<rparr>)"
| "elt_sem t lp Set_loop d = Inr (d\<lparr>e_loop := Some lp\<rparr>)"
| "elt_sem t lp Run_loop d = Inr d"
| "elt_sem t lp Clear_loop d = Inr (d\<lparr>e_loop := None\<rparr>)"
| "elt_sem t lp Read_loop d = Inr (d\<lparr>e_retLoop := e_loop d\<rparr>)"

fun elt_tst :: "elt_test \<Rightarrow> elt_data \<Rightarrow> bool" where
  "elt_tst Latch_positive d = (e_count d > 0)"
| "elt_tst Latch_zero d = (e_count d = 0)"
| "elt_tst Tid_positive d = (e_tid d > 0)"
| "elt_tst Has_callback d = e_callback d"
| "elt_tst Loop_null d = (e_loop d = None)"

text \<open>\<^verbatim>\<open>Thread::start\<close> after \<^verbatim>\<open>pthread_create\<close>, and the new thread up to its function.\<close>

(* base/Thread.cc 164-165: Thread::start, after pthread_create *)
definition start_code :: "(elt_stmt, elt_test) tcode" where
  "start_code = CountDownLatch_wait 0 Latch_positive @ [Assert_that Tid_positive]"

(* base/Thread.cc 61-64: ThreadData::runInThread, before the name *)
definition child_code :: "(elt_stmt, elt_test) tcode" where
  "child_code = Stmt Set_tid # CountDownLatch_countDown 0 Decrement Latch_zero"

(* net/EventLoopThread.cc 16: EventLoopThread::startLoop *)
definition startLoop :: "(elt_stmt, elt_test) tcode" where
  "startLoop = start_code @ MutexLockGuard 1 [While_do Loop_null (Condition_wait 1), Stmt Read_loop]"

(* net/EventLoopThread.cc 31: EventLoopThread::threadFunc *)
definition threadFunc :: "(elt_stmt, elt_test) tcode" where
  "threadFunc = If_then Has_callback [Stmt Call_callback]
     # MutexLockGuard 1 (Stmt Set_loop # Condition_notify 1) @ [Stmt Run_loop] @ MutexLockGuard 1 [Stmt Clear_loop]"

text \<open>Thread 1 in \<^verbatim>\<open>startLoop\<close> and thread 2, just created.\<close>

(* net/EventLoopThread.cc 8: EventLoopThread::EventLoopThread *)
definition elt_sys :: "bool \<Rightarrow> (elt_stmt, elt_test, elt_data) sys" where
  "elt_sys cb =
     \<lparr>s_mutex = (\<lambda>_. MutexLock_ctor), s_waiting = (\<lambda>_. []), s_data = \<lparr>e_tid = 0, e_count = 1, e_loop = None, e_retLoop = None, e_callback = cb, e_called = []\<rparr>,
      s_code = (\<lambda>_. [])(1 := startLoop, 2 := child_code @ threadFunc), s_fault = None\<rparr>"

lemmas elt_code = startLoop_def threadFunc_def start_code_def child_code_def latch_members

section \<open>Lemmas\<close>

text \<open>What a step does to the code of its thread and to the data, whatever the program.\<close>

fun next_code :: "('b \<Rightarrow> 'd \<Rightarrow> bool) \<Rightarrow> ('s, 'b) tinstr \<Rightarrow> ('s, 'b) tcode \<Rightarrow> 'd \<Rightarrow> ('s, 'b) tcode" where
  "next_code tst (If_then b body) is d = (if tst b d then body @ is else is)"
| "next_code tst (While_do b body) is d = (if tst b d then body @ While_do b body # is else is)"
| "next_code tst i is d = is"

fun next_data :: "('s \<Rightarrow> 'd \<Rightarrow> 'd result) \<Rightarrow> ('s, 'b) tinstr \<Rightarrow> 'd \<Rightarrow> 'd" where
  "next_data sem (Stmt x) d = (case sem x d of Inl _ \<Rightarrow> d | Inr d' \<Rightarrow> d')"
| "next_data sem i d = d"

fun goes_wrong :: "('s \<Rightarrow> 'd \<Rightarrow> 'd result) \<Rightarrow> ('b \<Rightarrow> 'd \<Rightarrow> bool) \<Rightarrow> tid \<Rightarrow> ('s, 'b) tinstr \<Rightarrow> ('s, 'b, 'd) sys \<Rightarrow> bool" where
  "goes_wrong sem tst t (Stmt x) s = (\<exists>e. sem x (s_data s) = Inl e)"
| "goes_wrong sem tst t (Assert_that b) s = (\<not> tst b (s_data s))"
| "goes_wrong sem tst t (Pmutex_unlock n) s = (owner n s \<noteq> Some t)"
| "goes_wrong sem tst t (Pcond_wait n) s = (owner n s \<noteq> Some t)"
| "goes_wrong sem tst t i s = False"

lemma exec_effect:
  assumes "exec sem tst c t s = Some s'"
  obtains i "is" where "s_code s t = i # is" "s_code s' = (s_code s)(t := next_code tst i is (s_data s))"
    "s_data s' = next_data sem i (s_data s)" "\<not> goes_wrong sem tst t i s \<Longrightarrow> s_fault s' = None"
proof -
  obtain i "is" where i: "s_code s t = i # is" "s_fault s = None"
      "exec_instr sem tst c t i (s\<lparr>s_code := (s_code s)(t := is)\<rparr>) = Some s'"
    using assms by (auto simp: exec_def split: if_splits list.splits)
  have "s_code s' = (s_code s)(t := next_code tst i is (s_data s))"
    using i by (cases i) (auto simp: upd_mutex_def unblock_def split: if_splits sum.splits)
  moreover have "s_data s' = next_data sem i (s_data s)"
    using i by (cases i) (auto simp: upd_mutex_def unblock_def split: if_splits sum.splits)
  moreover have "s_fault s' = None" if "\<not> goes_wrong sem tst t i s"
    using i that by (cases i) (auto simp: owner_def upd_mutex_def unblock_def split: if_splits sum.splits)
  ultimately show ?thesis using that i(1) by blast
qed

text \<open>In \<open>code\<close>, no \<open>y\<close> comes after an \<open>x\<close>.\<close>

fun no_later :: "'i \<Rightarrow> 'i \<Rightarrow> 'i list \<Rightarrow> bool" where
  "no_later x y [] = True"
| "no_later x y (i # is) = ((i = x \<longrightarrow> y \<notin> set is) \<and> no_later x y is)"

lemma no_later_append: "no_later x y (xs @ ys) \<longleftrightarrow> no_later x y xs \<and> no_later x y ys \<and> (x \<in> set xs \<longrightarrow> y \<notin> set ys)"
  by (induction xs) auto

abbreviation elt_steps :: "tid \<Rightarrow> nat \<Rightarrow> (elt_stmt, elt_test, elt_data) sys \<Rightarrow> (elt_stmt, elt_test, elt_data) sys \<Rightarrow> bool" where
  "elt_steps t lp \<equiv> (sys_step (elt_sem t lp) elt_tst)\<^sup>*\<^sup>*"

abbreviation (input) latch_loop :: "(elt_stmt, elt_test) tinstr" where
  "latch_loop \<equiv> While_do Latch_positive (Condition_wait 0)"

abbreviation (input) null_loop :: "(elt_stmt, elt_test) tinstr" where
  "null_loop \<equiv> While_do Loop_null (Condition_wait 1)"

abbreviation (input) zero_notice :: "(elt_stmt, elt_test) tinstr" where
  "zero_notice \<equiv> If_then Latch_zero (Condition_notifyAll 0)"

text \<open>The steps the lock of the event loop thread protects.\<close>

definition loop_access :: "(elt_stmt, elt_test) tinstr \<Rightarrow> bool" where
  "loop_access i \<longleftrightarrow> i \<in> {Stmt Set_loop, Stmt Clear_loop, Stmt Read_loop, null_loop}"

interpretation latch_lock: lock_program "elt_sem t lp" elt_tst "\<lambda>_. False" 0 "elt_sys cb" for t lp cb
  by unfold_locales (simp_all add: elt_sys_def elt_code place_defs after_append)

interpretation loop_lock: lock_program "elt_sem t lp" elt_tst loop_access 1 "elt_sys cb" for t lp cb
  by unfold_locales (simp_all add: elt_sys_def elt_code place_defs after_append loop_access_def)

definition parent_instr :: "(elt_stmt, elt_test) tinstr \<Rightarrow> bool" where
  "parent_instr i \<longleftrightarrow> i \<in> {Pmutex_lock 0, Assign_holder 0, latch_loop, Pcond_wait 0, Pcond_relock 0, Unassign_holder 0, Pmutex_unlock 0,
     Assert_that Tid_positive, Pmutex_lock 1, Assign_holder 1, null_loop, Pcond_wait 1, Pcond_relock 1, Stmt Read_loop, Unassign_holder 1, Pmutex_unlock 1}"

definition child_instr :: "(elt_stmt, elt_test) tinstr \<Rightarrow> bool" where
  "child_instr i \<longleftrightarrow> i \<in> {Stmt Set_tid, Pmutex_lock 0, Assign_holder 0, Stmt Decrement, zero_notice, Pcond_broadcast 0, Unassign_holder 0,
     Pmutex_unlock 0, Pmutex_lock 1, Assign_holder 1, If_then Has_callback [Stmt Call_callback], Stmt Call_callback,
     Stmt Set_loop, Pcond_signal 1, Unassign_holder 1, Pmutex_unlock 1, Stmt Run_loop, Stmt Clear_loop}"

lemma instr_kinds [simp]:
  "parent_instr (Unassign_holder 0)" "parent_instr (Pcond_wait 0)" "parent_instr (Pcond_relock 0)" "parent_instr (Assign_holder 0)"
  "parent_instr (Unassign_holder (Suc 0))" "parent_instr (Pcond_wait (Suc 0))" "parent_instr (Pcond_relock (Suc 0))"
  "parent_instr (Assign_holder (Suc 0))" "child_instr (Pcond_broadcast 0)" "child_instr (Stmt Call_callback)"
  by (simp_all add: parent_instr_def child_instr_def)

text \<open>The loop is read right after the wait for it.\<close>

fun read_after_wait :: "(elt_stmt, elt_test) tcode \<Rightarrow> bool" where
  "read_after_wait [] = True"
| "read_after_wait (i # is) = ((take 1 is = [Stmt Read_loop] \<longrightarrow> i = null_loop) \<and> read_after_wait is)"

definition parent_ok :: "(elt_stmt, elt_test) tcode \<Rightarrow> elt_data \<Rightarrow> bool" where
  "parent_ok code d \<longleftrightarrow> (\<forall>i \<in> set code. parent_instr i) \<and> no_later (Assert_that Tid_positive) latch_loop code \<and> read_after_wait code
     \<and> (latch_loop \<in> set code \<or> e_count d \<le> 0) \<and> (take 1 code = [Stmt Read_loop] \<longrightarrow> e_loop d \<noteq> None)
     \<and> (Stmt Read_loop \<in> set code \<or> e_retLoop d \<noteq> None)"

definition child_ok :: "tid \<Rightarrow> (elt_stmt, elt_test) tcode \<Rightarrow> elt_data \<Rightarrow> bool" where
  "child_ok t code d \<longleftrightarrow> (\<forall>i \<in> set code. child_instr i) \<and> no_later (Stmt Decrement) (Stmt Decrement) code
     \<and> no_later (Stmt Decrement) (Stmt Set_tid) code \<and> (Stmt Set_tid \<in> set code \<or> e_tid d = t)
     \<and> e_count d = (if Stmt Decrement \<in> set code then 1 else 0) \<and> (Stmt Set_tid \<in> set code \<longrightarrow> Stmt Decrement \<in> set code)"

definition elt_inv :: "tid \<Rightarrow> (elt_stmt, elt_test, elt_data) sys \<Rightarrow> bool" where
  "elt_inv t s \<longleftrightarrow> s_fault s = None \<and> (\<forall>u. u \<noteq> 1 \<longrightarrow> u \<noteq> 2 \<longrightarrow> s_code s u = [])
     \<and> parent_ok (s_code s 1) (s_data s) \<and> child_ok t (s_code s 2) (s_data s)"

lemma elt_inv_start: "elt_inv t (elt_sys cb)"
  by (simp add: elt_inv_def elt_sys_def parent_ok_def child_ok_def elt_code parent_instr_def child_instr_def)

text \<open>The steps of the calling thread.\<close>

lemma parent_step:
  assumes "parent_ok (i # is) d"
  shows "parent_ok (next_code elt_tst i is d) (next_data (elt_sem t lp) i d)"
    "child_ok u code (next_data (elt_sem t lp) i d) = child_ok u code d"
proof -
  have "parent_instr i" using assms by (simp add: parent_ok_def)
  then show "parent_ok (next_code elt_tst i is d) (next_data (elt_sem t lp) i d)"
    "child_ok u code (next_data (elt_sem t lp) i d) = child_ok u code d"
    unfolding parent_instr_def insert_iff empty_iff
    by (elim disjE FalseE; use assms in \<open>auto simp: parent_ok_def child_ok_def lock_code\<close>)+
qed

text \<open>The steps of the new thread.\<close>

lemma child_step:
  assumes "child_ok t (i # is) d" "parent_ok code d" "i = Stmt Clear_loop \<longrightarrow> take 1 code \<noteq> [Stmt Read_loop]"
  shows "child_ok t (next_code elt_tst i is d) (next_data (elt_sem t lp) i d)"
    "parent_ok code (next_data (elt_sem t lp) i d)"
proof -
  have "child_instr i" using assms by (simp add: child_ok_def)
  then show "child_ok t (next_code elt_tst i is d) (next_data (elt_sem t lp) i d)"
    "parent_ok code (next_data (elt_sem t lp) i d)"
    unfolding child_instr_def insert_iff empty_iff
    by (elim disjE FalseE; use assms in \<open>auto simp: parent_ok_def child_ok_def lock_code\<close>)+
qed

lemma elt_owner:
  assumes "elt_steps t lp (elt_sys cb) s" "s_code s u = i # is" "i = Pmutex_unlock n \<or> i = Pcond_wait n" "n = 0 \<or> n = 1"
  shows "owner n s = Some u"
  using latch_lock.owner_head [OF assms(1,2)] loop_lock.owner_head [OF assms(1,2)] assms(3,4) by auto

lemma parent_not_wrong:
  assumes "elt_steps t lp (elt_sys cb) s" "elt_inv t s" "s_code s 1 = i # is" "t > 0"
  shows "\<not> goes_wrong (elt_sem t lp) elt_tst 1 i s"
proof -
  have p: "parent_instr i" "parent_ok (i # is) (s_data s)" "child_ok t (s_code s 2) (s_data s)"
    using assms(2,3) by (simp_all add: elt_inv_def parent_ok_def)
  then have "elt_tst Tid_positive (s_data s)" if "i = Assert_that Tid_positive"
    using that assms(4) by (auto simp: parent_ok_def child_ok_def split: if_splits)
  then show ?thesis
    using p(1) elt_owner [OF assms(1,3)] unfolding parent_instr_def insert_iff empty_iff by (elim disjE FalseE) auto
qed

lemma child_not_wrong:
  assumes "elt_steps t lp (elt_sys cb) s" "elt_inv t s" "s_code s 2 = i # is"
  shows "\<not> goes_wrong (elt_sem t lp) elt_tst 2 i s"
proof -
  have c: "child_instr i" "child_ok t (i # is) (s_data s)" using assms(2,3) by (simp_all add: elt_inv_def child_ok_def)
  then have "e_count (s_data s) \<noteq> - 2147483648" by (auto simp: child_ok_def split: if_splits)
  then show ?thesis
    using c(1) elt_owner [OF assms(1,3)] unfolding child_instr_def insert_iff empty_iff by (elim disjE FalseE) auto
qed

lemma elt_inv_exec:
  assumes "elt_steps t lp (elt_sys cb) s" "elt_inv t s" "t > 0" "exec (elt_sem t lp) elt_tst c u s = Some s'"
  shows "elt_inv t s'"
proof -
  obtain i "is" where i: "s_code s u = i # is" "s_code s' = (s_code s)(u := next_code elt_tst i is (s_data s))"
    "s_data s' = next_data (elt_sem t lp) i (s_data s)" "\<not> goes_wrong (elt_sem t lp) elt_tst u i s \<Longrightarrow> s_fault s' = None"
    using exec_effect [OF assms(4)] by metis
  have inv: "\<And>v. v \<noteq> 1 \<Longrightarrow> v \<noteq> 2 \<Longrightarrow> s_code s v = []" "parent_ok (s_code s 1) (s_data s)" "child_ok t (s_code s 2) (s_data s)"
    using assms(2) by (simp_all add: elt_inv_def)
  then consider "u = 1" | "u = 2" using i(1) by fastforce
  then show ?thesis
  proof cases
    case 1
    then have "parent_ok (i # is) (s_data s)" using inv(2) i(1) by simp
    then show ?thesis using 1 i inv parent_step parent_not_wrong [OF assms(1,2)] assms(3) by (auto simp: elt_inv_def)
  next
    case 2
    have "take 1 (s_code s 1) \<noteq> [Stmt Read_loop]" if "i = Stmt Clear_loop"
    proof
      assume "take 1 (s_code s 1) = [Stmt Read_loop]"
      then obtain js where js: "s_code s 1 = Stmt Read_loop # js" by (cases "s_code s 1") auto
      have "owner 1 s = Some 1" using loop_lock.owner_head [OF assms(1) js] by (simp add: loop_access_def)
      moreover have "owner 1 s = Some 2" using loop_lock.owner_head [OF assms(1) i(1)] 2 that by (simp add: loop_access_def)
      ultimately show False by simp
    qed
    then show ?thesis using 2 i inv child_step [of t i "is" "s_data s" "s_code s 1"] child_not_wrong [OF assms(1,2)]
      by (auto simp: elt_inv_def)
  qed
qed

lemma elt_inv_reach:
  assumes "elt_steps t lp (elt_sys cb) s" "t > 0"
  shows "elt_inv t s"
  using assms(1)
proof (induction rule: rtranclp_induct)
  case base
  show ?case by (rule elt_inv_start)
next
  case (step s s')
  from step.hyps(2) show ?case
    by (cases rule: sys_step.cases) (use elt_inv_exec [OF step.hyps(1) step.IH assms(2)] step.IH in \<open>auto simp: elt_inv_def unblock_def\<close>)
qed

section \<open>Properties\<close>

text \<open>
  C23: Starting an event loop's thread is safe.  In every interleaving of \<^verbatim>\<open>startLoop\<close> with the
  thread it starts, no assertion fails and no lock is misused: the new thread's
  identifier is stored before \<^verbatim>\<open>start\<close> asserts that it is positive; and if \<^verbatim>\<open>startLoop\<close>
  returns, it returns a loop, never null.
\<close>

theorem start_loop_safe:
  assumes "t > 0" "elt_steps t lp (elt_sys cb) s"
  shows "s_fault s = None \<and> (s_code s 1 = [] \<longrightarrow> e_tid (s_data s) = t \<and> e_retLoop (s_data s) \<noteq> None)"
  using elt_inv_reach [OF assms(2,1)] by (auto simp: elt_inv_def parent_ok_def child_ok_def split: if_splits)

definition loop_stays :: "(tid \<times> tid) list" where
  "loop_stays = map (Pair 0) (replicate 15 2 @ replicate 12 1)"

theorem start_loop_safe_witness:
  "\<exists>s. run_sched (elt_sem 7 3) elt_tst loop_stays (elt_sys False) = Some s \<and> s_fault s = None \<and> e_retLoop (s_data s) \<noteq> None"
proof -
  have "\<exists>s. run_sched (elt_sem 7 3) elt_tst loop_stays (elt_sys False) = Some s \<and> s_code s 1 = []"
    by (simp add: loop_stays_def elt_sys_def elt_code sched_simps numeral_eq_Suc)
  then obtain s where "run_sched (elt_sem 7 3) elt_tst loop_stays (elt_sys False) = Some s" "s_code s 1 = []" by blast
  then show ?thesis using start_loop_safe [of 7 3 False s] run_sched_reach by fastforce
qed

definition child_first :: "bool \<Rightarrow> (tid \<times> tid) list" where
  "child_first cb = map (Pair 0) (replicate 8 2 @ replicate 6 1 @ replicate (if cb then 14 else 13) 2 @ replicate 5 1)"

text \<open>
  Starting an event loop's thread may hang.  If the loop ends before the thread that
  started it looks at \<^verbatim>\<open>loop_\<close>, the pointer is null again: \<^verbatim>\<open>startLoop\<close> waits for a
  notification that has already been given, and no thread can take a step any more.
\<close>

theorem start_loop_hangs:
  assumes "t > 0"
  shows "\<exists>s. elt_steps t lp (elt_sys cb) s \<and> s_fault s = None \<and> stuck (elt_sem t lp) elt_tst s \<and> s_code s 1 \<noteq> [] \<and> s_code s 2 = []"
proof -
  have "\<exists>s. run_sched (elt_sem t lp) elt_tst (child_first cb) (elt_sys cb) = Some s \<and> s_fault s = None
     \<and> stuck (elt_sem t lp) elt_tst s \<and> s_code s 1 \<noteq> [] \<and> s_code s 2 = []"
    using assms by (cases cb) (simp_all add: child_first_def elt_sys_def elt_code sched_simps stuck_def numeral_eq_Suc)
  then show ?thesis using run_sched_reach by blast
qed

theorem start_loop_hangs_witness:
  "\<exists>s. elt_steps 7 3 (elt_sys cb) s \<and> stuck (elt_sem 7 3) elt_tst s \<and> s_code s 1 \<noteq> []"
  using start_loop_hangs [of 7 3 cb] by auto

end
