(* ===== verification/Endian.thy ===== *)
theory Endian
  imports Prelude
begin

text \<open>
  Byte order conversion (\<^verbatim>\<open>qslary/net/Endian.h\<close>).  The four overloads of
  \<^verbatim>\<open>byteswap\<close> select glibc's \<^verbatim>\<open>bswap_16/32/64\<close> (or nothing, for one byte) by the
  size of the type; all of them reverse the byte image, which is what
  \<^verbatim>\<open>byteswap\<close> does here for a word of any whole number of bytes.  The
  preprocessor's choice between a big and a little endian host is the argument
  \<open>big\<close>; \<^verbatim>\<open>host_bytes\<close> is the memory image of a value on such a host.
\<close>

section \<open>Definitions\<close>

definition num_bytes :: "'a::len word \<Rightarrow> nat" where
  "num_bytes w = LENGTH('a) div 8"

(* net/Endian.h 23-50: byteswap *)
definition byteswap :: "'a::len word \<Rightarrow> 'a word" where
  "byteswap value = word_of_nat (of_le (rev (le_bytes (num_bytes value) (unat value))))"

(* net/Endian.h 61-80: byteswapOnLittleEndian *)
definition byteswapOnLittleEndian :: "bool \<Rightarrow> 'a::len word \<Rightarrow> 'a word" where
  "byteswapOnLittleEndian big val = (if big then val else byteswap val)"

(* net/Endian.h 69-86: byteswapOnBigEndian *)
definition byteswapOnBigEndian :: "bool \<Rightarrow> 'a::len word \<Rightarrow> 'a word" where
  "byteswapOnBigEndian big val = (if big then byteswap val else val)"

definition host_bytes :: "bool \<Rightarrow> 'a::len word \<Rightarrow> byte list" where
  "host_bytes big w =
     (if big then rev (le_bytes (num_bytes w) (unat w)) else le_bytes (num_bytes w) (unat w))"

definition be_bytes :: "'a::len word \<Rightarrow> byte list" where
  "be_bytes w = rev (le_bytes (num_bytes w) (unat w))"

section \<open>Byte images of words\<close>

lemma le_bytes_of_le: "le_bytes (length bs) (of_le bs) = bs"
proof (induction bs)
  case Nil
  then show ?case by simp
next
  case (Cons b bs)
  have u: "unat b < 256" using unat_bound [of b] by simp
  then have "(unat b + 256 * of_le bs) mod 256 = unat b"
    and "(unat b + 256 * of_le bs) div 256 = of_le bs"
    by simp_all
  with Cons show ?case by simp
qed

lemma of_le_bound: "of_le bs < 256 ^ length bs"
proof (induction bs)
  case Nil
  then show ?case by simp
next
  case (Cons b bs)
  have "unat b < 256" using unat_bound [of b] by simp
  with Cons show ?case by simp
qed

lemma unat_word_of_bytes:
  fixes w :: "'a::len word"
  assumes "LENGTH('a) = 8 * length bs"
  shows "unat (word_of_nat (of_le bs) :: 'a word) = of_le bs"
proof -
  have "(2 :: nat) ^ LENGTH('a) = 256 ^ length bs"
    using assms by (simp add: power_mult)
  with of_le_bound [of bs] show ?thesis by (simp add: unat_of_nat)
qed

lemma le_bytes_byteswap:
  fixes v :: "'a::len word"
  assumes "8 dvd LENGTH('a)"
  shows "le_bytes (num_bytes v) (unat (byteswap v)) = rev (le_bytes (num_bytes v) (unat v))"
proof -
  let ?bs = "rev (le_bytes (num_bytes v) (unat v))"
  have "LENGTH('a) = 8 * length ?bs" using assms by (simp add: num_bytes_def)
  then have "unat (byteswap v) = of_le ?bs"
    unfolding byteswap_def by (rule unat_word_of_bytes)
  moreover have "le_bytes (length ?bs) (of_le ?bs) = ?bs" by (rule le_bytes_of_le)
  ultimately show ?thesis by simp
qed

lemma unat_bytes_bound:
  fixes v :: "'a::len word"
  assumes "8 dvd LENGTH('a)"
  shows "unat v < 256 ^ num_bytes v"
proof -
  have "(256 :: nat) ^ num_bytes v = 2 ^ (8 * num_bytes v)" by (simp add: power_mult)
  also have "\<dots> = 2 ^ LENGTH('a)" using assms by (simp add: num_bytes_def)
  finally show ?thesis using unat_bound [of v] by simp
qed

lemma byteswap_byteswap:
  fixes v :: "'a::len word"
  assumes "8 dvd LENGTH('a)"
  shows "byteswap (byteswap v) = v"
proof -
  have n: "num_bytes (byteswap v) = num_bytes v" by (simp add: num_bytes_def)
  have "byteswap (byteswap v) = word_of_nat (of_le (le_bytes (num_bytes v) (unat v)))"
    using le_bytes_byteswap [OF assms, of v] by (simp add: byteswap_def [of "byteswap v"] n)
  then show ?thesis by (simp add: of_le_le_bytes unat_bytes_bound assms)
qed

lemma byteswapOnLittleEndian_inverse [simp]:
  fixes v :: "'a::len word"
  assumes "8 dvd LENGTH('a)"
  shows "byteswapOnLittleEndian big (byteswapOnLittleEndian big v) = v"
  using byteswap_byteswap [OF assms, of v] by (simp add: byteswapOnLittleEndian_def)

section \<open>Properties\<close>

text \<open>
  Network byte order.  For an integer type of a whole number of bytes and for
  a host of either endianness, the bytes that \<^verbatim>\<open>byteswapOnLittleEndian\<close> leaves in
  memory are the big-endian image of the value, and applying the conversion a
  second time gives the value back.
\<close>

theorem network_byte_order:
  fixes val :: "'a::len word"
  assumes "8 dvd LENGTH('a)"
  shows "host_bytes big (byteswapOnLittleEndian big val) = be_bytes val
       \<and> byteswapOnLittleEndian big (byteswapOnLittleEndian big val) = val"
proof -
  have n: "num_bytes (byteswap val) = num_bytes val"
    by (simp add: num_bytes_def)
  show ?thesis
    using le_bytes_byteswap [OF assms, of val] byteswapOnLittleEndian_inverse [OF assms, of big val] n
    by (simp add: host_bytes_def be_bytes_def byteswapOnLittleEndian_def)
qed

theorem network_byte_order_witness:
  "8 dvd LENGTH(16) \<and> host_bytes False (byteswapOnLittleEndian False (8080 :: u16)) = be_bytes (8080 :: u16)"
  using network_byte_order [where 'a = 16, of False 8080] by simp

end
