(* ===== verification/Address.thy ===== *)
theory Address
  imports Endian Containers
begin

text \<open>
  Socket addresses (\<^verbatim>\<open>qslary/net/Address.h\<close>, \<^verbatim>\<open>Address.cc\<close>).  The \<^verbatim>\<open>sockaddr\<close>
  structures are records with their memory images; \<open>big\<close> is the endianness of the
  host.  \<^verbatim>\<open>CreateMask\<close> computes in \<^verbatim>\<open>int\<close>, where a shift by the width or more is
  \<^const>\<open>Undefined_behaviour\<close> and a result outside the type \<^const>\<open>Signed_overflow\<close>.
  \<^verbatim>\<open>getaddrinfo\<close>, \<^verbatim>\<open>getifaddrs\<close> and \<^verbatim>\<open>inet_pton\<close> are arguments; members a
  constructor leaves uninitialised are arguments too.

  The lemmas show what the address operations compute in host byte order, that
  comparison is a strict weak order whose equivalence is equality, that the count of
  mask bits ends and is the number of one bits, and how a host name is split.
\<close>

unbundle bit_operations_syntax

section \<open>Definitions\<close>

definition AF_UNSPEC :: nat where "AF_UNSPEC = 0"
definition AF_UNIX :: nat where "AF_UNIX = 1"
definition AF_INET :: nat where "AF_INET = 2"
definition AF_INET6 :: nat where "AF_INET6 = 10"

record sockaddr_in =
  sin_family :: u16
  sin_port :: u16
  s_addr :: u32
  sin_zero :: "byte list"

record sockaddr_in6 =
  sin6_family :: u16
  sin6_port :: u16
  sin6_flowinfo :: u32
  s6_addr :: "byte list"
  sin6_scope_id :: u32

record sockaddr_un =
  sun_family :: u16
  sun_path :: string

(* net/Address.h 74-146: IPv4Address, IPv6Address, UnixAddress *)
datatype address =
    IPv4Address sockaddr_in
  | IPv6Address sockaddr_in6
  | UnixAddress sockaddr_un nat

text \<open>What the operating system hands over where the source has a \<^verbatim>\<open>sockaddr *\<close>.\<close>

datatype sockaddr = SA_in sockaddr_in | SA_in6 sockaddr_in6 | SA_other nat

fun sa_family :: "sockaddr \<Rightarrow> nat" where
  "sa_family (SA_in a) = unat (sin_family a)"
| "sa_family (SA_in6 a) = unat (sin6_family a)"
| "sa_family (SA_other f) = f"

(* net/Address.cc 25: CreateMask *)
definition CreateMask :: "nat \<Rightarrow> nat \<Rightarrow> int result" where
  "CreateMask bits prezeroNum =
     (let shift = size_sub bits prezeroNum in
      if shift \<ge> 32 then Inl Undefined_behaviour
      else if shift = 31 then Inl Signed_overflow
      else Inr (2 ^ shift - 1))"

lemma and_nat_less: "0 < v \<Longrightarrow> v AND (v - 1) < (v :: nat)"
proof -
  assume "0 < v"
  have "int (v AND (v - 1)) \<le> int (v - 1)" by (simp only: of_nat_and_eq) (rule AND_upper2, simp)
  with \<open>0 < v\<close> show ?thesis by linarith
qed

(* net/Address.cc 30: CountOneNumbers *)
function CountOneNumbers_loop :: "nat \<Rightarrow> nat \<Rightarrow> nat" where
  "CountOneNumbers_loop v ret = (if v = 0 then ret else CountOneNumbers_loop (v AND (v - 1)) (ret + 1))"
  by pat_completeness auto
termination
  by (relation "measure fst") (use and_nat_less in auto)

declare CountOneNumbers_loop.simps [simp del]

definition CountOneNumbers :: "nat \<Rightarrow> nat" where
  "CountOneNumbers v = CountOneNumbers_loop v 0"

subsection \<open>IPv4\<close>

(* net/Address.cc 301: IPv4Address::IPv4Address *)
definition IPv4_default :: sockaddr_in where
  "IPv4_default = \<lparr>sin_family = word_of_nat AF_INET, sin_port = 0, s_addr = 0, sin_zero = replicate 8 0\<rparr>"

(* net/Address.cc 309: IPv4Address::IPv4Address *)
definition IPv4_ctor :: "bool \<Rightarrow> u32 \<Rightarrow> u16 \<Rightarrow> sockaddr_in" where
  "IPv4_ctor big addr port =
     IPv4_default\<lparr>sin_port := byteswapOnLittleEndian big port, s_addr := byteswapOnLittleEndian big addr\<rparr>"

(* net/Address.cc 319: IPv4Address::Create *)
definition IPv4_Create :: "bool \<Rightarrow> (string \<Rightarrow> u32 option) \<Rightarrow> string \<Rightarrow> u16 \<Rightarrow> sockaddr_in result" where
  "IPv4_Create big inet_pton text port =
     (case inet_pton text of
        None \<Rightarrow> Inl Assert_failed
      | Some a \<Rightarrow> Inr (IPv4_default\<lparr>sin_port := byteswapOnLittleEndian big port, s_addr := a\<rparr>))"

(* net/Address.cc 334: IPv4Address::Insert *)
definition IPv4_Insert :: "bool \<Rightarrow> sockaddr_in \<Rightarrow> string" where
  "IPv4_Insert big a =
     (let addr = byteswapOnLittleEndian big (s_addr a) in
      show_nat (unat (drop_bit 24 addr AND 255)) @ ''.'' @ show_nat (unat (drop_bit 16 addr AND 255)) @ ''.''
      @ show_nat (unat (drop_bit 8 addr AND 255)) @ ''.'' @ show_nat (unat (addr AND 255))
      @ '':'' @ show_nat (unat (byteswapOnLittleEndian big (sin_port a))))"

(* net/Address.cc 344: IPv4Address::BroadcastAddress *)
definition IPv4_BroadcastAddress :: "bool \<Rightarrow> nat \<Rightarrow> sockaddr_in \<Rightarrow> sockaddr_in option result" where
  "IPv4_BroadcastAddress big prefix_len a =
     (if prefix_len > 32 then Inr None
      else rbind (CreateMask 32 prefix_len) (\<lambda>m.
        Inr (Some (a\<lparr>s_addr := s_addr a OR byteswapOnLittleEndian big (word_of_int m)\<rparr>))))"

(* net/Address.cc 356: IPv4Address::NetworkAddress *)
definition IPv4_NetworkAddress :: "bool \<Rightarrow> nat \<Rightarrow> sockaddr_in \<Rightarrow> sockaddr_in option result" where
  "IPv4_NetworkAddress big prefix_len a =
     (if prefix_len > 32 then Inr None
      else rbind (CreateMask 32 prefix_len) (\<lambda>m.
        Inr (Some (a\<lparr>s_addr := s_addr a AND byteswapOnLittleEndian big (word_of_int m)\<rparr>))))"

(* net/Address.cc 366: IPv4Address::SubnetMask *)
definition IPv4_SubnetMask :: "bool \<Rightarrow> u16 \<Rightarrow> byte list \<Rightarrow> nat \<Rightarrow> sockaddr_in result" where
  "IPv4_SubnetMask big junk_port junk_zero prefix_len =
     rbind (CreateMask 32 prefix_len) (\<lambda>m.
       Inr \<lparr>sin_family = word_of_nat AF_INET, sin_port = junk_port,
            s_addr = NOT (byteswapOnLittleEndian big (word_of_int m)), sin_zero = junk_zero\<rparr>)"

(* net/Address.cc 375: IPv4Address::GetPort *)
definition IPv4_GetPort :: "bool \<Rightarrow> sockaddr_in \<Rightarrow> u16" where
  "IPv4_GetPort big a = byteswapOnLittleEndian big (sin_port a)"

(* net/Address.cc 379: IPv4Address::SetPort *)
definition IPv4_SetPort :: "bool \<Rightarrow> u16 \<Rightarrow> sockaddr_in \<Rightarrow> sockaddr_in" where
  "IPv4_SetPort big port a = a\<lparr>sin_port := byteswapOnLittleEndian big port\<rparr>"

subsection \<open>IPv6\<close>

(* net/Address.cc 386: IPv6Address::IPv6Address *)
definition IPv6_default :: sockaddr_in6 where
  "IPv6_default = \<lparr>sin6_family = word_of_nat AF_INET6, sin6_port = 0, sin6_flowinfo = 0,
     s6_addr = replicate 16 0, sin6_scope_id = 0\<rparr>"

(* net/Address.cc 394: IPv6Address::IPv6Address *)
definition IPv6_ctor :: "bool \<Rightarrow> byte list \<Rightarrow> u16 \<Rightarrow> sockaddr_in6" where
  "IPv6_ctor big addr port =
     IPv6_default\<lparr>sin6_port := byteswapOnLittleEndian big port, s6_addr := take 16 addr\<rparr>"

(* net/Address.cc 404: IPv6Address::Create *)
definition IPv6_Create :: "bool \<Rightarrow> (string \<Rightarrow> byte list option) \<Rightarrow> string \<Rightarrow> u16 \<Rightarrow> sockaddr_in6 result" where
  "IPv6_Create big inet_pton arg port =
     (case inet_pton arg of
        None \<Rightarrow> Inl Assert_failed
      | Some a \<Rightarrow> Inr (IPv6_default\<lparr>sin6_port := byteswapOnLittleEndian big port, s6_addr := a\<rparr>))"

definition group16 :: "byte list \<Rightarrow> nat \<Rightarrow> u16" where
  "group16 bs i = word_of_nat (256 * unat (bs ! (2 * i)) + unat (bs ! (2 * i + 1)))"

text \<open>
  \<^verbatim>\<open>std::hex\<close> stays in force once a group has been printed, so that the port is
  printed in hexadecimal too, except after an all-zero address.
  \<open>group16\<close> is the host-order value of the \<open>i\<close>-th 16-bit group, zero when the raw group is.
\<close>

fun IPv6_groups :: "byte list \<Rightarrow> nat list \<Rightarrow> bool \<Rightarrow> string \<times> bool" where
  "IPv6_groups bs [] used_zeros = ([], used_zeros)"
| "IPv6_groups bs (i # is) used_zeros =
     (if group16 bs i = 0 \<and> \<not> used_zeros then IPv6_groups bs is used_zeros
      else
        let zeros = (i \<noteq> 0 \<and> group16 bs (i - 1) = 0 \<and> \<not> used_zeros);
            (rest, u) = IPv6_groups bs is (used_zeros \<or> zeros) in
        ((if zeros then '':'' else []) @ show_base 16 (unat (group16 bs i)) @ rest, u))"

(* net/Address.cc 420: IPv6Address::Insert *)
definition IPv6_Insert :: "bool \<Rightarrow> sockaddr_in6 \<Rightarrow> string" where
  "IPv6_Insert big a =
     (let (groups, used_zeros) = IPv6_groups (s6_addr a) [0..<8] False in
      ''{'' @ groups @ (if \<not> used_zeros \<and> group16 (s6_addr a) 7 = 0 then ''::'' else [])
      @ '']:'' @ show_base (if groups = [] then 10 else 16) (unat (byteswapOnLittleEndian big (sin6_port a))))"

definition update_byte :: "nat \<Rightarrow> (byte \<Rightarrow> byte) \<Rightarrow> byte list \<Rightarrow> byte list result" where
  "update_byte i f bs = (if i < length bs then Inr (bs[i := f (bs ! i)]) else Inl Undefined_behaviour)"

(* net/Address.cc 446: IPv6Address::BroadcastAddress *)
definition IPv6_BroadcastAddress :: "nat \<Rightarrow> sockaddr_in6 \<Rightarrow> sockaddr_in6 result" where
  "IPv6_BroadcastAddress prefix_len a =
     rbind (CreateMask 8 (prefix_len mod 8)) (\<lambda>m.
     rbind (update_byte (prefix_len div 8) (\<lambda>b. b OR word_of_int m) (s6_addr a)) (\<lambda>bs.
       Inr (a\<lparr>s6_addr := map (\<lambda>i. if i < prefix_len div 8 + 1 then bs ! i else 255) [0..<16]\<rparr>)))"

(* net/Address.cc 458: IPv6Address::NetworkAddress *)
definition IPv6_NetworkAddress :: "nat \<Rightarrow> sockaddr_in6 \<Rightarrow> sockaddr_in6 result" where
  "IPv6_NetworkAddress prefix_len a =
     rbind (CreateMask 8 (prefix_len mod 8)) (\<lambda>m.
     rbind (update_byte (prefix_len div 8) (\<lambda>b. b AND word_of_int m) (s6_addr a)) (\<lambda>bs.
       Inr (a\<lparr>s6_addr := bs\<rparr>)))"

(* net/Address.cc 466: IPv6Address::SubnetMask *)
definition IPv6_SubnetMask :: "nat \<Rightarrow> sockaddr_in6 result" where
  "IPv6_SubnetMask prefix_len =
     rbind (CreateMask 8 (prefix_len mod 8)) (\<lambda>m.
     rbind (update_byte (prefix_len div 8) (\<lambda>b. NOT (word_of_int m)) (s6_addr IPv6_default)) (\<lambda>bs.
       Inr (IPv6_default\<lparr>s6_addr := map (\<lambda>i. if i < prefix_len div 8 then 255 else bs ! i) [0..<16]\<rparr>)))"

(* net/Address.cc 480: IPv6Address::GetPort *)
definition IPv6_GetPort :: "bool \<Rightarrow> sockaddr_in6 \<Rightarrow> u16" where
  "IPv6_GetPort big a = byteswapOnLittleEndian big (sin6_port a)"

(* net/Address.cc 485: IPv6Address::SetPort *)
definition IPv6_SetPort :: "bool \<Rightarrow> u16 \<Rightarrow> sockaddr_in6 \<Rightarrow> sockaddr_in6" where
  "IPv6_SetPort big port a = a\<lparr>sin6_port := byteswapOnLittleEndian big port\<rparr>"

subsection \<open>Unix domain\<close>

definition sizeof_sun_path :: nat where
  "sizeof_sun_path = 108"

definition offsetof_sun_path :: nat where
  "offsetof_sun_path = 2"

(* net/Address.cc 490: MAX_PATH_LEN *)
definition MAX_PATH_LEN :: nat where
  "MAX_PATH_LEN = sizeof_sun_path - 1"

(* net/Address.cc 492: UnixAddress::UnixAddress *)
definition Unix_default :: address where
  "Unix_default = UnixAddress \<lparr>sun_family = word_of_nat AF_UNIX, sun_path = replicate 108 NUL\<rparr>
     (offsetof_sun_path + MAX_PATH_LEN)"

(* net/Address.cc 499: UnixAddress::UnixAddress *)
definition Unix_ctor :: "string \<Rightarrow> address result" where
  "Unix_ctor path =
     (let len = length path + 1;
          len = (if path \<noteq> [] \<and> hd path = NUL then len - 1 else len) in
      if len > sizeof_sun_path then Inl Assert_failed
      else Inr (UnixAddress
        \<lparr>sun_family = word_of_nat AF_UNIX, sun_path = poke (replicate 108 NUL) 0 (take len (path @ [NUL]))\<rparr>
        (len + offsetof_sun_path)))"

(* net/Address.cc 518: UnixAddress::setAddrlen *)
fun setAddrlen :: "nat \<Rightarrow> address \<Rightarrow> address" where
  "setAddrlen len (UnixAddress a _) = UnixAddress a len"
| "setAddrlen len a = a"

(* net/Address.cc 526: UnixAddress::Insert *)
definition Unix_Insert :: "sockaddr_un \<Rightarrow> nat \<Rightarrow> string" where
  "Unix_Insert a len =
     (if len > offsetof_sun_path \<and> sun_path a ! 0 = NUL
      then [CHR 0x5C, CHR ''0''] @ peek (sun_path a) 1 (len - offsetof_sun_path - 1)
      else c_str (sun_path a))"

subsection \<open>Any address\<close>

(* net/Address.cc 135: Address::GetFamily *)
fun GetFamily :: "address \<Rightarrow> nat" where
  "GetFamily (IPv4Address a) = unat (sin_family a)"
| "GetFamily (IPv6Address a) = unat (sin6_family a)"
| "GetFamily (UnixAddress a _) = unat (sun_family a)"

(* net/Address.cc 333: IPv4Address::GetAddrLen *)
fun GetAddrLen :: "address \<Rightarrow> nat" where
  "GetAddrLen (IPv4Address a) = 16"
| "GetAddrLen (IPv6Address a) = 28"
| "GetAddrLen (UnixAddress a len) = len"

text \<open>The bytes of the structure \<^verbatim>\<open>GetAddr\<close> points to.\<close>

fun addr_image :: "bool \<Rightarrow> address \<Rightarrow> byte list" where
  "addr_image big (IPv4Address a) =
     host_bytes big (sin_family a) @ host_bytes big (sin_port a) @ host_bytes big (s_addr a) @ sin_zero a"
| "addr_image big (IPv6Address a) =
     host_bytes big (sin6_family a) @ host_bytes big (sin6_port a) @ host_bytes big (sin6_flowinfo a)
     @ s6_addr a @ host_bytes big (sin6_scope_id a)"
| "addr_image big (UnixAddress a len) =
     host_bytes big (sun_family a) @ map (\<lambda>c. word_of_nat (of_char c)) (sun_path a)"

fun memcmp :: "byte list \<Rightarrow> byte list \<Rightarrow> nat \<Rightarrow> int" where
  "memcmp (x # xs) (y # ys) (Suc n) = (if x = y then memcmp xs ys n else uint x - uint y)"
| "memcmp _ _ _ = 0"

(* net/Address.cc 143: Address::operator< *)
definition addr_less :: "bool \<Rightarrow> address \<Rightarrow> address \<Rightarrow> bool" where
  "addr_less big lhs rhs =
     (let minlen = min (GetAddrLen lhs) (GetAddrLen rhs);
          result = memcmp (addr_image big lhs) (addr_image big rhs) minlen in
      if result \<noteq> 0 then result < 0 else GetAddrLen lhs < GetAddrLen rhs)"

(* net/Address.cc 154: Address::operator== *)
definition addr_equal :: "bool \<Rightarrow> address \<Rightarrow> address \<Rightarrow> bool" where
  "addr_equal big lhs rhs \<longleftrightarrow> GetAddrLen lhs = GetAddrLen rhs
     \<and> memcmp (addr_image big lhs) (addr_image big rhs) (GetAddrLen lhs) = 0"

(* net/Address.cc 160: Address::operator!= *)
definition addr_not_equal :: "bool \<Rightarrow> address \<Rightarrow> address \<Rightarrow> bool" where
  "addr_not_equal big lhs rhs \<longleftrightarrow> \<not> addr_equal big lhs rhs"

fun Insert :: "bool \<Rightarrow> address \<Rightarrow> string" where
  "Insert big (IPv4Address a) = IPv4_Insert big a"
| "Insert big (IPv6Address a) = IPv6_Insert big a"
| "Insert big (UnixAddress a len) = Unix_Insert a len"

(* net/Address.cc 136: Address::ToString *)
definition addr_ToString :: "bool \<Rightarrow> address \<Rightarrow> string" where
  "addr_ToString big a = Insert big a"

(* net/Address.cc 119: IPAddress::Create *)
fun IPAddress_Create :: "sockaddr \<Rightarrow> address option" where
  "IPAddress_Create (SA_in a) = Some (IPv4Address a)"
| "IPAddress_Create (SA_in6 a) = Some (IPv6Address a)"
| "IPAddress_Create (SA_other f) = None"

fun SetPort :: "bool \<Rightarrow> u16 \<Rightarrow> address \<Rightarrow> address" where
  "SetPort big port (IPv4Address a) = IPv4Address (IPv4_SetPort big port a)"
| "SetPort big port (IPv6Address a) = IPv6Address (IPv6_SetPort big port a)"
| "SetPort big port (UnixAddress a len) = UnixAddress a len"

fun GetPort :: "bool \<Rightarrow> address \<Rightarrow> u16" where
  "GetPort big (IPv4Address a) = IPv4_GetPort big a"
| "GetPort big (IPv6Address a) = IPv6_GetPort big a"
| "GetPort big (UnixAddress a len) = 0"

(* net/Address.cc 162: IPAddress::Create *)
definition IPAddress_Create_text :: "bool \<Rightarrow> (string \<Rightarrow> sockaddr list option) \<Rightarrow> string \<Rightarrow> u16 \<Rightarrow> address option result" where
  "IPAddress_Create_text big getaddrinfo addr port =
     (case getaddrinfo addr of
        None \<Rightarrow> Inr None
      | Some [] \<Rightarrow> Inl Undefined_behaviour
      | Some (r # _) \<Rightarrow> Inr (map_option (SetPort big port) (IPAddress_Create r)))"

subsection \<open>Host names\<close>

fun find_char :: "char \<Rightarrow> string \<Rightarrow> nat option" where
  "find_char c [] = None"
| "find_char c (d # ds) = (if c = d then Some 0 else map_option Suc (find_char c ds))"

text \<open>
  The node and service a host name is split into, before resolution; the service
  pointer runs to the end of the host name.
\<close>

(* net/Address.cc 214-248: IPAddress::HostNameToAddress, node and service *)
definition split_hostname :: "string \<Rightarrow> string \<times> string option" where
  "split_hostname hostname =
     (let (node, service) =
        (if hostname \<noteq> [] \<and> hd hostname = CHR ''[''
         then (case find_char (CHR '']'') (tl hostname) of
                 None \<Rightarrow> ([], None)
               | Some k \<Rightarrow> (take k (tl hostname),
                   if drop (Suc k) (tl hostname) \<noteq> [] \<and> hd (drop (Suc k) (tl hostname)) = CHR '':''
                   then Some (c_str (drop (Suc (Suc k)) (tl hostname))) else None))
         else ([], None));
          (node, service) =
        (if node = []
         then (case find_char (CHR '':'') hostname of
                 None \<Rightarrow> ([], None)
               | Some k \<Rightarrow> if find_char (CHR '':'') (drop (Suc k) hostname) = None
                   then (take k hostname, Some (c_str (drop (Suc k) hostname)))
                   else ([], Some (c_str (drop k hostname))))
         else (node, service)) in
      (if node = [] then hostname else node, service))"

fun collect_addresses :: "sockaddr list \<Rightarrow> address list result" where
  "collect_addresses [] = Inr []"
| "collect_addresses (SA_in a # rs) = rbind (collect_addresses rs) (\<lambda>xs. Inr (IPv4Address a # xs))"
| "collect_addresses (SA_in6 a # rs) = rbind (collect_addresses rs) (\<lambda>xs. Inr (IPv6Address a # xs))"
| "collect_addresses (SA_other f # rs) = Inl Assert_failed"

(* net/Address.cc 195: IPAddress::HostNameToAddress *)
definition HostNameToAddress :: "(string \<Rightarrow> string option \<Rightarrow> nat \<Rightarrow> nat \<Rightarrow> sockaddr list option)
    \<Rightarrow> string \<Rightarrow> nat \<Rightarrow> nat \<Rightarrow> address list result" where
  "HostNameToAddress getaddrinfo hostname family protocol =
     rbind (assert_r (hostname \<noteq> [])) (\<lambda>_.
     let (node, service) = split_hostname hostname in
     case getaddrinfo (c_str node) service family protocol of
       None \<Rightarrow> Inl Undefined_behaviour
     | Some results \<Rightarrow> collect_addresses results)"

(* net/Address.cc 294: IPAddress::LookupAnyAddr *)
definition LookupAnyAddr :: "(string \<Rightarrow> string option \<Rightarrow> nat \<Rightarrow> nat \<Rightarrow> sockaddr list option)
    \<Rightarrow> string \<Rightarrow> nat \<Rightarrow> nat \<Rightarrow> address option result" where
  "LookupAnyAddr getaddrinfo hostname family protocol =
     rbind (HostNameToAddress getaddrinfo hostname family protocol) (\<lambda>address.
       Inr (if address = [] then None else Some (hd address)))"

subsection \<open>Interfaces\<close>

record ifaddr =
  ifa_name :: string
  ifa_addr :: "sockaddr option"
  ifa_netmask :: "byte list"

fun mm_insert :: "string \<Rightarrow> 'a \<Rightarrow> (string \<times> 'a) list \<Rightarrow> (string \<times> 'a) list" where
  "mm_insert k v [] = [(k, v)]"
| "mm_insert k v ((a, w) # m) = (if str_less k a then (k, v) # (a, w) # m else (a, w) # mm_insert k v m)"

definition prefix_length :: "byte list \<Rightarrow> nat" where
  "prefix_length netmask = sum_list (map (\<lambda>b. CountOneNumbers (unat b)) netmask)"

(* net/Address.cc 46-80: Address::GetInterfaceAddresses, the loop *)
fun interface_loop :: "nat \<Rightarrow> ifaddr list \<Rightarrow> (string \<times> address \<times> nat) list
    \<Rightarrow> (string \<times> address \<times> nat) list result" where
  "interface_loop family [] result = Inr result"
| "interface_loop family (next # rest) result =
     (case ifa_addr next of
        None \<Rightarrow> Inl Undefined_behaviour
      | Some sa \<Rightarrow>
          if family \<noteq> AF_UNSPEC \<and> sa_family sa \<noteq> family then interface_loop family rest result
          else (case sa of
              SA_in a \<Rightarrow> interface_loop family rest
                (mm_insert (ifa_name next)
                   (IPv4Address a, CountOneNumbers (of_le (take 4 (ifa_netmask next)))) result)
            | SA_in6 a \<Rightarrow> interface_loop family rest
                (mm_insert (ifa_name next) (IPv6Address a, prefix_length (take 16 (ifa_netmask next))) result)
            | SA_other f \<Rightarrow> interface_loop family rest result))"

(* net/Address.cc 38: Address::GetInterfaceAddresses *)
definition GetInterfaceAddresses_all :: "ifaddr list option \<Rightarrow> nat \<Rightarrow> (string \<times> address \<times> nat) list
    \<Rightarrow> (bool \<times> (string \<times> address \<times> nat) list) result" where
  "GetInterfaceAddresses_all getifaddrs family result =
     (case getifaddrs of
        None \<Rightarrow> Inl Assert_failed
      | Some interface \<Rightarrow> rbind (interface_loop family interface result) (\<lambda>r. Inr (r \<noteq> [], r)))"

(* net/Address.cc 85: Address::GetInterfaceAddresses *)
definition GetInterfaceAddresses :: "ifaddr list option \<Rightarrow> string \<Rightarrow> nat \<Rightarrow> (address \<times> nat) list
    \<Rightarrow> (bool \<times> (address \<times> nat) list) result" where
  "GetInterfaceAddresses getifaddrs iface family result =
     (if iface = [] \<or> iface = ''*''
      then Inr (True, result
        @ (if family = AF_INET \<or> family = AF_UNSPEC then [(IPv4Address IPv4_default, 0)] else [])
        @ (if family = AF_INET6 \<or> family = AF_UNSPEC then [(IPv6Address IPv6_default, 0)] else []))
      else rbind (GetInterfaceAddresses_all getifaddrs family []) (\<lambda>(ok, results).
        if \<not> ok then Inr (False, result)
        else let result' = result @ map snd (filter (\<lambda>(k, _). k = iface) results) in
          Inr (result' \<noteq> [], result')))"

section \<open>Byte swapping and bitwise operations\<close>

lemma of_le_or:
  "length xs = length ys \<Longrightarrow> of_le (map2 (OR) xs ys) = of_le xs OR of_le ys"
proof (induction xs ys rule: list_induct2)
  case (Cons x xs y ys)
  have split: "unat b + 256 * n = unat b OR push_bit 8 n" for b :: byte and n
  proof -
    have "k < 8" if "bit (unat b) k" for k
      using that by (auto simp: bit_unsigned_iff dest: bit_imp_le_length)
    then have "unat b AND push_bit 8 n = 0"
      by (intro bit_eqI) (auto simp: bit_and_iff bit_push_bit_iff dest: leD)
    then show ?thesis by (simp add: push_bit_eq_mult mult.commute flip: disjunctive_add_eq_or)
  qed
  show ?case
    using Cons.IH split [of "x OR y" "of_le xs OR of_le ys"]
    by (simp add: split unsigned_or_eq push_bit_or or.assoc or.left_commute)
qed simp

lemma le_bytes_or: "le_bytes n (a OR b) = map2 (OR) (le_bytes n a) (le_bytes n b)"
proof (induction n arbitrary: a b)
  case (Suc n)
  have m: "(a OR b) mod 256 = (a mod 256) OR (b mod 256)" and d: "(a OR b) div 256 = (a div 256) OR (b div 256)"
    using take_bit_or [of 8 a b] drop_bit_or [of 8 a b] by (simp_all add: take_bit_eq_mod drop_bit_eq_div)
  show ?case by (simp add: Suc m d of_nat_or_eq)
qed simp

lemma byteswap_or: "byteswap (a OR b) = byteswap a OR (byteswap b :: 'a::len word)"
proof -
  have n: "num_bytes (a OR b) = num_bytes a" "num_bytes b = num_bytes a" by (simp_all add: num_bytes_def)
  have r: "rev (map2 (OR) xs ys) = map2 (OR) (rev xs) (rev ys)" if "length xs = length ys" for xs ys :: "byte list"
    using that by (simp add: rev_map zip_rev)
  show ?thesis
    by (simp add: byteswap_def n unsigned_or_eq le_bytes_or r of_le_or of_nat_or_eq)
qed

lemma swap_or:
  "byteswapOnLittleEndian big (a OR b) = byteswapOnLittleEndian big a OR byteswapOnLittleEndian big b"
  by (simp add: byteswapOnLittleEndian_def byteswap_or)

lemma swap_not:
  fixes a :: u32
  shows "byteswapOnLittleEndian big (NOT a) = NOT (byteswapOnLittleEndian big a)"
proof -
  let ?s = "byteswapOnLittleEndian big :: u32 \<Rightarrow> u32"
  have inv: "?s (?s x) = x" for x by simp
  have one: "?s (- 1) = - 1" using swap_or [of big "?s (- 1)" "- 1"] inv by simp
  have or: "?s a OR ?s (NOT a) = - 1" using swap_or [of big a "NOT a"] one by simp
  have or': "?s (NOT (?s a)) OR a = - 1" using swap_or [of big "NOT (?s a)" "?s a"] one inv by simp
  have "NOT a OR ?s (NOT (?s a)) = ?s (NOT (?s a))"
    using or' by (intro bit_eqI) (auto simp: bit_simps bit_eq_iff)
  then have "?s (NOT a) OR NOT (?s a) = NOT (?s a)" using swap_or [of big "NOT a" "?s (NOT (?s a))"] inv by simp
  with or show ?thesis by (intro bit_eqI) (auto simp: bit_simps bit_eq_iff)
qed

lemma swap_and:
  fixes a :: u32
  shows "byteswapOnLittleEndian big (a AND b) = byteswapOnLittleEndian big a AND byteswapOnLittleEndian big b"
  using swap_or [of big "NOT a" "NOT b"] swap_not [of big "NOT a OR NOT b"] by (simp add: swap_not)

section \<open>Counting one bits\<close>

fun ones :: "nat \<Rightarrow> nat" where
  "ones n = (if n = 0 then 0 else n mod 2 + ones (n div 2))"

declare ones.simps [simp del]

lemma ones_0 [simp]: "ones 0 = 0"
  by (simp add: ones.simps)

lemma ones_double [simp]: "ones (2 * m) = ones m"
  by (subst ones.simps) simp

lemma ones_double_Suc [simp]: "ones (Suc (2 * m)) = Suc (ones m)"
  by (subst ones.simps) simp

lemma ones_drop_lowest: "0 < n \<Longrightarrow> Suc (ones (n AND (n - 1))) = ones n"
proof (induction n rule: less_induct)
  case (less n)
  show ?case
  proof (cases "even n")
    case True
    then obtain m where m: "n = 2 * m" by blast
    with less.prems have "n - 1 = 2 * (m - 1) + 1" by simp
    then have "n AND (n - 1) = 2 * (m AND (m - 1))"
      unfolding m by (simp add: and_nat_rec [of "2 * m"])
    then show ?thesis using less.IH [of m] less.prems m by simp
  next
    case False
    then obtain m where m: "n = Suc (2 * m)" by (auto elim: oddE)
    then have "n AND (n - 1) = 2 * m" by (simp add: and_nat_rec [of "Suc (2 * m)"])
    then show ?thesis using m by simp
  qed
qed

lemma CountOneNumbers_loop: "CountOneNumbers_loop v ret = ret + ones v"
proof (induction v ret rule: CountOneNumbers_loop.induct)
  case (1 v ret)
  show ?case
  proof (cases "v = 0")
    case True
    then show ?thesis by (simp add: CountOneNumbers_loop.simps)
  next
    case False
    then have "CountOneNumbers_loop v ret = (ret + 1) + ones (v AND (v - 1))"
      using 1 by (subst CountOneNumbers_loop.simps) (simp only: if_False not_False_eq_True)
    then show ?thesis using False ones_drop_lowest [of v] by simp
  qed
qed

lemma ones_shift [simp]: "ones (2 ^ k * m) = ones m"
  by (induction k) (simp_all add: mult.assoc)

lemma ones_full: "ones (2 ^ k - 1) = k"
proof (induction k)
  case (Suc k)
  obtain m where "(2 :: nat) ^ k = Suc m" using not0_implies_Suc [of "2 ^ k :: nat"] by auto
  then have "(2 :: nat) ^ Suc k - 1 = Suc (2 * (2 ^ k - 1))" by simp
  then show ?case using Suc by simp
qed simp

lemma unat_mask: "k \<le> 32 \<Longrightarrow> unat (mask k :: u32) = 2 ^ k - 1"
proof -
  assume "k \<le> 32"
  have "unat (mask k :: u32) = unat (word_of_nat (mask k) :: u32)" by (simp add: of_nat_mask_eq)
  also have "\<dots> = take_bit 32 (mask k)" by (simp add: unsigned_of_nat)
  also have "\<dots> = mask (min 32 k)" by (rule take_bit_of_mask)
  also have "\<dots> = 2 ^ k - 1" using \<open>k \<le> 32\<close> by (simp add: mask_eq_exp_minus_1)
  finally show ?thesis .
qed

lemma unat_not_mask: "k \<le> 32 \<Longrightarrow> unat (NOT (mask k) :: u32) = 2 ^ k * (2 ^ (32 - k) - 1)"
proof -
  assume k: "k \<le> 32"
  have "NOT (mask k) = (- 1 - mask k :: u32)" by (simp add: not_eq_complement)
  then have "unat (NOT (mask k) :: u32) = unat (- 1 :: u32) - unat (mask k :: u32)"
    by (simp only: unat_sub [OF word_order.extremum])
  also have "\<dots> = 2 ^ 32 - 2 ^ k"
    using k unfolding unat_mask [OF k] by (simp add: unsigned_minus_1_eq_mask mask_numeral)
  also have "\<dots> = 2 ^ k * (2 ^ (32 - k) - 1)"
    using k by (simp add: right_diff_distrib' flip: power_add)
  finally show ?thesis .
qed

section \<open>Comparison\<close>

definition addr_bytes :: "bool \<Rightarrow> address \<Rightarrow> byte list" where
  "addr_bytes big a = take (GetAddrLen a) (addr_image big a)"

text \<open>The address length lies within the structure.\<close>

definition addr_wf :: "bool \<Rightarrow> address \<Rightarrow> bool" where
  "addr_wf big a \<longleftrightarrow> GetAddrLen a \<le> length (addr_image big a)"

lemma memcmp_less:
  "n = min (length xs) (length ys) \<Longrightarrow>
   (if memcmp xs ys n \<noteq> 0 then memcmp xs ys n < 0 else length xs < length ys) \<longleftrightarrow> map uint xs < map uint ys"
proof (induction xs arbitrary: ys n)
  case Nil
  then show ?case by (cases ys) auto
next
  case (Cons x xs)
  show ?case
  proof (cases ys)
    case Nil
    then show ?thesis using Cons.prems by simp
  next
    case (Cons y ys')
    then show ?thesis using Cons.prems Cons.IH [of _ ys'] by (auto simp: word_uint_eq_iff)
  qed
qed

lemma memcmp_take: "m \<le> n \<Longrightarrow> m \<le> k \<Longrightarrow> memcmp (take n xs) (take k ys) m = memcmp xs ys m"
proof (induction xs arbitrary: ys m n k)
  case Nil
  then show ?case by simp
next
  case (Cons x xs)
  then show ?case by (cases m; cases ys; cases n; cases k) auto
qed

lemma memcmp_eq_0: "length xs = n \<Longrightarrow> length ys = n \<Longrightarrow> memcmp xs ys n = 0 \<longleftrightarrow> xs = ys"
  by (induction xs ys n rule: memcmp.induct) (auto simp: word_uint_eq_iff)

lemma addr_less_iff:
  assumes "addr_wf big a" "addr_wf big b"
  shows "addr_less big a b \<longleftrightarrow> map uint (addr_bytes big a) < map uint (addr_bytes big b)"
proof -
  have l: "length (addr_bytes big a) = GetAddrLen a" "length (addr_bytes big b) = GetAddrLen b"
    using assms by (simp_all add: addr_bytes_def addr_wf_def)
  have m: "memcmp (addr_bytes big a) (addr_bytes big b) (min (GetAddrLen a) (GetAddrLen b))
      = memcmp (addr_image big a) (addr_image big b) (min (GetAddrLen a) (GetAddrLen b))"
    unfolding addr_bytes_def by (rule memcmp_take) simp_all
  show ?thesis
    unfolding memcmp_less [of "min (GetAddrLen a) (GetAddrLen b)" "addr_bytes big a" "addr_bytes big b", unfolded l,
        OF refl, symmetric] addr_less_def Let_def m ..
qed

lemma addr_equal_iff:
  assumes "addr_wf big a" "addr_wf big b"
  shows "addr_equal big a b \<longleftrightarrow> addr_bytes big a = addr_bytes big b"
proof -
  have l: "length (addr_bytes big a) = GetAddrLen a" "length (addr_bytes big b) = GetAddrLen b"
    using assms by (simp_all add: addr_bytes_def addr_wf_def)
  show ?thesis
  proof (cases "GetAddrLen a = GetAddrLen b")
    case True
    have "memcmp (addr_bytes big a) (addr_bytes big b) (GetAddrLen a)
      = memcmp (addr_image big a) (addr_image big b) (GetAddrLen a)"
      unfolding addr_bytes_def True by (rule memcmp_take) simp_all
    then show ?thesis using True memcmp_eq_0 [of "addr_bytes big a" "GetAddrLen a" "addr_bytes big b"] l
      by (simp add: addr_equal_def)
  qed (use l in \<open>auto simp: addr_equal_def\<close>)
qed

lemma find_char_append: "c \<notin> set xs \<Longrightarrow> find_char c (xs @ c # ys) = Some (length xs)"
  by (induction xs) auto

lemma find_char_None: "c \<notin> set xs \<Longrightarrow> find_char c xs = None"
  by (induction xs) auto

section \<open>Properties\<close>

definition host_addr :: "bool \<Rightarrow> sockaddr_in \<Rightarrow> u32" where
  "host_addr big a = byteswapOnLittleEndian big (s_addr a)"

text \<open>
  C38: Masking IPv4 addresses.  For prefix lengths from 2 to 32, in host byte order: the
  broadcast address is the address with its host bits set, the subnet mask has
  exactly the prefix bits set, and the network address is the host bits of the
  address, sharing no bit with the subnet mask (the code does not complement the
  mask).  For prefix lengths 0 and 1 all three overflow or shift out of range.
\<close>

theorem ipv4_masking:
  assumes "prefix_len \<le> 32"
  shows "if prefix_len < 2
    then \<not> is_ok (IPv4_BroadcastAddress big prefix_len a) \<and> \<not> is_ok (IPv4_NetworkAddress big prefix_len a)
       \<and> \<not> is_ok (IPv4_SubnetMask big p z prefix_len)
    else \<exists>b n m. IPv4_BroadcastAddress big prefix_len a = Inr (Some b)
       \<and> IPv4_NetworkAddress big prefix_len a = Inr (Some n) \<and> IPv4_SubnetMask big p z prefix_len = Inr m
       \<and> host_addr big b = host_addr big a OR mask (32 - prefix_len)
       \<and> host_addr big m = NOT (mask (32 - prefix_len))
       \<and> host_addr big n = host_addr big a AND mask (32 - prefix_len) \<and> host_addr big n AND host_addr big m = 0"
proof (cases "prefix_len < 2")
  case True
  then have "prefix_len = 0 \<or> prefix_len = 1" by linarith
  then show ?thesis
    by (auto simp: IPv4_BroadcastAddress_def IPv4_NetworkAddress_def IPv4_SubnetMask_def CreateMask_def Let_def)
next
  case False
  let ?k = "32 - prefix_len"
  have m: "CreateMask 32 prefix_len = Inr (2 ^ ?k - 1)" using False assms(1) by (auto simp: CreateMask_def Let_def)
  have "x AND mask ?k AND NOT (mask ?k) = 0" for x :: u32 by (simp add: and.assoc)
  then show ?thesis
    using False assms(1)
    by (simp add: host_addr_def IPv4_BroadcastAddress_def IPv4_NetworkAddress_def IPv4_SubnetMask_def m
        swap_or swap_and swap_not of_int_mask_eq and.assoc flip: mask_eq_exp_minus_1)
qed

theorem ipv4_masking_witness:
  "\<exists>b. IPv4_BroadcastAddress False 24 (IPv4_ctor False 3232235777 80) = Inr (Some b)
     \<and> host_addr False b = 3232236031"
proof -
  have "(3232235777 :: u32) OR mask 8 = 3232236031" by (simp add: mask_numeral)
  then show ?thesis
    using ipv4_masking [of 24 False "IPv4_ctor False 3232235777 80"] by (auto simp: IPv4_ctor_def host_addr_def)
qed

text \<open>
  C37: Counting mask bits.  The loop that clears the lowest one bit ends and counts the
  one bits of its argument; for the IPv4 mask of a prefix length it returns that
  length.
\<close>

theorem count_mask_bits:
  assumes "prefix_len \<le> 32"
  shows "CountOneNumbers v = ones v \<and> CountOneNumbers (unat (NOT (mask (32 - prefix_len)) :: u32)) = prefix_len"
  using assms by (simp add: CountOneNumbers_def CountOneNumbers_loop unat_not_mask ones_full [simplified])

theorem count_mask_bits_witness: "CountOneNumbers (unat (NOT (mask 8) :: u32)) = 24"
  using count_mask_bits [of 24 0] by simp

text \<open>
  Address order.  On addresses whose length lies within their structure,
  \<^verbatim>\<open>operator<\<close> is irreflexive and transitive, and two addresses of which neither is
  less than the other are exactly those \<^verbatim>\<open>operator==\<close> accepts, whatever the kinds of
  the addresses and the endianness of the host.
\<close>

theorem address_order:
  assumes "addr_wf big a" "addr_wf big b" "addr_wf big c"
  shows "\<not> addr_less big a a \<and> (addr_less big a b \<longrightarrow> addr_less big b c \<longrightarrow> addr_less big a c)
    \<and> (\<not> addr_less big a b \<and> \<not> addr_less big b a \<longleftrightarrow> addr_equal big a b)"
proof -
  have "map uint xs = map uint ys \<longleftrightarrow> xs = ys" for xs ys :: "byte list"
    by (rule inj_map_eq_map) (simp add: inj_on_def word_uint_eq_iff)
  then show ?thesis using assms by (auto simp: addr_less_iff addr_equal_iff)
qed

theorem address_order_witness:
  "addr_wf False (IPv4Address IPv4_default) \<and> addr_equal False (IPv4Address IPv4_default) (IPv4Address IPv4_default)"
proof -
  have "addr_wf False (IPv4Address IPv4_default)"
    by (simp add: addr_wf_def host_bytes_def num_bytes_def IPv4_default_def)
  then show ?thesis using address_order by blast
qed

text \<open>
  Splitting host names.  A name and a service separated by the only colon are split
  there; a bracketed IPv6 address followed by a colon and a service is split after the
  bracket; a name without a colon has no service.  An IPv6 address without brackets,
  which has two colons or more, keeps as its service the rest of the name from the
  first colon on.
\<close>

theorem host_name_split:
  assumes "node \<noteq> []" "hd node \<noteq> CHR ''[''" "CHR '':'' \<notin> set node" "CHR '':'' \<notin> set service" "NUL \<notin> set service"
    and "v6 \<noteq> []" "CHR '']'' \<notin> set v6" "NUL \<notin> set rest"
  shows "split_hostname (node @ '':'' @ service) = (node, Some service)
    \<and> split_hostname node = (node, None)
    \<and> split_hostname (''['' @ v6 @ '']:'' @ service) = (v6, Some service)
    \<and> split_hostname (''['' @ v6 @ '']'') = (v6, None)
    \<and> split_hostname (node @ '':'' @ service @ '':'' @ rest)
        = (node @ '':'' @ service @ '':'' @ rest, Some ('':'' @ service @ '':'' @ rest))"
proof -
  have hd: "hd (node @ xs) = hd node" for xs using assms(1) by simp
  have first: "find_char (CHR '':'') (node @ CHR '':'' # xs) = Some (length node)" for xs
    using assms(3) by (rule find_char_append)
  have bracket: "find_char (CHR '']'') (v6 @ CHR '']'' # xs) = Some (length v6)" for xs
    using assms(7) by (rule find_char_append)
  have second: "find_char (CHR '':'') (service @ CHR '':'' # rest) = Some (length service)"
    using assms(4) by (rule find_char_append)
  have nul: "c_str service = service" "c_str (CHR '':'' # service @ CHR '':'' # rest) = CHR '':'' # service @ CHR '':'' # rest"
    using assms(5,8) by (auto intro!: c_str_no_NUL simp: special_chars)
  show ?thesis
    using assms(1,2,6) find_char_None [OF assms(3)] find_char_None [OF assms(4)]
    by (simp add: split_hostname_def hd first bracket second nul)
qed

theorem host_name_split_witness:
  "split_hostname ''localhost:80'' = (''localhost'', Some ''80'') \<and> split_hostname ''[::1]:80'' = (''::1'', Some ''80'')
   \<and> split_hostname ''fe80:1:2'' = (''fe80:1:2'', Some '':1:2'')"
  using host_name_split [of "''localhost''" "''80''" "''::1''" "[]"]
    host_name_split [of "''fe80''" "''1''" "''::1''" "''2''"]
  by (simp add: special_chars)

text \<open>
  IPv4 text.  An address built from four numbers and a port is printed as those
  numbers with dots and the port after a colon, on hosts of either endianness, and its
  port is read back as given or as set later.
\<close>

theorem ipv4_text:
  assumes "b1 < 256" "b2 < 256" "b3 < 256" "b4 < 256"
  shows "IPv4_Insert big (IPv4_ctor big (word_of_nat (((b1 * 256 + b2) * 256 + b3) * 256 + b4)) port) =
      show_nat b1 @ ''.'' @ show_nat b2 @ ''.'' @ show_nat b3 @ ''.'' @ show_nat b4 @ '':'' @ show_nat (unat port)
    \<and> IPv4_GetPort big (IPv4_SetPort big port' a) = port'"
proof -
  let ?n = "((b1 * 256 + b2) * 256 + b3) * 256 + b4"
  have n: "unat (word_of_nat ?n :: u32) = ?n" using assms by (simp only: unat_of_nat) (simp add: mod_less)
  have byte: "unat (drop_bit k w AND 255 :: u32) = unat w div 2 ^ k mod 256" for k and w :: u32
  proof -
    have "drop_bit k w AND 255 = take_bit 8 (drop_bit k w)" by (simp only: take_bit_eq_mask) (simp add: mask_numeral)
    then show ?thesis
      by (simp only: unsigned_take_bit_eq unsigned_drop_bit_eq) (simp add: take_bit_eq_mod drop_bit_eq_div
          mod_less [OF unat_bound [of w, simplified]])
  qed
  have d: "(x * 256 + y) div 256 = x" "(x * 256 + y) mod 256 = y" if "y < 256" for x y :: nat using that by simp_all
  have "m div 2 ^ 24 = m div 256 div 256 div 256" "m div 2 ^ 16 = m div 256 div 256" "m div 2 ^ 8 = m div 256"
    "m div 2 ^ 0 = m" for m :: nat
    by (simp_all flip: div_mult2_eq)
  then have "?n div 2 ^ 24 mod 256 = b1" "?n div 2 ^ 16 mod 256 = b2" "?n div 2 ^ 8 mod 256 = b3" "?n div 2 ^ 0 mod 256 = b4"
    using assms by (simp_all only: d) simp
  moreover define w :: u32 where "w = word_of_nat ?n"
  ultimately have "unat (drop_bit 24 w AND 255) = b1" "unat (drop_bit 16 w AND 255) = b2" "unat (drop_bit 8 w AND 255) = b3"
      "unat (drop_bit 0 w AND 255) = b4"
    using n unfolding byte by (simp_all only: w_def)
  then have "IPv4_Insert big (IPv4_ctor big w port) =
      show_nat b1 @ ''.'' @ show_nat b2 @ ''.'' @ show_nat b3 @ ''.'' @ show_nat b4 @ '':'' @ show_nat (unat port)"
    by (simp add: IPv4_Insert_def IPv4_ctor_def Let_def del: drop_bit_numeral_minus_bit1)
  then show ?thesis by (simp add: w_def IPv4_GetPort_def IPv4_SetPort_def)
qed

theorem ipv4_text_witness:
  "IPv4_Insert False (IPv4_ctor False (word_of_nat (((10 * 256 + 0) * 256 + 0) * 256 + 1)) 80) =
     show_nat 10 @ ''.'' @ show_nat 0 @ ''.'' @ show_nat 0 @ ''.'' @ show_nat 1 @ '':'' @ show_nat 80"
  using ipv4_text [of 10 0 0 1 False 80] by simp

text \<open>
  Unix addresses.  A non-empty path of at most 107 characters without NUL is printed
  back as given; an abstract name, which starts with NUL, of at most 108 characters is
  printed with a backslash and a zero in place of it; longer ones fail the assertion.
\<close>

theorem unix_path_text:
  assumes "path \<noteq> []" "NUL \<notin> set path"
  shows "(if length path \<le> 107
      then \<exists>a. Unix_ctor path = Inr a \<and> addr_ToString big a = path \<and> GetAddrLen a = length path + 3
      else Unix_ctor path = Inl Assert_failed)
   \<and> (if length name \<le> 107
      then \<exists>a. Unix_ctor (NUL # name) = Inr a \<and> addr_ToString big a = [CHR 0x5C, CHR ''0''] @ name
        \<and> GetAddrLen a = length name + 3
      else Unix_ctor (NUL # name) = Inl Assert_failed)"
proof -
  have hd: "hd path \<noteq> NUL" using assms by (cases path) auto
  have printed: "Unix_Insert \<lparr>sun_family = f, sun_path = path @ NUL # rest\<rparr> n = path" for f rest n
    using assms hd by (cases path) (auto simp: Unix_Insert_def c_str_def takeWhile_append)
  have "poke (replicate 108 NUL) 0 (path @ [NUL]) = path @ NUL # replicate (107 - length path) NUL"
    if "length path \<le> 107" using that by (simp add: poke_def)
  moreover have "poke (replicate 108 NUL) 0 (NUL # name) = NUL # name @ replicate (107 - length name) NUL"
    if "length name \<le> 107" using that by (simp add: poke_def)
  moreover have "Unix_Insert \<lparr>sun_family = f, sun_path = NUL # name @ rest\<rparr> (Suc (Suc (Suc (length name))))
      = [CHR 0x5C, CHR ''0''] @ name" for f rest
    by (simp add: Unix_Insert_def offsetof_sun_path_def peek_def)
  ultimately show ?thesis
    using assms(1) hd printed
    by (simp add: Unix_ctor_def Let_def sizeof_sun_path_def offsetof_sun_path_def addr_ToString_def)
qed

theorem unix_path_text_witness:
  "\<exists>a. Unix_ctor ''/tmp/s'' = Inr a \<and> addr_ToString False a = ''/tmp/s''"
  using unix_path_text [of "''/tmp/s''" False "[]"] by (auto simp: special_chars)

end
