(* ===== verification/FdManager.thy ===== *)
theory FdManager
  imports Prelude
begin

text \<open>
  The table of file descriptor contexts (\<^verbatim>\<open>qslary/net/FdManager.h\<close>,
  \<^verbatim>\<open>FdManager.cc\<close>).  The operating system is a record of what \<^verbatim>\<open>fstat\<close> and
  \<^verbatim>\<open>fcntl\<close> report for a descriptor (Linux constants); the vector of shared pointers
  is a list of optional contexts, and an index outside it is
  \<^const>\<open>Undefined_behaviour\<close>.  A descriptor is a 32-bit \<^verbatim>\<open>int\<close>, cast to
  \<^verbatim>\<open>size_t\<close> by wrap-around.
\<close>

unbundle bit_operations_syntax

section \<open>Definitions\<close>

record os_files =
  os_stat :: "(int \<times> u32) list"
  os_flags :: "(int \<times> u32) list"

definition O_NONBLOCK :: u32 where
  "O_NONBLOCK = 2048"

definition SO_RCVTIMEO :: int where
  "SO_RCVTIMEO = 20"

definition SO_SNDTIMEO :: int where
  "SO_SNDTIMEO = 21"

definition S_ISSOCK :: "u32 \<Rightarrow> bool" where
  "S_ISSOCK m \<longleftrightarrow> m AND 61440 = 49152"

definition fcntl_getfl :: "int \<Rightarrow> os_files \<Rightarrow> u32" where
  "fcntl_getfl fd os = (case map_of (os_flags os) fd of None \<Rightarrow> - 1 | Some f \<Rightarrow> f)"

text \<open>
  The flags that \<^verbatim>\<open>F_SETFL\<close> can change (\<^verbatim>\<open>O_APPEND\<close>, \<^verbatim>\<open>O_NONBLOCK\<close>, \<^verbatim>\<open>O_ASYNC\<close>, \<^verbatim>\<open>O_DIRECT\<close> and
  \<^verbatim>\<open>O_NOATIME\<close>); it ignores the access mode and the file creation flags.
\<close>

definition SETFL_FLAGS :: u32 where
  "SETFL_FLAGS = 289792"

definition fcntl_setfl :: "int \<Rightarrow> u32 \<Rightarrow> os_files \<Rightarrow> os_files" where
  "fcntl_setfl fd f os =
     (case map_of (os_flags os) fd of
        None \<Rightarrow> os
      | Some old \<Rightarrow> os\<lparr>os_flags := (fd, (old AND NOT SETFL_FLAGS) OR (f AND SETFL_FLAGS)) # os_flags os\<rparr>)"

(* net/FdManager.h 15-51: FdContext *)
record fd_context =
  isInit :: bool
  isSocket :: bool
  sysNonblock :: bool
  userNonblock :: bool
  isClosed :: bool
  c_fd :: int
  recvTimeout :: u64
  sendTimeout :: u64

(* net/FdManager.cc 21: FdContext::init *)
definition FdContext_init :: "fd_context \<Rightarrow> os_files \<Rightarrow> bool \<times> fd_context \<times> os_files" where
  "FdContext_init c os =
     (if isInit c then (True, c, os)
      else
        let c1 = c\<lparr>recvTimeout := - 1, sendTimeout := - 1\<rparr>;
            c2 = (case map_of (os_stat os) (c_fd c) of
                    None \<Rightarrow> c1\<lparr>isInit := False, isSocket := False\<rparr>
                  | Some mode \<Rightarrow> c1\<lparr>isInit := True, isSocket := S_ISSOCK mode\<rparr>);
            flags = fcntl_getfl (c_fd c) os;
            (c3, os') = (if isSocket c2
                         then (c2\<lparr>sysNonblock := True\<rparr>,
                               if flags AND O_NONBLOCK = 0 then fcntl_setfl (c_fd c) (flags OR O_NONBLOCK) os else os)
                         else (c2\<lparr>sysNonblock := False\<rparr>, os));
            c4 = c3\<lparr>userNonblock := False, isClosed := False\<rparr> in
        (isInit c4, c4, os'))"

(* net/FdManager.cc 12: FdContext::FdContext *)
definition FdContext_ctor :: "int \<Rightarrow> os_files \<Rightarrow> fd_context \<times> os_files" where
  "FdContext_ctor fd os =
     snd (FdContext_init
       \<lparr>isInit = False, isSocket = False, sysNonblock = False, userNonblock = False, isClosed = False,
        c_fd = fd, recvTimeout = - 1, sendTimeout = - 1\<rparr> os)"

(* net/FdManager.cc 63: FdContext::setTimeout *)
definition setTimeout :: "int \<Rightarrow> u64 \<Rightarrow> fd_context \<Rightarrow> fd_context" where
  "setTimeout type v c =
     (if type = SO_RCVTIMEO then c\<lparr>recvTimeout := v\<rparr> else c\<lparr>sendTimeout := v\<rparr>)"

(* net/FdManager.cc 74: FdContext::getTimeout *)
definition getTimeout :: "int \<Rightarrow> fd_context \<Rightarrow> u64" where
  "getTimeout type c = (if type = SO_RCVTIMEO then recvTimeout c else sendTimeout c)"

type_synonym fd_table = "fd_context option list"

(* net/FdManager.cc 83: FdContextManager::FdContextManager *)
definition FdContextManager_ctor :: fd_table where
  "FdContextManager_ctor = resize None 64 []"

definition size_of_int :: "int \<Rightarrow> nat" where
  "size_of_int i = nat (i mod 18446744073709551616)"

text \<open>The conversion of a negative \<^verbatim>\<open>double\<close> to \<^verbatim>\<open>size_t\<close> is undefined.\<close>

definition resize_for :: "int \<Rightarrow> fd_table \<Rightarrow> fd_table result" where
  "resize_for fd fds = (if fd < 0 then Inl Undefined_behaviour else Inr (resize None (nat fd * 3 div 2) fds))"

(* net/FdManager.cc 86: FdContextManager::getFdContext *)
definition getFdContext :: "int \<Rightarrow> bool \<Rightarrow> fd_table \<Rightarrow> os_files
    \<Rightarrow> (fd_context option \<times> fd_table \<times> os_files) result" where
  "getFdContext fd auto_creat fds os =
     (if fd = - 1 then Inr (None, fds, os)
      else
        let i = size_of_int fd in
        if i < length fds \<and> (fds ! i \<noteq> None \<or> \<not> auto_creat) then Inr (fds ! i, fds, os)
        else if auto_creat
        then rbind (if length fds \<le> i then resize_for fd fds else Inr fds) (\<lambda>fds1.
             if i < length fds1
             then (let (ctx, os1) = FdContext_ctor fd os in Inr (Some ctx, fds1[i := Some ctx], os1))
             else Inl Undefined_behaviour)
        else Inr (None, fds, os))"

(* net/FdManager.cc 108: FdContextManager::delFdContext *)
definition delFdContext :: "int \<Rightarrow> fd_table \<Rightarrow> fd_table result" where
  "delFdContext fd fds =
     (let i = size_of_int fd in
      if i > length fds then Inr fds
      else if i < length fds then Inr (fds[i := None])
      else Inl Undefined_behaviour)"

section \<open>Lemmas\<close>

lemma size_of_int_nonneg [simp]: "0 \<le> fd \<Longrightarrow> fd < 2 ^ 31 \<Longrightarrow> size_of_int fd = nat fd"
  by (simp add: size_of_int_def)

lemma FdContext_ctor_fd [simp]: "c_fd (fst (FdContext_ctor fd os)) = fd"
  by (auto simp: FdContext_ctor_def FdContext_init_def Let_def split: option.splits)

text \<open>A context sits at the index of its descriptor, and the table has its initial size at least.\<close>

definition table_ok :: "fd_table \<Rightarrow> bool" where
  "table_ok fds \<longleftrightarrow> 64 \<le> length fds \<and> (\<forall>i c. i < length fds \<longrightarrow> fds ! i = Some c \<longrightarrow> c_fd c = int i)"

lemma nth_resize: "i < n \<Longrightarrow> resize z n xs ! i = (if i < length xs then xs ! i else z)"
  by (simp add: resize_def nth_append)

lemma grow_ok:
  assumes "table_ok fds" "0 \<le> fd" "length fds \<le> nat fd"
  shows "table_ok (resize None (nat fd * 3 div 2) fds)" "nat fd < nat fd * 3 div 2"
  using assms by (auto simp: table_ok_def nth_resize split: if_splits)

text \<open>The slot of a descriptor in the table, if it has a context.\<close>

definition slot :: "fd_table \<Rightarrow> nat \<Rightarrow> fd_context option" where
  "slot fds i = (if i < length fds then fds ! i else None)"

lemma slot_resize [simp]: "length fds \<le> n \<Longrightarrow> slot (resize None n fds) i = slot fds i"
  by (simp add: slot_def nth_resize)

lemma slot_update: "j < length fds \<Longrightarrow> slot (fds[j := c]) i = (if i = j then c else slot fds i)"
  by (simp add: slot_def)

section \<open>Properties\<close>

text \<open>
  Contexts are created once and found again.  For a non-negative descriptor,
  \<^verbatim>\<open>getFdContext\<close> with creation returns a context of that descriptor without
  accessing the vector out of bounds, whatever the size of the vector; it keeps the
  context the descriptor had, leaves every other slot alone, and a later lookup
  without creation finds the same context.
\<close>

theorem getFdContext_creates_once:
  assumes "table_ok fds" "0 \<le> fd" "fd < 2 ^ 31"
  shows "\<exists>c fds' os'. getFdContext fd True fds os = Inr (Some c, fds', os') \<and> c_fd c = fd \<and> table_ok fds'
     \<and> slot fds' (nat fd) = Some c \<and> (\<forall>c'. slot fds (nat fd) = Some c' \<longrightarrow> c' = c \<and> fds' = fds)
     \<and> (\<forall>i. i \<noteq> nat fd \<longrightarrow> slot fds' i = slot fds i)
     \<and> getFdContext fd False fds' os' = Inr (Some c, fds', os')"
proof (cases "slot fds (nat fd)")
  case (Some c)
  then have "nat fd < length fds" "fds ! nat fd = Some c" by (auto simp: slot_def split: if_splits)
  then show ?thesis using assms Some by (auto simp: getFdContext_def table_ok_def)
next
  case None
  let ?fds = "if length fds \<le> nat fd then resize None (nat fd * 3 div 2) fds else fds"
  obtain c os' where c: "FdContext_ctor fd os = (c, os')" "c_fd c = fd"
    using FdContext_ctor_fd [of fd os] by (metis fst_conv surj_pair)
  have grown: "table_ok ?fds" "nat fd < length ?fds" "\<And>i. slot ?fds i = slot fds i"
    using assms grow_ok [OF assms(1,2)] by auto
  have "getFdContext fd True fds os = Inr (Some c, ?fds[nat fd := Some c], os')"
    using assms None grown(2) c(1) by (auto simp: getFdContext_def slot_def resize_for_def Let_def split: if_splits)
  moreover have "table_ok (?fds[nat fd := Some c])"
    using grown c(2) assms(2) unfolding table_ok_def by (simp add: nth_list_update)
  moreover have "\<forall>i. slot (?fds[nat fd := Some c]) i = (if i = nat fd then Some c else slot fds i)"
    using grown(2,3) by (simp add: slot_update)
  moreover have "getFdContext fd False (?fds[nat fd := Some c]) os' = Inr (Some c, ?fds[nat fd := Some c], os')"
    using grown(2) assms by (simp add: getFdContext_def Let_def)
  ultimately show ?thesis using None c(2) by (metis option.distinct(1))
qed

theorem getFdContext_creates_once_witness:
  "\<exists>c fds' os'. getFdContext 100 True FdContextManager_ctor \<lparr>os_stat = [], os_flags = []\<rparr> = Inr (Some c, fds', os')
     \<and> c_fd c = 100 \<and> getFdContext 100 False fds' os' = Inr (Some c, fds', os')"
  using getFdContext_creates_once [of FdContextManager_ctor 100 "\<lparr>os_stat = [], os_flags = []\<rparr>"]
  by (auto simp: table_ok_def FdContextManager_ctor_def nth_resize)

text \<open>
  Deleting a context.  For a non-negative descriptor other than the size of the
  vector, \<^verbatim>\<open>delFdContext\<close> leaves no context for it, which a lookup confirms, and
  touches no other slot; for the descriptor equal to the size of the vector, which
  its guard lets through, it accesses the vector out of bounds.
\<close>

theorem delFdContext_removes:
  assumes "table_ok fds" "0 \<le> fd" "fd < 2 ^ 31"
  shows "if nat fd = length fds then delFdContext fd fds = Inl Undefined_behaviour
     else \<exists>fds'. delFdContext fd fds = Inr fds' \<and> table_ok fds' \<and> slot fds' (nat fd) = None
       \<and> (\<forall>i. i \<noteq> nat fd \<longrightarrow> slot fds' i = slot fds i)
       \<and> getFdContext fd False fds' os = Inr (None, fds', os)"
proof (cases "nat fd < length fds")
  case True
  then have "table_ok (fds[nat fd := None])" using assms(1) by (auto simp: table_ok_def nth_list_update)
  then show ?thesis using True assms by (simp add: delFdContext_def getFdContext_def slot_update Let_def)
next
  case False
  then show ?thesis using assms by (simp add: delFdContext_def getFdContext_def slot_def Let_def)
qed

theorem delFdContext_removes_witness:
  "delFdContext 64 FdContextManager_ctor = Inl Undefined_behaviour
   \<and> (\<exists>fds'. delFdContext 3 FdContextManager_ctor = Inr fds' \<and> slot fds' 3 = None)"
proof -
  have "table_ok FdContextManager_ctor" "length FdContextManager_ctor = 64"
    by (simp_all add: table_ok_def FdContextManager_ctor_def nth_resize)
  then show ?thesis
    using delFdContext_removes [of FdContextManager_ctor 64]
      delFdContext_removes [of FdContextManager_ctor 3 "\<lparr>os_stat = [], os_flags = []\<rparr>"] by auto
qed

end
