(* ===== verification/Socket.thy ===== *)
theory Socket
  imports Address FdManager
begin

text \<open>
  Sockets (\<^verbatim>\<open>qslary/net/Socket.h\<close>, \<^verbatim>\<open>Socket.cc\<close>).  The system calls an operation
  makes are answered by a record \<open>sock_os\<close>, an argument of the operation: the
  descriptor \<^verbatim>\<open>socket\<close> and \<^verbatim>\<open>accept\<close> return, which options \<^verbatim>\<open>setsockopt\<close> accepts,
  whether \<^verbatim>\<open>bind\<close>, \<^verbatim>\<open>connect\<close> and \<^verbatim>\<open>listen\<close> succeed, and the addresses
  \<^verbatim>\<open>getsockname\<close> and \<^verbatim>\<open>getpeername\<close> report.  The descriptors passed to
  \<^verbatim>\<open>close\<close> are recorded.  Sending and receiving are arguments as well, a function
  of the descriptor that is called only while the socket is connected.
\<close>

section \<open>Definitions\<close>

definition SOCK_STREAM :: int where "SOCK_STREAM = 1"
definition SOCK_DGRAM :: int where "SOCK_DGRAM = 2"
definition SOL_SOCKET :: int where "SOL_SOCKET = 1"
definition IPPROTO_TCP :: int where "IPPROTO_TCP = 6"
definition SO_REUSEADDR :: int where "SO_REUSEADDR = 2"
definition TCP_NODELAY :: int where "TCP_NODELAY = 1"

record sock_os =
  os_socket :: int
  os_accept :: int
  os_setsockopt :: "(int \<times> int) list"
  os_bind :: bool
  os_connect :: bool
  os_listen :: bool
  os_getsockname :: "address option"
  os_getpeername :: "address option"

(* net/Socket.h 100-108: Socket *)
record socket =
  socketfd :: int
  sk_family :: nat
  sk_type :: int
  sk_protocol :: int
  isConnected :: bool
  localAddress :: "address option"
  remoteAddress :: "address option"
  closed_fds :: "int list"

(* net/Socket.cc 68: Socket::Socket *)
definition Socket_ctor :: "nat \<Rightarrow> int \<Rightarrow> int \<Rightarrow> socket" where
  "Socket_ctor family type protocol =
     \<lparr>socketfd = - 1, sk_family = family, sk_type = type, sk_protocol = protocol, isConnected = False,
      localAddress = None, remoteAddress = None, closed_fds = []\<rparr>"

(* net/Socket.cc 21: Socket::CreateTCPSocket *)
definition CreateTCPSocket_addr :: "address \<Rightarrow> socket" where
  "CreateTCPSocket_addr addr = Socket_ctor (GetFamily addr) SOCK_STREAM 0"

(* net/Socket.cc 26: Socket::CreateUDPSocket *)
definition CreateUDPSocket_addr :: "address \<Rightarrow> socket" where
  "CreateUDPSocket_addr addr = Socket_ctor (GetFamily addr) SOCK_DGRAM 0"

(* net/Socket.cc 32: Socket::CreateTCPSocket *)
definition CreateTCPSocket :: socket where
  "CreateTCPSocket = Socket_ctor AF_INET SOCK_STREAM 0"

(* net/Socket.cc 38: Socket::CreateUDPSocket *)
definition CreateUDPSocket :: socket where
  "CreateUDPSocket = Socket_ctor AF_INET SOCK_DGRAM 0"

(* net/Socket.cc 44: Socket::CreateTCPSocket6 *)
definition CreateTCPSocket6 :: socket where
  "CreateTCPSocket6 = Socket_ctor AF_INET6 SOCK_STREAM 0"

(* net/Socket.cc 50: Socket::CreateUDPSocket6 *)
definition CreateUDPSocket6 :: socket where
  "CreateUDPSocket6 = Socket_ctor AF_INET6 SOCK_DGRAM 0"

(* net/Socket.cc 56: Socket::CreateTCPUnixSocket *)
definition CreateTCPUnixSocket :: "address \<Rightarrow> socket" where
  "CreateTCPUnixSocket addr = Socket_ctor AF_UNIX SOCK_STREAM 0"

(* net/Socket.cc 62: Socket::CreateUDPUnixSocket *)
definition CreateUDPUnixSocket :: "address \<Rightarrow> socket" where
  "CreateUDPUnixSocket addr = Socket_ctor AF_UNIX SOCK_DGRAM 0"

(* net/Socket.cc 425: Socket::isVaild *)
definition isVaild :: "socket \<Rightarrow> bool" where
  "isVaild s \<longleftrightarrow> socketfd s \<noteq> - 1"

(* net/Socket.cc 82: Socket::setOption *)
definition setOption :: "sock_os \<Rightarrow> int \<Rightarrow> int \<Rightarrow> bool result" where
  "setOption os level option =
     (let rt = (if (level, option) \<in> set (os_setsockopt os) then 0 else - 1 :: int) in
      rbind (assert_r (rt = 0)) (\<lambda>_. Inr (rt = 0)))"

(* net/Socket.cc 75: Socket::getOption *)
definition getOption :: "(int \<Rightarrow> int \<Rightarrow> int \<Rightarrow> int option) \<Rightarrow> int \<Rightarrow> int \<Rightarrow> socket \<Rightarrow> int result" where
  "getOption getsockopt level option s =
     (case getsockopt (socketfd s) level option of None \<Rightarrow> Inl Assert_failed | Some v \<Rightarrow> Inr v)"

(* net/Socket.cc 102: Socket::initSock *)
definition initSock :: "sock_os \<Rightarrow> socket \<Rightarrow> unit result" where
  "initSock os s =
     rbind (setOption os SOL_SOCKET SO_REUSEADDR) (\<lambda>_.
       if sk_type s = SOCK_STREAM then rbind (setOption os IPPROTO_TCP TCP_NODELAY) (\<lambda>_. Inr ()) else Inr ())"

(* net/Socket.cc 90: Socket::newSock *)
definition newSock :: "sock_os \<Rightarrow> socket \<Rightarrow> socket result" where
  "newSock os s =
     (let s1 = s\<lparr>socketfd := os_socket os\<rparr> in
      if socketfd s1 \<noteq> - 1 then rbind (initSock os s1) (\<lambda>_. Inr s1) else Inr s1)"

definition known_family :: "nat \<Rightarrow> bool" where
  "known_family f \<longleftrightarrow> f = AF_INET \<or> f = AF_INET6 \<or> f = AF_UNIX"

(* net/Socket.cc 316: Socket::getRemoteAddress *)
definition getRemoteAddress :: "sock_os \<Rightarrow> socket \<Rightarrow> (address option \<times> socket) result" where
  "getRemoteAddress os s =
     (case remoteAddress s of
        Some a \<Rightarrow> Inr (Some a, s)
      | None \<Rightarrow>
          rbind (assert_r (known_family (sk_family s))) (\<lambda>_.
            case os_getpeername os of
              None \<Rightarrow> Inr (None, s)
            | Some a \<Rightarrow> Inr (Some a, s\<lparr>remoteAddress := Some a\<rparr>)))"

(* net/Socket.cc 354: Socket::getLocalAddress *)
definition getLocalAddress :: "sock_os \<Rightarrow> socket \<Rightarrow> (address option \<times> socket) result" where
  "getLocalAddress os s =
     (case localAddress s of
        Some a \<Rightarrow> Inr (Some a, s)
      | None \<Rightarrow>
          rbind (assert_r (known_family (sk_family s))) (\<lambda>_.
            case os_getsockname os of
              None \<Rightarrow> Inr (None, s)
            | Some a \<Rightarrow> Inr (Some a, s\<lparr>localAddress := Some a\<rparr>)))"

(* net/Socket.cc 112: Socket::init *)
definition socket_init :: "sock_os \<Rightarrow> fd_table \<Rightarrow> os_files \<Rightarrow> int \<Rightarrow> socket \<Rightarrow> (bool \<times> socket) result" where
  "socket_init os fds files fd s =
     rbind (getFdContext fd False fds files) (\<lambda>(fd_ctx, _, _).
     case fd_ctx of
       Some c \<Rightarrow>
         if isSocket c \<and> \<not> isClosed c
         then let s1 = s\<lparr>socketfd := fd, isConnected := True\<rparr> in
           rbind (initSock os s1) (\<lambda>_.
           rbind (getLocalAddress os s1) (\<lambda>(_, s2).
           rbind (getRemoteAddress os s2) (\<lambda>(_, s3). Inr (True, s3))))
         else Inr (False, s)
     | None \<Rightarrow> Inr (False, s))"

(* net/Socket.cc 127: Socket::accept *)
definition accept :: "sock_os \<Rightarrow> fd_table \<Rightarrow> os_files \<Rightarrow> socket \<Rightarrow> socket option result" where
  "accept os fds files s =
     (let sock = Socket_ctor (sk_family s) (sk_type s) (sk_protocol s); newfd = os_accept os in
      if newfd = - 1 then Inr None
      else rbind (socket_init os fds files newfd sock) (\<lambda>(ok, sock'). Inr (if ok then Some sock' else None)))"

(* net/Socket.cc 211: Socket::close *)
definition close :: "socket \<Rightarrow> bool \<times> socket" where
  "close s =
     (if \<not> isConnected s \<and> socketfd s = - 1 then (True, s)
      else
        let s1 = s\<lparr>isConnected := False\<rparr> in
        (True, if socketfd s1 \<noteq> - 1 then s1\<lparr>socketfd := - 1, closed_fds := closed_fds s1 @ [socketfd s1]\<rparr> else s1))"

(* net/Socket.cc 73: Socket::~Socket *)
definition Socket_dtor :: "socket \<Rightarrow> socket" where
  "Socket_dtor s = snd (close s)"

(* net/Socket.cc 143: Socket::bind *)
definition bind_sock :: "sock_os \<Rightarrow> address \<Rightarrow> socket \<Rightarrow> (bool \<times> socket) result" where
  "bind_sock os addr s =
     rbind (if \<not> isVaild s then newSock os s else Inr s) (\<lambda>s1.
       if GetFamily addr \<noteq> sk_family s1 then Inr (False, s1)
       else if \<not> (isVaild s1 \<and> os_bind os) then Inr (False, s1)
       else rbind (getLocalAddress os s1) (\<lambda>(_, s2). Inr (True, s2)))"

(* net/Socket.cc 161: Socket::connect *)
definition connect :: "sock_os \<Rightarrow> address \<Rightarrow> u64 \<Rightarrow> socket \<Rightarrow> (bool \<times> socket) result" where
  "connect os addr timeout_ms s =
     rbind (if \<not> isVaild s then newSock os s else Inr s) (\<lambda>s1.
       if \<not> isVaild s1 then Inr (False, s1)
       else if GetFamily addr \<noteq> sk_family s1 then Inr (False, s1)
       else if \<not> os_connect os then Inr (False, snd (close s1))
       else
         rbind (getRemoteAddress os (s1\<lparr>isConnected := True\<rparr>)) (\<lambda>(_, s2).
         rbind (getLocalAddress os s2) (\<lambda>(_, s3). Inr (True, s3))))"

(* net/Socket.cc 201: Socket::listen *)
definition listen :: "sock_os \<Rightarrow> socket \<Rightarrow> bool" where
  "listen os s \<longleftrightarrow> isVaild s \<and> os_listen os"

(* net/Socket.cc 225-266: Socket::send, sendTo *)
definition send :: "(int \<Rightarrow> 'n \<Rightarrow> int \<times> 'n) \<Rightarrow> socket \<Rightarrow> 'n \<Rightarrow> int \<times> 'n" where
  "send sys s net = (if isConnected s then sys (socketfd s) net else (- 1, net))"

(* net/Socket.cc 268-314: Socket::recv, recvFrom *)
definition recv :: "(int \<Rightarrow> 'n \<Rightarrow> int \<times> 'x list \<times> 'n) \<Rightarrow> socket \<Rightarrow> 'n \<Rightarrow> int \<times> 'x list \<times> 'n" where
  "recv sys s net = (if isConnected s then sys (socketfd s) net else (- 1, [], net))"

record timeval =
  tval_sec :: int
  tval_usec :: int

definition int_of_u64 :: "u64 \<Rightarrow> int" where
  "int_of_u64 v = sint (ucast v :: u32)"

(* net/Socket.cc 393: Socket::setSendTimeout *)
definition send_timeval :: "u64 \<Rightarrow> timeval" where
  "send_timeval val = \<lparr>tval_sec = int_of_u64 (val div 1000), tval_usec = int_of_u64 ((val mod 1000) * 1000)\<rparr>"

(* net/Socket.cc 402: Socket::setRecvTimeout *)
definition setRecvTimeout :: "sock_os \<Rightarrow> u64 \<Rightarrow> (bool \<times> timeval) result" where
  "setRecvTimeout os val = rbind (setOption os SOL_SOCKET SO_RCVTIMEO) (\<lambda>b. Inr (b, send_timeval val))"

(* net/Socket.cc 426: Socket::getError *)
definition getError :: "(int \<Rightarrow> int \<Rightarrow> int \<Rightarrow> int option) \<Rightarrow> socket \<Rightarrow> bool result" where
  "getError getsockopt s = rbind (getOption getsockopt SOL_SOCKET 4 s) (\<lambda>error. Inr (error \<noteq> 0))"

definition show_bool :: "bool \<Rightarrow> string" where
  "show_bool b = (if b then ''1'' else ''0'')"

(* net/Socket.cc 435: Socket::dump *)
definition socket_dump :: "bool \<Rightarrow> socket \<Rightarrow> string" where
  "socket_dump big s =
     '' Socket sock= '' @ show_int (socketfd s) @ '' is connect= '' @ show_bool (isConnected s)
     @ '' family = '' @ show_nat (sk_family s) @ '' type '' @ show_int (sk_type s) @ '' protocol ''
     @ show_int (sk_protocol s)
     @ (case localAddress s of None \<Rightarrow> [] | Some a \<Rightarrow> '' localAddress = '' @ addr_ToString big a)
     @ (case remoteAddress s of None \<Rightarrow> [] | Some a \<Rightarrow> '' remoteAddress = '' @ addr_ToString big a) @ [LF]"

section \<open>Lemmas\<close>

definition sock_ok :: "socket \<Rightarrow> bool" where
  "sock_ok s \<longleftrightarrow> (isConnected s \<longrightarrow> isVaild s) \<and> known_family (sk_family s)"

lemma close_simps [simp]:
  "socketfd (snd (close s)) = - 1 \<or> isConnected s"
  "sock_ok s \<Longrightarrow> socketfd (snd (close s)) = - 1" "\<not> isConnected (snd (close s))"
  "sk_family (snd (close s)) = sk_family s"
  by (auto simp: close_def sock_ok_def isVaild_def Let_def)

definition accepts_tcp_options :: "sock_os \<Rightarrow> bool" where
  "accepts_tcp_options os \<longleftrightarrow> (SOL_SOCKET, SO_REUSEADDR) \<in> set (os_setsockopt os)
     \<and> (IPPROTO_TCP, TCP_NODELAY) \<in> set (os_setsockopt os)"

lemma initSock_ok: "accepts_tcp_options os \<Longrightarrow> initSock os s = Inr ()"
  by (simp add: initSock_def setOption_def accepts_tcp_options_def)

lemma newSock_ok: "accepts_tcp_options os \<Longrightarrow> newSock os s = Inr (s\<lparr>socketfd := os_socket os\<rparr>)"
  by (simp add: newSock_def initSock_ok Let_def)

lemma getRemoteAddress_ok:
  "known_family (sk_family s) \<Longrightarrow> \<exists>a r. getRemoteAddress os s = Inr (a, s\<lparr>remoteAddress := r\<rparr>)"
  by (cases "remoteAddress s") (auto simp: getRemoteAddress_def split: option.splits intro: exI [of _ "remoteAddress s"])

lemma getLocalAddress_ok:
  "known_family (sk_family s) \<Longrightarrow> \<exists>a r. getLocalAddress os s = Inr (a, s\<lparr>localAddress := r\<rparr>)"
  by (cases "localAddress s") (auto simp: getLocalAddress_def split: option.splits intro: exI [of _ "localAddress s"])

section \<open>Properties\<close>

text \<open>
  C34: Connecting.  For a socket that is in order, with an operating system that accepts
  the TCP options, \<^verbatim>\<open>connect\<close> returns; if it returns true the socket is connected
  and has a descriptor, and nothing was closed; if the system's \<^verbatim>\<open>connect\<close> failed, the
  socket is closed: no descriptor, not connected, and its descriptor closed exactly
  once; the socket stays in order in every case, and closing it twice, or destroying
  it after a close, closes nothing more.
\<close>

theorem connect_outcome:
  assumes "sock_ok s" "accepts_tcp_options os" "\<not> isConnected s"
  shows "\<exists>r s'. connect os addr timeout s = Inr (r, s') \<and> sock_ok s'
    \<and> (r \<longrightarrow> isConnected s' \<and> closed_fds s' = closed_fds s)
    \<and> (\<not> r \<longrightarrow> \<not> isConnected s')
    \<and> (\<not> os_connect os \<longrightarrow> GetFamily addr = sk_family s \<longrightarrow>
         (let fd = (if isVaild s then socketfd s else os_socket os) in
          \<not> r \<and> socketfd s' = - 1 \<and> closed_fds s' = closed_fds s @ (if fd = - 1 then [] else [fd])))
    \<and> Socket_dtor (snd (close s')) = snd (close s')"
proof -
  let ?s = "if isVaild s then s else s\<lparr>socketfd := os_socket os\<rparr>"
  have s1: "(if \<not> isVaild s then newSock os s else Inr s) = Inr ?s" using assms(2) by (simp add: newSock_ok)
  have ok: "known_family (sk_family ?s)" "\<not> isConnected ?s" using assms by (auto simp: sock_ok_def)
  have idem: "Socket_dtor (snd (close x)) = snd (close x)" if "sock_ok x" for x
    using that by (auto simp: Socket_dtor_def close_def [of "snd (close x)"])
  show ?thesis
  proof (cases "isVaild ?s \<and> GetFamily addr = sk_family ?s \<and> os_connect os")
    case False
    let ?r = "if isVaild ?s \<and> GetFamily addr = sk_family ?s then snd (close ?s) else ?s"
    have c: "connect os addr timeout s = Inr (False, ?r)" using False s1 by (auto simp: connect_def)
    have "sock_ok ?r" using ok by (auto simp: sock_ok_def)
    moreover have "\<not> isConnected ?r" using ok by auto
    moreover have "let fd = (if isVaild s then socketfd s else os_socket os) in
        socketfd ?r = - 1 \<and> closed_fds ?r = closed_fds s @ (if fd = - 1 then [] else [fd])"
      if "\<not> os_connect os" "GetFamily addr = sk_family s"
      using that ok by (auto simp: close_def isVaild_def Let_def)
    ultimately show ?thesis using c idem by (intro exI [of _ False] exI [of _ ?r]) (auto simp: Let_def)
  next
    case True
    obtain a r where r: "getRemoteAddress os (?s\<lparr>isConnected := True\<rparr>) = Inr (a, ?s\<lparr>isConnected := True, remoteAddress := r\<rparr>)"
      using getRemoteAddress_ok [of "?s\<lparr>isConnected := True\<rparr>" os] ok by auto
    obtain b l where l: "getLocalAddress os (?s\<lparr>isConnected := True, remoteAddress := r\<rparr>)
        = Inr (b, ?s\<lparr>isConnected := True, remoteAddress := r, localAddress := l\<rparr>)"
      using getLocalAddress_ok [of "?s\<lparr>isConnected := True, remoteAddress := r\<rparr>" os] ok by auto
    let ?r = "?s\<lparr>isConnected := True, remoteAddress := r, localAddress := l\<rparr>"
    have c: "connect os addr timeout s = Inr (True, ?r)" using True s1 r l by (simp add: connect_def)
    have "sock_ok ?r" using ok True by (auto simp: sock_ok_def isVaild_def)
    then show ?thesis using c True idem by (intro exI [of _ True] exI [of _ ?r]) auto
  qed
qed

theorem connect_outcome_witness:
  "\<exists>s'. connect \<lparr>os_socket = 7, os_accept = - 1, os_setsockopt = [(SOL_SOCKET, SO_REUSEADDR), (IPPROTO_TCP, TCP_NODELAY)],
       os_bind = True, os_connect = False, os_listen = True, os_getsockname = None, os_getpeername = None\<rparr>
       (IPv4Address IPv4_default) (- 1) CreateTCPSocket = Inr (False, s') \<and> closed_fds s' = [7]"
proof -
  let ?os = "\<lparr>os_socket = 7, os_accept = - 1, os_setsockopt = [(SOL_SOCKET, SO_REUSEADDR), (IPPROTO_TCP, TCP_NODELAY)],
       os_bind = True, os_connect = False, os_listen = True, os_getsockname = None, os_getpeername = None\<rparr>"
  have "sock_ok CreateTCPSocket" "accepts_tcp_options ?os" "\<not> isConnected CreateTCPSocket"
    by (simp_all add: sock_ok_def CreateTCPSocket_def Socket_ctor_def known_family_def accepts_tcp_options_def)
  moreover have "GetFamily (IPv4Address IPv4_default) = sk_family CreateTCPSocket" "\<not> isVaild CreateTCPSocket"
      "closed_fds CreateTCPSocket = []"
    by (simp_all add: IPv4_default_def CreateTCPSocket_def Socket_ctor_def AF_INET_def isVaild_def)
  ultimately show ?thesis
    using connect_outcome [of CreateTCPSocket ?os "IPv4Address IPv4_default" "- 1"] by (auto simp: Let_def)
qed

text \<open>
  A Unix stream socket cannot be opened on a system that, as documented, rejects TCP
  options on it: \<^verbatim>\<open>initSock\<close> asserts that setting \<^verbatim>\<open>TCP_NODELAY\<close> succeeds.
\<close>

lemma unix_stream_socket_asserts:
  assumes "(IPPROTO_TCP, TCP_NODELAY) \<notin> set (os_setsockopt os)" "os_socket os \<noteq> - 1"
  shows "bind_sock os addr (CreateTCPUnixSocket addr) = Inl Assert_failed"
  using assms by (simp add: bind_sock_def CreateTCPUnixSocket_def Socket_ctor_def isVaild_def newSock_def initSock_def
      setOption_def Let_def rbind_def split: sum.splits)

text \<open>
  An accepted descriptor without a context is dropped: \<^verbatim>\<open>accept\<close> returns null for it
  and nothing closes it.
\<close>

lemma accept_without_context:
  assumes "table_ok fds" "0 \<le> os_accept os" "os_accept os < 2 ^ 31" "slot fds (nat (os_accept os)) = None"
  shows "accept os fds files s = Inr None"
  using assms by (auto simp: accept_def socket_init_def getFdContext_def slot_def Let_def split: if_splits)

end
