(* ===== verification/Fiber.thy ===== *)
theory Fiber
  imports Prelude
begin

text \<open>
  Stackful coroutines (\<^verbatim>\<open>qslary/base/Fiber.h\<close>, \<^verbatim>\<open>Fiber.cc\<close>) of one thread.

  A callback is the list of what it does: work (recorded in the trace), a call of
  \<^verbatim>\<open>YieldToReady\<close> or \<^verbatim>\<open>YieldToHold\<close>, a thrown exception, the loop of
  \<^verbatim>\<open>Scheduler::Idle\<close>, or a call of one of the two \<^verbatim>\<open>Scheduler::scheduler\<close>
  overloads (whose effect is an argument, as fibers know the scheduler only through
  it).  The saved \<^verbatim>\<open>ucontext_t\<close> of a fiber is where it continues: at
  \<^verbatim>\<open>FiberRun\<close>, inside its callback with the remaining list, or after the last
  \<^verbatim>\<open>swapOut\<close>, where returning ends the thread because \<^verbatim>\<open>uc_link\<close> is null.
  A fiber pointer is its position in the list of the fibers ever created.
  Stack allocation is assumed to succeed; log output is left out.
\<close>

section \<open>Definitions\<close>

(* base/Fiber.h 25-33: State *)
datatype fstate = INIT | HOLD | EXEC | FTERM | READY | EXCEPTION

datatype instr =
    Work nat
  | Yield_to_ready
  | Yield_to_hold
  | Throw
  | Idle_loop
  | Call_scheduler "instr list"
  | Call_scheduler_fiber nat

type_synonym callback = "instr list"

datatype fcontext = Ctx_start | Ctx_in "instr list" | Ctx_dead | Ctx_thread

(* base/Fiber.h 79-86: Fiber *)
record fiber =
  f_id :: u64
  f_stacksize :: u32
  f_state :: fstate
  f_ctx :: fcontext
  f_stack :: bool
  f_cb :: "callback option"

(* base/Fiber.cc 13-23: s_fiber_count, s_fiber_id, thread_current_fiber, thread_main_fiber *)
record fiber_world =
  fibers :: "fiber list"
  s_fiber_count :: u32
  s_fiber_id :: u64
  thread_current_fiber :: "nat option"
  thread_main_fiber :: "nat option"
  sched_main_fiber :: "nat option"
  g_fiber_stack_size :: int
  trace :: "nat list"

definition get_fiber :: "nat \<Rightarrow> 'a fiber_world_scheme \<Rightarrow> fiber result" where
  "get_fiber p w = (if p < length (fibers w) then Inr (fibers w ! p) else Inl Undefined_behaviour)"

definition set_fiber :: "nat \<Rightarrow> fiber \<Rightarrow> 'a fiber_world_scheme \<Rightarrow> 'a fiber_world_scheme" where
  "set_fiber p f w = w\<lparr>fibers := (fibers w)[p := f]\<rparr>"

definition upd_fiber :: "nat \<Rightarrow> (fiber \<Rightarrow> fiber) \<Rightarrow> 'a fiber_world_scheme \<Rightarrow> 'a fiber_world_scheme result" where
  "upd_fiber p g w = rbind (get_fiber p w) (\<lambda>f. Inr (set_fiber p (g f) w))"

(* base/Fiber.cc 49: Fiber::SetThreadCurrentFiber *)
definition SetThreadCurrentFiber :: "nat option \<Rightarrow> 'a fiber_world_scheme \<Rightarrow> 'a fiber_world_scheme" where
  "SetThreadCurrentFiber f w = w\<lparr>thread_current_fiber := f\<rparr>"

(* base/Fiber.cc 34: Fiber::getFiberId *)
definition getFiberId :: "'a fiber_world_scheme \<Rightarrow> u64 result" where
  "getFiberId w =
     (case thread_current_fiber w of
        Some p \<Rightarrow> rbind (get_fiber p w) (\<lambda>f. Inr (f_id f))
      | None \<Rightarrow> Inr 0)"

(* base/Fiber.cc 70: Fiber::Fiber *)
definition Fiber_main_ctor :: "'a fiber_world_scheme \<Rightarrow> nat \<times> 'a fiber_world_scheme" where
  "Fiber_main_ctor w =
     (let p = length (fibers w); i = s_fiber_id w + 1;
          f = \<lparr>f_id = i, f_stacksize = 0, f_state = EXEC, f_ctx = Ctx_thread, f_stack = False, f_cb = None\<rparr> in
      (p, w\<lparr>fibers := fibers w @ [f], s_fiber_id := i, s_fiber_count := s_fiber_count w + 1,
            thread_current_fiber := Some p\<rparr>))"

(* base/Fiber.cc 56: Fiber::GetThreadCurrentFiber *)
definition GetThreadCurrentFiber :: "'a fiber_world_scheme \<Rightarrow> nat \<times> 'a fiber_world_scheme" where
  "GetThreadCurrentFiber w =
     (case thread_current_fiber w of
        Some p \<Rightarrow> (p, w)
      | None \<Rightarrow> (let (p, w') = Fiber_main_ctor w in (p, w'\<lparr>thread_main_fiber := Some p\<rparr>)))"

(* base/Fiber.cc 83: Fiber::Fiber *)
definition Fiber_ctor :: "callback option \<Rightarrow> nat \<Rightarrow> 'a fiber_world_scheme \<Rightarrow> nat \<times> 'a fiber_world_scheme" where
  "Fiber_ctor cb stacksize w =
     (let i = s_fiber_id w + 1;
          sz = (if stacksize \<noteq> 0 then word_of_nat stacksize else word_of_int (g_fiber_stack_size w));
          f = \<lparr>f_id = i, f_stacksize = sz, f_state = INIT, f_ctx = Ctx_start, f_stack = True, f_cb = cb\<rparr> in
      (length (fibers w),
       w\<lparr>fibers := fibers w @ [f], s_fiber_id := i, s_fiber_count := s_fiber_count w + 1\<rparr>))"

(* base/Fiber.cc 100: Fiber::~Fiber *)
definition Fiber_dtor :: "nat \<Rightarrow> 'a fiber_world_scheme \<Rightarrow> 'a fiber_world_scheme result" where
  "Fiber_dtor p w =
     rbind (get_fiber p w) (\<lambda>f.
     let w1 = w\<lparr>s_fiber_count := s_fiber_count w - 1\<rparr> in
     if f_stack f
     then rbind (assert_r (f_state f = FTERM \<or> f_state f = INIT \<or> f_state f = EXCEPTION)) (\<lambda>_.
            Inr (set_fiber p (f\<lparr>f_stack := False\<rparr>) w1))
     else rbind (assert_r (f_cb f = None)) (\<lambda>_.
          rbind (assert_r (f_state f = EXEC)) (\<lambda>_.
            Inr (if thread_current_fiber w1 = Some p then SetThreadCurrentFiber None w1 else w1))))"

(* base/Fiber.cc 135: Fiber::swapOut *)
definition swapOut :: "nat \<Rightarrow> fcontext \<Rightarrow> 'a fiber_world_scheme \<Rightarrow> 'a fiber_world_scheme result" where
  "swapOut p here w =
     (if sched_main_fiber w = None then Inl Undefined_behaviour
      else upd_fiber p (\<lambda>f. f\<lparr>f_ctx := here\<rparr>) (SetThreadCurrentFiber (sched_main_fiber w) w))"

(* base/Fiber.cc 146: Fiber::reset *)
definition fiber_reset :: "callback option \<Rightarrow> nat \<Rightarrow> 'a fiber_world_scheme \<Rightarrow> 'a fiber_world_scheme result" where
  "fiber_reset cb p w =
     rbind (get_fiber p w) (\<lambda>f.
     rbind (assert_r (f_stack f)) (\<lambda>_.
     rbind (assert_r (f_state f = FTERM \<or> f_state f = EXCEPTION \<or> f_state f = INIT)) (\<lambda>_.
       Inr (set_fiber p (f\<lparr>f_cb := cb, f_ctx := Ctx_start, f_state := INIT\<rparr>) w))))"

definition yield_as :: "fstate \<Rightarrow> instr list \<Rightarrow> 'a fiber_world_scheme \<Rightarrow> 'a fiber_world_scheme result" where
  "yield_as s rest w =
     (let (cur, w0) = GetThreadCurrentFiber w in
      rbind (get_fiber cur w0) (\<lambda>f.
      rbind (assert_r (f_state f = EXEC)) (\<lambda>_.
        swapOut cur (Ctx_in rest) (set_fiber cur (f\<lparr>f_state := s\<rparr>) w0))))"

(* base/Fiber.cc 165: Fiber::YieldToReady *)
definition YieldToReady :: "instr list \<Rightarrow> 'a fiber_world_scheme \<Rightarrow> 'a fiber_world_scheme result" where
  "YieldToReady rest w = yield_as READY rest w"

(* base/Fiber.cc 174: Fiber::YieldToHold *)
definition YieldToHold :: "instr list \<Rightarrow> 'a fiber_world_scheme \<Rightarrow> 'a fiber_world_scheme result" where
  "YieldToHold rest w = yield_as HOLD rest w"

text \<open>The end of \<^verbatim>\<open>FiberRun\<close> after the callback returned, or threw.\<close>

definition run_return :: "nat \<Rightarrow> 'a fiber_world_scheme \<Rightarrow> 'a fiber_world_scheme result" where
  "run_return p w =
     rbind (upd_fiber p (\<lambda>f. f\<lparr>f_cb := None, f_state := FTERM\<rparr>) w) (swapOut p Ctx_dead)"

definition run_catch :: "nat \<Rightarrow> 'a fiber_world_scheme \<Rightarrow> 'a fiber_world_scheme result" where
  "run_catch p w =
     rbind (upd_fiber p (\<lambda>f. f\<lparr>f_state := EXCEPTION\<rparr>) w) (swapOut p Ctx_dead)"

text \<open>
  The callback of fiber \<open>p\<close> from some point on, until it switches back to the
  scheduler's fiber.
\<close>

fun run_body :: "(instr \<Rightarrow> 'a fiber_world_scheme \<Rightarrow> 'a fiber_world_scheme result)
    \<Rightarrow> ('a fiber_world_scheme \<Rightarrow> bool) \<Rightarrow> nat \<Rightarrow> instr list
    \<Rightarrow> 'a fiber_world_scheme \<Rightarrow> 'a fiber_world_scheme result" where
  "run_body call isclean p [] w = run_return p w"
| "run_body call isclean p (i # is) w =
     (case i of
        Work n \<Rightarrow> run_body call isclean p is (w\<lparr>trace := trace w @ [n]\<rparr>)
      | Yield_to_ready \<Rightarrow> YieldToReady is w
      | Yield_to_hold \<Rightarrow> YieldToHold is w
      | Throw \<Rightarrow> run_catch p w
      | Idle_loop \<Rightarrow> if isclean w then run_body call isclean p is w else YieldToHold (Idle_loop # is) w
      | Call_scheduler cb \<Rightarrow> rbind (call (Call_scheduler cb) w) (run_body call isclean p is)
      | Call_scheduler_fiber q \<Rightarrow> rbind (call (Call_scheduler_fiber q) w) (run_body call isclean p is))"

(* base/Fiber.cc 182: Fiber::FiberRun *)
definition FiberRun :: "(instr \<Rightarrow> 'a fiber_world_scheme \<Rightarrow> 'a fiber_world_scheme result)
    \<Rightarrow> ('a fiber_world_scheme \<Rightarrow> bool) \<Rightarrow> 'a fiber_world_scheme \<Rightarrow> 'a fiber_world_scheme result" where
  "FiberRun call isclean w =
     (let (p, w0) = GetThreadCurrentFiber w in
      rbind (get_fiber p w0) (\<lambda>f.
        case f_cb f of None \<Rightarrow> run_catch p w0
        | Some cb \<Rightarrow> run_body call isclean p cb w0))"

(* base/Fiber.cc 122: Fiber::swapIn *)
definition swapIn :: "(instr \<Rightarrow> 'a fiber_world_scheme \<Rightarrow> 'a fiber_world_scheme result)
    \<Rightarrow> ('a fiber_world_scheme \<Rightarrow> bool) \<Rightarrow> nat \<Rightarrow> 'a fiber_world_scheme \<Rightarrow> 'a fiber_world_scheme result" where
  "swapIn call isclean p w =
     rbind (get_fiber p w) (\<lambda>f.
     rbind (assert_r (f_state f \<noteq> EXEC)) (\<lambda>_.
     let w1 = set_fiber p (f\<lparr>f_state := EXEC\<rparr>) (SetThreadCurrentFiber (Some p) w) in
     if sched_main_fiber w1 = None then Inl Undefined_behaviour
     else (case f_ctx f of
         Ctx_start \<Rightarrow> FiberRun call isclean w1
       | Ctx_in is \<Rightarrow> run_body call isclean p is w1
       | Ctx_dead \<Rightarrow> Inl Thread_exit
       | Ctx_thread \<Rightarrow> Inl Undefined_behaviour)))"

section \<open>Well-formed fibers\<close>

text \<open>The fibers a callback names when it reschedules one exist.\<close>

fun instr_ok :: "nat \<Rightarrow> instr \<Rightarrow> bool" where
  "instr_ok n (Call_scheduler_fiber q) = (q < n)"
| "instr_ok n (Call_scheduler b) = list_all (instr_ok n) b"
| "instr_ok n _ = True"

abbreviation body_ok :: "nat \<Rightarrow> instr list \<Rightarrow> bool" where
  "body_ok n b \<equiv> list_all (instr_ok n) b"

definition cb_ok :: "nat \<Rightarrow> callback option \<Rightarrow> bool" where
  "cb_ok n cb = (case cb of None \<Rightarrow> True | Some b \<Rightarrow> body_ok n b)"

lemma cb_ok_simps [simp]: "cb_ok n None" "cb_ok n (Some b) = body_ok n b"
  by (simp_all add: cb_ok_def)

lemma instr_ok_mono: "instr_ok n i \<Longrightarrow> n \<le> m \<Longrightarrow> instr_ok m i"
  by (induction n i rule: instr_ok.induct) (auto simp: list_all_iff)

lemma body_ok_mono: "body_ok n b \<Longrightarrow> n \<le> m \<Longrightarrow> body_ok m b"
  by (auto simp: list_all_iff intro: instr_ok_mono)

lemma cb_ok_mono: "cb_ok n cb \<Longrightarrow> n \<le> m \<Longrightarrow> cb_ok m cb"
  by (cases cb) (simp_all add: body_ok_mono)

text \<open>
  The state of a fiber that is not running fits its saved context: a new one starts
  at \<^verbatim>\<open>FiberRun\<close>, a held or ready one is suspended inside its callback, and a
  finished one has nothing left to run.
\<close>

definition fiber_ok :: "nat \<Rightarrow> fiber \<Rightarrow> bool" where
  "fiber_ok n f \<longleftrightarrow> f_stack f \<and> cb_ok n (f_cb f)
     \<and> (case f_ctx f of
          Ctx_start \<Rightarrow> f_state f = INIT
        | Ctx_in b \<Rightarrow> (f_state f = HOLD \<or> f_state f = READY) \<and> body_ok n b
        | Ctx_dead \<Rightarrow> f_state f = FTERM \<or> f_state f = EXCEPTION
        | Ctx_thread \<Rightarrow> False)"

lemma fiber_ok_mono: "fiber_ok n f \<Longrightarrow> n \<le> m \<Longrightarrow> fiber_ok m f"
  by (auto simp: fiber_ok_def body_ok_mono cb_ok_mono split: fcontext.splits)

lemma fiber_ok_not_exec: "fiber_ok n f \<Longrightarrow> f_state f \<noteq> EXEC"
  by (auto simp: fiber_ok_def split: fcontext.splits)

text \<open>
  \<open>others_ok\<close>: every fiber but \<open>p\<close> and the thread's main fiber \<open>mf\<close>, which is
  executing (as far as its own state says) all the time.  \<open>resting\<close> is a thread in
  its scheduler loop, \<open>running\<close> one inside fiber \<open>p\<close>.
\<close>

definition others_ok :: "nat \<Rightarrow> nat \<Rightarrow> 'a fiber_world_scheme \<Rightarrow> bool" where
  "others_ok mf p w \<longleftrightarrow> mf < length (fibers w) \<and> sched_main_fiber w = Some mf
     \<and> f_state (fibers w ! mf) = EXEC
     \<and> (\<forall>q < length (fibers w). q \<noteq> mf \<longrightarrow> q \<noteq> p \<longrightarrow> fiber_ok (length (fibers w)) (fibers w ! q))"

definition resting :: "nat \<Rightarrow> 'a fiber_world_scheme \<Rightarrow> bool" where
  "resting mf w \<longleftrightarrow> others_ok mf mf w \<and> thread_current_fiber w = Some mf"

definition running :: "nat \<Rightarrow> nat \<Rightarrow> 'a fiber_world_scheme \<Rightarrow> bool" where
  "running mf p w \<longleftrightarrow> others_ok mf p w \<and> thread_current_fiber w = Some p \<and> p \<noteq> mf
     \<and> p < length (fibers w) \<and> f_state (fibers w ! p) = EXEC \<and> f_stack (fibers w ! p)
     \<and> cb_ok (length (fibers w)) (f_cb (fibers w ! p))"

lemma set_fiber_simps [simp]:
  "length (fibers (set_fiber p f w)) = length (fibers w)"
  "fibers (set_fiber p f w) = (fibers w)[p := f]"
  "thread_current_fiber (set_fiber p f w) = thread_current_fiber w"
  "sched_main_fiber (set_fiber p f w) = sched_main_fiber w"
  "trace (set_fiber p f w) = trace w"
  "fiber_world.more (set_fiber p f w) = fiber_world.more w"
  by (simp_all add: set_fiber_def)

lemma set_current_simps [simp]:
  "fibers (SetThreadCurrentFiber c w) = fibers w"
  "thread_current_fiber (SetThreadCurrentFiber c w) = c"
  "sched_main_fiber (SetThreadCurrentFiber c w) = sched_main_fiber w"
  "trace (SetThreadCurrentFiber c w) = trace w"
  "fiber_world.more (SetThreadCurrentFiber c w) = fiber_world.more w"
  by (simp_all add: SetThreadCurrentFiber_def)

lemma get_fiber_ok [simp]: "p < length (fibers w) \<Longrightarrow> get_fiber p w = Inr (fibers w ! p)"
  by (simp add: get_fiber_def)

lemma upd_fiber_ok [simp]:
  "p < length (fibers w) \<Longrightarrow> upd_fiber p g w = Inr (set_fiber p (g (fibers w ! p)) w)"
  by (simp add: upd_fiber_def)

lemma current_running: "running mf p w \<Longrightarrow> GetThreadCurrentFiber w = (p, w)"
  by (simp add: running_def GetThreadCurrentFiber_def)

text \<open>Leaving a running fiber in a state that fits the context it saves.\<close>

definition leave :: "nat \<Rightarrow> nat \<Rightarrow> fiber \<Rightarrow> 'a fiber_world_scheme \<Rightarrow> 'a fiber_world_scheme" where
  "leave mf p f w = set_fiber p f (SetThreadCurrentFiber (Some mf) w)"

lemma leave_simps [simp]:
  "fibers (leave mf p f w) = (fibers w)[p := f]"
  "trace (leave mf p f w) = trace w"
  "fiber_world.more (leave mf p f w) = fiber_world.more w"
  by (simp_all add: leave_def)

lemma leave_resting:
  "running mf p w \<Longrightarrow> fiber_ok (length (fibers w)) f \<Longrightarrow> resting mf (leave mf p f w)"
  by (auto simp: running_def resting_def others_ok_def leave_def nth_list_update)

lemma set_fiber_set_fiber [simp]: "set_fiber p g (set_fiber p f w) = set_fiber p g w"
  by (simp add: set_fiber_def)

lemma set_fiber_current:
  "set_fiber p f (SetThreadCurrentFiber c w) = SetThreadCurrentFiber c (set_fiber p f w)"
  by (simp add: set_fiber_def SetThreadCurrentFiber_def)

lemma yield_as_running:
  assumes "running mf p w"
  shows "yield_as s rest w =
    Inr (leave mf p ((fibers w ! p)\<lparr>f_state := s, f_ctx := Ctx_in rest\<rparr>) w)"
  using assms unfolding yield_as_def current_running [OF assms]
  by (simp add: running_def others_ok_def swapOut_def leave_def set_fiber_current)

lemma run_return_running:
  assumes "running mf p w"
  shows "run_return p w =
    Inr (leave mf p ((fibers w ! p)\<lparr>f_cb := None, f_state := FTERM, f_ctx := Ctx_dead\<rparr>) w)"
  using assms by (simp add: run_return_def running_def others_ok_def swapOut_def leave_def set_fiber_current)

lemma run_catch_running:
  assumes "running mf p w"
  shows "run_catch p w =
    Inr (leave mf p ((fibers w ! p)\<lparr>f_state := EXCEPTION, f_ctx := Ctx_dead\<rparr>) w)"
  using assms by (simp add: run_catch_def running_def others_ok_def swapOut_def leave_def set_fiber_current)

lemma running_more_cong:
  "running mf p w \<Longrightarrow> running mf p (w\<lparr>trace := t\<rparr>)"
  by (simp add: running_def others_ok_def)

lemma running_body_ok:
  "running mf p w \<Longrightarrow> f_cb (fibers w ! p) = Some b \<Longrightarrow> body_ok (length (fibers w)) b"
  by (simp add: running_def)

definition enter :: "nat \<Rightarrow> 'a fiber_world_scheme \<Rightarrow> 'a fiber_world_scheme" where
  "enter p w = set_fiber p ((fibers w ! p)\<lparr>f_state := EXEC\<rparr>) (SetThreadCurrentFiber (Some p) w)"

lemma enter_simps [simp]:
  "fibers (enter p w) = (fibers w)[p := (fibers w ! p)\<lparr>f_state := EXEC\<rparr>]"
  "trace (enter p w) = trace w" "sched_main_fiber (enter p w) = sched_main_fiber w"
  "fiber_world.more (enter p w) = fiber_world.more w"
  by (simp_all add: enter_def)

lemma enter_running:
  assumes "resting mf w" "p < length (fibers w)" "p \<noteq> mf"
  shows "running mf p (enter p w)"
proof -
  have "fiber_ok (length (fibers w)) (fibers w ! p)" using assms by (simp add: resting_def others_ok_def)
  with assms show ?thesis
    by (auto simp: running_def resting_def others_ok_def enter_def nth_list_update fiber_ok_def)
qed

text \<open>What swapping in a fiber that is not running amounts to.\<close>

lemma swapIn_resting:
  assumes "resting mf w" "p < length (fibers w)" "p \<noteq> mf" "f_state (fibers w ! p) \<in> {INIT, HOLD, READY}"
  shows "swapIn call isclean p w =
    (case f_ctx (fibers w ! p) of
       Ctx_in b \<Rightarrow> run_body call isclean p b (enter p w)
     | _ \<Rightarrow> (case f_cb (fibers w ! p) of None \<Rightarrow> run_catch p (enter p w)
            | Some b \<Rightarrow> run_body call isclean p b (enter p w)))"
proof -
  have f: "fiber_ok (length (fibers w)) (fibers w ! p)" using assms by (simp add: resting_def others_ok_def)
  have "sched_main_fiber w = Some mf" using assms(1) by (simp add: resting_def others_ok_def)
  moreover have "f_state (fibers w ! p) \<noteq> EXEC" using f by (rule fiber_ok_not_exec)
  moreover have "f_ctx (fibers w ! p) \<noteq> Ctx_dead \<and> f_ctx (fibers w ! p) \<noteq> Ctx_thread"
    using f assms(4) by (auto simp: fiber_ok_def)
  moreover have "FiberRun call isclean (enter p w) = (case f_cb (fibers w ! p) of None \<Rightarrow> run_catch p (enter p w)
            | Some b \<Rightarrow> run_body call isclean p b (enter p w))"
    using assms(2) by (simp add: FiberRun_def current_running [OF enter_running [OF assms(1-3)]] split: option.split)
  ultimately show ?thesis
    using assms(2) by (simp add: swapIn_def Let_def flip: enter_def split: fcontext.split)
qed

text \<open>Control is back in the scheduler after fiber \<open>p\<close> ran; there were \<open>n\<close> fibers before.\<close>

definition came_back :: "('a fiber_world_scheme \<Rightarrow> bool) \<Rightarrow> nat \<Rightarrow> nat \<Rightarrow> nat
    \<Rightarrow> 'a fiber_world_scheme \<Rightarrow> bool" where
  "came_back I mf p n w \<longleftrightarrow> resting mf w \<and> I w \<and> n \<le> length (fibers w)
     \<and> f_ctx (fibers w ! p) \<noteq> Ctx_start"

lemma came_back_trans:
  "came_back I mf p m w \<Longrightarrow> n \<le> m \<Longrightarrow> came_back I mf p n w"
  by (simp add: came_back_def)

text \<open>A new fiber leaves the others as they are.\<close>

lemma new_fiber_ok:
  "cb_ok n cb \<Longrightarrow>
   fiber_ok n \<lparr>f_id = i, f_stacksize = sz, f_state = INIT, f_ctx = Ctx_start, f_stack = True, f_cb = cb\<rparr>"
  by (simp add: fiber_ok_def)

lemma others_ok_grow:
  assumes "others_ok mf p w" "cb_ok (length (fibers w)) cb"
    and "fibers w' = fibers w @ [\<lparr>f_id = i, f_stacksize = sz, f_state = INIT, f_ctx = Ctx_start, f_stack = True, f_cb = cb\<rparr>]"
    and "sched_main_fiber w' = sched_main_fiber w"
  shows "others_ok mf p w'"
  unfolding others_ok_def
proof (intro conjI allI impI)
  fix q
  assume q: "q < length (fibers w')" "q \<noteq> mf" "q \<noteq> p"
  show "fiber_ok (length (fibers w')) (fibers w' ! q)"
  proof (cases "q < length (fibers w)")
    case True
    then have "fiber_ok (length (fibers w)) (fibers w ! q)" using assms(1) q by (simp add: others_ok_def)
    then show ?thesis using True fiber_ok_mono by (simp add: assms(3) nth_append)
  next
    case False
    then show ?thesis using q new_fiber_ok [OF cb_ok_mono [OF assms(2)], of "Suc (length (fibers w))"]
      by (simp add: assms(3) nth_append)
  qed
qed (use assms in \<open>simp_all add: others_ok_def nth_append\<close>)

lemma running_grow:
  assumes "running mf p w" "cb_ok (length (fibers w)) cb"
    and "fibers w' = fibers w @ [\<lparr>f_id = i, f_stacksize = sz, f_state = INIT, f_ctx = Ctx_start, f_stack = True, f_cb = cb\<rparr>]"
    and "sched_main_fiber w' = sched_main_fiber w" "thread_current_fiber w' = thread_current_fiber w"
  shows "running mf p w'"
proof -
  have "others_ok mf p w'" using assms(1) by (intro others_ok_grow [OF _ assms(2-4)]) (simp add: running_def)
  moreover have "cb_ok (Suc (length (fibers w))) (f_cb (fibers w ! p))"
    by (rule cb_ok_mono [where n = "length (fibers w)"]) (use assms(1) in \<open>simp_all add: running_def\<close>)
  ultimately show ?thesis using assms by (simp add: running_def nth_append)
qed

lemma resting_grow:
  assumes "resting mf w" "cb_ok (length (fibers w)) cb"
    and "fibers w' = fibers w @ [\<lparr>f_id = i, f_stacksize = sz, f_state = INIT, f_ctx = Ctx_start, f_stack = True, f_cb = cb\<rparr>]"
    and "sched_main_fiber w' = sched_main_fiber w" "thread_current_fiber w' = thread_current_fiber w"
  shows "resting mf w'"
  using assms others_ok_grow [of mf mf w cb w'] by (simp add: resting_def)

lemma running_fiber_fields:
  "running mf p w \<Longrightarrow> fibers w' = fibers w \<Longrightarrow> sched_main_fiber w' = sched_main_fiber w
   \<Longrightarrow> thread_current_fiber w' = thread_current_fiber w \<Longrightarrow> running mf p w'"
  by (simp add: running_def others_ok_def)

lemma resting_fiber_fields:
  "resting mf w \<Longrightarrow> fibers w' = fibers w \<Longrightarrow> sched_main_fiber w' = sched_main_fiber w
   \<Longrightarrow> thread_current_fiber w' = thread_current_fiber w \<Longrightarrow> resting mf w'"
  by (simp add: resting_def others_ok_def)

section \<open>The interface between fibers and their scheduler\<close>

text \<open>
  What a fiber relies on when its callback calls the scheduler: the call may create
  fibers and queue them, but leaves the running fiber running, the existing fibers
  in place and the scheduler's own invariant intact.
\<close>

locale fiber_host =
  fixes call :: "instr \<Rightarrow> 'a fiber_world_scheme \<Rightarrow> 'a fiber_world_scheme result"
    and isclean :: "'a fiber_world_scheme \<Rightarrow> bool"
    and inv :: "'a fiber_world_scheme \<Rightarrow> bool"
  assumes inv_cong: "inv w \<Longrightarrow> length (fibers w') = length (fibers w)
      \<Longrightarrow> fiber_world.more w' = fiber_world.more w \<Longrightarrow> inv w'"
    and call_ok: "running mf p w \<Longrightarrow> inv w \<Longrightarrow> instr_ok (length (fibers w)) i \<Longrightarrow>
      rsafe (\<lambda>w'. running mf p w' \<and> inv w' \<and> length (fibers w) \<le> length (fibers w')) (call i w)"
begin

lemma leave_ok:
  assumes "running mf p w" "inv w" "fiber_ok (length (fibers w)) f" "f_ctx f \<noteq> Ctx_start"
  shows "came_back inv mf p (length (fibers w)) (leave mf p f w)"
  using leave_resting [OF assms(1,3)] inv_cong [OF assms(2), of "leave mf p f w"] assms(1,4)
  by (simp add: came_back_def running_def)

lemma run_body_ok:
  "running mf p w \<Longrightarrow> inv w \<Longrightarrow> body_ok (length (fibers w)) b \<Longrightarrow>
   rsafe (came_back inv mf p (length (fibers w))) (run_body call isclean p b w)"
proof (induction b arbitrary: w)
  case Nil
  then have "fiber_ok (length (fibers w)) ((fibers w ! p)\<lparr>f_cb := None, f_state := FTERM, f_ctx := Ctx_dead\<rparr>)"
    by (simp add: fiber_ok_def running_def)
  then show ?case using Nil leave_ok by (simp add: run_return_running)
next
  case (Cons i b)
  have yield: "rsafe (came_back inv mf p (length (fibers w)))
      (yield_as s rest w)" if "s = HOLD \<or> s = READY" "body_ok (length (fibers w)) rest" for s rest
    using that leave_ok [OF Cons.prems(1,2)] Cons.prems(1)
    by (auto simp: yield_as_running fiber_ok_def running_def)
  have called: "rsafe (came_back inv mf p (length (fibers w)))
      (rbind (call i w) (run_body call isclean p b))"
  proof (rule rsafe_bind [OF call_ok [OF Cons.prems(1,2)]])
    show "instr_ok (length (fibers w)) i" using Cons.prems(3) by simp
  next
    fix x
    assume x: "running mf p x \<and> inv x \<and> length (fibers w) \<le> length (fibers x)"
    then have "body_ok (length (fibers x)) b"
      using Cons.prems(3) body_ok_mono [of "length (fibers w)" b] by simp
    with x show "rsafe (came_back inv mf p (length (fibers w)))
        (run_body call isclean p b x)"
      by (blast intro: rsafe_mono [OF Cons.IH] came_back_trans)
  qed
  show ?case
  proof (cases i)
    case (Work n)
    have "inv (w\<lparr>trace := trace w @ [n]\<rparr>)" by (rule inv_cong [OF Cons.prems(2)]) simp_all
    then show ?thesis
      using Work Cons.IH [of "w\<lparr>trace := trace w @ [n]\<rparr>"] Cons.prems
        running_more_cong [OF Cons.prems(1)] by simp
  next
    case Throw
    have "fiber_ok (length (fibers w)) ((fibers w ! p)\<lparr>f_state := EXCEPTION, f_ctx := Ctx_dead\<rparr>)"
      using Cons.prems(1) by (simp add: fiber_ok_def running_def)
    then show ?thesis using Throw leave_ok [OF Cons.prems(1,2)] by (simp add: run_catch_running [OF Cons.prems(1)])
  qed (use yield [of READY b] yield [of HOLD b] yield [of HOLD "Idle_loop # b"] called Cons
      in \<open>auto simp: YieldToReady_def YieldToHold_def\<close>)
qed

lemma swapIn_ok:
  assumes "resting mf w" "inv w" "p < length (fibers w)" "p \<noteq> mf"
    and "f_state (fibers w ! p) \<in> {INIT, HOLD, READY}"
  shows "rsafe (came_back inv mf p (length (fibers w)))
    (swapIn call isclean p w)"
proof -
  let ?f = "fibers w ! p"
  have f: "fiber_ok (length (fibers w)) ?f"
    using assms(1,3,4) by (simp add: resting_def others_ok_def)
  have r: "running mf p (enter p w)" by (rule enter_running [OF assms(1,3,4)])
  have i: "inv (enter p w)" by (rule inv_cong [OF assms(2)]) simp_all
  have "rsafe (came_back inv mf p (length (fibers w))) (run_catch p (enter p w))"
  proof -
    have "fiber_ok (length (fibers w)) ((fibers (enter p w) ! p)\<lparr>f_state := EXCEPTION, f_ctx := Ctx_dead\<rparr>)"
      using f assms(3) by (simp add: fiber_ok_def)
    then show ?thesis using leave_ok [OF r i] assms(3) by (simp add: run_catch_running [OF r])
  qed
  moreover have "rsafe (came_back inv mf p (length (fibers w))) (run_body call isclean p b (enter p w))"
    if "f_ctx ?f = Ctx_in b \<or> f_cb ?f = Some b" for b
    using run_body_ok [OF r i, of b] f that by (auto simp: fiber_ok_def)
  ultimately show ?thesis
    unfolding swapIn_resting [OF assms(1,3,4,5)] by (simp split: fcontext.split option.split)
qed

end

end
