(* ===== verification/Scheduler.thy ===== *)
theory Scheduler
  imports Fiber
begin

text \<open>
  The fiber scheduler (\<^verbatim>\<open>qslary/net/Scheduler.h\<close>, \<^verbatim>\<open>Scheduler.cc\<close>): its queue and
  counters extend the fibers' state, and one worker thread executes \<^verbatim>\<open>run\<close>.  The
  locked section of \<^verbatim>\<open>run\<close> that takes a fiber from the queue is \<open>take_pending\<close>, an
  iteration of its loop is \<open>run_iteration\<close>, and the loop has fuel: \<open>None\<close> is a run
  that did not end within it.  \<^verbatim>\<open>Wakeup\<close> only logs; its calls are counted.  There is one
  thread, so \<^verbatim>\<open>is_thread_scheduler\<close>, which is \<^verbatim>\<open>thread_local\<close>, is one flag; a fiber that is no
  longer pointed to stays in the list of fibers, and its destructor is not run.

  The lemmas show that the worker never fails an assertion, never resumes a finished
  fiber and never swaps without a main fiber; that a stopped scheduler whose
  callbacks do not yield to READY ends after running every callback in the order in
  which they were scheduled; and what becomes of a callback that does yield.
\<close>

section \<open>Definitions\<close>

(* net/Scheduler.h 92-102: Scheduler *)
record scheduler_state = fiber_world +
  sc_name :: string
  m_main_fiber :: "nat option"
  threadCount :: nat
  threadsId :: "nat list"
  threads :: "string list"
  pendingFunctors :: "nat list"
  activeThreadCount :: nat
  idleThreadCount :: nat
  clean :: bool
  autoStop :: bool
  is_thread_scheduler :: bool
  wakeups :: nat

(* net/Scheduler.cc 36: Scheduler::setThreadScheduler *)
definition setThreadScheduler :: "scheduler_state \<Rightarrow> scheduler_state" where
  "setThreadScheduler w = w\<lparr>is_thread_scheduler := True\<rparr>"

(* net/Scheduler.cc 179: Scheduler::Wakeup *)
definition Wakeup :: "scheduler_state \<Rightarrow> scheduler_state" where
  "Wakeup w = w\<lparr>wakeups := Suc (wakeups w)\<rparr>"

(* net/Scheduler.cc 181: Scheduler::IsClean *)
definition IsClean :: "scheduler_state \<Rightarrow> bool" where
  "IsClean w \<longleftrightarrow> autoStop w \<and> clean w \<and> pendingFunctors w = [] \<and> activeThreadCount w = 0"

(* net/Scheduler.h 76: Scheduler::schedulerNoLock *)
definition schedulerNoLock :: "callback option \<Rightarrow> scheduler_state \<Rightarrow> bool \<times> scheduler_state" where
  "schedulerNoLock cb w =
     (let need_wakeup = (pendingFunctors w = []);
          (ft, w1) = Fiber_ctor cb 0 w in
      (need_wakeup, w1\<lparr>pendingFunctors := pendingFunctors w1 @ [ft]\<rparr>))"

(* net/Scheduler.cc 102: Scheduler::scheduler *)
definition scheduler :: "callback option \<Rightarrow> scheduler_state \<Rightarrow> scheduler_state" where
  "scheduler cb w =
     (let (need_wakeup, w1) = schedulerNoLock cb w in if need_wakeup then Wakeup w1 else w1)"

(* net/Scheduler.h 47: Scheduler::scheduler *)
definition scheduler_fiber :: "nat \<Rightarrow> scheduler_state \<Rightarrow> scheduler_state" where
  "scheduler_fiber p w = w\<lparr>pendingFunctors := pendingFunctors w @ [p]\<rparr>"

fun scheduler_loop :: "callback option list \<Rightarrow> bool \<Rightarrow> scheduler_state \<Rightarrow> bool \<times> scheduler_state" where
  "scheduler_loop [] need_wakeup w = (need_wakeup, w)"
| "scheduler_loop (cb # cbs) need_wakeup w =
     (let (nw, w1) = schedulerNoLock cb w in scheduler_loop cbs (nw \<or> need_wakeup) w1)"

(* net/Scheduler.h 54: Scheduler::scheduler *)
definition scheduler_range :: "callback option list \<Rightarrow> scheduler_state \<Rightarrow> scheduler_state" where
  "scheduler_range cbs w =
     (let (need_wakeup, w1) = scheduler_loop cbs False w in if need_wakeup then Wakeup w1 else w1)"

(* net/Scheduler.cc 40: Scheduler::Scheduler *)
definition Scheduler_ctor :: "callback \<Rightarrow> nat \<Rightarrow> string \<Rightarrow> scheduler_state \<Rightarrow> scheduler_state result" where
  "Scheduler_ctor run_cb threadNum name w =
     rbind (assert_r (threadNum > 0)) (\<lambda>_.
     let (fiber, w1) = Fiber_ctor (Some run_cb) 0 (w\<lparr>sc_name := name, threadCount := threadNum\<rparr>) in
     Inr (w1\<lparr>m_main_fiber := Some fiber\<rparr>))"

(* net/Scheduler.cc 49: Scheduler::~Scheduler *)
definition Scheduler_dtor :: "scheduler_state \<Rightarrow> scheduler_state result" where
  "Scheduler_dtor w =
     rbind (assert_r (clean w)) (\<lambda>_.
       Inr (if is_thread_scheduler w then w\<lparr>is_thread_scheduler := False\<rparr> else w))"

fun start_threads :: "nat list \<Rightarrow> scheduler_state \<Rightarrow> scheduler_state" where
  "start_threads [] w = w"
| "start_threads (i # is) w =
     start_threads is (w\<lparr>threads := (threads w)[i := ''Scheduler::Thread '' @ show_nat i],
                         threadsId := threadsId w @ [i]\<rparr>)"

(* net/Scheduler.cc 60: Scheduler::start *)
definition start :: "scheduler_state \<Rightarrow> scheduler_state result" where
  "start w =
     (if \<not> clean w then Inr w
      else rbind (assert_r (threads w = [])) (\<lambda>_.
        Inr (start_threads [0..<threadCount w]
               (w\<lparr>clean := False, threads := resize [] (threadCount w) (threads w)\<rparr>))))"

(* net/Scheduler.cc 80: Scheduler::stop *)
definition stop :: "scheduler_state \<Rightarrow> scheduler_state result" where
  "stop w =
     (let w1 = w\<lparr>autoStop := True\<rparr>;
          w2 = (if threadCount w1 = 0 then w1\<lparr>clean := True\<rparr> else w1) in
      if threadCount w1 = 0 \<and> IsClean w2 then Inr w2
      else rbind (assert_r (\<not> is_thread_scheduler w2)) (\<lambda>_. Inr (w2\<lparr>clean := True\<rparr>)))"

text \<open>What a callback's calls of the two overloads do.\<close>

fun sched_call :: "instr \<Rightarrow> scheduler_state \<Rightarrow> scheduler_state result" where
  "sched_call (Call_scheduler cb) w = Inr (scheduler (Some cb) w)"
| "sched_call (Call_scheduler_fiber q) w = Inr (scheduler_fiber q w)"
| "sched_call _ w = Inr w"

(* net/Scheduler.cc 189: Scheduler::Idle *)
definition Idle :: callback where
  "Idle = [Idle_loop]"

(* net/Scheduler.cc 127-142: Scheduler::run, the locked search of pendingFunctors *)
fun take_pending :: "fiber list \<Rightarrow> nat list \<Rightarrow> (nat option \<times> nat list) result" where
  "take_pending fs [] = Inr (None, [])"
| "take_pending fs (it # its) =
     (if it < length fs
      then if f_state (fs ! it) = INIT \<or> f_state (fs ! it) = HOLD \<or> f_state (fs ! it) = READY
        then Inr (Some it, its)
        else rbind (take_pending fs its) (\<lambda>(d, rest). Inr (d, it # rest))
      else Inl Undefined_behaviour)"

abbreviation sched_swapIn :: "nat \<Rightarrow> scheduler_state \<Rightarrow> scheduler_state result" where
  "sched_swapIn \<equiv> swapIn sched_call IsClean"

(* net/Scheduler.cc 148-159: Scheduler::run, the branch that has a fiber *)
definition run_doing :: "nat \<Rightarrow> scheduler_state \<Rightarrow> scheduler_state result" where
  "run_doing doing w =
     rbind (sched_swapIn doing (w\<lparr>activeThreadCount := activeThreadCount w + 1\<rparr>)) (\<lambda>w1.
     let w2 = w1\<lparr>activeThreadCount := activeThreadCount w1 - 1\<rparr> in
     rbind (get_fiber doing w2) (\<lambda>f.
       if f_state f = READY then Inr (scheduler (f_cb f) w2)
       else if f_state f \<noteq> FTERM \<and> f_state f \<noteq> EXCEPTION
       then Inr (set_fiber doing (f\<lparr>f_state := HOLD\<rparr>) w2)
       else Inr w2))"

(* net/Scheduler.cc 160-175: Scheduler::run, the branch without a fiber *)
definition run_idle :: "nat \<Rightarrow> scheduler_state \<Rightarrow> (bool \<times> scheduler_state) result" where
  "run_idle idleFiber w =
     rbind (get_fiber idleFiber w) (\<lambda>f.
       if f_state f = EXCEPTION \<or> f_state f = FTERM then Inr (True, w)
       else rbind (sched_swapIn idleFiber (w\<lparr>idleThreadCount := idleThreadCount w + 1\<rparr>)) (\<lambda>w1.
            rbind (get_fiber idleFiber w1) (\<lambda>f1.
            let w2 = (if f_state f1 \<noteq> EXCEPTION \<and> f_state f1 \<noteq> FTERM
                      then set_fiber idleFiber (f1\<lparr>f_state := HOLD\<rparr>) w1 else w1) in
            Inr (False, w2\<lparr>idleThreadCount := idleThreadCount w2 - 1\<rparr>))))"

(* net/Scheduler.cc 122-176: Scheduler::run, the body of the loop *)
definition run_iteration :: "nat \<Rightarrow> scheduler_state \<Rightarrow> (bool \<times> scheduler_state) result" where
  "run_iteration idleFiber w =
     rbind (take_pending (fibers w) (pendingFunctors w)) (\<lambda>(doing, rest).
     case doing of
       Some p \<Rightarrow> rbind (run_doing p (Wakeup (w\<lparr>pendingFunctors := rest\<rparr>))) (\<lambda>w1. Inr (False, w1))
     | None \<Rightarrow> run_idle idleFiber w)"

fun run_loop :: "nat \<Rightarrow> nat \<Rightarrow> scheduler_state \<Rightarrow> scheduler_state option result" where
  "run_loop 0 idleFiber w = Inr None"
| "run_loop (Suc n) idleFiber w =
     rbind (run_iteration idleFiber w) (\<lambda>(stopped, w1).
       if stopped then Inr (Some w1) else run_loop n idleFiber w1)"

(* net/Scheduler.cc 114-121: Scheduler::run, before the loop *)
definition run_start :: "scheduler_state \<Rightarrow> nat \<times> scheduler_state" where
  "run_start w =
     (let (mf, w1) = GetThreadCurrentFiber (setThreadScheduler w) in
      Fiber_ctor (Some Idle) 0 (w1\<lparr>sched_main_fiber := Some mf\<rparr>))"

(* net/Scheduler.cc 114: Scheduler::run *)
definition run :: "nat \<Rightarrow> scheduler_state \<Rightarrow> scheduler_state option result" where
  "run fuel w = (let (idleFiber, w1) = run_start w in run_loop fuel idleFiber w1)"

section \<open>The worker is safe\<close>

definition sched_inv :: "scheduler_state \<Rightarrow> bool" where
  "sched_inv w \<longleftrightarrow> (\<forall>q \<in> set (pendingFunctors w). q < length (fibers w))"

lemma pending_more:
  "fiber_world.more w' = fiber_world.more w \<Longrightarrow>
   pendingFunctors (w' :: scheduler_state) = pendingFunctors w"
  by (cases w, cases w') simp

lemma scheduler_fields [simp]:
  "fibers (scheduler cb w) = fibers w @ [\<lparr>f_id = s_fiber_id w + 1,
     f_stacksize = word_of_int (g_fiber_stack_size w), f_state = INIT, f_ctx = Ctx_start,
     f_stack = True, f_cb = cb\<rparr>]"
  "pendingFunctors (scheduler cb w) = pendingFunctors w @ [length (fibers w)]"
  "sched_main_fiber (scheduler cb w) = sched_main_fiber w"
  "thread_current_fiber (scheduler cb w) = thread_current_fiber w"
  "trace (scheduler cb w) = trace w"
  "autoStop (scheduler cb w) = autoStop w" "clean (scheduler cb w) = clean w"
  "activeThreadCount (scheduler cb w) = activeThreadCount w"
  "idleThreadCount (scheduler cb w) = idleThreadCount w"
  by (simp_all add: scheduler_def schedulerNoLock_def Fiber_ctor_def Wakeup_def Let_def)

lemma running_scheduler: "running mf p w \<Longrightarrow> cb_ok (length (fibers w)) cb \<Longrightarrow> running mf p (scheduler cb w)"
  by (rule running_grow) simp_all

lemma resting_scheduler: "resting mf w \<Longrightarrow> cb_ok (length (fibers w)) cb \<Longrightarrow> resting mf (scheduler cb w)"
  by (rule resting_grow) simp_all

interpretation fh: fiber_host sched_call IsClean sched_inv
proof unfold_locales
  fix w w' :: scheduler_state
  assume a: "sched_inv w" "length (fibers w') = length (fibers w)" "fiber_world.more w' = fiber_world.more w"
  show "sched_inv w'" using a(1,2) pending_more [OF a(3)] by (simp add: sched_inv_def)
next
  fix mf p and w :: scheduler_state and i
  assume a: "running mf p w" "sched_inv w" "instr_ok (length (fibers w)) i"
  show "rsafe (\<lambda>w'. running mf p w' \<and> sched_inv w' \<and> length (fibers w) \<le> length (fibers w')) (sched_call i w)"
  proof (cases i)
    case (Call_scheduler b)
    then show ?thesis using a running_scheduler [of mf p w "Some b"] by (auto simp: sched_inv_def)
  next
    case (Call_scheduler_fiber q)
    have "running mf p (scheduler_fiber q w)"
      by (rule running_fiber_fields [OF a(1)]) (simp_all add: scheduler_fiber_def)
    then show ?thesis using a Call_scheduler_fiber by (auto simp: sched_inv_def scheduler_fiber_def)
  qed (use a in auto)
qed

lemma take_pending_spec:
  "\<forall>q \<in> set ps. q < length fs \<Longrightarrow>
   \<exists>d rest. take_pending fs ps = Inr (d, rest) \<and> set rest \<subseteq> set ps
     \<and> (\<forall>p. d = Some p \<longrightarrow> p \<in> set ps \<and> f_state (fs ! p) \<in> {INIT, HOLD, READY})
     \<and> (d = None \<longrightarrow> rest = ps \<and> (\<forall>p \<in> set ps. f_state (fs ! p) \<notin> {INIT, HOLD, READY}))"
proof (induction ps)
  case (Cons a ps)
  then obtain d rest where "take_pending fs ps = Inr (d, rest)" by auto
  with Cons show ?case by (cases d) auto
qed simp

lemma resting_hold:
  assumes "resting mf w" "p \<noteq> mf" "p < length (fibers w)" "f_ctx (fibers w ! p) \<noteq> Ctx_start"
    and "f_state (fibers w ! p) \<noteq> FTERM" "f_state (fibers w ! p) \<noteq> EXCEPTION"
  shows "resting mf (set_fiber p ((fibers w ! p)\<lparr>f_state := HOLD\<rparr>) w)"
proof -
  have "fiber_ok (length (fibers w)) (fibers w ! p)" using assms by (simp add: resting_def others_ok_def)
  then have "fiber_ok (length (fibers w)) ((fibers w ! p)\<lparr>f_state := HOLD\<rparr>)"
    using assms by (auto simp: fiber_ok_def split: fcontext.splits)
  then show ?thesis using assms by (auto simp: resting_def others_ok_def nth_list_update)
qed

lemma resting_cb_ok:
  "resting mf w \<Longrightarrow> p \<noteq> mf \<Longrightarrow> p < length (fibers w) \<Longrightarrow>
   cb_ok (length (fibers w)) (f_cb (fibers w ! p))"
  by (auto simp: resting_def others_ok_def fiber_ok_def)

lemma main_not_pickable: "resting mf w \<Longrightarrow> f_state (fibers w ! p) \<in> {INIT, HOLD, READY} \<Longrightarrow> p \<noteq> mf"
  by (auto simp: resting_def others_ok_def)

lemma run_doing_ok:
  assumes r: "resting mf w" and i: "sched_inv w" and p: "p < length (fibers w)" "p \<noteq> mf"
    and st: "f_state (fibers w ! p) \<in> {INIT, HOLD, READY}"
  shows "rsafe (\<lambda>w'. resting mf w' \<and> sched_inv w' \<and> length (fibers w) \<le> length (fibers w')) (run_doing p w)"
proof -
  let ?a = "w\<lparr>activeThreadCount := activeThreadCount w + 1\<rparr>"
  have "resting mf ?a" by (rule resting_fiber_fields [OF r]) simp_all
  moreover have "sched_inv ?a" using i by (simp add: sched_inv_def)
  ultimately have sw: "rsafe (came_back sched_inv mf p (length (fibers w))) (sched_swapIn p ?a)"
    using fh.swapIn_ok [of mf ?a p] p st by simp
  show ?thesis unfolding run_doing_def
  proof (rule rsafe_bind [OF sw])
    fix x
    assume x: "came_back sched_inv mf p (length (fibers w)) x"
    let ?b = "x\<lparr>activeThreadCount := activeThreadCount x - 1\<rparr>"
    have b: "resting mf ?b" "sched_inv ?b" "length (fibers w) \<le> length (fibers ?b)"
        "p < length (fibers ?b)" "f_ctx (fibers ?b ! p) \<noteq> Ctx_start"
      using x p resting_fiber_fields [of mf x ?b] by (auto simp: came_back_def sched_inv_def)
    have ready: "resting mf (scheduler (f_cb (fibers ?b ! p)) ?b)"
      by (rule resting_scheduler [OF b(1) resting_cb_ok [OF b(1) p(2) b(4)]])
    have hold: "resting mf (set_fiber p ((fibers ?b ! p)\<lparr>f_state := HOLD\<rparr>) ?b)"
      if "f_state (fibers ?b ! p) \<noteq> FTERM" "f_state (fibers ?b ! p) \<noteq> EXCEPTION"
      by (rule resting_hold [OF b(1) p(2) b(4,5) that])
    show "rsafe (\<lambda>w'. resting mf w' \<and> sched_inv w' \<and> length (fibers w) \<le> length (fibers w'))
      (let w2 = ?b in rbind (get_fiber p w2) (\<lambda>f.
        if f_state f = READY then Inr (scheduler (f_cb f) w2)
        else if f_state f \<noteq> FTERM \<and> f_state f \<noteq> EXCEPTION
        then Inr (set_fiber p (f\<lparr>f_state := HOLD\<rparr>) w2) else Inr w2))"
      using b ready hold by (auto simp: Let_def sched_inv_def less_Suc_eq set_fiber_def)
  qed
qed

lemma run_idle_ok:
  assumes r: "resting mf w" and i: "sched_inv w" and p: "p < length (fibers w)" "p \<noteq> mf"
  shows "rsafe (\<lambda>(_, w'). resting mf w' \<and> sched_inv w' \<and> length (fibers w) \<le> length (fibers w')) (run_idle p w)"
proof -
  let ?a = "w\<lparr>idleThreadCount := idleThreadCount w + 1\<rparr>"
  have f: "fiber_ok (length (fibers w)) (fibers w ! p)"
    using r p by (simp add: resting_def others_ok_def)
  have "resting mf ?a" by (rule resting_fiber_fields [OF r]) simp_all
  moreover have "sched_inv ?a" using i by (simp add: sched_inv_def)
  moreover have "f_state (fibers w ! p) \<in> {INIT, HOLD, READY}"
    if "f_state (fibers w ! p) \<noteq> FTERM" "f_state (fibers w ! p) \<noteq> EXCEPTION"
    using f that by (auto simp: fiber_ok_def split: fcontext.splits)
  ultimately have sw: "rsafe (came_back sched_inv mf p (length (fibers w))) (sched_swapIn p ?a)"
    if "f_state (fibers w ! p) \<noteq> FTERM" "f_state (fibers w ! p) \<noteq> EXCEPTION"
    using fh.swapIn_ok [of mf ?a p] p that by simp
  have ret: "rsafe (\<lambda>(_, w'). resting mf w' \<and> sched_inv w' \<and> length (fibers w) \<le> length (fibers w'))
      (rbind (get_fiber p x) (\<lambda>f1.
        let w2 = (if f_state f1 \<noteq> EXCEPTION \<and> f_state f1 \<noteq> FTERM
                  then set_fiber p (f1\<lparr>f_state := HOLD\<rparr>) x else x) in
        Inr (False, w2\<lparr>idleThreadCount := idleThreadCount w2 - 1\<rparr>)))"
    if x: "came_back sched_inv mf p (length (fibers w)) x" for x
  proof -
    let ?x = "if f_state (fibers x ! p) \<noteq> EXCEPTION \<and> f_state (fibers x ! p) \<noteq> FTERM
                  then set_fiber p ((fibers x ! p)\<lparr>f_state := HOLD\<rparr>) x else x"
    have px: "p < length (fibers x)" using x p by (simp add: came_back_def)
    have "resting mf ?x" using x px p resting_hold [of mf x p] by (simp add: came_back_def)
    then have "resting mf (?x\<lparr>idleThreadCount := idleThreadCount ?x - 1\<rparr>)"
      by (rule resting_fiber_fields) simp_all
    then show ?thesis using x px by (simp add: Let_def came_back_def sched_inv_def set_fiber_def)
  qed
  show ?thesis
    using r i p rsafe_bind [OF sw ret] by (simp add: run_idle_def)
qed

lemma run_iteration_ok:
  assumes r: "resting mf w" and i: "sched_inv w" and p: "idle < length (fibers w)" "idle \<noteq> mf"
  shows "rsafe (\<lambda>(_, w'). resting mf w' \<and> sched_inv w' \<and> length (fibers w) \<le> length (fibers w'))
    (run_iteration idle w)"
proof -
  obtain d rest where t: "take_pending (fibers w) (pendingFunctors w) = Inr (d, rest)"
      "set rest \<subseteq> set (pendingFunctors w)"
      "\<And>p. d = Some p \<Longrightarrow> p \<in> set (pendingFunctors w) \<and> f_state (fibers w ! p) \<in> {INIT, HOLD, READY}"
    using take_pending_spec [of "pendingFunctors w" "fibers w"] i by (auto simp: sched_inv_def)
  show ?thesis
  proof (cases d)
    case None
    then show ?thesis using t run_idle_ok [OF assms] by (simp add: run_iteration_def)
  next
    case (Some q)
    let ?w = "Wakeup (w\<lparr>pendingFunctors := rest\<rparr>)"
    have q: "q < length (fibers w)" "f_state (fibers w ! q) \<in> {INIT, HOLD, READY}"
      using t(3) [OF Some] i by (auto simp: sched_inv_def)
    have "resting mf ?w" by (rule resting_fiber_fields [OF r]) (simp_all add: Wakeup_def)
    moreover have "sched_inv ?w" using i t(2) by (auto simp: sched_inv_def Wakeup_def)
    ultimately have "rsafe (\<lambda>w'. resting mf w' \<and> sched_inv w' \<and> length (fibers w) \<le> length (fibers w')) (run_doing q ?w)"
      using run_doing_ok [of mf ?w q] q main_not_pickable [OF r q(2)] by (simp add: Wakeup_def)
    then show ?thesis using Some t(1) by (auto simp: run_iteration_def intro: rsafe_bind)
  qed
qed

lemma run_loop_ok:
  "resting mf w \<Longrightarrow> sched_inv w \<Longrightarrow> idle < length (fibers w) \<Longrightarrow> idle \<noteq> mf \<Longrightarrow>
   rsafe (\<lambda>r. \<forall>w'. r = Some w' \<longrightarrow> resting mf w' \<and> sched_inv w') (run_loop n idle w)"
proof (induction n arbitrary: w)
  case (Suc n)
  show ?case unfolding run_loop.simps
  proof (rule rsafe_bind [OF run_iteration_ok [OF Suc.prems]])
    fix x :: "bool \<times> scheduler_state"
    assume "case x of (_, w') \<Rightarrow> resting mf w' \<and> sched_inv w' \<and> length (fibers w) \<le> length (fibers w')"
    then show "rsafe (\<lambda>r. \<forall>w'. r = Some w' \<longrightarrow> resting mf w' \<and> sched_inv w')
        (case x of (stopped, w1) \<Rightarrow> if stopped then Inr (Some w1) else run_loop n idle w1)"
      using Suc.IH [of "snd x"] Suc.prems(3,4) by (cases x) auto
  qed
qed simp

text \<open>A thread that has not used fibers yet, with only unstarted fibers in existence.\<close>

definition unstarted :: "scheduler_state \<Rightarrow> bool" where
  "unstarted w \<longleftrightarrow> thread_current_fiber w = None \<and> sched_inv w
     \<and> (\<forall>f \<in> set (fibers w). fiber_ok (length (fibers w)) f)"

lemma run_start_resting:
  assumes "unstarted w"
  shows "run_start w = (idle, w1) \<Longrightarrow> resting (length (fibers w)) w1 \<and> sched_inv w1
     \<and> idle = Suc (length (fibers w)) \<and> length (fibers w1) = Suc (Suc (length (fibers w)))
     \<and> pendingFunctors w1 = pendingFunctors w \<and> trace w1 = trace w
     \<and> autoStop w1 = autoStop w \<and> clean w1 = clean w \<and> activeThreadCount w1 = activeThreadCount w
     \<and> (\<forall>p < length (fibers w). fibers w1 ! p = fibers w ! p)
     \<and> f_state (fibers w1 ! idle) = INIT \<and> f_cb (fibers w1 ! idle) = Some Idle \<and> f_ctx (fibers w1 ! idle) = Ctx_start"
proof -
  have old: "fiber_ok (Suc (Suc (length (fibers w)))) (fibers w ! q)" if "q < length (fibers w)" for q
    using assms that fiber_ok_mono [of "length (fibers w)"] by (simp add: unstarted_def)
  assume "run_start w = (idle, w1)"
  then have w1: "idle = Suc (length (fibers w))"
      "w1 = snd (run_start w)" by (auto simp: run_start_def GetThreadCurrentFiber_def Fiber_main_ctor_def
        Fiber_ctor_def setThreadScheduler_def Let_def split: option.splits prod.splits)
        (use assms in \<open>auto simp: unstarted_def\<close>)
  show ?thesis
    using assms old unfolding w1
    by (auto simp: unstarted_def run_start_def GetThreadCurrentFiber_def Fiber_main_ctor_def Fiber_ctor_def
        setThreadScheduler_def Let_def resting_def others_ok_def sched_inv_def nth_append less_Suc_eq
        fiber_ok_def [of _ "_\<lparr>f_id := _\<rparr>"] Idle_def new_fiber_ok)
qed

section \<open>Draining the queue\<close>

text \<open>
  Callbacks that only work, schedule further such callbacks, throw, or yield to HOLD;
  what such a callback does until it gives up control (\<open>works\<close>), what it schedules
  (\<open>spawned\<close>), and the reference: a first-in-first-out queue of callbacks, each run
  once (\<open>fifo\<close>).
\<close>

fun plain :: "instr \<Rightarrow> bool" where
  "plain (Work n) = True"
| "plain Throw = True"
| "plain Yield_to_hold = True"
| "plain (Call_scheduler b) = list_all plain b"
| "plain _ = False"

fun weight :: "instr \<Rightarrow> nat" where
  "weight (Call_scheduler b) = Suc (Suc (sum_list (map weight b)))"
| "weight _ = 1"

abbreviation weights :: "instr list \<Rightarrow> nat" where
  "weights b \<equiv> Suc (sum_list (map weight b))"

fun works :: "instr list \<Rightarrow> nat list" where
  "works (Work n # b) = n # works b"
| "works (Call_scheduler c # b) = works b"
| "works _ = []"

fun spawned :: "instr list \<Rightarrow> instr list list" where
  "spawned (Work n # b) = spawned b"
| "spawned (Call_scheduler c # b) = c # spawned b"
| "spawned _ = []"

lemma spawned_weight: "sum_list (map weights (spawned b)) \<le> sum_list (map weight b)"
  by (induction b rule: spawned.induct) auto

lemma spawned_plain: "list_all plain b \<Longrightarrow> list_all (list_all plain) (spawned b)"
  by (induction b rule: spawned.induct) auto

lemma plain_ok: "plain i \<Longrightarrow> instr_ok n i"
  by (induction i rule: plain.induct) (auto simp: list_all_iff)

lemma plain_body_ok: "list_all plain b \<Longrightarrow> body_ok n b"
  by (auto simp: list_all_iff plain_ok)

function fifo :: "instr list list \<Rightarrow> nat list" where
  "fifo [] = []"
| "fifo (b # q) = works b @ fifo (q @ spawned b)"
  by pat_completeness auto
termination
  by (relation "measure (\<lambda>q. sum_list (map weights q))") (use spawned_weight in \<open>auto simp: less_Suc_eq_le\<close>)

definition queue_of :: "scheduler_state \<Rightarrow> callback list" where
  "queue_of w = map (\<lambda>p. the (f_cb (fibers w ! p))) (pendingFunctors w)"

definition fresh_fiber :: "fiber \<Rightarrow> bool" where
  "fresh_fiber f \<longleftrightarrow> f_state f = INIT \<and> f_ctx f = Ctx_start \<and> f_cb f \<noteq> None"

definition fresh_queue :: "scheduler_state \<Rightarrow> bool" where
  "fresh_queue w \<longleftrightarrow> distinct (pendingFunctors w)
     \<and> (\<forall>p \<in> set (pendingFunctors w). p < length (fibers w) \<and> fresh_fiber (fibers w ! p))"

text \<open>How the state changes while fiber \<open>p\<close> runs the callback \<open>b\<close>.\<close>

definition ran_body :: "nat \<Rightarrow> instr list \<Rightarrow> scheduler_state \<Rightarrow> scheduler_state \<Rightarrow> bool" where
  "ran_body p b w w' \<longleftrightarrow> trace w' = trace w @ works b \<and> fresh_queue w'
     \<and> queue_of w' = queue_of w @ spawned b \<and> p \<notin> set (pendingFunctors w')
     \<and> f_state (fibers w' ! p) \<noteq> READY
     \<and> length (fibers w) \<le> length (fibers w')
     \<and> (\<forall>q < length (fibers w). q \<noteq> p \<longrightarrow> fibers w' ! q = fibers w ! q)
     \<and> (\<forall>q \<in> set (pendingFunctors w'). q \<in> set (pendingFunctors w) \<or> length (fibers w) \<le> q)
     \<and> autoStop w' = autoStop w \<and> clean w' = clean w \<and> activeThreadCount w' = activeThreadCount w"

lemma fresh_scheduler:
  assumes "fresh_queue w"
  shows "fresh_queue (scheduler (Some b) w)" "queue_of (scheduler (Some b) w) = queue_of w @ [b]"
proof -
  have "\<forall>p \<in> set (pendingFunctors w). p < length (fibers w)" using assms by (simp add: fresh_queue_def)
  then show "fresh_queue (scheduler (Some b) w)" "queue_of (scheduler (Some b) w) = queue_of w @ [b]"
    using assms by (auto simp: fresh_queue_def queue_of_def fresh_fiber_def nth_append)
qed

lemma scheduler_state_leave [simp]:
  "pendingFunctors (leave mf p f w) = pendingFunctors w" "autoStop (leave mf p f w) = autoStop w"
  "clean (leave mf p f w) = clean w" "activeThreadCount (leave mf p f w) = activeThreadCount w"
  by (simp_all add: leave_def set_fiber_def SetThreadCurrentFiber_def)

lemma queue_cong:
  assumes "pendingFunctors w' = pendingFunctors w" "length (fibers w') = length (fibers w)"
    and "\<And>q. q \<in> set (pendingFunctors w) \<Longrightarrow> fibers w' ! q = fibers w ! q"
  shows "queue_of w' = queue_of w \<and> fresh_queue w' = fresh_queue w"
  using assms by (simp add: queue_of_def fresh_queue_def)

lemma ran_body_leave:
  assumes "running mf p w" "fresh_queue w" "p \<notin> set (pendingFunctors w)" "works b = []" "spawned b = []"
    and "f_state f \<noteq> READY"
  shows "ran_body p b w (leave mf p f w)"
proof -
  have "fibers (leave mf p f w) ! q = fibers w ! q" if "q \<in> set (pendingFunctors w)" for q
    using assms(3) that by (metis leave_simps(1) nth_list_update_neq)
  then have "queue_of (leave mf p f w) = queue_of w \<and> fresh_queue (leave mf p f w) = fresh_queue w"
    by (intro queue_cong) simp_all
  then show ?thesis
    using assms by (auto simp: ran_body_def running_def)
qed

lemma ran_body_call:
  assumes "fresh_queue w" and r: "ran_body p b (scheduler (Some c) w) w'"
  shows "ran_body p (Call_scheduler c # b) w w'"
proof -
  have "fibers w' ! q = fibers w ! q" if "q < length (fibers w)" "q \<noteq> p" for q
  proof -
    have "fibers w' ! q = fibers (scheduler (Some c) w) ! q" using r that by (simp add: ran_body_def)
    also have "\<dots> = fibers w ! q" using that by (simp add: nth_append)
    finally show ?thesis .
  qed
  moreover have "q \<in> set (pendingFunctors w) \<or> length (fibers w) \<le> q" if "q \<in> set (pendingFunctors w')" for q
  proof -
    have "q \<in> set (pendingFunctors (scheduler (Some c) w)) \<or> length (fibers (scheduler (Some c) w)) \<le> q"
      using r that unfolding ran_body_def by blast
    then show ?thesis by auto
  qed
  ultimately show ?thesis
    using r fresh_scheduler(2) [OF assms(1)] by (simp add: ran_body_def)
qed

lemma run_body_plain:
  "running mf p w \<Longrightarrow> fresh_queue w \<Longrightarrow> p \<notin> set (pendingFunctors w) \<Longrightarrow> list_all plain b \<Longrightarrow>
   \<exists>w'. run_body sched_call IsClean p b w = Inr w' \<and> ran_body p b w w'"
proof (induction b arbitrary: w)
  case Nil
  then show ?case by (simp add: run_return_running ran_body_leave)
next
  case (Cons i b)
  show ?case
  proof (cases i)
    case (Work n)
    let ?w = "w\<lparr>trace := trace w @ [n]\<rparr>"
    have "\<exists>w'. run_body sched_call IsClean p b ?w = Inr w' \<and> ran_body p b ?w w'"
      using Cons.prems running_more_cong by (intro Cons.IH) (auto simp: fresh_queue_def)
    then show ?thesis using Work by (auto simp: ran_body_def queue_of_def)
  next
    case (Call_scheduler c)
    let ?w = "scheduler (Some c) w"
    have "p < length (fibers w)" using Cons.prems(1) by (simp add: running_def)
    moreover have "running mf p ?w"
      using Cons.prems Call_scheduler by (intro running_scheduler) (simp_all add: plain_body_ok)
    ultimately have "\<exists>w'. run_body sched_call IsClean p b ?w = Inr w' \<and> ran_body p b ?w w'"
      using Cons.prems fresh_scheduler by (intro Cons.IH) auto
    then show ?thesis using Call_scheduler ran_body_call [OF Cons.prems(2)] by auto
  qed (use Cons.prems in \<open>auto simp: run_catch_running YieldToHold_def yield_as_running
        intro!: ran_body_leave\<close>)
qed

lemma scheduler_state_enter [simp]:
  "pendingFunctors (enter p w) = pendingFunctors w" "autoStop (enter p w) = autoStop w"
  "clean (enter p w) = clean w" "activeThreadCount (enter p w) = activeThreadCount w"
  by (simp_all add: enter_def set_fiber_def SetThreadCurrentFiber_def)

lemma ran_body_other_start:
  assumes "ran_body p b v w'" "trace v = trace w" "pendingFunctors v = pendingFunctors w"
    "length (fibers v) = length (fibers w)" "p \<notin> set (pendingFunctors w)"
    "\<And>q. q \<noteq> p \<Longrightarrow> fibers v ! q = fibers w ! q" "autoStop v = autoStop w" "clean v = clean w"
    "activeThreadCount v = activeThreadCount w"
  shows "ran_body p b w w'"
proof -
  have "fibers v ! q = fibers w ! q" if "q \<in> set (pendingFunctors w)" for q
    using assms(5) that by (intro assms(6)) auto
  then have "queue_of v = queue_of w" using queue_cong assms(3,4) by blast
  then show ?thesis using assms by (simp add: ran_body_def)
qed

lemma swapIn_fresh:
  assumes "resting mf w" "p < length (fibers w)" "p \<noteq> mf" "fresh_queue w" "p \<notin> set (pendingFunctors w)"
    "f_state (fibers w ! p) = INIT" "f_ctx (fibers w ! p) = Ctx_start" "f_cb (fibers w ! p) = Some b"
    "list_all plain b"
  shows "\<exists>w'. sched_swapIn p w = Inr w' \<and> ran_body p b w w'"
proof -
  have "fibers (enter p w) ! q = fibers w ! q" if "q \<in> set (pendingFunctors w)" for q
    using assms(5) that by (metis enter_simps(1) nth_list_update_neq)
  then have "fresh_queue (enter p w)" using queue_cong [of "enter p w" w] assms(4) by simp
  then obtain w' where w': "run_body sched_call IsClean p b (enter p w) = Inr w'" "ran_body p b (enter p w) w'"
    using run_body_plain [OF enter_running [OF assms(1-3)] _ _ assms(9)] assms(5) by auto
  have "ran_body p b w w'" by (rule ran_body_other_start [OF w'(2)]) (use assms(5) in auto)
  then show ?thesis using w'(1) assms by (simp add: swapIn_resting)
qed

lemma run_doing_plain:
  assumes "resting mf w" "p < length (fibers w)" "p \<noteq> mf" "fresh_queue w" "p \<notin> set (pendingFunctors w)"
    "f_state (fibers w ! p) = INIT" "f_ctx (fibers w ! p) = Ctx_start" "f_cb (fibers w ! p) = Some b"
    "list_all plain b"
  shows "\<exists>w'. run_doing p w = Inr w' \<and> ran_body p b w w'"
proof -
  let ?w = "w\<lparr>activeThreadCount := activeThreadCount w + 1\<rparr>"
  have r: "resting mf ?w" by (rule resting_fiber_fields [OF assms(1)]) simp_all
  have "fresh_queue ?w" using assms(4) by (simp add: fresh_queue_def)
  then obtain v where v: "sched_swapIn p ?w = Inr v" "ran_body p b ?w v"
    using swapIn_fresh [OF r, of p b] assms by auto
  let ?v = "v\<lparr>activeThreadCount := activeThreadCount v - 1\<rparr>"
  let ?x = "set_fiber p ((fibers v ! p)\<lparr>f_state := HOLD\<rparr>) ?v"
  have pv: "p < length (fibers v)" "f_state (fibers v ! p) \<noteq> READY" "p \<notin> set (pendingFunctors v)"
    using v(2) assms(2) by (auto simp: ran_body_def)
  have xv: "fibers ?x ! q = fibers v ! q" if "q \<noteq> p" for q using that by simp
  have x: "trace ?x = trace v" "pendingFunctors ?x = pendingFunctors v" "autoStop ?x = autoStop v" "clean ?x = clean v"
      "activeThreadCount ?x = activeThreadCount v - 1" "length (fibers ?x) = length (fibers v)"
    by (simp_all add: set_fiber_def)
  have "fibers ?x ! q = fibers v ! q" if "q \<in> set (pendingFunctors v)" for q
    using pv(3) that by (intro xv) auto
  then have qx: "queue_of ?x = queue_of v \<and> fresh_queue ?x = fresh_queue v" by (intro queue_cong) (simp_all add: set_fiber_def)
  have qv: "queue_of ?v = queue_of v \<and> fresh_queue ?v = fresh_queue v" "queue_of ?w = queue_of w"
    by (auto simp: queue_of_def fresh_queue_def)
  have "ran_body p b w ?v" using v(2) qv by (simp add: ran_body_def)
  moreover have "ran_body p b w ?x"
    using v(2) qx qv(2) x xv pv by (simp add: ran_body_def)
  moreover have "run_doing p w = Inr ?v \<or> run_doing p w = Inr ?x"
    using v(1) pv by (simp add: run_doing_def Let_def)
  ultimately show ?thesis by blast
qed

lemma run_iteration_plain:
  assumes "resting mf w" "fresh_queue w" "pendingFunctors w = p # ps" "list_all (list_all plain) (queue_of w)"
    and "idle < length (fibers w)" "idle \<notin> set (pendingFunctors w)"
  shows "\<exists>w'. run_iteration idle w = Inr (False, w') \<and> trace w' = trace w @ works (hd (queue_of w))
     \<and> fresh_queue w' \<and> queue_of w' = tl (queue_of w) @ spawned (hd (queue_of w))
     \<and> fibers w' ! idle = fibers w ! idle \<and> idle < length (fibers w') \<and> idle \<notin> set (pendingFunctors w')
     \<and> autoStop w' = autoStop w \<and> clean w' = clean w \<and> activeThreadCount w' = activeThreadCount w"
proof -
  let ?w = "Wakeup (w\<lparr>pendingFunctors := ps\<rparr>)"
  have r: "resting mf ?w" by (rule resting_fiber_fields [OF assms(1)]) (simp_all add: Wakeup_def)
  have p: "p < length (fibers w)" "fresh_fiber (fibers w ! p)" "p \<notin> set ps"
    using assms(2,3) by (auto simp: fresh_queue_def)
  then obtain b where b: "f_cb (fibers w ! p) = Some b" by (auto simp: fresh_fiber_def)
  have q: "queue_of w = b # queue_of ?w" using assms(3) b by (simp add: queue_of_def Wakeup_def)
  have "p \<noteq> mf" using main_not_pickable [OF assms(1)] p(2) by (auto simp: fresh_fiber_def)
  moreover have "fresh_queue ?w" using assms(2,3) by (auto simp: fresh_queue_def Wakeup_def)
  moreover have "list_all plain b" using assms(4) q by simp
  ultimately obtain w' where w': "run_doing p ?w = Inr w'" "ran_body p b ?w w'"
    using run_doing_plain [OF r, of p b] p b by (auto simp: fresh_fiber_def Wakeup_def)
  have "idle \<noteq> p" using assms(3,6) by auto
  then show ?thesis
    using w' p assms(3,5,6) q by (auto simp: run_iteration_def fresh_fiber_def ran_body_def) (auto simp: Wakeup_def)
qed

lemma idle_ends:
  assumes "resting mf w" "pendingFunctors w = []" "idle < length (fibers w)" "idle \<noteq> mf"
    "f_state (fibers w ! idle) = INIT" "f_ctx (fibers w ! idle) = Ctx_start" "f_cb (fibers w ! idle) = Some Idle"
    "autoStop w" "clean w" "activeThreadCount w = 0"
  shows "\<exists>w'. (\<forall>k. run_loop (Suc (Suc k)) idle w = Inr (Some w')) \<and> trace w' = trace w \<and> pendingFunctors w' = []"
proof -
  let ?a = "w\<lparr>idleThreadCount := idleThreadCount w + 1\<rparr>"
  let ?f = "(fibers (enter idle ?a) ! idle)\<lparr>f_cb := None, f_state := FTERM, f_ctx := Ctx_dead\<rparr>"
  let ?b = "leave mf idle ?f (enter idle ?a)"
  let ?c = "?b\<lparr>idleThreadCount := idleThreadCount ?b - 1\<rparr>"
  have r: "resting mf ?a" by (rule resting_fiber_fields [OF assms(1)]) simp_all
  have e: "running mf idle (enter idle ?a)" by (rule enter_running [OF r]) (use assms in simp_all)
  have "sched_swapIn idle ?a = Inr ?b"
    using assms swapIn_resting [OF r, of idle] run_return_running [OF e] by (simp add: Idle_def IsClean_def)
  then have it: "run_iteration idle w = Inr (False, ?c)"
    using assms by (simp add: run_iteration_def run_idle_def Let_def)
  have st: "f_state (fibers ?c ! idle) = FTERM" "idle < length (fibers ?c)" "pendingFunctors ?c = []"
    using assms by simp_all
  have "run_iteration idle ?c = Inr (True, ?c)"
    unfolding run_iteration_def run_idle_def st(3) using st(1,2) by (simp del: leave_simps)
  with it have "run_loop (Suc (Suc k)) idle w = Inr (Some ?c)" for k by simp
  moreover have "trace ?c = trace w" by simp
  ultimately show ?thesis using st(3) by blast
qed

lemma run_loop_drains:
  "resting mf w \<Longrightarrow> fresh_queue w \<Longrightarrow> list_all (list_all plain) (queue_of w) \<Longrightarrow>
   idle < length (fibers w) \<Longrightarrow> idle \<noteq> mf \<Longrightarrow> idle \<notin> set (pendingFunctors w) \<Longrightarrow>
   f_state (fibers w ! idle) = INIT \<Longrightarrow> f_ctx (fibers w ! idle) = Ctx_start \<Longrightarrow>
   f_cb (fibers w ! idle) = Some Idle \<Longrightarrow> autoStop w \<Longrightarrow> clean w \<Longrightarrow> activeThreadCount w = 0 \<Longrightarrow>
   \<exists>n w'. (\<forall>k. run_loop (n + k) idle w = Inr (Some w')) \<and> trace w' = trace w @ fifo (queue_of w)
     \<and> pendingFunctors w' = []"
proof (induction "queue_of w" arbitrary: w rule: fifo.induct)
  case 1
  then have "pendingFunctors w = []" by (simp add: queue_of_def)
  with 1 show ?case using idle_ends [of mf w idle] by (metis add_Suc fifo.simps(1) append_Nil2)
next
  case (2 b q)
  then obtain p ps where ps: "pendingFunctors w = p # ps" by (cases "pendingFunctors w") (auto simp: queue_of_def)
  have inv: "sched_inv w" using "2.prems"(2) by (simp add: sched_inv_def fresh_queue_def)
  obtain w1 where w1: "run_iteration idle w = Inr (False, w1)" "trace w1 = trace w @ works b" "fresh_queue w1"
      "queue_of w1 = q @ spawned b" "fibers w1 ! idle = fibers w ! idle" "idle < length (fibers w1)"
      "idle \<notin> set (pendingFunctors w1)" "autoStop w1" "clean w1" "activeThreadCount w1 = 0"
    using run_iteration_plain [OF "2.prems"(1,2) ps "2.prems"(3,4,6)] "2.prems"(10-12)
    by (auto simp flip: "2.hyps"(2))
  have r1: "resting mf w1" using rsafeD [OF run_iteration_ok [OF "2.prems"(1) inv "2.prems"(4,5)] w1(1)] by simp
  have "list_all (list_all plain) (q @ spawned b)"
    using "2.prems"(3) spawned_plain by (simp flip: "2.hyps"(2))
  then obtain n w' where n: "\<And>k. run_loop (n + k) idle w1 = Inr (Some w')"
      "trace w' = trace w1 @ fifo (q @ spawned b)" "pendingFunctors w' = []"
    using "2.hyps"(1) [OF w1(4) [symmetric] r1 w1(3)] w1 "2.prems"(5,7-9) by (auto simp: w1(4))
  then have "run_loop (Suc n + k) idle w = Inr (Some w')" for k using w1(1) by simp
  moreover have "trace w' = trace w @ fifo (queue_of w)"
    using n(2) w1(2) by (simp flip: "2.hyps"(2))
  ultimately show ?case using n(3) by blast
qed

section \<open>Yielding to READY\<close>

lemma run_body_works:
  "run_body call isclean p (map Work ns @ b) w = run_body call isclean p b (w\<lparr>trace := trace w @ ns\<rparr>)"
  by (induction ns arbitrary: w) simp_all

lemma run_iteration_ready:
  assumes "resting mf w" "sched_inv w" "pendingFunctors w = p # ps" "fresh_fiber (fibers w ! p)"
    and "f_cb (fibers w ! p) = Some (map Work ns @ Yield_to_ready # rest)"
  shows "\<exists>w'. run_iteration idle w = Inr (False, w') \<and> trace w' = trace w @ ns
     \<and> pendingFunctors w' = ps @ [length (fibers w)] \<and> length (fibers w') = Suc (length (fibers w))
     \<and> fresh_fiber (fibers w' ! length (fibers w))
     \<and> f_cb (fibers w' ! length (fibers w)) = Some (map Work ns @ Yield_to_ready # rest)
     \<and> f_state (fibers w' ! p) = READY \<and> f_ctx (fibers w' ! p) = Ctx_in rest"
proof -
  let ?w = "(Wakeup (w\<lparr>pendingFunctors := ps\<rparr>))\<lparr>activeThreadCount := activeThreadCount w + 1\<rparr>"
  let ?e = "(enter p ?w)\<lparr>trace := trace w @ ns\<rparr>"
  have r: "resting mf ?w" by (rule resting_fiber_fields [OF assms(1)]) (simp_all add: Wakeup_def)
  have st: "f_state (fibers w ! p) = INIT" "f_ctx (fibers w ! p) = Ctx_start"
    using assms(4) by (simp_all add: fresh_fiber_def)
  have p: "p < length (fibers w)" "p \<noteq> mf"
    using assms(2,3) st main_not_pickable [OF assms(1), of p] by (auto simp: sched_inv_def)
  have e: "running mf p ?e" by (rule running_more_cong [OF enter_running [OF r]]) (use p in \<open>simp_all add: Wakeup_def\<close>)
  have w: "fibers ?w = fibers w" "trace ?w = trace w" "pendingFunctors ?w = ps" by (simp_all add: Wakeup_def)
  let ?v = "leave mf p ((fibers ?e ! p)\<lparr>f_state := READY, f_ctx := Ctx_in rest\<rparr>) ?e"
  have "sched_swapIn p ?w = Inr ?v"
    using assms(5) p st swapIn_resting [OF r, of p] w yield_as_running [OF e, of READY rest]
    by (simp add: run_body_works YieldToReady_def)
  moreover have "take_pending (fibers w) (pendingFunctors w) = Inr (Some p, ps)"
    using assms(3) p st by simp
  moreover have "activeThreadCount (Wakeup (w\<lparr>pendingFunctors := ps\<rparr>)) = activeThreadCount w"
    by (simp add: Wakeup_def)
  ultimately show ?thesis
    using p assms(5) w by (simp add: run_iteration_def run_doing_def Let_def fresh_fiber_def nth_append)
qed

section \<open>Properties\<close>

text \<open>
  C3: The worker is safe.  A thread that starts \<^verbatim>\<open>Scheduler::run\<close> with any queue of
  existing fibers, whose callbacks may work, throw, yield, schedule callbacks and
  reschedule existing fibers, never fails one of the assertions of \<^verbatim>\<open>Fiber\<close>, never
  resumes a fiber that has finished (which would end the thread) and never swaps
  through a null main fiber, however long it runs; when it ends, control is back in
  the thread's main fiber.
\<close>

theorem scheduler_run_safe:
  assumes "unstarted w"
  shows "rsafe (\<lambda>r. \<forall>w'. r = Some w' \<longrightarrow> resting (length (fibers w)) w' \<and> sched_inv w') (run n w)"
proof -
  obtain idle w1 where w1: "run_start w = (idle, w1)" by fastforce
  note s = run_start_resting [OF assms w1]
  have "rsafe (\<lambda>r. \<forall>w'. r = Some w' \<longrightarrow> resting (length (fibers w)) w' \<and> sched_inv w') (run_loop n idle w1)"
    by (rule run_loop_ok) (use s in simp_all)
  then show ?thesis by (simp add: run_def w1)
qed

definition empty_scheduler :: scheduler_state where
  "empty_scheduler = \<lparr>fibers = [], s_fiber_count = 0, s_fiber_id = 0, thread_current_fiber = None,
     thread_main_fiber = None, sched_main_fiber = None, g_fiber_stack_size = 1048576, trace = [], sc_name = ''s'',
     m_main_fiber = None, threadCount = 1, threadsId = [], threads = [], pendingFunctors = [],
     activeThreadCount = 0, idleThreadCount = 0, clean = True, autoStop = True, is_thread_scheduler = False,
     wakeups = 0\<rparr>"

definition demo_scheduler :: "callback list \<Rightarrow> scheduler_state" where
  "demo_scheduler bs = scheduler_range (map Some bs) empty_scheduler"

theorem scheduler_run_safe_witness:
  "unstarted (demo_scheduler [[Work 1, Call_scheduler_fiber 0, Yield_to_hold, Work 2]])
   \<and> rsafe (\<lambda>r. \<forall>w'. r = Some w' \<longrightarrow> resting 1 w' \<and> sched_inv w')
       (run 10 (demo_scheduler [[Work 1, Call_scheduler_fiber 0, Yield_to_hold, Work 2]]))"
proof -
  let ?w = "demo_scheduler [[Work 1, Call_scheduler_fiber 0, Yield_to_hold, Work 2]]"
  have u: "unstarted ?w" "length (fibers ?w) = 1"
    by (simp_all add: unstarted_def demo_scheduler_def scheduler_range_def schedulerNoLock_def Fiber_ctor_def
        empty_scheduler_def Wakeup_def Let_def sched_inv_def fiber_ok_def)
  show ?thesis using scheduler_run_safe [OF u(1), of 10] u by simp
qed

text \<open>
  C8: A stopped scheduler finishes.  Once \<^verbatim>\<open>stop\<close> has been called, a worker whose
  queue holds new fibers, whose callbacks work, throw, yield to HOLD or schedule
  callbacks of the same kind, ends after finitely many iterations with an empty
  queue, and the work done is that of a first-in-first-out queue in which every
  callback runs once, callbacks scheduled meanwhile at the end.
\<close>

theorem scheduler_runs_all_in_order:
  assumes "unstarted w" "fresh_queue w" "list_all (list_all plain) (queue_of w)"
    "autoStop w" "clean w" "activeThreadCount w = 0"
  shows "\<exists>n w'. (\<forall>k. run (n + k) w = Inr (Some w')) \<and> trace w' = trace w @ fifo (queue_of w)
     \<and> pendingFunctors w' = []"
proof -
  obtain idle w1 where w1: "run_start w = (idle, w1)" by fastforce
  note s = run_start_resting [OF assms(1) w1]
  have lt: "\<forall>p \<in> set (pendingFunctors w). p < length (fibers w)" using assms(2) by (simp add: fresh_queue_def)
  then have q: "queue_of w1 = queue_of w" "fresh_queue w1" "idle \<notin> set (pendingFunctors w1)"
    using assms(2) s by (auto simp: queue_of_def fresh_queue_def)
  have "\<exists>n w'. (\<forall>k. run_loop (n + k) idle w1 = Inr (Some w')) \<and> trace w' = trace w1 @ fifo (queue_of w1)
     \<and> pendingFunctors w' = []"
    by (rule run_loop_drains [where mf = "length (fibers w)"]) (use s q assms in auto)
  then show ?thesis using s q by (simp add: run_def w1)
qed

theorem scheduler_runs_all_in_order_witness:
  "\<exists>n w'. (\<forall>k. run (n + k) (demo_scheduler [[Work 1, Call_scheduler [Work 4, Throw, Work 5], Work 2], [Work 3]])
       = Inr (Some w')) \<and> trace w' = [1, 2, 3, 4] \<and> pendingFunctors w' = []"
proof -
  let ?w = "demo_scheduler [[Work 1, Call_scheduler [Work 4, Throw, Work 5], Work 2], [Work 3]]"
  note d = demo_scheduler_def scheduler_range_def schedulerNoLock_def Fiber_ctor_def
        empty_scheduler_def Wakeup_def Let_def
  have "unstarted ?w" "fresh_queue ?w" "list_all (list_all plain) (queue_of ?w)"
    by (auto simp: unstarted_def d sched_inv_def fiber_ok_def fresh_queue_def fresh_fiber_def queue_of_def less_Suc_eq)
  moreover have "autoStop ?w" "clean ?w" "activeThreadCount ?w = 0" "trace ?w @ fifo (queue_of ?w) = [1, 2, 3, 4]"
    by (simp_all add: d queue_of_def)
  ultimately show ?thesis using scheduler_runs_all_in_order [of ?w] by simp
qed

text \<open>
  A callback that yields to READY starts over.  When the first queued fiber's
  callback does some work and then calls \<^verbatim>\<open>YieldToReady\<close>, the iteration queues a new
  fiber with the whole callback, to be run from its beginning, while the suspended
  fiber, which holds what remained to be done, is no longer queued; so if it was the
  only queued fiber the worker never ends, even after \<^verbatim>\<open>stop\<close>, and never gets past
  the yield.
\<close>

theorem ready_callback_starts_over:
  assumes "resting mf w" "sched_inv w" "pendingFunctors w = [p]" "fresh_fiber (fibers w ! p)"
    and "f_cb (fibers w ! p) = Some (map Work ns @ Yield_to_ready # rest)"
    and "idle < length (fibers w)" "idle \<noteq> mf"
  shows "run_loop n idle w = Inr None
    \<and> (\<exists>w' q. run_iteration idle w = Inr (False, w') \<and> trace w' = trace w @ ns \<and> pendingFunctors w' = [q]
       \<and> q \<noteq> p \<and> f_ctx (fibers w' ! q) = Ctx_start \<and> f_cb (fibers w' ! q) = f_cb (fibers w ! p)
       \<and> f_ctx (fibers w' ! p) = Ctx_in rest)"
proof
  show "run_loop n idle w = Inr None" using assms
  proof (induction n arbitrary: w p)
    case (Suc n)
    obtain w' where w': "run_iteration idle w = Inr (False, w')" "pendingFunctors w' = [length (fibers w)]"
        "fresh_fiber (fibers w' ! length (fibers w))"
        "f_cb (fibers w' ! length (fibers w)) = Some (map Work ns @ Yield_to_ready # rest)"
      using run_iteration_ready [OF Suc.prems(1-5)] by auto
    have "resting mf w' \<and> sched_inv w' \<and> length (fibers w) \<le> length (fibers w')"
      using rsafeD [OF run_iteration_ok [OF Suc.prems(1,2,6,7)] w'(1)] by simp
    then have "run_loop n idle w' = Inr None"
      using w' Suc.prems(6,7) by (intro Suc.IH) auto
    then show ?case using w'(1) by simp
  qed simp
  have "p \<noteq> length (fibers w)" using assms(2,3) by (auto simp: sched_inv_def)
  then show "\<exists>w' q. run_iteration idle w = Inr (False, w') \<and> trace w' = trace w @ ns \<and> pendingFunctors w' = [q]
       \<and> q \<noteq> p \<and> f_ctx (fibers w' ! q) = Ctx_start \<and> f_cb (fibers w' ! q) = f_cb (fibers w ! p)
       \<and> f_ctx (fibers w' ! p) = Ctx_in rest"
    using run_iteration_ready [OF assms(1-5), of idle] assms(5) by (fastforce simp: fresh_fiber_def)
qed

theorem ready_callback_starts_over_witness:
  "run_loop 7 2 (snd (run_start (demo_scheduler [[Work 1, Yield_to_ready, Work 2]]))) = Inr None"
proof -
  let ?w = "demo_scheduler [[Work 1, Yield_to_ready, Work 2]]"
  note d = demo_scheduler_def scheduler_range_def schedulerNoLock_def Fiber_ctor_def
        empty_scheduler_def Wakeup_def Let_def
  have u: "unstarted ?w" "length (fibers ?w) = 1" "pendingFunctors ?w = [0]"
      "fresh_fiber (fibers ?w ! 0)" "f_cb (fibers ?w ! 0) = Some [Work 1, Yield_to_ready, Work 2]"
    by (simp_all add: unstarted_def d sched_inv_def fiber_ok_def fresh_fiber_def)
  obtain idle w1 where w1: "run_start ?w = (idle, w1)" by fastforce
  note s = run_start_resting [OF u(1) w1]
  have "run_loop 7 idle w1 = Inr None"
    by (rule conjunct1 [OF ready_callback_starts_over [where mf = 1 and ns = "[1]" and rest = "[Work 2]" and p = 0]])
      (use s u in auto)
  then show ?thesis using s u w1 by (simp add: numeral_2_eq_2)
qed

end
