(* ===== verification/Timer.thy ===== *)
theory Timer
  imports Timestamp "HOL-Library.AList"
begin

text \<open>
  The timer queue (\<^verbatim>\<open>qslary/net/Timer.h\<close>, \<^verbatim>\<open>Timer.cc\<close>, \<^verbatim>\<open>TimerId.h\<close>).

  \<^verbatim>\<open>Timer\<close> objects live in an explicit heap from addresses to records, so that
  \<^verbatim>\<open>delete\<close>, dangling pointers and address reuse are visible: dereferencing an
  address that is not allocated is \<^const>\<open>Undefined_behaviour\<close>, every \<^verbatim>\<open>assert\<close>
  of the source is an \<^const>\<open>assert_r\<close>.  \<^verbatim>\<open>timers_\<close> and \<^verbatim>\<open>activeTimers_\<close> are the
  two ordered sets of the source.  The allocator \<open>malloc\<close> is an argument that maps
  the live addresses to a free one, or to none (\<^const>\<open>Bad_alloc\<close>); the current
  time is an argument of each operation that reads the clock.  A callback is the
  list of calls it makes back into the manager.  \<open>armed\<close> records the expiration
  the timer descriptor was last set for, \<open>ran\<close> the timers whose callback was run.

  The lemmas show that the two sets and the heap stay consistent under every
  operation and under callbacks that add and cancel timers while expired timers
  are being run, so that no assertion fails and no freed timer is touched.
\<close>

section \<open>Definitions\<close>

type_synonym addr = nat

definition UINTPTR_MAX :: addr where
  "UINTPTR_MAX = two64 - 1"

(* net/TimerId.h 12-25: TimerId *)
record timer_id =
  id_timer :: addr
  id_sequence :: int

datatype timer_cmd =
    Cmd_addTimer timestamp timestamp double "timer_cmd list"
  | Cmd_cancel timer_id

(* net/Timer.h 16-46: Timer *)
record timer =
  t_cb :: "timer_cmd list"
  t_expiration :: timestamp
  t_interval :: double
  t_recurring :: bool
  t_sequence :: int

type_synonym entry = "timestamp \<times> addr"
type_synonym active_timer = "addr \<times> int"

(* net/Timer.h 48-86: TimerManger *)
record timer_manger =
  heap :: "(addr \<times> timer) list"
  timers :: "entry list"
  activeTimers :: "active_timer list"
  callingExpiredTimers :: bool
  cancelingTimers :: "active_timer list"
  s_numCreated :: int
  armed :: "timestamp option"
  ran :: "active_timer list"

definition deref :: "timer_manger \<Rightarrow> addr \<Rightarrow> timer result" where
  "deref m p = (case map_of (heap m) p of None \<Rightarrow> Inl Undefined_behaviour | Some t \<Rightarrow> Inr t)"

definition delete_timer :: "addr \<Rightarrow> timer_manger \<Rightarrow> timer_manger result" where
  "delete_timer p m =
     (if map_of (heap m) p = None then Inl Undefined_behaviour
      else Inr (m\<lparr>heap := AList.delete p (heap m)\<rparr>))"

definition wrap_int64 :: "int \<Rightarrow> int" where
  "wrap_int64 i = sint (word_of_int i :: 64 word)"

record timespec =
  tv_sec :: int
  tv_nsec :: int

definition timespec_valid :: "timespec \<Rightarrow> bool" where
  "timespec_valid ts \<longleftrightarrow> 0 \<le> tv_sec ts \<and> 0 \<le> tv_nsec ts \<and> tv_nsec ts < 1000000000"

(* net/Timer.cc 91: TimerManger::TimerManger *)
definition TimerManger_ctor :: timer_manger where
  "TimerManger_ctor =
     \<lparr>heap = [], timers = [], activeTimers = [], callingExpiredTimers = False,
      cancelingTimers = [], s_numCreated = 0, armed = None, ran = []\<rparr>"

(* net/Timer.cc 30: howMuchTimeFromNow *)
definition howMuchTimeFromNow :: "timestamp \<Rightarrow> timestamp \<Rightarrow> timespec result" where
  "howMuchTimeFromNow now when =
     (let microseconds = microSecondsSinceEpoch when - microSecondsSinceEpoch now in
      if \<not> in_int64 microseconds then Inl Signed_overflow
      else let us = (if microseconds < 100 then 100 else microseconds) in
        Inr \<lparr>tv_sec = trunc_div us kMicroSecondsPerSecond,
             tv_nsec = trunc_mod us kMicroSecondsPerSecond * 1000\<rparr>)"

(* net/Timer.cc 55: resetTimerfd *)
definition resetTimerfd :: "timestamp \<Rightarrow> timestamp \<Rightarrow> timer_manger \<Rightarrow> timer_manger result" where
  "resetTimerfd now expiration m =
     rbind (howMuchTimeFromNow now expiration) (\<lambda>newvalue.
       rbind (assert_r (timespec_valid newvalue)) (\<lambda>_.
         Inr (m\<lparr>armed := Some expiration\<rparr>)))"

(* net/Timer.cc 47: readTimerfd *)
definition readTimerfd :: "int \<Rightarrow> timer_manger \<Rightarrow> timer_manger result" where
  "readTimerfd n m = rbind (assert_r (n = 8)) (\<lambda>_. Inr m)"

(* net/Timer.cc 79: Timer::restart *)
definition restart :: "timestamp \<Rightarrow> timer \<Rightarrow> timer result" where
  "restart now t =
     (if t_recurring t
      then rbind (addTime now (t_interval t)) (\<lambda>e. Inr (t\<lparr>t_expiration := e\<rparr>))
      else Inr (t\<lparr>t_expiration := ts_invalid\<rparr>))"

(* net/Timer.cc 230: TimerManger::insert *)
definition insert_timer :: "addr \<Rightarrow> timer_manger \<Rightarrow> (bool \<times> timer_manger) result" where
  "insert_timer p m =
     rbind (assert_r (length (timers m) = length (activeTimers m))) (\<lambda>_.
     rbind (deref m p) (\<lambda>t.
       let when = t_expiration t;
           earliestChanged = (timers m = [] \<or> when < fst (hd (timers m))) in
       rbind (assert_r ((when, p) \<notin> set (timers m))) (\<lambda>_.
       let m1 = m\<lparr>timers := sset_insert (when, p) (timers m)\<rparr> in
       rbind (assert_r ((p, t_sequence t) \<notin> set (activeTimers m1))) (\<lambda>_.
       let m2 = m1\<lparr>activeTimers := sset_insert (p, t_sequence t) (activeTimers m1)\<rparr> in
       rbind (assert_r (length (timers m2) = length (activeTimers m2))) (\<lambda>_.
         Inr (earliestChanged, m2))))))"

(* net/Timer.cc 116: TimerManger::addTimer *)
definition addTimer_ptr :: "timestamp \<Rightarrow> addr \<Rightarrow> timer_manger \<Rightarrow> timer_manger result" where
  "addTimer_ptr now p m =
     rbind (insert_timer p m) (\<lambda>(earliestChanged, m').
       if earliestChanged
       then rbind (deref m' p) (\<lambda>t. resetTimerfd now (t_expiration t) m')
       else Inr m')"

(* net/Timer.h 22: Timer::Timer *)
definition new_timer :: "timer_cmd list \<Rightarrow> timestamp \<Rightarrow> double \<Rightarrow> int \<Rightarrow> timer" where
  "new_timer cb when interval seq =
     \<lparr>t_cb = cb, t_expiration = when, t_interval = interval, t_recurring = double_pos interval,
      t_sequence = seq\<rparr>"

(* net/Timer.cc 105: TimerManger::addTimer *)
definition addTimer :: "(addr list \<Rightarrow> addr option) \<Rightarrow> timestamp \<Rightarrow> timer_cmd list \<Rightarrow> timestamp \<Rightarrow> double
    \<Rightarrow> timer_manger \<Rightarrow> (timer_id \<times> timer_manger) result" where
  "addTimer malloc now cb when interval m =
     (case malloc (map fst (heap m)) of
        None \<Rightarrow> Inl Bad_alloc
      | Some p \<Rightarrow>
          let seq = wrap_int64 (s_numCreated m + 1);
              m' = m\<lparr>s_numCreated := seq,
                     heap := AList.update p (new_timer cb when interval seq) (heap m)\<rparr> in
          rbind (addTimer_ptr now p m') (\<lambda>m''.
            Inr (\<lparr>id_timer = p, id_sequence = seq\<rparr>, m'')))"

(* net/Timer.cc 125: TimerManger::runAt *)
definition runAt :: "(addr list \<Rightarrow> addr option) \<Rightarrow> timestamp \<Rightarrow> timestamp \<Rightarrow> timer_cmd list
    \<Rightarrow> timer_manger \<Rightarrow> (timer_id \<times> timer_manger) result" where
  "runAt malloc now time cb m = addTimer malloc now cb time (double_of_int 0) m"

(* net/Timer.cc 129: TimerManger::runAfter *)
definition runAfter :: "(addr list \<Rightarrow> addr option) \<Rightarrow> timestamp \<Rightarrow> double \<Rightarrow> timer_cmd list
    \<Rightarrow> timer_manger \<Rightarrow> (timer_id \<times> timer_manger) result" where
  "runAfter malloc now delay cb m =
     rbind (addTime now delay) (\<lambda>w. addTimer malloc now cb w (double_of_int 0) m)"

(* net/Timer.cc 133: TimerManger::runEvery *)
definition runEvery :: "(addr list \<Rightarrow> addr option) \<Rightarrow> timestamp \<Rightarrow> double \<Rightarrow> timer_cmd list
    \<Rightarrow> timer_manger \<Rightarrow> (timer_id \<times> timer_manger) result" where
  "runEvery malloc now interval cb m =
     rbind (addTime now interval) (\<lambda>w. addTimer malloc now cb w interval m)"

(* net/Timer.cc 138: TimerManger::cancel *)
definition cancel :: "timer_id \<Rightarrow> timer_manger \<Rightarrow> timer_manger result" where
  "cancel timerId m =
     rbind (assert_r (length (timers m) = length (activeTimers m))) (\<lambda>_.
     let timer = (id_timer timerId, id_sequence timerId) in
     rbind (if timer \<in> set (activeTimers m)
            then rbind (deref m (fst timer)) (\<lambda>t.
                 let e = (t_expiration t, fst timer) in
                 rbind (assert_r (e \<in> set (timers m))) (\<lambda>_.
                 rbind (delete_timer (fst timer) (m\<lparr>timers := sset_erase e (timers m)\<rparr>)) (\<lambda>m1.
                   Inr (m1\<lparr>activeTimers := sset_erase timer (activeTimers m1)\<rparr>))))
            else if callingExpiredTimers m
            then Inr (m\<lparr>cancelingTimers := sset_insert timer (cancelingTimers m)\<rparr>)
            else Inr m) (\<lambda>m'.
     rbind (assert_r (length (timers m') = length (activeTimers m'))) (\<lambda>_. Inr m')))"

definition before_sentry :: "timestamp \<Rightarrow> entry \<Rightarrow> bool" where
  "before_sentry now e \<longleftrightarrow> e < (now, UINTPTR_MAX)"

fun erase_expired :: "entry list \<Rightarrow> timer_manger \<Rightarrow> timer_manger result" where
  "erase_expired [] m = Inr m"
| "erase_expired (it # es) m =
     rbind (deref m (snd it)) (\<lambda>t.
       let timer = (snd it, t_sequence t) in
       rbind (assert_r (timer \<in> set (activeTimers m))) (\<lambda>_.
         erase_expired es (m\<lparr>activeTimers := sset_erase timer (activeTimers m)\<rparr>)))"

(* net/Timer.cc 177: TimerManger::getExpired *)
definition getExpired :: "timestamp \<Rightarrow> timer_manger \<Rightarrow> (entry list \<times> timer_manger) result" where
  "getExpired now m =
     rbind (assert_r (length (timers m) = length (activeTimers m))) (\<lambda>_.
     let expired = takeWhile (before_sentry now) (timers m);
         rest = dropWhile (before_sentry now) (timers m) in
     rbind (assert_r (rest = [] \<or> now < fst (hd rest))) (\<lambda>_.
     rbind (erase_expired expired (m\<lparr>timers := rest\<rparr>)) (\<lambda>m'.
     rbind (assert_r (length (timers m') = length (activeTimers m'))) (\<lambda>_.
       Inr (expired, m')))))"

fun run_cmd :: "(addr list \<Rightarrow> addr option) \<Rightarrow> timer_cmd \<Rightarrow> timer_manger \<Rightarrow> timer_manger result" where
  "run_cmd malloc (Cmd_addTimer now when interval cb) m =
     rbind (addTimer malloc now cb when interval m) (\<lambda>(_, m'). Inr m')"
| "run_cmd malloc (Cmd_cancel i) m = cancel i m"

fun run_cmds :: "(addr list \<Rightarrow> addr option) \<Rightarrow> timer_cmd list \<Rightarrow> timer_manger \<Rightarrow> timer_manger result" where
  "run_cmds malloc [] m = Inr m"
| "run_cmds malloc (c # cs) m = rbind (run_cmd malloc c m) (run_cmds malloc cs)"

(* net/Timer.cc 167-170: TimerManger::handleRead, the loop it.second->run() *)
fun run_expired :: "(addr list \<Rightarrow> addr option) \<Rightarrow> entry list \<Rightarrow> timer_manger \<Rightarrow> timer_manger result" where
  "run_expired malloc [] m = Inr m"
| "run_expired malloc (it # es) m =
     rbind (deref m (snd it)) (\<lambda>t.
     rbind (run_cmds malloc (t_cb t) (m\<lparr>ran := ran m @ [(snd it, t_sequence t)]\<rparr>))
       (run_expired malloc es))"

(* net/Timer.cc 203-216: TimerManger::reset, the loop over expired *)
fun reset_loop :: "entry list \<Rightarrow> timestamp \<Rightarrow> timer_manger \<Rightarrow> timer_manger result" where
  "reset_loop [] now m = Inr m"
| "reset_loop (it # es) now m =
     rbind (deref m (snd it)) (\<lambda>t.
       if t_recurring t \<and> (snd it, t_sequence t) \<notin> set (cancelingTimers m)
       then rbind (restart now t) (\<lambda>t'.
            rbind (insert_timer (snd it) (m\<lparr>heap := AList.update (snd it) t' (heap m)\<rparr>)) (\<lambda>(_, m').
              reset_loop es now m'))
       else rbind (delete_timer (snd it) m) (reset_loop es now))"

(* net/Timer.cc 199: TimerManger::reset *)
definition reset :: "entry list \<Rightarrow> timestamp \<Rightarrow> timestamp \<Rightarrow> timer_manger \<Rightarrow> timer_manger result" where
  "reset expired now now' m =
     rbind (reset_loop expired now m) (\<lambda>m1.
     rbind (if timers m1 = [] then Inr ts_invalid
            else rbind (deref m1 (snd (hd (timers m1)))) (\<lambda>t. Inr (t_expiration t))) (\<lambda>nextExpire.
       if ts_valid nextExpire then resetTimerfd now' nextExpire m1 else Inr m1))"

(* net/Timer.cc 158: TimerManger::handleRead *)
definition handleRead :: "(addr list \<Rightarrow> addr option) \<Rightarrow> int \<Rightarrow> timestamp \<Rightarrow> timestamp \<Rightarrow> timer_manger
    \<Rightarrow> timer_manger result" where
  "handleRead malloc nread now now' m =
     rbind (readTimerfd nread m) (\<lambda>m0.
     rbind (getExpired now m0) (\<lambda>(expired, m1).
     rbind (run_expired malloc expired (m1\<lparr>callingExpiredTimers := True, cancelingTimers := []\<rparr>)) (\<lambda>m2.
       reset expired now now' (m2\<lparr>callingExpiredTimers := False\<rparr>))))"

fun delete_all :: "entry list \<Rightarrow> timer_manger \<Rightarrow> timer_manger result" where
  "delete_all [] m = Inr m"
| "delete_all (timer # es) m = rbind (delete_timer (snd timer) m) (delete_all es)"

(* net/Timer.cc 95: TimerManger::~TimerManger *)
definition TimerManger_dtor :: "timer_manger \<Rightarrow> timer_manger result" where
  "TimerManger_dtor m = delete_all (timers m) m"

section \<open>Consistency of the two sets and the heap\<close>

abbreviation tlookup :: "timer_manger \<Rightarrow> addr \<Rightarrow> timer option" where
  "tlookup m \<equiv> map_of (heap m)"

text \<open>
  \<open>E\<close> lists the addresses of expired timers that are allocated but in neither set
  (they are being run and will be re-inserted or deleted by \<^verbatim>\<open>reset\<close>).
\<close>

definition consistent :: "addr list \<Rightarrow> timer_manger \<Rightarrow> bool" where
  "consistent E m \<longleftrightarrow>
     sset (timers m) \<and> sset (activeTimers m)
   \<and> (\<forall>w p. (w, p) \<in> set (timers m) \<longrightarrow>
        p < UINTPTR_MAX \<and> (\<exists>t. tlookup m p = Some t \<and> t_expiration t = w))
   \<and> (\<forall>p s. (p, s) \<in> set (activeTimers m) \<longleftrightarrow>
        (\<exists>t. (t_expiration t, p) \<in> set (timers m) \<and> tlookup m p = Some t \<and> t_sequence t = s))
   \<and> distinct E
   \<and> (\<forall>p \<in> set E. p < UINTPTR_MAX \<and> tlookup m p \<noteq> None \<and> (\<forall>w. (w, p) \<notin> set (timers m)))"

lemma consistentD:
  assumes "consistent E m"
  shows "sset (timers m)" "sset (activeTimers m)" "distinct E"
    and "(w, p) \<in> set (timers m) \<Longrightarrow> p < UINTPTR_MAX"
    and "(w, p) \<in> set (timers m) \<Longrightarrow> \<exists>t. tlookup m p = Some t \<and> t_expiration t = w"
    and "(p, s) \<in> set (activeTimers m) \<longleftrightarrow>
        (\<exists>t. (t_expiration t, p) \<in> set (timers m) \<and> tlookup m p = Some t \<and> t_sequence t = s)"
    and "p \<in> set E \<Longrightarrow> p < UINTPTR_MAX"
    and "p \<in> set E \<Longrightarrow> \<exists>t. tlookup m p = Some t"
    and "p \<in> set E \<Longrightarrow> (w, p) \<notin> set (timers m)"
  using assms unfolding consistent_def by (blast+)?

lemma consistentI:
  assumes "sset (timers m)" "sset (activeTimers m)" "distinct E"
    and "\<And>w p. (w, p) \<in> set (timers m) \<Longrightarrow>
        p < UINTPTR_MAX \<and> (\<exists>t. tlookup m p = Some t \<and> t_expiration t = w)"
    and "\<And>p s. (p, s) \<in> set (activeTimers m) \<longleftrightarrow>
        (\<exists>t. (t_expiration t, p) \<in> set (timers m) \<and> tlookup m p = Some t \<and> t_sequence t = s)"
    and "\<And>p. p \<in> set E \<Longrightarrow> p < UINTPTR_MAX \<and> tlookup m p \<noteq> None"
    and "\<And>p w. p \<in> set E \<Longrightarrow> (w, p) \<notin> set (timers m)"
  shows "consistent E m"
  using assms unfolding consistent_def by blast

lemma consistent_ctor: "consistent [] TimerManger_ctor"
  by (simp add: consistent_def TimerManger_ctor_def)

lemma consistent_length:
  assumes "consistent E m"
  shows "length (timers m) = length (activeTimers m)"
proof -
  note c = consistentD [OF assms]
  let ?f = "\<lambda>(w, p). (p, t_sequence (the (tlookup m p)))"
  have "inj_on ?f (set (timers m))"
  proof (rule inj_onI)
    fix a b
    assume ab: "a \<in> set (timers m)" "b \<in> set (timers m)" "?f a = ?f b"
    obtain w p w' p' where "a = (w, p)" "b = (w', p')" by (cases a, cases b)
    with ab show "a = b" using c(5) [of w p] c(5) [of w' p'] by auto
  qed
  moreover have "?f ` set (timers m) = set (activeTimers m)"
    using c(5,6) by force
  ultimately have "card (set (timers m)) = card (set (activeTimers m))"
    using card_image by fastforce
  with c(1,2) show ?thesis by (simp add: length_eq_card)
qed

lemma timers_unique:
  "consistent E m \<Longrightarrow> (w, p) \<in> set (timers m) \<Longrightarrow> (w', p) \<in> set (timers m) \<Longrightarrow> w = w'"
  using consistentD(5) [of E m w p] consistentD(5) [of E m w' p] by auto

lemma deref_eq [simp]: "tlookup m p = Some t \<Longrightarrow> deref m p = Inr t"
  by (simp add: deref_def)

text \<open>Fields that the sets and the heap do not depend on.\<close>

lemma consistent_frame [simp]:
  "consistent E (m\<lparr>armed := a\<rparr>) = consistent E m"
  "consistent E (m\<lparr>ran := r\<rparr>) = consistent E m"
  "consistent E (m\<lparr>callingExpiredTimers := b\<rparr>) = consistent E m"
  "consistent E (m\<lparr>cancelingTimers := l\<rparr>) = consistent E m"
  "consistent E (m\<lparr>s_numCreated := n\<rparr>) = consistent E m"
  by (simp_all add: consistent_def)

section \<open>The single operations\<close>

lemma howMuchTimeFromNow_spec:
  "rsafe (\<lambda>ts. timespec_valid ts \<and> tv_sec ts * 1000000000 + tv_nsec ts =
      1000 * max 100 (microSecondsSinceEpoch when - microSecondsSinceEpoch now))
     (howMuchTimeFromNow now when)"
proof -
  have "0 \<le> (us :: int) \<Longrightarrow> us div 1000000 * 1000000000 + us mod 1000000 * 1000 = 1000 * us" for us
    using div_mult_mod_eq [of us 1000000] by linarith
  then show ?thesis
    by (auto simp: howMuchTimeFromNow_def Let_def timespec_valid_def kMicroSecondsPerSecond_def
        pos_mod_bound [of 1000000])
qed

lemma resetTimerfd_spec: "rsafe (\<lambda>m'. m' = m\<lparr>armed := Some e\<rparr>) (resetTimerfd now e m)"
  unfolding resetTimerfd_def
  by (rule rsafe_bind [OF howMuchTimeFromNow_spec]) simp

lemma insert_timer_spec:
  assumes "consistent (p # E) m" "tlookup m p = Some t"
  defines "m' \<equiv> m\<lparr>timers := sset_insert (t_expiration t, p) (timers m),
                  activeTimers := sset_insert (p, t_sequence t) (activeTimers m)\<rparr>"
  shows "insert_timer p m = Inr (timers m = [] \<or> t_expiration t < fst (hd (timers m)), m')"
    and "consistent E m'"
proof -
  note c = consistentD [OF assms(1)]
  have new: "(t_expiration t, p) \<notin> set (timers m)" using c(9) by simp
  have new': "(p, t_sequence t) \<notin> set (activeTimers m)" using c(6,9) by auto
  have len: "length (timers m) = length (activeTimers m)" by (rule consistent_length [OF assms(1)])
  then have "length (timers m') = length (activeTimers m')"
    using new new' by (simp add: m'_def length_sset_insert)
  with assms(2) len new new' show "insert_timer p m = Inr (timers m = [] \<or> t_expiration t < fst (hd (timers m)), m')"
    by (simp add: insert_timer_def Let_def m'_def)
  show "consistent E m'"
    unfolding consistent_def
    using c(1-3) c(4,5,7,8,9) assms(2) c(6) by (auto simp: m'_def)
qed

lemma addTimer_spec:
  assumes c: "consistent E m"
    and malloc: "\<And>live p. malloc live = Some p \<Longrightarrow> p \<notin> set live \<and> p < UINTPTR_MAX"
  shows "rsafe (\<lambda>(i, m'). consistent E m' \<and> ran m' = ran m \<and> callingExpiredTimers m' = callingExpiredTimers m
            \<and> cancelingTimers m' = cancelingTimers m
            \<and> (\<forall>p \<in> set E. tlookup m' p = tlookup m p)
            \<and> id_sequence i = wrap_int64 (s_numCreated m + 1) \<and> tlookup m (id_timer i) = None
            \<and> timers m' = sset_insert (when, id_timer i) (timers m)
            \<and> tlookup m' = (tlookup m)(id_timer i \<mapsto> new_timer cb when interval (id_sequence i)))
          (addTimer malloc now cb when interval m)"
proof (cases "malloc (map fst (heap m))")
  case None
  then show ?thesis by (simp add: addTimer_def)
next
  case (Some p)
  let ?s = "wrap_int64 (s_numCreated m + 1)"
  let ?t = "new_timer cb when interval ?s"
  let ?m = "m\<lparr>s_numCreated := ?s, heap := AList.update p ?t (heap m)\<rparr>"
  have fresh: "tlookup m p = None" and small: "p < UINTPTR_MAX"
    using malloc [OF Some] by (auto simp: map_of_eq_None_iff)
  have upd: "tlookup ?m = (tlookup m)(p \<mapsto> ?t)" by (simp add: update_conv')
  note d = consistentD [OF c]
  have notE: "p \<notin> set E" using d(8) [of p] fresh by auto
  have notin: "(w, p) \<notin> set (timers m)" for w using d(5) [of w p] fresh by auto
  have "consistent (p # E) ?m"
    unfolding consistent_def upd
    using d(1-3) d(4,5,7,8,9) d(6) small fresh notE notin by (auto simp: fun_upd_apply)
  note ins = insert_timer_spec [OF this, of ?t]
  let ?m' = "?m\<lparr>timers := sset_insert (when, p) (timers m),
                activeTimers := sset_insert (p, ?s) (activeTimers m)\<rparr>"
  have t: "t_expiration ?t = when" "t_sequence ?t = ?s" "tlookup ?m p = Some ?t"
    using upd by (simp_all add: new_timer_def)
  have c': "consistent E ?m'" and ins': "\<exists>b. insert_timer p ?m = Inr (b, ?m')"
    using ins t by simp_all
  have "rsafe (\<lambda>m'. m' = ?m' \<or> m' = ?m'\<lparr>armed := Some when\<rparr>) (addTimer_ptr now p ?m)"
  proof -
    obtain b where b: "insert_timer p ?m = Inr (b, ?m')" using ins' ..
    have "deref ?m' p = Inr ?t" using upd by simp
    with b t resetTimerfd_spec [where m = ?m' and e = "when" and now = now] show ?thesis
      by (auto simp: addTimer_ptr_def intro: rsafe_mono)
  qed
  then have "rsafe (\<lambda>m'. consistent E m' \<and> ran m' = ran m \<and> callingExpiredTimers m' = callingExpiredTimers m
      \<and> cancelingTimers m' = cancelingTimers m \<and> timers m' = sset_insert (when, p) (timers m)
      \<and> tlookup m' = (tlookup m)(p \<mapsto> ?t)) (addTimer_ptr now p ?m)"
    by (rule rsafe_mono) (use c' upd in auto)
  then show ?thesis
    using Some fresh notE by (auto simp: addTimer_def Let_def intro!: rsafe_bind elim!: rsafe_mono)
qed

text \<open>
  \<^verbatim>\<open>cancel\<close> removes exactly the timer the id names: an id whose timer is not
  active changes neither set nor the heap, even if its address is in use again.
\<close>

lemma cancel_active:
  assumes c: "consistent E m" and act: "(id_timer i, id_sequence i) \<in> set (activeTimers m)"
  obtains t where "tlookup m (id_timer i) = Some t" "t_sequence t = id_sequence i"
    "(t_expiration t, id_timer i) \<in> set (timers m)"
    "cancel i m = Inr (m\<lparr>timers := sset_erase (t_expiration t, id_timer i) (timers m),
       activeTimers := sset_erase (id_timer i, id_sequence i) (activeTimers m),
       heap := AList.delete (id_timer i) (heap m)\<rparr>)"
    "consistent E (m\<lparr>timers := sset_erase (t_expiration t, id_timer i) (timers m),
       activeTimers := sset_erase (id_timer i, id_sequence i) (activeTimers m),
       heap := AList.delete (id_timer i) (heap m)\<rparr>)"
proof -
  note d = consistentD [OF c]
  let ?p = "id_timer i" and ?s = "id_sequence i"
  from act d(6) obtain t where t: "tlookup m ?p = Some t" "t_sequence t = ?s"
    "(t_expiration t, ?p) \<in> set (timers m)" by blast
  let ?m = "m\<lparr>timers := sset_erase (t_expiration t, ?p) (timers m),
       activeTimers := sset_erase (?p, ?s) (activeTimers m), heap := AList.delete ?p (heap m)\<rparr>"
  have del: "map_of (AList.delete ?p (heap m)) = (tlookup m)(?p := None)"
    by (simp add: delete_conv')
  have only: "(w, ?p) \<in> set (timers m) \<Longrightarrow> w = t_expiration t" for w
    using d(5) [of w ?p] t(1) by auto
  have notE: "?p \<notin> set E" using d(9) t(3) by blast
  have other: "(w, q) \<in> set (timers ?m) \<longleftrightarrow> (w, q) \<in> set (timers m) \<and> q \<noteq> ?p" for w q
    using only by auto
  have c': "consistent E ?m"
  proof (rule consistentI)
    show "(q, s) \<in> set (activeTimers ?m) \<longleftrightarrow>
        (\<exists>u. (t_expiration u, q) \<in> set (timers ?m) \<and> tlookup ?m q = Some u \<and> t_sequence u = s)" for q s
      unfolding other using t(1,2) by (auto simp: del d(6))
    show "q < UINTPTR_MAX \<and> (\<exists>u. tlookup ?m q = Some u \<and> t_expiration u = w)"
      if "(w, q) \<in> set (timers ?m)" for w q
      using that d(4,5) [of w q] unfolding other by (simp add: del)
    show "q < UINTPTR_MAX \<and> tlookup ?m q \<noteq> None" if "q \<in> set E" for q
      using that d(7,8) [of q] notE by (auto simp: del)
    show "(w, q) \<notin> set (timers ?m)" if "q \<in> set E" for q w
      using that d(9) [of q w] unfolding other by simp
  qed (use d(1-3) in simp_all)
  have len: "length (timers m) = length (activeTimers m)" by (rule consistent_length [OF c])
  have "length (timers ?m) = length (activeTimers ?m)" by (rule consistent_length [OF c'])
  then have "cancel i m = Inr ?m"
    using act t len by (simp add: cancel_def Let_def delete_timer_def)
  with t c' that show thesis by blast
qed

lemma cancel_inactive:
  assumes "consistent E m" "(id_timer i, id_sequence i) \<notin> set (activeTimers m)"
  shows "cancel i m = Inr (if callingExpiredTimers m
     then m\<lparr>cancelingTimers := sset_insert (id_timer i, id_sequence i) (cancelingTimers m)\<rparr> else m)"
  using consistent_length [OF assms(1)] assms(2) by (simp add: cancel_def Let_def)

definition frame_ok :: "addr list \<Rightarrow> timer_manger \<Rightarrow> timer_manger \<Rightarrow> bool" where
  "frame_ok E m m' \<longleftrightarrow> consistent E m' \<and> ran m' = ran m \<and> callingExpiredTimers m' = callingExpiredTimers m
     \<and> (\<forall>p \<in> set E. tlookup m' p = tlookup m p)"

lemma cancel_frame:
  assumes "consistent E m"
  shows "\<exists>m'. cancel i m = Inr m' \<and> frame_ok E m m'"
proof (cases "(id_timer i, id_sequence i) \<in> set (activeTimers m)")
  case True
  then show ?thesis
  proof (rule cancel_active [OF assms])
    fix t
    assume "(t_expiration t, id_timer i) \<in> set (timers m)"
    then have "id_timer i \<notin> set E" using consistentD(9) [OF assms] by blast
    then have "p \<in> set E \<Longrightarrow> map_of (AList.delete (id_timer i) (heap m)) p = tlookup m p" for p
      by (auto simp: delete_conv')
    moreover assume "cancel i m = Inr (m\<lparr>timers := sset_erase (t_expiration t, id_timer i) (timers m),
       activeTimers := sset_erase (id_timer i, id_sequence i) (activeTimers m),
       heap := AList.delete (id_timer i) (heap m)\<rparr>)"
    "consistent E (m\<lparr>timers := sset_erase (t_expiration t, id_timer i) (timers m),
       activeTimers := sset_erase (id_timer i, id_sequence i) (activeTimers m),
       heap := AList.delete (id_timer i) (heap m)\<rparr>)"
    ultimately show ?thesis by (simp add: frame_ok_def)
  qed
next
  case False
  with assms show ?thesis by (simp add: cancel_inactive frame_ok_def)
qed

definition malloc_ok :: "(addr list \<Rightarrow> addr option) \<Rightarrow> bool" where
  "malloc_ok malloc \<longleftrightarrow> (\<forall>live p. malloc live = Some p \<longrightarrow> p \<notin> set live \<and> p < UINTPTR_MAX)"

lemma run_cmd_frame:
  assumes "malloc_ok malloc" "consistent E m"
  shows "rsafe (frame_ok E m) (run_cmd malloc c m)"
proof (cases c)
  case (Cmd_addTimer now "when" interval cb)
  have "rsafe (\<lambda>(i, m'). frame_ok E m m') (addTimer malloc now cb when interval m)"
    using assms(1) by (auto simp: malloc_ok_def frame_ok_def intro!: rsafe_mono [OF addTimer_spec [OF assms(2)]])
  then show ?thesis by (auto simp: Cmd_addTimer intro: rsafe_bind)
next
  case (Cmd_cancel i)
  with cancel_frame [OF assms(2), of i] show ?thesis by auto
qed

lemma frame_ok_trans: "frame_ok E m m1 \<Longrightarrow> frame_ok E m1 m2 \<Longrightarrow> frame_ok E m m2"
  by (simp add: frame_ok_def)

lemma run_cmds_frame:
  assumes "malloc_ok malloc"
  shows "consistent E m \<Longrightarrow> rsafe (frame_ok E m) (run_cmds malloc cs m)"
proof (induction cs arbitrary: m)
  case Nil
  then show ?case by (simp add: frame_ok_def)
next
  case (Cons c cs)
  have "rsafe (frame_ok E m) (rbind (run_cmd malloc c m) (run_cmds malloc cs))"
    by (rule rsafe_bind [OF run_cmd_frame [OF assms Cons.prems]])
      (auto intro: rsafe_mono [OF Cons.IH] frame_ok_trans simp: frame_ok_def)
  then show ?case by simp
qed

section \<open>Running expired timers\<close>

lemma consistent_perm:
  "set E = set E' \<Longrightarrow> distinct E = distinct E' \<Longrightarrow> consistent E m = consistent E' m"
  by (simp add: consistent_def)

lemma consistent_update:
  assumes "consistent (p # E) m"
  shows "consistent (p # E) (m\<lparr>heap := AList.update p t (heap m)\<rparr>)"
proof -
  note d = consistentD [OF assms]
  have up: "map_of (AList.update p t (heap m)) = (tlookup m)(p \<mapsto> t)" by (simp add: update_conv')
  have np: "(w, q) \<in> set (timers m) \<Longrightarrow> q \<noteq> p" for w q using d(9) [of p w] by auto
  show ?thesis
  proof (rule consistentI)
    show "(q, s) \<in> set (activeTimers (m\<lparr>heap := AList.update p t (heap m)\<rparr>)) \<longleftrightarrow>
        (\<exists>u. (t_expiration u, q) \<in> set (timers (m\<lparr>heap := AList.update p t (heap m)\<rparr>))
          \<and> tlookup (m\<lparr>heap := AList.update p t (heap m)\<rparr>) q = Some u \<and> t_sequence u = s)" for q s
      using np by (auto simp: up d(6))
    show "q < UINTPTR_MAX \<and> (\<exists>u. tlookup (m\<lparr>heap := AList.update p t (heap m)\<rparr>) q = Some u \<and> t_expiration u = w)"
      if "(w, q) \<in> set (timers (m\<lparr>heap := AList.update p t (heap m)\<rparr>))" for w q
      using that d(4,5) [of w q] np [of w q] by (simp add: up)
    show "q < UINTPTR_MAX \<and> tlookup (m\<lparr>heap := AList.update p t (heap m)\<rparr>) q \<noteq> None"
      if "q \<in> set (p # E)" for q
      using d(7,8) [of q] that by (auto simp: up)
  qed (use d in simp_all)
qed

lemma consistent_delete:
  assumes "consistent (p # E) m"
  shows "delete_timer p m = Inr (m\<lparr>heap := AList.delete p (heap m)\<rparr>)"
    and "consistent E (m\<lparr>heap := AList.delete p (heap m)\<rparr>)"
proof -
  note d = consistentD [OF assms]
  let ?m = "m\<lparr>heap := AList.delete p (heap m)\<rparr>"
  have del: "map_of (AList.delete p (heap m)) = (tlookup m)(p := None)" by (simp add: delete_conv')
  have np: "(w, q) \<in> set (timers m) \<Longrightarrow> q \<noteq> p" for w q using d(9) [of p w] by auto
  show "delete_timer p m = Inr ?m" using d(8) [of p] by (auto simp: delete_timer_def)
  show "consistent E ?m"
  proof (rule consistentI)
    show "(q, s) \<in> set (activeTimers ?m) \<longleftrightarrow>
        (\<exists>u. (t_expiration u, q) \<in> set (timers ?m) \<and> tlookup ?m q = Some u \<and> t_sequence u = s)" for q s
      using np by (auto simp: del d(6))
    show "q < UINTPTR_MAX \<and> (\<exists>u. tlookup ?m q = Some u \<and> t_expiration u = w)"
      if "(w, q) \<in> set (timers ?m)" for w q
      using that d(4,5) [of w q] np [of w q] by (simp add: del)
    show "q < UINTPTR_MAX \<and> tlookup ?m q \<noteq> None" if "q \<in> set E" for q
      using d(3) d(7,8) [of q] that by (auto simp: del)
  qed (use d in simp_all)
qed

lemma erase_expired_spec:
  "consistent E (m\<lparr>timers := es @ timers m\<rparr>) \<Longrightarrow>
     \<exists>A. erase_expired es m = Inr (m\<lparr>activeTimers := A\<rparr>)
       \<and> consistent (map snd es @ E) (m\<lparr>activeTimers := A\<rparr>)"
proof (induction es arbitrary: E m)
  case Nil
  then show ?case by (intro exI [of _ "activeTimers m"]) simp
next
  case (Cons e es)
  obtain w p where e: "e = (w, p)" by (cases e)
  let ?M = "m\<lparr>timers := (e # es) @ timers m\<rparr>"
  note d = consistentD [OF Cons.prems]
  from d(5) [of w p] obtain t where t: "tlookup m p = Some t" "t_expiration t = w" by (auto simp: e)
  have act: "(p, t_sequence t) \<in> set (activeTimers m)" using d(6) [of p "t_sequence t"] t by (simp add: e)
  have only: "(w', p) \<notin> set (es @ timers m)" for w'
    using d(5) [of w' p] d(1) t by (auto simp: e sset_def)
  let ?m = "m\<lparr>activeTimers := sset_erase (p, t_sequence t) (activeTimers m)\<rparr>"
  have "consistent (p # E) (?m\<lparr>timers := es @ timers ?m\<rparr>)"
  proof (rule consistentI)
    show "(q, s) \<in> set (activeTimers (?m\<lparr>timers := es @ timers ?m\<rparr>)) \<longleftrightarrow>
        (\<exists>u. (t_expiration u, q) \<in> set (timers (?m\<lparr>timers := es @ timers ?m\<rparr>))
          \<and> tlookup (?m\<lparr>timers := es @ timers ?m\<rparr>) q = Some u \<and> t_sequence u = s)" for q s
      using d(6) [of q s] only t by (cases "q = p") (auto simp: e)
    show "q < UINTPTR_MAX \<and> (\<exists>u. tlookup (?m\<lparr>timers := es @ timers ?m\<rparr>) q = Some u \<and> t_expiration u = v)"
      if "(v, q) \<in> set (timers (?m\<lparr>timers := es @ timers ?m\<rparr>))" for v q
      using that d(4,5) [of v q] by (auto simp: e)
    show "q < UINTPTR_MAX \<and> tlookup (?m\<lparr>timers := es @ timers ?m\<rparr>) q \<noteq> None"
      if "q \<in> set (p # E)" for q
      using that d(7,8) [of q] d(4) [of w p] t by (auto simp: e)
    show "(v, q) \<notin> set (timers (?m\<lparr>timers := es @ timers ?m\<rparr>))" if "q \<in> set (p # E)" for q v
      using that d(9) [of q v] only by (auto simp: e)
    show "distinct (p # E)" using d(3) d(9) [of p w] by (auto simp: e)
  qed (use d(1,2) in \<open>simp_all add: e sset_Cons\<close>)
  from Cons.IH [OF this] obtain A where A: "erase_expired es ?m = Inr (m\<lparr>activeTimers := A\<rparr>)"
    "consistent (map snd es @ p # E) (m\<lparr>activeTimers := A\<rparr>)" by auto
  have "consistent (map snd (e # es) @ E) (m\<lparr>activeTimers := A\<rparr>)"
    using A(2) consistent_perm [of "map snd es @ p # E" "map snd (e # es) @ E"] by (auto simp: e)
  with A(1) t act show ?case by (auto simp: e)
qed

lemma expired_split:
  assumes "consistent E m"
  shows "takeWhile (before_sentry now) (timers m) = filter (\<lambda>e. fst e \<le> now) (timers m)"
    and "dropWhile (before_sentry now) (timers m) = filter (\<lambda>e. now < fst e) (timers m)"
proof -
  have sent: "before_sentry now e \<longleftrightarrow> fst e \<le> now" if "e \<in> set (timers m)" for e
    using that consistentD(4) [OF assms, of "fst e" "snd e"]
    by (auto simp: before_sentry_def less_prod_def' le_less)
  have "takeWhile (before_sentry now) (timers m) = takeWhile (\<lambda>e. fst e \<le> now) (timers m)"
    "dropWhile (before_sentry now) (timers m) = dropWhile (\<lambda>e. fst e \<le> now) (timers m)"
    by (auto intro: takeWhile_cong dropWhile_cong simp: sent)
  moreover have "takeWhile (\<lambda>e. fst e \<le> now) xs = filter (\<lambda>e. fst e \<le> now) xs
     \<and> dropWhile (\<lambda>e. fst e \<le> now) xs = filter (\<lambda>e. now < fst e) xs"
    if "sorted xs" for xs :: "entry list"
    using that by (induction xs) (auto simp: filter_empty_conv less_eq_prod_def not_le
        intro!: filter_True [symmetric] filter_False [symmetric])
  ultimately show "takeWhile (before_sentry now) (timers m) = filter (\<lambda>e. fst e \<le> now) (timers m)"
    "dropWhile (before_sentry now) (timers m) = filter (\<lambda>e. now < fst e) (timers m)"
    using consistentD(1) [OF assms] by (auto simp: sset_def)
qed

lemma getExpired_spec:
  fixes now :: timestamp
  assumes c: "consistent [] m"
  defines "ex \<equiv> filter (\<lambda>e. fst e \<le> now) (timers m)"
  shows "\<exists>A. getExpired now m = Inr (ex, m\<lparr>timers := filter (\<lambda>e. now < fst e) (timers m), activeTimers := A\<rparr>)
      \<and> consistent (map snd ex) (m\<lparr>timers := filter (\<lambda>e. now < fst e) (timers m), activeTimers := A\<rparr>)"
proof -
  let ?rest = "filter (\<lambda>e. now < fst e) (timers m)"
  let ?m = "m\<lparr>timers := ?rest\<rparr>"
  note split = expired_split [OF c, of now]
  have "ex @ ?rest = timers m"
    using takeWhile_dropWhile_id [of "before_sentry now" "timers m"] split by (simp add: ex_def)
  then have "consistent [] (?m\<lparr>timers := ex @ timers ?m\<rparr>)" using c by simp
  from erase_expired_spec [OF this] obtain A where A: "erase_expired ex ?m = Inr (?m\<lparr>activeTimers := A\<rparr>)"
    "consistent (map snd ex) (?m\<lparr>activeTimers := A\<rparr>)" by auto
  have "?rest = [] \<or> now < fst (hd ?rest)"
    using hd_in_set [of ?rest] by (auto simp del: hd_in_set)
  then show ?thesis
    using A consistent_length [OF c] consistent_length [OF A(2)] split
    by (intro exI [of _ A]) (simp add: getExpired_def Let_def ex_def)
qed

lemma run_expired_spec:
  assumes "malloc_ok malloc"
  shows "consistent E m \<Longrightarrow> snd ` set es \<subseteq> set E \<Longrightarrow>
    rsafe (\<lambda>m'. consistent E m' \<and> callingExpiredTimers m' = callingExpiredTimers m
        \<and> (\<forall>p \<in> set E. tlookup m' p = tlookup m p)
        \<and> ran m' = ran m @ map (\<lambda>e. (snd e, t_sequence (the (tlookup m (snd e))))) es)
      (run_expired malloc es m)"
proof (induction es arbitrary: m)
  case Nil
  then show ?case by simp
next
  case (Cons e es)
  obtain t where t: "tlookup m (snd e) = Some t"
    using consistentD(8) [OF Cons.prems(1), of "snd e"] Cons.prems(2) by auto
  let ?m = "m\<lparr>ran := ran m @ [(snd e, t_sequence t)]\<rparr>"
  have "rsafe (frame_ok E ?m) (run_cmds malloc (t_cb t) ?m)"
    by (rule run_cmds_frame [OF assms]) (simp add: Cons.prems)
  then have "rsafe (\<lambda>m'. consistent E m' \<and> callingExpiredTimers m' = callingExpiredTimers m
        \<and> (\<forall>p \<in> set E. tlookup m' p = tlookup m p)
        \<and> ran m' = ran m @ map (\<lambda>e. (snd e, t_sequence (the (tlookup m (snd e))))) (e # es))
      (rbind (run_cmds malloc (t_cb t) ?m) (run_expired malloc es))"
  proof (rule rsafe_bind)
    fix x
    assume f: "frame_ok E ?m x"
    then have cx: "consistent E x" and look: "\<forall>p \<in> set E. tlookup x p = tlookup m p"
      by (simp_all add: frame_ok_def)
    have same: "map (\<lambda>e. (snd e, t_sequence (the (tlookup x (snd e))))) es =
        map (\<lambda>e. (snd e, t_sequence (the (tlookup m (snd e))))) es"
      using look Cons.prems(2) by (auto intro!: map_cong)
    have sub: "snd ` set es \<subseteq> set E" using Cons.prems(2) by simp
    show "rsafe (\<lambda>m'. consistent E m' \<and> callingExpiredTimers m' = callingExpiredTimers m
        \<and> (\<forall>p \<in> set E. tlookup m' p = tlookup m p)
        \<and> ran m' = ran m @ map (\<lambda>e. (snd e, t_sequence (the (tlookup m (snd e))))) (e # es))
      (run_expired malloc es x)"
      by (rule rsafe_mono [OF Cons.IH [OF cx sub]])
        (use f look same t in \<open>simp add: frame_ok_def\<close>)
  qed
  then show ?case using t by simp
qed

text \<open>The entry \<^verbatim>\<open>reset\<close> puts back for an expired timer, if any.\<close>

definition requeued :: "timestamp \<Rightarrow> timer_manger \<Rightarrow> entry \<Rightarrow> entry set" where
  "requeued now m it =
     (case tlookup m (snd it) of None \<Rightarrow> {}
      | Some t \<Rightarrow>
          if t_recurring t \<and> (snd it, t_sequence t) \<notin> set (cancelingTimers m)
          then (case addTime now (t_interval t) of Inl _ \<Rightarrow> {} | Inr e \<Rightarrow> {(e, snd it)})
          else {})"

lemma requeued_iff:
  "(e, p) \<in> requeued now m it \<longleftrightarrow> p = snd it \<and> (\<exists>t. tlookup m p = Some t \<and> t_recurring t
     \<and> (p, t_sequence t) \<notin> set (cancelingTimers m) \<and> addTime now (t_interval t) = Inr e)"
  by (auto simp: requeued_def split: option.splits sum.splits)

lemma reset_loop_spec:
  "consistent (map snd es) m \<Longrightarrow>
   rsafe (\<lambda>m'. consistent [] m' \<and> ran m' = ran m
        \<and> set (timers m') = set (timers m) \<union> (\<Union>e \<in> set es. requeued now m e))
     (reset_loop es now m)"
proof (induction es arbitrary: m)
  case Nil
  then show ?case by simp
next
  case (Cons e es)
  let ?p = "snd e"
  have c: "consistent (?p # map snd es) m" using Cons.prems by simp
  note d = consistentD [OF c]
  obtain t where t: "tlookup m ?p = Some t" using d(8) [of ?p] by auto
  have later: "requeued now x e' = requeued now m e'"
    if "e' \<in> set es" "cancelingTimers x = cancelingTimers m" "\<And>q. q \<noteq> ?p \<Longrightarrow> tlookup x q = tlookup m q" for x e'
  proof -
    have "snd e' \<in> set (map snd es)" using that(1) by simp
    then have "snd e' \<noteq> ?p" using d(3) by (metis distinct.simps(2))
    then show ?thesis unfolding requeued_def that(2) using that(3) by simp
  qed
  show ?case
  proof (cases "t_recurring t \<and> (?p, t_sequence t) \<notin> set (cancelingTimers m)")
    case False
    let ?m = "m\<lparr>heap := AList.delete ?p (heap m)\<rparr>"
    have "rsafe (\<lambda>m'. consistent [] m' \<and> ran m' = ran ?m
        \<and> set (timers m') = set (timers ?m) \<union> (\<Union>e \<in> set es. requeued now ?m e)) (reset_loop es now ?m)"
      by (rule Cons.IH) (rule consistent_delete(2) [OF c])
    moreover have "requeued now m e = {}" using False t by (auto simp: requeued_def)
    moreover have "(\<Union>e \<in> set es. requeued now ?m e) = (\<Union>e \<in> set es. requeued now m e)"
      by (rule SUP_cong [OF refl], rule later) (simp_all add: delete_conv')
    ultimately show ?thesis using False t consistent_delete(1) [OF c] by auto
  next
    case True
    show ?thesis
    proof (cases "addTime now (t_interval t)")
      case (Inl err)
      then have "err = Signed_overflow"
        by (auto simp: addTime_def ts_checked_def Let_def split: if_splits)
      with Inl True t show ?thesis by (simp add: restart_def)
    next
      case (Inr when')
      let ?t = "t\<lparr>t_expiration := when'\<rparr>"
      let ?m = "m\<lparr>heap := AList.update ?p ?t (heap m)\<rparr>"
      let ?m' = "?m\<lparr>timers := sset_insert (when', ?p) (timers m),
                    activeTimers := sset_insert (?p, t_sequence t) (activeTimers m)\<rparr>"
      have up: "tlookup ?m ?p = Some ?t" by (simp add: update_conv')
      note ins = insert_timer_spec [OF consistent_update [OF c, of ?t] up]
      have ins': "\<exists>b. insert_timer ?p ?m = Inr (b, ?m')" and c': "consistent (map snd es) ?m'"
        using ins by simp_all
      have "rsafe (\<lambda>m'. consistent [] m' \<and> ran m' = ran ?m'
          \<and> set (timers m') = set (timers ?m') \<union> (\<Union>e \<in> set es. requeued now ?m' e)) (reset_loop es now ?m')"
        by (rule Cons.IH) (rule c')
      moreover have "requeued now m e = {(when', ?p)}" using True t Inr by (simp add: requeued_def)
      moreover have "(\<Union>e \<in> set es. requeued now ?m' e) = (\<Union>e \<in> set es. requeued now m e)"
        by (rule SUP_cong [OF refl], rule later) (simp_all add: update_conv')
      ultimately show ?thesis
        using True t Inr ins' by (auto simp: restart_def elim!: rsafe_mono)
    qed
  qed
qed

lemma reset_spec:
  assumes "consistent (map snd es) m"
  shows "rsafe (\<lambda>m'. consistent [] m' \<and> ran m' = ran m
        \<and> set (timers m') = set (timers m) \<union> (\<Union>e \<in> set es. requeued now m e)
        \<and> (timers m' \<noteq> [] \<longrightarrow> ts_valid (fst (hd (timers m'))) \<longrightarrow> armed m' = Some (fst (hd (timers m')))))
     (reset es now now' m)"
  unfolding reset_def
proof (rule rsafe_bind [OF reset_loop_spec [OF assms]])
  fix x
  assume x: "consistent [] x \<and> ran x = ran m
        \<and> set (timers x) = set (timers m) \<union> (\<Union>e \<in> set es. requeued now m e)"
  let ?next = "if timers x = [] then Inr ts_invalid
     else rbind (deref x (snd (hd (timers x)))) (\<lambda>t. Inr (t_expiration t))"
  have next_ok: "?next = Inr (if timers x = [] then ts_invalid else fst (hd (timers x)))"
  proof (cases "timers x = []")
    case False
    then have "(fst (hd (timers x)), snd (hd (timers x))) \<in> set (timers x)" by simp
    with x obtain t where "tlookup x (snd (hd (timers x))) = Some t" "t_expiration t = fst (hd (timers x))"
      using consistentD(5) by blast
    then show ?thesis using False by simp
  qed simp
  show "rsafe (\<lambda>m'. consistent [] m' \<and> ran m' = ran m
        \<and> set (timers m') = set (timers m) \<union> (\<Union>e \<in> set es. requeued now m e)
        \<and> (timers m' \<noteq> [] \<longrightarrow> ts_valid (fst (hd (timers m'))) \<longrightarrow> armed m' = Some (fst (hd (timers m')))))
     (rbind ?next (\<lambda>nextExpire. if ts_valid nextExpire then resetTimerfd now' nextExpire x else Inr x))"
    unfolding next_ok using x
    by (auto intro!: rsafe_mono [OF resetTimerfd_spec])
qed

lemma handleRead_spec:
  fixes now :: timestamp
  assumes "malloc_ok malloc" "consistent [] m"
  defines "due \<equiv> filter (\<lambda>e. fst e \<le> now) (timers m)"
  shows "rsafe (\<lambda>m'. consistent [] m'
        \<and> ran m' = ran m @ map (\<lambda>e. (snd e, t_sequence (the (tlookup m (snd e))))) due
        \<and> (timers m' \<noteq> [] \<longrightarrow> ts_valid (fst (hd (timers m'))) \<longrightarrow> armed m' = Some (fst (hd (timers m')))))
      (handleRead malloc 8 now now' m)"
proof -
  from getExpired_spec [OF assms(2), of now] obtain A where A:
    "getExpired now m = Inr (due, m\<lparr>timers := filter (\<lambda>e. now < fst e) (timers m), activeTimers := A\<rparr>)"
    "consistent (map snd due) (m\<lparr>timers := filter (\<lambda>e. now < fst e) (timers m), activeTimers := A\<rparr>)"
    by (auto simp: due_def)
  let ?m = "m\<lparr>timers := filter (\<lambda>e. now < fst e) (timers m), activeTimers := A,
      callingExpiredTimers := True, cancelingTimers := []\<rparr>"
  have c: "consistent (map snd due) ?m" using A(2) by simp
  have "rsafe (\<lambda>m'. consistent [] m'
        \<and> ran m' = ran m @ map (\<lambda>e. (snd e, t_sequence (the (tlookup m (snd e))))) due
        \<and> (timers m' \<noteq> [] \<longrightarrow> ts_valid (fst (hd (timers m'))) \<longrightarrow> armed m' = Some (fst (hd (timers m')))))
      (rbind (run_expired malloc due ?m) (\<lambda>m2. reset due now now' (m2\<lparr>callingExpiredTimers := False\<rparr>)))"
  proof (rule rsafe_bind [OF run_expired_spec [OF assms(1) c]])
    fix x
    assume x: "consistent (map snd due) x \<and> callingExpiredTimers x = callingExpiredTimers ?m
        \<and> (\<forall>p \<in> set (map snd due). tlookup x p = tlookup ?m p)
        \<and> ran x = ran ?m @ map (\<lambda>e. (snd e, t_sequence (the (tlookup ?m (snd e))))) due"
    then have "consistent (map snd due) (x\<lparr>callingExpiredTimers := False\<rparr>)" by simp
    from reset_spec [OF this, of now now'] x
    show "rsafe (\<lambda>m'. consistent [] m'
        \<and> ran m' = ran m @ map (\<lambda>e. (snd e, t_sequence (the (tlookup m (snd e))))) due
        \<and> (timers m' \<noteq> [] \<longrightarrow> ts_valid (fst (hd (timers m'))) \<longrightarrow> armed m' = Some (fst (hd (timers m')))))
      (reset due now now' (x\<lparr>callingExpiredTimers := False\<rparr>))"
      by (auto elim!: rsafe_mono)
  qed simp
  then show ?thesis using A(1) by (simp add: handleRead_def readTimerfd_def)
qed

section \<open>Reachable states\<close>

inductive tm_reachable :: "(addr list \<Rightarrow> addr option) \<Rightarrow> timer_manger \<Rightarrow> bool" for malloc where
  init: "tm_reachable malloc TimerManger_ctor"
| add: "tm_reachable malloc m \<Longrightarrow> addTimer malloc now cb when interval m = Inr (i, m') \<Longrightarrow>
     tm_reachable malloc m'"
| cancel: "tm_reachable malloc m \<Longrightarrow> cancel i m = Inr m' \<Longrightarrow> tm_reachable malloc m'"
| fire: "tm_reachable malloc m \<Longrightarrow> handleRead malloc 8 now now' m = Inr m' \<Longrightarrow> tm_reachable malloc m'"

lemma tm_reachable_consistent:
  assumes "malloc_ok malloc" "tm_reachable malloc m"
  shows "consistent [] m"
  using assms(2)
proof (induction rule: tm_reachable.induct)
  case init
  show ?case by (rule consistent_ctor)
next
  case (add m now cb "when" interval i m')
  have "\<And>live p. malloc live = Some p \<Longrightarrow> p \<notin> set live \<and> p < UINTPTR_MAX"
    using assms(1) by (auto simp: malloc_ok_def)
  from rsafeD [OF addTimer_spec [OF add.IH this] add.hyps(2)] show ?case by simp
next
  case (cancel m i m')
  from cancel_frame [OF cancel.IH, of i] cancel.hyps(2) show ?case by (auto simp: frame_ok_def)
next
  case (fire m now now' m')
  from rsafeD [OF handleRead_spec [OF assms(1) fire.IH] fire.hyps(2)] show ?case by simp
qed

lemma consistent_TimerManger_dtor:
  "consistent (map snd es) m \<Longrightarrow> \<exists>m'. delete_all es m = Inr m'"
  by (induction es arbitrary: m) (auto simp: consistent_delete)

text \<open>What clients see: the pending timers, by address, sequence number and expiration.\<close>

definition pending :: "timer_manger \<Rightarrow> (addr \<times> int \<times> timestamp) set" where
  "pending m = {(p, t_sequence t, w) | p t w. (w, p) \<in> set (timers m) \<and> tlookup m p = Some t}"

lemma pending_iff:
  "(p, s, w) \<in> pending m \<longleftrightarrow> (w, p) \<in> set (timers m) \<and> (\<exists>t. tlookup m p = Some t \<and> t_sequence t = s)"
  by (auto simp: pending_def)

definition malloc_next :: "addr list \<Rightarrow> addr option" where
  "malloc_next live = (let p = Suc (foldr max live 0) in if p < UINTPTR_MAX then Some p else None)"

lemma malloc_next_ok: "malloc_ok malloc_next"
proof -
  have "x \<in> set live \<Longrightarrow> x \<le> foldr max live 0" for x :: nat and live
    by (induction live) auto
  then show ?thesis by (fastforce simp: malloc_ok_def malloc_next_def Let_def split: if_splits)
qed

lemma run_expired_silent:
  "consistent E m \<Longrightarrow> snd ` set es \<subseteq> set E \<Longrightarrow> (\<And>e t. e \<in> set es \<Longrightarrow> tlookup m (snd e) = Some t \<Longrightarrow> t_cb t = [])
   \<Longrightarrow> \<exists>r. run_expired malloc es m = Inr (m\<lparr>ran := r\<rparr>)"
proof (induction es arbitrary: m)
  case Nil
  then show ?case by (intro exI [of _ "ran m"]) simp
next
  case (Cons e es)
  obtain t where t: "tlookup m (snd e) = Some t"
    using consistentD(8) [OF Cons.prems(1), of "snd e"] Cons.prems(2) by auto
  let ?m = "m\<lparr>ran := ran m @ [(snd e, t_sequence t)]\<rparr>"
  have "\<exists>r. run_expired malloc es ?m = Inr (?m\<lparr>ran := r\<rparr>)"
    by (rule Cons.IH) (use Cons.prems in auto)
  with t Cons.prems(3) [of e t] show ?case by auto
qed

section \<open>Properties\<close>

text \<open>
  C2: The timer queue never fails.  With an allocator that returns only free
  addresses, in every state reachable by adding timers, cancelling and handling the
  timer descriptor (whose callbacks may themselves add and cancel timers, including
  the timer being run), the two sets have the same size, \<^verbatim>\<open>addTimer\<close> and
  \<^verbatim>\<open>handleRead\<close> stop only when memory or the 64-bit time range is exhausted,
  \<^verbatim>\<open>cancel\<close> always returns, and so does the destructor: no assertion fails and no
  freed \<^verbatim>\<open>Timer\<close> is dereferenced or deleted again.
\<close>

theorem timer_queue_safe:
  assumes "malloc_ok malloc" "tm_reachable malloc m"
  shows "length (timers m) = length (activeTimers m)
    \<and> rsafe (\<lambda>(i, m'). tm_reachable malloc m') (addTimer malloc now cb when interval m)
    \<and> (\<exists>m'. cancel i m = Inr m' \<and> tm_reachable malloc m')
    \<and> rsafe (tm_reachable malloc) (handleRead malloc 8 now now' m)
    \<and> is_ok (TimerManger_dtor m)"
proof -
  have c: "consistent [] m" by (rule tm_reachable_consistent [OF assms])
  have m: "\<And>live p. malloc live = Some p \<Longrightarrow> p \<notin> set live \<and> p < UINTPTR_MAX"
    using assms(1) by (auto simp: malloc_ok_def)
  have "rsafe (\<lambda>(i, m'). tm_reachable malloc m') (addTimer malloc now cb when interval m)"
    by (rule rsafe_mono [OF addTimer_spec [OF c m]]) (auto intro: tm_reachable.add [OF assms(2)])
  moreover have "rsafe (tm_reachable malloc) (handleRead malloc 8 now now' m)"
    by (rule rsafe_mono [OF handleRead_spec [OF assms(1) c]]) (auto intro: tm_reachable.fire [OF assms(2)])
  moreover have "\<exists>m'. cancel i m = Inr m' \<and> tm_reachable malloc m'"
    using cancel_frame [OF c, of i] tm_reachable.cancel [OF assms(2)] by blast
  moreover have "is_ok (TimerManger_dtor m)"
  proof -
    note d = consistentD [OF c]
    have "distinct (map snd (timers m))"
      using d(1) timers_unique [OF c] by (auto simp: distinct_map sset_def inj_on_def)
    then have "consistent (map snd (timers m)) (m\<lparr>timers := [], activeTimers := []\<rparr>)"
      using d(4,5) by (fastforce simp: consistent_def)
    then obtain x where "delete_all (timers m) (m\<lparr>timers := [], activeTimers := []\<rparr>) = Inr x"
      using consistent_TimerManger_dtor by blast
    moreover have "is_ok (delete_all es y) = is_ok (delete_all es z)" if "heap y = heap z" for es y z
      using that by (induction es arbitrary: y z) (auto simp: delete_timer_def)
    ultimately show ?thesis by (metis TimerManger_dtor_def is_ok_simps(1) timer_manger.select_convs(1)
          timer_manger.surjective timer_manger.update_convs(2,3))
  qed
  ultimately show ?thesis using consistent_length [OF c] by simp
qed

definition demo_timers :: "timer_manger result" where
  "demo_timers =
     rbind (addTimer malloc_next (Timestamp 10) [Cmd_cancel \<lparr>id_timer = 1, id_sequence = 1\<rparr>]
              (Timestamp 500) (double_of_int 1) TimerManger_ctor) (\<lambda>(_, m).
     rbind (addTimer malloc_next (Timestamp 10) [] (Timestamp 400) (double_of_int 2) m) (\<lambda>(_, m'). Inr m'))"

lemmas timer_eval =
  addTimer_def addTimer_ptr_def insert_timer_def resetTimerfd_def howMuchTimeFromNow_def
  malloc_next_def TimerManger_ctor_def new_timer_def double_of_int_def round53_exact
  double_pos_def wrap_int64_def deref_def in_int64_def kMicroSecondsPerSecond_def Let_def
  timespec_valid_def UINTPTR_MAX_def sset_insert_def

lemma demo_timers_value:
  "demo_timers = Inr \<lparr>
     heap = [(1, \<lparr>t_cb = [Cmd_cancel \<lparr>id_timer = 1, id_sequence = 1\<rparr>], t_expiration = Timestamp 500,
                  t_interval = Dbl 1 0, t_recurring = True, t_sequence = 1\<rparr>),
             (2, \<lparr>t_cb = [], t_expiration = Timestamp 400,
                  t_interval = Dbl 2 0, t_recurring = True, t_sequence = 2\<rparr>)],
     timers = [(Timestamp 400, 2), (Timestamp 500, 1)], activeTimers = [(1, 1), (2, 2)],
     callingExpiredTimers = False, cancelingTimers = [], s_numCreated = 2,
     armed = Some (Timestamp 400), ran = []\<rparr>"
  by (simp add: demo_timers_def timer_eval)

lemma demo_timers_reachable: "demo_timers = Inr m \<Longrightarrow> tm_reachable malloc_next m"
  unfolding demo_timers_def
  by (clarsimp simp: rbind_eq_Inr) (blast intro: tm_reachable.intros)

lemma demo_fire_ok:
  assumes "demo_timers = Inr m"
  shows "is_ok (handleRead malloc_next 8 (Timestamp 450) (Timestamp 460) m)"
  using assms unfolding demo_timers_value
  by (auto simp: handleRead_def readTimerfd_def getExpired_def before_sentry_def reset_def restart_def
      addTime_def ts_checked_def ts_valid_def double_mult_int_def double_trunc_def sset_erase_def timer_eval)

theorem timer_queue_safe_witness:
  "\<exists>m. demo_timers = Inr m \<and> length (timers m) = 2
     \<and> rsafe (tm_reachable malloc_next) (handleRead malloc_next 8 (Timestamp 600) (Timestamp 601) m)"
proof -
  obtain m where m: "demo_timers = Inr m" "length (timers m) = 2" by (simp add: demo_timers_value)
  show ?thesis
    using timer_queue_safe [OF malloc_next_ok demo_timers_reachable [OF m(1)]] m by blast
qed

text \<open>
  C7: Expired timers run in order, once each.  When the timer descriptor of a
  reachable queue becomes readable at time \<open>now\<close> and handling it returns, the
  callbacks run are those of exactly the timers whose expiration is at most \<open>now\<close>,
  in the order of their expiration; and if a timer with a valid expiration is then
  first in the queue, the descriptor is armed for it.
\<close>

theorem expired_timers_run_in_order:
  assumes "malloc_ok malloc" "tm_reachable malloc m" "handleRead malloc 8 now now' m = Inr m'"
  shows "ran m' = ran m @ map (\<lambda>(w, p). (p, t_sequence (the (tlookup m p))))
                          (filter (\<lambda>(w, p). w \<le> now) (timers m))
    \<and> sorted (map fst (filter (\<lambda>(w, p). w \<le> now) (timers m)))
    \<and> (timers m' \<noteq> [] \<longrightarrow> ts_valid (fst (hd (timers m'))) \<longrightarrow> armed m' = Some (fst (hd (timers m'))))"
proof -
  have c: "consistent [] m" by (rule tm_reachable_consistent [OF assms(1,2)])
  have "sorted (map fst xs)" if "sorted xs" for xs :: "entry list"
    using that by (induction xs) (auto simp: less_eq_prod_def)
  moreover have "sorted (filter (\<lambda>(w, p). w \<le> now) (timers m))"
    using consistentD(1) [OF c] by (simp add: sset_def sorted_wrt_filter)
  ultimately show ?thesis
    using rsafeD [OF handleRead_spec [OF assms(1) c] assms(3)] by (simp add: split_def)
qed

theorem expired_timers_run_in_order_witness:
  "\<exists>m m'. demo_timers = Inr m
     \<and> handleRead malloc_next 8 (Timestamp 450) (Timestamp 460) m = Inr m' \<and> ran m' = [(2, 2)]"
proof -
  obtain m where m: "demo_timers = Inr m" by (simp add: demo_timers_value)
  obtain m' where m': "handleRead malloc_next 8 (Timestamp 450) (Timestamp 460) m = Inr m'"
    using demo_fire_ok [OF m] by (rule is_okE)
  have "ran m' = [(2, 2)]"
    using expired_timers_run_in_order [OF malloc_next_ok demo_timers_reachable [OF m] m'] m
    by (simp add: demo_timers_value) auto
  with m m' show ?thesis by blast
qed

text \<open>
  C27: Cancellation removes exactly the timer that was asked for.  In a reachable
  queue \<^verbatim>\<open>cancel\<close> returns, and the pending timers afterwards are those before
  without the one with that address and sequence number; in particular an id whose
  timer is gone leaves every pending timer in place, even one that was allocated at
  the same address.
\<close>

theorem cancel_exact:
  assumes "malloc_ok malloc" "tm_reachable malloc m"
  shows "\<exists>m'. cancel i m = Inr m' \<and> pending m' = pending m - {(id_timer i, id_sequence i, w) | w. True}"
proof -
  have c: "consistent [] m" by (rule tm_reachable_consistent [OF assms])
  note d = consistentD [OF c]
  show ?thesis
  proof (cases "(id_timer i, id_sequence i) \<in> set (activeTimers m)")
    case True
    then show ?thesis
    proof (rule cancel_active [OF c])
      fix t
      assume t: "tlookup m (id_timer i) = Some t" "t_sequence t = id_sequence i"
      let ?m = "m\<lparr>timers := sset_erase (t_expiration t, id_timer i) (timers m),
        activeTimers := sset_erase (id_timer i, id_sequence i) (activeTimers m),
        heap := AList.delete (id_timer i) (heap m)\<rparr>"
      assume "cancel i m = Inr ?m"
      moreover have "pending ?m = pending m - {(id_timer i, id_sequence i, w) | w. True}"
        using t by (auto simp: set_eq_iff pending_iff delete_conv')
      ultimately show ?thesis by blast
    qed
  next
    case False
    have "(id_timer i, id_sequence i, w) \<notin> pending m" for w
      using False d(5) [of w "id_timer i"] d(6) [of "id_timer i" "id_sequence i"]
      by (auto simp: pending_def)
    then have "pending m - {(id_timer i, id_sequence i, w) | w. True} = pending m" by auto
    moreover have "pending (m\<lparr>cancelingTimers := l\<rparr>) = pending m" for l by (simp add: pending_def)
    ultimately show ?thesis using cancel_inactive [OF c False] by simp
  qed
qed

theorem cancel_exact_witness:
  "\<exists>m m'. demo_timers = Inr m \<and> cancel \<lparr>id_timer = 2, id_sequence = 7\<rparr> m = Inr m'
     \<and> pending m' = pending m - {(2, 7, w) | w. True}"
proof -
  obtain m where m: "demo_timers = Inr m" by (simp add: demo_timers_value)
  show ?thesis
    using cancel_exact [OF malloc_next_ok demo_timers_reachable [OF m], of "\<lparr>id_timer = 2, id_sequence = 7\<rparr>"] m
    by auto
qed

text \<open>
  Adding a timer.  In a reachable queue, a successful \<^verbatim>\<open>addTimer\<close> makes exactly
  the requested timer pending in addition to those there were, under an address no
  live timer has and the next sequence number.
\<close>

theorem addTimer_exact:
  assumes "malloc_ok malloc" "tm_reachable malloc m"
    and "addTimer malloc now cb when interval m = Inr (i, m')"
  shows "pending m' = insert (id_timer i, id_sequence i, when) (pending m)
    \<and> tlookup m (id_timer i) = None \<and> id_sequence i = wrap_int64 (s_numCreated m + 1)"
proof -
  have c: "consistent [] m" by (rule tm_reachable_consistent [OF assms(1,2)])
  have ma: "\<And>live p. malloc live = Some p \<Longrightarrow> p \<notin> set live \<and> p < UINTPTR_MAX"
    using assms(1) by (auto simp: malloc_ok_def)
  note a = rsafeD [OF addTimer_spec [OF c ma] assms(3), simplified]
  have "(w, id_timer i) \<notin> set (timers m)" for w
    using a consistentD(5) [OF c, of w "id_timer i"] by auto
  then show ?thesis using a by (auto simp: pending_def new_timer_def split: if_splits)
qed

theorem addTimer_exact_witness:
  "\<exists>i m'. addTimer malloc_next (Timestamp 10) [] (Timestamp 500) (double_of_int 0) TimerManger_ctor = Inr (i, m')
     \<and> pending m' = insert (id_timer i, id_sequence i, Timestamp 500) (pending TimerManger_ctor)"
proof -
  have "is_ok (addTimer malloc_next (Timestamp 10) [] (Timestamp 500) (double_of_int 0) TimerManger_ctor)"
    by (simp add: timer_eval)
  then obtain x where "addTimer malloc_next (Timestamp 10) [] (Timestamp 500) (double_of_int 0)
      TimerManger_ctor = Inr x" by (rule is_okE)
  moreover obtain i m' where "x = (i, m')" by (cases x)
  ultimately show ?thesis
    using addTimer_exact [OF malloc_next_ok tm_reachable.init] by blast
qed

text \<open>
  What the queue holds after an expiry.  When the callbacks of the timers due at
  \<open>now\<close> make no calls back into the queue and handling returns, the queue holds the
  timers that were not due, unchanged, and each recurring timer that was due, at
  \<open>now\<close> plus its interval; one-shot timers that were due are gone.
\<close>

theorem expiry_requeues_recurring:
  assumes "malloc_ok malloc" "tm_reachable malloc m" "handleRead malloc 8 now now' m = Inr m'"
    and "\<And>w p t. (w, p) \<in> set (timers m) \<Longrightarrow> w \<le> now \<Longrightarrow> tlookup m p = Some t \<Longrightarrow> t_cb t = []"
  shows "set (timers m') = {(w, p). (w, p) \<in> set (timers m) \<and> now < w}
     \<union> {(e, p) | e p w t. (w, p) \<in> set (timers m) \<and> w \<le> now \<and> tlookup m p = Some t
          \<and> t_recurring t \<and> addTime now (t_interval t) = Inr e}"
proof -
  have c: "consistent [] m" by (rule tm_reachable_consistent [OF assms(1,2)])
  let ?due = "filter (\<lambda>e. fst e \<le> now) (timers m)" and ?rest = "filter (\<lambda>e. now < fst e) (timers m)"
  from getExpired_spec [OF c, of now] obtain A where A:
    "getExpired now m = Inr (?due, m\<lparr>timers := ?rest, activeTimers := A\<rparr>)"
    "consistent (map snd ?due) (m\<lparr>timers := ?rest, activeTimers := A\<rparr>)" by auto
  let ?m = "m\<lparr>timers := ?rest, activeTimers := A, callingExpiredTimers := True, cancelingTimers := []\<rparr>"
  have c2: "consistent (map snd ?due) ?m" using A(2) by simp
  have "\<exists>r. run_expired malloc ?due ?m = Inr (?m\<lparr>ran := r\<rparr>)"
    by (rule run_expired_silent [OF c2]) (use assms(4) in auto)
  then obtain r where r: "run_expired malloc ?due ?m = Inr (?m\<lparr>ran := r\<rparr>)" ..
  let ?x = "?m\<lparr>ran := r, callingExpiredTimers := False\<rparr>"
  have "reset ?due now now' ?x = Inr m'"
    using assms(3) A(1) r by (simp add: handleRead_def readTimerfd_def)
  moreover have "consistent (map snd ?due) ?x" using c2 by simp
  ultimately have u: "set (timers m') = set (timers ?x) \<union> (\<Union>e \<in> set ?due. requeued now ?x e)"
    by (blast dest: rsafeD [OF reset_spec])
  have req: "requeued now ?x it = {(e, p). p = snd it \<and> (\<exists>t. tlookup m p = Some t \<and> t_recurring t
      \<and> addTime now (t_interval t) = Inr e)}" for it
    by (auto simp: requeued_iff)
  show ?thesis
    unfolding u req by auto
qed

theorem expiry_requeues_recurring_witness:
  "\<exists>m m'. demo_timers = Inr m
     \<and> handleRead malloc_next 8 (Timestamp 450) (Timestamp 460) m = Inr m'
     \<and> (Timestamp 2000450, 2) \<in> set (timers m')"
proof -
  obtain m where m: "demo_timers = Inr m" by (simp add: demo_timers_value)
  obtain m' where m': "handleRead malloc_next 8 (Timestamp 450) (Timestamp 460) m = Inr m'"
    using demo_fire_ok [OF m] by (rule is_okE)
  have silent: "\<And>w p t. (w, p) \<in> set (timers m) \<Longrightarrow> w \<le> Timestamp 450 \<Longrightarrow> tlookup m p = Some t \<Longrightarrow> t_cb t = []"
    using m by (auto simp: demo_timers_value)
  have "addTime (Timestamp 450) (Dbl 2 0) = Inr (Timestamp 2000450)"
    by (simp add: addTime_def ts_checked_def double_mult_int_def double_trunc_def timer_eval)
  then have "(Timestamp 2000450, 2) \<in> set (timers m')"
    using expiry_requeues_recurring [OF malloc_next_ok demo_timers_reachable [OF m] m' silent] m
    by (auto simp: demo_timers_value)
  with m m' show ?thesis by blast
qed

end
