(* ===== verification/IOManager.thy ===== *)
theory IOManager
  imports Scheduler Timer
begin

text \<open>
  The I/O manager (\<^verbatim>\<open>qslary/net/IOManager.h\<close>, \<^verbatim>\<open>IOManager.cc\<close>): a scheduler and a
  timer queue over one epoll instance.  The kernel's side is the interest list of
  the epoll descriptor (\<open>k_interest\<close>: the descriptors added and the events they were
  last set to), the descriptors it accepts (\<open>k_accepts\<close>: those that are open, can be
  watched and for which there is room) and the counter of the wake-up \<^verbatim>\<open>eventfd\<close>.
  \<^verbatim>\<open>epoll_ctl\<close> fails, as documented, for a descriptor the kernel does not accept, when
  adding one that is there and when modifying one that is not; its result is ignored
  where the source ignores it.  The kernel drops a descriptor that is closed
  (\<open>kernel_closed\<close>; a descriptor is taken to be the only one of its open file).  What
  \<^verbatim>\<open>epoll_wait\<close> returns is an argument of the round of \<^verbatim>\<open>Idle\<close> that handles it.
  \<^verbatim>\<open>mFdGroups\<close> maps a descriptor to its callbacks; \<^verbatim>\<open>mFdGroups[fd]\<close> for an absent
  descriptor is a null pointer, whose use is \<^const>\<open>Undefined_behaviour\<close>.
\<close>

unbundle bit_operations_syntax

section \<open>Definitions\<close>

definition EPOLLIN :: u32 where "EPOLLIN = 1"
definition EPOLLPRI :: u32 where "EPOLLPRI = 2"
definition EPOLLOUT :: u32 where "EPOLLOUT = 4"
definition EPOLLERR :: u32 where "EPOLLERR = 8"
definition EPOLLHUP :: u32 where "EPOLLHUP = 16"

(* net/IOManager.h 19-35: FdCallback *)
record fd_callback =
  concernRead :: bool
  concernWrite :: bool
  readCallback :: "callback option"
  writeCallback :: "callback option"

record epoll_event =
  ev_events :: u32
  ev_fd :: int

(* net/IOManager.h 73-79: IOManager *)
record io_manager =
  io_sched :: scheduler_state
  io_timers :: timer_manger
  timerfd :: int
  mWakeupFd :: int
  pendingEventCount :: u64
  mFdGroups :: "(int \<times> fd_callback) list"
  k_interest :: "(int \<times> u32) list"
  k_accepts :: "int \<Rightarrow> bool"
  k_eventfd :: u64

datatype epoll_op = EPOLL_CTL_ADD | EPOLL_CTL_MOD

definition epoll_ctl :: "epoll_op \<Rightarrow> int \<Rightarrow> epoll_event \<Rightarrow> io_manager \<Rightarrow> int \<times> io_manager" where
  "epoll_ctl op fd event m =
     (if k_accepts m fd \<and> (map_of (k_interest m) fd = None) = (op = EPOLL_CTL_ADD)
      then (0, m\<lparr>k_interest := AList.update fd (ev_events event) (k_interest m)\<rparr>)
      else (- 1, m))"

definition kernel_closed :: "int \<Rightarrow> io_manager \<Rightarrow> io_manager" where
  "kernel_closed fd m = m\<lparr>k_interest := AList.delete fd (k_interest m)\<rparr>"

(* net/IOManager.h 21: FdCallback::FdCallback *)
definition new_FdCallback :: fd_callback where
  "new_FdCallback = \<lparr>concernRead = False, concernWrite = False, readCallback = None, writeCallback = None\<rparr>"

(* net/IOManager.cc 156: IOManager::UpdateEpoll *)
definition UpdateEpoll :: "int \<Rightarrow> epoll_event \<Rightarrow> io_manager \<Rightarrow> io_manager" where
  "UpdateEpoll fd event m =
     (let event = event\<lparr>ev_fd := fd\<rparr> in
      if map_of (mFdGroups m) fd = None
      then snd (epoll_ctl EPOLL_CTL_ADD fd event (m\<lparr>mFdGroups := AList.update fd new_FdCallback (mFdGroups m)\<rparr>))
      else snd (epoll_ctl EPOLL_CTL_MOD fd event m))"

definition fd_group :: "int \<Rightarrow> io_manager \<Rightarrow> fd_callback result" where
  "fd_group fd m = (case map_of (mFdGroups m) fd of None \<Rightarrow> Inl Undefined_behaviour | Some g \<Rightarrow> Inr g)"

(* net/IOManager.cc 50: IOManager::AddReadEvent *)
definition AddReadEvent :: "int \<Rightarrow> callback option \<Rightarrow> io_manager \<Rightarrow> (bool \<times> io_manager) result" where
  "AddReadEvent fd cb m =
     (let m1 = UpdateEpoll fd \<lparr>ev_events = EPOLLIN, ev_fd = 0\<rparr> m in
      rbind (fd_group fd m1) (\<lambda>g.
        Inr (True, m1\<lparr>mFdGroups :=
          AList.update fd (g\<lparr>concernRead := True, readCallback := cb\<rparr>) (mFdGroups m1)\<rparr>)))"

(* net/IOManager.cc 61: IOManager::AddWriteEvent *)
definition AddWriteEvent :: "int \<Rightarrow> callback option \<Rightarrow> io_manager \<Rightarrow> (bool \<times> io_manager) result" where
  "AddWriteEvent fd cb m =
     (let m1 = UpdateEpoll fd \<lparr>ev_events = EPOLLOUT, ev_fd = 0\<rparr> m in
      rbind (fd_group fd m1) (\<lambda>g.
        Inr (True, m1\<lparr>mFdGroups :=
          AList.update fd (g\<lparr>concernWrite := True, writeCallback := cb\<rparr>) (mFdGroups m1)\<rparr>)))"

(* net/IOManager.cc 72: IOManager::CancelReadEvent *)
definition CancelReadEvent :: "int \<Rightarrow> io_manager \<Rightarrow> bool \<times> io_manager" where
  "CancelReadEvent fd m =
     (case map_of (mFdGroups m) fd of
        None \<Rightarrow> (True, m)
      | Some g \<Rightarrow> if \<not> concernRead g then (True, m)
          else (True, m\<lparr>mFdGroups := AList.update fd (g\<lparr>concernRead := False\<rparr>) (mFdGroups m)\<rparr>))"

(* net/IOManager.cc 84: IOManager::CancelWriteEvent *)
definition CancelWriteEvent :: "int \<Rightarrow> io_manager \<Rightarrow> bool \<times> io_manager" where
  "CancelWriteEvent fd m =
     (case map_of (mFdGroups m) fd of
        None \<Rightarrow> (True, m)
      | Some g \<Rightarrow> if \<not> concernWrite g then (True, m)
          else (True, m\<lparr>mFdGroups := AList.update fd (g\<lparr>concernWrite := False\<rparr>) (mFdGroups m)\<rparr>))"

(* net/IOManager.h 55: IOManager::CancelAll *)
definition CancelAll :: "int \<Rightarrow> io_manager \<Rightarrow> bool \<times> io_manager" where
  "CancelAll fd m =
     (let (r, m1) = CancelReadEvent fd m in if r then CancelWriteEvent fd m1 else (False, m1))"

(* net/IOManager.cc 96: IOManager::DelFileDesc *)
definition DelFileDesc :: "int \<Rightarrow> io_manager \<Rightarrow> (bool \<times> io_manager) result" where
  "DelFileDesc fd m =
     (case map_of (mFdGroups m) fd of
        None \<Rightarrow> Inl Undefined_behaviour
      | Some _ \<Rightarrow> Inr (True, m\<lparr>mFdGroups := AList.delete fd (mFdGroups m)\<rparr>))"

(* net/IOManager.cc 103: IOManager::IsClean *)
definition io_IsClean_timeout :: "u64 \<Rightarrow> io_manager \<Rightarrow> bool" where
  "io_IsClean_timeout timeout m \<longleftrightarrow> timeout = NOT 0 \<and> pendingEventCount m = 0 \<and> IsClean (io_sched m)"

(* net/IOManager.cc 123: IOManager::IsClean *)
definition io_IsClean :: "io_manager \<Rightarrow> bool" where
  "io_IsClean m \<longleftrightarrow> io_IsClean_timeout 0 m"

(* net/IOManager.cc 113: IOManager::Wakeup *)
definition io_Wakeup :: "io_manager \<Rightarrow> io_manager" where
  "io_Wakeup m =
     (if idleThreadCount (io_sched m) > 0 then m else m\<lparr>k_eventfd := k_eventfd m + 1\<rparr>)"

text \<open>\<^verbatim>\<open>Scheduler::scheduler\<close> on an I/O manager, where \<^verbatim>\<open>Wakeup\<close> is overridden.\<close>

definition io_scheduler :: "callback option \<Rightarrow> io_manager \<Rightarrow> io_manager" where
  "io_scheduler cb m =
     (let (need_wakeup, s) = schedulerNoLock cb (io_sched m); m1 = m\<lparr>io_sched := s\<rparr> in
      if need_wakeup then io_Wakeup m1 else m1)"

(* net/IOManager.cc 183: FdCallback::TriggerEvent *)
definition TriggerEvent :: "fd_callback \<Rightarrow> epoll_event \<Rightarrow> io_manager \<Rightarrow> nat \<times> io_manager" where
  "TriggerEvent g event m =
     (let (n1, m1) = (if concernRead g \<and> ev_events event AND EPOLLIN \<noteq> 0
                      then (1, io_scheduler (readCallback g) m) else (0, m)) in
      if concernRead g \<and> ev_events event AND EPOLLOUT \<noteq> 0
      then (n1 + 1, io_scheduler (writeCallback g) m1) else (n1, m1))"

(* net/IOManager.cc 173: IOManager::ProcessFdEvent *)
definition ProcessFdEvent :: "epoll_event \<Rightarrow> io_manager \<Rightarrow> io_manager result" where
  "ProcessFdEvent event m =
     (let event = (if ev_events event AND (EPOLLERR OR EPOLLHUP) \<noteq> 0
                   then event\<lparr>ev_events := ev_events event OR (EPOLLIN OR EPOLLOUT)\<rparr> else event) in
      rbind (fd_group (ev_fd event) m) (\<lambda>g.
      let (num, m1) = TriggerEvent g event m in
      Inr (m1\<lparr>pendingEventCount := pendingEventCount m1 - word_of_nat num\<rparr>)))"

(* net/IOManager.cc 142-151: IOManager::Idle, the loop over the returned events *)
fun process_events :: "epoll_event list \<Rightarrow> io_manager \<Rightarrow> io_manager result" where
  "process_events [] m = Inr m"
| "process_events (e # es) m =
     (if ev_fd e = mWakeupFd m then process_events es (m\<lparr>k_eventfd := 0\<rparr>)
      else rbind (ProcessFdEvent e m) (process_events es))"

text \<open>
  One round of \<^verbatim>\<open>Idle\<close>: \<^verbatim>\<open>epoll_wait\<close> is repeated while it returns 0, \<open>waits\<close> are its
  results, \<open>None\<close> a failed call, of which the first that is not 0 counts; a failed call
  delivers no events.
\<close>

(* net/IOManager.cc 134-153: IOManager::Idle *)
definition idle_round :: "epoll_event list option list \<Rightarrow> io_manager \<Rightarrow> io_manager result" where
  "idle_round waits m =
     (case dropWhile (\<lambda>es. es = Some []) waits of
        Some es # _ \<Rightarrow> process_events (take 64 es) m
      | _ \<Rightarrow> Inr m)"

(* net/IOManager.cc 21: IOManager::IOManager *)
definition IOManager_ctor :: "(int \<Rightarrow> bool) \<Rightarrow> callback \<Rightarrow> callback \<Rightarrow> int \<Rightarrow> int \<Rightarrow> nat \<Rightarrow> string \<Rightarrow> scheduler_state
    \<Rightarrow> io_manager result" where
  "IOManager_ctor accepts run_cb handleRead_cb tfd wfd threadsNum name world =
     rbind (Scheduler_ctor run_cb threadsNum name world) (\<lambda>s.
     let m = \<lparr>io_sched = s, io_timers = TimerManger_ctor, timerfd = tfd, mWakeupFd = wfd,
              pendingEventCount = 0, mFdGroups = [], k_interest = [], k_accepts = accepts,
              k_eventfd = 0\<rparr>;
         (rt, m1) = epoll_ctl EPOLL_CTL_ADD wfd \<lparr>ev_events = EPOLLIN, ev_fd = wfd\<rparr> m in
     rbind (assert_r (rt = 0)) (\<lambda>_.
     rbind (AddReadEvent tfd (Some handleRead_cb) m1) (\<lambda>(_, m2).
     rbind (start (io_sched m2)) (\<lambda>s'. Inr (m2\<lparr>io_sched := s'\<rparr>)))))"

(* net/IOManager.cc 37: IOManager::~IOManager *)
definition IOManager_dtor :: "io_manager \<Rightarrow> io_manager result" where
  "IOManager_dtor m = rbind (stop (io_sched m)) (\<lambda>s. Inr (m\<lparr>io_sched := s, mFdGroups := []\<rparr>))"

section \<open>Lemmas\<close>

lemma UpdateEpoll_simps [simp]:
  "mWakeupFd (UpdateEpoll fd e m) = mWakeupFd m" "io_sched (UpdateEpoll fd e m) = io_sched m"
  "pendingEventCount (UpdateEpoll fd e m) = pendingEventCount m" "k_eventfd (UpdateEpoll fd e m) = k_eventfd m"
  "io_timers (UpdateEpoll fd e m) = io_timers m" "k_accepts (UpdateEpoll fd e m) = k_accepts m"
  by (simp_all add: UpdateEpoll_def epoll_ctl_def Let_def)

lemma UpdateEpoll_groups:
  "map_of (mFdGroups (UpdateEpoll fd e m)) x =
     (if x = fd \<and> map_of (mFdGroups m) fd = None then Some new_FdCallback else map_of (mFdGroups m) x)"
  by (auto simp: UpdateEpoll_def epoll_ctl_def Let_def update_conv')

text \<open>The kernel takes the events of a registration if it accepts the descriptor and knows it just if the manager does.\<close>

definition kernel_agrees :: "int \<Rightarrow> io_manager \<Rightarrow> bool" where
  "kernel_agrees fd m \<longleftrightarrow> k_accepts m fd \<and> (map_of (mFdGroups m) fd = None \<longleftrightarrow> map_of (k_interest m) fd = None)"

lemma UpdateEpoll_interest:
  "map_of (k_interest (UpdateEpoll fd e m)) x =
     (if x = fd \<and> kernel_agrees fd m then Some (ev_events e) else map_of (k_interest m) x)"
  by (auto simp: UpdateEpoll_def epoll_ctl_def kernel_agrees_def Let_def update_conv')

lemma io_scheduler_simps [simp]:
  "mFdGroups (io_scheduler cb m) = mFdGroups m" "k_interest (io_scheduler cb m) = k_interest m"
  "mWakeupFd (io_scheduler cb m) = mWakeupFd m" "pendingEventCount (io_scheduler cb m) = pendingEventCount m"
  by (simp_all add: io_scheduler_def io_Wakeup_def Let_def split_def)

lemma io_scheduler_queue:
  assumes "fresh_queue (io_sched m)"
  shows "fresh_queue (io_sched (io_scheduler (Some b) m))"
    "queue_of (io_sched (io_scheduler (Some b) m)) = queue_of (io_sched m) @ [b]"
proof -
  let ?s = "io_sched (io_scheduler (Some b) m)" and ?t = "scheduler (Some b) (io_sched m)"
  have "fibers ?s = fibers ?t" "pendingFunctors ?s = pendingFunctors ?t"
    by (simp_all add: io_scheduler_def io_Wakeup_def scheduler_def schedulerNoLock_def Fiber_ctor_def Wakeup_def
        Let_def)
  then have "queue_of ?s = queue_of ?t \<and> fresh_queue ?s = fresh_queue ?t" by (intro queue_cong) simp_all
  then show "fresh_queue ?s" "queue_of ?s = queue_of (io_sched m) @ [b]" using fresh_scheduler [OF assms] by simp_all
qed

lemma event_bits [simp]:
  "EPOLLIN \<noteq> 0" "EPOLLOUT \<noteq> 0" "EPOLLIN AND EPOLLOUT = 0" "EPOLLOUT AND EPOLLIN = 0"
  "EPOLLIN AND (EPOLLERR OR EPOLLHUP) = 0" "EPOLLOUT AND (EPOLLERR OR EPOLLHUP) = 0"
  by (simp_all add: EPOLLIN_def EPOLLOUT_def EPOLLERR_def EPOLLHUP_def)

lemma TriggerEvent_frame [simp]:
  "mFdGroups (snd (TriggerEvent g e m)) = mFdGroups m" "k_interest (snd (TriggerEvent g e m)) = k_interest m"
  "mWakeupFd (snd (TriggerEvent g e m)) = mWakeupFd m"
  by (simp_all add: TriggerEvent_def Let_def)

lemma ProcessFdEvent_spec:
  "map_of (mFdGroups m) (ev_fd e) = Some g \<Longrightarrow>
   \<exists>m'. ProcessFdEvent e m = Inr m' \<and> mFdGroups m' = mFdGroups m \<and> k_interest m' = k_interest m
     \<and> mWakeupFd m' = mWakeupFd m"
  by (simp add: ProcessFdEvent_def Let_def fd_group_def split_def)

lemma AddReadEvent_spec:
  "\<exists>g. AddReadEvent fd cb m = Inr (True, (UpdateEpoll fd \<lparr>ev_events = EPOLLIN, ev_fd = 0\<rparr> m)\<lparr>mFdGroups :=
     AList.update fd (g\<lparr>concernRead := True, readCallback := cb\<rparr>)
       (mFdGroups (UpdateEpoll fd \<lparr>ev_events = EPOLLIN, ev_fd = 0\<rparr> m))\<rparr>)
     \<and> g = (case map_of (mFdGroups m) fd of None \<Rightarrow> new_FdCallback | Some g \<Rightarrow> g)"
  by (auto simp: AddReadEvent_def Let_def fd_group_def UpdateEpoll_groups split: option.splits)

lemma AddWriteEvent_spec:
  "\<exists>g. AddWriteEvent fd cb m = Inr (True, (UpdateEpoll fd \<lparr>ev_events = EPOLLOUT, ev_fd = 0\<rparr> m)\<lparr>mFdGroups :=
     AList.update fd (g\<lparr>concernWrite := True, writeCallback := cb\<rparr>)
       (mFdGroups (UpdateEpoll fd \<lparr>ev_events = EPOLLOUT, ev_fd = 0\<rparr> m))\<rparr>)
     \<and> g = (case map_of (mFdGroups m) fd of None \<Rightarrow> new_FdCallback | Some g \<Rightarrow> g)"
  by (auto simp: AddWriteEvent_def Let_def fd_group_def UpdateEpoll_groups split: option.splits)

text \<open>
  The states an I/O manager goes through while \<^verbatim>\<open>DelFileDesc\<close> is not called: built by the
  constructor, then changed by registrations, cancellations and rounds of events the
  kernel reports, which are events of descriptors in the interest list, while descriptors
  are closed and what the kernel accepts changes.
\<close>

inductive io_reachable :: "io_manager \<Rightarrow> bool" where
  built: "IOManager_ctor accepts run_cb handleRead_cb tfd wfd n name world = Inr m \<Longrightarrow> io_reachable m"
| add_read: "io_reachable m \<Longrightarrow> AddReadEvent fd cb m = Inr (r, m') \<Longrightarrow> io_reachable m'"
| add_write: "io_reachable m \<Longrightarrow> AddWriteEvent fd cb m = Inr (r, m') \<Longrightarrow> io_reachable m'"
| cancel_read: "io_reachable m \<Longrightarrow> io_reachable (snd (CancelReadEvent fd m))"
| cancel_write: "io_reachable m \<Longrightarrow> io_reachable (snd (CancelWriteEvent fd m))"
| events: "io_reachable m \<Longrightarrow> \<forall>e \<in> set es. map_of (k_interest m) (ev_fd e) \<noteq> None
    \<Longrightarrow> process_events es m = Inr m' \<Longrightarrow> io_reachable m'"
| closed: "io_reachable m \<Longrightarrow> io_reachable (kernel_closed fd m)"
| kernel: "io_reachable m \<Longrightarrow> io_reachable (m\<lparr>k_accepts := accepts\<rparr>)"

text \<open>What the kernel watches, besides the wake-up descriptor, is registered.\<close>

definition io_exact :: "io_manager \<Rightarrow> bool" where
  "io_exact m \<longleftrightarrow> (\<forall>fd. fd \<noteq> mWakeupFd m \<longrightarrow> map_of (k_interest m) fd \<noteq> None \<longrightarrow> map_of (mFdGroups m) fd \<noteq> None)"

lemma UpdateEpoll_exact:
  assumes "io_exact m" "mWakeupFd m' = mWakeupFd m" "k_interest m' = k_interest (UpdateEpoll fd e m)"
    and "mFdGroups m' = AList.update fd g (mFdGroups (UpdateEpoll fd e m))"
  shows "io_exact m'"
proof -
  have "map_of (mFdGroups m') x \<noteq> None \<longleftrightarrow> x = fd \<or> map_of (mFdGroups m) x \<noteq> None" for x
    by (auto simp: assms(4) update_conv' UpdateEpoll_groups)
  then show ?thesis using assms(1-3) by (auto simp: io_exact_def UpdateEpoll_interest)
qed

lemma process_events_spec:
  "io_exact m \<Longrightarrow> \<forall>e \<in> set es. map_of (k_interest m) (ev_fd e) \<noteq> None \<Longrightarrow>
   \<exists>m'. process_events es m = Inr m' \<and> io_exact m'"
proof (induction es arbitrary: m)
  case (Cons e es)
  show ?case
  proof (cases "ev_fd e = mWakeupFd m")
    case True
    have "io_exact (m\<lparr>k_eventfd := 0\<rparr>)" using Cons.prems(1) by (simp add: io_exact_def)
    then show ?thesis using True Cons.IH [of "m\<lparr>k_eventfd := 0\<rparr>"] Cons.prems(2) by simp
  next
    case False
    then obtain g where "map_of (mFdGroups m) (ev_fd e) = Some g"
      using Cons.prems by (fastforce simp: io_exact_def)
    then obtain m1 where m1: "ProcessFdEvent e m = Inr m1" "mFdGroups m1 = mFdGroups m"
        "k_interest m1 = k_interest m" "mWakeupFd m1 = mWakeupFd m"
      using ProcessFdEvent_spec by blast
    then have "io_exact m1" using Cons.prems(1) by (simp add: io_exact_def)
    then show ?thesis using False m1 Cons.IH [of m1] Cons.prems(2) by simp
  qed
qed simp

lemma io_reachable_exact: "io_reachable m \<Longrightarrow> io_exact m"
proof (induction rule: io_reachable.induct)
  case (built accepts run_cb handleRead_cb tfd wfd n name world m)
  let ?m0 = "\<lambda>s. \<lparr>io_sched = s, io_timers = TimerManger_ctor, timerfd = tfd, mWakeupFd = wfd,
              pendingEventCount = 0, mFdGroups = [], k_interest = [(wfd, EPOLLIN)], k_accepts = accepts, k_eventfd = 0\<rparr>"
  obtain s m2 s' where "AddReadEvent tfd (Some handleRead_cb) (?m0 s) = Inr (True, m2)" "m = m2\<lparr>io_sched := s'\<rparr>"
    using built by (auto simp: IOManager_ctor_def epoll_ctl_def rbind_eq_Inr AddReadEvent_def Let_def split: if_splits)
  moreover have "io_exact (?m0 s)" by (simp add: io_exact_def)
  ultimately show ?case
    using AddReadEvent_spec [of tfd "Some handleRead_cb" "?m0 s"] by (auto elim!: UpdateEpoll_exact)
next
  case (add_read m fd cb r m')
  then show ?case using AddReadEvent_spec [of fd cb m] by (auto elim!: UpdateEpoll_exact)
next
  case (add_write m fd cb r m')
  then show ?case using AddWriteEvent_spec [of fd cb m] by (auto elim!: UpdateEpoll_exact)
next
  case (cancel_read m fd)
  then show ?case by (auto simp: CancelReadEvent_def io_exact_def update_conv' split: option.splits)
next
  case (cancel_write m fd)
  then show ?case by (auto simp: CancelWriteEvent_def io_exact_def update_conv' split: option.splits)
next
  case (events m es m')
  then show ?case using process_events_spec by fastforce
next
  case (closed m fd)
  then show ?case by (auto simp: io_exact_def kernel_closed_def delete_conv')
qed (simp add: io_exact_def)

section \<open>Properties\<close>

text \<open>
  C9: Reported events find their callbacks.  As long as \<^verbatim>\<open>DelFileDesc\<close> is not called, a
  round of events that epoll reports for descriptors of its interest list is handled
  without following a null pointer, and the manager stays in a reachable state.
\<close>

theorem io_events_safe:
  assumes "io_reachable m" "\<forall>e \<in> set es. map_of (k_interest m) (ev_fd e) \<noteq> None"
  shows "\<exists>m'. idle_round [Some es] m = Inr m' \<and> io_reachable m'"
proof -
  have "set (take 64 es) \<subseteq> set es" by (rule set_take_subset)
  then have "\<forall>e \<in> set (take 64 es). map_of (k_interest m) (ev_fd e) \<noteq> None" using assms(2) by blast
  then have "\<exists>m'. process_events (take 64 es) m = Inr m' \<and> io_reachable m'"
    using process_events_spec [OF io_reachable_exact [OF assms(1)]] io_reachable.events [OF assms(1)] by blast
  then show ?thesis using assms(1) by (cases "es = []") (simp_all add: idle_round_def)
qed

definition demo_io :: "io_manager result" where
  "demo_io = IOManager_ctor (\<lambda>_. True) [] [Work 7] 5 6 1 ''io'' empty_scheduler"

lemma demo_io_built: "\<exists>m. demo_io = Inr m \<and> io_reachable m \<and> fresh_queue (io_sched m)
    \<and> map_of (k_interest m) 5 = Some EPOLLIN \<and> map_of (mFdGroups m) 8 = None"
proof -
  have "\<exists>m. demo_io = Inr m \<and> fresh_queue (io_sched m)
    \<and> map_of (k_interest m) 5 = Some EPOLLIN \<and> map_of (mFdGroups m) 8 = None"
    by (simp add: demo_io_def IOManager_ctor_def Scheduler_ctor_def empty_scheduler_def Fiber_ctor_def Let_def
        epoll_ctl_def AddReadEvent_def UpdateEpoll_def fd_group_def start_def resize_def fresh_queue_def)
  then show ?thesis using io_reachable.built by (auto simp: demo_io_def)
qed

theorem io_events_safe_witness:
  "\<exists>m m'. demo_io = Inr m \<and> idle_round [Some [\<lparr>ev_events = EPOLLIN, ev_fd = 5\<rparr>]] m = Inr m' \<and> io_reachable m'"
proof -
  obtain m where m: "demo_io = Inr m" "io_reachable m" "map_of (k_interest m) 5 = Some EPOLLIN"
    using demo_io_built by blast
  then show ?thesis using io_events_safe [of m "[\<lparr>ev_events = EPOLLIN, ev_fd = 5\<rparr>]"] by auto
qed

text \<open>
  C10: A read registration delivers.  In every state of a manager whose queue holds only
  callbacks that have not started, and for every descriptor but the wake-up one:
  \<^verbatim>\<open>AddReadEvent\<close> returns true, and the kernel watches the descriptor for input afterwards if
  it accepts the descriptor and knows it just if it is registered.  Otherwise what the
  kernel watches does not change: nothing, when a registered descriptor has been closed
  since (it is modified, not added again), and the old events, when the registration was
  deleted.  The input event of a registered descriptor queues the registered callback,
  once, behind those queued before.
\<close>

theorem read_registration_delivers:
  assumes "fd \<noteq> mWakeupFd m" "fresh_queue (io_sched m)"
  shows "\<exists>m1 m2. AddReadEvent fd (Some b) m = Inr (True, m1)
    \<and> map_of (k_interest m1) fd =
        (if k_accepts m fd \<and> (map_of (mFdGroups m) fd = None \<longleftrightarrow> map_of (k_interest m) fd = None)
         then Some EPOLLIN else map_of (k_interest m) fd)
    \<and> idle_round [Some [\<lparr>ev_events = EPOLLIN, ev_fd = fd\<rparr>]] m1 = Inr m2
    \<and> fresh_queue (io_sched m2) \<and> queue_of (io_sched m2) = queue_of (io_sched m) @ [b]"
proof -
  let ?u = "UpdateEpoll fd \<lparr>ev_events = EPOLLIN, ev_fd = 0\<rparr> m"
  obtain g where g: "AddReadEvent fd (Some b) m = Inr (True, ?u\<lparr>mFdGroups :=
     AList.update fd (g\<lparr>concernRead := True, readCallback := Some b\<rparr>) (mFdGroups ?u)\<rparr>)"
    using AddReadEvent_spec by blast
  let ?m1 = "?u\<lparr>mFdGroups := AList.update fd (g\<lparr>concernRead := True, readCallback := Some b\<rparr>) (mFdGroups ?u)\<rparr>"
  have "map_of (k_interest ?m1) fd = (if kernel_agrees fd m then Some EPOLLIN else map_of (k_interest m) fd)"
    by (simp add: UpdateEpoll_interest)
  moreover have "\<exists>m2. idle_round [Some [\<lparr>ev_events = EPOLLIN, ev_fd = fd\<rparr>]] ?m1 = Inr m2
      \<and> io_sched m2 = io_sched (io_scheduler (Some b) ?m1)"
    using assms(1) by (simp add: idle_round_def ProcessFdEvent_def fd_group_def TriggerEvent_def Let_def update_conv')
  moreover have "io_sched ?m1 = io_sched m" by simp
  ultimately show ?thesis unfolding kernel_agrees_def using g io_scheduler_queue [of ?m1 b] assms(2) by auto
qed

theorem read_registration_delivers_witness:
  "\<exists>m m1 m2. demo_io = Inr m \<and> AddReadEvent 8 (Some [Work 3]) m = Inr (True, m1)
    \<and> map_of (k_interest m1) 8 = Some EPOLLIN \<and> idle_round [Some [\<lparr>ev_events = EPOLLIN, ev_fd = 8\<rparr>]] m1 = Inr m2
    \<and> queue_of (io_sched m2) = queue_of (io_sched m) @ [[Work 3]]"
proof -
  obtain m where m: "demo_io = Inr m" "fresh_queue (io_sched m)" "map_of (mFdGroups m) 8 = None"
    using demo_io_built by blast
  moreover have "mWakeupFd m = 6" "k_accepts m 8" "map_of (k_interest m) 8 = None" using m(1)
    by (auto simp: demo_io_def IOManager_ctor_def rbind_eq_Inr epoll_ctl_def AddReadEvent_def UpdateEpoll_def Let_def)
  ultimately show ?thesis using read_registration_delivers [of 8 m "[Work 3]"] by auto
qed

text \<open>
  A write registration is lost.  For a descriptor that is not registered for
  reading, \<^verbatim>\<open>AddWriteEvent\<close> makes the kernel watch it for output if it accepts it, but
  handling the output event the kernel then reports schedules nothing, because
  \<^verbatim>\<open>FdCallback::TriggerEvent\<close> tests \<^verbatim>\<open>concernRead\<close> for both directions.
\<close>

theorem write_registration_lost:
  assumes "io_reachable m" "fd \<noteq> mWakeupFd m" "map_of (mFdGroups m) fd = None"
  shows "\<exists>m1. AddWriteEvent fd (Some b) m = Inr (True, m1) \<and> map_of (k_interest m1) fd = (if k_accepts m fd then Some EPOLLOUT else None)
    \<and> idle_round [Some [\<lparr>ev_events = EPOLLOUT, ev_fd = fd\<rparr>]] m1 = Inr m1"
proof -
  note x = io_reachable_exact [OF assms(1)]
  let ?u = "UpdateEpoll fd \<lparr>ev_events = EPOLLOUT, ev_fd = 0\<rparr> m"
  let ?m1 = "?u\<lparr>mFdGroups := AList.update fd (new_FdCallback\<lparr>concernWrite := True, writeCallback := Some b\<rparr>) (mFdGroups ?u)\<rparr>"
  have "AddWriteEvent fd (Some b) m = Inr (True, ?m1)"
    using AddWriteEvent_spec [of fd "Some b" m] assms(3) by simp
  moreover have "map_of (k_interest ?m1) fd = (if k_accepts m fd then Some EPOLLOUT else None)"
    using x assms(2,3) by (auto simp: io_exact_def UpdateEpoll_interest kernel_agrees_def)
  moreover have "idle_round [Some [\<lparr>ev_events = EPOLLOUT, ev_fd = fd\<rparr>]] ?m1 = Inr ?m1"
    using assms(2) by (simp add: idle_round_def ProcessFdEvent_def fd_group_def TriggerEvent_def Let_def update_conv'
        new_FdCallback_def)
  ultimately show ?thesis by blast
qed

theorem write_registration_lost_witness:
  "\<exists>m m1. demo_io = Inr m \<and> AddWriteEvent 8 (Some [Work 3]) m = Inr (True, m1)
    \<and> idle_round [Some [\<lparr>ev_events = EPOLLOUT, ev_fd = 8\<rparr>]] m1 = Inr m1"
proof -
  obtain m where m: "demo_io = Inr m" "io_reachable m" "map_of (mFdGroups m) 8 = None"
    using demo_io_built by blast
  moreover have "mWakeupFd m = 6" using m(1)
    by (auto simp: demo_io_def IOManager_ctor_def rbind_eq_Inr epoll_ctl_def AddReadEvent_def UpdateEpoll_def Let_def)
  ultimately show ?thesis using write_registration_lost [of m 8 "[Work 3]"] by auto
qed

text \<open>
  Deleting a descriptor leaves it with the kernel.  After \<^verbatim>\<open>DelFileDesc\<close> of a registered
  descriptor the kernel watches what it watched before, and handling the next event it
  reports for the descriptor follows a null pointer; deleting a descriptor that is not
  registered erases at the end iterator.
\<close>

theorem deleted_descriptor_event:
  assumes "fd \<noteq> mWakeupFd m"
  shows "if map_of (mFdGroups m) fd = None then DelFileDesc fd m = Inl Undefined_behaviour
    else \<exists>m1. DelFileDesc fd m = Inr (True, m1) \<and> k_interest m1 = k_interest m
       \<and> (ev_fd e = fd \<longrightarrow> idle_round [Some [e]] m1 = Inl Undefined_behaviour)"
proof (cases "map_of (mFdGroups m) fd")
  case (Some g)
  let ?m1 = "m\<lparr>mFdGroups := AList.delete fd (mFdGroups m)\<rparr>"
  have "DelFileDesc fd m = Inr (True, ?m1)" using Some by (simp add: DelFileDesc_def)
  moreover have "idle_round [Some [e]] ?m1 = Inl Undefined_behaviour" if "ev_fd e = fd"
    using that assms by (simp add: idle_round_def ProcessFdEvent_def fd_group_def Let_def delete_conv')
  ultimately show ?thesis using Some by auto
qed (simp add: DelFileDesc_def)

theorem deleted_descriptor_event_witness:
  "\<exists>m m1. demo_io = Inr m \<and> DelFileDesc 5 m = Inr (True, m1) \<and> map_of (k_interest m1) 5 = Some EPOLLIN
     \<and> idle_round [Some [\<lparr>ev_events = EPOLLIN, ev_fd = 5\<rparr>]] m1 = Inl Undefined_behaviour"
proof -
  obtain m where m: "demo_io = Inr m" "io_reachable m" "map_of (k_interest m) 5 = Some EPOLLIN"
    using demo_io_built by blast
  moreover have "mWakeupFd m = 6" using m(1)
    by (auto simp: demo_io_def IOManager_ctor_def rbind_eq_Inr epoll_ctl_def AddReadEvent_def UpdateEpoll_def Let_def)
  moreover have "map_of (mFdGroups m) 5 \<noteq> None"
    using io_reachable_exact [OF m(2)] m(3) \<open>mWakeupFd m = 6\<close> by (auto simp: io_exact_def)
  ultimately obtain m1 where "DelFileDesc 5 m = Inr (True, m1)" "k_interest m1 = k_interest m"
      "idle_round [Some [\<lparr>ev_events = EPOLLIN, ev_fd = 5\<rparr>]] m1 = Inl Undefined_behaviour"
    using deleted_descriptor_event [of 5 m "\<lparr>ev_events = EPOLLIN, ev_fd = 5\<rparr>"] by (auto split: if_splits)
  then show ?thesis using m(1,3) by auto
qed

end
