(* ===== verification/TcpServer.thy ===== *)
theory TcpServer
  imports Socket IOManager
begin

text \<open>
  The TCP server (\<^verbatim>\<open>qslary/net/TcpServer.h\<close>, \<^verbatim>\<open>TcpServer.cc\<close>) and the cancelling members
  of \<^verbatim>\<open>Socket\<close>.  The listening sockets are shared objects: they live in a list and
  \<^verbatim>\<open>sockets_\<close> holds their positions, as do the tasks that accept on them.  A task given to
  a worker's \<^verbatim>\<open>scheduler\<close> is appended to the list of that worker's tasks of this server.
  The operating system's answers are arguments of each call, one record per address for
  \<^verbatim>\<open>bind\<close> and one per round for the accept loop, with whether \<^verbatim>\<open>stop\<close> was called while the
  loop was waiting.

  The lemmas show which addresses \<^verbatim>\<open>bind\<close> serves and which it reports, that the accept loop
  hands every accepted client on in order, and that \<^verbatim>\<open>stop\<close> ends the loop and releases every
  listening descriptor once.
\<close>

section \<open>Definitions\<close>

text \<open>\<^verbatim>\<open>GetIOManager\<close> is the I/O manager of the calling thread, or null.\<close>

definition with_manager :: "(io_manager \<Rightarrow> bool \<times> io_manager) \<Rightarrow> io_manager option \<Rightarrow> (bool \<times> io_manager) result" where
  "with_manager f io = (case io of None \<Rightarrow> Inl Undefined_behaviour | Some m \<Rightarrow> Inr (f m))"

(* net/Socket.cc 448: Socket::cancelRead *)
definition cancelRead :: "socket \<Rightarrow> io_manager option \<Rightarrow> (bool \<times> io_manager) result" where
  "cancelRead s io = with_manager (CancelReadEvent (socketfd s)) io"

(* net/Socket.cc 452: Socket::cancelWrite *)
definition cancelWrite :: "socket \<Rightarrow> io_manager option \<Rightarrow> (bool \<times> io_manager) result" where
  "cancelWrite s io = with_manager (CancelWriteEvent (socketfd s)) io"

(* net/Socket.cc 456: Socket::cancelAccept *)
definition cancelAccept :: "socket \<Rightarrow> io_manager option \<Rightarrow> (bool \<times> io_manager) result" where
  "cancelAccept s io = with_manager (CancelReadEvent (socketfd s)) io"

(* net/Socket.cc 460: Socket::cancelAll *)
definition cancelAll :: "socket \<Rightarrow> io_manager option \<Rightarrow> (bool \<times> io_manager) result" where
  "cancelAll s io = with_manager (CancelAll (socketfd s)) io"

datatype tcp_task = Start_accept nat | Stop_sockets | Handle_client socket

(* net/TcpServer.h 36-41: TcpServer *)
record tcp_server =
  tcp_objs :: "socket list"
  tcp_sockets :: "nat list"
  tcp_accept_tasks :: "tcp_task list"
  tcp_worker_tasks :: "tcp_task list"
  tcp_recvTimeout :: u64
  tcp_name :: string
  isStop :: bool

(* net/TcpServer.cc 14: TcpServer::TcpServer *)
definition TcpServer_ctor :: "u64 \<Rightarrow> tcp_server" where
  "TcpServer_ctor read_timeout =
     \<lparr>tcp_objs = [], tcp_sockets = [], tcp_accept_tasks = [], tcp_worker_tasks = [], tcp_recvTimeout = read_timeout,
      tcp_name = ''qslary/1.0.0'', isStop = True\<rparr>"

text \<open>A socket that is not kept is destroyed at the end of its round, but stays among the objects.\<close>

(* net/TcpServer.cc 38-53: TcpServer::bind, the loop *)
fun bind_loop :: "(address \<times> sock_os) list \<Rightarrow> address list \<Rightarrow> tcp_server \<Rightarrow> (address list \<times> tcp_server) result" where
  "bind_loop [] fails s = Inr (fails, s)"
| "bind_loop ((i, os) # addrs) fails s =
     rbind (bind_sock os i (CreateTCPSocket_addr i)) (\<lambda>(ok, sock).
     let fails1 = (if \<not> ok then fails @ [i] else fails) in
     if \<not> listen os sock
     then bind_loop addrs (fails1 @ [i]) (s\<lparr>tcp_objs := tcp_objs s @ [Socket_dtor sock]\<rparr>)
     else bind_loop addrs fails1
       (s\<lparr>tcp_objs := tcp_objs s @ [sock], tcp_sockets := tcp_sockets s @ [length (tcp_objs s)]\<rparr>))"

(* net/TcpServer.cc 35: TcpServer::bind *)
definition tcp_bind :: "(address \<times> sock_os) list \<Rightarrow> address list \<Rightarrow> tcp_server \<Rightarrow> (bool \<times> address list \<times> tcp_server) result" where
  "tcp_bind addrs fails s = rbind (bind_loop addrs fails s) (\<lambda>(fails', s'). Inr (fails' = [], fails', s'))"

(* net/TcpServer.cc 28: TcpServer::bind *)
definition tcp_bind_one :: "address \<Rightarrow> sock_os \<Rightarrow> tcp_server \<Rightarrow> (bool \<times> tcp_server) result" where
  "tcp_bind_one addr os s = rbind (tcp_bind [(addr, os)] [] s) (\<lambda>(r, _, s'). Inr (r, s'))"

(* net/TcpServer.cc 61: TcpServer::start *)
definition tcp_start :: "tcp_server \<Rightarrow> bool \<times> tcp_server" where
  "tcp_start s =
     (if \<not> isStop s then (True, s)
      else (True, s\<lparr>isStop := False, tcp_accept_tasks := tcp_accept_tasks s @ map Start_accept (tcp_sockets s)\<rparr>))"

record accept_round =
  ar_os :: sock_os
  ar_fds :: fd_table
  ar_files :: os_files
  ar_stopped :: bool

text \<open>The first component of the result is whether the loop was left.\<close>

(* net/TcpServer.cc 75: TcpServer::startAccept *)
fun startAccept :: "accept_round list \<Rightarrow> nat \<Rightarrow> tcp_server \<Rightarrow> (bool \<times> tcp_server) result" where
  "startAccept [] sock s = Inr (isStop s, s)"
| "startAccept (r # rs) sock s =
     (if isStop s then Inr (True, s)
      else if length (tcp_objs s) \<le> sock then Inl Undefined_behaviour
      else
        rbind (accept (ar_os r) (ar_fds r) (ar_files r) (tcp_objs s ! sock)) (\<lambda>client.
        let s1 = s\<lparr>isStop := ar_stopped r\<rparr> in
        case client of
          Some c \<Rightarrow>
            rbind (setRecvTimeout (ar_os r) (tcp_recvTimeout s1)) (\<lambda>_.
              startAccept rs sock (s1\<lparr>tcp_worker_tasks := tcp_worker_tasks s1 @ [Handle_client c]\<rparr>))
        | None \<Rightarrow> startAccept rs sock s1))"

(* net/TcpServer.cc 94: TcpServer::stop *)
definition tcp_stop :: "tcp_server \<Rightarrow> bool \<times> tcp_server" where
  "tcp_stop s = (True, s\<lparr>isStop := True, tcp_accept_tasks := tcp_accept_tasks s @ [Stop_sockets]\<rparr>)"

text \<open>The kernel stops watching a descriptor that is closed.\<close>

(* net/TcpServer.cc 99-103: TcpServer::stop, the loop of the task *)
fun stop_loop :: "nat list \<Rightarrow> io_manager option \<Rightarrow> tcp_server \<Rightarrow> (io_manager option \<times> tcp_server) result" where
  "stop_loop [] io s = Inr (io, s)"
| "stop_loop (p # ps) io s =
     (if length (tcp_objs s) \<le> p then Inl Undefined_behaviour
      else rbind (cancelAll (tcp_objs s ! p) io) (\<lambda>(_, m).
        stop_loop ps (Some (if socketfd (tcp_objs s ! p) = - 1 then m else kernel_closed (socketfd (tcp_objs s ! p)) m))
          (s\<lparr>tcp_objs := (tcp_objs s)[p := snd (close (tcp_objs s ! p))]\<rparr>)))"

(* net/TcpServer.cc 98-105: TcpServer::stop, the task *)
definition stop_task :: "io_manager option \<Rightarrow> tcp_server \<Rightarrow> (io_manager option \<times> tcp_server) result" where
  "stop_task io s = rbind (stop_loop (tcp_sockets s) io s) (\<lambda>(io', s'). Inr (io', s'\<lparr>tcp_sockets := []\<rparr>))"

(* net/TcpServer.cc 20: TcpServer::~TcpServer *)
definition TcpServer_dtor :: "tcp_server \<Rightarrow> tcp_server" where
  "TcpServer_dtor s =
     s\<lparr>tcp_objs := fold (\<lambda>p objs. objs[p := snd (close (objs ! p))]) (tcp_sockets s) (tcp_objs s)\<rparr>"

section \<open>Lemmas\<close>

text \<open>
  The assertions of binding: a new socket takes both of its options, which a stream socket of
  the Unix domain does not, and a socket that could be bound has a family the library knows.
\<close>

definition bindable :: "address \<times> sock_os \<Rightarrow> bool" where
  "bindable e \<longleftrightarrow> (os_socket (snd e) \<noteq> - 1 \<longrightarrow>
     accepts_tcp_options (snd e) \<and> (os_bind (snd e) \<longrightarrow> known_family (GetFamily (fst e))))"

definition bound :: "address \<times> sock_os \<Rightarrow> bool" where
  "bound e \<longleftrightarrow> os_socket (snd e) \<noteq> - 1 \<and> os_bind (snd e)"

definition listening :: "address \<times> sock_os \<Rightarrow> bool" where
  "listening e \<longleftrightarrow> os_socket (snd e) \<noteq> - 1 \<and> os_listen (snd e)"

definition failures :: "address \<times> sock_os \<Rightarrow> address list" where
  "failures e = (if bound e then [] else [fst e]) @ (if listening e then [] else [fst e])"

lemma bind_new_socket:
  assumes "bindable (a, os)"
  obtains sock where "bind_sock os a (CreateTCPSocket_addr a) = Inr (bound (a, os), sock)" "socketfd sock = os_socket os"
    "\<not> isConnected sock" "closed_fds sock = []"
proof -
  let ?s = "(CreateTCPSocket_addr a)\<lparr>socketfd := os_socket os\<rparr>"
  have s: "sk_family ?s = GetFamily a" "\<not> isConnected ?s" "closed_fds ?s = []" "\<not> isVaild (CreateTCPSocket_addr a)"
    "newSock os (CreateTCPSocket_addr a) = Inr ?s" using assms
    by (auto simp: CreateTCPSocket_addr_def Socket_ctor_def isVaild_def bindable_def newSock_def initSock_ok Let_def)
  show ?thesis
  proof (cases "bound (a, os)")
    case True
    then obtain x r where "getLocalAddress os ?s = Inr (x, ?s\<lparr>localAddress := r\<rparr>)"
      using getLocalAddress_ok [of ?s os] assms s(1) by (auto simp: bindable_def bound_def)
    then show ?thesis using that [of "?s\<lparr>localAddress := r\<rparr>"] s True by (simp add: bind_sock_def bound_def isVaild_def)
  next
    case False
    then show ?thesis using that [of ?s] s by (auto simp: bind_sock_def bound_def isVaild_def)
  qed
qed

lemma bind_refused:
  assumes "\<not> bindable (a, os)"
  shows "bind_sock os a (CreateTCPSocket_addr a) = Inl Assert_failed"
  using assms
  by (auto simp: bindable_def bind_sock_def CreateTCPSocket_addr_def Socket_ctor_def isVaild_def newSock_def initSock_def
      setOption_def accepts_tcp_options_def getLocalAddress_def SOCK_STREAM_def Let_def)

text \<open>The listening sockets of a server are different objects, none of them connected.\<close>

definition tcp_ok :: "tcp_server \<Rightarrow> bool" where
  "tcp_ok s \<longleftrightarrow> distinct (tcp_sockets s) \<and> (\<forall>p \<in> set (tcp_sockets s). p < length (tcp_objs s) \<and> \<not> isConnected (tcp_objs s ! p))"

definition tcp_fds :: "tcp_server \<Rightarrow> int list" where
  "tcp_fds s = map (\<lambda>p. socketfd (tcp_objs s ! p)) (tcp_sockets s)"

lemma keep_objs:
  assumes "tcp_ok s"
  shows "tcp_ok (s\<lparr>tcp_objs := tcp_objs s @ xs\<rparr>)" "tcp_fds (s\<lparr>tcp_objs := tcp_objs s @ xs\<rparr>) = tcp_fds s"
  using assms by (auto simp: tcp_ok_def tcp_fds_def nth_append)

lemma add_socket:
  assumes "tcp_ok s" "\<not> isConnected x"
  shows "tcp_ok (s\<lparr>tcp_objs := tcp_objs s @ [x], tcp_sockets := tcp_sockets s @ [length (tcp_objs s)]\<rparr>)"
    "tcp_fds (s\<lparr>tcp_objs := tcp_objs s @ [x], tcp_sockets := tcp_sockets s @ [length (tcp_objs s)]\<rparr>) = tcp_fds s @ [socketfd x]"
  using assms by (auto simp: tcp_ok_def tcp_fds_def nth_append)

lemma bind_loop_spec:
  "\<forall>e \<in> set addrs. bindable e \<Longrightarrow> tcp_ok s \<Longrightarrow>
   \<exists>s'. bind_loop addrs fails s = Inr (fails @ concat (map failures addrs), s') \<and> tcp_ok s'
     \<and> tcp_fds s' = tcp_fds s @ map (os_socket \<circ> snd) (filter listening addrs)"
proof (induction addrs arbitrary: fails s)
  case (Cons e addrs)
  obtain a os where e: "e = (a, os)" by (cases e)
  obtain x where x: "bind_sock os a (CreateTCPSocket_addr a) = Inr (bound (a, os), x)" "socketfd x = os_socket os" "\<not> isConnected x"
    using bind_new_socket [of a os] Cons.prems(1) e by auto
  then have l: "listen os x = listening (a, os)" by (simp add: listen_def listening_def isVaild_def)
  let ?s = "if listening e then s\<lparr>tcp_objs := tcp_objs s @ [x], tcp_sockets := tcp_sockets s @ [length (tcp_objs s)]\<rparr>
    else s\<lparr>tcp_objs := tcp_objs s @ [Socket_dtor x]\<rparr>"
  have s: "tcp_ok ?s" "tcp_fds ?s = tcp_fds s @ (if listening e then [os_socket os] else [])"
    using keep_objs [OF Cons.prems(2)] add_socket [OF Cons.prems(2) x(3)] x(2) by simp_all
  have "bind_loop (e # addrs) fails s = bind_loop addrs (fails @ failures e) ?s"
    using x(1) l e by (simp add: failures_def)
  then show ?case using Cons.IH [OF _ s(1), of "fails @ failures e"] Cons.prems(1) s(2) e by auto
qed simp

lemma bind_loop_refused: "\<exists>e \<in> set addrs. \<not> bindable e \<Longrightarrow> bind_loop addrs fails s = Inl Assert_failed"
proof (induction addrs arbitrary: fails s)
  case (Cons e addrs)
  show ?case
  proof (cases "bindable e")
    case True
    then obtain x where "bind_sock (snd e) (fst e) (CreateTCPSocket_addr (fst e)) = Inr (bound e, x)"
      using bind_new_socket [of "fst e" "snd e"] by (metis prod.collapse)
    then show ?thesis using Cons True by (cases e) simp
  next
    case False
    then show ?thesis using bind_refused by (cases e) simp
  qed
qed simp

text \<open>The rounds of the accept loop up to the one during which it is stopped, and the clients of a round.\<close>

fun served :: "accept_round list \<Rightarrow> accept_round list" where
  "served [] = []"
| "served (r # rs) = r # (if ar_stopped r then [] else served rs)"

definition accepted :: "socket \<Rightarrow> accept_round \<Rightarrow> socket list" where
  "accepted sock r = (case accept (ar_os r) (ar_fds r) (ar_files r) sock of Inr (Some c) \<Rightarrow> [c] | _ \<Rightarrow> [])"

definition round_ok :: "socket \<Rightarrow> accept_round \<Rightarrow> bool" where
  "round_ok sock r \<longleftrightarrow> is_ok (accept (ar_os r) (ar_fds r) (ar_files r) sock)
     \<and> (SOL_SOCKET, SO_RCVTIMEO) \<in> set (os_setsockopt (ar_os r))"

lemma setRecvTimeout_ok: "(SOL_SOCKET, SO_RCVTIMEO) \<in> set (os_setsockopt os) \<Longrightarrow> setRecvTimeout os v = Inr (True, send_timeval v)"
  by (simp add: setRecvTimeout_def setOption_def)

lemma startAccept_spec:
  "\<forall>r \<in> set (served rs). round_ok (tcp_objs s ! sock) r \<Longrightarrow> sock < length (tcp_objs s) \<Longrightarrow> \<not> isStop s \<Longrightarrow>
   startAccept rs sock s = Inr (list_ex ar_stopped rs, s\<lparr>isStop := list_ex ar_stopped rs,
     tcp_worker_tasks := tcp_worker_tasks s @ map Handle_client (concat (map (accepted (tcp_objs s ! sock)) (served rs)))\<rparr>)"
proof (induction rs arbitrary: s)
  case (Cons r rs)
  obtain client where c: "accept (ar_os r) (ar_fds r) (ar_files r) (tcp_objs s ! sock) = Inr client"
    using Cons.prems(1) by (auto simp: round_ok_def is_ok_def split: sum.splits)
  let ?s = "s\<lparr>isStop := ar_stopped r, tcp_worker_tasks := tcp_worker_tasks s @ map Handle_client (accepted (tcp_objs s ! sock) r)\<rparr>"
  have step: "startAccept (r # rs) sock s = startAccept rs sock ?s"
    using Cons.prems c by (cases client) (simp_all add: round_ok_def accepted_def setRecvTimeout_ok)
  show ?case
  proof (cases "ar_stopped r")
    case True
    then show ?thesis using step by (cases rs) simp_all
  next
    case False
    then show ?thesis using step Cons.IH [of ?s] Cons.prems by simp
  qed
qed simp

abbreviation quieten :: "fd_callback \<Rightarrow> fd_callback" where
  "quieten g \<equiv> g\<lparr>concernRead := False, concernWrite := False\<rparr>"

lemma CancelAll_groups:
  "map_of (mFdGroups (snd (CancelAll fd m))) x =
     (if x = fd then map_option quieten (map_of (mFdGroups m) fd) else map_of (mFdGroups m) x)"
  "k_interest (snd (CancelAll fd m)) = k_interest m"
  by (auto simp: CancelAll_def CancelReadEvent_def CancelWriteEvent_def update_conv' split: option.splits)

text \<open>What the task of \<^verbatim>\<open>stop\<close> does to the manager for one socket.\<close>

definition released :: "int \<Rightarrow> io_manager \<Rightarrow> io_manager" where
  "released fd m = (let m1 = snd (CancelAll fd m) in if fd = - 1 then m1 else kernel_closed fd m1)"

lemma released_maps:
  "map_of (mFdGroups (released fd m)) x = (if x = fd then map_option quieten (map_of (mFdGroups m) x) else map_of (mFdGroups m) x)"
  "map_of (k_interest (released fd m)) x = (if x = fd \<and> x \<noteq> - 1 then None else map_of (k_interest m) x)"
  by (auto simp: released_def kernel_closed_def CancelAll_groups delete_conv' Let_def)

lemma close_once:
  assumes "\<not> isConnected x"
  shows "snd (close x) = x\<lparr>socketfd := - 1, closed_fds := closed_fds x @ (if socketfd x = - 1 then [] else [socketfd x])\<rparr>"
  using assms by (auto simp: close_def)

lemma stop_loop_spec:
  "distinct ps \<Longrightarrow> \<forall>p \<in> set ps. p < length (tcp_objs s) \<Longrightarrow>
   \<exists>m' objs'. stop_loop ps (Some m) s = Inr (Some m', s\<lparr>tcp_objs := objs'\<rparr>) \<and> length objs' = length (tcp_objs s)
     \<and> (\<forall>p. objs' ! p = (if p \<in> set ps then snd (close (tcp_objs s ! p)) else tcp_objs s ! p))
     \<and> (\<forall>x. map_of (mFdGroups m') x = (if x \<in> (\<lambda>p. socketfd (tcp_objs s ! p)) ` set ps
          then map_option quieten (map_of (mFdGroups m) x) else map_of (mFdGroups m) x)
        \<and> map_of (k_interest m') x = (if x \<in> (\<lambda>p. socketfd (tcp_objs s ! p)) ` set ps \<and> x \<noteq> - 1
          then None else map_of (k_interest m) x))"
proof (induction ps arbitrary: m s)
  case Nil
  show ?case by (intro exI [of _ m] exI [of _ "tcp_objs s"]) simp
next
  case (Cons p ps)
  let ?m = "released (socketfd (tcp_objs s ! p)) m" and ?s = "s\<lparr>tcp_objs := (tcp_objs s)[p := snd (close (tcp_objs s ! p))]\<rparr>"
  obtain m' objs' where r: "stop_loop ps (Some ?m) ?s = Inr (Some m', ?s\<lparr>tcp_objs := objs'\<rparr>)" "length objs' = length (tcp_objs s)"
    "\<And>q. objs' ! q = (if q \<in> set ps then snd (close (tcp_objs ?s ! q)) else tcp_objs ?s ! q)"
    "\<And>x. map_of (mFdGroups m') x = (if x \<in> (\<lambda>q. socketfd (tcp_objs ?s ! q)) ` set ps
          then map_option quieten (map_of (mFdGroups ?m) x) else map_of (mFdGroups ?m) x)"
    "\<And>x. map_of (k_interest m') x = (if x \<in> (\<lambda>q. socketfd (tcp_objs ?s ! q)) ` set ps \<and> x \<noteq> - 1
          then None else map_of (k_interest ?m) x)"
    using Cons.IH [of ?s ?m] Cons.prems by auto
  have same: "tcp_objs ?s ! q = tcp_objs s ! q" if "q \<in> set ps" for q using Cons.prems(1) that by (cases "q = p") auto
  have "stop_loop (p # ps) (Some m) s = Inr (Some m', s\<lparr>tcp_objs := objs'\<rparr>)"
    using r(1) Cons.prems(2) by (simp add: cancelAll_def with_manager_def case_prod_beta released_def Let_def)
  moreover have "objs' ! q = (if q \<in> set (p # ps) then snd (close (tcp_objs s ! q)) else tcp_objs s ! q)" for q
    using r(3) [of q] same [of q] Cons.prems by (auto simp: nth_list_update)
  moreover have im: "(\<lambda>q. socketfd (tcp_objs ?s ! q)) ` set ps = (\<lambda>q. socketfd (tcp_objs s ! q)) ` set ps" using same by simp
  then have "map_of (mFdGroups m') x = (if x \<in> (\<lambda>q. socketfd (tcp_objs s ! q)) ` set (p # ps)
          then map_option quieten (map_of (mFdGroups m) x) else map_of (mFdGroups m) x)" for x
    using r(4) [of x] by (auto simp: released_maps option.map_comp comp_def)
  moreover have "map_of (k_interest m') x = (if x \<in> (\<lambda>q. socketfd (tcp_objs s ! q)) ` set (p # ps) \<and> x \<noteq> - 1
          then None else map_of (k_interest m) x)" for x
    using r(5) [of x] im by (auto simp: released_maps)
  ultimately show ?case using r(2) by blast
qed

section \<open>Properties\<close>

text \<open>
  C31: What \<^verbatim>\<open>bind\<close> serves and what it reports, on a server whose listening sockets are different
  objects, none of them connected.  It fails on an assertion exactly if for some address a socket was made that refuses \<^verbatim>\<open>SO_REUSEADDR\<close> or \<^verbatim>\<open>TCP_NODELAY\<close>, as one of the
  Unix domain refuses the second, or that was bound although its family is none of the three
  the library knows.  Otherwise it returns, with true exactly if every address could be bound
  and listened on; an address is reported once for each of the two that failed, and the
  sockets the server will accept on are those that listen, also where binding to the address
  had failed.
\<close>

theorem bind_serves_listening:
  assumes "tcp_ok s"
  shows "if \<forall>e \<in> set addrs. bindable e
    then \<exists>fails s'. tcp_bind addrs [] s = Inr (\<forall>e \<in> set addrs. bound e \<and> listening e, fails, s') \<and> tcp_ok s'
      \<and> fails = concat (map failures addrs)
      \<and> tcp_fds s' = tcp_fds s @ map (os_socket \<circ> snd) (filter listening addrs)
    else tcp_bind addrs [] s = Inl Assert_failed"
proof (cases "\<forall>e \<in> set addrs. bindable e")
  case True
  have "concat (map failures addrs) = [] \<longleftrightarrow> (\<forall>e \<in> set addrs. bound e \<and> listening e)" by (auto simp: failures_def)
  then show ?thesis using True bind_loop_spec [OF True assms, of "[]"] by (auto simp: tcp_bind_def)
next
  case False
  then show ?thesis using bind_loop_refused [of addrs "[]" s] by (auto simp: tcp_bind_def)
qed

abbreviation (input) listen_only_os :: sock_os where
  "listen_only_os \<equiv> \<lparr>os_socket = 5, os_accept = - 1, os_setsockopt = [(SOL_SOCKET, SO_REUSEADDR), (IPPROTO_TCP, TCP_NODELAY)],
     os_bind = False, os_connect = False, os_listen = True, os_getsockname = None, os_getpeername = None\<rparr>"

theorem bind_serves_listening_witness:
  "\<exists>fails s'. tcp_bind [(IPv4Address IPv4_default, listen_only_os)] [] (TcpServer_ctor 120000) = Inr (False, fails, s')
     \<and> fails = [IPv4Address IPv4_default] \<and> tcp_fds s' = [5]"
proof -
  let ?e = "(IPv4Address IPv4_default, listen_only_os)"
  have "bindable ?e" "\<not> bound ?e" "listening ?e" "tcp_ok (TcpServer_ctor 120000)" "tcp_fds (TcpServer_ctor 120000) = []"
    by (simp_all add: bindable_def accepts_tcp_options_def known_family_def IPv4_default_def AF_INET_def bound_def listening_def
        tcp_ok_def tcp_fds_def TcpServer_ctor_def)
  then show ?thesis using bind_serves_listening [of "TcpServer_ctor 120000" "[?e]"] by (auto simp: failures_def)
qed

text \<open>
  The accept loop hands its clients on.  A running server's loop gives the worker exactly the
  clients the system accepted, in that order, up to the call that was in progress when the
  server was stopped; the loop is left if the server is stopped and goes on otherwise.
\<close>

theorem accept_loop_hands_on:
  assumes "\<forall>r \<in> set (served rs). round_ok (tcp_objs s ! sock) r" "sock < length (tcp_objs s)" "\<not> isStop s"
  shows "\<exists>s'. startAccept rs sock s = Inr (list_ex ar_stopped rs, s') \<and> tcp_objs s' = tcp_objs s
    \<and> tcp_worker_tasks s' = tcp_worker_tasks s @ map Handle_client (concat (map (accepted (tcp_objs s ! sock)) (served rs)))"
  using startAccept_spec [OF assms] by simp

abbreviation (input) last_round :: accept_round where
  "last_round \<equiv> \<lparr>ar_os = listen_only_os\<lparr>os_setsockopt := [(SOL_SOCKET, SO_RCVTIMEO)]\<rparr>, ar_fds = FdContextManager_ctor,
     ar_files = \<lparr>os_stat = [], os_flags = []\<rparr>, ar_stopped = True\<rparr>"

abbreviation (input) demo_server :: tcp_server where
  "demo_server \<equiv> (TcpServer_ctor 120000)\<lparr>tcp_objs := [CreateTCPSocket\<lparr>socketfd := 5\<rparr>], tcp_sockets := [0], isStop := False\<rparr>"

theorem accept_loop_hands_on_witness:
  "\<exists>s'. startAccept [last_round] 0 demo_server = Inr (True, s') \<and> tcp_worker_tasks s' = []"
  using accept_loop_hands_on [of "[last_round]" demo_server 0]
  by (simp add: round_ok_def is_ok_def accept_def accepted_def TcpServer_ctor_def)

text \<open>
  C30: Stopping releases the listening sockets.  After \<^verbatim>\<open>stop\<close> an accept loop at the head of
  its round takes no client and is left; a loop that was waiting in \<^verbatim>\<open>accept\<close> when \<^verbatim>\<open>stop\<close> was
  called hands on the client that call returns, if it returns one, and is then left, provided
  that \<^verbatim>\<open>accept\<close> does not fail on an assertion and a receive timeout can be set.  For a server
  whose listening sockets are different objects, none of them connected, the task \<^verbatim>\<open>stop\<close> leaves
  on the worker, on a thread that has an I/O manager, cancels every registration of a listening
  descriptor and no other, closes the descriptor of each listening socket once, after which
  the kernel watches none of them and every other one as before, and empties the list of sockets,
  so that the destructor has nothing left to close.
\<close>

theorem stop_releases:
  assumes "tcp_ok s"
  shows "\<exists>m' s'. startAccept rs sock (snd (tcp_stop s)) = Inr (True, snd (tcp_stop s))
    \<and> (\<not> isStop s \<and> ar_stopped r \<and> sock < length (tcp_objs s) \<and> round_ok (tcp_objs s ! sock) r \<longrightarrow>
         startAccept (r # rs) sock s = Inr (True, s\<lparr>isStop := True,
           tcp_worker_tasks := tcp_worker_tasks s @ map Handle_client (accepted (tcp_objs s ! sock) r)\<rparr>))
    \<and> stop_task (Some m) (snd (tcp_stop s)) = Inr (Some m', s') \<and> tcp_sockets s' = [] \<and> TcpServer_dtor s' = s'
    \<and> (\<forall>p \<in> set (tcp_sockets s). socketfd (tcp_objs s' ! p) = - 1
         \<and> closed_fds (tcp_objs s' ! p) = closed_fds (tcp_objs s ! p) @ (if socketfd (tcp_objs s ! p) = - 1 then [] else [socketfd (tcp_objs s ! p)]))
    \<and> (\<forall>fd. map_of (mFdGroups m') fd
         = (if fd \<in> set (tcp_fds s) then map_option quieten (map_of (mFdGroups m) fd) else map_of (mFdGroups m) fd)
       \<and> map_of (k_interest m') fd = (if fd \<in> set (tcp_fds s) \<and> fd \<noteq> - 1 then None else map_of (k_interest m) fd))"
proof -
  let ?s = "snd (tcp_stop s)"
  have ok: "distinct (tcp_sockets ?s)" "\<forall>p \<in> set (tcp_sockets ?s). p < length (tcp_objs ?s)" "tcp_objs ?s = tcp_objs s"
      "tcp_sockets ?s = tcp_sockets s" "\<And>p. p \<in> set (tcp_sockets s) \<Longrightarrow> \<not> isConnected (tcp_objs s ! p)"
    using assms by (auto simp: tcp_ok_def tcp_stop_def)
  obtain m' objs' where r: "stop_loop (tcp_sockets ?s) (Some m) ?s = Inr (Some m', ?s\<lparr>tcp_objs := objs'\<rparr>)"
    "\<forall>p. objs' ! p = (if p \<in> set (tcp_sockets s) then snd (close (tcp_objs s ! p)) else tcp_objs s ! p)"
    "\<forall>x. map_of (mFdGroups m') x = (if x \<in> (\<lambda>p. socketfd (tcp_objs s ! p)) ` set (tcp_sockets s)
          then map_option quieten (map_of (mFdGroups m) x) else map_of (mFdGroups m) x)
        \<and> map_of (k_interest m') x = (if x \<in> (\<lambda>p. socketfd (tcp_objs s ! p)) ` set (tcp_sockets s) \<and> x \<noteq> - 1
          then None else map_of (k_interest m) x)"
    using stop_loop_spec [OF ok(1,2), of m] ok(3,4) by auto
  let ?t = "?s\<lparr>tcp_objs := objs', tcp_sockets := []\<rparr>"
  have "stop_task (Some m) ?s = Inr (Some m', ?t)" using r(1) by (simp add: stop_task_def)
  moreover have "startAccept rs sock ?s = Inr (True, ?s)" by (cases rs) (simp_all add: tcp_stop_def)
  moreover have "\<not> isStop s \<and> ar_stopped r \<and> sock < length (tcp_objs s) \<and> round_ok (tcp_objs s ! sock) r \<longrightarrow>
      startAccept (r # rs) sock s = Inr (True, s\<lparr>isStop := True,
        tcp_worker_tasks := tcp_worker_tasks s @ map Handle_client (accepted (tcp_objs s ! sock) r)\<rparr>)"
    using startAccept_spec [of "r # rs" s sock] by (simp del: startAccept.simps)
  moreover have "TcpServer_dtor ?t = ?t" by (simp add: TcpServer_dtor_def)
  moreover have "set (tcp_fds s) = (\<lambda>p. socketfd (tcp_objs s ! p)) ` set (tcp_sockets s)" by (simp add: tcp_fds_def)
  ultimately show ?thesis using r(2,3) ok(5) by (intro exI [of _ m'] exI [of _ ?t]) (simp add: close_once)
qed

theorem stop_releases_witness:
  "\<forall>m. \<exists>m' s' s''. stop_task (Some m) (snd (tcp_stop demo_server)) = Inr (Some m', s') \<and> closed_fds (tcp_objs s' ! 0) = [5]
     \<and> startAccept [last_round] 0 demo_server = Inr (True, s'') \<and> tcp_worker_tasks s'' = []"
proof
  fix m
  have "tcp_ok demo_server" "closed_fds (tcp_objs demo_server ! 0) = []" "socketfd (tcp_objs demo_server ! 0) = 5" "0 \<in> set (tcp_sockets demo_server)"
    by (simp_all add: tcp_ok_def CreateTCPSocket_def Socket_ctor_def)
  moreover have "\<not> isStop demo_server \<and> ar_stopped last_round \<and> 0 < length (tcp_objs demo_server) \<and> round_ok (tcp_objs demo_server ! 0) last_round"
    "accepted (tcp_objs demo_server ! 0) last_round = []" "tcp_worker_tasks demo_server = []"
    by (simp_all add: round_ok_def is_ok_def accept_def accepted_def TcpServer_ctor_def)
  ultimately show "\<exists>m' s' s''. stop_task (Some m) (snd (tcp_stop demo_server)) = Inr (Some m', s') \<and> closed_fds (tcp_objs s' ! 0) = [5]
     \<and> startAccept [last_round] 0 demo_server = Inr (True, s'') \<and> tcp_worker_tasks s'' = []"
    using stop_releases [of demo_server "[]" 0 last_round m] by fastforce
qed

end
