(* ===== verification/Hook.thy ===== *)
theory Hook
  imports FdManager IOManager
begin

text \<open>
  The hooked system calls (\<^verbatim>\<open>qslary/base/Hook.h\<close>, \<^verbatim>\<open>Hook.cc\<close>): calls that would block a
  thread suspend the calling fiber instead.  The state of the thread that makes a call is
  its I/O manager (or null), the table of descriptor contexts, the operating system's
  descriptors, \<^verbatim>\<open>errno\<close> and the callbacks of the timers the hooks started (the timer queue
  itself keeps the timers).  What the original functions return is an argument: the list
  of the results and \<^verbatim>\<open>errno\<close>s of successive calls, of which the loop over \<^verbatim>\<open>EINTR\<close> takes
  as many as it makes.  A call that suspends its fiber is split in two: up to the yield,
  where \<open>rest\<close> is what the fiber does after the call returns, and from its resumption on.
  Buffers and addresses are passed through and left out, and so is the terminal output.

  The lemmas show that the non-blocking flag a program sets is the one it reads back while
  the system's flag stays as the library needs it, and which fibers are resumed: those that
  sleep are, those that wait for a descriptor are not.
\<close>

unbundle bit_operations_syntax

section \<open>Definitions\<close>

definition EINTR :: int where "EINTR = 4"
definition EBADF :: int where "EBADF = 9"
definition EAGAIN :: int where "EAGAIN = 11"
definition EINPROGRESS :: int where "EINPROGRESS = 115"

(* net/IOManager.h 17-18: READ_EVENT, WRITE_EVENT *)
datatype hook_event = READ_EVENT | WRITE_EVENT

text \<open>What the timers started here call.\<close>

datatype hook_cb = Cb_resume nat | Cb_cancel_read int | Cb_cancel_write int | Cb_cancel_all int

record hook_world =
  thread_hook_enable :: bool
  hk_io :: "io_manager option"
  hk_fds :: fd_table
  hk_files :: os_files
  hk_errno :: int
  hk_timers :: "(timer_id \<times> hook_cb) list"
  s_connect_timeout :: u64

text \<open>
  How a hooked call ends for now: it returned, its fiber is suspended with a timer
  running, or it is still in its loop over interrupted calls.
\<close>

datatype hooked = Hk_returns int hook_world | Hk_held timer_id hook_world | Hk_loops

text \<open>A plain call of the original function.\<close>

definition returns :: "int \<times> int \<Rightarrow> hook_world \<Rightarrow> hooked" where
  "returns r w = Hk_returns (fst r) (if fst r = - 1 then w\<lparr>hk_errno := snd r\<rparr> else w)"

definition original :: "(int \<times> int) list \<Rightarrow> hook_world \<Rightarrow> hooked" where
  "original answers w = (case answers of [] \<Rightarrow> Hk_loops | r # _ \<Rightarrow> returns r w)"

definition get_io :: "hook_world \<Rightarrow> io_manager result" where
  "get_io w = (case hk_io w of None \<Rightarrow> Inl Undefined_behaviour | Some m \<Rightarrow> Inr m)"

definition lookup_ctx :: "int \<Rightarrow> hook_world \<Rightarrow> fd_context option result" where
  "lookup_ctx fd w = rbind (getFdContext fd False (hk_fds w) (hk_files w)) (\<lambda>(ctx, _, _). Inr ctx)"

definition create_ctx :: "int \<Rightarrow> hook_world \<Rightarrow> hook_world result" where
  "create_ctx fd w =
     rbind (getFdContext fd True (hk_fds w) (hk_files w)) (\<lambda>(_, fds, files). Inr (w\<lparr>hk_fds := fds, hk_files := files\<rparr>))"

text \<open>A context is shared: changing it through a lookup changes the table's.\<close>

definition set_ctx :: "int \<Rightarrow> fd_context \<Rightarrow> hook_world \<Rightarrow> hook_world" where
  "set_ctx fd c w = w\<lparr>hk_fds := (hk_fds w)[size_of_int fd := Some c]\<rparr>"

text \<open>A timer of the I/O manager with a callback of this file; the callbacks it knows itself are none.\<close>

definition start_timer :: "(addr list \<Rightarrow> addr option) \<Rightarrow> timestamp \<Rightarrow> double \<Rightarrow> hook_cb \<Rightarrow> io_manager \<Rightarrow> hook_world
    \<Rightarrow> (timer_id \<times> io_manager \<times> hook_world) result" where
  "start_timer malloc now delay cb m w =
     rbind (runAfter malloc now delay [] (io_timers m)) (\<lambda>(i, tm).
       Inr (i, m\<lparr>io_timers := tm\<rparr>, w\<lparr>hk_timers := hk_timers w @ [(i, cb)]\<rparr>))"

definition hold :: "instr list \<Rightarrow> timer_id \<Rightarrow> io_manager \<Rightarrow> hook_world \<Rightarrow> hooked result" where
  "hold rest i m w = rbind (YieldToHold rest (io_sched m)) (\<lambda>s. Inr (Hk_held i (w\<lparr>hk_io := Some (m\<lparr>io_sched := s\<rparr>)\<rparr>)))"

(* base/Hook.cc 96: do_io *)
definition do_io :: "(addr list \<Rightarrow> addr option) \<Rightarrow> timestamp \<Rightarrow> instr list \<Rightarrow> hook_event \<Rightarrow> int \<Rightarrow> (int \<times> int) list \<Rightarrow> int
    \<Rightarrow> hook_world \<Rightarrow> hooked result" where
  "do_io malloc now rest event timeout_so answers fd w =
     (if \<not> thread_hook_enable w then Inr (original answers w)
      else rbind (lookup_ctx fd w) (\<lambda>fdctx.
      case fdctx of
        None \<Rightarrow> Inr (original answers w)
      | Some c \<Rightarrow>
          if isClosed c then Inr (Hk_returns (- 1) (w\<lparr>hk_errno := EBADF\<rparr>))
          else if \<not> isSocket c \<or> userNonblock c then Inr (original answers w)
          else
            let to = getTimeout timeout_so c in
            (case dropWhile (\<lambda>r. r = (- 1, EINTR)) answers of
               [] \<Rightarrow> Inr Hk_loops
             | (n, e) # _ \<Rightarrow>
                 if n = - 1 \<and> e = EAGAIN
                 then rbind (get_io w) (\<lambda>m.
                      rbind (start_timer malloc now (double_of_int (uint to))
                        (case event of READ_EVENT \<Rightarrow> Cb_cancel_read fd | WRITE_EVENT \<Rightarrow> Cb_cancel_write fd) m (w\<lparr>hk_errno := EAGAIN\<rparr>)) (\<lambda>(timerId, m1, w1).
                      rbind (case event of READ_EVENT \<Rightarrow> AddReadEvent fd None m1 | WRITE_EVENT \<Rightarrow> AddWriteEvent fd None m1) (\<lambda>(_, m2).
                        hold rest timerId m2 w1)))
                 else Inr (returns (n, e) w))))"

text \<open>The rest of \<^verbatim>\<open>do_io\<close> once its fiber runs again: there is no jump to the label \<^verbatim>\<open>retry\<close>.\<close>

(* base/Hook.cc 151-154: do_io, after the yield *)
definition do_io_resumed :: "timer_id \<Rightarrow> hook_world \<Rightarrow> hooked result" where
  "do_io_resumed timerId w =
     rbind (get_io w) (\<lambda>m. rbind (cancel timerId (io_timers m)) (\<lambda>tm. Inr (Hk_returns (- 1) (w\<lparr>hk_io := Some (m\<lparr>io_timers := tm\<rparr>)\<rparr>))))"

definition sleep_for :: "(addr list \<Rightarrow> addr option) \<Rightarrow> timestamp \<Rightarrow> instr list \<Rightarrow> double \<Rightarrow> hook_world \<Rightarrow> hooked result" where
  "sleep_for malloc now rest delay w =
     rbind (get_io w) (\<lambda>m.
     let (fiber, s) = GetThreadCurrentFiber (io_sched m) in
     rbind (start_timer malloc now delay (Cb_resume fiber) (m\<lparr>io_sched := s\<rparr>) w) (\<lambda>(i, m1, w1). hold rest i m1 w1))"

(* base/Hook.cc 167: sleep *)
definition hook_sleep :: "(addr list \<Rightarrow> addr option) \<Rightarrow> timestamp \<Rightarrow> instr list \<Rightarrow> (int \<times> int) list \<Rightarrow> u32 \<Rightarrow> hook_world \<Rightarrow> hooked result" where
  "hook_sleep malloc now rest answers seconds w =
     (if \<not> thread_hook_enable w then Inr (original answers w)
      else sleep_for malloc now rest (double_of_int (uint seconds)) w)"

text \<open>The quotient of two integers as a \<^verbatim>\<open>double\<close>, correctly rounded: enough bits of it, and a last one for the rest.\<close>

definition double_div :: "int \<Rightarrow> int \<Rightarrow> double" where
  "double_div a b =
     (let k = 64 + bit_count (nat \<bar>b\<bar>); p = nat \<bar>a\<bar> * 2 ^ k; q = nat \<bar>b\<bar> in
      round53 (sgn a * sgn b * int (2 * (p div q) + (if p mod q = 0 then 0 else 1))) (- int k - 1))"

(* base/Hook.cc 182: usleep *)
definition hook_usleep :: "(addr list \<Rightarrow> addr option) \<Rightarrow> timestamp \<Rightarrow> instr list \<Rightarrow> (int \<times> int) list \<Rightarrow> u32 \<Rightarrow> hook_world \<Rightarrow> hooked result" where
  "hook_usleep malloc now rest answers usec w =
     (if \<not> thread_hook_enable w then Inr (original answers w)
      else sleep_for malloc now rest (double_div (uint usec) 1000) w)"

(* base/Hook.cc 198: nanaosleep *)
definition hook_nanaosleep :: "(addr list \<Rightarrow> addr option) \<Rightarrow> timestamp \<Rightarrow> instr list \<Rightarrow> (int \<times> int) list \<Rightarrow> timespec \<Rightarrow> hook_world \<Rightarrow> hooked result" where
  "hook_nanaosleep malloc now rest answers req w =
     (if \<not> thread_hook_enable w then Inr (original answers w)
      else let timeout_ms = sint (word_of_int (tv_sec req + trunc_div (trunc_div (tv_nsec req) 1000) 1000) :: 32 word) in
        sleep_for malloc now rest (double_of_int timeout_ms) w)"

text \<open>The sleeping calls return 0 when their fiber runs again.\<close>

(* base/Hook.cc 214: socket *)
definition hook_socket :: "int \<times> int \<Rightarrow> hook_world \<Rightarrow> hooked result" where
  "hook_socket answer w =
     (if \<not> thread_hook_enable w then Inr (returns answer w)
      else if fst answer = - 1 then Inr (returns answer w)
      else rbind (create_ctx (fst answer) w) (\<lambda>w'. Inr (Hk_returns (fst answer) w')))"

text \<open>\<open>so_error\<close> is what \<^verbatim>\<open>getsockopt\<close> reports for \<^verbatim>\<open>SO_ERROR\<close>, if it succeeds; a true \<^verbatim>\<open>bool\<close> is 1 as an \<^verbatim>\<open>int\<close>.\<close>

definition connect_result :: "int option \<Rightarrow> hook_world \<Rightarrow> hooked" where
  "connect_result so_error w =
     (case so_error of
        None \<Rightarrow> Hk_returns (- 1) w
      | Some error \<Rightarrow> if error = 0 then Hk_returns 0 w else Hk_returns (- 1) (w\<lparr>hk_errno := error\<rparr>))"

(* base/Hook.cc 227: connect_with_timeout *)
definition connect_with_timeout :: "(addr list \<Rightarrow> addr option) \<Rightarrow> timestamp \<Rightarrow> instr list \<Rightarrow> int \<times> int \<Rightarrow> int option \<Rightarrow> u64 \<Rightarrow> int
    \<Rightarrow> hook_world \<Rightarrow> hooked result" where
  "connect_with_timeout malloc now rest answer so_error timeout_ms sockfd w =
     (if \<not> thread_hook_enable w then Inr (returns answer w)
      else rbind (lookup_ctx sockfd w) (\<lambda>fdctx.
      case fdctx of
        None \<Rightarrow> Inr (Hk_returns (- 1) (w\<lparr>hk_errno := EBADF\<rparr>))
      | Some c \<Rightarrow>
          if isClosed c then Inr (Hk_returns (- 1) (w\<lparr>hk_errno := EBADF\<rparr>))
          else if \<not> isSocket c \<or> userNonblock c then Inr (returns answer w)
          else if fst answer = 0 then Inr (returns answer w)
          else if fst answer \<noteq> - 1 \<or> snd answer \<noteq> EINPROGRESS then Inr (returns answer w)
          else
            rbind (get_io w) (\<lambda>m.
            rbind (start_timer malloc now (double_div (uint timeout_ms) 1000) (Cb_cancel_all sockfd) m (w\<lparr>hk_errno := EINPROGRESS\<rparr>)) (\<lambda>(timerId, m1, w1).
            rbind (AddWriteEvent sockfd None m1) (\<lambda>(added, m2).
            let rt = (if added then 1 else 0 :: int) in
            if rt = 0 then hold rest timerId m2 w1
            else Inr (connect_result so_error (w1\<lparr>hk_io := Some m2\<rparr>)))))))"

(* base/Hook.cc 288: connect *)
definition hook_connect :: "(addr list \<Rightarrow> addr option) \<Rightarrow> timestamp \<Rightarrow> instr list \<Rightarrow> int \<times> int \<Rightarrow> int option \<Rightarrow> int \<Rightarrow> hook_world \<Rightarrow> hooked result" where
  "hook_connect malloc now rest answer so_error sockfd w =
     connect_with_timeout malloc now rest answer so_error (s_connect_timeout w) sockfd w"

definition new_context :: "hooked \<Rightarrow> hooked result" where
  "new_context r =
     (case r of Hk_returns fd w \<Rightarrow> if fd \<ge> 0 then rbind (create_ctx fd w) (\<lambda>w'. Inr (Hk_returns fd w')) else Inr r | _ \<Rightarrow> Inr r)"

(* base/Hook.cc 294: accept *)
definition hook_accept :: "(addr list \<Rightarrow> addr option) \<Rightarrow> timestamp \<Rightarrow> instr list \<Rightarrow> (int \<times> int) list \<Rightarrow> int \<Rightarrow> hook_world \<Rightarrow> hooked result" where
  "hook_accept malloc now rest answers s w = rbind (do_io malloc now rest READ_EVENT SO_RCVTIMEO answers s w) new_context"

text \<open>The original \<^verbatim>\<open>close\<close>: when it succeeds, the kernel drops the descriptor from what the I/O manager watches.\<close>

definition close_f :: "int \<times> int \<Rightarrow> int \<Rightarrow> hook_world \<Rightarrow> hooked" where
  "close_f answer fd w =
     (if fst answer = 0 then returns answer (w\<lparr>hk_io := map_option (kernel_closed fd) (hk_io w)\<rparr>) else returns answer w)"

(* base/Hook.cc 303: close *)
definition hook_close :: "int \<times> int \<Rightarrow> int \<Rightarrow> hook_world \<Rightarrow> hooked result" where
  "hook_close answer fd w =
     (if \<not> thread_hook_enable w then Inr (close_f answer fd w)
      else rbind (lookup_ctx fd w) (\<lambda>ctx.
      case ctx of
        None \<Rightarrow> Inr (close_f answer fd w)
      | Some _ \<Rightarrow>
          let w1 = (case hk_io w of None \<Rightarrow> w | Some m \<Rightarrow> w\<lparr>hk_io := Some (snd (CancelAll fd m))\<rparr>) in
          rbind (delFdContext fd (hk_fds w1)) (\<lambda>fds. Inr (close_f answer fd (w1\<lparr>hk_fds := fds\<rparr>)))))"

type_synonym hook_call = "(addr list \<Rightarrow> addr option) \<Rightarrow> timestamp \<Rightarrow> instr list \<Rightarrow> (int \<times> int) list \<Rightarrow> int \<Rightarrow> hook_world \<Rightarrow> hooked result"

(* base/Hook.cc 323: read *)
definition hook_read :: hook_call where
  "hook_read malloc now rest answers fd w = do_io malloc now rest READ_EVENT SO_RCVTIMEO answers fd w"

(* base/Hook.cc 328: readv *)
definition hook_readv :: hook_call where
  "hook_readv malloc now rest answers fd w = do_io malloc now rest READ_EVENT SO_RCVTIMEO answers fd w"

(* base/Hook.cc 334: recv *)
definition hook_recv :: hook_call where
  "hook_recv malloc now rest answers sockfd w = do_io malloc now rest READ_EVENT SO_RCVTIMEO answers sockfd w"

(* base/Hook.cc 340: recvfrom *)
definition hook_recvfrom :: hook_call where
  "hook_recvfrom malloc now rest answers sockfd w = do_io malloc now rest READ_EVENT SO_RCVTIMEO answers sockfd w"

(* base/Hook.cc 347: recvmsg *)
definition hook_recvmsg :: hook_call where
  "hook_recvmsg malloc now rest answers sockfd w = do_io malloc now rest READ_EVENT SO_RCVTIMEO answers sockfd w"

(* base/Hook.cc 353: write *)
definition hook_write :: hook_call where
  "hook_write malloc now rest answers fd w = do_io malloc now rest WRITE_EVENT SO_SNDTIMEO answers fd w"

(* base/Hook.cc 359: writev *)
definition hook_writev :: hook_call where
  "hook_writev malloc now rest answers fd w = do_io malloc now rest WRITE_EVENT SO_SNDTIMEO answers fd w"

(* base/Hook.cc 365: send *)
definition hook_send :: hook_call where
  "hook_send malloc now rest answers s w = do_io malloc now rest WRITE_EVENT SO_SNDTIMEO answers s w"

(* base/Hook.cc 371: sendto *)
definition hook_sendto :: hook_call where
  "hook_sendto malloc now rest answers s w = do_io malloc now rest WRITE_EVENT SO_SNDTIMEO answers s w"

(* base/Hook.cc 378: sendmsg *)
definition hook_sendmsg :: hook_call where
  "hook_sendmsg malloc now rest answers s w = do_io malloc now rest WRITE_EVENT SO_SNDTIMEO answers s w"

definition F_GETFL :: int where "F_GETFL = 3"
definition F_SETFL :: int where "F_SETFL = 4"
definition FIONBIO :: int where "FIONBIO = 21537"

text \<open>The commands that are passed on with their argument; every other one is passed on without.\<close>

definition fcntl_arg_cmds :: "int list" where
  "fcntl_arg_cmds = [0, 1030, 2, 8, 10, 1024, 1026, 1031, 6, 7, 5, 16, 15]"

text \<open>
  The original \<^verbatim>\<open>fcntl\<close>: flags as the system keeps them.  \<open>other\<close> is what it answers to other
  commands, and its answer to \<^verbatim>\<open>F_SETFL\<close> is not 0 where the system refuses the flags.
\<close>

type_synonym fcntl_fun = "int \<Rightarrow> int \<Rightarrow> u32 option \<Rightarrow> os_files \<Rightarrow> u32 \<times> os_files"

definition fcntl_f :: "fcntl_fun \<Rightarrow> fcntl_fun" where
  "fcntl_f other fd cmd arg os =
     (if cmd = F_GETFL then (fcntl_getfl fd os, os)
      else if cmd = F_SETFL
      then case arg of None \<Rightarrow> (- 1, os)
           | Some f \<Rightarrow> if map_of (os_flags os) fd = None \<or> fst (other fd cmd arg os) \<noteq> 0 then (- 1, os) else (0, fcntl_setfl fd f os)
      else other fd cmd arg os)"

definition on_files :: "(os_files \<Rightarrow> u32 \<times> os_files) \<Rightarrow> hook_world \<Rightarrow> u32 \<times> hook_world" where
  "on_files f w = (let (r, files) = f (hk_files w) in (r, w\<lparr>hk_files := files\<rparr>))"

definition managed :: "fd_context option \<Rightarrow> bool" where
  "managed ctx \<longleftrightarrow> (case ctx of None \<Rightarrow> False | Some c \<Rightarrow> \<not> isClosed c \<and> isSocket c)"

(* base/Hook.cc 386: fcntl *)
definition hook_fcntl :: "fcntl_fun \<Rightarrow> int \<Rightarrow> int \<Rightarrow> u32 \<Rightarrow> hook_world \<Rightarrow> (u32 \<times> hook_world) result" where
  "hook_fcntl other fd cmd arg w =
     (if cmd = F_SETFL
      then rbind (lookup_ctx fd w) (\<lambda>ctx.
           if \<not> managed ctx then Inr (on_files (fcntl_f other fd cmd (Some arg)) w)
           else let c = (the ctx)\<lparr>userNonblock := (arg AND O_NONBLOCK \<noteq> 0)\<rparr>;
                    arg1 = (if sysNonblock c then arg OR O_NONBLOCK else arg AND NOT O_NONBLOCK) in
                Inr (on_files (fcntl_f other fd cmd (Some arg1)) (set_ctx fd c w)))
      else if cmd = F_GETFL
      then let (arg1, w1) = on_files (fcntl_f other fd cmd None) w in
           rbind (lookup_ctx fd w1) (\<lambda>ctx.
             if \<not> managed ctx then Inr (arg1, w1)
             else if userNonblock (the ctx) then Inr (arg1 OR O_NONBLOCK, w1) else Inr (arg1 AND NOT O_NONBLOCK, w1))
      else if cmd \<in> set fcntl_arg_cmds then Inr (on_files (fcntl_f other fd cmd (Some arg)) w)
      else Inr (on_files (fcntl_f other fd cmd None) w))"

(* base/Hook.cc 485: ioctl *)
definition hook_ioctl :: "int \<times> int \<Rightarrow> int \<Rightarrow> int \<Rightarrow> int \<Rightarrow> hook_world \<Rightarrow> hooked result" where
  "hook_ioctl answer fd request arg w =
     (if request = FIONBIO
      then rbind (lookup_ctx fd w) (\<lambda>ctx.
           if \<not> managed ctx then Inr (returns answer w)
           else Inr (returns answer (set_ctx fd ((the ctx)\<lparr>userNonblock := (arg \<noteq> 0)\<rparr>) w)))
      else Inr (returns answer w))"

(* base/Hook.cc 506: getsockopt *)
definition hook_getsockopt :: "int \<times> int \<Rightarrow> hook_world \<Rightarrow> hooked" where
  "hook_getsockopt answer w = returns answer w"

(* base/Hook.cc 512: setsockopt *)
definition hook_setsockopt :: "int \<times> int \<Rightarrow> int \<Rightarrow> int \<Rightarrow> int \<Rightarrow> int \<times> int \<Rightarrow> hook_world \<Rightarrow> hooked result" where
  "hook_setsockopt answer sockfd level optname v w =
     (if \<not> thread_hook_enable w then Inr (returns answer w)
      else if level = 1 \<and> (optname = SO_RCVTIMEO \<or> optname = SO_SNDTIMEO)
      then rbind (lookup_ctx sockfd w) (\<lambda>fdctx.
           case fdctx of
             None \<Rightarrow> Inr (returns answer w)
           | Some c \<Rightarrow>
               let ms = fst v * 1000 + trunc_div (snd v) 1000 in
               if \<not> in_int64 (fst v * 1000) \<or> \<not> in_int64 ms then Inl Signed_overflow
               else Inr (returns answer (set_ctx sockfd (setTimeout optname (word_of_int ms) c) w)))
      else Inr (returns answer w))"

text \<open>A timer of the hooks fires.\<close>

fun run_hook_cb :: "hook_cb \<Rightarrow> io_manager \<Rightarrow> io_manager" where
  "run_hook_cb (Cb_resume p) m = m\<lparr>io_sched := scheduler_fiber p (io_sched m)\<rparr>"
| "run_hook_cb (Cb_cancel_read fd) m = snd (CancelReadEvent fd m)"
| "run_hook_cb (Cb_cancel_write fd) m = snd (CancelWriteEvent fd m)"
| "run_hook_cb (Cb_cancel_all fd) m = snd (CancelAll fd m)"

definition hook_cbs :: "active_timer list \<Rightarrow> hook_world \<Rightarrow> hook_cb list" where
  "hook_cbs ts w = List.map_filter (\<lambda>(p, q). map_of (hk_timers w) \<lparr>id_timer = p, id_sequence = q\<rparr>) ts"

text \<open>The timer descriptor is readable: the timers that are due run, with the hooks' callbacks.\<close>

definition timers_expire :: "(addr list \<Rightarrow> addr option) \<Rightarrow> timestamp \<Rightarrow> timestamp \<Rightarrow> hook_world \<Rightarrow> hook_world result" where
  "timers_expire malloc now now' w =
     rbind (get_io w) (\<lambda>m.
     rbind (handleRead malloc 8 now now' (io_timers m)) (\<lambda>tm.
     let fired = drop (length (ran (io_timers m))) (ran tm) in
       Inr (w\<lparr>hk_io := Some (fold run_hook_cb (hook_cbs fired w) (m\<lparr>io_timers := tm\<rparr>))\<rparr>)))"

section \<open>Lemmas\<close>

lemma lookup_ctx_slot:
  assumes "table_ok (hk_fds w)" "0 \<le> fd" "fd < 2 ^ 31"
  shows "lookup_ctx fd w = Inr (slot (hk_fds w) (nat fd))"
  using assms by (auto simp: lookup_ctx_def getFdContext_def slot_def Let_def)

lemma set_ctx_slot:
  assumes "table_ok (hk_fds w)" "0 \<le> fd" "fd < 2 ^ 31" "slot (hk_fds w) (nat fd) = Some c" "c_fd c' = fd"
  shows "table_ok (hk_fds (set_ctx fd c' w))" "slot (hk_fds (set_ctx fd c' w)) (nat fd) = Some c'"
  using assms by (auto simp: set_ctx_def table_ok_def slot_def nth_list_update split: if_splits)

lemma bit_nonblock: "bit O_NONBLOCK n \<longleftrightarrow> n = 11"
proof -
  have "O_NONBLOCK = push_bit 11 1" by (simp add: O_NONBLOCK_def push_bit_eq_mult)
  then have "bit O_NONBLOCK n \<longleftrightarrow> bit (push_bit 11 1 :: u32) n" by (rule arg_cong)
  also have "\<dots> \<longleftrightarrow> n = 11" unfolding bit_push_bit_iff by (auto simp: bit_1_iff)
  finally show ?thesis .
qed

lemma nonblock_bit: "x AND O_NONBLOCK \<noteq> 0 \<longleftrightarrow> bit x 11"
  by (auto simp: bit_eq_iff [of "x AND O_NONBLOCK" 0] bit_and_iff bit_nonblock)

lemma bit_setfl: "bit SETFL_FLAGS 11"
  by (simp add: SETFL_FLAGS_def)

text \<open>
  What a program reads back of the flags \<open>x\<close> it set over \<open>old\<close> ones, when the system's
  non-blocking flag is kept as the library needs it.
\<close>

lemma nonblock_flags:
  fixes x :: u32
  assumes "kept = x OR O_NONBLOCK \<or> kept = x AND NOT O_NONBLOCK" "y = (old AND NOT SETFL_FLAGS) OR (kept AND SETFL_FLAGS)"
  shows "(if x AND O_NONBLOCK \<noteq> 0 then y OR O_NONBLOCK else y AND NOT O_NONBLOCK) = (old AND NOT SETFL_FLAGS) OR (x AND SETFL_FLAGS)"
    "y AND O_NONBLOCK \<noteq> 0 \<longleftrightarrow> kept AND O_NONBLOCK \<noteq> 0"
    "(if x AND O_NONBLOCK \<noteq> 0 then old OR O_NONBLOCK else old AND NOT O_NONBLOCK) = (old AND NOT O_NONBLOCK) OR (x AND O_NONBLOCK)"
  unfolding nonblock_bit using assms bit_setfl by (auto intro!: bit_word_eqI simp: bit_simps bit_nonblock)

text \<open>No event of a descriptor, and no cancelled registration, queues a fiber that exists already.\<close>

definition unqueued :: "nat \<Rightarrow> io_manager \<Rightarrow> bool" where
  "unqueued p m \<longleftrightarrow> p < length (fibers (io_sched m)) \<and> p \<notin> set (pendingFunctors (io_sched m))"

lemma unqueued_cong: "io_sched m' = io_sched m \<Longrightarrow> unqueued p m' = unqueued p m"
  by (simp add: unqueued_def)

lemma unqueued_scheduler: "unqueued p m \<Longrightarrow> unqueued p (io_scheduler cb m)"
  by (auto simp: unqueued_def io_scheduler_def io_Wakeup_def schedulerNoLock_def Fiber_ctor_def Let_def)

lemma unqueued_trigger: "unqueued p m \<Longrightarrow> unqueued p (snd (TriggerEvent g e m))"
  by (auto simp: TriggerEvent_def intro: unqueued_scheduler)

lemma unqueued_event: "unqueued p m \<Longrightarrow> ProcessFdEvent e m = Inr m' \<Longrightarrow> unqueued p m'"
  using unqueued_trigger [of p m] unfolding ProcessFdEvent_def
  by (auto simp: rbind_eq_Inr Let_def split_def unqueued_def)

lemma unqueued_events: "unqueued p m \<Longrightarrow> process_events es m = Inr m' \<Longrightarrow> unqueued p m'"
proof (induction es arbitrary: m)
  case (Cons e es)
  show ?case
  proof (cases "ev_fd e = mWakeupFd m")
    case True
    then show ?thesis using Cons.IH [of "m\<lparr>k_eventfd := 0\<rparr>"] Cons.prems by (simp add: unqueued_def)
  next
    case False
    then show ?thesis using Cons.prems Cons.IH unqueued_event by (fastforce simp: rbind_eq_Inr)
  qed
qed simp

lemma cancel_sched [simp]:
  "io_sched (snd (CancelReadEvent fd m)) = io_sched m" "io_sched (snd (CancelWriteEvent fd m)) = io_sched m"
  "io_sched (snd (CancelAll fd m)) = io_sched m"
  by (simp_all add: CancelAll_def CancelReadEvent_def CancelWriteEvent_def split: option.split)

definition held :: "nat \<Rightarrow> instr list \<Rightarrow> io_manager \<Rightarrow> bool" where
  "held p rest m \<longleftrightarrow> p < length (fibers (io_sched m)) \<and> f_state (fibers (io_sched m) ! p) = HOLD \<and> f_ctx (fibers (io_sched m) ! p) = Ctx_in rest"

lemma hold_running:
  assumes "running mf p (io_sched m)"
  obtains m' where "hold rest i m w = Inr (Hk_held i (w\<lparr>hk_io := Some m'\<rparr>))" "held p rest m'"
    "pendingFunctors (io_sched m') = pendingFunctors (io_sched m)" "io_timers m' = io_timers m"
proof -
  let ?s = "leave mf p ((fibers (io_sched m) ! p)\<lparr>f_state := HOLD, f_ctx := Ctx_in rest\<rparr>) (io_sched m)"
  have "hold rest i m w = Inr (Hk_held i (w\<lparr>hk_io := Some (m\<lparr>io_sched := ?s\<rparr>)\<rparr>))"
    using yield_as_running [OF assms] by (simp add: hold_def YieldToHold_def)
  moreover have "p < length (fibers (io_sched m))" using assms by (simp add: running_def)
  ultimately show ?thesis using that [of "m\<lparr>io_sched := ?s\<rparr>"]
    by (simp add: held_def leave_def set_fiber_def SetThreadCurrentFiber_def)
qed

text \<open>The callbacks of the hooks that are run only add to the queue, and one that resumes a fiber adds it.\<close>

lemma run_hook_cbs_grow: "q \<in> set (pendingFunctors (io_sched m)) \<Longrightarrow> q \<in> set (pendingFunctors (io_sched (fold run_hook_cb cbs m)))"
proof (induction cbs arbitrary: m)
  case (Cons cb cbs)
  have "q \<in> set (pendingFunctors (io_sched (run_hook_cb cb m)))" using Cons.prems by (cases cb) (simp_all add: scheduler_fiber_def)
  then show ?case using Cons.IH by simp
qed simp

lemma run_hook_cbs_resume: "Cb_resume q \<in> set cbs \<Longrightarrow> q \<in> set (pendingFunctors (io_sched (fold run_hook_cb cbs m)))"
proof (induction cbs arbitrary: m)
  case (Cons cb cbs)
  show ?case
  proof (cases "cb = Cb_resume q")
    case True
    then show ?thesis using run_hook_cbs_grow [of q "run_hook_cb cb m" cbs] by (simp add: scheduler_fiber_def)
  next
    case False
    then show ?thesis using Cons.IH Cons.prems by simp
  qed
qed simp

lemma hook_cbs_member: "(p, q) \<in> set ts \<Longrightarrow> map_of (hk_timers w) \<lparr>id_timer = p, id_sequence = q\<rparr> = Some cb \<Longrightarrow> cb \<in> set (hook_cbs ts w)"
  by (force simp: hook_cbs_def map_filter_def image_iff)

text \<open>A timer started now is among those that run when its time has come.\<close>

lemma started_timer_fires:
  assumes "malloc_ok malloc" "tm_reachable malloc tm0" "runAfter malloc now delay [] tm0 = Inr (i, tm)" "addTime now delay = Inr e" "e \<le> later"
  shows "rsafe (\<lambda>tm'. \<exists>fired. ran tm' = ran tm @ fired \<and> (id_timer i, id_sequence i) \<in> set fired) (handleRead malloc 8 later later' tm)"
proof -
  have c: "consistent [] tm0" using tm_reachable_consistent assms(1,2) by blast
  have a: "addTimer malloc now [] e (double_of_int 0) tm0 = Inr (i, tm)" using assms(3,4) by (simp add: runAfter_def)
  have m: "malloc live = Some p \<Longrightarrow> p \<notin> set live \<and> p < UINTPTR_MAX" for live p using assms(1) by (simp add: malloc_ok_def)
  from addTimer_spec [where malloc = malloc, OF c m, of e "[]" "double_of_int 0" now] a
  have t: "consistent [] tm" "timers tm = sset_insert (e, id_timer i) (timers tm0)"
    "tlookup tm (id_timer i) = Some (new_timer [] e (double_of_int 0) (id_sequence i))"
    by (simp_all add: rsafe_def)
  have "(e, id_timer i) \<in> set (filter (\<lambda>x. fst x \<le> later) (timers tm))" using t(2) assms(5) by simp
  then have "(id_timer i, id_sequence i) \<in> set (map (\<lambda>x. (snd x, t_sequence (the (tlookup tm (snd x))))) (filter (\<lambda>x. fst x \<le> later) (timers tm)))"
    using t(3) by (force simp: new_timer_def)
  then show ?thesis by (intro rsafe_mono [OF handleRead_spec [OF assms(1) t(1), of later later']]) blast
qed

section \<open>Properties\<close>

text \<open>
  C22: The non-blocking flag is transparent.  On an open descriptor of a socket the library
  manages: when the system accepts the flags, \<^verbatim>\<open>F_SETFL\<close> returns 0 and \<^verbatim>\<open>F_GETFL\<close> reads back
  the flags the program asked for, the non-blocking one included, as far as \<^verbatim>\<open>F_SETFL\<close> can
  change them, and otherwise those that were there (access mode, creation flags), while the
  system's own non-blocking flag is the one the library needs.  When the system refuses
  them, \<^verbatim>\<open>F_SETFL\<close> returns -1 and the system's flags stay, but the library has recorded the
  refused non-blocking flag already and reports it from then on.
\<close>

theorem nonblock_round_trip:
  fixes other fd flags w c
  defines "kept \<equiv> if sysNonblock c then flags OR O_NONBLOCK else flags AND NOT O_NONBLOCK"
    and "old \<equiv> fcntl_getfl fd (hk_files w)"
  assumes "table_ok (hk_fds w)" "0 \<le> fd" "fd < 2 ^ 31" "slot (hk_fds w) (nat fd) = Some c" "isSocket c" "\<not> isClosed c"
    and "map_of (os_flags (hk_files w)) fd \<noteq> None"
  shows "if fst (other fd F_SETFL (Some kept) (hk_files w)) = 0
    then \<exists>w'. hook_fcntl other fd F_SETFL flags w = Inr (0, w')
      \<and> hook_fcntl other fd F_GETFL arg w' = Inr ((old AND NOT SETFL_FLAGS) OR (flags AND SETFL_FLAGS), w')
      \<and> (fcntl_getfl fd (hk_files w') AND O_NONBLOCK \<noteq> 0 \<longleftrightarrow> sysNonblock c)
    else \<exists>w'. hook_fcntl other fd F_SETFL flags w = Inr (- 1, w') \<and> fcntl_getfl fd (hk_files w') = old
      \<and> hook_fcntl other fd F_GETFL arg w' = Inr ((old AND NOT O_NONBLOCK) OR (flags AND O_NONBLOCK), w')"
proof -
  let ?c = "c\<lparr>userNonblock := (flags AND O_NONBLOCK \<noteq> 0)\<rparr>" and ?ok = "fst (other fd F_SETFL (Some kept) (hk_files w)) = 0"
  let ?w = "(set_ctx fd ?c w)\<lparr>hk_files := (if ?ok then fcntl_setfl fd kept (hk_files w) else hk_files w)\<rparr>"
  obtain f where f: "map_of (os_flags (hk_files w)) fd = Some f" using assms(9) by blast
  have "c_fd c = fd" using assms(3-6) by (auto simp: table_ok_def slot_def split: if_splits)
  then have s: "table_ok (hk_fds ?w)" "slot (hk_fds ?w) (nat fd) = Some ?c" using set_ctx_slot [OF assms(3-6), of ?c] by simp_all
  have set: "hook_fcntl other fd F_SETFL flags w = Inr (if ?ok then 0 else - 1, ?w)"
    using assms(3-8) f by (simp add: hook_fcntl_def lookup_ctx_slot managed_def fcntl_f_def F_SETFL_def F_GETFL_def on_files_def set_ctx_def
        Let_def kept_def [symmetric])
  let ?y = "fcntl_getfl fd (hk_files ?w)"
  have get: "?y = (if ?ok then (old AND NOT SETFL_FLAGS) OR (kept AND SETFL_FLAGS) else old)"
    using f by (auto simp: fcntl_getfl_def fcntl_setfl_def old_def)
  have read: "hook_fcntl other fd F_GETFL arg ?w = Inr (if flags AND O_NONBLOCK \<noteq> 0 then ?y OR O_NONBLOCK else ?y AND NOT O_NONBLOCK, ?w)"
    using lookup_ctx_slot [OF s(1) assms(4,5)] s(2) assms(7,8)
    by (auto simp: hook_fcntl_def F_SETFL_def F_GETFL_def fcntl_f_def on_files_def managed_def Let_def)
  have k: "kept = flags OR O_NONBLOCK \<or> kept = flags AND NOT O_NONBLOCK" by (simp add: kept_def)
  have "kept AND O_NONBLOCK \<noteq> 0 \<longleftrightarrow> sysNonblock c" unfolding nonblock_bit by (simp add: kept_def bit_simps bit_nonblock)
  then show ?thesis using set read get nonblock_flags [OF k, of _ old] by (cases ?ok) auto
qed


text \<open>One fiber running on a thread with an I/O manager, a managed socket 3 with a receive timeout of 2, and a clock at 1000.\<close>

definition demo_fiber :: fiber where
  "demo_fiber = \<lparr>f_id = 1, f_stacksize = 0, f_state = EXEC, f_ctx = Ctx_start, f_stack = True, f_cb = None\<rparr>"

definition demo_hook_io :: io_manager where
  "demo_hook_io =
     \<lparr>io_sched = empty_scheduler\<lparr>fibers := [demo_fiber, demo_fiber], thread_current_fiber := Some 1, sched_main_fiber := Some 0\<rparr>,
      io_timers = TimerManger_ctor, timerfd = 5, mWakeupFd = 6, pendingEventCount = 0, mFdGroups = [], k_interest = [(6, EPOLLIN)],
      k_accepts = (\<lambda>_. True), k_eventfd = 0\<rparr>"

definition demo_ctx :: fd_context where
  "demo_ctx = \<lparr>isInit = True, isSocket = True, sysNonblock = True, userNonblock = False, isClosed = False, c_fd = 3, recvTimeout = 2, sendTimeout = 2\<rparr>"

definition demo_hooks :: hook_world where
  "demo_hooks = \<lparr>thread_hook_enable = True, hk_io = Some demo_hook_io, hk_fds = FdContextManager_ctor[3 := Some demo_ctx],
     hk_files = \<lparr>os_stat = [], os_flags = [(3, 2050)]\<rparr>, hk_errno = 0, hk_timers = [], s_connect_timeout = 50000\<rparr>"

lemma demo_hooks_facts:
  "thread_hook_enable demo_hooks" "table_ok (hk_fds demo_hooks)" "slot (hk_fds demo_hooks) 3 = Some demo_ctx" "hk_io demo_hooks = Some demo_hook_io"
  "running 0 1 (io_sched demo_hook_io)" "pendingFunctors (io_sched demo_hook_io) = []" "map_of (os_flags (hk_files demo_hooks)) 3 \<noteq> None"
  "io_timers demo_hook_io = TimerManger_ctor"
  by (simp_all add: demo_hooks_def demo_hook_io_def demo_fiber_def table_ok_def slot_def FdContextManager_ctor_def nth_resize resize_def
      demo_ctx_def nth_list_update running_def others_ok_def empty_scheduler_def less_Suc_eq)

theorem nonblock_round_trip_witness:
  "\<exists>w'. hook_fcntl (\<lambda>fd cmd arg os. (0, os)) 3 F_SETFL 1 demo_hooks = Inr (0, w') \<and> hook_fcntl (\<lambda>fd cmd arg os. (0, os)) 3 F_GETFL 0 w' = Inr (2, w')
    \<and> fcntl_getfl 3 (hk_files w') AND O_NONBLOCK \<noteq> 0"
proof -
  have "sysNonblock demo_ctx" "isSocket demo_ctx" "\<not> isClosed demo_ctx" by (simp_all add: demo_ctx_def)
  moreover have "(fcntl_getfl 3 (hk_files demo_hooks) AND NOT SETFL_FLAGS) OR (1 AND SETFL_FLAGS) = 2"
    by (simp add: demo_hooks_def fcntl_getfl_def SETFL_FLAGS_def)
  ultimately show ?thesis
    using nonblock_round_trip [of demo_hooks 3 demo_ctx "\<lambda>fd cmd arg os. (0, os)" 1 0] demo_hooks_facts by auto
qed

lemma demo_addTime: "addTime (Timestamp 1000) (double_of_int 2) = Inr (Timestamp 2001000)"
  by (simp add: addTime_whole_seconds ts_checked_def in_int64_def)

lemma demo_runAfter:
  "\<exists>tm. runAfter malloc_next (Timestamp 1000) (double_of_int 2) [] TimerManger_ctor = Inr (\<lparr>id_timer = 1, id_sequence = 1\<rparr>, tm)"
  unfolding runAfter_def demo_addTime by (simp add: timer_eval trunc_div_def trunc_mod_def)


text \<open>
  C21: A sleeping fiber is resumed.  A hooked \<^verbatim>\<open>sleep\<close> suspends the calling fiber; once the time has
  come, handling the timers that are due, whichever else there are, puts that fiber back into
  the queue, and no assertion fails on the way.
\<close>

theorem sleeping_fiber_resumed:
  assumes "thread_hook_enable w" "hk_io w = Some m" "running mf p (io_sched m)" "malloc_ok malloc" "tm_reachable malloc (io_timers m)"
    and "runAfter malloc now (double_of_int (uint seconds)) [] (io_timers m) = Inr (i, tm)" "map_of (hk_timers w) i = None"
    and "addTime now (double_of_int (uint seconds)) = Inr e" "e \<le> later"
  shows "\<exists>w' m'. hook_sleep malloc now rest answers seconds w = Inr (Hk_held i w') \<and> hk_io w' = Some m' \<and> held p rest m'
    \<and> rsafe (\<lambda>w''. \<exists>m''. hk_io w'' = Some m'' \<and> p \<in> set (pendingFunctors (io_sched m''))) (timers_expire malloc later later' w')"
proof -
  let ?w = "w\<lparr>hk_timers := hk_timers w @ [(i, Cb_resume p)]\<rparr>" and ?m = "m\<lparr>io_timers := tm\<rparr>"
  have cur: "GetThreadCurrentFiber (io_sched m) = (p, io_sched m)" using assms(3) by (rule current_running)
  have "running mf p (io_sched ?m)" using assms(3) by simp
  from hold_running [OF this, of rest i ?w] obtain m' where m': "hold rest i ?m ?w = Inr (Hk_held i (?w\<lparr>hk_io := Some m'\<rparr>))" "held p rest m'"
      "io_timers m' = tm" by auto
  have s: "hook_sleep malloc now rest answers seconds w = Inr (Hk_held i (?w\<lparr>hk_io := Some m'\<rparr>))"
    using assms(1,2,6) cur m'(1) by (simp add: hook_sleep_def sleep_for_def get_io_def start_timer_def)
  let ?w' = "?w\<lparr>hk_io := Some m'\<rparr>"
  have cb: "map_of (hk_timers ?w') \<lparr>id_timer = id_timer i, id_sequence = id_sequence i\<rparr> = Some (Cb_resume p)"
    using assms(7) by (cases i) (simp add: map_add_def)
  have "rsafe (\<lambda>tm'. p \<in> set (pendingFunctors (io_sched (fold run_hook_cb (hook_cbs (drop (length (ran tm)) (ran tm')) ?w') (m'\<lparr>io_timers := tm'\<rparr>)))))
      (handleRead malloc 8 later later' tm)"
    using started_timer_fires [OF assms(4-6,8,9), of later']
    by (rule rsafe_mono) (use hook_cbs_member [OF _ cb] run_hook_cbs_resume in fastforce)
  then have "rsafe (\<lambda>w''. \<exists>m''. hk_io w'' = Some m'' \<and> p \<in> set (pendingFunctors (io_sched m''))) (timers_expire malloc later later' ?w')"
    using m'(3) by (auto simp: timers_expire_def get_io_def rsafe_def rbind_def Let_def split: sum.splits)
  then show ?thesis using s m'(2) by (intro exI [of _ ?w'] exI [of _ m']) simp
qed

theorem sleeping_fiber_resumed_witness:
  "\<exists>w'. hook_sleep malloc_next (Timestamp 1000) [Work 1] [] 2 demo_hooks = Inr (Hk_held \<lparr>id_timer = 1, id_sequence = 1\<rparr> w')"
proof -
  obtain tm where tm: "runAfter malloc_next (Timestamp 1000) (double_of_int 2) [] TimerManger_ctor = Inr (\<lparr>id_timer = 1, id_sequence = 1\<rparr>, tm)"
    using demo_runAfter by blast
  show ?thesis
    using sleeping_fiber_resumed [OF demo_hooks_facts(1,4,5) malloc_next_ok, where now = "Timestamp 1000" and seconds = 2 and tm = tm
        and i = "\<lparr>id_timer = 1, id_sequence = 1\<rparr>" and e = "Timestamp 2001000" and later = "Timestamp 2001000" and rest = "[Work 1]" and answers = "[]"]
      tm demo_addTime demo_hooks_facts(8) by (auto simp: tm_reachable.init demo_hooks_def)
qed

text \<open>
  A connection that is still being made is reported as made.  When the system's \<^verbatim>\<open>connect\<close> is
  in progress, the hooked one does not wait for it: the result of \<^verbatim>\<open>AddWriteEvent\<close>, which is
  always true, is taken for an error number; it returns at once what \<^verbatim>\<open>SO_ERROR\<close> says, 0 as
  long as nothing has failed yet, and the timer it started stays in the queue.
\<close>

theorem connect_reports_early:
  assumes "thread_hook_enable w" "table_ok (hk_fds w)" "0 \<le> fd" "fd < 2 ^ 31" "slot (hk_fds w) (nat fd) = Some c"
    and "isSocket c" "\<not> isClosed c" "\<not> userNonblock c" "hk_io w = Some m"
    and "runAfter malloc now (double_div (uint timeout) 1000) [] (io_timers m) = Inr (i, tm)"
  shows "\<exists>w' m'. connect_with_timeout malloc now rest (- 1, EINPROGRESS) (Some 0) timeout fd w = Inr (Hk_returns 0 w')
    \<and> hk_io w' = Some m' \<and> io_sched m' = io_sched m \<and> io_timers m' = tm \<and> (i, Cb_cancel_all fd) \<in> set (hk_timers w')"
proof -
  obtain m1 where m1: "AddWriteEvent fd None (m\<lparr>io_timers := tm\<rparr>) = Inr (True, m1)" "io_sched m1 = io_sched m" "io_timers m1 = tm"
    using AddWriteEvent_spec [of fd None "m\<lparr>io_timers := tm\<rparr>"] by (auto simp: UpdateEpoll_def epoll_ctl_def Let_def)
  then show ?thesis
    using assms lookup_ctx_slot [OF assms(2-4)]
    by (simp add: connect_with_timeout_def get_io_def start_timer_def connect_result_def Let_def)
qed

lemma bit_count_values [simp]: "bit_count 0 = 0" "bit_count (Suc 0) = 1" "bit_count (numeral k) = Suc (bit_count (numeral k div 2))"
  by (subst bit_count.simps; simp add: bit_count.simps)+

lemma huge_delay: "double_trunc (double_mult_int (double_of_int 18446744073709551615) kMicroSecondsPerSecond) = 18446744073709551616000000"
  by (simp add: double_of_int_def double_mult_int_def round53_def double_trunc_def kMicroSecondsPerSecond_def Let_def)

text \<open>
  Blocking without a timeout is not provided for.  A descriptor whose timeout was never set has
  the timeout -1; a hooked read on it that would block asks for a timer of that many seconds, as
  an unsigned number, which no 64-bit count of microseconds can hold.
\<close>

theorem default_timeout_overflows:
  assumes "thread_hook_enable w" "table_ok (hk_fds w)" "0 \<le> fd" "fd < 2 ^ 31" "slot (hk_fds w) (nat fd) = Some c"
    and "isSocket c" "\<not> isClosed c" "\<not> userNonblock c" "recvTimeout c = - 1" "hk_io w = Some m"
  shows "hook_read malloc now rest [(- 1, EAGAIN)] fd w = Inl Signed_overflow"
proof -
  have "addTime now (double_of_int 18446744073709551615) = Inl Signed_overflow"
    unfolding addTime_def huge_delay by (simp add: in_int64_def)
  moreover have "uint (- 1 :: u64) = 18446744073709551615" by (simp add: unsigned_minus_1_eq_mask mask_eq_exp_minus_1)
  ultimately show ?thesis using assms
    by (simp add: hook_read_def do_io_def lookup_ctx_slot get_io_def start_timer_def runAfter_def getTimeout_def EINTR_def EAGAIN_def)
qed

theorem default_timeout_overflows_witness:
  "hook_read malloc_next (Timestamp 1000) [] [(- 1, EAGAIN)] 3 (set_ctx 3 (demo_ctx\<lparr>recvTimeout := - 1\<rparr>) demo_hooks) = Inl Signed_overflow"
proof -
  let ?c = "demo_ctx\<lparr>recvTimeout := - 1\<rparr>"
  have s: "table_ok (hk_fds (set_ctx 3 ?c demo_hooks))" "slot (hk_fds (set_ctx 3 ?c demo_hooks)) 3 = Some ?c"
    using set_ctx_slot [of demo_hooks 3 demo_ctx ?c] demo_hooks_facts(2,3) by (simp_all add: demo_ctx_def)
  moreover have "thread_hook_enable (set_ctx 3 ?c demo_hooks)" "hk_io (set_ctx 3 ?c demo_hooks) = Some demo_hook_io"
    using demo_hooks_facts(1,4) by (simp_all add: set_ctx_def)
  ultimately show ?thesis using default_timeout_overflows [of "set_ctx 3 ?c demo_hooks" 3 ?c demo_hook_io] by (simp add: demo_ctx_def)
qed

lemma two_seconds: "double_div 2000 1000 = Dbl 4503599627370496 (- 51)"
  by (simp add: double_div_def round53_def Let_def)

theorem connect_reports_early_witness:
  "\<exists>w'. connect_with_timeout malloc_next (Timestamp 1000) [] (- 1, EINPROGRESS) (Some 0) 2000 3 demo_hooks = Inr (Hk_returns 0 w')"
proof -
  have "addTime (Timestamp 1000) (double_div 2000 1000) = Inr (Timestamp 2001000)"
    unfolding two_seconds by (simp add: addTime_def double_mult_int_def round53_def double_trunc_def trunc_div_def kMicroSecondsPerSecond_def ts_checked_def in_int64_def Let_def)
  then have "\<exists>i tm. runAfter malloc_next (Timestamp 1000) (double_div 2000 1000) [] TimerManger_ctor = Inr (i, tm)"
    unfolding runAfter_def by (simp add: timer_eval trunc_div_def trunc_mod_def)
  then obtain i tm where "runAfter malloc_next (Timestamp 1000) (double_div 2000 1000) [] TimerManger_ctor = Inr (i, tm)" by blast
  then show ?thesis
    using connect_reports_early [of demo_hooks 3 demo_ctx demo_hook_io malloc_next "Timestamp 1000" 2000 i tm "[]"] demo_hooks_facts
    by (auto simp: demo_ctx_def)
qed

end
