(* ===== verification/ByteArray.thy ===== *)
theory ByteArray
  imports Endian
begin

unbundle bit_operations_syntax

text \<open>
  The byte buffer (\<^verbatim>\<open>qslary/net/ByteArray.h\<close>, \<^verbatim>\<open>ByteArray.cc\<close>): one contiguous
  vector with a read index and a write index, compaction to a 16-byte prefix and
  growth by \<^verbatim>\<open>resize\<close>, plus the zigzag codecs of the same file.

  The vector is a list of bytes, the indices are naturals with \<^verbatim>\<open>size_t\<close>
  wrap-around in every difference the code computes.  The constructor does not
  initialise the indices, so \<^verbatim>\<open>ByteArray_ctor\<close> takes the indeterminate values
  it leaves behind as arguments.  An access outside the vector is the error
  \<^const>\<open>Undefined_behaviour\<close>, growth past \<^verbatim>\<open>vector::max_size\<close> is
  \<^const>\<open>Length_error\<close>.  \<^verbatim>\<open>std::copy\<close> on \<^verbatim>\<open>char\<close> pointers moves the block
  as \<^verbatim>\<open>memmove\<close> does.

  The lemmas show that from a well-formed buffer every operation succeeds, keeps
  the buffer well formed and acts on the readable bytes as a FIFO queue.
\<close>

section \<open>Definitions\<close>

(* net/ByteArray.h 17: kPreHeadSize *)
definition kPreHeadSize :: nat where
  "kPreHeadSize = 16"

definition vector_max_size :: nat where
  "vector_max_size = 9223372036854775807"

(* net/ByteArray.h 18-75: ByteArray *)
record byte_array =
  mBuffer :: "byte list"
  mReadIndex :: nat
  mWriteIndex :: nat

record iovec =
  iov_base :: nat
  iov_len :: nat

(* net/ByteArray.h 66: ByteArray::ReadableSize *)
definition ReadableSize :: "byte_array \<Rightarrow> nat" where
  "ReadableSize b = size_sub (mWriteIndex b) (mReadIndex b)"

(* net/ByteArray.h 67: ByteArray::WriteableSize *)
definition WriteableSize :: "byte_array \<Rightarrow> nat" where
  "WriteableSize b = size_sub (length (mBuffer b)) (mWriteIndex b)"

(* net/ByteArray.h 68: ByteArray::PrependableSize *)
definition PrependableSize :: "byte_array \<Rightarrow> nat" where
  "PrependableSize b = mReadIndex b"

(* net/ByteArray.cc 17: ByteArray::ByteArray *)
definition ByteArray_ctor :: "nat \<Rightarrow> nat \<Rightarrow> nat \<Rightarrow> byte_array" where
  "ByteArray_ctor base_size r w =
     \<lparr>mBuffer = replicate base_size 0, mReadIndex = r, mWriteIndex = w\<rparr>"

(* net/ByteArray.cc 49: ByteArray::clear *)
definition clear :: "byte_array \<Rightarrow> byte_array" where
  "clear b = b\<lparr>mReadIndex := 0, mWriteIndex := 0, mBuffer := []\<rparr>"

definition vector_resize :: "nat \<Rightarrow> byte_array \<Rightarrow> byte_array result" where
  "vector_resize n b =
     (if n > vector_max_size then Inl Length_error
      else Inr (b\<lparr>mBuffer := resize 0 n (mBuffer b)\<rparr>))"

(* net/ByteArray.cc 98: ByteArray::MakeSpace *)
definition MakeSpace :: "nat \<Rightarrow> byte_array \<Rightarrow> byte_array result" where
  "MakeSpace sz b =
     (if size_add (PrependableSize b) (WriteableSize b) < size_add sz kPreHeadSize
      then vector_resize (size_add (mWriteIndex b) sz) b
      else if mWriteIndex b < mReadIndex b \<or> mWriteIndex b > length (mBuffer b)
            \<or> kPreHeadSize + (mWriteIndex b - mReadIndex b) > length (mBuffer b)
      then Inl Undefined_behaviour
      else let readable = ReadableSize b in
        Inr (b\<lparr>mBuffer := poke (mBuffer b) kPreHeadSize
                           (peek (mBuffer b) (mReadIndex b) (mWriteIndex b - mReadIndex b)),
               mReadIndex := kPreHeadSize,
               mWriteIndex := size_add kPreHeadSize readable\<rparr>))"

(* net/ByteArray.cc 56: ByteArray::GetReadBuffer *)
definition GetReadBuffer :: "nat \<Rightarrow> byte_array \<Rightarrow> iovec \<times> nat \<times> byte_array" where
  "GetReadBuffer len b =
     (let realSize = (if len > ReadableSize b then ReadableSize b else len) in
      (\<lparr>iov_base = mReadIndex b, iov_len = realSize\<rparr>, realSize,
       b\<lparr>mReadIndex := size_add (mReadIndex b) realSize\<rparr>))"

(* net/ByteArray.cc 66: ByteArray::GetWriteBuffer *)
definition GetWriteBuffer :: "nat \<Rightarrow> byte_array \<Rightarrow> (iovec \<times> nat \<times> byte_array) result" where
  "GetWriteBuffer len b =
     rbind (MakeSpace len b) (\<lambda>b'.
       Inr (\<lparr>iov_base = mWriteIndex b', iov_len = len\<rparr>, len, b'))"

(* net/ByteArray.cc 74: ByteArray::Read *)
definition Read :: "nat \<Rightarrow> byte_array \<Rightarrow> (byte list \<times> byte_array) result" where
  "Read sz b =
     (let realRead = (if sz > ReadableSize b then ReadableSize b else sz) in
      if realRead = 0 then Inr ([], b)
      else if mReadIndex b + realRead > length (mBuffer b) then Inl Undefined_behaviour
      else Inr (peek (mBuffer b) (mReadIndex b) realRead,
                b\<lparr>mReadIndex := size_add (mReadIndex b) realRead\<rparr>))"

(* net/ByteArray.cc 86: ByteArray::Write *)
definition Write :: "byte list \<Rightarrow> byte_array \<Rightarrow> (nat \<times> byte_array) result" where
  "Write buf b =
     (let sz = length buf in
      rbind (if WriteableSize b < sz then MakeSpace sz b else Inr b) (\<lambda>b'.
        if mWriteIndex b' + sz > length (mBuffer b') then Inl Undefined_behaviour
        else Inr (sz, b'\<lparr>mBuffer := poke (mBuffer b') (mWriteIndex b') buf,
                           mWriteIndex := size_add (mWriteIndex b') sz\<rparr>)))"

(* net/ByteArray.h 28: ByteArray::WriteInt *)
definition WriteInt :: "'a::len word \<Rightarrow> byte_array \<Rightarrow> byte_array result" where
  "WriteInt val b = rbind (Write (host_bytes False val) b) (\<lambda>(_, b'). Inr b')"

(* net/ByteArray.h 37: ByteArray::ReadInt *)
definition ReadInt :: "'a::len word \<Rightarrow> byte_array \<Rightarrow> ('a word \<times> byte_array) result" where
  "ReadInt tmp b =
     rbind (Read (num_bytes tmp) b) (\<lambda>(bs, b').
       Inr (word_of_nat (of_le (poke (host_bytes False tmp) 0 bs)), b'))"

(* net/ByteArray.cc 112: ByteArray::toString *)
definition toString :: "byte_array \<Rightarrow> (byte list \<times> byte_array) result" where
  "toString b =
     (let n = ReadableSize b in
      if n > vector_max_size then Inl Length_error
      else if n = 0 then Inr ([], b)
      else rbind (Read n b) (\<lambda>(bs, b'). Inr (poke (replicate n 0) 0 bs, b')))"

definition hex_cell :: "byte \<Rightarrow> string" where
  "hex_cell c = pad_left 2 (CHR ''0'') (show_base 16 (unat c)) @ '' ''"

fun hex_lines :: "nat \<Rightarrow> byte list \<Rightarrow> string" where
  "hex_lines i [] = []"
| "hex_lines i (c # cs) =
     (if i > 0 \<and> i mod 32 = 0 then [LF] else []) @ hex_cell c @ hex_lines (Suc i) cs"

(* net/ByteArray.cc 124: ByteArray::toHexString *)
definition toHexString :: "byte_array \<Rightarrow> (string \<times> byte_array) result" where
  "toHexString b = rbind (toString b) (\<lambda>(bs, b'). Inr (hex_lines 0 bs, b'))"

(* net/ByteArray.cc 21: EncodeZigzag32 *)
definition EncodeZigzag32 :: "u32 \<Rightarrow> u32 result" where
  "EncodeZigzag32 v =
     (if sint v < 0 then if sint v = - (2 ^ 31) then Inl Signed_overflow else Inr ((- v) * 2 - 1)
      else if sint v * 2 \<ge> 2 ^ 31 then Inl Signed_overflow else Inr (v * 2))"

(* net/ByteArray.cc 33: EncodeZigzag64 *)
definition EncodeZigzag64 :: "u64 \<Rightarrow> u64 result" where
  "EncodeZigzag64 v =
     (if sint v < 0 then if sint v = - (2 ^ 63) then Inl Signed_overflow else Inr ((- v) * 2 - 1)
      else if sint v * 2 \<ge> 2 ^ 63 then Inl Signed_overflow else Inr (v * 2))"

(* net/ByteArray.cc 45: DecodeZigzag32 *)
definition DecodeZigzag32 :: "u32 \<Rightarrow> u32" where
  "DecodeZigzag32 v = (drop_bit 1 v) XOR (- (v AND 1))"

(* net/ByteArray.cc 47: DecodeZigzag64 *)
definition DecodeZigzag64 :: "u64 \<Rightarrow> u64" where
  "DecodeZigzag64 v = (drop_bit 1 v) XOR (- (v AND 1))"

section \<open>Well-formed buffers and the queue they hold\<close>

definition ba_inv :: "byte_array \<Rightarrow> bool" where
  "ba_inv b \<longleftrightarrow> mReadIndex b \<le> mWriteIndex b \<and> mWriteIndex b \<le> length (mBuffer b)
     \<and> length (mBuffer b) \<le> vector_max_size"

definition readable :: "byte_array \<Rightarrow> byte list" where
  "readable b = peek (mBuffer b) (mReadIndex b) (mWriteIndex b - mReadIndex b)"

definition has_room :: "nat \<Rightarrow> byte_array \<Rightarrow> bool" where
  "has_room sz b \<longleftrightarrow> mWriteIndex b + sz \<le> vector_max_size"

lemma ba_inv_bounds:
  assumes "ba_inv b"
  shows "mReadIndex b \<le> mWriteIndex b" "mWriteIndex b \<le> length (mBuffer b)"
    "length (mBuffer b) < two64" "mWriteIndex b < two64"
  using assms by (simp_all add: ba_inv_def vector_max_size_def)

lemma ReadableSize_inv: "ba_inv b \<Longrightarrow> ReadableSize b = mWriteIndex b - mReadIndex b"
  by (simp add: ReadableSize_def ba_inv_bounds)

lemma WriteableSize_inv: "ba_inv b \<Longrightarrow> WriteableSize b = length (mBuffer b) - mWriteIndex b"
  by (simp add: WriteableSize_def ba_inv_bounds)

lemma length_readable: "ba_inv b \<Longrightarrow> length (readable b) = mWriteIndex b - mReadIndex b"
  by (simp add: readable_def ba_inv_bounds)

lemma readable_drop:
  assumes "ba_inv b" "n \<le> mWriteIndex b - mReadIndex b"
  shows "readable (b\<lparr>mReadIndex := mReadIndex b + n\<rparr>) = drop n (readable b)"
  using assms peek_advance [OF assms(2), of "mBuffer b" "mReadIndex b"]
  by (simp add: readable_def)

section \<open>Functional behaviour\<close>

lemma MakeSpace_ok:
  assumes inv: "ba_inv b" and room: "has_room sz b"
  obtains b' where "MakeSpace sz b = Inr b'" "ba_inv b'" "readable b' = readable b"
    "mWriteIndex b' + sz \<le> length (mBuffer b')" "mWriteIndex b' \<le> mWriteIndex b + 16"
proof -
  let ?r = "mReadIndex b" and ?w = "mWriteIndex b" and ?n = "length (mBuffer b)"
  note bounds = ba_inv_bounds [OF inv]
  have w: "WriteableSize b = ?n - ?w" by (rule WriteableSize_inv [OF inv])
  have lim: "?w + sz \<le> 9223372036854775807" "?n \<le> 9223372036854775807"
    using room inv by (simp_all add: has_room_def ba_inv_def vector_max_size_def)
  have add1: "size_add (PrependableSize b) (WriteableSize b) = ?r + (?n - ?w)"
    using bounds lim w by (simp add: PrependableSize_def)
  have add2: "size_add sz kPreHeadSize = sz + 16"
    using lim by (simp add: kPreHeadSize_def)
  show thesis
  proof (cases "?r + (?n - ?w) < sz + 16")
    case True
    let ?b = "b\<lparr>mBuffer := resize 0 (?w + sz) (mBuffer b)\<rparr>"
    have "MakeSpace sz b = Inr ?b"
      using True lim by (simp add: MakeSpace_def add1 add2 vector_resize_def vector_max_size_def)
    moreover have "ba_inv ?b"
      using bounds lim by (simp add: ba_inv_def vector_max_size_def)
    moreover have "readable ?b = readable b"
      using bounds by (simp add: readable_def mem_simps)
    ultimately show thesis using that by simp
  next
    case False
    let ?d = "peek (mBuffer b) ?r (?w - ?r)"
    let ?b = "b\<lparr>mBuffer := poke (mBuffer b) 16 ?d, mReadIndex := 16, mWriteIndex := 16 + (?w - ?r)\<rparr>"
    have fits: "16 + (?w - ?r) + sz \<le> ?n" using False bounds by simp
    have len: "length ?d = ?w - ?r" using bounds by simp
    have add3: "size_add 16 (?w - ?r) = 16 + (?w - ?r)"
      by (rule size_add_small) (use fits bounds in linarith)
    have "MakeSpace sz b = Inr ?b"
      using False fits bounds add3
      by (simp add: MakeSpace_def add1 add2 ReadableSize_inv [OF inv] Let_def kPreHeadSize_def)
    moreover have "ba_inv ?b"
      using fits lim len by (simp add: ba_inv_def vector_max_size_def)
    moreover have "readable ?b = readable b"
      using fits len peek_poke_same [of 16 ?d "mBuffer b"] by (simp add: readable_def)
    moreover have "mWriteIndex ?b + sz \<le> length (mBuffer ?b)" using fits len by simp
    moreover have "mWriteIndex ?b \<le> ?w + 16" by simp
    ultimately show thesis using that by blast
  qed
qed

lemma Write_ok:
  assumes inv: "ba_inv b" and room: "has_room (length buf) b"
  obtains b' where "Write buf b = Inr (length buf, b')" "ba_inv b'"
    "readable b' = readable b @ buf" "mWriteIndex b' \<le> mWriteIndex b + 16 + length buf"
proof -
  obtain c where c: "(if WriteableSize b < length buf then MakeSpace (length buf) b else Inr b) = Inr c"
    "ba_inv c" "readable c = readable b" "mWriteIndex c + length buf \<le> length (mBuffer c)"
    "mWriteIndex c \<le> mWriteIndex b + 16"
  proof (cases "WriteableSize b < length buf")
    case True
    with MakeSpace_ok [OF inv room] that show thesis by auto
  next
    case False
    with inv that show thesis using ba_inv_bounds [OF inv] by (simp add: WriteableSize_inv)
  qed
  let ?b = "c\<lparr>mBuffer := poke (mBuffer c) (mWriteIndex c) buf, mWriteIndex := mWriteIndex c + length buf\<rparr>"
  note bounds = ba_inv_bounds [OF c(2)]
  have small: "size_add (mWriteIndex c) (length buf) = mWriteIndex c + length buf"
    by (rule size_add_small) (use c(4) bounds in linarith)
  have "Write buf b = Inr (length buf, ?b)"
    using c(1,4) small by (simp add: Write_def Let_def)
  moreover have "ba_inv ?b"
    using c(2,4) by (simp add: ba_inv_def)
  moreover have "readable ?b = readable b @ buf"
    using peek_poke_extend [OF bounds(1) c(4)] c(3) by (simp add: readable_def)
  moreover have "mWriteIndex ?b \<le> mWriteIndex b + 16 + length buf" using c(5) by simp
  ultimately show thesis using that by blast
qed

lemma Read_ok:
  assumes inv: "ba_inv b"
  obtains b' where "Read sz b = Inr (take sz (readable b), b')" "ba_inv b'"
    "readable b' = drop sz (readable b)" "mWriteIndex b' = mWriteIndex b"
proof -
  note bounds = ba_inv_bounds [OF inv]
  let ?k = "min sz (mWriteIndex b - mReadIndex b)"
  let ?b = "b\<lparr>mReadIndex := mReadIndex b + ?k\<rparr>"
  have k: "(if sz > ReadableSize b then ReadableSize b else sz) = ?k"
    using inv by (simp add: ReadableSize_inv min_def)
  have tk: "take sz (readable b) = take ?k (readable b)"
    using length_readable [OF inv] by (simp add: min_def)
  have dr: "drop sz (readable b) = drop ?k (readable b)"
    using length_readable [OF inv] by (simp add: min_def)
  have small: "size_add (mReadIndex b) ?k = mReadIndex b + ?k"
    by (rule size_add_small) (use bounds in linarith)
  have "Read sz b = Inr (take sz (readable b), ?b)"
  proof (cases "?k = 0")
    case True
    with k tk show ?thesis by (simp add: Read_def)
  next
    case False
    have "take ?k (readable b) = peek (mBuffer b) (mReadIndex b) ?k"
      unfolding readable_def by (rule take_peek) simp
    moreover have "mReadIndex b + ?k \<le> length (mBuffer b)" using bounds by linarith
    ultimately show ?thesis using False k tk small by (simp add: Read_def Let_def)
  qed
  moreover have "ba_inv ?b"
    using inv by (auto simp: ba_inv_def)
  moreover have "readable ?b = drop sz (readable b)"
    using readable_drop [OF inv, of ?k] dr by simp
  moreover have "mWriteIndex ?b = mWriteIndex b" by simp
  ultimately show thesis using that by blast
qed


section \<open>The queue interface\<close>

text \<open>
  What a client may rely on: \<open>content\<close> is the queue a state holds, \<open>inv m s\<close> says
  that \<open>s\<close> is usable and can still take writes of total cost \<open>m\<close>.  A run of
  such operations then produces exactly the outputs of a list queue.
\<close>

datatype 'x buf_op = Put "'x list" | Get nat

fun spec_run :: "'x buf_op list \<Rightarrow> 'x list \<Rightarrow> 'x list list \<times> 'x list" where
  "spec_run [] q = ([], q)"
| "spec_run (Put xs # ops) q = spec_run ops (q @ xs)"
| "spec_run (Get n # ops) q = (case spec_run ops (drop n q) of (outs, q') \<Rightarrow> (take n q # outs, q'))"

fun impl_run :: "('x list \<Rightarrow> 's \<Rightarrow> (nat \<times> 's) result) \<Rightarrow> (nat \<Rightarrow> 's \<Rightarrow> ('x list \<times> 's) result)
    \<Rightarrow> 'x buf_op list \<Rightarrow> 's \<Rightarrow> ('x list list \<times> 's) result" where
  "impl_run put get [] s = Inr ([], s)"
| "impl_run put get (Put xs # ops) s = rbind (put xs s) (\<lambda>(_, s'). impl_run put get ops s')"
| "impl_run put get (Get n # ops) s =
     rbind (get n s) (\<lambda>(xs, s'). rbind (impl_run put get ops s') (\<lambda>(outs, t). Inr (xs # outs, t)))"

fun ops_cost :: "nat \<Rightarrow> 'x buf_op list \<Rightarrow> nat" where
  "ops_cost k [] = 0"
| "ops_cost k (Put xs # ops) = k + length xs + ops_cost k ops"
| "ops_cost k (Get n # ops) = ops_cost k ops"

locale fifo_buffer =
  fixes put :: "'x list \<Rightarrow> 's \<Rightarrow> (nat \<times> 's) result"
    and get :: "nat \<Rightarrow> 's \<Rightarrow> ('x list \<times> 's) result"
    and content :: "'s \<Rightarrow> 'x list"
    and inv :: "nat \<Rightarrow> 's \<Rightarrow> bool"
    and overhead :: nat
  assumes put_ok: "inv (overhead + length xs + m) s \<Longrightarrow>
      \<exists>s'. put xs s = Inr (length xs, s') \<and> inv m s' \<and> content s' = content s @ xs"
    and get_ok: "inv m s \<Longrightarrow>
      \<exists>s'. get n s = Inr (take n (content s), s') \<and> inv m s' \<and> content s' = drop n (content s)"
begin

lemma run_refines:
  "inv (ops_cost overhead ops + m) s \<Longrightarrow>
     \<exists>s'. impl_run put get ops s = Inr (fst (spec_run ops (content s)), s')
        \<and> inv m s' \<and> content s' = snd (spec_run ops (content s))"
proof (induction ops arbitrary: s)
  case Nil
  then show ?case by simp
next
  case (Cons x ops)
  show ?case
  proof (cases x)
    case (Put xs)
    with Cons.prems obtain s' where s': "put xs s = Inr (length xs, s')"
      "inv (ops_cost overhead ops + m) s'" "content s' = content s @ xs"
      using put_ok [of xs "ops_cost overhead ops + m" s] by (auto simp: add.assoc)
    from Cons.IH [OF s'(2)] s'(1,3) Put show ?thesis by simp
  next
    case (Get n)
    with Cons.prems obtain s' where s': "get n s = Inr (take n (content s), s')"
      "inv (ops_cost overhead ops + m) s'" "content s' = drop n (content s)"
      using get_ok [of "ops_cost overhead ops + m" s n] by auto
    from Cons.IH [OF s'(2)] s'(1,3) Get show ?thesis by (auto split: prod.splits)
  qed
qed

end

definition ba_budget :: "nat \<Rightarrow> byte_array \<Rightarrow> bool" where
  "ba_budget m b \<longleftrightarrow> ba_inv b \<and> mWriteIndex b + m \<le> vector_max_size"

interpretation ba: fifo_buffer Write Read readable ba_budget 16
proof
  fix xs :: "byte list" and m and b :: byte_array
  assume a: "ba_budget (16 + length xs + m) b"
  then have "ba_inv b" "has_room (length xs) b"
    by (simp_all add: ba_budget_def has_room_def)
  from Write_ok [OF this] obtain b' where "Write xs b = Inr (length xs, b')" "ba_inv b'"
    "readable b' = readable b @ xs" "mWriteIndex b' \<le> mWriteIndex b + 16 + length xs" .
  moreover from this a have "ba_budget m b'" by (simp add: ba_budget_def)
  ultimately show "\<exists>s'. Write xs b = Inr (length xs, s') \<and> ba_budget m s'
      \<and> readable s' = readable b @ xs"
    by blast
next
  fix m and b :: byte_array and n
  assume a: "ba_budget m b"
  then have "ba_inv b" by (simp add: ba_budget_def)
  from Read_ok [OF this, of n] obtain b' where b': "Read n b = Inr (take n (readable b), b')"
    "ba_inv b'" "readable b' = drop n (readable b)" "mWriteIndex b' = mWriteIndex b" .
  then have "ba_budget m b'" using a by (simp add: ba_budget_def)
  with b' show "\<exists>s'. Read n b = Inr (take n (readable b), s') \<and> ba_budget m s'
      \<and> readable s' = drop n (readable b)"
    by blast
qed

section \<open>Zigzag codecs\<close>

lemma zigzag_top: "n < LENGTH('a::len) \<Longrightarrow> \<not> Suc n < LENGTH('a) \<Longrightarrow> n = LENGTH('a) - Suc 0"
  by simp

lemma zigzag_roundtrip:
  fixes v :: "'a::len word"
  assumes "1 < LENGTH('a)"
  shows "(let x = (if sint v < 0 then (- v) * 2 - 1 else v * 2)
          in (drop_bit 1 x) XOR (- (x AND 1))) = v"
proof (cases "sint v < 0")
  case True
  then have sign: "bit v (LENGTH('a) - 1)" by (simp add: bit_last_iff)
  have x: "(- v) * 2 - 1 = NOT (2 * v)"
    by (simp add: not_eq_complement)
  have "NOT (2 * v) AND 1 = 1"
    by (rule bit_word_eqI) (auto simp: bit_and_iff bit_not_iff bit_double_iff bit_1_iff)
  moreover have "drop_bit 1 (NOT (2 * v)) XOR (- 1) = v"
    by (rule bit_word_eqI) (use sign in \<open>auto simp: bit_xor_iff bit_drop_bit_eq bit_not_iff
          bit_double_iff bit_minus_1_iff dest: zigzag_top\<close>)
  ultimately show ?thesis using True x by (simp add: Let_def)
next
  case False
  then have sign: "\<not> bit v (LENGTH('a) - 1)" by (simp add: bit_last_iff)
  have "2 * v AND 1 = 0"
    by (rule bit_word_eqI) (auto simp: bit_and_iff bit_double_iff bit_1_iff)
  moreover have "drop_bit 1 (2 * v) = v"
    by (rule bit_word_eqI) (use sign in \<open>auto simp: bit_drop_bit_eq bit_double_iff dest: zigzag_top\<close>)
  ultimately show ?thesis using False by (simp add: Let_def mult.commute)
qed


text \<open>Integers of any type of whole bytes, written and read as their memory images.\<close>

lemma WriteInt_ok:
  assumes "ba_inv b" "has_room (num_bytes val) b"
  shows "\<exists>c. WriteInt val b = Inr c \<and> ba_inv c \<and> readable c = readable b @ host_bytes False val"
proof -
  let ?bs = "host_bytes False val"
  have "has_room (length ?bs) b" using assms(2) by (simp add: host_bytes_def)
  then obtain c where "Write ?bs b = Inr (length ?bs, c)" "ba_inv c" "readable c = readable b @ ?bs"
    using Write_ok [OF assms(1)] by blast
  then show ?thesis by (simp add: WriteInt_def)
qed

lemma ReadInt_ok:
  fixes val tmp :: "'a::len word"
  assumes "8 dvd LENGTH('a)" "ba_inv d" "readable d = host_bytes False val @ rest"
  shows "\<exists>d'. ReadInt tmp d = Inr (val, d') \<and> ba_inv d' \<and> readable d' = rest"
proof -
  let ?bs = "host_bytes False val"
  have n: "num_bytes tmp = length ?bs" by (simp add: num_bytes_def host_bytes_def)
  obtain d' where d': "Read (num_bytes tmp) d = Inr (?bs, d')" "ba_inv d'" "readable d' = rest"
    using Read_ok [OF assms(2), of "num_bytes tmp"] assms(3) n by auto
  have "poke (host_bytes False tmp) 0 ?bs = ?bs" using n by (simp add: poke_def host_bytes_def)
  moreover have "word_of_nat (of_le ?bs) = val"
    using unat_bytes_bound [OF assms(1), of val] by (simp add: host_bytes_def of_le_le_bytes)
  ultimately show ?thesis using d' by (simp add: ReadInt_def)
qed

section \<open>Properties\<close>

text \<open>
  C1: The byte buffer refines a FIFO queue.  From a well-formed buffer with room
  for the bytes to come (each write may cost 16 bytes of prefix besides its
  payload), every sequence of \<^verbatim>\<open>Write\<close> and \<^verbatim>\<open>Read\<close> calls succeeds: no access
  leaves the vector, whatever compactions and reallocations happen on the way,
  each \<^verbatim>\<open>Read\<close> delivers what the list queue delivers, and the bytes left readable
  are the queue's rest.
\<close>

theorem bytearray_refines_queue:
  assumes "ba_inv b"
    and "mWriteIndex b + ops_cost 16 ops \<le> vector_max_size"
  shows "\<exists>b'. impl_run Write Read ops b = Inr (fst (spec_run ops (readable b)), b')
            \<and> ba_inv b' \<and> readable b' = snd (spec_run ops (readable b))"
  using ba.run_refines [of ops 0 b] assms by (auto simp: ba_budget_def)

theorem bytearray_refines_queue_witness:
  "\<exists>b'. impl_run Write Read [Put [1, 2, 3], Get 2, Put [4], Get 5] (clear (ByteArray_ctor 32 7 3))
        = Inr ([[1, 2], [3, 4]], b') \<and> ba_inv b' \<and> readable b' = []"
proof -
  let ?b = "clear (ByteArray_ctor 32 7 3)"
  let ?ops = "[Put [1, 2, 3], Get 2, Put [4], Get 5] :: byte buf_op list"
  have i: "ba_inv ?b" by (simp add: ba_inv_def clear_def ByteArray_ctor_def)
  have c: "mWriteIndex ?b + ops_cost 16 ?ops \<le> vector_max_size"
    by (simp add: clear_def ByteArray_ctor_def vector_max_size_def)
  have r: "readable ?b = []" by (simp add: readable_def clear_def)
  show ?thesis using bytearray_refines_queue [OF i c] by (simp add: r)
qed

text \<open>
  C26: Integer round trip.  For every integer type of a whole number of bytes: on a well-formed
  buffer that the vector's maximum size leaves room for the bytes of the value, \<^verbatim>\<open>WriteInt\<close>
  puts the value's memory image behind the unread bytes, and whenever that image is at the
  front of a well-formed buffer, \<^verbatim>\<open>ReadInt\<close> of that type returns the value and leaves exactly
  what followed it, whatever its uninitialised local held.  On a buffer with no unread bytes
  the value is read back at once and nothing is left.
\<close>

theorem bytearray_int_roundtrip:
  fixes val tmp :: "'a::len word"
  assumes "8 dvd LENGTH('a)" "ba_inv b" "has_room (num_bytes val) b"
  shows "\<exists>c. WriteInt val b = Inr c \<and> ba_inv c \<and> readable c = readable b @ host_bytes False val
    \<and> (\<forall>d rest. ba_inv d \<and> readable d = host_bytes False val @ rest \<longrightarrow>
         (\<exists>d'. ReadInt tmp d = Inr (val, d') \<and> ba_inv d' \<and> readable d' = rest))
    \<and> (readable b = [] \<longrightarrow> (\<exists>d. ReadInt tmp c = Inr (val, d) \<and> ba_inv d \<and> readable d = []))"
proof -
  obtain c where "WriteInt val b = Inr c" "ba_inv c" "readable c = readable b @ host_bytes False val"
    using WriteInt_ok [OF assms(2,3)] by blast
  then show ?thesis using ReadInt_ok [OF assms(1), where val = val and tmp = tmp] by (metis append_Nil append_Nil2)
qed

theorem bytearray_int_roundtrip_witness:
  "\<exists>c d. WriteInt (305419896 :: u32) (clear (ByteArray_ctor 64 9 4)) = Inr c
      \<and> ReadInt (0 :: u32) c = Inr (305419896, d) \<and> ba_inv d \<and> readable d = []"
  using bytearray_int_roundtrip [of "clear (ByteArray_ctor 64 9 4)" "305419896 :: u32" 0]
  by (auto simp: ba_inv_def clear_def ByteArray_ctor_def readable_def has_room_def vector_max_size_def num_bytes_def)

text \<open>
  The zigzag codecs are inverse where the encoder's signed arithmetic does not overflow;
  it does for the most negative value and for those of at least a quarter of the range.
\<close>

theorem zigzag_decode_encode:
  "(if - (2 ^ 31) < sint v \<and> sint v < 2 ^ 30 then \<exists>y. EncodeZigzag32 v = Inr y \<and> DecodeZigzag32 y = v
    else EncodeZigzag32 v = Inl Signed_overflow)
   \<and> (if - (2 ^ 63) < sint x \<and> sint x < 2 ^ 62 then \<exists>y. EncodeZigzag64 x = Inr y \<and> DecodeZigzag64 y = x
    else EncodeZigzag64 x = Inl Signed_overflow)"
proof
  have b: "- (2 ^ 31) \<le> sint v" using sint_greater_eq [of v] by simp
  show "if - (2 ^ 31) < sint v \<and> sint v < 2 ^ 30 then \<exists>y. EncodeZigzag32 v = Inr y \<and> DecodeZigzag32 y = v
    else EncodeZigzag32 v = Inl Signed_overflow"
    using zigzag_roundtrip [of v] b by (auto simp: DecodeZigzag32_def EncodeZigzag32_def Let_def split: if_splits)
next
  have b: "- (2 ^ 63) \<le> sint x" using sint_greater_eq [of x] by simp
  show "if - (2 ^ 63) < sint x \<and> sint x < 2 ^ 62 then \<exists>y. EncodeZigzag64 x = Inr y \<and> DecodeZigzag64 y = x
    else EncodeZigzag64 x = Inl Signed_overflow"
    using zigzag_roundtrip [of x] b by (auto simp: DecodeZigzag64_def EncodeZigzag64_def Let_def split: if_splits)
qed

text \<open>
  A write buffer is never committed.  On a well-formed buffer with room,
  \<^verbatim>\<open>GetWriteBuffer\<close> hands out \<open>len\<close> writable bytes inside the vector just behind
  the unread bytes, but leaves the unread bytes unchanged whatever the caller then
  stores there: bytes received into the buffer that way are never readable.
\<close>

theorem write_buffer_not_committed:
  assumes "ba_inv b" "has_room len b" "length bs = len"
  shows "\<exists>iov b'. GetWriteBuffer len b = Inr (iov, len, b') \<and> ba_inv b'
      \<and> iov_base iov = mWriteIndex b' \<and> iov_base iov + len \<le> length (mBuffer b')
      \<and> readable (b'\<lparr>mBuffer := poke (mBuffer b') (iov_base iov) bs\<rparr>) = readable b"
proof -
  from MakeSpace_ok [OF assms(1,2)] obtain b' where b': "MakeSpace len b = Inr b'" "ba_inv b'"
    "readable b' = readable b" "mWriteIndex b' + len \<le> length (mBuffer b')" .
  have "readable (b'\<lparr>mBuffer := poke (mBuffer b') (mWriteIndex b') bs\<rparr>) = readable b'"
    using b'(2,4) assms(3) by (simp add: readable_def poke_def peek_def ba_inv_def drop_take)
  with b' show ?thesis by (simp add: GetWriteBuffer_def)
qed

theorem write_buffer_not_committed_witness:
  "\<exists>iov b'. GetWriteBuffer 3 (clear (ByteArray_ctor 8 0 0)) = Inr (iov, 3, b') \<and> ba_inv b'
      \<and> iov_base iov = mWriteIndex b' \<and> iov_base iov + 3 \<le> length (mBuffer b')
      \<and> readable (b'\<lparr>mBuffer := poke (mBuffer b') (iov_base iov) [7, 8, 9]\<rparr>)
        = readable (clear (ByteArray_ctor 8 0 0))"
  by (rule write_buffer_not_committed)
    (simp_all add: ba_inv_def clear_def ByteArray_ctor_def has_room_def vector_max_size_def)

end
