(* ===== verification/Http.thy ===== *)
theory Http
  imports Containers
begin

text \<open>
  HTTP messages (\<^verbatim>\<open>qslary/http/Http.h\<close>, \<^verbatim>\<open>Http.cc\<close>).  The two enumerations are
  their integer values with the tables the macros \<^verbatim>\<open>HTTP_STATUS_MAP\<close> and
  \<^verbatim>\<open>HTTP_METHOD_MAP\<close> spell out (\<^verbatim>\<open>UNKNOW\<close> is one more than the last).  Headers,
  parameters and cookies are maps ordered by \<^verbatim>\<open>CaseInsensitiveLess\<close>, for which the
  comparator contract is discharged, so the container laws hold for them.
  \<^verbatim>\<open>boost::lexical_cast\<close> is an argument.

  The lemmas show the laws of the header maps, that printed method and status names
  are read back, and what a printed message looks like.
\<close>

unbundle bit_operations_syntax

section \<open>Methods and status codes\<close>

type_synonym http_status = nat
type_synonym http_method = nat

(* http/Http.h 23-90: HTTP_STATUS_MAP *)
definition HTTP_STATUS_MAP :: "(nat \<times> string) list" where
  "HTTP_STATUS_MAP =
     [(100, ''CONTINUE''), (101, ''SWITCHING_PROTOCOLS''), (102, ''PROCESSING''), (200, ''OK''),
      (201, ''CREATED''), (202, ''ACCEPTED''), (203, ''NON_AUTHORITATIVE_INFORMATION''),
      (204, ''NO_CONTENT''), (205, ''RESET_CONTENT''), (206, ''PARTIAL_CONTENT''),
      (207, ''MULTI_STATUS''), (208, ''ALREADY_REPORTED''), (226, ''IM_USED''),
      (300, ''MULTIPLE_CHOICES''), (301, ''MOVED_PERMANENTLY''), (302, ''FOUND''),
      (303, ''SEE_OTHER''), (304, ''NOT_MODIFIED''), (305, ''USE_PROXY''),
      (307, ''TEMPORARY_REDIRECT''), (308, ''PERMANENT_REDIRECT''), (400, ''BAD_REQUEST''),
      (401, ''UNAUTHORIZED''), (402, ''PAYMENT_REQUIRED''), (403, ''FORBIDDEN''),
      (404, ''NOT_FOUND''), (405, ''METHOD_NOT_ALLOWED''), (406, ''NOT_ACCEPTABLE''),
      (407, ''PROXY_AUTHENTICATION_REQUIRED''), (408, ''REQUEST_TIMEOUT''), (409, ''CONFLICT''),
      (410, ''GONE''), (411, ''LENGTH_REQUIRED''), (412, ''PRECONDITION_FAILED''),
      (413, ''PAYLOAD_TOO_LARGE''), (414, ''URI_TOO_LONG''), (415, ''UNSUPPORTED_MEDIA_TYPE''),
      (416, ''RANGE_NOT_SATISFIABLE''), (417, ''EXPECTATION_FAILED''),
      (421, ''MISDIRECTED_REQUEST''), (422, ''UNPROCESSABLE_ENTITY''), (423, ''LOCKED''),
      (424, ''FAILED_DEPENDENCY''), (426, ''UPGRADE_REQUIRED''), (428, ''PRECONDITION_REQUIRED''),
      (429, ''TOO_MANY_REQUESTS''), (431, ''REQUEST_HEADER_FIELDS_TOO_LARGE''),
      (451, ''UNAVAILABLE_FOR_LEGAL_REASONS''), (500, ''INTERNAL_SERVER_ERROR''),
      (501, ''NOT_IMPLEMENTED''), (502, ''BAD_GATEWAY''), (503, ''SERVICE_UNAVAILABLE''),
      (504, ''GATEWAY_TIMEOUT''), (505, ''HTTP_VERSION_NOT_SUPPORTED''),
      (506, ''VARIANT_ALSO_NEGOTIATES''), (507, ''INSUFFICIENT_STORAGE''),
      (508, ''LOOP_DETECTED''), (510, ''NOT_EXTENDED''), (511, ''NETWORK_AUTHENTICATION_REQUIRED'')]"

(* http/Http.h 93-143: HTTP_METHOD_MAP *)
definition HTTP_METHOD_MAP :: "(nat \<times> string) list" where
  "HTTP_METHOD_MAP =
     [(0, ''DELETE''), (1, ''GET''), (2, ''HEAD''), (3, ''POST''), (4, ''PUT''), (5, ''CONNECT''),
      (6, ''OPTIONS''), (7, ''TRACE''), (8, ''COPY''), (9, ''LOCK''), (10, ''MKCOL''),
      (11, ''MOVE''), (12, ''PROPFIND''), (13, ''PROPPATCH''), (14, ''SEARCH''), (15, ''UNLOCK''),
      (16, ''BIND''), (17, ''REBIND''), (18, ''UNBIND''), (19, ''ACL''), (20, ''REPORT''),
      (21, ''MKACTIVITY''), (22, ''CHECKOUT''), (23, ''MERGE''), (24, ''MSEARCH''),
      (25, ''NOTIFY''), (26, ''SUBSCRIBE''), (27, ''UNSUBSCRIBE''), (28, ''PATCH''),
      (29, ''PURGE''), (30, ''MKCALENDAR''), (31, ''LINK''), (32, ''UNLINK''), (33, ''SOURCE'')]"

definition status_UNKNOW :: http_status where
  "status_UNKNOW = 512"

definition method_UNKNOW :: http_method where
  "method_UNKNOW = 34"

definition status_OK :: http_status where
  "status_OK = 200"

definition status_NOT_FOUND :: http_status where
  "status_NOT_FOUND = 404"

definition method_GET :: http_method where
  "method_GET = 1"

definition method_POST :: http_method where
  "method_POST = 3"

text \<open>The first table entry that satisfies the test of the macro body.\<close>

fun find_entry :: "(string \<Rightarrow> bool) \<Rightarrow> nat \<Rightarrow> (nat \<times> string) list \<Rightarrow> nat" where
  "find_entry test unknow [] = unknow"
| "find_entry test unknow ((num, name) # xs) = (if test name then num else find_entry test unknow xs)"

(* http/Http.cc 26: CharsToHttpMethod *)
definition CharsToHttpMethod :: "string \<Rightarrow> http_method" where
  "CharsToHttpMethod method = find_entry (\<lambda>name. is_prefix name method) method_UNKNOW HTTP_METHOD_MAP"

(* http/Http.cc 16: StringToHttpMethod *)
definition StringToHttpMethod :: "string \<Rightarrow> http_method" where
  "StringToHttpMethod method = find_entry (\<lambda>name. is_prefix name (c_str method)) method_UNKNOW HTTP_METHOD_MAP"

(* http/Http.cc 46: CharsToHttpStatus *)
definition CharsToHttpStatus :: "string \<Rightarrow> http_status" where
  "CharsToHttpStatus status = find_entry (\<lambda>name. name = status) status_UNKNOW HTTP_STATUS_MAP"

(* http/Http.cc 36: StringToHttpStatus *)
definition StringToHttpStatus :: "string \<Rightarrow> http_status" where
  "StringToHttpStatus status = find_entry (\<lambda>name. name = c_str status) status_UNKNOW HTTP_STATUS_MAP"

definition enum_name :: "(nat \<times> string) list \<Rightarrow> nat \<Rightarrow> string" where
  "enum_name m x = (case map_of m x of Some name \<Rightarrow> name | None \<Rightarrow> ''UNKNOW'')"

(* http/Http.cc 56: HttpMethodToString *)
definition HttpMethodToString :: "http_method \<Rightarrow> string" where
  "HttpMethodToString method = enum_name HTTP_METHOD_MAP method"

(* http/Http.cc 70: HttpStatusToString *)
definition HttpStatusToString :: "http_status \<Rightarrow> string" where
  "HttpStatusToString status = enum_name HTTP_STATUS_MAP status"

section \<open>Case-insensitive maps\<close>

definition lower_code :: "char \<Rightarrow> nat" where
  "lower_code c = of_char (to_lower c)"

text \<open>\<^verbatim>\<open>strcasecmp\<close> on the characters before the terminating NUL.\<close>

fun strcasecmp :: "string \<Rightarrow> string \<Rightarrow> int" where
  "strcasecmp [] [] = 0"
| "strcasecmp [] (d # ds) = - int (lower_code d)"
| "strcasecmp (c # cs) [] = int (lower_code c)"
| "strcasecmp (c # cs) (d # ds) =
     (if lower_code c = lower_code d then strcasecmp cs ds else int (lower_code c) - int (lower_code d))"

(* http/Http.cc 84: CaseInsensitiveLess::operator() *)
definition CaseInsensitiveLess :: "string \<Rightarrow> string \<Rightarrow> bool" where
  "CaseInsensitiveLess lhs rhs \<longleftrightarrow> strcasecmp (c_str lhs) (c_str rhs) < 0"

type_synonym http_map = "(string \<times> string) list"

abbreviation ci_find :: "string \<Rightarrow> http_map \<Rightarrow> string option" where
  "ci_find \<equiv> smap_find CaseInsensitiveLess"

abbreviation ci_put :: "string \<Rightarrow> string \<Rightarrow> http_map \<Rightarrow> http_map" where
  "ci_put \<equiv> smap_put CaseInsensitiveLess"

abbreviation ci_erase :: "string \<Rightarrow> http_map \<Rightarrow> http_map" where
  "ci_erase \<equiv> smap_erase CaseInsensitiveLess"

definition find_or_empty :: "string \<Rightarrow> http_map \<Rightarrow> string" where
  "find_or_empty key m = (case ci_find key m of None \<Rightarrow> [] | Some v \<Rightarrow> v)"

section \<open>Requests\<close>

(* http/Http.h 254-268: HttpRequest *)
record http_request =
  rq_method :: http_method
  rq_protocol :: string
  rq_version :: u8
  rq_status :: http_status
  rq_close :: bool
  rq_url :: string
  rq_host :: string
  rq_path :: string
  rq_query :: string
  rq_fragment :: string
  rq_body :: string
  rq_headers :: http_map
  rq_parmas :: http_map
  rq_cookies :: http_map

(* http/Http.cc 90: HttpRequest::HttpRequest *)
definition HttpRequest_default :: http_request where
  "HttpRequest_default =
     \<lparr>rq_method = method_GET, rq_protocol = [], rq_version = 0, rq_status = status_OK, rq_close = True,
      rq_url = [], rq_host = [], rq_path = ''/'', rq_query = [], rq_fragment = [], rq_body = [],
      rq_headers = [], rq_parmas = [], rq_cookies = []\<rparr>"

(* http/Http.cc 95: HttpRequest::HttpRequest *)
definition HttpRequest_ctor :: "http_method \<Rightarrow> http_status \<Rightarrow> u8 \<Rightarrow> bool \<Rightarrow> http_request" where
  "HttpRequest_ctor method status version close =
     HttpRequest_default\<lparr>rq_method := method, rq_status := status, rq_version := version, rq_close := close,
       rq_path := []\<rparr>"

(* http/Http.cc 100: HttpRequest::getHeaderEntry *)
definition rq_getHeaderEntry :: "string \<Rightarrow> http_request \<Rightarrow> string" where
  "rq_getHeaderEntry key r = find_or_empty key (rq_headers r)"

(* http/Http.cc 108: HttpRequest::getParmaEntry *)
definition getParmaEntry :: "string \<Rightarrow> http_request \<Rightarrow> string" where
  "getParmaEntry key r = find_or_empty key (rq_parmas r)"

(* http/Http.cc 116: HttpRequest::getCookisEntry *)
definition getCookisEntry :: "string \<Rightarrow> http_request \<Rightarrow> string" where
  "getCookisEntry key r = find_or_empty key (rq_cookies r)"

(* http/Http.h 203: HttpRequest::HasHeaderEntry *)
definition rq_HasHeaderEntry :: "string \<Rightarrow> http_request \<Rightarrow> bool" where
  "rq_HasHeaderEntry key r \<longleftrightarrow> ci_find key (rq_headers r) \<noteq> None"

(* http/Http.cc 124: HttpRequest::setHeaderEntry *)
definition rq_setHeaderEntry :: "string \<Rightarrow> string \<Rightarrow> http_request \<Rightarrow> http_request" where
  "rq_setHeaderEntry key value r = r\<lparr>rq_headers := ci_put key value (rq_headers r)\<rparr>"

(* http/Http.cc 130: HttpRequest::setParmaEntry *)
definition setParmaEntry :: "string \<Rightarrow> string \<Rightarrow> http_request \<Rightarrow> http_request" where
  "setParmaEntry key value r = r\<lparr>rq_parmas := ci_put key value (rq_parmas r)\<rparr>"

(* http/Http.cc 136: HttpRequest::setCookiesEntry *)
definition setCookiesEntry :: "string \<Rightarrow> string \<Rightarrow> http_request \<Rightarrow> http_request" where
  "setCookiesEntry key value r = r\<lparr>rq_cookies := ci_put key value (rq_cookies r)\<rparr>"

definition find_erase :: "string \<Rightarrow> http_map \<Rightarrow> http_map" where
  "find_erase key m = (if ci_find key m = None then m else ci_erase key m)"

(* http/Http.cc 142: HttpRequest::delHeaderEntry *)
definition rq_delHeaderEntry :: "string \<Rightarrow> http_request \<Rightarrow> http_request" where
  "rq_delHeaderEntry key r = r\<lparr>rq_headers := find_erase key (rq_headers r)\<rparr>"

(* http/Http.cc 149: HttpRequest::delParmaEntry *)
definition delParmaEntry :: "string \<Rightarrow> http_request \<Rightarrow> http_request" where
  "delParmaEntry key r = r\<lparr>rq_parmas := find_erase key (rq_parmas r)\<rparr>"

(* http/Http.cc 156: HttpRequest::delCookiesEntry *)
definition delCookiesEntry :: "string \<Rightarrow> http_request \<Rightarrow> http_request" where
  "delCookiesEntry key r = r\<lparr>rq_cookies := find_erase key (rq_cookies r)\<rparr>"

(* http/Http.h 235: HttpRequest::getAs *)
definition getAs :: "(string \<Rightarrow> 'a option) \<Rightarrow> http_map \<Rightarrow> string \<Rightarrow> 'a \<Rightarrow> bool \<times> 'a" where
  "getAs lexical_cast m key value =
     (case ci_find key m of
        None \<Rightarrow> (False, value)
      | Some s \<Rightarrow> (case lexical_cast s of Some v \<Rightarrow> (True, v) | None \<Rightarrow> (False, value)))"

(* http/Http.h 217-231: HttpRequest::getHeaderEntryAs *)
definition rq_getHeaderEntryAs :: "(string \<Rightarrow> 'a option) \<Rightarrow> string \<Rightarrow> 'a \<Rightarrow> http_request \<Rightarrow> bool \<times> 'a" where
  "rq_getHeaderEntryAs lexical_cast key value r = getAs lexical_cast (rq_headers r) key value"

(* http/Http.cc 243: HttpRequest::init *)
definition rq_init :: "http_request \<Rightarrow> http_request" where
  "rq_init r =
     (let conn = snd (rq_getHeaderEntryAs Some ''connection'' [] r) in
      if conn \<noteq> [] then r\<lparr>rq_close := \<not> strcasecmp (c_str conn) ''keep-alive'' = 0\<rparr> else r)"

definition version_text :: "u8 \<Rightarrow> string" where
  "version_text v = show_nat (unat (drop_bit 4 v)) @ ''.'' @ show_nat (unat (v AND 15))"

definition header_lines :: "http_map \<Rightarrow> string" where
  "header_lines m = concat (map (\<lambda>(k, v). k @ '': '' @ v @ CRLF) (filter (\<lambda>(k, v). k \<noteq> ''connection'') m))"

(* http/Http.cc 163: HttpRequest::dump *)
definition rq_dump :: "http_request \<Rightarrow> string" where
  "rq_dump r =
     HttpMethodToString (rq_method r) @ '' '' @ rq_url r @ '' HTTP/'' @ version_text (rq_version r) @ CRLF
     @ header_lines (rq_headers r)
     @ (if rq_body r \<noteq> []
        then ''content-length: '' @ show_nat (length (rq_body r)) @ CRLF @ CRLF @ rq_body r
        else CRLF)"

(* http/Http.cc 187: HttpRequest::toString *)
definition rq_toString :: "http_request \<Rightarrow> string" where
  "rq_toString r = rq_dump r"

section \<open>Responses\<close>

(* http/Http.h 344-353: HttpResponse *)
record http_response =
  rs_status :: http_status
  rs_statusCode :: string
  rs_statusDesc :: string
  rs_version :: u8
  rs_close :: bool
  rs_body :: string
  rs_reason :: string
  rs_headers :: http_map

(* http/Http.cc 194: HttpResponse::HttpResponse *)
definition HttpResponse_default :: http_response where
  "HttpResponse_default =
     \<lparr>rs_status = status_OK, rs_statusCode = [], rs_statusDesc = [], rs_version = 0, rs_close = True,
      rs_body = [], rs_reason = [], rs_headers = []\<rparr>"

(* http/Http.cc 197: HttpResponse::HttpResponse *)
definition HttpResponse_ctor :: "http_status \<Rightarrow> u8 \<Rightarrow> bool \<Rightarrow> http_response" where
  "HttpResponse_ctor status version close =
     HttpResponse_default\<lparr>rs_status := status, rs_version := version, rs_close := close\<rparr>"

(* http/Http.cc 202: HttpResponse::getHeaderEntry *)
definition rs_getHeaderEntry :: "string \<Rightarrow> http_response \<Rightarrow> string" where
  "rs_getHeaderEntry key r = find_or_empty key (rs_headers r)"

(* http/Http.h 311: HttpResponse::HasHeaderEntry *)
definition rs_HasHeaderEntry :: "string \<Rightarrow> http_response \<Rightarrow> bool" where
  "rs_HasHeaderEntry key r \<longleftrightarrow> ci_find key (rs_headers r) \<noteq> None"

(* http/Http.cc 209: HttpResponse::setHeaderEntry *)
definition rs_setHeaderEntry :: "string \<Rightarrow> string \<Rightarrow> http_response \<Rightarrow> http_response" where
  "rs_setHeaderEntry key value r = r\<lparr>rs_headers := ci_put key value (rs_headers r)\<rparr>"

(* http/Http.cc 214: HttpResponse::delHeaderEntry *)
definition rs_delHeaderEntry :: "string \<Rightarrow> http_response \<Rightarrow> http_response" where
  "rs_delHeaderEntry key r = r\<lparr>rs_headers := find_erase key (rs_headers r)\<rparr>"

(* http/Http.h 319-341: HttpResponse::getHeaderEntryAs *)
definition rs_getHeaderEntryAs :: "(string \<Rightarrow> 'a option) \<Rightarrow> string \<Rightarrow> 'a \<Rightarrow> http_response \<Rightarrow> bool \<times> 'a" where
  "rs_getHeaderEntryAs lexical_cast key value r = getAs lexical_cast (rs_headers r) key value"

(* http/Http.cc 221: HttpResponse::dump *)
definition rs_dump :: "http_response \<Rightarrow> string" where
  "rs_dump r =
     ''HTTP/'' @ version_text (rs_version r) @ '' '' @ show_nat (rs_status r) @ '' ''
     @ (if rs_reason r = [] then HttpStatusToString (rs_status r) else rs_reason r) @ CRLF
     @ header_lines (rs_headers r)
     @ ''connection: '' @ (if rs_close r then ''close'' else ''keep-alive'') @ CRLF
     @ (if rs_body r \<noteq> []
        then ''content-length: '' @ show_nat (length (rs_body r)) @ CRLF @ CRLF @ rs_body r @ CRLF
        else CRLF)"

(* http/Http.cc 260: HttpResponse::toString *)
definition rs_toString :: "http_response \<Rightarrow> string" where
  "rs_toString r = rs_dump r"

section \<open>The comparator is a strict weak order\<close>

lemma lower_code_pos: "NUL \<noteq> c \<Longrightarrow> 0 < lower_code c"
proof -
  assume "NUL \<noteq> c"
  then have "of_char c \<noteq> (0 :: nat)" by (metis NUL_def char_of_char)
  then show ?thesis by (simp add: lower_code_def to_lower_def is_upper_def)
qed

lemma c_str_no_NUL' [simp]: "NUL \<notin> set (c_str s)"
  by (auto simp: c_str_def dest: set_takeWhileD)

lemma strcasecmp_less:
  "NUL \<notin> set a \<Longrightarrow> NUL \<notin> set b \<Longrightarrow> strcasecmp a b < 0 \<longleftrightarrow> map lower_code a < map lower_code b"
  by (induction a b rule: strcasecmp.induct) (auto simp: lower_code_pos)

lemma strcasecmp_eq_0:
  "NUL \<notin> set a \<Longrightarrow> NUL \<notin> set b \<Longrightarrow> strcasecmp a b = 0 \<longleftrightarrow> map lower_code a = map lower_code b"
  by (induction a b rule: strcasecmp.induct) (auto dest: lower_code_pos)

definition folded :: "string \<Rightarrow> nat list" where
  "folded s = map lower_code (c_str s)"

lemma CaseInsensitiveLess_iff: "CaseInsensitiveLess a b \<longleftrightarrow> folded a < folded b"
  by (simp add: CaseInsensitiveLess_def strcasecmp_less folded_def)

interpretation ci: key_order CaseInsensitiveLess
  by unfold_locales (auto simp: CaseInsensitiveLess_iff)

lemma key_equiv_ci: "key_equiv CaseInsensitiveLess a b \<longleftrightarrow> strcasecmp (c_str a) (c_str b) = 0"
  by (auto simp: key_equiv_def CaseInsensitiveLess_iff strcasecmp_eq_0 simp flip: folded_def)

lemma find_erase_find:
  "smap CaseInsensitiveLess m \<Longrightarrow> ci_find k' (find_erase k m) =
     (if strcasecmp (c_str k) (c_str k') = 0 then None else ci_find k' m)"
  using ci.find_equiv [of k k' m] by (auto simp: find_erase_def ci.find_erase key_equiv_ci)

lemma find_erase_smap: "smap CaseInsensitiveLess m \<Longrightarrow> smap CaseInsensitiveLess (find_erase k m)"
  by (simp add: find_erase_def ci.smap_erase_smap)

lemma find_entry_name:
  "distinct (map snd t) \<Longrightarrow> (x, name) \<in> set t \<Longrightarrow> find_entry (\<lambda>n. n = name) u t = x"
  by (induction t) force+

section \<open>Properties\<close>

text \<open>
  C33: Header maps.  On a request whose header map is in order (as a new request's is),
  setting and deleting a header keep it in order; a lookup finds the value last set
  under the same name up to the case of its letters, nothing after a deletion, and
  entries of other names are untouched.
\<close>

theorem header_entries:
  assumes "smap CaseInsensitiveLess (rq_headers r)"
  shows "smap CaseInsensitiveLess (rq_headers (rq_setHeaderEntry k v r))
    \<and> smap CaseInsensitiveLess (rq_headers (rq_delHeaderEntry k r))
    \<and> rq_getHeaderEntry k' (rq_setHeaderEntry k v r) =
        (if strcasecmp (c_str k) (c_str k') = 0 then v else rq_getHeaderEntry k' r)
    \<and> rq_getHeaderEntry k' (rq_delHeaderEntry k r) =
        (if strcasecmp (c_str k) (c_str k') = 0 then [] else rq_getHeaderEntry k' r)
    \<and> (rq_HasHeaderEntry k' (rq_delHeaderEntry k r) \<longleftrightarrow>
        strcasecmp (c_str k) (c_str k') \<noteq> 0 \<and> rq_HasHeaderEntry k' r)"
  using assms
  by (simp add: rq_setHeaderEntry_def rq_delHeaderEntry_def rq_getHeaderEntry_def rq_HasHeaderEntry_def
      find_or_empty_def ci.smap_put_smap find_erase_smap ci.find_put find_erase_find key_equiv_ci)

theorem header_entries_witness:
  "rq_getHeaderEntry ''HOST'' (rq_setHeaderEntry ''Host'' ''a'' HttpRequest_default) = ''a''"
  using header_entries [of HttpRequest_default "''Host''" "''a''" "''HOST''"]
  by (simp add: HttpRequest_default_def c_str_def special_chars lower_code_def to_lower_def is_upper_def)

lemma method_prefix: "m < 34 \<Longrightarrow> CharsToHttpMethod (HttpMethodToString m @ rest) = m"
proof -
  assume "m < 34"
  then have "m \<in> set [0..<34]" by simp
  then show ?thesis
    by (simp add: upt_conv_Cons CharsToHttpMethod_def HttpMethodToString_def enum_name_def HTTP_METHOD_MAP_def) (elim disjE; simp)
qed

text \<open>
  Method names are read back.  Every method's printed name is read as that method
  by both conversions, and so is any text that begins with it: only the length of the
  name is compared.
\<close>

theorem method_names_read_back:
  assumes "m < 34"
  shows "CharsToHttpMethod (HttpMethodToString m @ rest) = m
    \<and> StringToHttpMethod (HttpMethodToString m @ rest) = m"
proof -
  have chars: "CharsToHttpMethod (HttpMethodToString m @ rest) = m" for rest by (rule method_prefix [OF assms])
  have "\<forall>x \<in> set HTTP_METHOD_MAP. NUL \<notin> set (snd x)" by (simp add: HTTP_METHOD_MAP_def special_chars)
  then have "NUL \<notin> set (HttpMethodToString m)"
    by (auto simp: HttpMethodToString_def enum_name_def special_chars split: option.splits dest!: map_of_SomeD)
  then have "c_str (HttpMethodToString m @ rest) = HttpMethodToString m @ c_str rest"
    by (auto simp: c_str_def takeWhile_append)
  then show ?thesis using chars by (simp add: StringToHttpMethod_def CharsToHttpMethod_def)
qed

theorem method_names_read_back_witness:
  "StringToHttpMethod ''PROPFIND'' = 12 \<and> StringToHttpMethod ''GETTING'' = method_GET"
  using method_names_read_back [of 12 "[]"] method_names_read_back [of 1 "''TING''"]
  by (simp add: HttpMethodToString_def enum_name_def HTTP_METHOD_MAP_def method_GET_def)

text \<open>
  Status names are read back.  For every status code of the table, the printed
  name is read as that status.
\<close>

theorem status_names_read_back:
  assumes "s \<in> fst ` set HTTP_STATUS_MAP"
  shows "StringToHttpStatus (HttpStatusToString s) = s"
proof -
  have "\<forall>x \<in> set HTTP_STATUS_MAP. NUL \<notin> set (snd x)" by (simp add: HTTP_STATUS_MAP_def special_chars)
  then have "NUL \<notin> set (HttpStatusToString s)"
    by (auto simp: HttpStatusToString_def enum_name_def special_chars split: option.splits dest!: map_of_SomeD)
  then have "c_str (HttpStatusToString s) = HttpStatusToString s" by (rule c_str_no_NUL)
  moreover have "distinct (map snd HTTP_STATUS_MAP)" "distinct (map fst HTTP_STATUS_MAP)" by code_simp+
  ultimately show ?thesis
    using assms find_entry_name by (auto simp: StringToHttpStatus_def HttpStatusToString_def enum_name_def)
qed

theorem status_names_read_back_witness:
  "StringToHttpStatus ''NOT_FOUND'' = status_NOT_FOUND"
  using status_names_read_back [of 404]
  by (simp add: HttpStatusToString_def enum_name_def HTTP_STATUS_MAP_def status_NOT_FOUND_def)

text \<open>
  What a response announces.  A printed response has the connection header its
  flag asks for; with a body, the last header is its content length, and what follows
  the blank line is the body and two more bytes that the length does not count;
  without a body it ends with the blank line.
\<close>

theorem response_framing:
  "\<exists>head. rs_dump r = head @ ''connection: '' @ (if rs_close r then ''close'' else ''keep-alive'') @ CRLF
     @ (if rs_body r = [] then CRLF
        else ''content-length: '' @ show_nat (length (rs_body r)) @ CRLF @ CRLF @ rs_body r @ CRLF)
   \<and> is_prefix (''HTTP/'' @ version_text (rs_version r) @ '' '' @ show_nat (rs_status r) @ '' '') head"
  unfolding rs_dump_def is_prefix_iff by (rule exI [where x = "''HTTP/'' @ version_text (rs_version r) @ '' ''
     @ show_nat (rs_status r) @ '' '' @ (if rs_reason r = [] then HttpStatusToString (rs_status r) else rs_reason r)
     @ CRLF @ header_lines (rs_headers r)"]) simp

end
