(* ===== verification/Servlet.thy ===== *)
theory Servlet
  imports Http
begin

text \<open>
  Servlets and their dispatch (\<^verbatim>\<open>qslary/http/Servlet.h\<close>, \<^verbatim>\<open>Servlet.cc\<close>).  A servlet
  handles an exchange: the request and the response it shares with its caller and a
  session of any type.  The class hierarchy is a datatype; a null \<^verbatim>\<open>Servlet::ptr\<close> is
  \<open>None\<close>.  \<^verbatim>\<open>fnmatch\<close> is not modelled: the only call of it dereferences the end
  iterator first, which is \<^const>\<open>Undefined_behaviour\<close>.
\<close>

section \<open>Definitions\<close>

type_synonym 's exchange = "http_request \<times> http_response \<times> 's"

(* http/Servlet.h 17-97: Servlet, FunctionServlet, ServletDispatch, NotFoundServlet *)
datatype 's servlet =
    FunctionServlet (fs_cb: "'s exchange \<Rightarrow> int \<times> 's exchange")
  | ServletDispatch (mp_data: "(string \<times> 's servlet option) list")
      (v_data: "(string \<times> 's servlet option) list") (defaultServlet: "'s servlet option")
  | NotFoundServlet (nf_name: string)

(* http/Servlet.cc 94: NotFoundServlet::NotFoundServlet *)
definition NotFoundServlet_content :: "string \<Rightarrow> string" where
  "NotFoundServlet_content name =
     ''<html><head><title>404 Not Found'' @ ''</title></head><body><center><h1>404 Not Found</h1></center>''
     @ ''<hr><center>'' @ name @ ''</center></body></html>''"

(* http/Servlet.cc 102: NotFoundServlet::handle *)
definition NotFoundServlet_handle :: "string \<Rightarrow> 's exchange \<Rightarrow> int \<times> 's exchange" where
  "NotFoundServlet_handle name x =
     (case x of (request, response, session) \<Rightarrow>
        let r1 = response\<lparr>rs_status := status_NOT_FOUND\<rparr>;
            r2 = rs_setHeaderEntry ''Server'' ''sylar/1.0.0'' r1;
            r3 = rs_setHeaderEntry ''Content-Type'' ''text/html'' r2;
            r4 = r3\<lparr>rs_body := NotFoundServlet_content name\<rparr> in
        (0, request, r4, session))"

(* http/Servlet.cc 20: ServletDispatch::ServletDispatch *)
definition ServletDispatch_ctor :: "'s servlet" where
  "ServletDispatch_ctor = ServletDispatch [] [] (Some (NotFoundServlet ''NotFound''))"

text \<open>The members of the dispatch servlet; they are not called on other servlets.\<close>

fun on_dispatch :: "((string \<times> 's servlet option) list \<Rightarrow> (string \<times> 's servlet option) list
    \<Rightarrow> 's servlet option \<Rightarrow> 's servlet) \<Rightarrow> 's servlet \<Rightarrow> 's servlet" where
  "on_dispatch f (ServletDispatch mp v d) = f mp v d"
| "on_dispatch f s = s"

(* http/Servlet.h 63: ServletDispatch::setDefaultServlet *)
definition setDefaultServlet :: "'s servlet option \<Rightarrow> 's servlet \<Rightarrow> 's servlet" where
  "setDefaultServlet slt = on_dispatch (\<lambda>mp v d. ServletDispatch mp v slt)"

(* http/Servlet.cc 25: ServletDispatch::addServlet *)
definition addServlet :: "string \<Rightarrow> 's servlet option \<Rightarrow> 's servlet \<Rightarrow> 's servlet" where
  "addServlet url slt =
     on_dispatch (\<lambda>mp v d. if map_of mp url = None then ServletDispatch ((url, slt) # mp) v d
                           else ServletDispatch mp v d)"

(* http/Servlet.cc 29: ServletDispatch::addGlobalServlet *)
definition addGlobalServlet :: "string \<Rightarrow> 's servlet option \<Rightarrow> 's servlet \<Rightarrow> 's servlet" where
  "addGlobalServlet url slt = on_dispatch (\<lambda>mp v d. ServletDispatch mp (v @ [(url, slt)]) d)"

(* http/Servlet.cc 34: ServletDispatch::delServlet *)
definition delServlet :: "string \<Rightarrow> 's servlet \<Rightarrow> 's servlet" where
  "delServlet url = on_dispatch (\<lambda>mp v d. ServletDispatch (filter (\<lambda>(k, _). k \<noteq> url) mp) v d)"

fun remove_first :: "string \<Rightarrow> (string \<times> 'a) list \<Rightarrow> (string \<times> 'a) list" where
  "remove_first url [] = []"
| "remove_first url ((k, s) # xs) = (if k = url then xs else (k, s) # remove_first url xs)"

(* http/Servlet.cc 41: ServletDispatch::delGlobalServlet *)
definition delGlobalServlet :: "string \<Rightarrow> 's servlet \<Rightarrow> 's servlet" where
  "delGlobalServlet url = on_dispatch (\<lambda>mp v d. ServletDispatch mp (remove_first url v) d)"

definition ptr_of :: "'a option option \<Rightarrow> 'a option" where
  "ptr_of x = (case x of None \<Rightarrow> None | Some p \<Rightarrow> p)"

(* http/Servlet.cc 53: ServletDispatch::getServlet *)
definition getServlet :: "string \<Rightarrow> 's servlet \<Rightarrow> 's servlet option" where
  "getServlet url s = ptr_of (map_of (mp_data s) url)"

(* http/Servlet.cc 58: ServletDispatch::getGlobalServlet *)
definition getGlobalServlet :: "string \<Rightarrow> 's servlet \<Rightarrow> 's servlet option" where
  "getGlobalServlet url s = ptr_of (map_of (v_data s) url)"

definition match_servlet :: "(string \<times> 'a option) list \<Rightarrow> (string \<times> 'a option) list \<Rightarrow> 'a option \<Rightarrow> string
    \<Rightarrow> 'a option result" where
  "match_servlet mp v d url =
     (case map_of mp url of
        Some slt \<Rightarrow> Inr slt
      | None \<Rightarrow> if v \<noteq> [] then Inl Undefined_behaviour else Inr d)"

(* http/Servlet.cc 68: ServletDispatch::getMatchServlet *)
definition getMatchServlet :: "string \<Rightarrow> 's servlet \<Rightarrow> 's servlet option result" where
  "getMatchServlet url s = match_servlet (mp_data s) (v_data s) (defaultServlet s) url"

lemma match_servlet_size:
  assumes "match_servlet mp v d url = Inr (Some slt)"
  shows "size slt < size (ServletDispatch mp v d :: 's servlet)"
proof (cases "map_of mp url")
  case None
  then show ?thesis using assms by (auto simp: match_servlet_def split: if_splits)
next
  case (Some x)
  then have "(url, Some slt) \<in> set mp" using assms by (auto simp: match_servlet_def dest: map_of_SomeD)
  then have "size_prod (\<lambda>_. 0) (size_option size) (url, Some slt) \<le> size_list (size_prod (\<lambda>_. 0) (size_option size)) mp"
    by (intro size_list_estimation' [OF _ order_refl])
  then show ?thesis by simp
qed

(* http/Servlet.cc 82: ServletDispatch::handle *)
function servlet_handle :: "'s servlet \<Rightarrow> 's exchange \<Rightarrow> (int \<times> 's exchange) result" where
  "servlet_handle (FunctionServlet cb) x = Inr (cb x)"
| "servlet_handle (NotFoundServlet name) x = Inr (NotFoundServlet_handle name x)"
| "servlet_handle (ServletDispatch mp v d) x =
     (case match_servlet mp v d (rq_path (fst x)) of
        Inl e \<Rightarrow> Inl e
      | Inr None \<Rightarrow> Inr (0, x)
      | Inr (Some slt) \<Rightarrow> servlet_handle slt x)"
  by pat_completeness auto
termination
  by (relation "measure (size \<circ> fst)") (auto dest: match_servlet_size)

section \<open>Properties\<close>

text \<open>
  C32: Exact routes.  In a dispatcher without glob routes, adding a route for a path that
  has none makes exactly that path go to the servlet added, every other path is
  dispatched as before, and removing the route restores the dispatcher's answers;
  adding a second servlet for the same path changes nothing.
\<close>

theorem exact_routes:
  fixes d :: "'s servlet option"
  assumes "s = ServletDispatch mp [] d" "map_of mp url = None"
  shows "getMatchServlet url (addServlet url slt s) = Inr slt
    \<and> (\<forall>u. u \<noteq> url \<longrightarrow> getMatchServlet u (addServlet url slt s) = getMatchServlet u s)
    \<and> (\<forall>u. getMatchServlet u (delServlet url (addServlet url slt s)) = getMatchServlet u s)
    \<and> addServlet url slt' (addServlet url slt s) = addServlet url slt s"
proof -
  have "map_of (filter (\<lambda>(k, _). k \<noteq> url) mp) u = map_of mp u" for u
    using assms(2) by (induction mp) (auto split: if_splits)
  then show ?thesis using assms by (auto simp: getMatchServlet_def match_servlet_def addServlet_def delServlet_def)
qed

theorem exact_routes_witness:
  "getMatchServlet ''/a'' (addServlet ''/a'' (Some (NotFoundServlet ''x'')) (ServletDispatch_ctor :: unit servlet))
    = Inr (Some (NotFoundServlet ''x''))"
  using exact_routes [of ServletDispatch_ctor "[]" "Some (NotFoundServlet ''NotFound'')" "''/a''"
      "Some (NotFoundServlet ''x'')" "None :: unit servlet option"]
  by (simp add: ServletDispatch_ctor_def)

text \<open>
  Glob routes break dispatch.  Once a dispatcher has a glob route, handling any
  request whose path has no exact route dereferences the end iterator of the exact
  routes, whatever the patterns are.
\<close>

theorem glob_route_breaks_dispatch:
  assumes "map_of mp (rq_path request) = None"
  shows "servlet_handle (addGlobalServlet url slt (ServletDispatch mp v d)) (request, response, session)
    = Inl Undefined_behaviour"
  using assms by (simp add: addGlobalServlet_def match_servlet_def)

theorem glob_route_breaks_dispatch_witness:
  "servlet_handle (addGlobalServlet ''/*'' (Some (NotFoundServlet ''x'')) (ServletDispatch_ctor :: unit servlet))
     (HttpRequest_default, HttpResponse_default, ()) = Inl Undefined_behaviour"
  using glob_route_breaks_dispatch [of "[]" HttpRequest_default "''/*''" "Some (NotFoundServlet ''x'')" "[]"]
  by (simp add: ServletDispatch_ctor_def)

text \<open>
  The default answer.  A new dispatcher answers every request with status 404, the
  two headers of the not-found servlet and its page, and leaves request and session
  as they are.
\<close>

theorem default_answer_not_found:
  "\<exists>response'. servlet_handle ServletDispatch_ctor (request, response, session)
      = Inr (0, request, response', session)
    \<and> rs_status response' = status_NOT_FOUND \<and> rs_close response' = rs_close response
    \<and> rs_body response' = NotFoundServlet_content ''NotFound''
    \<and> (smap CaseInsensitiveLess (rs_headers response) \<longrightarrow>
         rs_getHeaderEntry ''server'' response' = ''sylar/1.0.0''
       \<and> rs_getHeaderEntry ''content-type'' response' = ''text/html'')"
proof -
  have eq: "strcasecmp (c_str ''Server'') (c_str ''server'') = 0"
      "strcasecmp (c_str ''Content-Type'') (c_str ''content-type'') = 0"
      "strcasecmp (c_str ''Content-Type'') (c_str ''server'') \<noteq> 0"
    by (simp_all add: c_str_def special_chars lower_code_def to_lower_def is_upper_def)
  show ?thesis
    using eq
    by (simp add: ServletDispatch_ctor_def match_servlet_def NotFoundServlet_handle_def Let_def rs_setHeaderEntry_def
        rs_getHeaderEntry_def find_or_empty_def ci.smap_put_smap ci.find_put key_equiv_ci)
qed

theorem default_answer_not_found_witness:
  "\<exists>response'. servlet_handle ServletDispatch_ctor (HttpRequest_default, HttpResponse_default, ())
      = Inr (0, HttpRequest_default, response', ()) \<and> rs_getHeaderEntry ''server'' response' = ''sylar/1.0.0''"
  using default_answer_not_found [of HttpRequest_default HttpResponse_default "()"]
  by (auto simp: HttpResponse_default_def)

end
