(* ===== verification/SockStream.thy ===== *)
theory SockStream
  imports Socket ByteArray
begin

text \<open>
  Byte streams over sockets (\<^verbatim>\<open>qslary/net/Stream.h\<close>, \<^verbatim>\<open>Stream.cc\<close>, \<^verbatim>\<open>SockStream.h\<close>,
  \<^verbatim>\<open>SockStream.cc\<close>).  A connection is the segments that arrive from the peer, in
  order, of which a \<^verbatim>\<open>recv\<close> returns at most what it asks for of the first (and 0 when
  none is left), the data sent to the peer, and how many bytes each coming \<^verbatim>\<open>send\<close>
  accepts (all of them when nothing is said).

  What the fixed-size loops rely on, the contract of \<^verbatim>\<open>read\<close> and \<^verbatim>\<open>write\<close>, are the
  locales \<open>source\<close> and \<open>sink\<close>; the loops are proved correct in them and the locales
  are interpreted on the socket stream.
\<close>

section \<open>Definitions\<close>

record 'x connection =
  c_in :: "'x list list"
  c_out :: "'x list"
  c_caps :: "nat list"

fun sys_recv :: "nat \<Rightarrow> int \<Rightarrow> 'x connection \<Rightarrow> int \<times> 'x list \<times> 'x connection" where
  "sys_recv n fd c =
     (case c_in c of
        [] \<Rightarrow> (0, [], c)
      | seg # rest \<Rightarrow>
          (int (length (take n seg)), take n seg,
           c\<lparr>c_in := (if length seg \<le> n then rest else drop n seg # rest)\<rparr>))"

fun sys_send :: "'x list \<Rightarrow> int \<Rightarrow> 'x connection \<Rightarrow> int \<times> 'x connection" where
  "sys_send data fd c =
     (let k = (case c_caps c of [] \<Rightarrow> length data | cap # _ \<Rightarrow> min cap (length data)) in
      (int k, c\<lparr>c_out := c_out c @ take k data, c_caps := tl (c_caps c)\<rparr>))"

(* net/SockStream.h 31-33: SockStream *)
record 'x sock_stream =
  st_sock :: "socket option"
  st_ower :: bool
  st_conn :: "'x connection"

(* net/SockStream.cc 7: SockStream::SockStream *)
definition SockStream_ctor :: "socket option \<Rightarrow> bool \<Rightarrow> 'x connection \<Rightarrow> 'x sock_stream" where
  "SockStream_ctor sock ower c = \<lparr>st_sock = sock, st_ower = ower, st_conn = c\<rparr>"

(* net/SockStream.cc 69: SockStream::isConnected *)
definition st_isConnected :: "'x sock_stream \<Rightarrow> bool" where
  "st_isConnected s = (case st_sock s of None \<Rightarrow> False | Some k \<Rightarrow> isConnected k)"

(* net/SockStream.cc 61: SockStream::close *)
definition st_close :: "'x sock_stream \<Rightarrow> 'x sock_stream" where
  "st_close s = s\<lparr>st_sock := map_option (\<lambda>k. snd (close k)) (st_sock s)\<rparr>"

(* net/SockStream.cc 10: SockStream::~SockStream *)
definition SockStream_dtor :: "'x sock_stream \<Rightarrow> 'x sock_stream" where
  "SockStream_dtor s = (if st_sock s \<noteq> None \<and> st_ower s then st_close s else s)"

(* net/SockStream.cc 18: SockStream::read *)
definition st_read :: "nat \<Rightarrow> 'x sock_stream \<Rightarrow> int \<times> 'x list \<times> 'x sock_stream" where
  "st_read len s =
     (if \<not> st_isConnected s then (- 1, [], s)
      else
        let (n, bs, c) = recv (sys_recv len) (the (st_sock s)) (st_conn s) in
        (n, bs, s\<lparr>st_conn := c\<rparr>))"

(* net/SockStream.cc 39: SockStream::write *)
definition st_write :: "'x list \<Rightarrow> 'x sock_stream \<Rightarrow> int \<times> 'x sock_stream" where
  "st_write data s =
     (if \<not> st_isConnected s then (- 1, s)
      else
        let (n, c) = send (sys_send data) (the (st_sock s)) (st_conn s) in
        (n, s\<lparr>st_conn := c\<rparr>))"

(* net/SockStream.cc 27: SockStream::read *)
definition st_read_bytearray :: "nat \<Rightarrow> byte_array \<Rightarrow> byte sock_stream
    \<Rightarrow> (int \<times> byte_array \<times> byte sock_stream) result" where
  "st_read_bytearray len b s =
     (if \<not> st_isConnected s then Inr (- 1, b, s)
      else
        rbind (GetWriteBuffer len b) (\<lambda>(iov, _, b1).
        let (ret, bs, s1) = st_read (iov_len iov) s in
        if iov_base iov + length bs > length (mBuffer b1) then Inl Undefined_behaviour
        else Inr (ret, b1\<lparr>mBuffer := poke (mBuffer b1) (iov_base iov) bs\<rparr>, s1)))"

(* net/SockStream.cc 49: SockStream::write *)
definition st_write_bytearray :: "nat \<Rightarrow> byte_array \<Rightarrow> byte sock_stream \<Rightarrow> int \<times> byte_array \<times> byte sock_stream" where
  "st_write_bytearray len b s =
     (if \<not> st_isConnected s then (- 1, b, s)
      else
        let (iov, _, b1) = GetReadBuffer len b;
            (ret, s1) = st_write (peek (mBuffer b) (iov_base iov) (iov_len iov)) s in
        (ret, b1, s1))"

definition int64_of_size :: "nat \<Rightarrow> int" where
  "int64_of_size n = (if n < 2 ^ 63 then int n else int n - 2 ^ 64)"

definition int_of_size :: "nat \<Rightarrow> int" where
  "int_of_size n = sint (word_of_nat n :: u32)"

function read_loop :: "(nat \<Rightarrow> 's \<Rightarrow> int \<times> 'x list \<times> 's) \<Rightarrow> int \<Rightarrow> 'x list \<Rightarrow> 's
    \<Rightarrow> int option \<times> 'x list \<times> 's" where
  "read_loop rd left acc s =
     (if left \<le> 0 then (None, acc, s)
      else case rd (nat left) s of (len, bs, s') \<Rightarrow>
        if len \<le> 0 then (Some len, acc, s') else read_loop rd (left - len) (acc @ bs) s')"
  by pat_completeness auto
termination
  by (relation "measure (\<lambda>(rd, left, acc, s). nat left)") auto

declare read_loop.simps [simp del]

(* net/Stream.cc 7: Stream::readFixSize *)
definition readFixSize :: "(nat \<Rightarrow> 's \<Rightarrow> int \<times> 'x list \<times> 's) \<Rightarrow> nat \<Rightarrow> 's \<Rightarrow> int \<times> 'x list \<times> 's" where
  "readFixSize rd len s =
     (case read_loop rd (int64_of_size len) [] s of
        (None, bs, s') \<Rightarrow> (int_of_size len, bs, s')
      | (Some err, bs, s') \<Rightarrow> (err, bs, s'))"

function write_loop :: "('x list \<Rightarrow> 's \<Rightarrow> int \<times> 's) \<Rightarrow> int \<Rightarrow> 'x list \<Rightarrow> 's \<Rightarrow> int option \<times> 's" where
  "write_loop wr left data s =
     (if left \<le> 0 then (None, s)
      else case wr data s of (len, s') \<Rightarrow>
        if len \<le> 0 then (Some len, s') else write_loop wr (left - len) (drop (nat len) data) s')"
  by pat_completeness auto
termination
  by (relation "measure (\<lambda>(wr, left, data, s). nat left)") auto

declare write_loop.simps [simp del]

(* net/Stream.cc 39: Stream::writeFixSize *)
definition writeFixSize :: "('x list \<Rightarrow> 's \<Rightarrow> int \<times> 's) \<Rightarrow> 'x list \<Rightarrow> 's \<Rightarrow> int \<times> 's" where
  "writeFixSize wr data s =
     (case write_loop wr (int64_of_size (length data)) data s of
        (None, s') \<Rightarrow> (int_of_size (length data), s')
      | (Some err, s') \<Rightarrow> (err, s'))"

function read_bytearray_loop :: "int \<Rightarrow> byte_array \<Rightarrow> byte sock_stream
    \<Rightarrow> (int option \<times> byte_array \<times> byte sock_stream) result" where
  "read_bytearray_loop left b s =
     (if left \<le> 0 then Inr (None, b, s)
      else case st_read_bytearray (nat left) b s of
        Inl e \<Rightarrow> Inl e
      | Inr (len, b', s') \<Rightarrow>
          if len \<le> 0 then Inr (Some len, b', s') else read_bytearray_loop (left - len) b' s')"
  by pat_completeness auto
termination
  by (relation "measure (\<lambda>(left, b, s). nat left)") auto

declare read_bytearray_loop.simps [simp del]

(* net/Stream.cc 24: Stream::readFixSize *)
definition readFixSize_bytearray :: "byte_array \<Rightarrow> nat \<Rightarrow> byte sock_stream
    \<Rightarrow> (int \<times> byte_array \<times> byte sock_stream) result" where
  "readFixSize_bytearray b len s =
     rbind (read_bytearray_loop (int64_of_size len) b s) (\<lambda>(r, b', s').
       Inr (case r of None \<Rightarrow> int_of_size len | Some err \<Rightarrow> err, b', s'))"

function write_bytearray_loop :: "int \<Rightarrow> byte_array \<Rightarrow> byte sock_stream
    \<Rightarrow> int option \<times> byte_array \<times> byte sock_stream" where
  "write_bytearray_loop left b s =
     (if left \<le> 0 then (None, b, s)
      else case st_write_bytearray (nat left) b s of (len, b', s') \<Rightarrow>
        if len \<le> 0 then (Some len, b', s') else write_bytearray_loop (left - len) b' s')"
  by pat_completeness auto
termination
  by (relation "measure (\<lambda>(left, b, s). nat left)") auto

declare write_bytearray_loop.simps [simp del]

(* net/Stream.cc 56: Stream::writeFixSize *)
definition writeFixSize_bytearray :: "byte_array \<Rightarrow> nat \<Rightarrow> byte sock_stream
    \<Rightarrow> int \<times> byte_array \<times> byte sock_stream" where
  "writeFixSize_bytearray b len s =
     (case write_bytearray_loop (int64_of_size len) b s of
        (None, b', s') \<Rightarrow> (int_of_size len, b', s')
      | (Some err, b', s') \<Rightarrow> (err, b', s'))"

section \<open>Sources and sinks\<close>

lemma int_of_size_small: "n < 2 ^ 31 \<Longrightarrow> int_of_size n = int n"
  by (simp add: int_of_size_def signed_of_nat signed_take_bit_int_eq_self)

locale source =
  fixes rd :: "nat \<Rightarrow> 's \<Rightarrow> int \<times> 'x list \<times> 's"
    and remaining :: "'s \<Rightarrow> 'x list"
    and ok :: "'s \<Rightarrow> bool"
  assumes rd_ok: "ok s \<Longrightarrow> 0 < n \<Longrightarrow> rd n s = (len, bs, s') \<Longrightarrow>
      ok s' \<and> len = int (length bs) \<and> length bs \<le> n \<and> remaining s = bs @ remaining s'
      \<and> (bs = [] \<longrightarrow> remaining s = [])"
begin

lemma read_loop_spec:
  "ok s \<Longrightarrow> \<exists>r s'. read_loop rd (int n) acc s = (r, acc @ take n (remaining s), s') \<and> ok s'
     \<and> remaining s' = drop n (remaining s) \<and> r = (if n \<le> length (remaining s) then None else Some 0)"
proof (induction n arbitrary: acc s rule: less_induct)
  case (less n)
  show ?case
  proof (cases "n = 0")
    case True
    then show ?thesis using less.prems by (simp add: read_loop.simps)
  next
    case False
    obtain len bs s' where r: "rd n s = (len, bs, s')" by (metis surj_pair)
    have n: "0 < n" using False by simp
    note c = rd_ok [OF less.prems n r]
    show ?thesis
    proof (cases "bs = []")
      case True
      then have "remaining s = []" "remaining s' = []" "ok s'" "len = 0" using c by auto
      then show ?thesis using r False True by (subst read_loop.simps) simp
    next
      case nonempty: False
      let ?m = "n - length bs"
      have "?m < n" using nonempty n by simp
      from less.IH [OF this, of s' "acc @ bs"] c obtain r' s'' where
        i: "read_loop rd (int ?m) (acc @ bs) s' = (r', (acc @ bs) @ take ?m (remaining s'), s'')" "ok s''"
          "remaining s'' = drop ?m (remaining s')" "r' = (if ?m \<le> length (remaining s') then None else Some 0)"
        by blast
      have "read_loop rd (int n) acc s = read_loop rd (int n - len) (acc @ bs) s'"
        using False nonempty r c by (subst read_loop.simps) simp
      moreover have "int n - len = int ?m" using c by simp
      ultimately show ?thesis using i c by auto
    qed
  qed
qed

lemma readFixSize_spec:
  assumes "ok s" "n < 2 ^ 31"
  shows "\<exists>s'. readFixSize rd n s = (if n \<le> length (remaining s) then int n else 0, take n (remaining s), s')
     \<and> ok s' \<and> remaining s' = drop n (remaining s)"
  using read_loop_spec [OF assms(1), of n "[]"] assms(2)
  by (auto simp: readFixSize_def int64_of_size_def int_of_size_small)

end

locale sink =
  fixes wr :: "'x list \<Rightarrow> 's \<Rightarrow> int \<times> 's"
    and sent :: "'s \<Rightarrow> 'x list"
    and ok :: "'s \<Rightarrow> bool"
  assumes wr_ok: "ok s \<Longrightarrow> data \<noteq> [] \<Longrightarrow> wr data s = (len, s') \<Longrightarrow>
      ok s' \<and> 0 < len \<and> len \<le> int (length data) \<and> sent s' = sent s @ take (nat len) data"
begin

lemma write_loop_spec:
  "ok s \<Longrightarrow> \<exists>s'. write_loop wr (int (length data)) data s = (None, s') \<and> ok s' \<and> sent s' = sent s @ data"
proof (induction data arbitrary: s rule: length_induct)
  case (1 data)
  show ?case
  proof (cases "data = []")
    case True
    then show ?thesis using 1 by (simp add: write_loop.simps)
  next
    case False
    obtain len s' where w: "wr data s = (len, s')" by (metis surj_pair)
    note c = wr_ok [OF "1.prems" False w]
    let ?d = "drop (nat len) data"
    have "length ?d < length data" using c False by simp
    with "1.IH" c obtain s'' where i: "write_loop wr (int (length ?d)) ?d s' = (None, s'')" "ok s''"
        "sent s'' = sent s' @ ?d" by blast
    have "write_loop wr (int (length data)) data s = write_loop wr (int (length data) - len) ?d s'"
      using False w c by (subst write_loop.simps) simp
    moreover have "int (length data) - len = int (length ?d)" using c by (simp add: nat_le_iff)
    moreover have "sent s'' = sent s @ data" using i(3) c by simp
    ultimately show ?thesis using i by auto
  qed
qed

lemma writeFixSize_spec:
  assumes "ok s" "length data < 2 ^ 31"
  shows "\<exists>s'. writeFixSize wr data s = (int (length data), s') \<and> ok s' \<and> sent s' = sent s @ data"
  using write_loop_spec [OF assms(1), of data] assms(2)
  by (auto simp: writeFixSize_def int64_of_size_def int_of_size_small)

end

definition in_ok :: "'x sock_stream \<Rightarrow> bool" where
  "in_ok s \<longleftrightarrow> st_isConnected s \<and> [] \<notin> set (c_in (st_conn s))"

definition in_data :: "'x sock_stream \<Rightarrow> 'x list" where
  "in_data s = concat (c_in (st_conn s))"

definition out_ok :: "'x sock_stream \<Rightarrow> bool" where
  "out_ok s \<longleftrightarrow> st_isConnected s \<and> 0 \<notin> set (c_caps (st_conn s))"

definition out_data :: "'x sock_stream \<Rightarrow> 'x list" where
  "out_data s = c_out (st_conn s)"

lemma connected_sock: "st_isConnected s \<Longrightarrow> \<exists>k. st_sock s = Some k \<and> isConnected k"
  by (auto simp: st_isConnected_def split: option.splits)

interpretation src: source st_read in_data in_ok
proof unfold_locales
  fix s s' :: "'x sock_stream" and n len bs
  assume a: "in_ok s" "0 < n" "st_read n s = (len, bs, s')"
  obtain k where k: "st_sock s = Some k" "isConnected k" using a(1) connected_sock by (auto simp: in_ok_def)
  show "in_ok s' \<and> len = int (length bs) \<and> length bs \<le> n \<and> in_data s = bs @ in_data s' \<and> (bs = [] \<longrightarrow> in_data s = [])"
    using a k by (cases "c_in (st_conn s)")
      (auto simp: in_ok_def in_data_def st_read_def recv_def st_isConnected_def split: if_splits)
qed

interpretation snk: sink st_write out_data out_ok
proof unfold_locales
  fix s s' :: "'x sock_stream" and data len
  assume a: "out_ok s" "data \<noteq> []" "st_write data s = (len, s')"
  obtain k where k: "st_sock s = Some k" "isConnected k" using a(1) connected_sock by (auto simp: out_ok_def)
  show "out_ok s' \<and> 0 < len \<and> len \<le> int (length data) \<and> out_data s' = out_data s @ take (nat len) data"
    using a k by (cases "c_caps (st_conn s)")
      (auto simp: out_ok_def out_data_def st_write_def send_def st_isConnected_def Let_def)
qed

section \<open>Properties\<close>

text \<open>
  Fixed-size reads.  On a connected stream, reading \<open>n\<close> bytes returns \<open>n\<close> and exactly
  the next \<open>n\<close> bytes of what the peer sends, in order and however it is cut into
  segments, leaving the rest to be read; if the peer sends fewer before closing it
  returns 0.
\<close>

theorem readFixSize_exact:
  assumes "in_ok s" "n < 2 ^ 31"
  shows "\<exists>s'. readFixSize st_read n s = (if n \<le> length (in_data s) then int n else 0, take n (in_data s), s')
     \<and> in_ok s' \<and> in_data s' = drop n (in_data s)"
  using assms by (rule src.readFixSize_spec)

definition demo_stream :: "char list list \<Rightarrow> char sock_stream" where
  "demo_stream segs = SockStream_ctor (Some (CreateTCPSocket\<lparr>socketfd := 3, isConnected := True\<rparr>)) True
     \<lparr>c_in = segs, c_out = [], c_caps = [1, 2]\<rparr>"

theorem readFixSize_exact_witness:
  "\<exists>s'. readFixSize st_read 4 (demo_stream [''he'', ''llo'']) = (4, ''hell'', s') \<and> in_data s' = ''o''"
proof -
  have "in_ok (demo_stream [''he'', ''llo''])" "in_data (demo_stream [''he'', ''llo'']) = ''hello''"
    by (simp_all add: in_ok_def in_data_def demo_stream_def SockStream_ctor_def st_isConnected_def)
  then show ?thesis using readFixSize_exact [of "demo_stream [''he'', ''llo'']" 4] by auto
qed

text \<open>
  Fixed-size writes.  On a connected stream whose \<^verbatim>\<open>send\<close> accepts at least one byte at
  a time, writing a block returns its length and sends exactly the block, whatever
  part of it each call accepts.
\<close>

theorem writeFixSize_exact:
  assumes "out_ok s" "length data < 2 ^ 31"
  shows "\<exists>s'. writeFixSize st_write data s = (int (length data), s') \<and> out_ok s' \<and> out_data s' = out_data s @ data"
  using assms by (rule snk.writeFixSize_spec)

theorem writeFixSize_exact_witness:
  "\<exists>s'. writeFixSize st_write ''hello'' (demo_stream []) = (5, s') \<and> out_data s' = ''hello''"
proof -
  have "out_ok (demo_stream [])" "out_data (demo_stream []) = []"
    by (simp_all add: out_ok_def out_data_def demo_stream_def SockStream_ctor_def st_isConnected_def)
  then show ?thesis using writeFixSize_exact [of "demo_stream []" "''hello''"] by auto
qed

end
