(* ===== verification/HttpParser.thy ===== *)
theory HttpParser
  imports Http
begin

text \<open>
  The HTTP parser front ends (\<^verbatim>\<open>qslary/http/HttpParser.h\<close>, \<^verbatim>\<open>HttpParser.cc\<close>) over the
  generated scanners.  A scanner is a record of functions: its initial state, a run
  over a buffer that gives the callbacks it makes, in order, its next state and how
  many bytes it consumed, and the two status functions.  A callback has what it is
  passed: the buffer from the element on, and the element's length (some callbacks read
  past it).  \<^verbatim>\<open>boost::lexical_cast\<close> is an argument.
\<close>

section \<open>Definitions\<close>

record ('p, 'e) scanner =
  sc_init :: 'p
  sc_execute :: "'p \<Rightarrow> string \<Rightarrow> 'e list \<times> 'p \<times> nat"
  sc_finish :: "'p \<Rightarrow> int"
  sc_has_error :: "'p \<Rightarrow> bool"

definition strncmp_eq :: "string \<Rightarrow> string \<Rightarrow> nat \<Rightarrow> bool" where
  "strncmp_eq a b n \<longleftrightarrow> take n (c_str a @ [NUL]) = take n (c_str b @ [NUL])"

fun digits_value :: "int \<Rightarrow> string \<Rightarrow> int" where
  "digits_value acc [] = acc"
| "digits_value acc (c # cs) = (if is_digit c then digits_value (acc * 10 + (of_char c - 48)) cs else acc)"

definition atoi :: "string \<Rightarrow> int" where
  "atoi s =
     (case dropWhile is_space (c_str s) of
        [] \<Rightarrow> 0
      | c # cs \<Rightarrow> if c = CHR ''-'' then - digits_value 0 cs
                 else if c = CHR ''+'' then digits_value 0 cs else digits_value 0 (c # cs))"

text \<open>The version an element spells, as both parsers read it.\<close>

definition read_version :: "string \<Rightarrow> nat \<Rightarrow> u8 option" where
  "read_version at len =
     (if strncmp_eq at ''HTTP/1.1'' len then Some 0x11
      else if strncmp_eq at ''HTTP/1.0'' len then Some 0x10 else None)"

subsection \<open>Requests\<close>

datatype request_event =
    On_request_method string nat
  | On_request_uri string nat
  | On_request_fragment string nat
  | On_request_path string nat
  | On_request_query string nat
  | On_request_version string nat
  | On_request_header_done string nat
  | On_request_http_field string nat string nat

(* http/HttpParser.h 40-43: HttpRequestParser *)
record 'p request_parser =
  rp_parser :: 'p
  rp_data :: http_request
  rp_error :: int

(* http/HttpParser.cc 10: on_request_method *)
definition on_request_method :: "string \<Rightarrow> nat \<Rightarrow> 'p request_parser \<Rightarrow> 'p request_parser" where
  "on_request_method at len p =
     (let m = CharsToHttpMethod at in
      if m = method_UNKNOW then p\<lparr>rp_error := 1000\<rparr> else p\<lparr>rp_data := (rp_data p)\<lparr>rq_method := m\<rparr>\<rparr>)"

(* http/HttpParser.cc 25: on_request_fragment *)
definition on_request_fragment :: "string \<Rightarrow> nat \<Rightarrow> 'p request_parser \<Rightarrow> 'p request_parser" where
  "on_request_fragment at len p = p\<lparr>rp_data := (rp_data p)\<lparr>rq_fragment := take len at\<rparr>\<rparr>"

(* http/HttpParser.cc 31: on_request_path *)
definition on_request_path :: "string \<Rightarrow> nat \<Rightarrow> 'p request_parser \<Rightarrow> 'p request_parser" where
  "on_request_path at len p = p\<lparr>rp_data := (rp_data p)\<lparr>rq_path := take len at\<rparr>\<rparr>"

(* http/HttpParser.cc 37: on_request_query *)
definition on_request_query :: "string \<Rightarrow> nat \<Rightarrow> 'p request_parser \<Rightarrow> 'p request_parser" where
  "on_request_query at len p = p\<lparr>rp_data := (rp_data p)\<lparr>rq_query := take len at\<rparr>\<rparr>"

(* http/HttpParser.cc 43: on_request_version *)
definition on_request_version :: "string \<Rightarrow> nat \<Rightarrow> 'p request_parser \<Rightarrow> 'p request_parser" where
  "on_request_version at len p =
     (case read_version at len of
        None \<Rightarrow> p\<lparr>rp_error := 1001\<rparr>
      | Some v \<Rightarrow> p\<lparr>rp_data := (rp_data p)\<lparr>rq_version := v\<rparr>\<rparr>)"

(* http/HttpParser.cc 67: on_request_http_field *)
definition on_request_http_field :: "string \<Rightarrow> nat \<Rightarrow> string \<Rightarrow> nat \<Rightarrow> 'p request_parser \<Rightarrow> 'p request_parser" where
  "on_request_http_field field flen val vlen p =
     (if flen = 0 then p
      else p\<lparr>rp_data := rq_setHeaderEntry (take flen field) (take vlen val) (rp_data p)\<rparr>)"

(* http/HttpParser.cc 83-91: HttpRequestParser::HttpRequestParser, the callbacks *)
fun request_callback :: "request_event \<Rightarrow> 'p request_parser \<Rightarrow> 'p request_parser" where
  "request_callback (On_request_method at len) p = on_request_method at len p"
| "request_callback (On_request_uri at len) p = p"
| "request_callback (On_request_fragment at len) p = on_request_fragment at len p"
| "request_callback (On_request_path at len) p = on_request_path at len p"
| "request_callback (On_request_query at len) p = on_request_query at len p"
| "request_callback (On_request_version at len) p = on_request_version at len p"
| "request_callback (On_request_header_done at len) p = p"
| "request_callback (On_request_http_field f flen v vlen) p = on_request_http_field f flen v vlen p"

(* http/HttpParser.cc 79: HttpRequestParser::HttpRequestParser *)
definition HttpRequestParser_ctor :: "('p, request_event) scanner \<Rightarrow> 'p request_parser" where
  "HttpRequestParser_ctor sc = \<lparr>rp_parser = sc_init sc, rp_data = HttpRequest_default, rp_error = 0\<rparr>"

(* http/HttpParser.cc 94: HttpRequestParser::getContentLength *)
definition rp_getContentLength :: "(string \<Rightarrow> u64 option) \<Rightarrow> 'p request_parser \<Rightarrow> u64" where
  "rp_getContentLength lexical_cast p = snd (rq_getHeaderEntryAs lexical_cast ''content-length'' 0 (rp_data p))"

(* http/HttpParser.cc 101: HttpRequestParser::execute *)
definition rp_execute :: "('p, request_event) scanner \<Rightarrow> string \<Rightarrow> 'p request_parser
    \<Rightarrow> nat \<times> string \<times> 'p request_parser" where
  "rp_execute sc data p =
     (let (events, q, offset) = sc_execute sc (rp_parser p) data in
      (offset, drop offset data, fold request_callback events (p\<lparr>rp_parser := q\<rparr>)))"

(* http/HttpParser.cc 108: HttpRequestParser::isFinished *)
definition rp_isFinished :: "('p, request_event) scanner \<Rightarrow> 'p request_parser \<Rightarrow> int" where
  "rp_isFinished sc p = sc_finish sc (rp_parser p)"

(* http/HttpParser.cc 110: HttpRequestParser::hasError *)
definition rp_hasError :: "('p, request_event) scanner \<Rightarrow> 'p request_parser \<Rightarrow> bool" where
  "rp_hasError sc p \<longleftrightarrow> rp_error p \<noteq> 0 \<or> sc_has_error sc (rp_parser p)"

subsection \<open>Responses\<close>

datatype response_event =
    On_response_reason string nat
  | On_response_status string nat
  | On_response_chunk string nat
  | On_response_version string nat
  | On_response_header_done string nat
  | On_response_last_chunk string nat
  | On_response_http_field string nat string nat

(* http/HttpParser.h 70-73: HttpResponseParser *)
record 'p response_parser =
  sp_parser :: 'p
  sp_data :: http_response
  sp_error :: int

(* http/HttpParser.cc 118: on_response_reason *)
definition on_response_reason :: "string \<Rightarrow> nat \<Rightarrow> 'p response_parser \<Rightarrow> 'p response_parser" where
  "on_response_reason at len p = p\<lparr>sp_data := (sp_data p)\<lparr>rs_reason := take len at\<rparr>\<rparr>"

(* http/HttpParser.cc 124: on_response_status *)
definition on_response_status :: "string \<Rightarrow> nat \<Rightarrow> 'p response_parser \<Rightarrow> 'p response_parser" where
  "on_response_status at len p = p\<lparr>sp_data := (sp_data p)\<lparr>rs_status := nat (atoi at)\<rparr>\<rparr>"

(* http/HttpParser.cc 133: on_response_version *)
definition on_response_version :: "string \<Rightarrow> nat \<Rightarrow> 'p response_parser \<Rightarrow> 'p response_parser" where
  "on_response_version at len p =
     (case read_version at len of
        None \<Rightarrow> p\<lparr>sp_error := 1001\<rparr>
      | Some v \<Rightarrow> p\<lparr>sp_data := (sp_data p)\<lparr>rs_version := v\<rparr>\<rparr>)"

(* http/HttpParser.cc 158: on_response_http_field *)
definition on_response_http_field :: "string \<Rightarrow> nat \<Rightarrow> string \<Rightarrow> nat \<Rightarrow> 'p response_parser \<Rightarrow> 'p response_parser" where
  "on_response_http_field field flen val vlen p =
     (if flen = 0 then p
      else p\<lparr>sp_data := rs_setHeaderEntry (take flen field) (take vlen val) (sp_data p)\<rparr>)"

(* http/HttpParser.cc 174-181: HttpResponseParser::HttpResponseParser, the callbacks *)
fun response_callback :: "response_event \<Rightarrow> 'p response_parser \<Rightarrow> 'p response_parser" where
  "response_callback (On_response_reason at len) p = on_response_reason at len p"
| "response_callback (On_response_status at len) p = on_response_status at len p"
| "response_callback (On_response_chunk at len) p = p"
| "response_callback (On_response_version at len) p = on_response_version at len p"
| "response_callback (On_response_header_done at len) p = p"
| "response_callback (On_response_last_chunk at len) p = p"
| "response_callback (On_response_http_field f flen v vlen) p = on_response_http_field f flen v vlen p"

(* http/HttpParser.cc 170: HttpResponseParser::HttpResponseParser *)
definition HttpResponseParser_ctor :: "('p, response_event) scanner \<Rightarrow> 'p response_parser" where
  "HttpResponseParser_ctor sc = \<lparr>sp_parser = sc_init sc, sp_data = HttpResponse_default, sp_error = 0\<rparr>"

(* http/HttpParser.cc 184: HttpResponseParser::execute *)
definition sp_execute :: "('p, response_event) scanner \<Rightarrow> string \<Rightarrow> bool \<Rightarrow> 'p response_parser
    \<Rightarrow> nat \<times> string \<times> 'p response_parser" where
  "sp_execute sc data chunck p =
     (let p1 = (if chunck then p\<lparr>sp_parser := sc_init sc\<rparr> else p);
          (events, q, offset) = sc_execute sc (sp_parser p1) data in
      (offset, drop offset data, fold response_callback events (p1\<lparr>sp_parser := q\<rparr>)))"

(* http/HttpParser.cc 196: HttpResponseParser::isFinished *)
definition sp_isFinished :: "('p, response_event) scanner \<Rightarrow> 'p response_parser \<Rightarrow> int" where
  "sp_isFinished sc p = sc_finish sc (sp_parser p)"

(* http/HttpParser.cc 201: HttpResponseParser::hasError *)
definition sp_hasError :: "('p, response_event) scanner \<Rightarrow> 'p response_parser \<Rightarrow> bool" where
  "sp_hasError sc p \<longleftrightarrow> sp_error p \<noteq> 0 \<or> sc_has_error sc (sp_parser p)"

(* http/HttpParser.cc 206: HttpResponseParser::getContentLength *)
definition sp_getContentLength :: "(string \<Rightarrow> u64 option) \<Rightarrow> 'p response_parser \<Rightarrow> u64" where
  "sp_getContentLength lexical_cast p = snd (rs_getHeaderEntryAs lexical_cast ''content-length'' 0 (sp_data p))"

section \<open>Lemmas\<close>

lemma request_callback_headers:
  "smap CaseInsensitiveLess (rq_headers (rp_data p)) \<Longrightarrow>
   smap CaseInsensitiveLess (rq_headers (rp_data (request_callback e p)))"
  by (cases e) (auto simp: on_request_method_def on_request_fragment_def on_request_path_def on_request_query_def
      on_request_version_def on_request_http_field_def rq_setHeaderEntry_def ci.smap_put_smap Let_def split: option.splits)

lemma request_callbacks_headers:
  "smap CaseInsensitiveLess (rq_headers (rp_data p)) \<Longrightarrow>
   smap CaseInsensitiveLess (rq_headers (rp_data (fold request_callback es p)))"
  by (induction es arbitrary: p) (simp_all add: request_callback_headers)

text \<open>An error, once set, is not cleared by later callbacks.\<close>

lemma request_callback_error: "rp_error p \<noteq> 0 \<Longrightarrow> rp_error (request_callback e p) \<noteq> 0"
  by (cases e) (auto simp: on_request_method_def on_request_fragment_def on_request_path_def on_request_query_def
      on_request_version_def on_request_http_field_def Let_def split: option.splits)

lemma request_callbacks_error: "rp_error p \<noteq> 0 \<Longrightarrow> rp_error (fold request_callback es p) \<noteq> 0"
  by (induction es arbitrary: p) (simp_all add: request_callback_error)

lemma rp_execute_headers:
  "rp_execute sc data p = (n, rest, p') \<Longrightarrow> smap CaseInsensitiveLess (rq_headers (rp_data p)) \<Longrightarrow>
   smap CaseInsensitiveLess (rq_headers (rp_data p'))"
  by (auto simp: rp_execute_def split: prod.splits intro!: request_callbacks_headers)

end
