(* ===== verification/HttpServer.thy ===== *)
theory HttpServer
  imports HttpParser Servlet SockStream
begin

text \<open>
  The server side of HTTP (\<^verbatim>\<open>qslary/http/HttpSession.h\<close>, \<^verbatim>\<open>HttpSession.cc\<close>,
  \<^verbatim>\<open>HttpServer.h\<close>, \<^verbatim>\<open>HttpServer.cc\<close>): receiving a request from a socket stream,
  sending a response, and the loop that serves a client.  The scanner and
  \<^verbatim>\<open>boost::lexical_cast\<close> are arguments.  The receive loop and the client loop have
  fuel, \<open>None\<close> being a run that did not end within it; a lemma gives enough of it for
  the receive loop.  Allocation of the body is assumed to succeed.
\<close>

section \<open>Definitions\<close>

type_synonym session = "char sock_stream"

definition buff_size :: nat where
  "buff_size = 65532"

text \<open>
  The loop of \<^verbatim>\<open>recvRequest\<close>.  \<open>data\<close> are the bytes at the front of the buffer that
  the parser has not consumed; the result is the parser and the bytes left over when
  it finished, or null after the session was closed.
\<close>

(* http/HttpSession.cc 27-54: HttpSession::recvRequest, the loop *)
fun recv_loop :: "('p, request_event) scanner \<Rightarrow> nat \<Rightarrow> 'p request_parser \<Rightarrow> string \<Rightarrow> session
    \<Rightarrow> (('p request_parser \<times> string) option \<times> session) option" where
  "recv_loop sc 0 parser data s = None"
| "recv_loop sc (Suc fuel) parser data s =
     (case st_read (buff_size - length data) s of (n, bs, s1) \<Rightarrow>
        if n \<le> 0 then Some (None, st_close s1)
        else
          let (nparse, rest, parser1) = rp_execute sc (data @ bs) parser in
          if rp_hasError sc parser1 then Some (None, st_close s1)
          else if length rest = buff_size then Some (None, st_close s1)
          else if rp_isFinished sc parser1 \<noteq> 0 then Some (Some (parser1, rest), s1)
          else recv_loop sc fuel parser1 rest s1)"

definition int64_of_u64 :: "u64 \<Rightarrow> int" where
  "int64_of_u64 v = sint v"

(* http/HttpSession.cc 55-83: HttpSession::recvRequest, the body *)
definition recv_body :: "int \<Rightarrow> string \<Rightarrow> session \<Rightarrow> string option \<times> session" where
  "recv_body length' rest s =
     (let offset = int (length rest);
          copied = (if length' \<ge> offset then rest else take (nat length') rest);
          missing = length' - offset in
      if missing > 0
      then (case readFixSize st_read (nat missing) s of (r, bs, s1) \<Rightarrow>
              if r \<le> 0 then (None, st_close s1) else (Some (copied @ bs), s1))
      else (Some copied, s))"

(* http/HttpSession.cc 16: HttpSession::recvRequest *)
definition recvRequest :: "('p, request_event) scanner \<Rightarrow> (string \<Rightarrow> u64 option) \<Rightarrow> nat \<Rightarrow> session
    \<Rightarrow> (http_request option \<times> session) option" where
  "recvRequest sc lexical_cast fuel s =
     (case recv_loop sc fuel (HttpRequestParser_ctor sc) [] s of
        None \<Rightarrow> None
      | Some (None, s1) \<Rightarrow> Some (None, s1)
      | Some (Some (parser, rest), s1) \<Rightarrow>
          let len = int64_of_u64 (rp_getContentLength lexical_cast parser) in
          if len > 0
          then (case recv_body len rest s1 of
                  (None, s2) \<Rightarrow> Some (None, s2)
                | (Some body, s2) \<Rightarrow> Some (Some (rq_init ((rp_data parser)\<lparr>rq_body := body\<rparr>)), s2))
          else Some (Some (rq_init (rp_data parser)), s1))"

(* http/HttpSession.cc 90: HttpSession::sendResponse *)
definition sendResponse :: "http_response \<Rightarrow> session \<Rightarrow> int \<times> session" where
  "sendResponse response s =
     (let data = rs_dump response; (_, s1) = writeFixSize st_write data s in (int_of_size (length data), s1))"

(* http/HttpSession.cc 13: HttpSession::HttpSession *)
definition HttpSession_ctor :: "socket \<Rightarrow> bool \<Rightarrow> char connection \<Rightarrow> session" where
  "HttpSession_ctor sock ower c = SockStream_ctor (Some sock) ower c"

(* http/HttpServer.h 30-32: HttpServer *)
record http_server =
  keepAlive :: bool
  dispatch :: "session servlet"

(* http/HttpServer.cc 8: HttpServer::HttpServer *)
definition HttpServer_ctor :: "bool \<Rightarrow> http_server" where
  "HttpServer_ctor keep = \<lparr>keepAlive = keep, dispatch = ServletDispatch_ctor\<rparr>"

(* http/HttpServer.cc 19-47: HttpServer::handleClient, the loop *)
fun client_loop :: "('p, request_event) scanner \<Rightarrow> (string \<Rightarrow> u64 option) \<Rightarrow> http_server \<Rightarrow> nat \<Rightarrow> nat \<Rightarrow> session
    \<Rightarrow> session result option" where
  "client_loop sc lexical_cast srv 0 fuel s = None"
| "client_loop sc lexical_cast srv (Suc rounds) fuel s =
     (case recvRequest sc lexical_cast fuel s of
        None \<Rightarrow> None
      | Some (None, s1) \<Rightarrow> Some (Inl Assert_failed)
      | Some (Some request, s1) \<Rightarrow>
          let response = HttpResponse_ctor status_OK (rq_version request) (rq_close request \<or> \<not> keepAlive srv) in
          (case servlet_handle (dispatch srv) (request, response, s1) of
             Inl e \<Rightarrow> Some (Inl e)
           | Inr (_, _, response1, s2) \<Rightarrow>
               let (_, s3) = sendResponse response1 s2 in
               if \<not> keepAlive srv \<or> rs_close response1 then Some (Inr s3)
               else client_loop sc lexical_cast srv rounds fuel s3))"

(* http/HttpServer.cc 15: HttpServer::handleClient *)
definition handleClient :: "('p, request_event) scanner \<Rightarrow> (string \<Rightarrow> u64 option) \<Rightarrow> http_server \<Rightarrow> nat \<Rightarrow> nat
    \<Rightarrow> socket \<Rightarrow> char connection \<Rightarrow> session result option" where
  "handleClient sc lexical_cast srv rounds fuel client c =
     map_option (\<lambda>r. rbind r (\<lambda>s. Inr (st_close s)))
       (client_loop sc lexical_cast srv rounds fuel (HttpSession_ctor client False c))"

section \<open>Lemmas\<close>

lemma st_read_consumes:
  assumes "in_ok s" "0 < n" "st_read n s = (len, bs, s')" "0 < len"
  shows "in_ok s'" "length (in_data s') < length (in_data s)"
  using src.rd_ok [OF assms(1-3)] assms(4) by auto

text \<open>The receive loop ends once for every byte that arrives, and once more.\<close>

lemma recv_loop_ends:
  "in_ok s \<Longrightarrow> length data < buff_size \<Longrightarrow> length (in_data s) < fuel \<Longrightarrow>
   recv_loop sc fuel parser data s \<noteq> None"
proof (induction fuel arbitrary: parser data s)
  case (Suc fuel)
  obtain n bs s1 where r: "st_read (buff_size - length data) s = (n, bs, s1)" by (metis surj_pair)
  show ?case
  proof (cases "n \<le> 0")
    case True
    then show ?thesis using r by simp
  next
    case False
    obtain nparse rest parser1 where e: "rp_execute sc (data @ bs) parser = (nparse, rest, parser1)" by (metis surj_pair)
    have c: "in_ok s1" "length (in_data s1) < length (in_data s)"
      using st_read_consumes [OF Suc.prems(1) _ r] False Suc.prems(2) by auto
    have "length bs \<le> buff_size - length data" using src.rd_ok [OF Suc.prems(1) _ r] Suc.prems(2) by simp
    then have "length rest \<le> buff_size"
      using e Suc.prems(2) by (auto simp: rp_execute_def split: prod.splits)
    then have "length rest \<noteq> buff_size \<Longrightarrow> recv_loop sc fuel parser1 rest s1 \<noteq> None"
      using c Suc.prems(3) by (intro Suc.IH) auto
    then show ?thesis using r False e by (auto simp: Let_def)
  qed
qed simp

lemma recvRequest_ends:
  assumes "in_ok s" "length (in_data s) < fuel"
  shows "recvRequest sc lexical_cast fuel s \<noteq> None"
  using recv_loop_ends [of s "[]" fuel sc "HttpRequestParser_ctor sc"] assms
  by (cases "recv_loop sc fuel (HttpRequestParser_ctor sc) [] s")
    (auto simp: recvRequest_def buff_size_def Let_def split: option.splits prod.splits)

lemma sendResponse_spec:
  assumes "out_ok s" "length (rs_dump r) < 2 ^ 31"
  shows "\<exists>s'. sendResponse r s = (int (length (rs_dump r)), s') \<and> out_ok s' \<and> out_data s' = out_data s @ rs_dump r"
  using snk.writeFixSize_spec [OF assms] assms(2) by (auto simp: sendResponse_def Let_def int_of_size_small)

lemma st_close_not_connected [simp]: "\<not> st_isConnected (st_close s)"
  by (simp add: st_isConnected_def st_close_def split: option.splits)

lemma out_data_close [simp]: "out_data (st_close s) = out_data s"
  by (simp add: out_data_def st_close_def)

text \<open>The not-found answer of a new dispatcher to a request of some version.\<close>

definition not_found_answer :: "u8 \<Rightarrow> http_response" where
  "not_found_answer version =
     (let r = rs_setHeaderEntry ''Content-Type'' ''text/html'' (rs_setHeaderEntry ''Server'' ''sylar/1.0.0''
           ((HttpResponse_ctor status_OK version True)\<lparr>rs_status := status_NOT_FOUND\<rparr>)) in
      r\<lparr>rs_body := NotFoundServlet_content ''NotFound''\<rparr>)"

lemma length_version_text: "length (version_text v) \<le> 600"
proof -
  have "unat (drop_bit 4 v) < 256" "unat (v AND 15) < 256" using unat_bound [of "drop_bit 4 v"] unat_bound [of "v AND 15"]
    by simp_all
  then show ?thesis
    using length_show_nat [of "unat (drop_bit 4 v)"] length_show_nat [of "unat (v AND 15)"] by (simp add: version_text_def)
qed

lemma not_found_answer_fits: "length (rs_dump (not_found_answer v)) \<le> buff_size"
  using length_version_text [of v] length_show_nat [of 404]
    length_show_nat [of "length (NotFoundServlet_content ''NotFound'')"]
  by (simp add: rs_dump_def not_found_answer_def rs_setHeaderEntry_def HttpResponse_ctor_def HttpResponse_default_def buff_size_def
      header_lines_def CRLF_def status_NOT_FOUND_def NotFoundServlet_content_def HttpStatusToString_def enum_name_def
      HTTP_STATUS_MAP_def Let_def)

lemma not_found_answer_short: "length (rs_dump (not_found_answer v)) < 2 ^ 31"
  using not_found_answer_fits [of v] by (simp add: buff_size_def)

text \<open>The bytes of a body: those buffered first, then those read.\<close>

lemma recv_body_spec:
  assumes "in_ok s" "0 < len" "len < 2 ^ 31"
  shows "if nat len \<le> length (rest @ in_data s)
    then \<exists>s'. recv_body len rest s = (Some (take (nat len) (rest @ in_data s)), s')
       \<and> in_ok s' \<and> in_data s' = drop (nat len - length rest) (in_data s)
    else \<exists>s'. recv_body len rest s = (None, s') \<and> \<not> st_isConnected s'"
proof (cases "len - int (length rest) > 0")
  case False
  then show ?thesis using assms by (auto simp: recv_body_def Let_def)
next
  case True
  let ?m = "nat (len - int (length rest))"
  have m: "?m = nat len - length rest" "?m < 2 ^ 31" "0 < ?m" "length rest \<le> nat len" using True assms by auto
  obtain s' where s': "readFixSize st_read ?m s = (if ?m \<le> length (in_data s) then int ?m else 0, take ?m (in_data s), s')"
      "in_ok s'" "in_data s' = drop ?m (in_data s)"
    using src.readFixSize_spec [OF assms(1) m(2)] by blast
  show ?thesis
    using True m s' by (auto simp: recv_body_def Let_def)
qed

section \<open>Properties\<close>

text \<open>
  C29: Receiving a request ends.  On a connected session on which the peer sends some
  number of bytes and then closes, \<^verbatim>\<open>recvRequest\<close> returns, with a request or null, after
  at most one more read than bytes arrive, whatever the scanner does.
\<close>

theorem receiving_ends:
  assumes "in_ok s" "length (in_data s) < fuel"
  shows "\<exists>r s'. recvRequest sc lexical_cast fuel s = Some (r, s')"
  using recvRequest_ends [OF assms, of sc lexical_cast] by auto

definition idle_scanner :: "(unit, request_event) scanner" where
  "idle_scanner = \<lparr>sc_init = (), sc_execute = \<lambda>q d. ([], (), length d), sc_finish = \<lambda>q. 1, sc_has_error = \<lambda>q. False\<rparr>"

theorem receiving_ends_witness:
  "\<exists>r s'. recvRequest idle_scanner (\<lambda>_. None) 9 (demo_stream [''GET '', ''/'']) = Some (r, s')"
  using receiving_ends [of "demo_stream [''GET '', ''/'']" 9]
  by (simp add: in_ok_def in_data_def demo_stream_def SockStream_ctor_def st_isConnected_def)

text \<open>
  C28: Request bodies.  Given the bytes that followed the header in the buffer and a
  content length, the body is exactly that many of the bytes that follow the header,
  those already buffered first, then those read from the connection; if the peer
  closes before, the session is closed and there is no request.  Bytes buffered beyond
  the body are dropped: the connection continues after them.
\<close>

theorem request_body_exact:
  assumes "in_ok s" "0 < len" "len < 2 ^ 31"
  shows "if nat len \<le> length (rest @ in_data s)
    then \<exists>s'. recv_body len rest s = (Some (take (nat len) (rest @ in_data s)), s')
       \<and> in_ok s' \<and> in_data s' = drop (nat len - length rest) (in_data s)
    else \<exists>s'. recv_body len rest s = (None, s') \<and> \<not> st_isConnected s'"
  using assms by (rule recv_body_spec)

theorem request_body_exact_witness:
  "\<exists>s'. recv_body 4 ''ab'' (demo_stream [''cde'']) = (Some ''abcd'', s') \<and> in_data s' = ''e''"
proof -
  have "in_ok (demo_stream [''cde''])" "in_data (demo_stream [''cde'']) = ''cde''"
    by (simp_all add: in_ok_def in_data_def demo_stream_def SockStream_ctor_def st_isConnected_def)
  then show ?thesis using request_body_exact [of "demo_stream [''cde'']" 4 "''ab''"] by auto
qed

text \<open>
  A client of a new server is answered.  When a server without keep-alive and without
  registered servlets receives a request, it sends exactly one response, the printed
  not-found page with the request's version and \<^verbatim>\<open>connection: close\<close>, after whatever
  was sent before, and the connection is closed.
\<close>

theorem new_server_answers:
  assumes "recvRequest sc lexical_cast fuel (HttpSession_ctor client False c) = Some (Some request, s1)" "out_ok s1"
  shows "\<exists>s'. handleClient sc lexical_cast (HttpServer_ctor False) (Suc rounds) fuel client c = Some (Inr s')
    \<and> out_data s' = out_data s1 @ rs_dump (not_found_answer (rq_version request)) \<and> \<not> st_isConnected s'"
proof -
  let ?r = "not_found_answer (rq_version request)"
  obtain s3 where s3: "sendResponse ?r s1 = (int (length (rs_dump ?r)), s3)" "out_data s3 = out_data s1 @ rs_dump ?r"
    using sendResponse_spec [OF assms(2) not_found_answer_short] by blast
  moreover have "servlet_handle ServletDispatch_ctor (request, HttpResponse_ctor status_OK (rq_version request) True, s1)
       = Inr (0, request, ?r, s1)"
    by (simp add: ServletDispatch_ctor_def match_servlet_def NotFoundServlet_handle_def not_found_answer_def Let_def)
  ultimately show ?thesis
    using assms(1) by (simp add: handleClient_def HttpServer_ctor_def Let_def)
qed

theorem new_server_answers_witness:
  "\<exists>s'. handleClient idle_scanner (\<lambda>_. None) (HttpServer_ctor False) 1 1
      (CreateTCPSocket\<lparr>socketfd := 3, isConnected := True\<rparr>) \<lparr>c_in = [''GET''], c_out = [], c_caps = []\<rparr>
      = Some (Inr s') \<and> out_data s' = rs_dump (not_found_answer 0)"
proof -
  let ?k = "CreateTCPSocket\<lparr>socketfd := 3, isConnected := True\<rparr>" and ?c = "\<lparr>c_in = [''GET''], c_out = [], c_caps = []\<rparr>"
  obtain request s1 where r: "recvRequest idle_scanner (\<lambda>_. None) 1 (HttpSession_ctor ?k False ?c) = Some (Some request, s1)"
      "out_ok s1" "out_data s1 = []" "rq_version request = 0"
    by (simp add: recvRequest_def idle_scanner_def HttpSession_ctor_def SockStream_ctor_def st_read_def recv_def st_isConnected_def buff_size_def rp_execute_def rp_hasError_def rp_isFinished_def
        HttpRequestParser_ctor_def rp_getContentLength_def rq_getHeaderEntryAs_def getAs_def HttpRequest_default_def
        int64_of_u64_def rq_init_def out_ok_def out_data_def)
  then show ?thesis using new_server_answers [OF r(1,2), of 0] by auto
qed

text \<open>
  A client that disconnects aborts the server.  If the peer closes the connection
  before a complete request arrived, in particular without sending anything,
  \<^verbatim>\<open>handleClient\<close> runs into \<^verbatim>\<open>assert(false)\<close>.
\<close>

theorem disconnect_aborts:
  assumes "c_in c = []"
  shows "handleClient sc lexical_cast srv (Suc rounds) (Suc fuel) client c = Some (Inl Assert_failed)"
proof -
  have "recvRequest sc lexical_cast (Suc fuel) (HttpSession_ctor client False c)
      = Some (None, st_close (HttpSession_ctor client False c))"
    using assms by (simp add: recvRequest_def st_read_def recv_def HttpSession_ctor_def SockStream_ctor_def)
  then show ?thesis by (simp add: handleClient_def)
qed

theorem disconnect_aborts_witness:
  "handleClient idle_scanner (\<lambda>_. None) (HttpServer_ctor True) 1 1 CreateTCPSocket \<lparr>c_in = [], c_out = [], c_caps = []\<rparr>
    = Some (Inl Assert_failed)"
  using disconnect_aborts [of "\<lparr>c_in = [], c_out = [], c_caps = []\<rparr>" idle_scanner "\<lambda>_. None" "HttpServer_ctor True" 0 0]
  by simp

end
