(* ===== verification/LogFormat.thy ===== *)
theory LogFormat
  imports Prelude
begin

text \<open>
  Log levels, log events and the pattern formatter of \<^verbatim>\<open>base/Logger.h\<close> and
  \<^verbatim>\<open>base/Logger.cc\<close>.  A formatter is built from a pattern by \<^verbatim>\<open>LoggerFormatter::init\<close>,
  whose two loops are the functions \<open>scan_item\<close> (the characters after a percent sign)
  and \<open>init_loop\<close> (the whole pattern), both over positions of the pattern as in the
  source.  The text of a date (\<^verbatim>\<open>localtime_r\<close> and \<^verbatim>\<open>strftime\<close>) and the name of the
  logger an event refers to are arguments of the printing functions.
\<close>

section \<open>Levels\<close>

text \<open>
  \<^verbatim>\<open>Level_cast\<close> stands for an integer converted to \<^verbatim>\<open>LogLevel::Level\<close>, as in
  \<^verbatim>\<open>(LogLevel::Level)100\<close>; the comparison of levels is that of their integers.
\<close>

(* base/Logger.h 50-58: Level *)
datatype level = UNKONW | DEBUG | INFO | WARRING | ERROR | FATAL | Level_cast nat

fun level_val :: "level \<Rightarrow> nat" where
  "level_val UNKONW = 0"
| "level_val DEBUG = 1"
| "level_val INFO = 2"
| "level_val WARRING = 3"
| "level_val ERROR = 4"
| "level_val FATAL = 5"
| "level_val (Level_cast n) = n"

(* base/Logger.cc 12: LogLevel::ToString *)
definition LogLevel_ToString :: "level \<Rightarrow> string" where
  "LogLevel_ToString l =
     (case l of DEBUG \<Rightarrow> ''DEBUG'' | INFO \<Rightarrow> ''INFO'' | WARRING \<Rightarrow> ''WARRING''
      | ERROR \<Rightarrow> ''ERROR'' | FATAL \<Rightarrow> ''FATAL'' | _ \<Rightarrow> ''UNKNOW'')"

(* base/Logger.cc 33: LogLevel::FromString *)
definition LogLevel_FromString :: "string \<Rightarrow> level" where
  "LogLevel_FromString str =
     (if str = ''debug'' then DEBUG else if str = ''info'' then INFO
      else if str = ''warring'' then WARRING else if str = ''error'' then ERROR
      else if str = ''fatal'' then FATAL else if str = ''DEBUG'' then DEBUG
      else if str = ''INFO'' then INFO else if str = ''WARRING'' then WARRING
      else if str = ''ERROR'' then ERROR else if str = ''FATAL'' then FATAL
      else UNKONW)"

section \<open>Events\<close>

(* base/Logger.h 84-97: LogEvent, fields *)
record log_event =
  m_file :: string
  m_line :: u32
  m_elpase :: u32
  m_thread_id :: u32
  m_fiber_id :: u32
  m_time :: u64
  ev_thread_name :: string
  m_ss :: string
  m_logger :: nat
  ev_level :: level

(* base/Logger.cc 240-246: LogEvent::LogEvent *)
definition LogEvent_ctor :: "nat \<Rightarrow> level \<Rightarrow> string \<Rightarrow> u32 \<Rightarrow> u32 \<Rightarrow> u32 \<Rightarrow> u32 \<Rightarrow> u64 \<Rightarrow> string \<Rightarrow> log_event" where
  "LogEvent_ctor logger level file line elpase threadId fiberId time thread_name =
     \<lparr>m_file = file, m_line = line, m_elpase = elpase, m_thread_id = threadId,
      m_fiber_id = fiberId, m_time = time, ev_thread_name = thread_name, m_ss = [],
      m_logger = logger, ev_level = level\<rparr>"

section \<open>Format items\<close>

(* base/Logger.cc 77-238: FormatItem classes, fields *)
datatype format_item =
    MessageFormatItem
  | LevelFormatItem
  | ElapseFormatItem
  | LoggerNameFormatItem
  | ThreadNameFormatItem
  | ThreadIdFormatItem
  | FiberIdFormatItem
  | DateTimeFormatItem string
  | LineFormatItem
  | NewLineFormatItem
  | FileNameFormatItem
  | StringFormatItem string
  | TabFormatItem

(* base/Logger.cc 158-165: DateTimeFormatItem::DateTimeFormatItem *)
definition DateTimeFormatItem_ctor :: "string \<Rightarrow> format_item" where
  "DateTimeFormatItem_ctor date_format =
     DateTimeFormatItem (if date_format = [] then ''%Y-%m-%d %H:%M:%S'' else date_format)"

text \<open>
  A date longer than the 64 bytes of the buffer leaves its contents indeterminate.
\<close>

(* base/Logger.cc 81-237: FormatItem::format, every class *)
fun item_format :: "(nat \<Rightarrow> string) \<Rightarrow> (string \<Rightarrow> u64 \<Rightarrow> string) \<Rightarrow> level \<Rightarrow> log_event \<Rightarrow> format_item \<Rightarrow> string result" where
  "item_format names date level event MessageFormatItem = Inr (m_ss event)"
| "item_format names date level event LevelFormatItem = Inr (LogLevel_ToString level)"
| "item_format names date level event ElapseFormatItem = Inr (show_nat (unat (m_elpase event)))"
| "item_format names date level event LoggerNameFormatItem = Inr (names (m_logger event))"
| "item_format names date level event ThreadNameFormatItem = Inr (ev_thread_name event)"
| "item_format names date level event ThreadIdFormatItem = Inr (show_nat (unat (m_thread_id event)))"
| "item_format names date level event FiberIdFormatItem = Inr (show_nat (unat (m_fiber_id event)))"
| "item_format names date level event (DateTimeFormatItem fmt) =
     (let buf = date (c_str fmt) (m_time event) in
      if length buf < 64 then Inr buf else Inl Undefined_behaviour)"
| "item_format names date level event LineFormatItem = Inr (show_nat (unat (m_line event)))"
| "item_format names date level event NewLineFormatItem = Inr [LF]"
| "item_format names date level event FileNameFormatItem = Inr (m_file event)"
| "item_format names date level event (StringFormatItem str) = Inr str"
| "item_format names date level event TabFormatItem = Inr [TAB]"

section \<open>The formatter\<close>

(* base/Logger.h 133-136: LoggerFormatter, fields *)
record formatter =
  m_partten :: string
  m_items :: "format_item list"
  m_error :: bool

fun format_items :: "(nat \<Rightarrow> string) \<Rightarrow> (string \<Rightarrow> u64 \<Rightarrow> string) \<Rightarrow> level \<Rightarrow> log_event \<Rightarrow> format_item list \<Rightarrow> string result" where
  "format_items names date level event [] = Inr []"
| "format_items names date level event (it # its) =
     rbind (item_format names date level event it) (\<lambda>s.
     rbind (format_items names date level event its) (\<lambda>ss. Inr (s @ ss)))"

(* base/Logger.cc 507: LoggerFormatter::format *)
definition formatter_format :: "(nat \<Rightarrow> string) \<Rightarrow> (string \<Rightarrow> u64 \<Rightarrow> string) \<Rightarrow> level \<Rightarrow> log_event \<Rightarrow> formatter \<Rightarrow> string result" where
  "formatter_format names date level event f = format_items names date level event (m_items f)"

subsection \<open>Parsing a pattern\<close>

definition substr :: "string \<Rightarrow> nat \<Rightarrow> nat \<Rightarrow> string" where
  "substr s pos n = take n (drop pos s)"

text \<open>
  The inner loop: \<open>j\<close>, \<open>status\<close>, \<open>type_begin\<close> and \<open>format_str\<close> are its variables; the
  result holds \<open>j\<close>, \<open>status\<close>, \<open>format_str\<close> and \<open>type_str\<close>.
\<close>

(* base/Logger.cc 542-573: LoggerFormatter::init, inner loop *)
function scan_item :: "string \<Rightarrow> nat \<Rightarrow> nat \<Rightarrow> nat \<Rightarrow> nat \<Rightarrow> string \<Rightarrow> nat \<times> nat \<times> string \<times> string" where
  "scan_item p format_begin j status type_begin format_str =
     (if j < length p
      then if status = 0 \<and> \<not> is_alpha (p ! j) \<and> p ! j \<noteq> CHR ''{'' \<and> p ! j \<noteq> CHR ''}''
        then (j - 1, status, substr p format_begin (j - format_begin), [])
        else if status = 0 \<and> p ! j = CHR ''{''
        then scan_item p format_begin (j + 1) 1 (j + 1) (substr p format_begin (j - format_begin))
        else if status = 1 \<and> p ! j = CHR ''}''
        then (j, 0, format_str, substr p type_begin (j - type_begin))
        else scan_item p format_begin (j + 1) status type_begin format_str
      else (j, status, format_str, []))"
  by pat_completeness auto

termination
  by (relation "measure (\<lambda>(p, fb, j, rest). length p - j)") auto

declare scan_item.simps [simp del]

lemma scan_item_position: "j - 1 \<le> fst (scan_item p fb j st tb fs)"
proof (induction p fb j st tb fs rule: scan_item.induct)
  case (1 p fb j st tb fs)
  show ?case by (subst scan_item.simps) (use 1 in \<open>auto split: if_splits\<close>)
qed

(* base/Logger.cc 521-602: LoggerFormatter::init, outer loop *)
function init_loop :: "string \<Rightarrow> nat \<Rightarrow> string \<Rightarrow> (string \<times> string \<times> nat) list \<Rightarrow> bool
    \<Rightarrow> (string \<times> string \<times> nat) list \<times> bool" where
  "init_loop p i nstr vec err =
     (if i < length p
      then if p ! i \<noteq> CHR ''%'' then init_loop p (i + 1) (nstr @ [p ! i]) vec err
        else if i + 1 < length p \<and> p ! (i + 1) = CHR ''%''
        then init_loop p (i + 1) (nstr @ ''%'') vec err
        else
          let r = scan_item p (i + 1) (i + 1) 0 0 [];
              j = fst r; status = fst (snd r); format_str = fst (snd (snd r)); type_str = snd (snd (snd r)) in
          if status = 0
          then init_loop p (j + 1) []
                 (vec @ (if nstr \<noteq> [] then [(nstr, [], 0)] else [])
                  @ [(if j = length p then substr p (i + 1) (j - (i + 1)) else format_str, type_str, 1)]) err
          else init_loop p (j + 1) nstr (vec @ [(''<<pattern error>>'', format_str, 2)]) True
      else (vec @ (if nstr \<noteq> [] then [(nstr, [], 0)] else []), err))"
  by pat_completeness auto

termination
proof (relation "measure (\<lambda>(p, i, rest). length p - i)", goal_cases)
  case (4 p i nstr vec err r j status format_str type_str)
  then show ?case using scan_item_position [of "i + 1" p "i + 1" 0 0 "[]"] by simp
next
  case (5 p i nstr vec err r j status format_str type_str)
  then show ?case using scan_item_position [of "i + 1" p "i + 1" 0 0 "[]"] by simp
qed auto

declare init_loop.simps [simp del]

(* base/Logger.cc 603-626: LoggerFormatter::init, s_format_items *)
definition s_format_items :: "string \<Rightarrow> (string \<Rightarrow> format_item) option" where
  "s_format_items = map_of
     [(''m'', \<lambda>_. MessageFormatItem), (''p'', \<lambda>_. LevelFormatItem), (''r'', \<lambda>_. ElapseFormatItem),
      (''c'', \<lambda>_. LoggerNameFormatItem), (''t'', \<lambda>_. ThreadIdFormatItem), (''n'', \<lambda>_. NewLineFormatItem),
      (''d'', DateTimeFormatItem_ctor), (''f'', \<lambda>_. FileNameFormatItem), (''l'', \<lambda>_. LineFormatItem),
      (''T'', \<lambda>_. TabFormatItem), (''F'', \<lambda>_. FiberIdFormatItem), (''N'', \<lambda>_. ThreadNameFormatItem)]"

(* base/Logger.cc 633-660: LoggerFormatter::init, second loop *)
fun make_items :: "(string \<times> string \<times> nat) list \<Rightarrow> format_item list \<times> bool" where
  "make_items [] = ([], False)"
| "make_items ((s, arg, k) # vec) =
     (let (items, err) = make_items vec in
      if k = 0 then (StringFormatItem s # items, err)
      else case s_format_items s of
          None \<Rightarrow> (StringFormatItem (''<<error format %'' @ s @ ''>>'') # items, True)
        | Some C \<Rightarrow> (C arg # items, err))"

(* base/Logger.cc 519: LoggerFormatter::init *)
definition formatter_init :: "formatter \<Rightarrow> formatter" where
  "formatter_init f =
     (let (vec, err1) = init_loop (m_partten f) 0 [] [] (m_error f);
          (items, err2) = make_items vec in
      f\<lparr>m_items := m_items f @ items, m_error := err1 \<or> err2\<rparr>)"

(* base/Logger.cc 502: LoggerFormatter::LoggerFormatter *)
definition LoggerFormatter_ctor :: "string \<Rightarrow> formatter" where
  "LoggerFormatter_ctor partten = formatter_init \<lparr>m_partten = partten, m_items = [], m_error = False\<rparr>"

section \<open>What a pattern means\<close>

text \<open>
  The abstract syntax of patterns: literal text and one-letter items with an optional
  argument in braces.  \<open>pieces_ok\<close> says when the concrete text of a list of pieces is
  unambiguous.
\<close>

datatype piece = Text string | Item char "string option"

fun print_piece :: "piece \<Rightarrow> string" where
  "print_piece (Text s) = s"
| "print_piece (Item c None) = [CHR ''%'', c]"
| "print_piece (Item c (Some a)) = [CHR ''%'', c, CHR ''{''] @ a @ ''}''"

definition print_pieces :: "piece list \<Rightarrow> string" where
  "print_pieces ps = concat (map print_piece ps)"

fun piece_entry :: "piece \<Rightarrow> string \<times> string \<times> nat" where
  "piece_entry (Text s) = (s, [], 0)"
| "piece_entry (Item c arg) = ([c], case arg of None \<Rightarrow> [] | Some a \<Rightarrow> a, 1)"

fun piece_item :: "piece \<Rightarrow> format_item" where
  "piece_item (Text s) = StringFormatItem s"
| "piece_item (Item c arg) = the (s_format_items [c]) (case arg of None \<Rightarrow> [] | Some a \<Rightarrow> a)"

fun piece_ok :: "piece \<Rightarrow> bool" where
  "piece_ok (Text s) \<longleftrightarrow> s \<noteq> [] \<and> CHR ''%'' \<notin> set s"
| "piece_ok (Item c arg) \<longleftrightarrow>
     c \<in> set ''mprctndflTFN'' \<and> (case arg of None \<Rightarrow> True | Some a \<Rightarrow> CHR ''}'' \<notin> set a)"

definition item_end :: "char \<Rightarrow> bool" where
  "item_end c \<longleftrightarrow> \<not> is_alpha c \<and> c \<noteq> CHR ''{'' \<and> c \<noteq> CHR ''}''"

fun may_follow :: "piece \<Rightarrow> piece \<Rightarrow> bool" where
  "may_follow (Text s) (Text t) = False"
| "may_follow (Item c None) (Text t) = item_end (hd t)"
| "may_follow p q = True"

fun pieces_ok :: "piece list \<Rightarrow> bool" where
  "pieces_ok [] = True"
| "pieces_ok [p] = piece_ok p"
| "pieces_ok (p # q # ps) = (piece_ok p \<and> may_follow p q \<and> pieces_ok (q # ps))"

subsection \<open>The two loops on printed pieces\<close>

lemma item_letters: "c \<in> set ''mprctndflTFN'' \<Longrightarrow> is_alpha c \<and> (\<exists>C. s_format_items [c] = Some C)"
  by (auto simp: is_alpha_def is_upper_def is_lower_def s_format_items_def)

lemma brace_chars: "\<not> is_alpha (CHR ''{'')" "\<not> is_alpha (CHR ''}'')" "\<not> is_alpha (CHR ''%'')"
  by (simp_all add: is_alpha_def is_upper_def is_lower_def)

lemma text_loop:
  "CHR ''%'' \<notin> set s \<Longrightarrow>
   init_loop (pre @ s @ rest) (length pre) nstr vec err =
   init_loop (pre @ s @ rest) (length (pre @ s)) (nstr @ s) vec err"
proof (induction s arbitrary: pre nstr)
  case Nil
  then show ?case by simp
next
  case (Cons c s)
  have "init_loop (pre @ (c # s) @ rest) (length pre) nstr vec err =
      init_loop ((pre @ [c]) @ s @ rest) (length (pre @ [c])) (nstr @ [c]) vec err"
    by (subst init_loop.simps) (use Cons.prems in \<open>auto simp: nth_append\<close>)
  also have "\<dots> = init_loop ((pre @ [c]) @ s @ rest) (length ((pre @ [c]) @ s)) ((nstr @ [c]) @ s) vec err"
    by (rule Cons.IH) (use Cons.prems in simp)
  finally show ?case by simp
qed

lemma scan_argument:
  "CHR ''}'' \<notin> set a \<Longrightarrow>
   scan_item (pre @ a @ CHR ''}'' # rest) fb (length pre) 1 tb fs =
     (length (pre @ a), 0, fs, substr (pre @ a @ CHR ''}'' # rest) tb (length (pre @ a) - tb))"
proof (induction a arbitrary: pre)
  case Nil
  show ?case by (subst scan_item.simps) simp
next
  case (Cons c a)
  have "scan_item (pre @ (c # a) @ CHR ''}'' # rest) fb (length pre) 1 tb fs =
      scan_item ((pre @ [c]) @ a @ CHR ''}'' # rest) fb (length (pre @ [c])) 1 tb fs"
    by (subst scan_item.simps) (use Cons.prems in auto)
  also have "\<dots> = (length ((pre @ [c]) @ a), 0, fs,
      substr ((pre @ [c]) @ a @ CHR ''}'' # rest) tb (length ((pre @ [c]) @ a) - tb))"
    by (rule Cons.IH) (use Cons.prems in simp)
  finally show ?case by simp
qed

lemma scan_braced:
  assumes "is_alpha c" "CHR ''}'' \<notin> set a"
  shows "scan_item (pre @ [c, CHR ''{''] @ a @ CHR ''}'' # rest) (length pre) (length pre) 0 0 [] =
      (length pre + 2 + length a, 0, [c], a)"
proof -
  let ?p = "pre @ [c, CHR ''{''] @ a @ CHR ''}'' # rest"
  let ?pre = "pre @ [c, CHR ''{'']"
  have c: "c \<noteq> CHR ''{''" using assms(1) brace_chars by auto
  have "scan_item ?p (length pre) (length pre) 0 0 [] = scan_item ?p (length pre) (Suc (length pre)) 0 0 []"
    by (subst scan_item.simps) (use assms(1) c in simp)
  also have "\<dots> = scan_item (?pre @ a @ CHR ''}'' # rest) (length pre) (length ?pre) 1 (length ?pre) [c]"
    by (subst scan_item.simps) (simp add: nth_append brace_chars substr_def)
  also have "\<dots> = (length (?pre @ a), 0, [c],
      substr (?pre @ a @ CHR ''}'' # rest) (length ?pre) (length (?pre @ a) - length ?pre))"
    by (rule scan_argument [OF assms(2)])
  finally show ?thesis by (simp add: substr_def)
qed

lemma scan_plain:
  assumes "is_alpha c"
  shows "scan_item (pre @ [c]) (length pre) (length pre) 0 0 [] = (length pre + 1, 0, [], [])"
    and "item_end d \<Longrightarrow>
      scan_item (pre @ c # d # rest) (length pre) (length pre) 0 0 [] = (length pre, 0, [c], [])"
proof -
  have c: "c \<noteq> CHR ''{''" using assms brace_chars by auto
  have "scan_item (pre @ c # rest') (length pre) (length pre) 0 0 [] =
      scan_item (pre @ c # rest') (length pre) (Suc (length pre)) 0 0 []" for rest'
    by (subst scan_item.simps) (use assms c in simp)
  note step = this
  show "scan_item (pre @ [c]) (length pre) (length pre) 0 0 [] = (length pre + 1, 0, [], [])"
    unfolding step by (subst scan_item.simps) simp
  show "scan_item (pre @ c # d # rest) (length pre) (length pre) 0 0 [] = (length pre, 0, [c], [])"
    if "item_end d"
    unfolding step by (subst scan_item.simps) (use that in \<open>simp add: nth_append item_end_def substr_def\<close>)
qed

abbreviation flush :: "string \<Rightarrow> (string \<times> string \<times> nat) list" where
  "flush nstr \<equiv> (if nstr \<noteq> [] then [(nstr, [], 0)] else [])"

lemma item_loop:
  assumes "piece_ok (Item c arg)" "arg = None \<longrightarrow> rest = [] \<or> item_end (hd rest)"
  shows "init_loop (pre @ print_piece (Item c arg) @ rest) (length pre) nstr vec err =
     init_loop (pre @ print_piece (Item c arg) @ rest) (length (pre @ print_piece (Item c arg))) []
       (vec @ flush nstr @ [piece_entry (Item c arg)]) err"
proof -
  have c: "is_alpha c" "c \<noteq> CHR ''%''" using item_letters [of c] assms(1) brace_chars by auto
  let ?pre = "pre @ ''%''"
  show ?thesis
  proof (cases arg)
    case None
    show ?thesis
    proof (cases rest)
      case Nil
      show ?thesis
        by (subst init_loop.simps)
          (use scan_plain(1) [OF c(1), of ?pre] c in
            \<open>simp add: None Nil nth_append substr_def init_loop.simps [of _ "Suc (Suc (Suc (length pre)))"]
               init_loop.simps [of _ "Suc (Suc (length pre))"]\<close>)
    next
      case (Cons d ds)
      then have "item_end d" using assms(2) None by simp
      then show ?thesis
        by (subst init_loop.simps)
          (use scan_plain(2) [OF c(1), of d ?pre ds] c in \<open>simp add: None Cons nth_append\<close>)
    qed
  next
    case (Some a)
    then have "CHR ''}'' \<notin> set a" using assms(1) by simp
    then show ?thesis
      by (subst init_loop.simps)
        (use scan_braced [OF c(1), of a ?pre rest] c in \<open>simp add: Some nth_append\<close>)
  qed
qed

lemma print_pieces_simps [simp]:
  "print_pieces [] = []" "print_pieces (p # ps) = print_piece p @ print_pieces ps"
  by (simp_all add: print_pieces_def)

lemma pieces_loop:
  "pieces_ok ps \<Longrightarrow> (nstr \<noteq> [] \<longrightarrow> (\<nexists>t qs. ps = Text t # qs)) \<Longrightarrow>
   init_loop (pre @ print_pieces ps) (length pre) nstr vec err = (vec @ flush nstr @ map piece_entry ps, err)"
proof (induction ps arbitrary: pre nstr vec)
  case Nil
  then show ?case by (subst init_loop.simps) simp
next
  case (Cons p ps)
  have ok: "piece_ok p" "pieces_ok ps" using Cons.prems(1) by (cases ps; simp)+
  show ?case
  proof (cases p)
    case (Text t)
    then have t: "nstr = []" "t \<noteq> []" "CHR ''%'' \<notin> set t" using Cons.prems(2) ok(1) by auto
    have "\<nexists>u qs. ps = Text u # qs" using Cons.prems(1) Text by (cases ps) auto
    then have "init_loop ((pre @ t) @ print_pieces ps) (length (pre @ t)) t vec err =
        (vec @ flush t @ map piece_entry ps, err)"
      by (intro Cons.IH) (use ok in auto)
    then show ?thesis using text_loop [OF t(3), of pre "print_pieces ps" nstr vec err] t Text
      by simp
  next
    case (Item c arg)
    have follow: "arg = None \<longrightarrow> print_pieces ps = [] \<or> item_end (hd (print_pieces ps))"
    proof (cases ps)
      case Nil
      then show ?thesis by simp
    next
      case (Cons q qs)
      have "piece_ok q" using Cons ok(2) by (cases qs) auto
      moreover have "may_follow p q" using Cons.prems(1) Cons by simp
      moreover have "item_end (CHR ''%'')" using brace_chars by (simp add: item_end_def)
      ultimately show ?thesis
        using Item Cons by (cases q rule: print_piece.cases) auto
    qed
    have "init_loop ((pre @ print_piece p) @ print_pieces ps) (length (pre @ print_piece p)) []
        (vec @ flush nstr @ [piece_entry p]) err =
        ((vec @ flush nstr @ [piece_entry p]) @ flush [] @ map piece_entry ps, err)"
      by (intro Cons.IH) (use ok in auto)
    then show ?thesis
      using item_loop [OF ok(1) [unfolded Item] follow, of pre nstr vec err] Item by simp
  qed
qed

lemma pieces_ok_all: "pieces_ok ps \<Longrightarrow> \<forall>p \<in> set ps. piece_ok p"
  by (induction ps rule: pieces_ok.induct) auto

lemma make_items_pieces: "\<forall>p \<in> set ps. piece_ok p \<Longrightarrow> make_items (map piece_entry ps) = (map piece_item ps, False)"
proof (induction ps)
  case Nil
  then show ?case by simp
next
  case (Cons p ps)
  show ?case
  proof (cases p)
    case (Text s)
    then show ?thesis using Cons by simp
  next
    case (Item c arg)
    then obtain C where "s_format_items [c] = Some C" using item_letters [of c] Cons.prems by auto
    then show ?thesis using Item Cons by simp
  qed
qed

lemma formatter_pieces:
  assumes "pieces_ok ps"
  shows "LoggerFormatter_ctor (print_pieces ps) =
    \<lparr>m_partten = print_pieces ps, m_items = map piece_item ps, m_error = False\<rparr>"
  using pieces_loop [OF assms, of "[]" "[]"] make_items_pieces [OF pieces_ok_all [OF assms]]
  by (simp add: LoggerFormatter_ctor_def formatter_init_def)

section \<open>Properties\<close>

definition default_pattern :: string where
  "default_pattern = ''%d{%Y-%m-%d %H:%M:%S}%T%t%T%N%T%F%T[%p]%T[%c]%T%f:%l%T%m%n''"

definition default_pieces :: "piece list" where
  "default_pieces =
     [Item (CHR ''d'') (Some ''%Y-%m-%d %H:%M:%S''), Item (CHR ''T'') None, Item (CHR ''t'') None,
      Item (CHR ''T'') None, Item (CHR ''N'') None, Item (CHR ''T'') None, Item (CHR ''F'') None,
      Item (CHR ''T'') None, Text ''['', Item (CHR ''p'') None, Text '']'', Item (CHR ''T'') None,
      Text ''['', Item (CHR ''c'') None, Text '']'', Item (CHR ''T'') None, Item (CHR ''f'') None,
      Text '':'', Item (CHR ''l'') None, Item (CHR ''T'') None, Item (CHR ''m'') None, Item (CHR ''n'') None]"

lemma default_pieces_ok: "pieces_ok default_pieces" "print_pieces default_pieces = default_pattern"
  by (simp_all add: default_pieces_def default_pattern_def item_end_def is_alpha_def is_upper_def is_lower_def)

text \<open>
  C35: Patterns are read back.  Take a list of pieces, each a non-empty literal text without
  a percent sign or a one-letter item of the table with an optional argument without a closing
  brace, no two texts next to each other, and a text that follows an item without argument
  starting with neither a letter nor a brace.  The pattern printed from it is accepted without
  error and gives exactly one format item for each piece in order; and if every item formats
  an event, the event is formatted as the concatenation of what the pieces print.
\<close>

theorem patterns_read_back:
  assumes "pieces_ok ps"
  shows "m_items (LoggerFormatter_ctor (print_pieces ps)) = map piece_item ps
    \<and> \<not> m_error (LoggerFormatter_ctor (print_pieces ps))
    \<and> (\<forall>outs. list_all2 (\<lambda>p s. item_format names date level event (piece_item p) = Inr s) ps outs \<longrightarrow>
        formatter_format names date level event (LoggerFormatter_ctor (print_pieces ps)) = Inr (concat outs))"
proof -
  have "list_all2 (\<lambda>p s. item_format names date level event (piece_item p) = Inr s) ps outs \<Longrightarrow>
      format_items names date level event (map piece_item ps) = Inr (concat outs)" for outs
    by (induction rule: list_all2_induct) auto
  then show ?thesis by (simp add: formatter_pieces [OF assms] formatter_format_def)
qed

theorem patterns_read_back_witness:
  "m_items (LoggerFormatter_ctor ''%p{x}: %m%n'') =
     [LevelFormatItem, StringFormatItem '': '', MessageFormatItem, NewLineFormatItem]
   \<and> formatter_format (\<lambda>_. ''root'') (\<lambda>_ _. ''now'') INFO
       (LogEvent_ctor 0 INFO ''a.cc'' 1 0 1 0 0 ''main''\<lparr>m_ss := ''hi''\<rparr>)
       (LoggerFormatter_ctor ''%p{x}: %m%n'') = Inr (''INFO: hi'' @ [LF])"
  using patterns_read_back [of "[Item (CHR ''p'') (Some ''x''), Text '': '', Item (CHR ''m'') None, Item (CHR ''n'') None]"
      "\<lambda>_. ''root''" "\<lambda>_ _. ''now''" INFO "LogEvent_ctor 0 INFO ''a.cc'' 1 0 1 0 0 ''main''\<lparr>m_ss := ''hi''\<rparr>"]
  by (simp add: s_format_items_def item_end_def is_alpha_def is_upper_def is_lower_def
      LogEvent_ctor_def LogLevel_ToString_def list_all2_Cons1)

text \<open>
  An escaped percent sign is read twice.  A pattern that ends in two percent signs
  after literal text is rejected: the pair gives one percent sign of text, and the second
  sign is then read again as the start of an item that has no letter.
\<close>

theorem escaped_percent_rejected:
  assumes "CHR ''%'' \<notin> set s"
  shows "m_error (LoggerFormatter_ctor (s @ ''%%''))
    \<and> m_items (LoggerFormatter_ctor (s @ ''%%'')) =
        [StringFormatItem (s @ ''%''), StringFormatItem ''<<error format %>>'']"
proof -
  let ?p = "s @ ''%%''"
  have "init_loop ?p 0 [] [] False = init_loop ?p (length s) s [] False"
    using text_loop [OF assms, of "[]" "''%%''"] by simp
  also have "\<dots> = init_loop ?p (Suc (length s)) (s @ ''%'') [] False"
    by (subst init_loop.simps) (simp add: nth_append)
  also have "\<dots> = ([(s @ ''%'', [], 0), ([], [], 1)], False)"
    by (subst init_loop.simps)
      (simp add: nth_append scan_item.simps [of _ _ "Suc (Suc (length s))"] substr_def
        init_loop.simps [of _ "Suc (Suc (Suc (length s)))"])
  finally show ?thesis
    by (simp add: LoggerFormatter_ctor_def formatter_init_def s_format_items_def)
qed

theorem escaped_percent_rejected_witness: "m_error (LoggerFormatter_ctor ''100%%'')"
  using escaped_percent_rejected [of "''100''"] by simp

lemma level_names_read_back:
  "l \<in> {DEBUG, INFO, WARRING, ERROR, FATAL} \<Longrightarrow> LogLevel_FromString (LogLevel_ToString l) = l"
  by (auto simp: LogLevel_FromString_def LogLevel_ToString_def)

end
