(* ===== verification/Config.thy ===== *)
theory Config
  imports Containers
begin

text \<open>
  The configuration system of \<^verbatim>\<open>base/Config.h\<close> and \<^verbatim>\<open>base/Config.cc\<close>: variables with
  listeners, the table of variables, loading a YAML document into it and the
  conversions of containers to and from YAML text.  The variables of all types share
  one value type \<open>'v\<close>; a variable carries the name of its C++ type and the conversions
  its template arguments select.  Listeners act on a world \<open>'w\<close> of their own.

  YAML nodes are a datatype with the library's node kinds; what the yaml-cpp library
  does (parsing, emitting, subscripts, conversions) is the argument \<open>yaml_lib\<close>.
\<close>

section \<open>YAML nodes and the library\<close>

datatype yaml = Null | Scalar string | Seq "yaml list" | YMap "(yaml \<times> yaml) list"

text \<open>
  \<open>yload\<close> is \<^verbatim>\<open>YAML::Load\<close>, \<open>yemit\<close> is \<^verbatim>\<open>operator<<\<close>, \<open>yscalar\<close> is \<^verbatim>\<open>Scalar()\<close>,
  \<open>yelems\<close> lists \<^verbatim>\<open>node[0]\<close> to \<^verbatim>\<open>node[size() - 1]\<close>, \<open>ysub\<close> is \<^verbatim>\<open>node["key"]\<close> (\<open>None\<close> an undefined
  node) and \<open>yas\<close> is \<^verbatim>\<open>as<std::string>()\<close>.
\<close>

record yaml_lib =
  yload :: "string \<Rightarrow> yaml result"
  yemit :: "yaml \<Rightarrow> string"
  yscalar :: "yaml \<Rightarrow> string"
  yelems :: "yaml \<Rightarrow> yaml list"
  ysub :: "string \<Rightarrow> yaml \<Rightarrow> yaml option result"
  yas :: "yaml \<Rightarrow> string result"

text \<open>The documented behaviour of the accessors on the node kinds they are meant for.\<close>

definition yaml_laws :: "yaml_lib \<Rightarrow> bool" where
  "yaml_laws lib \<longleftrightarrow>
     (\<forall>s. yscalar lib (Scalar s) = s \<and> yas lib (Scalar s) = Inr s)
   \<and> (\<forall>xs. yelems lib (Seq xs) = xs) \<and> yelems lib Null = []
   \<and> (\<forall>m k. ysub lib k (YMap m) = Inr (map_of m (Scalar k)))"

section \<open>Conversions\<close>

text \<open>
  What \<^verbatim>\<open>catch (std::exception &)\<close> catches.
\<close>

definition is_exception :: "cpp_error \<Rightarrow> bool" where
  "is_exception e \<longleftrightarrow> e \<in> {Bad_alloc, Length_error, Invalid_argument, Logic_error, Runtime_error}"

fun rmap :: "('a \<Rightarrow> 'b result) \<Rightarrow> 'a list \<Rightarrow> 'b list result" where
  "rmap f [] = Inr []"
| "rmap f (x # xs) = rbind (f x) (\<lambda>y. rbind (rmap f xs) (\<lambda>ys. Inr (y # ys)))"

subsection \<open>From strings\<close>

(* base/Config.h 49-66: LexicalCast<std::string, std::vector<T>>, operator() *)
definition string_to_vector :: "yaml_lib \<Rightarrow> (string \<Rightarrow> 'a result) \<Rightarrow> string \<Rightarrow> 'a list result" where
  "string_to_vector lib cast v = rbind (yload lib v) (\<lambda>node. rmap (\<lambda>n. cast (yemit lib n)) (yelems lib node))"

(* base/Config.h 69-85: LexicalCast<std::string, std::list<T>>, operator() *)
definition string_to_list :: "yaml_lib \<Rightarrow> (string \<Rightarrow> 'a result) \<Rightarrow> string \<Rightarrow> 'a list result" where
  "string_to_list lib cast v = rbind (yload lib v) (\<lambda>node. rmap (\<lambda>n. cast (yemit lib n)) (yelems lib node))"

text \<open>
  \<^verbatim>\<open>std::set::insert\<close> with the comparator \<open>lt\<close>: an equivalent element that is present stays.
\<close>

fun cset_insert :: "('a \<Rightarrow> 'a \<Rightarrow> bool) \<Rightarrow> 'a \<Rightarrow> 'a list \<Rightarrow> 'a list" where
  "cset_insert lt x [] = [x]"
| "cset_insert lt x (y # ys) =
     (if lt y x then y # cset_insert lt x ys else if lt x y then x # y # ys else y # ys)"

(* base/Config.h 88-104: LexicalCast<std::string, std::set<T>>, operator() *)
definition string_to_set :: "yaml_lib \<Rightarrow> ('a \<Rightarrow> 'a \<Rightarrow> bool) \<Rightarrow> (string \<Rightarrow> 'a result) \<Rightarrow> string \<Rightarrow> 'a list result" where
  "string_to_set lib lt cast v =
     rbind (yload lib v) (\<lambda>node.
     rbind (rmap (\<lambda>n. cast (yemit lib n)) (yelems lib node)) (\<lambda>xs. Inr (foldl (\<lambda>s x. cset_insert lt x s) [] xs)))"

(* base/Config.h 107-123: LexicalCast<std::string, std::unordered_set<T>>, operator() *)
definition string_to_unordered_set :: "yaml_lib \<Rightarrow> (string \<Rightarrow> 'a result) \<Rightarrow> string \<Rightarrow> 'a set result" where
  "string_to_unordered_set lib cast v =
     rbind (yload lib v) (\<lambda>node. rbind (rmap (\<lambda>n. cast (yemit lib n)) (yelems lib node)) (\<lambda>xs. Inr (set xs)))"

text \<open>Iterating a node visits the pairs of a map; other kinds have none.\<close>

fun ypairs :: "yaml \<Rightarrow> (yaml \<times> yaml) list" where
  "ypairs (YMap m) = m"
| "ypairs _ = []"

definition cast_pairs :: "yaml_lib \<Rightarrow> (string \<Rightarrow> 'a result) \<Rightarrow> yaml \<Rightarrow> (string \<times> 'a) list result" where
  "cast_pairs lib cast node =
     rmap (\<lambda>(k, n). rbind (cast (yemit lib n)) (\<lambda>x. Inr (yscalar lib k, x))) (ypairs node)"

definition map_insert :: "(string \<times> 'a) list \<Rightarrow> string \<times> 'a \<Rightarrow> (string \<times> 'a) list" where
  "map_insert m p = (case smap_find str_less (fst p) m of None \<Rightarrow> smap_put str_less (fst p) (snd p) m | Some _ \<Rightarrow> m)"

(* base/Config.h 126-143: LexicalCast<std::string, std::map<std::string, T>>, operator() *)
definition string_to_map :: "yaml_lib \<Rightarrow> (string \<Rightarrow> 'a result) \<Rightarrow> string \<Rightarrow> (string \<times> 'a) list result" where
  "string_to_map lib cast v =
     rbind (yload lib v) (\<lambda>node. rbind (cast_pairs lib cast node) (\<lambda>ps. Inr (foldl map_insert [] ps)))"

(* base/Config.h 146-164: LexicalCast<std::string, std::unordered_map<std::string, T>>, operator() *)
definition string_to_unordered_map :: "yaml_lib \<Rightarrow> (string \<Rightarrow> 'a result) \<Rightarrow> string \<Rightarrow> (string \<rightharpoonup> 'a) result" where
  "string_to_unordered_map lib cast v =
     rbind (yload lib v) (\<lambda>node. rbind (cast_pairs lib cast node) (\<lambda>ps. Inr (map_of ps)))"

subsection \<open>To strings\<close>

text \<open>
  A default-constructed node is null and becomes a sequence with the first \<^verbatim>\<open>push_back\<close>,
  a map with the first assignment to a key.
\<close>

definition seq_node :: "yaml list \<Rightarrow> yaml" where
  "seq_node ns = (if ns = [] then Null else Seq ns)"

definition map_node :: "(yaml \<times> yaml) list \<Rightarrow> yaml" where
  "map_node ps = (if ps = [] then Null else YMap ps)"

definition emit_elems :: "yaml_lib \<Rightarrow> ('a \<Rightarrow> string result) \<Rightarrow> 'a list \<Rightarrow> string result" where
  "emit_elems lib cast xs =
     rbind (rmap (\<lambda>x. rbind (cast x) (yload lib)) xs) (\<lambda>ns. Inr (yemit lib (seq_node ns)))"

definition emit_pairs :: "yaml_lib \<Rightarrow> ('a \<Rightarrow> string result) \<Rightarrow> (string \<times> 'a) list \<Rightarrow> string result" where
  "emit_pairs lib cast ps =
     rbind (rmap (\<lambda>(k, x). rbind (cast x) (\<lambda>s. rbind (yload lib s) (\<lambda>n. Inr (Scalar k, n)))) ps)
       (\<lambda>ns. Inr (yemit lib (map_node ns)))"

(* base/Config.h 167-182: LexicalCast<std::vector<T>, std::string>, operator() *)
definition vector_to_string :: "yaml_lib \<Rightarrow> ('a \<Rightarrow> string result) \<Rightarrow> 'a list \<Rightarrow> string result" where
  "vector_to_string lib cast v = emit_elems lib cast v"

(* base/Config.h 185-200: LexicalCast<std::list<T>, std::string>, operator() *)
definition list_to_string :: "yaml_lib \<Rightarrow> ('a \<Rightarrow> string result) \<Rightarrow> 'a list \<Rightarrow> string result" where
  "list_to_string lib cast v = emit_elems lib cast v"

(* base/Config.h 203-218: LexicalCast<std::set<T>, std::string>, operator() *)
definition set_to_string :: "yaml_lib \<Rightarrow> ('a \<Rightarrow> string result) \<Rightarrow> 'a list \<Rightarrow> string result" where
  "set_to_string lib cast v = emit_elems lib cast v"

text \<open>For the unordered containers the argument lists the elements in iteration order.\<close>

(* base/Config.h 221-236: LexicalCast<std::unordered_set<T>, std::string>, operator() *)
definition unordered_set_to_string :: "yaml_lib \<Rightarrow> ('a \<Rightarrow> string result) \<Rightarrow> 'a list \<Rightarrow> string result" where
  "unordered_set_to_string lib cast v = emit_elems lib cast v"

(* base/Config.h 239-254: LexicalCast<std::map<std::string, T>, std::string>, operator() *)
definition map_to_string :: "yaml_lib \<Rightarrow> ('a \<Rightarrow> string result) \<Rightarrow> (string \<times> 'a) list \<Rightarrow> string result" where
  "map_to_string lib cast v = emit_pairs lib cast v"

(* base/Config.h 257-273: LexicalCast<std::unordered_map<std::string, T>, std::string>, operator() *)
definition unordered_map_to_string :: "yaml_lib \<Rightarrow> ('a \<Rightarrow> string result) \<Rightarrow> (string \<times> 'a) list \<Rightarrow> string result" where
  "unordered_map_to_string lib cast v = emit_pairs lib cast v"

section \<open>Variables\<close>

type_synonym ('v, 'w) listener = "('v \<Rightarrow> 'v \<Rightarrow> 'w \<Rightarrow> unit result \<times> 'w) option"

definition u64_less :: "u64 \<Rightarrow> u64 \<Rightarrow> bool" where
  "u64_less a b \<longleftrightarrow> a < b"

interpretation ids: key_order u64_less
  by unfold_locales (auto simp: u64_less_def)

lemma key_equiv_u64 [simp]: "key_equiv u64_less a b \<longleftrightarrow> a = b"
  by (auto simp: key_equiv_def u64_less_def)

(* base/Config.h 388-392: ConfigVar, fields (m_name and m_description of ConfigBase) *)
record ('v, 'w) config_var =
  cv_name :: string
  cv_description :: string
  cv_type :: string
  cv_from :: "string \<Rightarrow> 'v result"
  cv_to :: "'v \<Rightarrow> string result"
  cv_val :: 'v
  m_cbs :: "(u64 \<times> ('v, 'w) listener) list"

text \<open>The type name and the two conversions are the template arguments.  Calling an empty
  \<^verbatim>\<open>std::function\<close> throws.\<close>

(* base/Config.h 288-291: ConfigVar, constructor *)
definition ConfigVar_ctor :: "string \<Rightarrow> (string \<Rightarrow> 'v result) \<Rightarrow> ('v \<Rightarrow> string result) \<Rightarrow> string \<Rightarrow> 'v \<Rightarrow> string
    \<Rightarrow> ('v, 'w) config_var" where
  "ConfigVar_ctor type from to name default_value description =
     \<lparr>cv_name = name, cv_description = description, cv_type = type, cv_from = from, cv_to = to,
      cv_val = default_value, m_cbs = []\<rparr>"

(* base/Config.h 308-311: ConfigVar::setValue, loop over m_cbs *)
fun run_listeners :: "(u64 \<times> ('v, 'w) listener) list \<Rightarrow> 'v \<Rightarrow> 'v \<Rightarrow> 'w \<Rightarrow> unit result \<times> 'w" where
  "run_listeners [] old new w = (Inr (), w)"
| "run_listeners ((i, None) # cbs) old new w = (Inl Runtime_error, w)"
| "run_listeners ((i, Some cb) # cbs) old new w =
     (case cb old new w of (Inl e, w') \<Rightarrow> (Inl e, w') | (Inr u, w') \<Rightarrow> run_listeners cbs old new w')"

(* base/Config.h 300-315: ConfigVar::setValue *)
definition setValue :: "'v \<Rightarrow> ('v, 'w) config_var \<Rightarrow> 'w \<Rightarrow> unit result \<times> ('v, 'w) config_var \<times> 'w" where
  "setValue v c w =
     (if v = cv_val c then (Inr (), c, w)
      else case run_listeners (m_cbs c) (cv_val c) v w of
          (Inl e, w') \<Rightarrow> (Inl e, c, w')
        | (Inr u, w') \<Rightarrow> (Inr (), c\<lparr>cv_val := v\<rparr>, w'))"

(* base/Config.h 322-337: ConfigVar::toString *)
definition cv_toString :: "('v, 'w) config_var \<Rightarrow> string result" where
  "cv_toString c =
     (case cv_to c (cv_val c) of Inl e \<Rightarrow> if is_exception e then Inr [] else Inl e | Inr s \<Rightarrow> Inr s)"

(* base/Config.h 339-354: ConfigVar::formString *)
definition formString :: "string \<Rightarrow> ('v, 'w) config_var \<Rightarrow> 'w \<Rightarrow> bool result \<times> ('v, 'w) config_var \<times> 'w" where
  "formString val c w =
     (let caught = (\<lambda>e. if is_exception e then Inr False else Inl e) in
      case cv_from c val of
        Inl e \<Rightarrow> (caught e, c, w)
      | Inr v \<Rightarrow>
          (case setValue v c w of
             (Inl e, c', w') \<Rightarrow> (caught e, c', w')
           | (Inr u, c', w') \<Rightarrow> (Inr True, c', w')))"

text \<open>
  The counter \<^verbatim>\<open>fun_id\<close> is static in the member function: one for each C++ type.  The
  result is the incremented counter, which is also the key.
\<close>

(* base/Config.h 356-363: ConfigVar::addListener *)
definition addListener :: "('v, 'w) listener \<Rightarrow> u64 \<Rightarrow> ('v, 'w) config_var \<Rightarrow> u64 \<times> ('v, 'w) config_var" where
  "addListener cb fun_id c =
     (let fun_id = fun_id + 1 in (fun_id, c\<lparr>m_cbs := smap_put u64_less fun_id cb (m_cbs c)\<rparr>))"

(* base/Config.h 365: ConfigVar::delListener *)
definition delListener :: "u64 \<Rightarrow> ('v, 'w) config_var \<Rightarrow> ('v, 'w) config_var" where
  "delListener key c = c\<lparr>m_cbs := smap_erase u64_less key (m_cbs c)\<rparr>"

(* base/Config.h 371: ConfigVar::clearLister *)
definition clearLister :: "('v, 'w) config_var \<Rightarrow> ('v, 'w) config_var" where
  "clearLister c = c\<lparr>m_cbs := []\<rparr>"

(* base/Config.h 377: ConfigVar::getListener *)
definition getListener :: "u64 \<Rightarrow> ('v, 'w) config_var \<Rightarrow> ('v, 'w) listener" where
  "getListener key c = (case smap_find u64_less key (m_cbs c) of None \<Rightarrow> None | Some cb \<Rightarrow> cb)"

section \<open>The table of variables\<close>

(* base/Config.h 464-475: Config, GetDatas *)
record ('v, 'w) config_state =
  datas :: "(string \<times> ('v, 'w) config_var) list"
  fun_ids :: "string \<Rightarrow> u64"

definition no_config :: "('v, 'w) config_state" where
  "no_config = \<lparr>datas = [], fun_ids = (\<lambda>_. 0)\<rparr>"

definition lower_name_chars :: string where
  "lower_name_chars = ''abcdefghijklmnopqrstuvwxyz_.0123456789''"

definition name_chars :: string where
  "name_chars = ''abcdefghijklmnopqrstuvwxyzABCDEFGHIJKLMNOPQRSTUVWXYZ_.0123456789''"

definition find_var :: "string \<Rightarrow> ('v, 'w) config_state \<Rightarrow> ('v, 'w) config_var option" where
  "find_var name st = smap_find str_less name (datas st)"

definition put_var :: "string \<Rightarrow> ('v, 'w) config_var \<Rightarrow> ('v, 'w) config_state \<Rightarrow> ('v, 'w) config_state" where
  "put_var name c st = st\<lparr>datas := smap_put str_less name c (datas st)\<rparr>"

text \<open>
  A pointer to a variable of the table is the variable's name, \<open>None\<close> the null pointer:
  entries are never removed or replaced.
\<close>

(* base/Config.h 400-447: Config::lookup *)
definition lookup :: "string \<Rightarrow> (string \<Rightarrow> 'v result) \<Rightarrow> ('v \<Rightarrow> string result) \<Rightarrow> string \<Rightarrow> 'v \<Rightarrow> string
    \<Rightarrow> ('v, 'w) config_state \<Rightarrow> (string option \<times> ('v, 'w) config_state) result" where
  "lookup type from to name default_value description st =
     (case find_var name st of
        Some it \<Rightarrow> if cv_type it = type then Inr (Some name, st) else Inr (None, st)
      | None \<Rightarrow>
          if \<exists>c \<in> set name. c \<notin> set name_chars then Inl Invalid_argument
          else Inr (Some name, put_var name (ConfigVar_ctor type from to name default_value description) st))"

(* base/Config.h 449-459: Config::lookup, by name *)
definition lookup_name :: "string \<Rightarrow> string \<Rightarrow> ('v, 'w) config_state \<Rightarrow> string option" where
  "lookup_name type name st =
     (case find_var name st of None \<Rightarrow> None | Some it \<Rightarrow> if cv_type it = type then Some name else None)"

(* base/Config.cc 7: Config::LookUpBase *)
definition LookUpBase :: "string \<Rightarrow> ('v, 'w) config_state \<Rightarrow> ('v, 'w) config_var option" where
  "LookUpBase name st = find_var name st"

text \<open>Adding a listener to a variable of the table takes the counter of its type.\<close>

definition config_listen :: "string \<Rightarrow> ('v, 'w) listener \<Rightarrow> ('v, 'w) config_state \<Rightarrow> (u64 \<times> ('v, 'w) config_state) result" where
  "config_listen name cb st =
     (case find_var name st of
        None \<Rightarrow> Inl Undefined_behaviour
      | Some c \<Rightarrow>
          let (i, c') = addListener cb (fun_ids st (cv_type c)) c in
          Inr (i, (put_var name c' st)\<lparr>fun_ids := (fun_ids st)(cv_type c := i)\<rparr>))"

subsection \<open>Loading a document\<close>

lemma size_pair_member: "(k, n) \<in> set m \<Longrightarrow> size n < size (YMap m)"
proof -
  assume "(k, n) \<in> set m"
  then have "size_prod size size (k, n) \<le> size_list (size_prod size size) m"
    by (intro size_list_estimation') auto
  then show ?thesis by simp
qed

(* base/Config.cc 14: listAllMember *)
function listAllMember :: "yaml_lib \<Rightarrow> string \<Rightarrow> yaml \<Rightarrow> (string \<times> yaml) list" where
  "listAllMember lib prefix root =
     (if \<exists>c \<in> set prefix. c \<notin> set lower_name_chars then []
      else (prefix, root) #
        concat (map (\<lambda>(k, n). listAllMember lib (if prefix = [] then yscalar lib k else prefix @ ''.'' @ yscalar lib k) n)
                  (ypairs root)))"
  by pat_completeness auto

termination
proof (relation "measure (\<lambda>(lib, prefix, root). size root)", goal_cases)
  case (2 lib prefix root x k n)
  then show ?case using size_pair_member by (cases root) auto
qed simp

declare listAllMember.simps [simp del]

(* base/Config.cc 54-80: Config::loadFromYaml, loop body *)
definition load_entry :: "yaml_lib \<Rightarrow> string \<times> yaml \<Rightarrow> ('v, 'w) config_state \<Rightarrow> 'w
    \<Rightarrow> unit result \<times> ('v, 'w) config_state \<times> 'w" where
  "load_entry lib it st w =
     (if fst it = [] then (Inr (), st, w)
      else
        let key = map to_lower (fst it) in
        case LookUpBase key st of
          None \<Rightarrow> (Inr (), st, w)
        | Some val \<Rightarrow>
            (case formString (case snd it of Scalar s \<Rightarrow> yscalar lib (Scalar s) | n \<Rightarrow> yemit lib n) val w of
               (Inl e, val', w') \<Rightarrow> (Inl e, put_var key val' st, w')
             | (Inr ok, val', w') \<Rightarrow> (Inr (), put_var key val' st, w')))"

fun load_entries :: "yaml_lib \<Rightarrow> (string \<times> yaml) list \<Rightarrow> ('v, 'w) config_state \<Rightarrow> 'w
    \<Rightarrow> unit result \<times> ('v, 'w) config_state \<times> 'w" where
  "load_entries lib [] st w = (Inr (), st, w)"
| "load_entries lib (it # its) st w =
     (case load_entry lib it st w of
        (Inl e, st', w') \<Rightarrow> (Inl e, st', w')
      | (Inr u, st', w') \<Rightarrow> load_entries lib its st' w')"

(* base/Config.cc 38: Config::loadFromYaml *)
definition loadFromYaml :: "yaml_lib \<Rightarrow> yaml \<Rightarrow> ('v, 'w) config_state \<Rightarrow> 'w
    \<Rightarrow> unit result \<times> ('v, 'w) config_state \<times> 'w" where
  "loadFromYaml lib root st w = load_entries lib (listAllMember lib [] root) st w"

text \<open>The callback of \<^verbatim>\<open>Visit\<close> returns the variable it was given as it leaves it.\<close>

fun visit_vars :: "(('v, 'w) config_var \<Rightarrow> 'w \<Rightarrow> ('v, 'w) config_var \<times> 'w) \<Rightarrow> (string \<times> ('v, 'w) config_var) list \<Rightarrow> 'w
    \<Rightarrow> (string \<times> ('v, 'w) config_var) list \<times> 'w" where
  "visit_vars cb [] w = ([], w)"
| "visit_vars cb ((k, c) # m) w =
     (let (c', w1) = cb c w; (m', w2) = visit_vars cb m w1 in ((k, c') # m', w2))"

(* base/Config.cc 83: Config::Visit *)
definition Visit :: "(('v, 'w) config_var \<Rightarrow> 'w \<Rightarrow> ('v, 'w) config_var \<times> 'w) \<Rightarrow> ('v, 'w) config_state \<Rightarrow> 'w
    \<Rightarrow> ('v, 'w) config_state \<times> 'w" where
  "Visit cb st w = (let (m, w') = visit_vars cb (datas st) w in (st\<lparr>datas := m\<rparr>, w'))"

section \<open>Well-formed tables\<close>

definition same_var :: "('v, 'w) config_var \<Rightarrow> ('v, 'w) config_var \<Rightarrow> bool" where
  "same_var c c' \<longleftrightarrow> cv_name c' = cv_name c \<and> cv_description c' = cv_description c \<and> cv_type c' = cv_type c
     \<and> cv_from c' = cv_from c \<and> cv_to c' = cv_to c
     \<and> (smap u64_less (m_cbs c) \<longrightarrow> smap u64_less (m_cbs c'))"

definition var_ok :: "string \<Rightarrow> ('v, 'w) config_var \<Rightarrow> bool" where
  "var_ok name c \<longleftrightarrow> cv_name c = name \<and> set name \<subseteq> set name_chars \<and> smap u64_less (m_cbs c)"

definition config_ok :: "('v, 'w) config_state \<Rightarrow> bool" where
  "config_ok st \<longleftrightarrow> smap str_less (datas st) \<and> (\<forall>name c. find_var name st = Some c \<longrightarrow> var_ok name c)"

text \<open>
  One step of a program that uses the table; the second component is the world the
  listeners act on.
\<close>

inductive config_step :: "yaml_lib \<Rightarrow> ('v, 'w) config_state \<times> 'w \<Rightarrow> ('v, 'w) config_state \<times> 'w \<Rightarrow> bool"
  for lib :: yaml_lib where
  look: "lookup type from to name v d st = Inr (r, st') \<Longrightarrow> config_step lib (st, w) (st', w)"
| listen: "config_listen name cb st = Inr (i, st') \<Longrightarrow> config_step lib (st, w) (st', w)"
| unlisten: "find_var name st = Some c \<Longrightarrow> config_step lib (st, w) (put_var name (delListener i c) st, w)"
| clear: "find_var name st = Some c \<Longrightarrow> config_step lib (st, w) (put_var name (clearLister c) st, w)"
| set_value: "find_var name st = Some c \<Longrightarrow> setValue v c w = (r, c', w')
    \<Longrightarrow> config_step lib (st, w) (put_var name c' st, w')"
| load: "loadFromYaml lib root st w = (r, st', w') \<Longrightarrow> config_step lib (st, w) (st', w')"

inductive config_reachable :: "yaml_lib \<Rightarrow> ('v, 'w) config_state \<times> 'w \<Rightarrow> bool" for lib :: yaml_lib where
  start: "config_reachable lib (no_config, w)"
| step: "config_reachable lib s \<Longrightarrow> config_step lib s s' \<Longrightarrow> config_reachable lib s'"

inductive_cases config_stepE: "config_step lib (st, w) (st', w')"

subsection \<open>Operations keep variables\<close>

lemma same_var_refl [simp]: "same_var c c"
  by (simp add: same_var_def)

lemma same_var_trans: "same_var a b \<Longrightarrow> same_var b c \<Longrightarrow> same_var a c"
  by (simp add: same_var_def)

lemma same_var_ops [simp]:
  "same_var c (delListener i c)" "same_var c (clearLister c)" "same_var c (c\<lparr>cv_val := v\<rparr>)"
  by (simp_all add: same_var_def delListener_def clearLister_def ids.smap_erase_smap)

lemma same_var_add: "addListener cb n c = (i, c') \<Longrightarrow> same_var c c'"
  by (auto simp: same_var_def addListener_def Let_def ids.smap_put_smap)

lemma setValue_cases:
  assumes "setValue v c w = (r, c', w')"
  obtains "c' = c" | "c' = c\<lparr>cv_val := v\<rparr>" "r = Inr ()"
  using assms by (auto simp: setValue_def split: if_splits prod.splits sum.splits)

lemma same_var_set: "setValue v c w = (r, c', w') \<Longrightarrow> same_var c c'"
  by (auto elim!: setValue_cases)

lemma same_var_form: "formString s c w = (r, c', w') \<Longrightarrow> same_var c c'"
  by (auto simp: formString_def Let_def split: sum.splits prod.splits dest: same_var_set)

lemma var_ok_same: "var_ok name c \<Longrightarrow> same_var c c' \<Longrightarrow> var_ok name c'"
  by (simp add: var_ok_def same_var_def)

lemma find_put_var:
  "config_ok st \<Longrightarrow> find_var n (put_var name c st) = (if n = name then Some c else find_var n st)"
  by (auto simp: config_ok_def find_var_def put_var_def str.find_put)

lemma find_var_more [simp]: "find_var n (st\<lparr>fun_ids := f\<rparr>) = find_var n st"
  by (simp add: find_var_def)

lemma config_ok_put: "config_ok st \<Longrightarrow> var_ok name c \<Longrightarrow> config_ok (put_var name c st)"
  using find_put_var [of st _ name c]
  by (auto simp: config_ok_def put_var_def str.smap_put_smap split: if_splits)

lemma config_ok_more [simp]: "config_ok (st\<lparr>fun_ids := f\<rparr>) = config_ok st"
  by (simp add: config_ok_def)

lemma config_okD: "config_ok st \<Longrightarrow> find_var name st = Some c \<Longrightarrow> var_ok name c"
  by (simp add: config_ok_def)

text \<open>
  \<open>keeps st st'\<close>: the table stays in order, and every variable of it is still there with
  its name, type and conversions.
\<close>

definition keeps :: "('v, 'w) config_state \<Rightarrow> ('v, 'w) config_state \<Rightarrow> bool" where
  "keeps st st' \<longleftrightarrow> (config_ok st \<longrightarrow> config_ok st'
     \<and> (\<forall>name c. find_var name st = Some c \<longrightarrow> (\<exists>c'. find_var name st' = Some c' \<and> same_var c c')))"

lemma keeps_refl [simp]: "keeps st st"
  by (auto simp: keeps_def)

lemma keeps_trans: "keeps a b \<Longrightarrow> keeps b c \<Longrightarrow> keeps a c"
  unfolding keeps_def using same_var_trans by blast

lemma keeps_put: "find_var name st = Some c \<Longrightarrow> same_var c c' \<Longrightarrow> keeps st (put_var name c' st)"
  using var_ok_same config_okD by (fastforce simp: keeps_def config_ok_put find_put_var)

lemma keeps_more: "keeps st st' \<Longrightarrow> keeps st (st'\<lparr>fun_ids := f\<rparr>)"
  by (simp add: keeps_def)

lemma keeps_entry: "load_entry lib it st w = (r, st', w') \<Longrightarrow> keeps st st'"
  by (auto simp: load_entry_def Let_def LookUpBase_def split: if_splits option.splits prod.splits sum.splits
      intro: keeps_put dest: same_var_form)

lemma keeps_entries: "load_entries lib its st w = (r, st', w') \<Longrightarrow> keeps st st'"
proof (induction its arbitrary: st w)
  case (Cons it its)
  obtain r1 st1 w1 where e: "load_entry lib it st w = (r1, st1, w1)" by (rule prod_cases3)
  then show ?case using Cons keeps_entry [OF e] by (cases r1) (auto intro: keeps_trans)
qed simp

lemma keeps_lookup:
  fixes st :: "('v, 'w) config_state"
  assumes "lookup type from to name v d st = Inr (r, st')"
  shows "keeps st st'"
proof (cases "find_var name st")
  case None
  then have st': "st' = put_var name (ConfigVar_ctor type from to name v d) st" "set name \<subseteq> set name_chars"
    using assms by (auto simp: lookup_def split: if_splits)
  then have "var_ok name (ConfigVar_ctor type from to name v d :: ('v, 'w) config_var)" by (simp add: var_ok_def ConfigVar_ctor_def)
  then show ?thesis using st' None by (auto simp: keeps_def config_ok_put find_put_var)
next
  case (Some c)
  then show ?thesis using assms by (auto simp: lookup_def split: if_splits)
qed

lemma keeps_listen: "config_listen name cb st = Inr (i, st') \<Longrightarrow> keeps st st'"
  by (auto simp: config_listen_def split: option.splits prod.splits intro!: keeps_more keeps_put dest: same_var_add)

lemma config_step_keeps: "config_step lib (st, w) (st', w') \<Longrightarrow> keeps st st'"
  by (erule config_stepE)
    (auto intro: keeps_lookup keeps_listen keeps_put same_var_set keeps_entries simp: loadFromYaml_def)

lemma config_reachable_ok: "config_reachable lib s \<Longrightarrow> config_ok (fst s)"
proof (induction rule: config_reachable.induct)
  case (start w)
  then show ?case by (simp add: no_config_def config_ok_def find_var_def)
next
  case (step s s')
  then show ?case using config_step_keeps [of lib "fst s" "snd s" "fst s'" "snd s'"] by (simp add: keeps_def)
qed

subsection \<open>What a document names\<close>

lemma to_lower_name: "c \<in> set lower_name_chars \<Longrightarrow> to_lower c = c"
  by (auto simp: lower_name_chars_def to_lower_def is_upper_def)

lemma members_lower: "(k, n) \<in> set (listAllMember lib prefix root) \<Longrightarrow> set k \<subseteq> set lower_name_chars"
proof (induction lib prefix root rule: listAllMember.induct)
  case (1 lib prefix root)
  show ?case
  proof (cases "\<exists>c \<in> set prefix. c \<notin> set lower_name_chars")
    case True
    then show ?thesis using 1(2) by (simp add: listAllMember.simps)
  next
    case False
    then show ?thesis using 1 by (subst (asm) (2) listAllMember.simps) force
  qed
qed

lemma members_key: "(k, n) \<in> set (listAllMember lib prefix root) \<Longrightarrow> map to_lower k = k"
  using members_lower [of k n lib prefix root] to_lower_name by (auto intro!: map_idI)

lemma entry_other:
  "load_entry lib it st w = (r, st', w') \<Longrightarrow> config_ok st \<Longrightarrow> name \<noteq> map to_lower (fst it) \<or> fst it = [] \<Longrightarrow>
   find_var name st' = find_var name st"
  by (auto simp: load_entry_def Let_def LookUpBase_def find_put_var
      split: if_splits option.splits prod.splits sum.splits)

lemma entries_other:
  "load_entries lib its st w = (r, st', w') \<Longrightarrow> config_ok st \<Longrightarrow>
   \<forall>it \<in> set its. name \<noteq> map to_lower (fst it) \<or> fst it = [] \<Longrightarrow> find_var name st' = find_var name st"
proof (induction its arbitrary: st w)
  case (Cons it its)
  obtain r1 st1 w1 where e: "load_entry lib it st w = (r1, st1, w1)" by (rule prod_cases3)
  have "config_ok st1" using keeps_entry [OF e] Cons.prems(2) by (simp add: keeps_def)
  moreover have "find_var name st1 = find_var name st"
    by (rule entry_other [OF e Cons.prems(2)]) (use Cons.prems(3) in simp)
  ultimately show ?case using Cons e by (cases r1) auto
qed simp

lemma load_entries_append:
  "load_entries lib (xs @ ys) st w =
     (case load_entries lib xs st w of (Inl e, st', w') \<Rightarrow> (Inl e, st', w') | (Inr u, st', w') \<Rightarrow> load_entries lib ys st' w')"
  by (induction xs arbitrary: st w) (auto split: prod.splits sum.splits)

definition node_text :: "yaml_lib \<Rightarrow> yaml \<Rightarrow> string" where
  "node_text lib n = (case n of Scalar s \<Rightarrow> yscalar lib (Scalar s) | m \<Rightarrow> yemit lib m)"

definition never_throws :: "('v, 'w) config_var \<Rightarrow> bool" where
  "never_throws c \<longleftrightarrow> (\<forall>old new w. fst (run_listeners (m_cbs c) old new w) = Inr ())"

lemma entry_sets:
  assumes "config_ok st" "find_var name st = Some c" "name \<noteq> []" "map to_lower name = name" "never_throws c"
    and "load_entry lib (name, n) st w = (r, st', w')"
  shows "\<exists>c'. find_var name st' = Some c'
    \<and> cv_val c' = (case cv_from c (node_text lib n) of Inl _ \<Rightarrow> cv_val c | Inr v \<Rightarrow> v)"
proof -
  have set_ok: "\<exists>w'. setValue v c w = (Inr (), c\<lparr>cv_val := v\<rparr>, w')" for v w
    using assms(5) unfolding never_throws_def setValue_def
    by (auto split: prod.splits sum.splits) (metis fst_conv sum.distinct(1))
  show ?thesis
  proof (cases "cv_from c (node_text lib n)")
    case (Inl e)
    then show ?thesis using assms
      by (auto simp: load_entry_def LookUpBase_def formString_def Let_def node_text_def [symmetric] find_put_var
          split: if_splits)
  next
    case (Inr v)
    obtain w2 where "setValue v c w = (Inr (), c\<lparr>cv_val := v\<rparr>, w2)" using set_ok by blast
    then show ?thesis using assms Inr
      by (auto simp: load_entry_def LookUpBase_def formString_def Let_def node_text_def [symmetric] find_put_var)
  qed
qed

section \<open>Properties\<close>

text \<open>
  C36: Variables keep their type.  In every reachable table the names are strictly ascending
  and the variables have legal names; each step keeps every variable under its name with its type
  and conversions; looking a name up with its type finds that variable and changes
  nothing, with another type it gives the null pointer, and for a name that is not in the
  table it adds the default value or, if the name has an illegal character, throws.
\<close>

theorem variables_keep_type:
  assumes "config_reachable lib (st, w)"
  shows "smap str_less (datas st) \<and> (\<forall>name c. find_var name st = Some c \<longrightarrow> cv_name c = name \<and> set name \<subseteq> set name_chars
        \<and> lookup (cv_type c) from to name v d st = Inr (Some name, st)
        \<and> lookup_name (cv_type c) name st = Some name
        \<and> (type \<noteq> cv_type c \<longrightarrow> lookup type from to name v d st = Inr (None, st) \<and> lookup_name type name st = None)
        \<and> (\<forall>st' w'. config_step lib (st, w) (st', w') \<longrightarrow>
            (\<exists>c'. find_var name st' = Some c' \<and> cv_type c' = cv_type c \<and> cv_from c' = cv_from c \<and> cv_to c' = cv_to c)))
    \<and> (\<forall>name. find_var name st = None \<longrightarrow>
        (if set name \<subseteq> set name_chars
         then \<exists>st' c. lookup type from to name v d st = Inr (Some name, st') \<and> find_var name st' = Some c
                \<and> cv_val c = v \<and> cv_type c = type
         else lookup type from to name v d st = Inl Invalid_argument))"
proof (intro conjI allI impI)
  have ok: "config_ok st" using config_reachable_ok [OF assms] by simp
  show "smap str_less (datas st)" using ok by (simp add: config_ok_def)
  fix name c assume c: "find_var name st = Some c"
  show "cv_name c = name" "set name \<subseteq> set name_chars" using config_okD [OF ok c] by (simp_all add: var_ok_def)
  show "lookup (cv_type c) from to name v d st = Inr (Some name, st)" "lookup_name (cv_type c) name st = Some name"
    using c by (simp_all add: lookup_def lookup_name_def)
  show "lookup type from to name v d st = Inr (None, st)" "lookup_name type name st = None" if "type \<noteq> cv_type c"
    using c that by (simp_all add: lookup_def lookup_name_def)
  fix st' w' assume "config_step lib (st, w) (st', w')"
  then have "keeps st st'" by (rule config_step_keeps)
  then obtain c' where "find_var name st' = Some c'" "same_var c c'" using ok c by (auto simp: keeps_def)
  then show "\<exists>c'. find_var name st' = Some c' \<and> cv_type c' = cv_type c \<and> cv_from c' = cv_from c \<and> cv_to c' = cv_to c"
    by (auto simp: same_var_def)
next
  fix name assume "find_var name st = None"
  then show "if set name \<subseteq> set name_chars
         then \<exists>st' c. lookup type from to name v d st = Inr (Some name, st') \<and> find_var name st' = Some c
                \<and> cv_val c = v \<and> cv_type c = type
         else lookup type from to name v d st = Inl Invalid_argument"
    using config_reachable_ok [OF assms] by (auto simp: lookup_def find_put_var ConfigVar_ctor_def)
qed

text \<open>
  Listeners.  Setting a variable to another value calls every listener once, in the
  order of their identifiers, with the old and the new value, and then stores the value;
  setting it to its present value does nothing.  A listener that throws keeps the listeners
  after it from being called and the value from being stored.
\<close>

theorem listeners_called_once:
  fixes c c' :: "('v, (u64 \<times> 'v \<times> 'v) list) config_var"
  assumes "m_cbs c = map (\<lambda>i. (i, Some (\<lambda>old new w. (Inr (), w @ [(i, old, new)])))) ids"
    and "m_cbs c' = m_cbs c @ (j, Some (\<lambda>old new w. (Inl e, w))) # later" "v \<noteq> cv_val c'"
  shows "setValue v c w =
      (Inr (), c\<lparr>cv_val := v\<rparr>, w @ (if v = cv_val c then [] else map (\<lambda>i. (i, cv_val c, v)) ids))
    \<and> setValue v c' w = (Inl e, c', w @ map (\<lambda>i. (i, cv_val c', v)) ids)"
proof -
  have "run_listeners (map (\<lambda>i. (i, Some (\<lambda>old new w. (Inr (), w @ [(i, old, new)])))) ids @ rest) old new w =
      run_listeners rest old new (w @ map (\<lambda>i. (i, old, new)) ids)" for old new :: 'v and w rest
    by (induction ids arbitrary: w) simp_all
  from this [of "[]"] this [of "(j, Some (\<lambda>old new w. (Inl e, w))) # later"] show ?thesis
    using assms by (simp add: setValue_def)
qed

definition demo_var :: "(int, (u64 \<times> int \<times> int) list) config_var" where
  "demo_var = (ConfigVar_ctor ''i'' (\<lambda>s. if s = ''7'' then Inr 7 else Inl Runtime_error) (\<lambda>i. Inr (show_int i)) ''port'' 1 [])
     \<lparr>m_cbs := [(1, Some (\<lambda>old new w. (Inr (), w @ [(1, old, new)]))), (4, Some (\<lambda>old new w. (Inr (), w @ [(4, old, new)])))]\<rparr>"

theorem listeners_called_once_witness:
  "setValue 7 demo_var [] = (Inr (), demo_var\<lparr>cv_val := 7\<rparr>, [(1, 1, 7), (4, 1, 7)])"
  using listeners_called_once [of demo_var "[1, 4]"
      "demo_var\<lparr>m_cbs := m_cbs demo_var @ [(5, Some (\<lambda>old new w. (Inl Logic_error, w)))]\<rparr>" 5 Logic_error "[]" 7 "[]"]
  by (simp add: demo_var_def ConfigVar_ctor_def)

theorem variables_keep_type_witness:
  "\<exists>st. lookup ''i'' (\<lambda>_. Inr 0) (\<lambda>_. Inr []) ''port'' (1 :: int) [] (no_config :: (int, unit) config_state) = Inr (Some ''port'', st)
     \<and> lookup ''s'' (\<lambda>_. Inr 0) (\<lambda>_. Inr []) ''port'' 5 [] st = Inr (None, st)"
proof -
  let ?lookup = "lookup ''i'' (\<lambda>_. Inr 0) (\<lambda>_. Inr []) ''port'' (1 :: int) []"
  obtain st where st: "?lookup (no_config :: (int, unit) config_state) = Inr (Some ''port'', st)"
    and c: "find_var ''port'' st = Some (ConfigVar_ctor ''i'' (\<lambda>_. Inr 0) (\<lambda>_. Inr []) ''port'' 1 [])"
    by (simp add: lookup_def find_var_def no_config_def put_var_def name_chars_def str_less_def)
  let ?lib = "\<lparr>yload = \<lambda>_. Inr Null, yemit = \<lambda>_. [], yscalar = \<lambda>_. [], yelems = \<lambda>_. [], ysub = \<lambda>_ _. Inr None, yas = \<lambda>_. Inr []\<rparr>"
  have "config_reachable ?lib (st, ())"
    by (rule config_reachable.step [OF config_reachable.start config_step.look [OF st]])
  from variables_keep_type [OF this, of "\<lambda>_. Inr 0" "\<lambda>_. Inr []" 5 "[]" "''s''"] c
  have "lookup ''s'' (\<lambda>_. Inr 0) (\<lambda>_. Inr []) ''port'' 5 [] st = Inr (None, st)"
    by (auto simp: ConfigVar_ctor_def)
  with st show ?thesis by blast
qed

text \<open>
  C25: Loading a document.  In a reachable table, loading a document leaves every variable
  alone that the document does not name.  A variable named exactly once whose listeners
  do not throw has afterwards the value its conversion gives for the text of that node,
  or its old value when the conversion throws.
\<close>

theorem load_sets_named:
  assumes "config_reachable lib (st, w0)" "loadFromYaml lib root st w = (Inr (), st', w')"
  shows "(name \<notin> fst ` set (listAllMember lib [] root) \<longrightarrow> find_var name st' = find_var name st)
    \<and> (\<forall>before n after c. listAllMember lib [] root = before @ (name, n) # after \<and> name \<noteq> []
        \<and> name \<notin> fst ` set (before @ after) \<and> find_var name st = Some c \<and> never_throws c \<longrightarrow>
        (\<exists>c'. find_var name st' = Some c'
          \<and> cv_val c' = (case cv_from c (node_text lib n) of Inl _ \<Rightarrow> cv_val c | Inr v \<Rightarrow> v)))"
proof (intro conjI allI impI)
  have ok: "config_ok st" using config_reachable_ok [OF assms(1)] by simp
  note all = assms(2) [unfolded loadFromYaml_def]
  note key = members_key [of _ _ lib "[]" root]
  show "find_var name st' = find_var name st" if "name \<notin> fst ` set (listAllMember lib [] root)"
    by (rule entries_other [OF all ok]) (use that key in force)
  fix before n after c
  assume split: "listAllMember lib [] root = before @ (name, n) # after \<and> name \<noteq> []
        \<and> name \<notin> fst ` set (before @ after) \<and> find_var name st = Some c \<and> never_throws c"
  then have lower: "map to_lower name = name" and others: "\<forall>it \<in> set (before @ after). name \<noteq> map to_lower (fst it)"
    using key by force+
  obtain r1 st1 w1 where b: "load_entries lib before st w = (r1, st1, w1)" by (rule prod_cases3)
  obtain r2 st2 w2 where e: "load_entry lib (name, n) st1 w1 = (r2, st2, w2)" by (rule prod_cases3)
  have a: "load_entries lib after st2 w2 = (Inr (), st', w')"
    using all split b e by (auto simp: load_entries_append split: sum.splits)
  have ok1: "config_ok st1" using keeps_entries [OF b] ok by (simp add: keeps_def)
  have ok2: "config_ok st2" using keeps_entry [OF e] ok1 by (simp add: keeps_def)
  have "find_var name st1 = Some c" using entries_other [OF b ok, of name] others split by simp
  then have "\<exists>c'. find_var name st2 = Some c'
      \<and> cv_val c' = (case cv_from c (node_text lib n) of Inl _ \<Rightarrow> cv_val c | Inr v \<Rightarrow> v)"
    using entry_sets [OF ok1 _ _ lower _ e] split by simp
  moreover have "find_var name st' = find_var name st2" using entries_other [OF a ok2, of name] others by simp
  ultimately show "\<exists>c'. find_var name st' = Some c'
      \<and> cv_val c' = (case cv_from c (node_text lib n) of Inl _ \<Rightarrow> cv_val c | Inr v \<Rightarrow> v)" by simp
qed

text \<open>
  Names with capital letters cannot be loaded.  \<^verbatim>\<open>lookup\<close> accepts them, but no
  document changes such a variable.
\<close>

theorem capital_names_not_loaded:
  assumes "config_reachable lib (st, w0)" "c \<in> set name" "is_upper c"
  shows "find_var name (fst (snd (loadFromYaml lib root st w))) = find_var name st
    \<and> (set name \<subseteq> set name_chars \<and> find_var name st = None \<longrightarrow>
        is_ok (lookup type from to name v d st))"
proof -
  have ok: "config_ok st" using config_reachable_ok [OF assms(1)] by simp
  have "c \<notin> set lower_name_chars" using assms(3) by (auto simp: lower_name_chars_def is_upper_def)
  then have "name \<noteq> map to_lower k" if "(k, n) \<in> set (listAllMember lib [] root)" for k n
    using members_key [OF that] members_lower [OF that] assms(2) by auto
  then have "\<forall>(k, n) \<in> set (listAllMember lib [] root). name \<noteq> map to_lower k" by blast
  then have "\<forall>it \<in> set (listAllMember lib [] root). name \<noteq> map to_lower (fst it)" by (simp add: split_def)
  then have "find_var name st' = find_var name st" if "loadFromYaml lib root st w = (r, st', w')" for r st' w'
    using entries_other [OF that [unfolded loadFromYaml_def] ok] by blast
  then show ?thesis by (cases "loadFromYaml lib root st w") (auto simp: lookup_def)
qed

lemma map_insert_sorted: "smap str_less (m @ ps) \<Longrightarrow> foldl map_insert m ps = m @ ps"
proof (induction ps arbitrary: m)
  case (Cons p ps)
  obtain k x where p: "p = (k, x)" by (cases p)
  have "\<forall>(b, _) \<in> set m. str_less b k" using Cons.prems by (auto simp: smap_def sorted_wrt_append p)
  then have "smap_find str_less k m = None" "smap_put str_less k x m = m @ [(k, x)]"
    by (induction m) (auto simp: str_less_def)
  then show ?case using Cons by (simp add: map_insert_def p)
qed simp

lemma cset_insert_sorted: "sorted_wrt lt (s @ xs) \<Longrightarrow> foldl (\<lambda>s x. cset_insert lt x s) s xs = s @ xs"
proof (induction xs arbitrary: s)
  case (Cons x xs)
  then have "\<forall>y \<in> set s. lt y x" by (auto simp: sorted_wrt_append)
  then have "cset_insert lt x s = s @ [x]" by (induction s) auto
  then show ?case using Cons by simp
qed simp

text \<open>
  Containers survive the trip through YAML text.  When the library reads back what it
  emits for the node of a container and the elements survive it, converting a vector, a
  list or a string-keyed map to text and back gives the container.
\<close>

theorem containers_round_trip:
  assumes "yaml_laws lib"
    and "list_all2 (\<lambda>x n. \<exists>s. to x = Inr s \<and> yload lib s = Inr n \<and> from (yemit lib n) = Inr x) xs ns"
    and "yload lib (yemit lib (seq_node ns)) = Inr (seq_node ns)"
    and "length ks = length xs" "sorted_wrt (<) ks"
    and "yload lib (yemit lib (map_node (zip (map Scalar ks) ns))) = Inr (map_node (zip (map Scalar ks) ns))"
  shows "rbind (vector_to_string lib to xs) (string_to_vector lib from) = Inr xs
    \<and> rbind (list_to_string lib to xs) (string_to_list lib from) = Inr xs
    \<and> (sorted_wrt lt xs \<longrightarrow> rbind (set_to_string lib to xs) (string_to_set lib lt from) = Inr xs)
    \<and> rbind (map_to_string lib to (zip ks xs)) (string_to_map lib from) = Inr (zip ks xs)"
proof -
  note laws = assms(1) [unfolded yaml_laws_def]
  have out: "rmap (\<lambda>x. rbind (to x) (yload lib)) xs = Inr ns" "rmap (\<lambda>n. from (yemit lib n)) ns = Inr xs"
    using assms(2) by (induction rule: list_all2_induct) auto
  have elems: "yelems lib (seq_node ns) = ns" using laws by (simp add: seq_node_def)
  have pairs: "rmap (\<lambda>(k, x). rbind (to x) (\<lambda>s. rbind (yload lib s) (\<lambda>n. Inr (Scalar k, n)))) (zip ks xs) = Inr (zip (map Scalar ks) ns)
      \<and> rmap (\<lambda>(k, n). rbind (from (yemit lib n)) (\<lambda>x. Inr (yscalar lib k, x))) (zip (map Scalar ks) ns) = Inr (zip ks xs)"
    using assms(2,4)
  proof (induction xs ns arbitrary: ks rule: list_all2_induct)
    case (Cons x xs n ns)
    then show ?case using laws by (cases ks) auto
  qed simp
  have node: "ypairs (map_node (zip (map Scalar ks) ns)) = zip (map Scalar ks) ns" by (simp add: map_node_def)
  have "smap str_less (zip ks xs)"
    using assms(4,5) by (auto simp: smap_def sorted_wrt_iff_nth_less str_less_def)
  then have "foldl map_insert [] (zip ks xs) = zip ks xs" using map_insert_sorted [of "[]"] by simp
  then show ?thesis
    using out elems assms(3,6) pairs node cset_insert_sorted [of lt "[]" xs]
    by (simp add: vector_to_string_def list_to_string_def set_to_string_def map_to_string_def emit_elems_def emit_pairs_def
        string_to_vector_def string_to_list_def string_to_set_def string_to_map_def cast_pairs_def)
qed

subsection \<open>Witnesses\<close>

text \<open>
  A library that reads single words and emits a sequence of words with commas between
  them and a map with colons.
\<close>

fun demo_emit :: "yaml \<Rightarrow> string" where
  "demo_emit Null = ''~''"
| "demo_emit (Scalar s) = s"
| "demo_emit (Seq xs) = concat (map (\<lambda>x. demo_emit x @ '','') xs)"
| "demo_emit (YMap m) = concat (map (\<lambda>(k, n). demo_emit k @ '':'' @ demo_emit n @ '','') m)"

definition demo_lib :: yaml_lib where
  "demo_lib = \<lparr>yload = \<lambda>s. if s = ''a,b,'' then Inr (Seq [Scalar ''a'', Scalar ''b''])
       else if s = ''k:a,l:b,'' then Inr (YMap [(Scalar ''k'', Scalar ''a''), (Scalar ''l'', Scalar ''b'')]) else Inr (Scalar s),
     yemit = demo_emit, yscalar = (\<lambda>n. case n of Scalar s \<Rightarrow> s | _ \<Rightarrow> []),
     yelems = (\<lambda>n. case n of Seq xs \<Rightarrow> xs | _ \<Rightarrow> []),
     ysub = (\<lambda>k n. case n of YMap m \<Rightarrow> Inr (map_of m (Scalar k)) | _ \<Rightarrow> Inl Runtime_error),
     yas = (\<lambda>n. case n of Scalar s \<Rightarrow> Inr s | _ \<Rightarrow> Inl Runtime_error)\<rparr>"

lemma demo_lib_laws: "yaml_laws demo_lib"
  by (simp add: yaml_laws_def demo_lib_def)

theorem containers_round_trip_witness:
  "rbind (vector_to_string demo_lib Inr [''a'', ''b'']) (string_to_vector demo_lib Inr) = Inr [''a'', ''b'']
   \<and> rbind (map_to_string demo_lib Inr [(''k'', ''a''), (''l'', ''b'')]) (string_to_map demo_lib Inr) = Inr [(''k'', ''a''), (''l'', ''b'')]"
  using containers_round_trip [OF demo_lib_laws, of Inr Inr "[''a'', ''b'']" "[Scalar ''a'', Scalar ''b'']" "[''k'', ''l'']" str_less]
  by (simp add: demo_lib_def seq_node_def map_node_def)

definition demo_doc :: yaml where
  "demo_doc = YMap [(Scalar ''port'', Scalar ''7''), (Scalar ''Host'', Scalar ''x'')]"

lemma demo_doc_members: "listAllMember demo_lib [] demo_doc = [([], demo_doc), (''port'', Scalar ''7'')]"
  by (simp add: demo_doc_def listAllMember.simps demo_lib_def lower_name_chars_def)

definition demo_config :: "(int, unit) config_state" where
  "demo_config = put_var ''port'' (ConfigVar_ctor ''i'' (\<lambda>s. if s = ''7'' then Inr 7 else Inl Runtime_error)
     (\<lambda>i. Inr (show_int i)) ''port'' 1 []) no_config"

lemma demo_config_reachable: "config_reachable demo_lib (demo_config, ())"
proof -
  have "lookup ''i'' (\<lambda>s. if s = ''7'' then Inr 7 else Inl Runtime_error) (\<lambda>i. Inr (show_int i)) ''port'' 1 [] no_config
      = Inr (Some ''port'', demo_config)"
    by (simp add: lookup_def demo_config_def find_var_def no_config_def name_chars_def)
  then show ?thesis by (rule config_reachable.step [OF config_reachable.start config_step.look])
qed

lemma demo_config_var:
  "find_var ''port'' demo_config = Some (ConfigVar_ctor ''i'' (\<lambda>s. if s = ''7'' then Inr 7 else Inl Runtime_error)
     (\<lambda>i. Inr (show_int i)) ''port'' 1 [])"
  by (simp add: demo_config_def find_var_def put_var_def no_config_def str_less_def)

theorem load_sets_named_witness:
  "\<exists>c. find_var ''port'' (fst (snd (loadFromYaml demo_lib demo_doc demo_config ()))) = Some c \<and> cv_val c = 7"
proof -
  let ?r = "loadFromYaml demo_lib demo_doc demo_config ()"
  have "fst ?r = Inr ()"
    unfolding loadFromYaml_def demo_doc_members
    by (simp add: load_entry_def LookUpBase_def demo_config_var formString_def
        ConfigVar_ctor_def demo_lib_def setValue_def Let_def to_lower_def is_upper_def)
  then have r: "?r = (Inr (), fst (snd ?r), snd (snd ?r))" by (simp add: prod_eq_iff)
  have "listAllMember demo_lib [] demo_doc = [([], demo_doc)] @ (''port'', Scalar ''7'') # []"
    by (simp add: demo_doc_members)
  from load_sets_named [OF demo_config_reachable r, of "''port''", THEN conjunct2, rule_format,
      OF conjI [OF this conjI [OF _ conjI [OF _ conjI [OF demo_config_var]]]]]
  show ?thesis by (simp add: never_throws_def ConfigVar_ctor_def node_text_def demo_lib_def)
qed

theorem capital_names_not_loaded_witness:
  "find_var ''Host'' (fst (snd (loadFromYaml demo_lib demo_doc demo_config ()))) = find_var ''Host'' demo_config
   \<and> is_ok (lookup ''i'' (\<lambda>_. Inr 0) (\<lambda>_. Inr []) ''Host'' 1 [] demo_config)"
proof -
  have "find_var ''Host'' demo_config = None"
    by (simp add: demo_config_def find_var_def put_var_def no_config_def str_less_def)
  then show ?thesis
    using capital_names_not_loaded [OF demo_config_reachable, of "CHR ''H''" "''Host''" demo_doc "()"]
    by (simp add: is_upper_def name_chars_def)
qed

end
