(* ===== verification/Logger.thy ===== *)
theory Logger
  imports LogFormat Config
begin

text \<open>
  Loggers, appenders, the log manager and the log configuration of \<^verbatim>\<open>base/Logger.cc\<close>.
  The world is an explicit store: loggers and appenders are referred to by their index
  (the C++ code shares them through pointers), and the standard output and the files
  are texts of the store.  A file stream writes through at its own position; opening it
  truncates the file, as \<^verbatim>\<open>std::ofstream::open\<close> does.  Whether a file can be opened, the
  clock, the running thread and the text of a date are the record \<open>log_env\<close>.

  The loggers' mutexes are not recursive: \<open>Logger_log\<close> carries the loggers whose mutex the
  caller holds, and taking one of them again is a deadlock.
\<close>

section \<open>State\<close>

datatype appender_kind = StdoutLogAppender | FileLogAppender string

(* base/Logger.h 159-168: LoggerAppender, fields; those of FileLogAppender *)
record appender =
  ap_kind :: appender_kind
  m_formater :: "formatter option"
  m_hasFormatter :: bool
  ap_level :: level
  ap_open :: bool
  ap_pos :: nat
  lastTime :: u64

(* base/Logger.h 228-235: Logger, fields *)
record logger =
  lg_name :: string
  lg_level :: level
  lg_appenders :: "nat list"
  lg_formatter :: "formatter option"
  lg_root :: "nat option"

text \<open>\<open>m_loggers\<close> and \<open>m_root\<close> are the fields of the one \<^verbatim>\<open>LogManger\<close>.\<close>

(* base/Logger.h 248-252: LogManger, fields *)
record log_world =
  appenders :: "appender list"
  loggers :: "logger list"
  m_loggers :: "(string \<times> nat) list"
  m_root :: nat
  std_out :: string
  files :: "string \<Rightarrow> string"

record log_env =
  env_open :: "string \<Rightarrow> bool"
  env_date :: "string \<Rightarrow> u64 \<Rightarrow> string"
  env_now :: u64
  env_thread :: u32
  env_fiber :: u32
  env_thread_name :: string
  env_file :: string

definition get_logger :: "nat \<Rightarrow> log_world \<Rightarrow> logger result" where
  "get_logger i w = (if i < length (loggers w) then Inr (loggers w ! i) else Inl Undefined_behaviour)"

definition upd_logger :: "nat \<Rightarrow> (logger \<Rightarrow> logger) \<Rightarrow> log_world \<Rightarrow> log_world result" where
  "upd_logger i f w = rbind (get_logger i w) (\<lambda>g. Inr (w\<lparr>loggers := (loggers w)[i := f g]\<rparr>))"

definition get_appender :: "nat \<Rightarrow> log_world \<Rightarrow> appender result" where
  "get_appender a w = (if a < length (appenders w) then Inr (appenders w ! a) else Inl Undefined_behaviour)"

definition upd_appender :: "nat \<Rightarrow> (appender \<Rightarrow> appender) \<Rightarrow> log_world \<Rightarrow> log_world result" where
  "upd_appender a f w = rbind (get_appender a w) (\<lambda>x. Inr (w\<lparr>appenders := (appenders w)[a := f x]\<rparr>))"

section \<open>Appenders\<close>

definition new_appender :: "appender_kind \<Rightarrow> appender" where
  "new_appender k = \<lparr>ap_kind = k, m_formater = None, m_hasFormatter = False, ap_level = DEBUG,
     ap_open = False, ap_pos = 0, lastTime = 0\<rparr>"

(* base/Logger.cc 442: FileLogAppender::reopen *)
definition reopen :: "log_env \<Rightarrow> string \<Rightarrow> appender \<Rightarrow> log_world \<Rightarrow> bool \<times> appender \<times> log_world" where
  "reopen env filename ap w =
     (if env_open env filename
      then (False, ap\<lparr>ap_open := True, ap_pos := 0\<rparr>, w\<lparr>files := (files w)(filename := [])\<rparr>)
      else (True, ap\<lparr>ap_open := False\<rparr>, w))"

(* base/Logger.cc 417: FileLogAppender::FileLogAppender *)
definition FileLogAppender_ctor :: "log_env \<Rightarrow> string \<Rightarrow> log_world \<Rightarrow> nat \<times> log_world" where
  "FileLogAppender_ctor env filename w =
     (let (_, ap, w') = reopen env filename (new_appender (FileLogAppender filename)) w in
      (length (appenders w), w'\<lparr>appenders := appenders w @ [ap]\<rparr>))"

definition StdoutLogAppender_ctor :: "log_world \<Rightarrow> nat \<times> log_world" where
  "StdoutLogAppender_ctor w =
     (length (appenders w), w\<lparr>appenders := appenders w @ [new_appender StdoutLogAppender]\<rparr>)"

(* base/Logger.cc 396: LoggerAppender::getForamter *)
definition getForamter :: "nat \<Rightarrow> log_world \<Rightarrow> formatter option result" where
  "getForamter a w = rbind (get_appender a w) (\<lambda>ap. Inr (m_formater ap))"

(* base/Logger.cc 403: LoggerAppender::setFormatter *)
definition ap_setFormatter :: "formatter option \<Rightarrow> nat \<Rightarrow> log_world \<Rightarrow> log_world result" where
  "ap_setFormatter val a w =
     upd_appender a (\<lambda>ap. ap\<lparr>m_formater := val, m_hasFormatter := (val \<noteq> None)\<rparr>) w"

definition ap_setLevel :: "level \<Rightarrow> nat \<Rightarrow> log_world \<Rightarrow> log_world result" where
  "ap_setLevel l a w = upd_appender a (\<lambda>ap. ap\<lparr>ap_level := l\<rparr>) w"

definition logger_names :: "log_world \<Rightarrow> nat \<Rightarrow> string" where
  "logger_names w i = lg_name (loggers w ! i)"

definition ap_format :: "log_env \<Rightarrow> level \<Rightarrow> log_event \<Rightarrow> appender \<Rightarrow> log_world \<Rightarrow> string result" where
  "ap_format env lvl event ap w =
     (case m_formater ap of
        None \<Rightarrow> Inl Undefined_behaviour
      | Some f \<Rightarrow> if m_logger event < length (loggers w)
          then formatter_format (logger_names w) (env_date env) lvl event f else Inl Undefined_behaviour)"

(* base/Logger.cc 473: StdoutLogAppender::log *)
definition Stdout_log :: "log_env \<Rightarrow> level \<Rightarrow> log_event \<Rightarrow> appender \<Rightarrow> log_world \<Rightarrow> log_world result" where
  "Stdout_log env lvl event ap w =
     (if level_val lvl \<ge> level_val (ap_level ap)
      then rbind (ap_format env lvl event ap w) (\<lambda>s. Inr (w\<lparr>std_out := std_out w @ s\<rparr>))
      else Inr w)"

text \<open>Writing at a position past the end of a file leaves zero bytes in between.\<close>

definition write_at :: "string \<Rightarrow> nat \<Rightarrow> string \<Rightarrow> string" where
  "write_at content pos s =
     take pos content @ replicate (pos - length content) NUL @ s @ drop (pos + length s) content"

(* base/Logger.cc 423: FileLogAppender::log *)
definition File_log :: "log_env \<Rightarrow> string \<Rightarrow> level \<Rightarrow> log_event \<Rightarrow> nat \<Rightarrow> appender \<Rightarrow> log_world \<Rightarrow> log_world result" where
  "File_log env filename lvl event a ap w =
     (if level_val lvl \<ge> level_val (ap_level ap)
      then
        let (ap1, w1) = (if env_now env \<noteq> lastTime ap
                         then (let (_, ap', w') = reopen env filename ap w in (ap'\<lparr>lastTime := env_now env\<rparr>, w'))
                         else (ap, w)) in
        rbind (ap_format env lvl event ap1 w1) (\<lambda>s.
          if ap_open ap1
          then Inr (w1\<lparr>appenders := (appenders w1)[a := ap1\<lparr>ap_pos := ap_pos ap1 + length s\<rparr>],
                       files := (files w1)(filename := write_at (files w1 filename) (ap_pos ap1) s)\<rparr>)
          else Inr (w1\<lparr>appenders := (appenders w1)[a := ap1]\<rparr>))
      else Inr w)"

text \<open>The virtual call \<^verbatim>\<open>it->log(self, level, event)\<close>.\<close>

definition appender_log :: "log_env \<Rightarrow> level \<Rightarrow> log_event \<Rightarrow> nat \<Rightarrow> log_world \<Rightarrow> log_world result" where
  "appender_log env lvl event a w =
     rbind (get_appender a w) (\<lambda>ap.
       case ap_kind ap of StdoutLogAppender \<Rightarrow> Stdout_log env lvl event ap w
       | FileLogAppender fn \<Rightarrow> File_log env fn lvl event a ap w)"

definition level_pair :: "level \<Rightarrow> (yaml \<times> yaml) list" where
  "level_pair l = (if l \<noteq> UNKONW then [(Scalar ''level'', Scalar (LogLevel_ToString l))] else [])"

definition formatter_pair :: "bool \<Rightarrow> formatter option \<Rightarrow> (yaml \<times> yaml) list" where
  "formatter_pair own f =
     (case f of Some f \<Rightarrow> if own then [(Scalar ''formatter'', Scalar (m_partten f))] else [] | None \<Rightarrow> [])"

(* base/Logger.cc 454: FileLogAppender::toYamlString *)
definition File_toYamlString :: "yaml_lib \<Rightarrow> string \<Rightarrow> appender \<Rightarrow> string" where
  "File_toYamlString lib filename ap =
     yemit lib (YMap ([(Scalar ''type'', Scalar ''FileLogAppender''), (Scalar ''file'', Scalar filename)]
       @ level_pair (ap_level ap) @ formatter_pair (m_hasFormatter ap) (m_formater ap)))"

(* base/Logger.cc 484: StdoutLogAppender::toYamlString *)
definition Stdout_toYamlString :: "yaml_lib \<Rightarrow> appender \<Rightarrow> string" where
  "Stdout_toYamlString lib ap =
     yemit lib (YMap ([(Scalar ''type'', Scalar ''StdoutLogAppender'')]
       @ level_pair (ap_level ap) @ formatter_pair (m_hasFormatter ap) (m_formater ap)))"

definition ap_toYamlString :: "yaml_lib \<Rightarrow> nat \<Rightarrow> log_world \<Rightarrow> string result" where
  "ap_toYamlString lib a w =
     rbind (get_appender a w) (\<lambda>ap.
       case ap_kind ap of StdoutLogAppender \<Rightarrow> Inr (Stdout_toYamlString lib ap)
       | FileLogAppender fn \<Rightarrow> Inr (File_toYamlString lib fn ap))"

section \<open>Loggers\<close>

(* base/Logger.cc 257: Logger::Logger *)
definition Logger_ctor :: "string \<Rightarrow> log_world \<Rightarrow> nat \<times> log_world" where
  "Logger_ctor name w =
     (length (loggers w),
      w\<lparr>loggers := loggers w @
         [\<lparr>lg_name = name, lg_level = DEBUG, lg_appenders = [],
           lg_formatter = Some (LoggerFormatter_ctor default_pattern), lg_root = None\<rparr>]\<rparr>)"

(* base/Logger.cc 283-290: Logger::setFormatter, loop *)
fun share_formatter :: "formatter option \<Rightarrow> nat list \<Rightarrow> log_world \<Rightarrow> log_world result" where
  "share_formatter val [] w = Inr w"
| "share_formatter val (a # as) w =
     rbind (upd_appender a (\<lambda>ap. if m_hasFormatter ap then ap else ap\<lparr>m_formater := val\<rparr>) w) (share_formatter val as)"

(* base/Logger.cc 269: Logger::setFormatter *)
definition Logger_setFormatter :: "formatter option \<Rightarrow> nat \<Rightarrow> log_world \<Rightarrow> log_world result" where
  "Logger_setFormatter val i w =
     rbind (upd_logger i (\<lambda>g. g\<lparr>lg_formatter := val\<rparr>) w) (\<lambda>w1.
     rbind (get_logger i w1) (\<lambda>g. share_formatter val (lg_appenders g) w1))"

(* base/Logger.cc 292: Logger::setFormatter *)
definition Logger_setFormatter_pattern :: "string \<Rightarrow> nat \<Rightarrow> log_world \<Rightarrow> log_world result" where
  "Logger_setFormatter_pattern val i w =
     (let new_val = LoggerFormatter_ctor val in
      if m_error new_val then Inr w else Logger_setFormatter (Some new_val) i w)"

(* base/Logger.cc 306: Logger::getFormatter *)
definition Logger_getFormatter :: "nat \<Rightarrow> log_world \<Rightarrow> formatter option result" where
  "Logger_getFormatter i w = rbind (get_logger i w) (\<lambda>g. Inr (lg_formatter g))"

definition Logger_setLevel :: "level \<Rightarrow> nat \<Rightarrow> log_world \<Rightarrow> log_world result" where
  "Logger_setLevel l i w = upd_logger i (\<lambda>g. g\<lparr>lg_level := l\<rparr>) w"

(* base/Logger.cc 312: Logger::toYamlString *)
definition Logger_toYamlString :: "yaml_lib \<Rightarrow> nat \<Rightarrow> log_world \<Rightarrow> string result" where
  "Logger_toYamlString lib i w =
     rbind (get_logger i w) (\<lambda>g.
     rbind (rmap (\<lambda>a. rbind (ap_toYamlString lib a w) (yload lib)) (lg_appenders g)) (\<lambda>ns.
       Inr (yemit lib (YMap ([(Scalar ''name'', Scalar (lg_name g))] @ level_pair (lg_level g)
         @ formatter_pair True (lg_formatter g)
         @ (if ns = [] then [] else [(Scalar ''appenders'', Seq ns)]))))))"

(* base/Logger.cc 337: Logger::addAppender *)
definition addAppender :: "nat \<Rightarrow> nat \<Rightarrow> log_world \<Rightarrow> log_world result" where
  "addAppender a i w =
     rbind (get_logger i w) (\<lambda>g.
     rbind (getForamter a w) (\<lambda>f.
     rbind (if f = None then upd_appender a (\<lambda>ap. ap\<lparr>m_formater := lg_formatter g\<rparr>) w else Inr w) (\<lambda>w1.
       upd_logger i (\<lambda>g. g\<lparr>lg_appenders := lg_appenders g @ [a]\<rparr>) w1)))"

(* base/Logger.cc 348: Logger::delAppender *)
definition delAppender :: "nat \<Rightarrow> nat \<Rightarrow> log_world \<Rightarrow> log_world result" where
  "delAppender a i w = upd_logger i (\<lambda>g. g\<lparr>lg_appenders := remove1 a (lg_appenders g)\<rparr>) w"

(* base/Logger.cc 361: Logger::clearAppender *)
definition clearAppender :: "nat \<Rightarrow> log_world \<Rightarrow> log_world result" where
  "clearAppender i w = upd_logger i (\<lambda>g. g\<lparr>lg_appenders := []\<rparr>) w"

fun log_appenders :: "log_env \<Rightarrow> level \<Rightarrow> log_event \<Rightarrow> nat list \<Rightarrow> log_world \<Rightarrow> log_world result" where
  "log_appenders env lvl event [] w = Inr w"
| "log_appenders env lvl event (a # as) w =
     rbind (appender_log env lvl event a w) (log_appenders env lvl event as)"

(* base/Logger.cc 367: Logger::log *)
function Logger_log :: "log_env \<Rightarrow> level \<Rightarrow> log_event \<Rightarrow> nat list \<Rightarrow> nat \<Rightarrow> log_world \<Rightarrow> log_world result" where
  "Logger_log env lvl event held i w =
     (if i < length (loggers w)
      then let g = loggers w ! i in
        if level_val lvl \<ge> level_val (lg_level g)
        then if i \<in> set held then Inl Deadlock
          else if lg_appenders g \<noteq> [] then log_appenders env lvl event (lg_appenders g) w
          else (case lg_root g of None \<Rightarrow> Inr w | Some r \<Rightarrow> Logger_log env lvl event (i # held) r w)
        else Inr w
      else Inl Undefined_behaviour)"
  by pat_completeness auto

termination
proof (relation "measure (\<lambda>(env, lvl, event, held, i, w). card ({..<length (loggers w)} - set held))", goal_cases)
  case (2 env lvl event held i w g r)
  then have "{..<length (loggers w)} - set (i # held) \<subset> {..<length (loggers w)} - set held" by auto
  then show ?case by (simp add: psubset_card_mono)
qed simp

declare Logger_log.simps [simp del]

(* base/Logger.cc 388-394: Logger::debug, Logger::info, Logger::error, Logger::fatal *)
definition Logger_log_at :: "level \<Rightarrow> log_env \<Rightarrow> log_event \<Rightarrow> nat \<Rightarrow> log_world \<Rightarrow> log_world result" where
  "Logger_log_at l env event i w = Logger_log env l event [] i w"

(* base/Logger.cc 250: LogEventWarp::~LogEventWarp *)
definition LogEventWarp_dtor :: "log_env \<Rightarrow> log_event \<Rightarrow> log_world \<Rightarrow> log_world result" where
  "LogEventWarp_dtor env event w = Logger_log env (ev_level event) event [] (m_logger event) w"

(* base/Logger.h 18-25: QSLARY_LOG_LEVEL *)
definition QSLARY_LOG_LEVEL :: "log_env \<Rightarrow> nat \<Rightarrow> level \<Rightarrow> u32 \<Rightarrow> string \<Rightarrow> log_world \<Rightarrow> log_world result" where
  "QSLARY_LOG_LEVEL env i lvl line content w =
     rbind (get_logger i w) (\<lambda>g.
       if level_val (lg_level g) \<le> level_val lvl
       then LogEventWarp_dtor env
              ((LogEvent_ctor i lvl (env_file env) line 0 (env_thread env) (env_fiber env) (env_now env)
                 (env_thread_name env))\<lparr>m_ss := content\<rparr>) w
       else Inr w)"

section \<open>The manager\<close>

definition no_log :: log_world where
  "no_log = \<lparr>appenders = [], loggers = [], m_loggers = [], m_root = 0, std_out = [], files = (\<lambda>_. [])\<rparr>"

(* base/Logger.cc 662: LogManger::LogManger *)
definition LogManger_ctor :: "log_world \<Rightarrow> log_world result" where
  "LogManger_ctor w =
     (let (r, w1) = Logger_ctor ''root'' w;
          (a, w2) = StdoutLogAppender_ctor (w1\<lparr>m_root := r\<rparr>) in
      rbind (addAppender a r w2) (\<lambda>w3.
        Inr (w3\<lparr>m_loggers := smap_put str_less ''root'' r (m_loggers w3)\<rparr>)))"

(* base/Logger.cc 670: LogManger::getLogger *)
definition getLogger :: "string \<Rightarrow> log_world \<Rightarrow> (nat \<times> log_world) result" where
  "getLogger name w =
     (case smap_find str_less name (m_loggers w) of
        Some it \<Rightarrow> Inr (it, w)
      | None \<Rightarrow>
          let (i, w1) = Logger_ctor name w in
          rbind (upd_logger i (\<lambda>g. g\<lparr>lg_root := Some (m_root w1)\<rparr>) w1) (\<lambda>w2.
            Inr (i, w2\<lparr>m_loggers := smap_put str_less name i (m_loggers w2)\<rparr>)))"

(* base/Logger.cc 684: LogManger::toYamlString *)
definition LogManger_toYamlString :: "yaml_lib \<Rightarrow> log_world \<Rightarrow> string result" where
  "LogManger_toYamlString lib w =
     rbind (rmap (\<lambda>(_, i). rbind (Logger_toYamlString lib i w) (yload lib)) (m_loggers w)) (\<lambda>ns.
       Inr (yemit lib (seq_node ns)))"

section \<open>Log configuration\<close>

(* base/Logger.cc 698-710: LogAppenderDefine *)
record appender_define =
  ad_type :: nat
  ad_level :: level
  ad_formatter :: string
  ad_file :: string

(* base/Logger.cc 712-726: LogDefine *)
record log_define =
  ld_name :: string
  ld_level :: level
  ld_formatter :: string
  ld_appenders :: "appender_define list"

(* base/Logger.cc 725: LogDefine::operator< *)
definition ld_less :: "log_define \<Rightarrow> log_define \<Rightarrow> bool" where
  "ld_less a b \<longleftrightarrow> ld_name a < ld_name b"

text \<open>
  \<open>None\<close>: the appender is skipped.
\<close>

(* base/Logger.cc 754-794: LexicalCast<std::string, LogDefine>::operator(), loop body *)
definition read_appender :: "yaml_lib \<Rightarrow> yaml \<Rightarrow> appender_define option result" where
  "read_appender lib a =
     rbind (ysub lib ''type'' a) (\<lambda>ty.
       case ty of None \<Rightarrow> Inr None | Some ty \<Rightarrow>
     rbind (yas lib ty) (\<lambda>type.
     let with_formatter = (\<lambda>lad. rbind (ysub lib ''formatter'' a) (\<lambda>f.
           case f of None \<Rightarrow> Inr (Some lad) | Some f \<Rightarrow> rbind (yas lib f) (\<lambda>f. Inr (Some (lad\<lparr>ad_formatter := f\<rparr>))))) in
     if type = ''FileLogAppender''
     then rbind (ysub lib ''file'' a) (\<lambda>file.
            case file of None \<Rightarrow> Inr None | Some file \<Rightarrow>
          rbind (yas lib file) (\<lambda>file.
            with_formatter \<lparr>ad_type = 2, ad_level = UNKONW, ad_formatter = [], ad_file = file\<rparr>))
     else if type = ''StdoutLogAppender''
     then with_formatter \<lparr>ad_type = 1, ad_level = UNKONW, ad_formatter = [], ad_file = []\<rparr>
     else Inr None))"

definition read_opt :: "yaml_lib \<Rightarrow> string \<Rightarrow> yaml \<Rightarrow> string result" where
  "read_opt lib k n =
     rbind (ysub lib k n) (\<lambda>x. case x of None \<Rightarrow> Inr [] | Some x \<Rightarrow> yas lib x)"

(* base/Logger.cc 728-799: LexicalCast<std::string, LogDefine>, operator() *)
definition string_to_LogDefine :: "yaml_lib \<Rightarrow> string \<Rightarrow> log_define result" where
  "string_to_LogDefine lib v =
     rbind (yload lib v) (\<lambda>n.
     rbind (ysub lib ''name'' n) (\<lambda>nm.
       case nm of None \<Rightarrow> Inl Logic_error | Some nm \<Rightarrow>
     rbind (yas lib nm) (\<lambda>name.
     rbind (read_opt lib ''level'' n) (\<lambda>level.
     rbind (read_opt lib ''formatter'' n) (\<lambda>formatter.
     rbind (ysub lib ''appenders'' n) (\<lambda>as.
     rbind (case as of None \<Rightarrow> Inr [] | Some as \<Rightarrow> rmap (read_appender lib) (yelems lib as)) (\<lambda>ads.
       Inr \<lparr>ld_name = name, ld_level = LogLevel_FromString level, ld_formatter = formatter,
            ld_appenders = List.map_filter id ads\<rparr>)))))))"

(* base/Logger.cc 817-840: LexicalCast<LogDefine, std::string>::operator(), loop body *)
definition appender_node :: "appender_define \<Rightarrow> yaml" where
  "appender_node a =
     map_node
       ((if ad_type a = 2 then [(Scalar ''type'', Scalar ''FileLogAppender''), (Scalar ''file'', Scalar (ad_file a))]
         else if ad_type a = 1 then [(Scalar ''type'', Scalar ''StdoutLogAppender'')] else [])
        @ level_pair (ad_level a)
        @ (if ad_formatter a \<noteq> [] then [(Scalar ''formatter'', Scalar (ad_formatter a))] else []))"

definition define_node :: "log_define \<Rightarrow> yaml" where
  "define_node i =
     YMap ([(Scalar ''name'', Scalar (ld_name i))] @ level_pair (ld_level i)
       @ (if ld_formatter i \<noteq> [] then [(Scalar ''formatter'', Scalar (ld_formatter i))] else [])
       @ (if ld_appenders i \<noteq> [] then [(Scalar ''appenders'', Seq (map appender_node (ld_appenders i)))] else []))"

(* base/Logger.cc 801-845: LexicalCast<LogDefine, std::string>, operator() *)
definition LogDefine_to_string :: "yaml_lib \<Rightarrow> log_define \<Rightarrow> string result" where
  "LogDefine_to_string lib i = Inr (yemit lib (define_node i))"

subsection \<open>The listener\<close>

(* base/Logger.cc 1014-1045: LogIniter::LogIniter, loop over the appenders *)
fun add_defined :: "log_env \<Rightarrow> appender_define list \<Rightarrow> nat \<Rightarrow> log_world \<Rightarrow> log_world result" where
  "add_defined env [] i w = Inr w"
| "add_defined env (d # ds) i w =
     rbind (if ad_type d = 1 then Inr (StdoutLogAppender_ctor w)
            else if ad_type d = 2 then Inr (FileLogAppender_ctor env (ad_file d) w)
            else Inl Undefined_behaviour) (\<lambda>(a, w1).
     rbind (ap_setLevel (ad_level d) a w1) (\<lambda>w2.
     rbind (if ad_formatter d \<noteq> []
            then let fmt = LoggerFormatter_ctor (ad_formatter d) in
              if m_error fmt then Inr w2 else ap_setFormatter (Some fmt) a w2
            else Inr w2) (\<lambda>w3.
     rbind (addAppender a i w3) (add_defined env ds i))))"

(* base/Logger.cc 1008-1045: LogIniter::LogIniter, applying a definition *)
definition apply_define :: "log_env \<Rightarrow> log_define \<Rightarrow> nat \<Rightarrow> log_world \<Rightarrow> log_world result" where
  "apply_define env d i w =
     rbind (Logger_setLevel (ld_level d) i w) (\<lambda>w1.
     rbind (if ld_formatter d \<noteq> [] then Logger_setFormatter_pattern (ld_formatter d) i w1 else Inr w1) (\<lambda>w2.
     rbind (clearAppender i w2) (add_defined env (ld_appenders d) i)))"

definition set_find :: "log_define \<Rightarrow> log_define list \<Rightarrow> log_define option" where
  "set_find d xs = List.find (\<lambda>x. \<not> ld_less x d \<and> \<not> ld_less d x) xs"

text \<open>
  For a definition that is found unchanged among the old ones the pointer \<^verbatim>\<open>logger\<close> stays
  null and is dereferenced.
\<close>

(* base/Logger.cc 991-1046: LogIniter::LogIniter, loop over new_value *)
fun apply_new :: "log_env \<Rightarrow> log_define list \<Rightarrow> log_define list \<Rightarrow> log_world \<Rightarrow> log_world result" where
  "apply_new env old [] w = Inr w"
| "apply_new env old (d # ds) w =
     (case set_find d old of
        Some it \<Rightarrow> if d = it then Inl Undefined_behaviour
          else rbind (getLogger (ld_name d) w) (\<lambda>(i, w1). rbind (apply_define env d i w1) (apply_new env old ds))
      | None \<Rightarrow> rbind (getLogger (ld_name d) w) (\<lambda>(i, w1). rbind (apply_define env d i w1) (apply_new env old ds)))"

(* base/Logger.cc 1047-1057: LogIniter::LogIniter, loop over old_value *)
fun drop_old :: "log_define list \<Rightarrow> log_define list \<Rightarrow> log_world \<Rightarrow> log_world result" where
  "drop_old new [] w = Inr w"
| "drop_old new (d # ds) w =
     (if set_find d new = None
      then rbind (getLogger (ld_name d) w) (\<lambda>(i, w1).
           rbind (Logger_setLevel (Level_cast 100) i w1) (\<lambda>w2.
           rbind (clearAppender i w2) (drop_old new ds)))
      else drop_old new ds w)"

(* base/Logger.cc 988-1058: LogIniter::LogIniter, listener *)
definition on_log_change :: "log_env \<Rightarrow> log_define list \<Rightarrow> log_define list \<Rightarrow> log_world \<Rightarrow> log_world result" where
  "on_log_change env old_value new_value w =
     rbind (QSLARY_LOG_LEVEL env (m_root w) INFO 990 '' on_logger_config change'' w) (\<lambda>w1.
     rbind (apply_new env old_value new_value w1) (drop_old new_value old_value))"

text \<open>
  The variable \<^verbatim>\<open>logs\<close> with the listener of \<^verbatim>\<open>LogIniter\<close>; the world it acts on is the
  environment at the time of the call and the log world.
\<close>

type_synonym log_config = "(log_define list, log_env \<times> log_world) config_state"

definition log_listener :: "(log_define list, log_env \<times> log_world) listener" where
  "log_listener = Some (\<lambda>old new (env, w).
     case on_log_change env old new w of Inl e \<Rightarrow> (Inl e, env, w) | Inr w' \<Rightarrow> (Inr (), env, w'))"

(* base/Logger.cc 981-982: g_log_defines *)
definition g_log_defines :: "yaml_lib \<Rightarrow> log_config \<Rightarrow> (string option \<times> log_config) result" where
  "g_log_defines lib st =
     lookup ''std::set<LogDefine>'' (string_to_set lib ld_less (string_to_LogDefine lib))
       (set_to_string lib (LogDefine_to_string lib)) ''logs'' [] ''logs config'' st"

(* base/Logger.cc 984-987: LogIniter::LogIniter *)
definition LogIniter :: "yaml_lib \<Rightarrow> log_config \<Rightarrow> log_config result" where
  "LogIniter lib st =
     rbind (g_log_defines lib st) (\<lambda>(p, st1).
       case p of None \<Rightarrow> Inl Undefined_behaviour
       | Some name \<Rightarrow> rbind (config_listen name log_listener st1) (\<lambda>(_, st2). Inr st2))"

section \<open>Invariant\<close>

definition logger_ok :: "log_world \<Rightarrow> logger \<Rightarrow> bool" where
  "logger_ok w g \<longleftrightarrow> (lg_root g = None \<or> lg_root g = Some (m_root w)) \<and> lg_formatter g \<noteq> None
     \<and> (\<forall>a \<in> set (lg_appenders g). a < length (appenders w) \<and> m_formater (appenders w ! a) \<noteq> None)"

definition log_ok :: "log_world \<Rightarrow> bool" where
  "log_ok w \<longleftrightarrow> (\<forall>g \<in> set (loggers w). logger_ok w g)
     \<and> m_root w < length (loggers w) \<and> lg_root (loggers w ! m_root w) = None
     \<and> smap str_less (m_loggers w)
     \<and> (\<forall>n i. smap_find str_less n (m_loggers w) = Some i \<longrightarrow> i < length (loggers w) \<and> lg_name (loggers w ! i) = n)"

text \<open>\<open>quiet w w'\<close>: \<open>w'\<close> differs from \<open>w\<close> at most in output, levels and file positions.\<close>

definition quiet :: "log_world \<Rightarrow> log_world \<Rightarrow> bool" where
  "quiet w w' \<longleftrightarrow> loggers w' = loggers w \<and> m_loggers w' = m_loggers w \<and> m_root w' = m_root w
     \<and> length (appenders w) \<le> length (appenders w')
     \<and> (\<forall>a < length (appenders w). m_formater (appenders w' ! a) = m_formater (appenders w ! a))"

lemma quiet_refl [simp]: "quiet w w"
  by (simp add: quiet_def)

lemma quiet_trans: "quiet a b \<Longrightarrow> quiet b c \<Longrightarrow> quiet a c"
  by (auto simp: quiet_def)

lemma logger_ok_mono:
  "logger_ok w g \<Longrightarrow> m_root w' = m_root w \<Longrightarrow> length (appenders w) \<le> length (appenders w') \<Longrightarrow>
   (\<And>a. a < length (appenders w) \<Longrightarrow> m_formater (appenders w ! a) \<noteq> None \<Longrightarrow> m_formater (appenders w' ! a) \<noteq> None) \<Longrightarrow>
   logger_ok w' g"
  by (fastforce simp: logger_ok_def)

lemma log_ok_quiet: "log_ok w \<Longrightarrow> quiet w w' \<Longrightarrow> log_ok w'"
  by (auto simp: log_ok_def quiet_def intro: logger_ok_mono)

lemma log_ok_logger: "log_ok w \<Longrightarrow> i < length (loggers w) \<Longrightarrow> logger_ok w (loggers w ! i)"
  by (simp add: log_ok_def)

lemma upd_logger_ok:
  assumes "log_ok w" "upd_logger i f w = Inr w'"
    and "\<And>g. logger_ok w g \<Longrightarrow> logger_ok w (f g)" "\<And>g. lg_name (f g) = lg_name g \<and> lg_root (f g) = lg_root g"
  shows "log_ok w' \<and> length (loggers w') = length (loggers w) \<and> appenders w' = appenders w"
proof -
  have i: "i < length (loggers w)" and w': "w' = w\<lparr>loggers := (loggers w)[i := f (loggers w ! i)]\<rparr>"
    using assms(2) by (auto simp: upd_logger_def get_logger_def split: if_splits)
  have same: "logger_ok w' = logger_ok w" by (auto simp: w' logger_ok_def)
  have nth: "lg_name (loggers w' ! j) = lg_name (loggers w ! j)" "lg_root (loggers w' ! j) = lg_root (loggers w ! j)"
    for j using assms(4) i by (simp_all add: w' nth_list_update)
  have "set (loggers w') \<subseteq> insert (f (loggers w ! i)) (set (loggers w))"
    unfolding w' by (simp add: set_update_subset_insert)
  then have "\<forall>g \<in> set (loggers w'). logger_ok w g"
    using assms(1,3) log_ok_logger [OF assms(1) i] by (auto simp: log_ok_def)
  then show ?thesis using assms(1) nth same by (auto simp: log_ok_def w')
qed

lemma upd_appender_ok:
  assumes "log_ok w" "upd_appender a f w = Inr w'" "\<And>x. m_formater x \<noteq> None \<Longrightarrow> m_formater (f x) \<noteq> None"
  shows "log_ok w' \<and> loggers w' = loggers w \<and> length (appenders w') = length (appenders w)
    \<and> a < length (appenders w) \<and> appenders w' ! a = f (appenders w ! a)"
proof -
  have a: "a < length (appenders w)" and w': "w' = w\<lparr>appenders := (appenders w)[a := f (appenders w ! a)]\<rparr>"
    using assms(2) by (auto simp: upd_appender_def get_appender_def split: if_splits)
  have "logger_ok w' g" if "logger_ok w g" for g
    by (rule logger_ok_mono [OF that]) (use assms(3) a in \<open>auto simp: w' nth_list_update\<close>)
  then show ?thesis using assms(1) a by (auto simp: w' log_ok_def)
qed

subsection \<open>Writing\<close>

definition dates_fit :: "log_env \<Rightarrow> bool" where
  "dates_fit env \<longleftrightarrow> (\<forall>f t. length (env_date env f t) < 64)"

lemma format_items_ok: "dates_fit env \<Longrightarrow> \<exists>s. format_items names (env_date env) lvl event its = Inr s"
proof (induction its)
  case (Cons it its)
  then obtain s where "format_items names (env_date env) lvl event its = Inr s" by auto
  moreover have "\<exists>s. item_format names (env_date env) lvl event it = Inr s"
    using Cons.prems by (cases it) (auto simp: dates_fit_def Let_def)
  ultimately show ?case by auto
qed simp

lemma ap_format_ok:
  assumes "dates_fit env" "m_formater ap \<noteq> None" "m_logger event < length (loggers w)"
  shows "\<exists>s. ap_format env lvl event ap w = Inr s"
  using assms format_items_ok [OF assms(1)] by (auto simp: ap_format_def formatter_format_def)

lemma reopen_frame:
  "reopen env fn ap w = (b, ap', w') \<Longrightarrow> m_formater ap' = m_formater ap \<and> loggers w' = loggers w
     \<and> appenders w' = appenders w \<and> quiet w w'"
  by (auto simp: reopen_def quiet_def split: if_splits)

lemma appender_log_ok:
  assumes "dates_fit env" "a < length (appenders w)" "m_formater (appenders w ! a) \<noteq> None" "m_logger event < length (loggers w)"
  shows "\<exists>w'. appender_log env lvl event a w = Inr w' \<and> quiet w w'"
proof (cases "ap_kind (appenders w ! a)")
  case StdoutLogAppender
  obtain s where "ap_format env lvl event (appenders w ! a) w = Inr s" using ap_format_ok [OF assms(1,3,4)] by blast
  with StdoutLogAppender show ?thesis using assms(2)
    by (auto simp: appender_log_def get_appender_def Stdout_log_def quiet_def)
next
  case (FileLogAppender fn)
  let ?ap = "appenders w ! a"
  obtain b ap' w' where r: "reopen env fn ?ap w = (b, ap', w')" by (rule prod_cases3)
  note frame = reopen_frame [OF r]
  obtain s where "ap_format env lvl event ?ap w = Inr s" using ap_format_ok [OF assms(1,3,4)] by blast
  moreover obtain s' where "ap_format env lvl event (ap'\<lparr>lastTime := env_now env\<rparr>) w' = Inr s'"
    using ap_format_ok [of env "ap'\<lparr>lastTime := env_now env\<rparr>" event w'] assms frame by auto
  ultimately show ?thesis using FileLogAppender assms(2) r frame
    by (auto simp: appender_log_def get_appender_def File_log_def Let_def quiet_def nth_list_update)
qed

lemma log_appenders_ok:
  assumes "dates_fit env"
  shows "m_logger event < length (loggers w) \<Longrightarrow>
    \<forall>a \<in> set as. a < length (appenders w) \<and> m_formater (appenders w ! a) \<noteq> None \<Longrightarrow>
    \<exists>w'. log_appenders env lvl event as w = Inr w' \<and> quiet w w'"
proof (induction as arbitrary: w)
  case (Cons a as)
  then obtain w1 where w1: "appender_log env lvl event a w = Inr w1" "quiet w w1"
    using appender_log_ok [OF assms, of a w event lvl] by auto
  then have "\<exists>w'. log_appenders env lvl event as w1 = Inr w' \<and> quiet w1 w'"
    using Cons.prems by (intro Cons.IH) (auto simp: quiet_def)
  then show ?case using w1 quiet_trans by auto
qed simp

lemma Logger_log_ok:
  assumes "log_ok w" "dates_fit env" "i < length (loggers w)" "m_logger event < length (loggers w)"
  shows "\<exists>w'. Logger_log env lvl event [] i w = Inr w' \<and> quiet w w'"
proof -
  have direct: "\<exists>w'. log_appenders env lvl event (lg_appenders (loggers w ! j)) w = Inr w' \<and> quiet w w'"
    if "j < length (loggers w)" for j
    using log_appenders_ok [OF assms(2,4)] log_ok_logger [OF assms(1) that] by (simp add: logger_ok_def)
  have root: "m_root w < length (loggers w)" "lg_root (loggers w ! m_root w) = None" using assms(1) by (simp_all add: log_ok_def)
  have top: "\<exists>w'. Logger_log env lvl event held (m_root w) w = Inr w' \<and> quiet w w'" if "m_root w \<notin> set held" for held
    using direct [OF root(1)] root that by (subst Logger_log.simps) (auto simp: Let_def)
  show ?thesis
  proof (cases "lg_root (loggers w ! i)")
    case None
    then show ?thesis using direct [OF assms(3)] assms(3) by (subst Logger_log.simps) (auto simp: Let_def)
  next
    case (Some r)
    then have "r = m_root w" "i \<noteq> r" using log_ok_logger [OF assms(1,3)] root by (auto simp: logger_ok_def)
    then show ?thesis using direct [OF assms(3)] top [of "[i]"] assms(3) Some
      by (subst Logger_log.simps) (auto simp: Let_def)
  qed
qed

subsection \<open>The other operations\<close>

text \<open>\<open>sig w\<close>: kind and level of every appender, which only \<open>ap_setLevel\<close> changes.\<close>

definition sig :: "log_world \<Rightarrow> (appender_kind \<times> level) list" where
  "sig w = map (\<lambda>ap. (ap_kind ap, ap_level ap)) (appenders w)"

lemma length_sig [simp]: "length (sig w) = length (appenders w)"
  by (simp add: sig_def)

lemma sig_loggers [simp]: "sig (w\<lparr>loggers := x\<rparr>) = sig w" "sig (w\<lparr>m_loggers := y\<rparr>) = sig w"
  by (simp_all add: sig_def)

lemma upd_logger_run:
  "i < length (loggers w) \<Longrightarrow> upd_logger i f w = Inr (w\<lparr>loggers := (loggers w)[i := f (loggers w ! i)]\<rparr>)"
  by (simp add: upd_logger_def get_logger_def)

lemma upd_appender_run:
  "a < length (appenders w) \<Longrightarrow> upd_appender a f w = Inr (w\<lparr>appenders := (appenders w)[a := f (appenders w ! a)]\<rparr>)"
  by (simp add: upd_appender_def get_appender_def)

lemma sig_upd: "a < length (appenders w) \<Longrightarrow> (\<And>x. ap_kind (f x) = ap_kind x \<and> ap_level (f x) = ap_level x) \<Longrightarrow>
  sig (w\<lparr>appenders := (appenders w)[a := f (appenders w ! a)]\<rparr>) = sig w"
  by (simp add: sig_def map_update list_update_same_conv)

lemma setLevel_ok:
  assumes "log_ok w" "i < length (loggers w)"
  shows "\<exists>w'. Logger_setLevel l i w = Inr w' \<and> log_ok w' \<and> m_loggers w' = m_loggers w \<and> sig w' = sig w
    \<and> loggers w' = (loggers w)[i := (loggers w ! i)\<lparr>lg_level := l\<rparr>]"
proof -
  let ?f = "\<lambda>g. g\<lparr>lg_level := l\<rparr>"
  note run = upd_logger_run [OF assms(2), of ?f]
  have "log_ok (w\<lparr>loggers := (loggers w)[i := ?f (loggers w ! i)]\<rparr>)"
    using upd_logger_ok [OF assms(1) run] by (simp add: logger_ok_def)
  then show ?thesis using run by (simp add: Logger_setLevel_def)
qed

lemma clearAppender_ok:
  assumes "log_ok w" "i < length (loggers w)"
  shows "\<exists>w'. clearAppender i w = Inr w' \<and> log_ok w' \<and> m_loggers w' = m_loggers w \<and> sig w' = sig w
    \<and> loggers w' = (loggers w)[i := (loggers w ! i)\<lparr>lg_appenders := []\<rparr>]"
proof -
  let ?f = "\<lambda>g. g\<lparr>lg_appenders := []\<rparr>"
  note run = upd_logger_run [OF assms(2), of ?f]
  have "log_ok (w\<lparr>loggers := (loggers w)[i := ?f (loggers w ! i)]\<rparr>)"
    using upd_logger_ok [OF assms(1) run] by (simp add: logger_ok_def)
  then show ?thesis using run by (simp add: clearAppender_def)
qed

lemma delAppender_ok: "log_ok w \<Longrightarrow> delAppender a i w = Inr w' \<Longrightarrow> log_ok w'"
  unfolding delAppender_def
  by (drule (1) upd_logger_ok) (auto simp: logger_ok_def dest: notin_set_remove1)

lemma addAppender_ok:
  assumes "log_ok w" "i < length (loggers w)" "a < length (appenders w)"
  shows "\<exists>w'. addAppender a i w = Inr w' \<and> log_ok w' \<and> m_loggers w' = m_loggers w \<and> sig w' = sig w
    \<and> loggers w' = (loggers w)[i := (loggers w ! i)\<lparr>lg_appenders := lg_appenders (loggers w ! i) @ [a]\<rparr>]"
proof -
  let ?g = "loggers w ! i" and ?ap = "appenders w ! a"
  define w1 where "w1 = (if m_formater ?ap = None then w\<lparr>appenders := (appenders w)[a := ?ap\<lparr>m_formater := lg_formatter ?g\<rparr>]\<rparr> else w)"
  have fmt: "lg_formatter ?g \<noteq> None" using log_ok_logger [OF assms(1,2)] by (simp add: logger_ok_def)
  have run1: "(if m_formater ?ap = None then upd_appender a (\<lambda>ap. ap\<lparr>m_formater := lg_formatter ?g\<rparr>) w else Inr w) = Inr w1"
    using assms(3) by (simp add: w1_def upd_appender_run)
  have w1: "log_ok w1" "loggers w1 = loggers w" "m_loggers w1 = m_loggers w" "sig w1 = sig w" "length (appenders w1) = length (appenders w)"
    "m_formater (appenders w1 ! a) \<noteq> None"
    using upd_appender_ok [OF assms(1) upd_appender_run [OF assms(3), of "\<lambda>ap. ap\<lparr>m_formater := lg_formatter ?g\<rparr>"]]
      assms fmt sig_upd [OF assms(3), of "\<lambda>ap. ap\<lparr>m_formater := lg_formatter ?g\<rparr>"]
    by (auto simp: w1_def)
  let ?f = "\<lambda>g. g\<lparr>lg_appenders := lg_appenders g @ [a]\<rparr>"
  have i: "i < length (loggers w1)" using w1 assms(2) by simp
  have "log_ok (w1\<lparr>loggers := (loggers w1)[i := ?f (loggers w1 ! i)]\<rparr>)"
    using upd_logger_ok [OF w1(1) upd_logger_run [OF i, of ?f]] w1 assms(3) by (simp add: logger_ok_def)
  moreover have "addAppender a i w = upd_logger i ?f w1"
    using assms run1 by (simp add: addAppender_def get_logger_def getForamter_def get_appender_def)
  ultimately show ?thesis using upd_logger_run [OF i, of ?f] w1 by simp
qed

lemma share_formatter_ok:
  "log_ok w \<Longrightarrow> \<forall>a \<in> set as. a < length (appenders w) \<Longrightarrow>
   \<exists>w'. share_formatter (Some f) as w = Inr w' \<and> log_ok w' \<and> m_loggers w' = m_loggers w \<and> sig w' = sig w \<and> loggers w' = loggers w"
proof (induction as arbitrary: w)
  case (Cons a as)
  let ?f = "\<lambda>ap. if m_hasFormatter ap then ap else ap\<lparr>m_formater := Some f\<rparr>"
  have a: "a < length (appenders w)" using Cons.prems by simp
  define w1 where "w1 = w\<lparr>appenders := (appenders w)[a := ?f (appenders w ! a)]\<rparr>"
  have run: "upd_appender a ?f w = Inr w1" using upd_appender_run [OF a, of ?f] by (simp add: w1_def)
  have ok: "log_ok w1" "loggers w1 = loggers w" "m_loggers w1 = m_loggers w" "length (appenders w1) = length (appenders w)"
    using upd_appender_ok [OF Cons.prems(1) run] by (auto simp: w1_def)
  have sg: "sig w1 = sig w" unfolding w1_def by (rule sig_upd [OF a]) simp
  obtain w' where "share_formatter (Some f) as w1 = Inr w'" "log_ok w'" "m_loggers w' = m_loggers w1" "sig w' = sig w1"
    "loggers w' = loggers w1" using Cons.IH [OF ok(1)] Cons.prems ok(4) by auto
  then show ?case using run ok sg by auto
qed simp

lemma setFormatter_ok:
  assumes "log_ok w" "i < length (loggers w)"
  shows "\<exists>w'. Logger_setFormatter (Some f) i w = Inr w' \<and> log_ok w' \<and> m_loggers w' = m_loggers w \<and> sig w' = sig w
    \<and> loggers w' = (loggers w)[i := (loggers w ! i)\<lparr>lg_formatter := Some f\<rparr>]"
proof -
  let ?f = "\<lambda>g. g\<lparr>lg_formatter := Some f\<rparr>"
  define w1 where "w1 = w\<lparr>loggers := (loggers w)[i := ?f (loggers w ! i)]\<rparr>"
  have run: "upd_logger i ?f w = Inr w1" using upd_logger_run [OF assms(2), of ?f] by (simp add: w1_def)
  have ok: "log_ok w1" "length (loggers w1) = length (loggers w)" "sig w1 = sig w"
    using upd_logger_ok [OF assms(1) run] by (auto simp: logger_ok_def w1_def)
  have "\<forall>a \<in> set (lg_appenders (loggers w1 ! i)). a < length (appenders w1)"
    using log_ok_logger [OF ok(1), of i] ok(2) assms(2) by (simp add: logger_ok_def)
  then obtain w' where "share_formatter (Some f) (lg_appenders (loggers w1 ! i)) w1 = Inr w'" "log_ok w'"
    "m_loggers w' = m_loggers w1" "sig w' = sig w1" "loggers w' = loggers w1" using share_formatter_ok [OF ok(1)] by blast
  then show ?thesis using run ok assms(2) by (simp add: Logger_setFormatter_def get_logger_def) (simp add: w1_def)
qed

lemma getLogger_ok:
  assumes "log_ok w"
  shows "\<exists>i w'. getLogger name w = Inr (i, w') \<and> log_ok w' \<and> i < length (loggers w') \<and> lg_name (loggers w' ! i) = name
    \<and> sig w' = sig w \<and> smap_find str_less name (m_loggers w') = Some i
    \<and> (\<forall>n. n \<noteq> name \<longrightarrow> smap_find str_less n (m_loggers w') = smap_find str_less n (m_loggers w))
    \<and> length (loggers w) \<le> length (loggers w') \<and> take (length (loggers w)) (loggers w') = loggers w"
proof (cases "smap_find str_less name (m_loggers w)")
  case (Some i)
  then show ?thesis using assms by (auto simp: getLogger_def log_ok_def)
next
  case None
  let ?n = "length (loggers w)"
  let ?g = "\<lparr>lg_name = name, lg_level = DEBUG, lg_appenders = [],
       lg_formatter = Some (LoggerFormatter_ctor default_pattern), lg_root = Some (m_root w)\<rparr>"
  let ?w = "w\<lparr>loggers := loggers w @ [?g], m_loggers := smap_put str_less name ?n (m_loggers w)\<rparr>"
  have run: "getLogger name w = Inr (?n, ?w)"
    using None by (simp add: getLogger_def Logger_ctor_def upd_logger_def get_logger_def)
  have srt: "smap str_less (m_loggers w)" using assms by (simp add: log_ok_def)
  have find: "smap_find str_less n (m_loggers ?w) = (if name = n then Some ?n else smap_find str_less n (m_loggers w))" for n
    using str.find_put [OF srt] by simp
  have "logger_ok ?w g" if "logger_ok w g" for g using that by (simp add: logger_ok_def)
  moreover have "logger_ok ?w ?g" by (simp add: logger_ok_def)
  ultimately have gs: "\<forall>g \<in> set (loggers ?w). logger_ok ?w g" using assms by (auto simp: log_ok_def)
  have names: "i < length (loggers ?w) \<and> lg_name (loggers ?w ! i) = n" if "smap_find str_less n (m_loggers ?w) = Some i" for n i
  proof (cases "name = n")
    case True
    then have "i = ?n" using that find by simp
    then show ?thesis using True by (simp add: nth_append)
  next
    case False
    then have "i < ?n \<and> lg_name (loggers w ! i) = n" using that find assms by (simp add: log_ok_def)
    then show ?thesis by (simp add: nth_append)
  qed
  have "log_ok ?w" unfolding log_ok_def
  proof (intro conjI)
    show "\<forall>g \<in> set (loggers ?w). logger_ok ?w g" by (rule gs)
    show "m_root ?w < length (loggers ?w)" "lg_root (loggers ?w ! m_root ?w) = None"
      using assms by (simp_all add: log_ok_def nth_append)
    show "smap str_less (m_loggers ?w)" using str.smap_put_smap [OF srt] by simp
    show "\<forall>n i. smap_find str_less n (m_loggers ?w) = Some i \<longrightarrow> i < length (loggers ?w) \<and> lg_name (loggers ?w ! i) = n"
      using names by blast
  qed
  then show ?thesis using run find by (simp add: sig_def)
qed

subsection \<open>Applying definitions\<close>

fun defined_kind :: "appender_define \<Rightarrow> appender_kind" where
  "defined_kind d = (if ad_type d = 2 then FileLogAppender (ad_file d) else StdoutLogAppender)"

definition define_ok :: "log_define \<Rightarrow> bool" where
  "define_ok d \<longleftrightarrow> (\<forall>a \<in> set (ld_appenders d). ad_type a = 1 \<or> ad_type a = 2)"

abbreviation with_appenders :: "nat \<Rightarrow> nat list \<Rightarrow> log_world \<Rightarrow> logger list" where
  "with_appenders i as w \<equiv> (loggers w)[i := (loggers w ! i)\<lparr>lg_appenders := as\<rparr>]"

lemma new_appender_ok:
  assumes "log_ok w" "ad_type d = 1 \<or> ad_type d = 2"
  shows "\<exists>w1. (if ad_type d = 1 then Inr (StdoutLogAppender_ctor w)
       else if ad_type d = 2 then Inr (FileLogAppender_ctor env (ad_file d) w)
       else Inl Undefined_behaviour) = Inr (length (appenders w), w1)
     \<and> log_ok w1 \<and> m_loggers w1 = m_loggers w \<and> loggers w1 = loggers w \<and> sig w1 = sig w @ [(defined_kind d, DEBUG)]"
proof -
  obtain a w1 where r: "(if ad_type d = 1 then StdoutLogAppender_ctor w else FileLogAppender_ctor env (ad_file d) w) = (a, w1)"
    by (rule prod.exhaust)
  then have q: "quiet w w1" "loggers w1 = loggers w" "m_loggers w1 = m_loggers w" "sig w1 = sig w @ [(defined_kind d, DEBUG)]" "a = length (appenders w)"
    using assms(2)
    by (auto simp: quiet_def StdoutLogAppender_ctor_def FileLogAppender_ctor_def reopen_def new_appender_def sig_def nth_append
        split: if_splits)
  then show ?thesis using r assms log_ok_quiet [OF assms(1) q(1)] by (auto split: if_splits)
qed

lemma ap_setLevel_ok:
  assumes "log_ok w" "sig w = xs @ [(k, l0)]"
  shows "\<exists>w'. ap_setLevel l (length xs) w = Inr w' \<and> log_ok w' \<and> m_loggers w' = m_loggers w \<and> loggers w' = loggers w \<and> sig w' = xs @ [(k, l)]"
proof -
  have a: "length xs < length (appenders w)" using assms(2) by (metis length_append_singleton length_sig lessI)
  have "sig (w\<lparr>appenders := (appenders w)[length xs := (appenders w ! length xs)\<lparr>ap_level := l\<rparr>]\<rparr>) =
      (sig w)[length xs := (ap_kind (appenders w ! length xs), l)]"
    by (simp add: sig_def map_update)
  moreover have "ap_kind (appenders w ! length xs) = k"
    using assms(2) a by (metis (no_types, lifting) fst_conv nth_append_length nth_map sig_def)
  ultimately show ?thesis
    using upd_appender_ok [OF assms(1) upd_appender_run [OF a, of "\<lambda>ap. ap\<lparr>ap_level := l\<rparr>"]] assms(2)
    by (simp add: ap_setLevel_def upd_appender_run [OF a])
qed

lemma ap_setFormatter_ok:
  assumes "log_ok w" "a < length (appenders w)"
  shows "\<exists>w'. ap_setFormatter (Some f) a w = Inr w' \<and> log_ok w' \<and> m_loggers w' = m_loggers w \<and> loggers w' = loggers w \<and> sig w' = sig w"
  using upd_appender_ok [OF assms(1) upd_appender_run [OF assms(2), of "\<lambda>ap. ap\<lparr>m_formater := Some f, m_hasFormatter := True\<rparr>"]]
    sig_upd [OF assms(2), of "\<lambda>ap. ap\<lparr>m_formater := Some f, m_hasFormatter := True\<rparr>"]
  by (simp add: ap_setFormatter_def upd_appender_run [OF assms(2)])

lemma add_defined_ok:
  "log_ok w \<Longrightarrow> i < length (loggers w) \<Longrightarrow> \<forall>d \<in> set ds. ad_type d = 1 \<or> ad_type d = 2 \<Longrightarrow>
   \<exists>w'. add_defined env ds i w = Inr w' \<and> log_ok w' \<and> m_loggers w' = m_loggers w \<and> sig w' = sig w @ map (\<lambda>d. (defined_kind d, ad_level d)) ds
     \<and> loggers w' = with_appenders i
         (lg_appenders (loggers w ! i) @ [length (appenders w) ..< length (appenders w) + length ds]) w"
proof (induction ds arbitrary: w)
  case Nil
  then show ?case by simp
next
  case (Cons d ds)
  let ?a = "length (appenders w)"
  have ty: "ad_type d = 1 \<or> ad_type d = 2" using Cons.prems by simp
  obtain w1 where w1: "(if ad_type d = 1 then Inr (StdoutLogAppender_ctor w)
       else if ad_type d = 2 then Inr (FileLogAppender_ctor env (ad_file d) w)
       else Inl Undefined_behaviour) = Inr (?a, w1)"
    "log_ok w1" "loggers w1 = loggers w" "sig w1 = sig w @ [(defined_kind d, DEBUG)]" "m_loggers w1 = m_loggers w"
    using new_appender_ok [OF Cons.prems(1) ty, of env] by blast
  obtain w2 where w2: "ap_setLevel (ad_level d) ?a w1 = Inr w2" "log_ok w2" "loggers w2 = loggers w"
    "sig w2 = sig w @ [(defined_kind d, ad_level d)]" "m_loggers w2 = m_loggers w"
    using ap_setLevel_ok [OF w1(2,4), of "ad_level d"] w1(3,5) by auto
  have len2: "length (appenders w2) = Suc ?a" using w2(4) by (metis length_append_singleton length_sig)
  obtain w3 where w3: "(if ad_formatter d \<noteq> []
       then let fmt = LoggerFormatter_ctor (ad_formatter d) in
         if m_error fmt then Inr w2 else ap_setFormatter (Some fmt) ?a w2
       else Inr w2) = Inr w3" "log_ok w3" "loggers w3 = loggers w" "sig w3 = sig w2" "m_loggers w3 = m_loggers w"
  proof (cases "ad_formatter d \<noteq> [] \<and> \<not> m_error (LoggerFormatter_ctor (ad_formatter d))")
    case True
    then show ?thesis
      using that ap_setFormatter_ok [OF w2(2), of ?a "LoggerFormatter_ctor (ad_formatter d)"] w2 len2 by (auto simp: Let_def simp del: defined_kind.simps)
  next
    case False
    then show ?thesis using that [of w2] w2 by (auto simp: Let_def)
  qed
  have len3: "length (appenders w3) = Suc ?a" using w3(4) len2 by (metis length_sig)
  obtain w4 where w4: "addAppender ?a i w3 = Inr w4" "log_ok w4" "sig w4 = sig w3"
    "loggers w4 = with_appenders i (lg_appenders (loggers w ! i) @ [?a]) w" "m_loggers w4 = m_loggers w"
    using addAppender_ok [OF w3(2), of i ?a] Cons.prems(2) w3(3,5) len3 by auto
  have len4: "length (appenders w4) = Suc ?a" using w4(3) len3 by (metis length_sig)
  obtain w' where w': "add_defined env ds i w4 = Inr w'" "log_ok w'"
    "sig w' = sig w4 @ map (\<lambda>d. (defined_kind d, ad_level d)) ds"
    "loggers w' = with_appenders i (lg_appenders (loggers w4 ! i) @ [Suc ?a ..< Suc ?a + length ds]) w4" "m_loggers w' = m_loggers w"
    using Cons.IH [OF w4(2)] Cons.prems w4(4,5) len4 by auto
  have "[?a ..< ?a + length (d # ds)] = ?a # [Suc ?a ..< Suc ?a + length ds]" by (subst upt_conv_Cons) simp_all
  then have "loggers w' = with_appenders i (lg_appenders (loggers w ! i) @ [?a ..< ?a + length (d # ds)]) w"
    using w'(4) w4(4) Cons.prems(2) by simp
  moreover have "add_defined env (d # ds) i w = Inr w'" using w1(1) w2(1) w3(1) w4(1) w'(1) by simp
  ultimately show ?case using w' w4(3) w3(4) w2(4) by simp
qed

text \<open>\<open>defined_as w i d\<close>: logger \<open>i\<close> is set up as the definition \<open>d\<close> says.\<close>

definition defined_as :: "log_world \<Rightarrow> nat \<Rightarrow> log_define \<Rightarrow> bool" where
  "defined_as w i d \<longleftrightarrow> i < length (loggers w) \<and> lg_name (loggers w ! i) = ld_name d \<and> lg_level (loggers w ! i) = ld_level d
     \<and> (\<forall>a \<in> set (lg_appenders (loggers w ! i)). a < length (sig w))
     \<and> map ((!) (sig w)) (lg_appenders (loggers w ! i)) = map (\<lambda>a. (defined_kind a, ad_level a)) (ld_appenders d)"

lemma set_pattern_ok:
  assumes "log_ok w" "i < length (loggers w)"
  shows "\<exists>w' f. (if p \<noteq> [] then Logger_setFormatter_pattern p i w else Inr w) = Inr w' \<and> log_ok w'
    \<and> m_loggers w' = m_loggers w \<and> sig w' = sig w \<and> loggers w' = (loggers w)[i := (loggers w ! i)\<lparr>lg_formatter := f\<rparr>]"
proof (cases "p \<noteq> [] \<and> \<not> m_error (LoggerFormatter_ctor p)")
  case True
  then show ?thesis using setFormatter_ok [OF assms, of "LoggerFormatter_ctor p"]
    by (auto simp: Logger_setFormatter_pattern_def Let_def)
next
  case False
  have "(loggers w ! i)\<lparr>lg_formatter := lg_formatter (loggers w ! i)\<rparr> = loggers w ! i" by simp
  then show ?thesis using False assms
    by (auto simp: Logger_setFormatter_pattern_def Let_def list_update_id intro!: exI [of _ "lg_formatter (loggers w ! i)"])
qed

lemma apply_define_ok:
  assumes "log_ok w" "i < length (loggers w)" "lg_name (loggers w ! i) = ld_name d" "define_ok d"
  shows "\<exists>w' new. apply_define env d i w = Inr w' \<and> log_ok w' \<and> defined_as w' i d \<and> sig w' = sig w @ new
    \<and> length (loggers w') = length (loggers w) \<and> m_loggers w' = m_loggers w
    \<and> (\<forall>j. j \<noteq> i \<longrightarrow> loggers w' ! j = loggers w ! j)"
proof -
  obtain w1 where w1: "Logger_setLevel (ld_level d) i w = Inr w1" "log_ok w1" "m_loggers w1 = m_loggers w" "sig w1 = sig w"
    "loggers w1 = (loggers w)[i := (loggers w ! i)\<lparr>lg_level := ld_level d\<rparr>]"
    using setLevel_ok [OF assms(1,2)] by blast
  have i1: "i < length (loggers w1)" using w1 assms(2) by simp
  obtain w2 f where w2: "(if ld_formatter d \<noteq> [] then Logger_setFormatter_pattern (ld_formatter d) i w1 else Inr w1) = Inr w2"
    "log_ok w2" "m_loggers w2 = m_loggers w1" "sig w2 = sig w1"
    "loggers w2 = (loggers w1)[i := (loggers w1 ! i)\<lparr>lg_formatter := f\<rparr>]"
    using set_pattern_ok [OF w1(2) i1] by blast
  have i2: "i < length (loggers w2)" using w2 i1 by simp
  obtain w3 where w3: "clearAppender i w2 = Inr w3" "log_ok w3" "m_loggers w3 = m_loggers w2" "sig w3 = sig w2"
    "loggers w3 = with_appenders i [] w2"
    using clearAppender_ok [OF w2(2) i2] by blast
  have i3: "i < length (loggers w3)" using w3 i2 by simp
  obtain w4 where w4: "add_defined env (ld_appenders d) i w3 = Inr w4" "log_ok w4" "m_loggers w4 = m_loggers w3"
    "sig w4 = sig w3 @ map (\<lambda>a. (defined_kind a, ad_level a)) (ld_appenders d)"
    "loggers w4 = with_appenders i (lg_appenders (loggers w3 ! i)
       @ [length (appenders w3) ..< length (appenders w3) + length (ld_appenders d)]) w3"
    using add_defined_ok [OF w3(2) i3, of "ld_appenders d" env] assms(4) by (auto simp: define_ok_def)
  have run: "apply_define env d i w = Inr w4" using w1(1) w2(1) w3(1) w4(1) by (simp add: apply_define_def)
  have as: "lg_appenders (loggers w4 ! i) = [length (sig w3) ..< length (sig w3) + length (ld_appenders d)]"
    using w4(5) w3(5) i2 by simp
  have "map ((!) (sig w4)) (lg_appenders (loggers w4 ! i)) = map (\<lambda>a. (defined_kind a, ad_level a)) (ld_appenders d)"
    unfolding as w4(4) by (rule nth_equalityI) (simp_all add: nth_append)
  moreover have "lg_name (loggers w4 ! i) = ld_name d" "lg_level (loggers w4 ! i) = ld_level d"
    using w4(5) w3(5) w2(5) w1(5) i1 i2 i3 assms by simp_all
  ultimately have "defined_as w4 i d"
    unfolding defined_as_def using as w4(4,5) i3 by (auto simp: length_sig [symmetric] simp del: length_sig)
  then show ?thesis using run w4 w3 w2 w1 by simp
qed

text \<open>
  \<open>logger_at w n j g\<close>: the manager's logger named \<open>n\<close> is \<open>j\<close> and is \<open>g\<close>.  Changing the
  logger of one name leaves those of the others alone.
\<close>

definition logger_at :: "log_world \<Rightarrow> string \<Rightarrow> nat \<Rightarrow> logger \<Rightarrow> bool" where
  "logger_at w n j g \<longleftrightarrow> smap_find str_less n (m_loggers w) = Some j \<and> j < length (loggers w) \<and> loggers w ! j = g"

lemma change_one:
  assumes "log_ok w"
  obtains i w1 where "getLogger m w = Inr (i, w1)" "log_ok w1" "i < length (loggers w1)" "lg_name (loggers w1 ! i) = m"
    "sig w1 = sig w" "smap_find str_less m (m_loggers w1) = Some i"
    "\<And>w2 n j g. length (loggers w2) = length (loggers w1) \<Longrightarrow> m_loggers w2 = m_loggers w1 \<Longrightarrow>
      \<forall>j. j \<noteq> i \<longrightarrow> loggers w2 ! j = loggers w1 ! j \<Longrightarrow> logger_at w n j g \<Longrightarrow> n \<noteq> m \<Longrightarrow> logger_at w2 n j g"
proof -
  obtain i w1 where g: "getLogger m w = Inr (i, w1)" "log_ok w1" "i < length (loggers w1)"
    "lg_name (loggers w1 ! i) = m" "sig w1 = sig w" "smap_find str_less m (m_loggers w1) = Some i"
    "\<forall>n. n \<noteq> m \<longrightarrow> smap_find str_less n (m_loggers w1) = smap_find str_less n (m_loggers w)"
    "length (loggers w) \<le> length (loggers w1)" "take (length (loggers w)) (loggers w1) = loggers w"
    using getLogger_ok [OF assms, of m] by blast
  have "logger_at w2 n j g"
    if h: "length (loggers w2) = length (loggers w1)" "m_loggers w2 = m_loggers w1"
      "\<forall>j. j \<noteq> i \<longrightarrow> loggers w2 ! j = loggers w1 ! j" "logger_at w n j g" "n \<noteq> m" for w2 n j g
  proof -
    have j: "smap_find str_less n (m_loggers w1) = Some j" "j < length (loggers w)" "loggers w ! j = g"
      using h(4,5) g(7) by (auto simp: logger_at_def)
    then have same: "loggers w1 ! j = g" by (metis g(9) nth_take)
    have "lg_name g = n" using g(2) j(1) same by (auto simp: log_ok_def)
    then have "j \<noteq> i" using g(4) same h(5) by auto
    then show ?thesis using h j same g(8) by (simp add: logger_at_def)
  qed
  with g that show ?thesis by blast
qed

text \<open>
  \<open>applied w d\<close>: the manager's logger of that name is set up as the definition says;
  \<open>silenced w d\<close>: it has level 100 and no appender.
\<close>

definition applied :: "log_world \<Rightarrow> log_define \<Rightarrow> bool" where
  "applied w d \<longleftrightarrow> (\<exists>i. smap_find str_less (ld_name d) (m_loggers w) = Some i \<and> defined_as w i d)"

definition silenced :: "log_world \<Rightarrow> log_define \<Rightarrow> bool" where
  "silenced w d \<longleftrightarrow> (\<exists>j g. logger_at w (ld_name d) j g \<and> lg_level g = Level_cast 100 \<and> lg_appenders g = [])"

lemma applied_at: "applied w d \<Longrightarrow> \<exists>j. logger_at w (ld_name d) j (loggers w ! j) \<and> defined_as w j d"
  by (auto simp: applied_def logger_at_def defined_as_def)

lemma applied_keeps:
  assumes "logger_at w (ld_name d) j (loggers w ! j)" "defined_as w j d"
    and "logger_at w' (ld_name d) j (loggers w ! j)" "sig w' = sig w @ new"
  shows "applied w' d"
proof -
  have j: "j < length (loggers w')" "loggers w' ! j = loggers w ! j" "smap_find str_less (ld_name d) (m_loggers w') = Some j"
    using assms(3) by (simp_all add: logger_at_def)
  then have "defined_as w' j d" using assms(2,4) by (auto simp: defined_as_def nth_append simp del: length_sig cong: map_cong)
  then show ?thesis using j by (auto simp: applied_def)
qed

lemma apply_new_ok:
  "log_ok w \<Longrightarrow> \<forall>d \<in> set ds. define_ok d \<and> set_find d old \<noteq> Some d \<Longrightarrow> distinct (map ld_name (pre @ ds)) \<Longrightarrow>
   \<forall>d \<in> set pre. applied w d \<Longrightarrow>
   \<exists>w'. apply_new env old ds w = Inr w' \<and> log_ok w' \<and> (\<forall>d \<in> set (pre @ ds). applied w' d)"
proof (induction ds arbitrary: w pre)
  case Nil
  then show ?case by simp
next
  case (Cons d ds)
  obtain i w1 where g: "getLogger (ld_name d) w = Inr (i, w1)" "log_ok w1" "i < length (loggers w1)"
    "lg_name (loggers w1 ! i) = ld_name d" "sig w1 = sig w" "smap_find str_less (ld_name d) (m_loggers w1) = Some i"
    and frame: "\<And>w2 n j g. length (loggers w2) = length (loggers w1) \<Longrightarrow> m_loggers w2 = m_loggers w1 \<Longrightarrow>
      \<forall>j. j \<noteq> i \<longrightarrow> loggers w2 ! j = loggers w1 ! j \<Longrightarrow> logger_at w n j g \<Longrightarrow> n \<noteq> ld_name d \<Longrightarrow> logger_at w2 n j g"
    using change_one [OF Cons.prems(1), of "ld_name d"] by metis
  obtain w2 new where a: "apply_define env d i w1 = Inr w2" "log_ok w2" "defined_as w2 i d" "sig w2 = sig w1 @ new"
    "length (loggers w2) = length (loggers w1)" "m_loggers w2 = m_loggers w1" "\<forall>j. j \<noteq> i \<longrightarrow> loggers w2 ! j = loggers w1 ! j"
    using apply_define_ok [OF g(2-4)] Cons.prems(2) by fastforce
  have "applied w2 e" if "e \<in> set pre" for e
  proof -
    from that Cons.prems(3,4) have ne: "ld_name e \<noteq> ld_name d" and "applied w e" by (auto simp: image_iff)
    then obtain j where j: "logger_at w (ld_name e) j (loggers w ! j)" "defined_as w j e" using applied_at by blast
    show ?thesis by (rule applied_keeps [OF j frame [OF a(5-7) j(1) ne]]) (simp add: a(4) g(5))
  qed
  moreover have "applied w2 d" using a g(6) by (auto simp: applied_def)
  ultimately have "\<forall>e \<in> set (pre @ [d]). applied w2 e" by simp
  moreover have "distinct (map ld_name ((pre @ [d]) @ ds))" "\<forall>d \<in> set ds. define_ok d \<and> set_find d old \<noteq> Some d"
    using Cons.prems by simp_all
  ultimately obtain w' where w': "apply_new env old ds w2 = Inr w'" "log_ok w'" "\<forall>e \<in> set ((pre @ [d]) @ ds). applied w' e"
    using Cons.IH [OF a(2)] by blast
  have "apply_new env old (d # ds) w = apply_new env old ds w2"
    using g(1) a(1) Cons.prems(2) by (auto split: option.splits)
  then show ?case using w' by simp
qed

lemma drop_old_ok:
  "log_ok w \<Longrightarrow> \<forall>d \<in> set ds. set_find d new = None \<longrightarrow> ld_name d \<notin> ld_name ` (keep \<union> gone) \<Longrightarrow> distinct (map ld_name ds) \<Longrightarrow>
   \<forall>d \<in> keep. applied w d \<Longrightarrow> \<forall>d \<in> gone. silenced w d \<Longrightarrow>
   \<exists>w'. drop_old new ds w = Inr w' \<and> log_ok w' \<and> (\<forall>d \<in> keep. applied w' d)
     \<and> (\<forall>d \<in> gone \<union> {d \<in> set ds. set_find d new = None}. silenced w' d)"
proof (induction ds arbitrary: w gone)
  case Nil
  then show ?case by simp
next
  case (Cons d ds)
  show ?case
  proof (cases "set_find d new = None")
    case False
    then show ?thesis using Cons.IH [OF Cons.prems(1), of gone] Cons.prems by auto
  next
    case True
    obtain i w1 where g: "getLogger (ld_name d) w = Inr (i, w1)" "log_ok w1" "i < length (loggers w1)"
      "sig w1 = sig w" "smap_find str_less (ld_name d) (m_loggers w1) = Some i"
      and frame: "\<And>w2 n j g. length (loggers w2) = length (loggers w1) \<Longrightarrow> m_loggers w2 = m_loggers w1 \<Longrightarrow>
        \<forall>j. j \<noteq> i \<longrightarrow> loggers w2 ! j = loggers w1 ! j \<Longrightarrow> logger_at w n j g \<Longrightarrow> n \<noteq> ld_name d \<Longrightarrow> logger_at w2 n j g"
      using change_one [OF Cons.prems(1), of "ld_name d"] by metis
    obtain w2 where w2: "Logger_setLevel (Level_cast 100) i w1 = Inr w2" "log_ok w2" "m_loggers w2 = m_loggers w1"
      "sig w2 = sig w1" "loggers w2 = (loggers w1)[i := (loggers w1 ! i)\<lparr>lg_level := Level_cast 100\<rparr>]"
      using setLevel_ok [OF g(2,3)] by blast
    obtain w3 where w3: "clearAppender i w2 = Inr w3" "log_ok w3" "m_loggers w3 = m_loggers w2"
      "sig w3 = sig w2" "loggers w3 = with_appenders i [] w2"
      using clearAppender_ok [OF w2(2), of i] g(3) w2(5) by auto
    have fr: "length (loggers w3) = length (loggers w1)" "m_loggers w3 = m_loggers w1"
      "\<forall>j. j \<noteq> i \<longrightarrow> loggers w3 ! j = loggers w1 ! j" using w3 w2 by simp_all
    have names: "ld_name d \<notin> ld_name ` (keep \<union> gone)" using Cons.prems(2) True by simp
    have "applied w3 e" if e: "e \<in> keep" for e
    proof -
      obtain j where j: "logger_at w (ld_name e) j (loggers w ! j)" "defined_as w j e" using applied_at Cons.prems(4) e by blast
      have "ld_name e \<noteq> ld_name d" using names e by (metis UnCI image_eqI)
      then show ?thesis using w3 w2 g(4) by (intro applied_keeps [OF j frame [OF fr j(1)], of "[]"]) simp_all
    qed
    moreover have "silenced w3 e" if "e \<in> gone" for e
      using Cons.prems(5) that names frame [OF fr] unfolding silenced_def by (metis UnCI image_eqI)
    moreover have "silenced w3 d" using g(3,5) w3 w2 by (auto simp: silenced_def logger_at_def)
    ultimately have "\<exists>w'. drop_old new ds w3 = Inr w' \<and> log_ok w' \<and> (\<forall>d \<in> keep. applied w' d)
      \<and> (\<forall>d \<in> insert d gone \<union> {d \<in> set ds. set_find d new = None}. silenced w' d)"
      using Cons.prems by (intro Cons.IH [OF w3(2)]) (auto simp: image_iff)
    then show ?thesis using True g(1) w2(1) w3(1) by auto
  qed
qed

section \<open>Reachable worlds\<close>

inductive log_step :: "log_world \<Rightarrow> log_world \<Rightarrow> bool" where
  get_logger: "getLogger name w = Inr (i, w') \<Longrightarrow> log_step w w'"
| new_stdout: "StdoutLogAppender_ctor w = (a, w') \<Longrightarrow> log_step w w'"
| new_file: "FileLogAppender_ctor env fn w = (a, w') \<Longrightarrow> log_step w w'"
| add: "addAppender a i w = Inr w' \<Longrightarrow> log_step w w'"
| del: "delAppender a i w = Inr w' \<Longrightarrow> log_step w w'"
| clear: "clearAppender i w = Inr w' \<Longrightarrow> log_step w w'"
| level: "Logger_setLevel l i w = Inr w' \<Longrightarrow> log_step w w'"
| ap_level: "ap_setLevel l a w = Inr w' \<Longrightarrow> log_step w w'"
| formatter: "Logger_setFormatter (Some f) i w = Inr w' \<Longrightarrow> log_step w w'"
| ap_formatter: "ap_setFormatter (Some f) a w = Inr w' \<Longrightarrow> log_step w w'"
| log: "Logger_log env lvl event [] i w = Inr w' \<Longrightarrow> dates_fit env \<Longrightarrow> i < length (loggers w) \<Longrightarrow>
    m_logger event < length (loggers w) \<Longrightarrow> log_step w w'"

inductive log_reachable :: "log_world \<Rightarrow> bool" where
  start: "LogManger_ctor no_log = Inr w \<Longrightarrow> log_reachable w"
| step: "log_reachable w \<Longrightarrow> log_step w w' \<Longrightarrow> log_reachable w'"

lemma upd_index:
  "upd_logger i f w = Inr w' \<Longrightarrow> i < length (loggers w)" "upd_appender a f' w = Inr w' \<Longrightarrow> a < length (appenders w)"
  by (auto simp: upd_logger_def get_logger_def upd_appender_def get_appender_def split: if_splits)

lemma log_step_ok:
  assumes "log_ok w" "log_step w w'"
  shows "log_ok w'"
  using assms(2)
proof cases
  case (get_logger name i)
  then show ?thesis using getLogger_ok [OF assms(1), of name] by auto
next
  case (new_stdout a)
  then have "quiet w w'" by (auto simp: StdoutLogAppender_ctor_def quiet_def nth_append)
  then show ?thesis by (rule log_ok_quiet [OF assms(1)])
next
  case (new_file env fn a)
  then have "quiet w w'" by (auto simp: FileLogAppender_ctor_def reopen_def quiet_def nth_append split: if_splits)
  then show ?thesis by (rule log_ok_quiet [OF assms(1)])
next
  case (add a i)
  then have "i < length (loggers w)" "a < length (appenders w)"
    by (auto simp: addAppender_def get_logger_def getForamter_def get_appender_def split: if_splits)
  then show ?thesis using addAppender_ok [OF assms(1)] add by fastforce
next
  case (del a i)
  then show ?thesis using delAppender_ok [OF assms(1)] by simp
next
  case (clear i)
  then have "i < length (loggers w)" by (auto simp: clearAppender_def dest: upd_index)
  then show ?thesis using clearAppender_ok [OF assms(1)] clear by fastforce
next
  case (level l i)
  then have "i < length (loggers w)" by (auto simp: Logger_setLevel_def dest: upd_index)
  then show ?thesis using setLevel_ok [OF assms(1), of i l] level by auto
next
  case (ap_level l a)
  then show ?thesis using upd_appender_ok [OF assms(1)] by (auto simp: ap_setLevel_def)
next
  case (formatter f i)
  then have "i < length (loggers w)" by (auto simp: Logger_setFormatter_def rbind_eq_Inr dest: upd_index)
  then show ?thesis using setFormatter_ok [OF assms(1), of i f] formatter by auto
next
  case (ap_formatter f a)
  then show ?thesis using upd_appender_ok [OF assms(1)] by (auto simp: ap_setFormatter_def)
next
  case (log env lvl event i)
  then have "quiet w w'" using Logger_log_ok [OF assms(1), of env i event lvl] by auto
  then show ?thesis by (rule log_ok_quiet [OF assms(1)])
qed

lemma fresh_manager:
  "LogManger_ctor no_log = Inr \<lparr>appenders = [(new_appender StdoutLogAppender)\<lparr>m_formater := Some (LoggerFormatter_ctor default_pattern)\<rparr>],
     loggers = [\<lparr>lg_name = ''root'', lg_level = DEBUG, lg_appenders = [0],
       lg_formatter = Some (LoggerFormatter_ctor default_pattern), lg_root = None\<rparr>],
     m_loggers = [(''root'', 0)], m_root = 0, std_out = [], files = (\<lambda>_. [])\<rparr>"
  by (simp add: LogManger_ctor_def no_log_def Logger_ctor_def StdoutLogAppender_ctor_def addAppender_def get_logger_def
      getForamter_def get_appender_def new_appender_def upd_appender_def upd_logger_def)

lemma log_reachable_ok: "log_reachable w \<Longrightarrow> log_ok w"
proof (induction rule: log_reachable.induct)
  case (start w)
  then show ?case unfolding fresh_manager
    by (auto simp: log_ok_def logger_ok_def smap_def str_less_def split: if_splits)
next
  case (step w w')
  then show ?case using log_step_ok by blast
qed

section \<open>Properties\<close>

text \<open>
  C24: Logging never fails.  In every state the log manager can reach (loggers taken from
  it, appenders created and attached, formatters that are not null, dates that fit the
  64-byte buffer), logging any event on any logger returns: it neither dereferences a
  null formatter nor deadlocks on the way to the root logger; the result is again such a
  state, with the same loggers.
\<close>

theorem logging_safe:
  assumes "log_reachable w" "dates_fit env" "i < length (loggers w)" "m_logger event < length (loggers w)"
  shows "\<exists>w'. Logger_log env lvl event [] i w = Inr w' \<and> log_reachable w' \<and> loggers w' = loggers w"
proof -
  obtain w' where w': "Logger_log env lvl event [] i w = Inr w'" "quiet w w'"
    using Logger_log_ok [OF log_reachable_ok [OF assms(1)] assms(2-4)] by blast
  have "log_reachable w'" by (rule log_reachable.step [OF assms(1) log_step.log [OF w'(1) assms(2-4)]])
  then show ?thesis using w' by (auto simp: quiet_def)
qed

definition demo_env :: log_env where
  "demo_env = \<lparr>env_open = (\<lambda>_. True), env_date = (\<lambda>_ _. ''now''), env_now = 7, env_thread = 1, env_fiber = 0,
     env_thread_name = ''main'', env_file = ''a.cc''\<rparr>"

theorem logging_safe_witness:
  "\<exists>w w'. LogManger_ctor no_log = Inr w
    \<and> Logger_log demo_env INFO (LogEvent_ctor 0 INFO ''a.cc'' 1 0 1 0 0 ''main'') [] 0 w = Inr w' \<and> log_reachable w'"
proof -
  obtain w where w: "LogManger_ctor no_log = Inr w" "length (loggers w) = 1" by (simp add: fresh_manager)
  then show ?thesis
    using logging_safe [OF log_reachable.start [OF w(1)], of demo_env 0 "LogEvent_ctor 0 INFO ''a.cc'' 1 0 1 0 0 ''main''" INFO]
    by (auto simp: dates_fit_def demo_env_def LogEvent_ctor_def)
qed

definition level_text :: "level \<Rightarrow> string" where
  "level_text l = ''['' @ LogLevel_ToString l @ '']''"

text \<open>
  A message on a new logger reaches the standard output through the root logger.  In a
  new manager, a message of level DEBUG or above on a logger taken by a new name is
  printed once, in the default format, with that logger's name.
\<close>

theorem new_logger_prints_once:
  assumes "LogManger_ctor no_log = Inr w" "name \<noteq> ''root''" "dates_fit env" "level_val lvl \<ge> 1"
    and "getLogger name w = Inr (i, w1)"
  shows "\<exists>w2. QSLARY_LOG_LEVEL env i lvl line content w1 = Inr w2
    \<and> std_out w2 = std_out w1 @ env_date env ''%Y-%m-%d %H:%M:%S'' (env_now env) @ [TAB] @ show_nat (unat (env_thread env)) @ [TAB]
        @ env_thread_name env @ [TAB] @ show_nat (unat (env_fiber env)) @ [TAB] @ level_text lvl @ [TAB]
        @ ''['' @ name @ '']'' @ [TAB] @ env_file env @ '':'' @ show_nat (unat line) @ [TAB] @ content @ [LF]"
proof -
  have "smap_find str_less name (m_loggers w) = None" using assms(1,2) by (auto simp: fresh_manager str_less_def)
  then have w1: "i = 1" "w1 = w\<lparr>loggers := loggers w @ [\<lparr>lg_name = name, lg_level = DEBUG, lg_appenders = [],
       lg_formatter = Some (LoggerFormatter_ctor default_pattern), lg_root = Some 0\<rparr>],
       m_loggers := smap_put str_less name 1 (m_loggers w)\<rparr>"
    using assms(1,5) by (auto simp: fresh_manager getLogger_def Logger_ctor_def upd_logger_def get_logger_def)
  have fmt: "m_items (LoggerFormatter_ctor default_pattern) = map piece_item default_pieces"
    using formatter_pieces [OF default_pieces_ok(1)] by (simp add: default_pieces_ok(2))
  have date: "c_str ''%Y-%m-%d %H:%M:%S'' = ''%Y-%m-%d %H:%M:%S''" by (simp add: c_str_def special_chars)
  show ?thesis
    using assms(1,3,4)
    by (auto simp: w1 QSLARY_LOG_LEVEL_def get_logger_def LogEventWarp_dtor_def LogEvent_ctor_def fresh_manager
        Logger_log.simps appender_log_def get_appender_def new_appender_def Stdout_log_def ap_format_def formatter_format_def
        fmt default_pieces_def s_format_items_def DateTimeFormatItem_ctor_def date dates_fit_def logger_names_def level_text_def)
qed

text \<open>
  Log files lose their past.  When the clock has moved to another second since an
  appender last wrote, the next message truncates its file: afterwards the file holds
  that message only.  Within the same second messages are appended.
\<close>

theorem log_file_truncated:
  assumes "get_appender a w = Inr ap" "ap_kind ap = FileLogAppender fn" "level_val (ap_level ap) \<le> level_val lvl"
    and "ap_format env lvl event ap w = Inr s" "env_open env fn"
    and "appender_log env lvl event a w = Inr w'"
  shows "(env_now env \<noteq> lastTime ap \<longrightarrow> files w' fn = s)
    \<and> (env_now env = lastTime ap \<and> ap_open ap \<and> ap_pos ap = length (files w fn) \<longrightarrow> files w' fn = files w fn @ s)"
proof -
  have "ap_format env lvl event (ap\<lparr>ap_open := True, ap_pos := 0, lastTime := env_now env\<rparr>) (w\<lparr>files := F\<rparr>) = Inr s" for F
    using assms(4) by (auto simp: ap_format_def logger_names_def [abs_def] split: option.splits if_splits)
  then show ?thesis
    using assms by (auto simp: appender_log_def File_log_def reopen_def write_at_def split: if_splits)
qed

text \<open>
  Log configuration.  When the listener is given definitions none of which is found
  unchanged among the old ones, each with appenders of the two known types, it returns,
  and then each definition's logger has its level and exactly the defined appenders with
  their levels, and the logger of every old definition that is gone has level 100 and no
  appender.
\<close>

theorem log_config_applied:
  assumes "log_reachable w" "dates_fit env"
    and "\<forall>d \<in> set new. define_ok d \<and> set_find d old \<noteq> Some d" "sorted_wrt ld_less new" "sorted_wrt ld_less old"
  shows "\<exists>w'. on_log_change env old new w = Inr w'
    \<and> (\<forall>d \<in> set new. applied w' d) \<and> (\<forall>d \<in> set old. set_find d new = None \<longrightarrow> silenced w' d)"
proof -
  have ok: "log_ok w" by (rule log_reachable_ok [OF assms(1)])
  have dist: "sorted_wrt ld_less xs \<Longrightarrow> distinct (map ld_name xs)" for xs
    by (induction xs) (auto simp: ld_less_def)
  have root: "m_root w < length (loggers w)" using ok by (simp add: log_ok_def)
  obtain w1 where w1: "QSLARY_LOG_LEVEL env (m_root w) INFO 990 '' on_logger_config change'' w = Inr w1" "quiet w w1"
  proof -
    let ?ev = "(LogEvent_ctor (m_root w) INFO (env_file env) 990 0 (env_thread env) (env_fiber env) (env_now env)
                 (env_thread_name env))\<lparr>m_ss := '' on_logger_config change''\<rparr>"
    have "\<exists>w'. Logger_log env INFO ?ev [] (m_root w) w = Inr w' \<and> quiet w w'"
      by (rule Logger_log_ok [OF ok assms(2) root]) (use root in \<open>simp add: LogEvent_ctor_def\<close>)
    then show ?thesis using root that
      by (cases "level_val (lg_level (loggers w ! m_root w)) \<le> level_val INFO")
        (auto simp: QSLARY_LOG_LEVEL_def get_logger_def LogEventWarp_dtor_def LogEvent_ctor_def)
  qed
  obtain w2 where w2: "apply_new env old new w1 = Inr w2" "log_ok w2" "\<forall>d \<in> set new. applied w2 d"
    using apply_new_ok [OF log_ok_quiet [OF ok w1(2)], of new old "[]" env] assms(3) dist [OF assms(4)] by auto
  have "ld_name d \<notin> ld_name ` set new" if "set_find d new = None" for d
    using that by (fastforce simp: set_find_def find_None_iff ld_less_def)
  then obtain w3 where "drop_old new old w2 = Inr w3" "\<forall>d \<in> set new. applied w3 d"
    "\<forall>d \<in> {d \<in> set old. set_find d new = None}. silenced w3 d"
    using drop_old_ok [OF w2(2), of old new "set new" "{}"] dist [OF assms(5)] w2(3) by auto
  then show ?thesis using w1(1) w2(1) by (auto simp: on_log_change_def)
qed

text \<open>
  An unchanged definition crashes the listener.  If a definition of the new set is also
  in the old one with the same contents, the listener never returns normally: it uses the
  null pointer of a logger it did not look up.
\<close>

theorem unchanged_define_crashes:
  assumes "\<exists>d \<in> set new. set_find d old = Some d"
  shows "\<not> is_ok (on_log_change env old new w)"
proof -
  have "\<exists>e. apply_new env old new w = Inl e" if "\<exists>d \<in> set new. set_find d old = Some d" for w
    using that
  proof (induction new arbitrary: w)
    case (Cons d ds)
    show ?case
    proof (cases "set_find d old = Some d")
      case False
      then have "\<exists>e. apply_new env old ds w = Inl e" for w using Cons by auto
      then have "\<exists>e. rbind r (apply_new env old ds) = Inl e" for r by (cases r) auto
      then have "\<exists>e. rbind q (\<lambda>(i, w1). rbind (apply_define env d i w1) (apply_new env old ds)) = Inl e" for q
        by (cases q) (auto split: prod.splits)
      then show ?thesis using False by (auto split: option.splits)
    qed simp
  qed simp
  then have fails: "\<exists>e. apply_new env old new w = Inl e" for w using assms by blast
  show ?thesis
  proof (cases "QSLARY_LOG_LEVEL env (m_root w) INFO 990 '' on_logger_config change'' w")
    case (Inr w1)
    then show ?thesis using fails [of w1] by (auto simp: on_log_change_def)
  qed (simp add: on_log_change_def)
qed

lemma read_appender_node:
  assumes "yaml_laws lib" "ad_type a = 1 \<and> ad_file a = [] \<or> ad_type a = 2"
  shows "read_appender lib (appender_node a) = Inr (Some (a\<lparr>ad_level := UNKONW\<rparr>))"
  using assms
  by (auto simp: yaml_laws_def read_appender_def appender_node_def map_node_def level_pair_def Let_def)

lemma read_appender_nodes:
  assumes "yaml_laws lib"
  shows "\<forall>a \<in> set as. ad_type a = 1 \<and> ad_file a = [] \<or> ad_type a = 2 \<Longrightarrow>
    rmap (read_appender lib) (map appender_node as) = Inr (map (\<lambda>a. Some (a\<lparr>ad_level := UNKONW\<rparr>)) as)"
  by (induction as) (simp_all add: read_appender_node [OF assms])

text \<open>
  Appender levels are lost in a definition's text.  For a definition with appenders of
  the two known types, when the YAML library reads back what it emits, converting the
  definition to text and back gives the same name, level, formatter and appenders, except
  that every appender's level is UNKONW.
\<close>

theorem log_define_round_trip:
  assumes "yaml_laws lib" "yload lib (yemit lib (define_node d)) = Inr (define_node d)"
    and "\<forall>a \<in> set (ld_appenders d). ad_type a = 1 \<and> ad_file a = [] \<or> ad_type a = 2"
    and "ld_level d \<in> {UNKONW, DEBUG, INFO, WARRING, ERROR, FATAL}"
  shows "rbind (LogDefine_to_string lib d) (string_to_LogDefine lib) =
    Inr (d\<lparr>ld_appenders := map (\<lambda>a. a\<lparr>ad_level := UNKONW\<rparr>) (ld_appenders d)\<rparr>)"
proof -
  note laws = assms(1) [unfolded yaml_laws_def]
  have filter: "List.map_filter id (map (\<lambda>a. Some (f a)) xs) = map f xs" for f :: "appender_define \<Rightarrow> appender_define" and xs
    by (induction xs) (simp_all add: List.map_filter_simps)
  have sub: "ysub lib ''name'' (define_node d) = Inr (Some (Scalar (ld_name d)))"
    "read_opt lib ''level'' (define_node d) = Inr (if ld_level d = UNKONW then [] else LogLevel_ToString (ld_level d))"
    "read_opt lib ''formatter'' (define_node d) = Inr (ld_formatter d)"
    "ysub lib ''appenders'' (define_node d) =
       Inr (if ld_appenders d = [] then None else Some (Seq (map appender_node (ld_appenders d))))"
    using laws by (auto simp: define_node_def level_pair_def read_opt_def)
  have level: "LogLevel_FromString (if ld_level d = UNKONW then [] else LogLevel_ToString (ld_level d)) = ld_level d"
  proof (cases "ld_level d = UNKONW")
    case True
    then show ?thesis by (simp add: LogLevel_FromString_def)
  next
    case False
    then show ?thesis using assms(4) level_names_read_back [of "ld_level d"] by simp
  qed
  show ?thesis
    using assms(2) laws sub level read_appender_nodes [OF assms(1,3)]
    by (auto simp: LogDefine_to_string_def string_to_LogDefine_def filter List.map_filter_simps)
qed

subsection \<open>Witnesses\<close>

definition demo_define :: log_define where
  "demo_define = \<lparr>ld_name = ''net'', ld_level = ERROR, ld_formatter = [],
     ld_appenders = [\<lparr>ad_type = 2, ad_level = FATAL, ad_formatter = [], ad_file = ''net.log''\<rparr>]\<rparr>"

definition demo_define_lib :: yaml_lib where
  "demo_define_lib = demo_lib\<lparr>yload := (\<lambda>_. Inr (define_node demo_define))\<rparr>"

theorem new_logger_prints_once_witness:
  "\<exists>w w1 w2. LogManger_ctor no_log = Inr w \<and> getLogger ''net'' w = Inr (1, w1)
    \<and> QSLARY_LOG_LEVEL demo_env 1 INFO 12 ''hi'' w1 = Inr w2 \<and> std_out w2 \<noteq> std_out w1"
proof -
  obtain w where w: "LogManger_ctor no_log = Inr w" by (simp add: fresh_manager)
  have "\<exists>w1. getLogger ''net'' w = Inr (1, w1)"
    using w unfolding fresh_manager
    by (auto simp: getLogger_def Logger_ctor_def upd_logger_def get_logger_def str_less_def)
  then obtain w1 where w1: "getLogger ''net'' w = Inr (1, w1)" by blast
  have fit: "dates_fit demo_env" by (simp add: dates_fit_def demo_env_def)
  show ?thesis using new_logger_prints_once [OF w _ fit _ w1, of INFO 12 "''hi''"] w w1 by auto
qed

definition demo_file_world :: "log_world" where
  "demo_file_world = no_log\<lparr>appenders := [(new_appender (FileLogAppender ''f''))
       \<lparr>m_formater := Some \<lparr>m_partten = ''%m'', m_items = [MessageFormatItem], m_error = False\<rparr>,
        ap_open := True, ap_pos := 3, lastTime := 6\<rparr>],
     loggers := [\<lparr>lg_name = ''root'', lg_level = DEBUG, lg_appenders = [0], lg_formatter = None, lg_root = None\<rparr>],
     files := (\<lambda>_. ''old'')\<rparr>"

definition demo_event :: log_event where
  "demo_event = (LogEvent_ctor 0 INFO ''a.cc'' 1 0 1 0 0 ''main'')\<lparr>m_ss := ''new''\<rparr>"

lemmas demo_log_defs = demo_file_world_def demo_event_def demo_env_def new_appender_def no_log_def LogEvent_ctor_def

theorem log_file_truncated_witness:
  "\<exists>w'. files demo_file_world ''f'' = ''old''
     \<and> appender_log demo_env INFO demo_event 0 demo_file_world = Inr w' \<and> files w' ''f'' = ''new''"
proof -
  let ?ap = "appenders demo_file_world ! 0"
  have a: "get_appender 0 demo_file_world = Inr ?ap" "ap_kind ?ap = FileLogAppender ''f''"
    "level_val (ap_level ?ap) \<le> level_val INFO" "env_now demo_env \<noteq> lastTime ?ap" "env_open demo_env ''f''"
    "ap_format demo_env INFO demo_event ?ap demo_file_world = Inr ''new''"
    "files demo_file_world ''f'' = ''old''"
    by (simp_all add: get_appender_def ap_format_def formatter_format_def demo_log_defs)
  obtain w' where w': "appender_log demo_env INFO demo_event 0 demo_file_world = Inr w'"
    by (simp add: appender_log_def get_appender_def File_log_def reopen_def ap_format_def formatter_format_def demo_log_defs)
  show ?thesis using log_file_truncated [OF a(1-3) a(6) a(5) w'] a(4,7) w' by blast
qed

theorem log_config_applied_witness:
  "\<exists>w w'. LogManger_ctor no_log = Inr w \<and> on_log_change demo_env [] [demo_define] w = Inr w' \<and> applied w' demo_define"
proof -
  obtain w where w: "LogManger_ctor no_log = Inr w" by (simp add: fresh_manager)
  have fit: "dates_fit demo_env" by (simp add: dates_fit_def demo_env_def)
  show ?thesis
    using log_config_applied [OF log_reachable.start [OF w] fit, of "[demo_define]" "[]"] w
    by (auto simp: define_ok_def demo_define_def set_find_def)
qed

theorem unchanged_define_crashes_witness: "\<not> is_ok (on_log_change demo_env [demo_define] [demo_define] no_log)"
  by (rule unchanged_define_crashes) (simp add: set_find_def ld_less_def)

theorem log_define_round_trip_witness:
  "rbind (LogDefine_to_string demo_define_lib demo_define) (string_to_LogDefine demo_define_lib) =
     Inr (demo_define\<lparr>ld_appenders := [\<lparr>ad_type = 2, ad_level = UNKONW, ad_formatter = [], ad_file = ''net.log''\<rparr>]\<rparr>)"
proof -
  have "yaml_laws demo_define_lib" using demo_lib_laws by (simp add: yaml_laws_def demo_define_lib_def)
  then show ?thesis
    using log_define_round_trip [of demo_define_lib demo_define] by (simp add: demo_define_lib_def demo_define_def)
qed

end
