(* ===== verification/Poll.thy ===== *)
theory Poll
  imports Fiber Timer
begin

text \<open>
  Channels and the epoll poller (\<^verbatim>\<open>net/Channel.*\<close>, \<^verbatim>\<open>net/Poller.*\<close>, \<^verbatim>\<open>poller/*\<close>) of one event
  loop.  The state of the loop extends that of the fibers, because its functors are
  fibers; a channel pointer is a position in the list of channels.  What \<^verbatim>\<open>epoll_wait\<close> returns
  is an argument.

  The kernel's interest list maps a descriptor to the events and the channel pointer
  registered for it.  \<^verbatim>\<open>epoll_ctl\<close> fails (which the code only prints) as documented: adding a
  descriptor that is there, changing or removing one that is not, and adding or changing one
  the kernel does not accept in that call, because it is not open, cannot be watched or there
  is no room (\<open>ctl_accepts\<close>, of the number of the call and the descriptor).  The kernel drops a
  descriptor that is closed (a descriptor is taken to be the only one of its open file).  The
  history variable \<open>refused\<close> holds the descriptors whose last addition or change failed or that
  were closed while they were watched, until they are removed.

  A channel callback is the list of what it does: calls of channel operations, of
  \<^verbatim>\<open>quit\<close> and \<^verbatim>\<open>queueInLoop\<close>, or other work, recorded in the trace.
  \<^verbatim>\<open>assertInLoopThread\<close> only prints a message when it fails (\<^verbatim>\<open>abortNotInLoopThread\<close> does
  not abort), so it does not show here.
\<close>

unbundle bit_operations_syntax

section \<open>State\<close>

definition POLLIN :: u32 where "POLLIN = 1"
definition POLLPRI :: u32 where "POLLPRI = 2"
definition POLLOUT :: u32 where "POLLOUT = 4"
definition POLLERR :: u32 where "POLLERR = 8"
definition POLLHUP :: u32 where "POLLHUP = 16"
definition POLLNVAL :: u32 where "POLLNVAL = 32"
definition POLLRDHUP :: u32 where "POLLRDHUP = 8192"

lemmas poll_bits = POLLIN_def POLLPRI_def POLLOUT_def POLLERR_def POLLHUP_def POLLNVAL_def POLLRDHUP_def

(* net/Channel.cc 11-13: kNoneEvent, kReadEvent, kWriteEvent *)
definition kNoneEvent :: u32 where "kNoneEvent = 0"

(* net/Channel.cc 12: kReadEvent *)
definition kReadEvent :: u32 where "kReadEvent = POLLIN OR POLLPRI"

(* net/Channel.cc 13: kWriteEvent *)
definition kWriteEvent :: u32 where "kWriteEvent = POLLOUT"

datatype loop_cmd =
    L_work nat
  | L_enableReading nat
  | L_disableReading nat
  | L_enableWriting nat
  | L_disableWriting nat
  | L_disableAll nat
  | L_remove nat
  | L_queue callback
  | L_quit

(* net/Channel.h 92-107: Channel, fields *)
record channel =
  ch_fd :: int
  ch_events :: u32
  ch_revents :: u32
  ch_index :: int
  logHup :: bool
  tied :: bool
  tie_alive :: bool
  ch_eventHandling :: bool
  addedToLoop :: bool
  readCallback :: "loop_cmd list option"
  writeCallback :: "loop_cmd list option"
  closeCallback :: "loop_cmd list option"
  errorCallback :: "loop_cmd list option"

text \<open>\<open>channels\<close> is the poller's map, \<open>chans\<close> the channel objects.\<close>

(* net/EventLoop.h 117-137: EventLoop, fields; those of Poller and EPollPoller *)
record loop_state = fiber_world +
  chans :: "channel list"
  channels :: "(int \<times> nat) list"
  kernel :: "(int \<times> u32 \<times> nat) list"
  ctl_accepts :: "nat \<Rightarrow> int \<Rightarrow> bool"
  ctl_calls :: nat
  refused :: "int list"
  events_size :: nat
  looping :: bool
  quit_flag :: bool
  eventHandling :: bool
  callingPendingFunctors :: bool
  iteration :: nat
  pollReturnTime :: timestamp
  timerManger :: timer_manger
  wakeupChannel :: nat
  activeChannels :: "nat list"
  currentActiveChannel :: "nat option"
  pendingFibers :: "nat list"

definition get_chan :: "nat \<Rightarrow> loop_state \<Rightarrow> channel result" where
  "get_chan c w = (if c < length (chans w) then Inr (chans w ! c) else Inl Undefined_behaviour)"

definition set_chan :: "nat \<Rightarrow> channel \<Rightarrow> loop_state \<Rightarrow> loop_state" where
  "set_chan c ch w = w\<lparr>chans := (chans w)[c := ch]\<rparr>"

section \<open>The poller\<close>

(* poller/Epoller.cc 24-26: kNew, kAdded, kDeleted *)
definition kNew :: int where "kNew = - 1"

(* poller/Epoller.cc 25: kAdded *)
definition kAdded :: int where "kAdded = 1"

(* poller/Epoller.cc 26: kDeleted *)
definition kDeleted :: int where "kDeleted = 2"

lemmas index_defs = kNew_def kAdded_def kDeleted_def

datatype epoll_op = EPOLL_CTL_ADD | EPOLL_CTL_DEL | EPOLL_CTL_MOD

text \<open>The end of a call of \<^verbatim>\<open>epoll_ctl\<close>, after which the descriptor counts as refused or not.\<close>

definition ctl_done :: "bool \<Rightarrow> int \<Rightarrow> loop_state \<Rightarrow> loop_state" where
  "ctl_done ok fd w =
     w\<lparr>ctl_calls := ctl_calls w + 1, refused := (if ok then removeAll fd (refused w) else fd # refused w)\<rparr>"

fun epoll_ctl :: "epoll_op \<Rightarrow> int \<Rightarrow> u32 \<times> nat \<Rightarrow> loop_state \<Rightarrow> bool \<times> loop_state" where
  "epoll_ctl EPOLL_CTL_ADD fd ev w =
     (if ctl_accepts w (ctl_calls w) fd \<and> map_of (kernel w) fd = None
      then (True, ctl_done True fd (w\<lparr>kernel := AList.update fd ev (kernel w)\<rparr>)) else (False, ctl_done False fd w))"
| "epoll_ctl EPOLL_CTL_MOD fd ev w =
     (if ctl_accepts w (ctl_calls w) fd \<and> map_of (kernel w) fd \<noteq> None
      then (True, ctl_done True fd (w\<lparr>kernel := AList.update fd ev (kernel w)\<rparr>)) else (False, ctl_done False fd w))"
| "epoll_ctl EPOLL_CTL_DEL fd ev w =
     (map_of (kernel w) fd \<noteq> None, ctl_done True fd (w\<lparr>kernel := AList.delete fd (kernel w)\<rparr>))"

definition loop_fd_closed :: "int \<Rightarrow> loop_state \<Rightarrow> loop_state" where
  "loop_fd_closed fd w =
     (if map_of (kernel w) fd = None then w
      else w\<lparr>kernel := AList.delete fd (kernel w), refused := fd # refused w\<rparr>)"

(* poller/Epoller.cc 152: EPollPoller::update *)
definition poller_update :: "epoll_op \<Rightarrow> nat \<Rightarrow> loop_state \<Rightarrow> loop_state result" where
  "poller_update operation c w =
     rbind (get_chan c w) (\<lambda>ch. Inr (snd (epoll_ctl operation (ch_fd ch) (ch_events ch, c) w)))"

(* poller/Epoller.cc 174: EPollPoller::operationToString *)
definition operationToString :: "epoll_op \<Rightarrow> string" where
  "operationToString op = (case op of EPOLL_CTL_ADD \<Rightarrow> ''ADD'' | EPOLL_CTL_DEL \<Rightarrow> ''DEL'' | EPOLL_CTL_MOD \<Rightarrow> ''MOD'')"

(* poller/Epoller.cc 88: EPollPoller::updateChannel *)
definition poller_updateChannel :: "nat \<Rightarrow> loop_state \<Rightarrow> loop_state result" where
  "poller_updateChannel c w =
     rbind (get_chan c w) (\<lambda>ch.
     let index = ch_index ch; fd = ch_fd ch in
     if index = kNew \<or> index = kDeleted
     then
       rbind (if index = kNew
              then rbind (assert_r (map_of (channels w) fd = None)) (\<lambda>_.
                   Inr (w\<lparr>channels := AList.update fd c (channels w)\<rparr>))
              else rbind (assert_r (map_of (channels w) fd \<noteq> None)) (\<lambda>_.
                   rbind (assert_r (map_of (channels w) fd = Some c)) (\<lambda>_. Inr w))) (\<lambda>w1.
       poller_update EPOLL_CTL_ADD c (set_chan c (ch\<lparr>ch_index := kAdded\<rparr>) w1))
     else
       rbind (assert_r (map_of (channels w) fd \<noteq> None)) (\<lambda>_.
       rbind (assert_r (map_of (channels w) fd = Some c)) (\<lambda>_.
       rbind (assert_r (index = kAdded)) (\<lambda>_.
         if ch_events ch = kNoneEvent
         then rbind (poller_update EPOLL_CTL_DEL c w) (\<lambda>w1. Inr (set_chan c (ch\<lparr>ch_index := kDeleted\<rparr>) w1))
         else poller_update EPOLL_CTL_MOD c w))))"

(* poller/Epoller.cc 131: EPollPoller::removeChannel *)
definition poller_removeChannel :: "nat \<Rightarrow> loop_state \<Rightarrow> loop_state result" where
  "poller_removeChannel c w =
     rbind (get_chan c w) (\<lambda>ch.
     let index = ch_index ch; fd = ch_fd ch in
     rbind (assert_r (map_of (channels w) fd \<noteq> None)) (\<lambda>_.
     rbind (assert_r (map_of (channels w) fd = Some c)) (\<lambda>_.
     rbind (assert_r (ch_events ch = kNoneEvent)) (\<lambda>_.
     rbind (assert_r (index = kAdded \<or> index = kDeleted)) (\<lambda>_.
     let w1 = w\<lparr>channels := AList.delete fd (channels w)\<rparr> in
     rbind (if index = kAdded then poller_update EPOLL_CTL_DEL c w1 else Inr w1) (\<lambda>w2.
       Inr (set_chan c (ch\<lparr>ch_index := kNew\<rparr>) w2)))))))"

(* net/Poller.cc 11: Poller::hasChannel *)
definition poller_hasChannel :: "nat \<Rightarrow> loop_state \<Rightarrow> bool result" where
  "poller_hasChannel c w = rbind (get_chan c w) (\<lambda>ch. Inr (map_of (channels w) (ch_fd ch) = Some c))"

(* poller/Epoller.cc 71: EPollPoller::fillActiveChannels *)
fun fillActiveChannels :: "(u32 \<times> nat) list \<Rightarrow> loop_state \<Rightarrow> loop_state result" where
  "fillActiveChannels [] w = Inr w"
| "fillActiveChannels ((ev, c) # evs) w =
     rbind (get_chan c w) (\<lambda>ch.
     rbind (assert_r (map_of (channels w) (ch_fd ch) \<noteq> None)) (\<lambda>_.
     rbind (assert_r (map_of (channels w) (ch_fd ch) = Some c)) (\<lambda>_.
       fillActiveChannels evs
         ((set_chan c (ch\<lparr>ch_revents := ev\<rparr>) w)\<lparr>activeChannels := activeChannels w @ [c]\<rparr>))))"

text \<open>
  \<open>evs\<close> is what \<^verbatim>\<open>epoll_wait\<close> stored (nothing on a timeout or an error); it stores at most
  as many events as the array holds.
\<close>

(* poller/Epoller.cc 40: EPollPoller::poll *)
definition poller_poll :: "(u32 \<times> nat) list \<Rightarrow> loop_state \<Rightarrow> loop_state result" where
  "poller_poll evs w =
     (if evs \<noteq> []
      then rbind (assert_r (length evs \<le> events_size w)) (\<lambda>_.
           rbind (fillActiveChannels evs w) (\<lambda>w1.
             Inr (if length evs = events_size w then w1\<lparr>events_size := events_size w * 2\<rparr> else w1)))
      else Inr w)"

section \<open>Channels\<close>

(* net/EventLoop.cc 165: EventLoop::updateChannel *)
definition loop_updateChannel :: "nat \<Rightarrow> loop_state \<Rightarrow> loop_state result" where
  "loop_updateChannel c w = poller_updateChannel c w"

(* net/EventLoop.cc 172: EventLoop::removeChannel *)
definition loop_removeChannel :: "nat \<Rightarrow> loop_state \<Rightarrow> loop_state result" where
  "loop_removeChannel c w =
     rbind (assert_r (eventHandling w \<longrightarrow> currentActiveChannel w = Some c \<or> c \<notin> set (activeChannels w))) (\<lambda>_.
       poller_removeChannel c w)"

(* net/EventLoop.cc 184: EventLoop::hasChannel *)
definition loop_hasChannel :: "nat \<Rightarrow> loop_state \<Rightarrow> bool result" where
  "loop_hasChannel c w = poller_hasChannel c w"

definition new_channel :: "int \<Rightarrow> channel" where
  "new_channel fd = \<lparr>ch_fd = fd, ch_events = 0, ch_revents = 0, ch_index = kNew, logHup = True, tied = False,
     tie_alive = False, ch_eventHandling = False, addedToLoop = False, readCallback = None, writeCallback = None,
     closeCallback = None, errorCallback = None\<rparr>"

(* net/Channel.cc 15: Channel::Channel *)
definition Channel_ctor :: "int \<Rightarrow> loop_state \<Rightarrow> nat \<times> loop_state" where
  "Channel_ctor fd w = (length (chans w), w\<lparr>chans := chans w @ [new_channel fd]\<rparr>)"

(* net/Channel.cc 21: Channel::~Channel *)
definition Channel_dtor :: "bool \<Rightarrow> nat \<Rightarrow> loop_state \<Rightarrow> unit result" where
  "Channel_dtor inLoopThread c w =
     rbind (get_chan c w) (\<lambda>ch.
     rbind (assert_r (\<not> ch_eventHandling ch)) (\<lambda>_.
     rbind (assert_r (\<not> addedToLoop ch)) (\<lambda>_.
     if inLoopThread then rbind (loop_hasChannel c w) (\<lambda>has. assert_r (\<not> has)) else Inr ())))"

(* net/Channel.cc 31: Channel::tie *)
definition channel_tie :: "nat \<Rightarrow> loop_state \<Rightarrow> loop_state result" where
  "channel_tie c w = rbind (get_chan c w) (\<lambda>ch. Inr (set_chan c (ch\<lparr>tied := True, tie_alive := True\<rparr>) w))"

(* net/Channel.cc 37: Channel::update *)
definition channel_update :: "nat \<Rightarrow> loop_state \<Rightarrow> loop_state result" where
  "channel_update c w =
     rbind (get_chan c w) (\<lambda>ch. loop_updateChannel c (set_chan c (ch\<lparr>addedToLoop := True\<rparr>) w))"

definition set_events :: "(u32 \<Rightarrow> u32) \<Rightarrow> nat \<Rightarrow> loop_state \<Rightarrow> loop_state result" where
  "set_events f c w =
     rbind (get_chan c w) (\<lambda>ch. channel_update c (set_chan c (ch\<lparr>ch_events := f (ch_events ch)\<rparr>) w))"

(* net/Channel.h 41: enableReading *)
definition enableReading :: "nat \<Rightarrow> loop_state \<Rightarrow> loop_state result" where
  "enableReading c w = set_events (\<lambda>e. e OR kReadEvent) c w"

(* net/Channel.h 46: disableReading *)
definition disableReading :: "nat \<Rightarrow> loop_state \<Rightarrow> loop_state result" where
  "disableReading c w = set_events (\<lambda>e. e AND NOT kReadEvent) c w"

(* net/Channel.h 51: enableWriting *)
definition enableWriting :: "nat \<Rightarrow> loop_state \<Rightarrow> loop_state result" where
  "enableWriting c w = set_events (\<lambda>e. e OR kWriteEvent) c w"

(* net/Channel.h 56: disableWriting *)
definition disableWriting :: "nat \<Rightarrow> loop_state \<Rightarrow> loop_state result" where
  "disableWriting c w = set_events (\<lambda>e. e AND NOT kWriteEvent) c w"

(* net/Channel.h 61: disableAll *)
definition disableAll :: "nat \<Rightarrow> loop_state \<Rightarrow> loop_state result" where
  "disableAll c w = set_events (\<lambda>_. kNoneEvent) c w"

(* net/Channel.cc 43: Channel::remove *)
definition channel_remove :: "nat \<Rightarrow> loop_state \<Rightarrow> loop_state result" where
  "channel_remove c w =
     rbind (get_chan c w) (\<lambda>ch.
     rbind (assert_r (ch_events ch = kNoneEvent)) (\<lambda>_.
       loop_removeChannel c (set_chan c (ch\<lparr>addedToLoop := False\<rparr>) w)))"

(* net/Channel.cc 109: Channel::eventsToString *)
definition eventsToString :: "int \<Rightarrow> u32 \<Rightarrow> string" where
  "eventsToString fd ev =
     show_int fd @ '': ''
     @ (if ev AND POLLIN \<noteq> 0 then ''IN '' else []) @ (if ev AND POLLPRI \<noteq> 0 then ''PRI '' else [])
     @ (if ev AND POLLOUT \<noteq> 0 then ''OUT '' else []) @ (if ev AND POLLHUP \<noteq> 0 then ''HUP '' else [])
     @ (if ev AND POLLRDHUP \<noteq> 0 then ''RDHUP '' else []) @ (if ev AND POLLERR \<noteq> 0 then ''ERR '' else [])
     @ (if ev AND POLLNVAL \<noteq> 0 then ''NVAL '' else [])"

section \<open>Callbacks and dispatch\<close>

text \<open>
  \<^verbatim>\<open>queueInLoop\<close> and \<^verbatim>\<open>quit\<close>, called from the loop's own thread; \<^verbatim>\<open>wakeup\<close> has an empty body.
\<close>

(* net/EventLoop.cc 127: EventLoop::queueInLoop *)
definition queueInLoop :: "callback option \<Rightarrow> loop_state \<Rightarrow> loop_state" where
  "queueInLoop cb w = (let (p, w1) = Fiber_ctor cb 0 w in w1\<lparr>pendingFibers := pendingFibers w1 @ [p]\<rparr>)"

(* net/EventLoop.cc 103: EventLoop::quit *)
definition loop_quit :: "loop_state \<Rightarrow> loop_state" where
  "loop_quit w = w\<lparr>quit_flag := True\<rparr>"

fun run_cmd :: "loop_cmd \<Rightarrow> loop_state \<Rightarrow> loop_state result" where
  "run_cmd (L_work n) w = Inr (w\<lparr>trace := trace w @ [n]\<rparr>)"
| "run_cmd (L_enableReading c) w = enableReading c w"
| "run_cmd (L_disableReading c) w = disableReading c w"
| "run_cmd (L_enableWriting c) w = enableWriting c w"
| "run_cmd (L_disableWriting c) w = disableWriting c w"
| "run_cmd (L_disableAll c) w = disableAll c w"
| "run_cmd (L_remove c) w = channel_remove c w"
| "run_cmd (L_queue cb) w = Inr (queueInLoop (Some cb) w)"
| "run_cmd L_quit w = Inr (loop_quit w)"

fun run_cmds :: "loop_cmd list \<Rightarrow> loop_state \<Rightarrow> loop_state result" where
  "run_cmds [] w = Inr w"
| "run_cmds (i # is) w = rbind (run_cmd i w) (run_cmds is)"

definition run_cb :: "loop_cmd list option \<Rightarrow> loop_state \<Rightarrow> loop_state result" where
  "run_cb cb w = (case cb of None \<Rightarrow> Inr w | Some is \<Rightarrow> run_cmds is w)"

text \<open>
  Each callback is read from the channel when it is called.
\<close>

definition call_if :: "bool \<Rightarrow> (channel \<Rightarrow> loop_cmd list option) \<Rightarrow> nat \<Rightarrow> loop_state \<Rightarrow> loop_state result" where
  "call_if b sel c w = (if b then rbind (get_chan c w) (\<lambda>ch. run_cb (sel ch) w) else Inr w)"

(* net/Channel.cc 69: Channel::handleEventWithGuard *)
definition handleEventWithGuard :: "nat \<Rightarrow> loop_state \<Rightarrow> loop_state result" where
  "handleEventWithGuard c w =
     rbind (get_chan c w) (\<lambda>ch.
     let rev = ch_revents ch in
     rbind (call_if (rev AND POLLHUP \<noteq> 0 \<and> rev AND POLLIN = 0) closeCallback c (set_chan c (ch\<lparr>ch_eventHandling := True\<rparr>) w)) (\<lambda>w1.
     rbind (call_if (rev AND (POLLERR OR POLLNVAL) \<noteq> 0) errorCallback c w1) (\<lambda>w2.
     rbind (call_if (rev AND (POLLIN OR POLLPRI OR POLLRDHUP) \<noteq> 0) readCallback c w2) (\<lambda>w3.
     rbind (call_if (rev AND POLLOUT \<noteq> 0) writeCallback c w3) (\<lambda>w4.
     rbind (get_chan c w4) (\<lambda>ch4. Inr (set_chan c (ch4\<lparr>ch_eventHandling := False\<rparr>) w4)))))))"

(* net/Channel.cc 50: Channel::handleEvent *)
definition handleEvent :: "nat \<Rightarrow> loop_state \<Rightarrow> loop_state result" where
  "handleEvent c w =
     rbind (get_chan c w) (\<lambda>ch.
       if tied ch then if tie_alive ch then handleEventWithGuard c w else Inr w
       else handleEventWithGuard c w)"

section \<open>Registration\<close>

text \<open>
  \<open>poll_ok\<close>: a channel is in the poller's map unless its index says it is new, what the kernel
  holds are registered channels whose index says they are added, and for a descriptor that is
  not refused it holds the channel whose index says so, with its events.
\<close>

definition chan_ok :: "loop_state \<Rightarrow> nat \<Rightarrow> bool" where
  "chan_ok w c \<longleftrightarrow> ch_index (chans w ! c) \<in> {kNew, kAdded, kDeleted}
     \<and> (ch_index (chans w ! c) \<noteq> kNew \<longleftrightarrow> map_of (channels w) (ch_fd (chans w ! c)) = Some c)
     \<and> (addedToLoop (chans w ! c) \<longleftrightarrow> ch_index (chans w ! c) \<noteq> kNew)"

definition poll_ok :: "loop_state \<Rightarrow> bool" where
  "poll_ok w \<longleftrightarrow> (\<forall>c < length (chans w). chan_ok w c)
     \<and> (\<forall>fd c. map_of (channels w) fd = Some c \<longrightarrow> c < length (chans w) \<and> ch_fd (chans w ! c) = fd)
     \<and> (\<forall>fd ev c. map_of (kernel w) fd = Some (ev, c) \<longrightarrow> map_of (channels w) fd = Some c \<and> ch_index (chans w ! c) = kAdded)
     \<and> (\<forall>fd c. fd \<notin> set (refused w) \<longrightarrow> map_of (channels w) fd = Some c \<longrightarrow>
          map_of (kernel w) fd = (if ch_index (chans w ! c) = kAdded then Some (ch_events (chans w ! c), c) else None))"

lemma kernel_sound:
  "poll_ok w \<Longrightarrow> map_of (kernel w) fd = Some (ev, c) \<Longrightarrow> map_of (channels w) fd = Some c \<and> ch_index (chans w ! c) = kAdded"
  unfolding poll_ok_def by blast

lemma kernel_exact:
  "poll_ok w \<Longrightarrow> fd \<notin> set (refused w) \<Longrightarrow> map_of (channels w) fd = Some c \<Longrightarrow>
   map_of (kernel w) fd = (if ch_index (chans w ! c) = kAdded then Some (ch_events (chans w ! c), c) else None)"
  unfolding poll_ok_def by blast

lemma kernel_iff:
  "poll_ok w \<Longrightarrow> fd \<notin> set (refused w) \<Longrightarrow> map_of (kernel w) fd = Some (ev, c) \<longleftrightarrow>
     map_of (channels w) fd = Some c \<and> ch_index (chans w ! c) = kAdded \<and> ch_events (chans w ! c) = ev"
  using kernel_sound [of w fd ev c] kernel_exact [of w fd c] by auto

lemma chan_okD: "poll_ok w \<Longrightarrow> c < length (chans w) \<Longrightarrow> chan_ok w c"
  by (simp add: poll_ok_def)

lemma channels_iff: "poll_ok w \<Longrightarrow> map_of (channels w) fd = Some c \<Longrightarrow> c < length (chans w) \<and> ch_fd (chans w ! c) = fd"
  by (simp add: poll_ok_def)

lemma poll_ok_cong:
  assumes "poll_ok w" "channels w' = channels w" "kernel w' = kernel w" "length (chans w') = length (chans w)"
    and "set (refused w) \<subseteq> set (refused w')"
    and "\<And>c. c < length (chans w) \<Longrightarrow> ch_fd (chans w' ! c) = ch_fd (chans w ! c) \<and> ch_events (chans w' ! c) = ch_events (chans w ! c)
      \<and> ch_index (chans w' ! c) = ch_index (chans w ! c) \<and> addedToLoop (chans w' ! c) = addedToLoop (chans w ! c)"
  shows "poll_ok w'"
proof -
  have "ch_index (chans w' ! c) = ch_index (chans w ! c)" "ch_events (chans w' ! c) = ch_events (chans w ! c)"
    "c < length (chans w') \<and> ch_fd (chans w' ! c) = fd" if "map_of (channels w) fd = Some c" for fd c
    using channels_iff [OF assms(1) that] assms(4,6) by auto
  note same = this
  show ?thesis unfolding poll_ok_def
  proof (intro conjI allI impI)
    show "chan_ok w' c" if "c < length (chans w')" for c
      using chan_okD [OF assms(1), of c] assms(6) [of c] that assms(2,4) by (simp add: chan_ok_def)
    show "c < length (chans w')" "ch_fd (chans w' ! c) = fd" if "map_of (channels w') fd = Some c" for fd c
      using same(3) [of fd c] that assms(2) by simp_all
    show "map_of (channels w') fd = Some c" "ch_index (chans w' ! c) = kAdded" if "map_of (kernel w') fd = Some (ev, c)" for fd ev c
      using kernel_sound [OF assms(1), of fd ev c] same(1) [of fd c] that assms(2,3) by simp_all
    show "map_of (kernel w') fd = (if ch_index (chans w' ! c) = kAdded then Some (ch_events (chans w' ! c), c) else None)"
      if "fd \<notin> set (refused w')" "map_of (channels w') fd = Some c" for fd c
    proof -
      have "fd \<notin> set (refused w)" "map_of (channels w) fd = Some c" using that assms(2,5) by auto
      then show ?thesis using kernel_exact [OF assms(1)] same(1,2) [of fd c] assms(3) by simp
    qed
  qed
qed

lemma poll_ok_change:
  assumes ok: "poll_ok w" and c: "c < length (chans w)" and fd: "fd = ch_fd (chans w ! c)"
    and free: "map_of (channels w) fd = None \<or> map_of (channels w) fd = Some c"
    and ch: "ch_fd ch = fd" "ch_index ch \<in> {kNew, kAdded, kDeleted}" "addedToLoop ch \<longleftrightarrow> ch_index ch \<noteq> kNew"
    and w': "chans w' = (chans w)[c := ch]"
      "map_of (channels w') = (map_of (channels w))(fd := if ch_index ch = kNew then None else Some c)"
      "map_of (kernel w') = (map_of (kernel w))(fd := kv)"
    and kv: "kv = None \<or> (\<exists>ev. kv = Some (ev, c)) \<and> ch_index ch = kAdded"
      "fd \<in> set (refused w') \<or> kv = (if ch_index ch = kAdded then Some (ch_events ch, c) else None)"
    and r: "\<And>x. x \<noteq> fd \<Longrightarrow> x \<in> set (refused w) \<Longrightarrow> x \<in> set (refused w')"
  shows "poll_ok w'"
  unfolding poll_ok_def
proof (intro conjI allI impI)
  have other: "ch_index (chans w ! d) = kNew" if "d < length (chans w)" "d \<noteq> c" "ch_fd (chans w ! d) = fd" for d
    using chan_okD [OF ok that(1)] that free by (auto simp: chan_ok_def)
  fix d assume d: "d < length (chans w')"
  show "chan_ok w' d"
  proof (cases "d = c")
    case True
    then show ?thesis using c ch by (auto simp: chan_ok_def w' fd)
  next
    case False
    then have "d < length (chans w)" using d w' by simp
    then show ?thesis using chan_okD [OF ok] other [of d] False by (auto simp: chan_ok_def w')
  qed
next
  fix fd' d assume "map_of (channels w') fd' = Some d"
  then show "d < length (chans w')" "ch_fd (chans w' ! d) = fd'"
    using c ch(1) channels_iff [OF ok, of fd' d] by (auto simp: w' fd nth_list_update split: if_splits)
next
  have other: "d \<noteq> c" if "map_of (channels w) fd' = Some d" "fd' \<noteq> fd" for d fd'
    using channels_iff [OF ok that(1)] that(2) fd by auto
  fix fd' ev d assume k: "map_of (kernel w') fd' = Some (ev, d)"
  show "map_of (channels w') fd' = Some d" "ch_index (chans w' ! d) = kAdded"
    using k kv(1) c kernel_sound [OF ok, of fd' ev d] other [of fd' d] by (auto simp: w' index_defs split: if_splits)
next
  have other: "d \<noteq> c" if "map_of (channels w) fd' = Some d" "fd' \<noteq> fd" for d fd'
    using channels_iff [OF ok that(1)] that(2) fd by auto
  fix fd' d assume k: "fd' \<notin> set (refused w')" "map_of (channels w') fd' = Some d"
  show "map_of (kernel w') fd' = (if ch_index (chans w' ! d) = kAdded then Some (ch_events (chans w' ! d), d) else None)"
  proof (cases "fd' = fd")
    case True
    then show ?thesis using k c kv(2) by (auto simp: w' split: if_splits)
  next
    case False
    then have "fd' \<notin> set (refused w)" using k(1) r by blast
    then show ?thesis using False k(2) kernel_exact [OF ok, of fd' d] other [of fd' d] by (auto simp: w')
  qed
qed

text \<open>What the event-setting operations do to a well-formed state.\<close>

definition new_index :: "u32 \<Rightarrow> channel \<Rightarrow> int" where
  "new_index ev ch = (if ch_index ch = kAdded \<and> ev = kNoneEvent then kDeleted else kAdded)"

text \<open>Whether the kernel takes the next addition or change of a channel's descriptor.\<close>

definition ctl_taken :: "channel \<Rightarrow> loop_state \<Rightarrow> bool" where
  "ctl_taken ch w \<longleftrightarrow> ctl_accepts w (ctl_calls w) (ch_fd ch) \<and> (ch_index ch = kAdded \<longrightarrow> map_of (kernel w) (ch_fd ch) \<noteq> None)"

definition events_set :: "u32 \<Rightarrow> nat \<Rightarrow> loop_state \<Rightarrow> loop_state" where
  "events_set ev c w =
     (let ch = chans w ! c; fd = ch_fd ch; added = (new_index ev ch = kAdded) in
      ctl_done (added \<longrightarrow> ctl_taken ch w) fd
       (w\<lparr>chans := (chans w)[c := ch\<lparr>ch_events := ev, addedToLoop := True, ch_index := new_index ev ch\<rparr>],
          channels := (if ch_index ch = kNew then AList.update fd c (channels w) else channels w),
          kernel := (if \<not> added then AList.delete fd (kernel w)
            else if ctl_taken ch w then AList.update fd (ev, c) (kernel w) else kernel w)\<rparr>))"

lemma not_added:
  assumes "poll_ok w" "c < length (chans w)" "ch_index (chans w ! c) \<noteq> kAdded"
    and "map_of (channels w) (ch_fd (chans w ! c)) = None \<or> map_of (channels w) (ch_fd (chans w ! c)) = Some c"
  shows "map_of (kernel w) (ch_fd (chans w ! c)) = None"
proof (cases "map_of (kernel w) (ch_fd (chans w ! c))")
  case (Some x)
  then show ?thesis using kernel_sound [OF assms(1), of _ "fst x" "snd x"] assms(3,4) by auto
qed

lemma set_events_run:
  assumes "poll_ok w" "c < length (chans w)"
    and "map_of (channels w) (ch_fd (chans w ! c)) = None \<or> map_of (channels w) (ch_fd (chans w ! c)) = Some c"
  shows "set_events f c w = Inr (events_set (f (ch_events (chans w ! c))) c w)"
proof -
  let ?ch = "chans w ! c" and ?fd = "ch_fd (chans w ! c)"
  note ok = chan_okD [OF assms(1,2), unfolded chan_ok_def]
  have k: "map_of (kernel w) ?fd = None" if "ch_index ?ch \<noteq> kAdded"
    using not_added [OF assms(1,2) that assms(3)] .
  consider "ch_index ?ch = kNew" "map_of (channels w) ?fd = None" | "ch_index ?ch = kDeleted" "map_of (channels w) ?fd = Some c"
    | "ch_index ?ch = kAdded" "map_of (channels w) ?fd = Some c" using ok assms(3) by (auto simp: index_defs)
  then show ?thesis
  proof cases
    case 1
    then show ?thesis using assms(2) k
      by (simp add: set_events_def get_chan_def set_chan_def channel_update_def loop_updateChannel_def poller_updateChannel_def
          poller_update_def events_set_def new_index_def ctl_taken_def ctl_done_def index_defs Let_def)
  next
    case 2
    then show ?thesis using assms(2) k
      by (simp add: set_events_def get_chan_def set_chan_def channel_update_def loop_updateChannel_def poller_updateChannel_def
          poller_update_def events_set_def new_index_def ctl_taken_def ctl_done_def index_defs Let_def)
  next
    case 3
    have same: "?ch\<lparr>ch_events := e, addedToLoop := True, ch_index := 1\<rparr> = ?ch\<lparr>ch_events := e, addedToLoop := True\<rparr>" for e
      using 3 by (cases ?ch) (simp add: index_defs)
    show ?thesis using 3 assms(2)
      by (cases "f (ch_events ?ch) = kNoneEvent"; cases "map_of (kernel w) ?fd = None"; cases "ctl_accepts w (ctl_calls w) ?fd")
        (simp_all add: same set_events_def get_chan_def set_chan_def channel_update_def loop_updateChannel_def
          poller_updateChannel_def poller_update_def events_set_def new_index_def ctl_taken_def ctl_done_def index_defs Let_def)
  qed
qed

lemma events_set_kernel:
  "map_of (kernel (events_set ev c w)) = (map_of (kernel w))(ch_fd (chans w ! c) :=
     if new_index ev (chans w ! c) \<noteq> kAdded then None else if ctl_taken (chans w ! c) w then Some (ev, c)
     else map_of (kernel w) (ch_fd (chans w ! c)))"
  "set (refused (events_set ev c w)) = set (refused w) - {ch_fd (chans w ! c)}
     \<union> (if new_index ev (chans w ! c) = kAdded \<and> \<not> ctl_taken (chans w ! c) w then {ch_fd (chans w ! c)} else {})"
  by (auto simp: events_set_def ctl_done_def Let_def update_conv' delete_conv')

lemma events_set_ok:
  assumes "poll_ok w" "c < length (chans w)"
    and "map_of (channels w) (ch_fd (chans w ! c)) = None \<or> map_of (channels w) (ch_fd (chans w ! c)) = Some c"
  shows "poll_ok (events_set ev c w)"
proof (rule poll_ok_change [OF assms(1,2) refl assms(3)])
  let ?c = "chans w ! c"
  let ?ch = "?c\<lparr>ch_events := ev, addedToLoop := True, ch_index := new_index ev ?c\<rparr>"
  let ?kv = "if new_index ev ?c \<noteq> kAdded then None else if ctl_taken ?c w then Some (ev, c) else map_of (kernel w) (ch_fd ?c)"
  show "ch_fd ?ch = ch_fd ?c" "ch_index ?ch \<in> {kNew, kAdded, kDeleted}" "addedToLoop ?ch \<longleftrightarrow> ch_index ?ch \<noteq> kNew"
    by (simp_all add: new_index_def index_defs)
  show "chans (events_set ev c w) = (chans w)[c := ?ch]" by (simp add: events_set_def ctl_done_def Let_def)
  show "map_of (channels (events_set ev c w)) =
      (map_of (channels w))(ch_fd ?c := if ch_index ?ch = kNew then None else Some c)"
    using chan_okD [OF assms(1,2)]
    by (auto simp: events_set_def ctl_done_def Let_def update_conv' new_index_def index_defs chan_ok_def)
  show "map_of (kernel (events_set ev c w)) = (map_of (kernel w))(ch_fd ?c := ?kv)" by (rule events_set_kernel)
  have "map_of (kernel w) (ch_fd ?c) = None \<or> (\<exists>e. map_of (kernel w) (ch_fd ?c) = Some (e, c))"
    using kernel_sound [OF assms(1), of "ch_fd ?c"] assms(3) by (cases "map_of (kernel w) (ch_fd ?c)") fastforce+
  then show "?kv = None \<or> (\<exists>ev. ?kv = Some (ev, c)) \<and> ch_index ?ch = kAdded" by auto
  show "ch_fd ?c \<in> set (refused (events_set ev c w)) \<or> ?kv = (if ch_index ?ch = kAdded then Some (ch_events ?ch, c) else None)"
    by (simp add: events_set_kernel)
qed (simp add: events_set_kernel)

lemma set_events_success:
  assumes "poll_ok w" "set_events f c w = Inr w'"
  shows "c < length (chans w) \<and> (map_of (channels w) (ch_fd (chans w ! c)) = None \<or> map_of (channels w) (ch_fd (chans w ! c)) = Some c)"
proof -
  have c: "c < length (chans w)" using assms(2) by (auto simp: set_events_def get_chan_def split: if_splits)
  show ?thesis
  proof (cases "ch_index (chans w ! c) = kNew")
    case True
    then have "map_of (channels w) (ch_fd (chans w ! c)) = None"
      using assms(2) c
      by (auto simp: set_events_def get_chan_def set_chan_def channel_update_def loop_updateChannel_def
          poller_updateChannel_def Let_def rbind_eq_Inr)
    then show ?thesis using c by simp
  next
    case False
    then show ?thesis using chan_okD [OF assms(1) c] c by (simp add: chan_ok_def)
  qed
qed

lemma set_events_ok: "poll_ok w \<Longrightarrow> set_events f c w = Inr w' \<Longrightarrow> poll_ok w'"
  using set_events_success [of w f c w'] set_events_run [of w c f] events_set_ok [of w c] by auto

text \<open>What removing a channel does.\<close>

definition channel_removed :: "nat \<Rightarrow> loop_state \<Rightarrow> loop_state" where
  "channel_removed c w =
     (let ch = chans w ! c;
          w1 = w\<lparr>chans := (chans w)[c := ch\<lparr>addedToLoop := False, ch_index := kNew\<rparr>],
                 channels := AList.delete (ch_fd ch) (channels w)\<rparr> in
      if ch_index ch = kAdded then ctl_done True (ch_fd ch) (w1\<lparr>kernel := AList.delete (ch_fd ch) (kernel w)\<rparr>) else w1)"

definition may_remove :: "nat \<Rightarrow> loop_state \<Rightarrow> bool" where
  "may_remove c w \<longleftrightarrow> c < length (chans w) \<and> ch_index (chans w ! c) \<noteq> kNew \<and> ch_events (chans w ! c) = kNoneEvent
     \<and> (eventHandling w \<longrightarrow> currentActiveChannel w = Some c \<or> c \<notin> set (activeChannels w))"

lemma channel_remove_run:
  assumes "poll_ok w" "may_remove c w"
  shows "channel_remove c w = Inr (channel_removed c w)"
proof -
  let ?ch = "chans w ! c"
  have c: "c < length (chans w)" using assms(2) by (simp add: may_remove_def)
  have ok: "map_of (channels w) (ch_fd ?ch) = Some c" "ch_index ?ch = kAdded \<or> ch_index ?ch = kDeleted"
    using chan_okD [OF assms(1) c] assms(2) by (auto simp: chan_ok_def may_remove_def)
  show ?thesis using ok assms(2) c
    by (auto simp: channel_remove_def get_chan_def set_chan_def loop_removeChannel_def poller_removeChannel_def poller_update_def
        may_remove_def channel_removed_def ctl_done_def Let_def index_defs)
qed

lemma channel_removed_ok:
  assumes "poll_ok w" "may_remove c w"
  shows "poll_ok (channel_removed c w)"
proof -
  let ?ch = "(chans w ! c)\<lparr>addedToLoop := False, ch_index := kNew\<rparr>"
  have c: "c < length (chans w)" using assms(2) by (simp add: may_remove_def)
  have m: "map_of (channels w) (ch_fd (chans w ! c)) = Some c"
    using chan_okD [OF assms(1) c] assms(2) by (simp add: chan_ok_def may_remove_def)
  have "map_of (kernel w) (ch_fd (chans w ! c)) = None" if "ch_index (chans w ! c) \<noteq> kAdded"
    using not_added [OF assms(1) c that] m by simp
  then have k: "map_of (kernel (channel_removed c w)) = (map_of (kernel w))(ch_fd (chans w ! c) := None)"
    by (auto simp: channel_removed_def ctl_done_def Let_def delete_conv')
  show ?thesis
    by (rule poll_ok_change [OF assms(1) c refl, of ?ch, OF _ _ _ _ _ _ k])
      (auto simp: m channel_removed_def ctl_done_def Let_def delete_conv' index_defs)
qed

lemma channel_remove_success: "poll_ok w \<Longrightarrow> channel_remove c w = Inr w' \<Longrightarrow> may_remove c w"
  by (auto simp: channel_remove_def get_chan_def set_chan_def loop_removeChannel_def poller_removeChannel_def may_remove_def
      Let_def index_defs rbind_eq_Inr split: if_splits)

lemma queueInLoop_simps [simp]:
  "chans (queueInLoop cb w) = chans w" "channels (queueInLoop cb w) = channels w" "kernel (queueInLoop cb w) = kernel w"
  "refused (queueInLoop cb w) = refused w"
  by (simp_all add: queueInLoop_def Fiber_ctor_def Let_def)

lemma run_cmd_ok:
  assumes "poll_ok w" "run_cmd i w = Inr w'"
  shows "poll_ok w'"
proof -
  have quiet: "poll_ok v" if "chans v = chans w" "channels v = channels w" "kernel v = kernel w" "refused v = refused w" for v
    using poll_ok_cong [OF assms(1)] that by simp
  show ?thesis
  proof (cases i)
    case (L_remove c)
    then have "may_remove c w" using assms channel_remove_success by simp
    moreover from this have "w' = channel_removed c w" using L_remove assms channel_remove_run [of w c] by simp
    ultimately show ?thesis using assms(1) channel_removed_ok by simp
  qed (use assms set_events_ok in \<open>auto simp: enableReading_def disableReading_def enableWriting_def disableWriting_def
      disableAll_def loop_quit_def intro: quiet\<close>)
qed

lemma run_cmds_ok: "poll_ok w \<Longrightarrow> run_cmds is w = Inr w' \<Longrightarrow> poll_ok w'"
proof (induction "is" arbitrary: w)
  case (Cons i "is")
  then show ?case using run_cmd_ok by (auto simp: rbind_eq_Inr)
qed simp

subsection \<open>Steps of a loop's thread\<close>

definition set_callbacks :: "nat \<Rightarrow> (channel \<Rightarrow> channel) \<Rightarrow> loop_state \<Rightarrow> loop_state" where
  "set_callbacks c f w = set_chan c (f (chans w ! c)) w"

inductive poll_step :: "loop_state \<Rightarrow> loop_state \<Rightarrow> bool" where
  new: "Channel_ctor fd w = (c, w') \<Longrightarrow> poll_step w w'"
| cmd: "run_cmd i w = Inr w' \<Longrightarrow> poll_step w w'"
| reported: "poller_poll evs w = Inr w' \<Longrightarrow> poll_step w w'"
| handled: "handleEvent c w = Inr w' \<Longrightarrow> poll_step w w'"
| callbacks: "poll_step w (set_callbacks c (\<lambda>ch. ch\<lparr>readCallback := r, writeCallback := wr, closeCallback := cl, errorCallback := er\<rparr>) w)"
| tie: "channel_tie c w = Inr w' \<Longrightarrow> poll_step w w'"
| fd_closed: "poll_step w (loop_fd_closed fd w)"

definition no_loop :: "fiber list \<Rightarrow> nat option \<Rightarrow> loop_state" where
  "no_loop fs mf = \<lparr>fibers = fs, s_fiber_count = 0, s_fiber_id = 0, thread_current_fiber = mf, thread_main_fiber = mf,
     sched_main_fiber = mf, g_fiber_stack_size = 131072, trace = [], chans = [], channels = [], kernel = [],
     ctl_accepts = (\<lambda>_ _. True), ctl_calls = 0, refused = [], events_size = 16,
     looping = False, quit_flag = False, eventHandling = False, callingPendingFunctors = False, iteration = 0,
     pollReturnTime = Timestamp 0, timerManger = TimerManger_ctor, wakeupChannel = 0, activeChannels = [],
     currentActiveChannel = None, pendingFibers = []\<rparr>"

inductive poll_reachable :: "loop_state \<Rightarrow> bool" where
  start: "poll_reachable ((no_loop fs mf)\<lparr>ctl_accepts := accepts\<rparr>)"
| step: "poll_reachable w \<Longrightarrow> poll_step w w' \<Longrightarrow> poll_reachable w'"

lemma set_chan_ok:
  assumes "poll_ok w" "ch_fd ch = ch_fd (chans w ! c)" "ch_events ch = ch_events (chans w ! c)"
    "ch_index ch = ch_index (chans w ! c)" "addedToLoop ch = addedToLoop (chans w ! c)"
  shows "poll_ok (set_chan c ch w)"
proof (cases "c < length (chans w)")
  case True
  then show ?thesis
    by (intro poll_ok_cong [OF assms(1)]) (use assms in \<open>auto simp: set_chan_def nth_list_update\<close>)
next
  case False
  then show ?thesis using assms(1) by (simp add: set_chan_def list_update_beyond not_less)
qed

lemma fill_ok: "poll_ok w \<Longrightarrow> fillActiveChannels evs w = Inr w' \<Longrightarrow> poll_ok w'"
proof (induction evs arbitrary: w)
  case (Cons e evs)
  obtain ev c where e: "e = (ev, c)" by (cases e)
  let ?w = "(set_chan c ((chans w ! c)\<lparr>ch_revents := ev\<rparr>) w)\<lparr>activeChannels := activeChannels w @ [c]\<rparr>"
  have "poll_ok ?w"
    by (rule poll_ok_cong [OF set_chan_ok [OF Cons.prems(1), of "(chans w ! c)\<lparr>ch_revents := ev\<rparr>" c]]) simp_all
  then show ?case using Cons e by (auto simp: rbind_eq_Inr get_chan_def split: if_splits)
qed simp

lemma call_if_ok: "poll_ok w \<Longrightarrow> call_if b sel c w = Inr w' \<Longrightarrow> poll_ok w'"
  by (auto simp: call_if_def run_cb_def rbind_eq_Inr dest: run_cmds_ok split: if_splits option.splits)

lemma handleEvent_ok:
  assumes "poll_ok w" "handleEvent c w = Inr w'"
  shows "poll_ok w'"
proof (cases "w' = w")
  case False
  then have "handleEventWithGuard c w = Inr w'"
    using assms(2) by (auto simp: handleEvent_def get_chan_def split: if_splits)
  then obtain ch w1 w2 w3 w4 ch4 where steps:
    "get_chan c w = Inr ch" "call_if (ch_revents ch AND POLLHUP \<noteq> 0 \<and> ch_revents ch AND POLLIN = 0) closeCallback c
        (set_chan c (ch\<lparr>ch_eventHandling := True\<rparr>) w) = Inr w1"
    "call_if (ch_revents ch AND (POLLERR OR POLLNVAL) \<noteq> 0) errorCallback c w1 = Inr w2"
    "call_if (ch_revents ch AND (POLLIN OR POLLPRI OR POLLRDHUP) \<noteq> 0) readCallback c w2 = Inr w3"
    "call_if (ch_revents ch AND POLLOUT \<noteq> 0) writeCallback c w3 = Inr w4"
    "get_chan c w4 = Inr ch4" "w' = set_chan c (ch4\<lparr>ch_eventHandling := False\<rparr>) w4"
    by (auto simp: handleEventWithGuard_def Let_def rbind_eq_Inr)
  have ch: "ch = chans w ! c" "ch4 = chans w4 ! c" using steps(1,6) by (auto simp: get_chan_def split: if_splits)
  have "poll_ok (set_chan c (ch\<lparr>ch_eventHandling := True\<rparr>) w)" by (rule set_chan_ok [OF assms(1)]) (simp_all add: ch)
  from call_if_ok [OF call_if_ok [OF call_if_ok [OF call_if_ok [OF this steps(2)] steps(3)] steps(4)] steps(5)]
  show ?thesis unfolding steps(7) by (rule set_chan_ok) (simp_all add: ch)
qed (use assms in simp)

lemma Channel_ctor_ok:
  assumes "poll_ok w"
  shows "poll_ok (w\<lparr>chans := chans w @ [new_channel fd]\<rparr>)"
  unfolding poll_ok_def
proof (intro conjI allI impI)
  let ?w = "w\<lparr>chans := chans w @ [new_channel fd]\<rparr>"
  have old: "c < length (chans w)" if "map_of (channels w) fd' = Some c" for fd' c using channels_iff [OF assms that] by simp
  show "chan_ok ?w c" if "c < length (chans ?w)" for c
  proof (cases "c = length (chans w)")
    case True
    have "map_of (channels w) fd \<noteq> Some (length (chans w))" using old by blast
    then show ?thesis using True by (simp add: chan_ok_def new_channel_def index_defs)
  next
    case False
    then have "c < length (chans w)" using that by simp
    then show ?thesis using chan_okD [OF assms] by (simp add: chan_ok_def nth_append)
  qed
  show "c < length (chans ?w)" "ch_fd (chans ?w ! c) = fd'" if "map_of (channels ?w) fd' = Some c" for fd' c
    using channels_iff [OF assms, of fd' c] that by (simp_all add: nth_append)
  show "map_of (channels ?w) fd' = Some c" "ch_index (chans ?w ! c) = kAdded" if "map_of (kernel ?w) fd' = Some (ev, c)" for fd' ev c
    using kernel_sound [OF assms, of fd' ev c] old [of fd' c] that by (auto simp: nth_append)
  show "map_of (kernel ?w) fd' = (if ch_index (chans ?w ! c) = kAdded then Some (ch_events (chans ?w ! c), c) else None)"
    if "fd' \<notin> set (refused ?w)" "map_of (channels ?w) fd' = Some c" for fd' c
    using kernel_exact [OF assms, of fd' c] old [of fd' c] that by (auto simp: nth_append)
qed

lemma loop_fd_closed_ok:
  assumes "poll_ok w"
  shows "poll_ok (loop_fd_closed fd w)"
proof (cases "map_of (kernel w) fd = None")
  case False
  let ?w = "loop_fd_closed fd w"
  have w: "chans ?w = chans w" "channels ?w = channels w" "map_of (kernel ?w) = (map_of (kernel w))(fd := None)"
    "refused ?w = fd # refused w" using False by (auto simp: loop_fd_closed_def delete_conv')
  show ?thesis unfolding poll_ok_def
  proof (intro conjI allI impI)
    show "chan_ok ?w c" if "c < length (chans ?w)" for c using chan_okD [OF assms, of c] that by (simp add: chan_ok_def w)
    show "c < length (chans ?w)" "ch_fd (chans ?w ! c) = fd'" if "map_of (channels ?w) fd' = Some c" for fd' c
      using channels_iff [OF assms, of fd' c] that by (simp_all add: w)
    show "map_of (channels ?w) fd' = Some c" "ch_index (chans ?w ! c) = kAdded" if "map_of (kernel ?w) fd' = Some (ev, c)" for fd' ev c
      using kernel_sound [OF assms, of fd' ev c] that by (simp_all add: w split: if_splits)
    show "map_of (kernel ?w) fd' = (if ch_index (chans ?w ! c) = kAdded then Some (ch_events (chans ?w ! c), c) else None)"
      if "fd' \<notin> set (refused ?w)" "map_of (channels ?w) fd' = Some c" for fd' c
      using kernel_exact [OF assms, of fd' c] that by (simp add: w)
  qed
qed (simp add: assms loop_fd_closed_def)

lemma poll_reachable_ok: "poll_reachable w \<Longrightarrow> poll_ok w"
proof (induction rule: poll_reachable.induct)
  case (start fs mf accepts)
  then show ?case by (simp add: no_loop_def poll_ok_def)
next
  case (step w w')
  show ?case using step(2)
  proof cases
    case (new fd c)
    then show ?thesis using Channel_ctor_ok [OF step.IH] by (auto simp: Channel_ctor_def)
  next
    case (reported evs)
    show ?thesis
    proof (cases "evs = []")
      case False
      then obtain w1 where w1: "fillActiveChannels evs w = Inr w1"
          "chans w' = chans w1 \<and> channels w' = channels w1 \<and> kernel w' = kernel w1 \<and> refused w' = refused w1"
        using reported by (fastforce simp: poller_poll_def rbind_eq_Inr)
      then show ?thesis using poll_ok_cong [OF fill_ok [OF step.IH w1(1)], of w'] by simp
    qed (use step.IH reported in \<open>simp add: poller_poll_def\<close>)
  next
    case (callbacks c r wr cl er)
    then show ?thesis unfolding set_callbacks_def by (simp add: set_chan_ok [OF step.IH])
  next
    case (tie c)
    then show ?thesis by (auto simp: channel_tie_def get_chan_def intro!: set_chan_ok [OF step.IH] split: if_splits)
  next
    case (cmd i)
    then show ?thesis by (rule run_cmd_ok [OF step.IH])
  next
    case (handled c)
    then show ?thesis by (rule handleEvent_ok [OF step.IH])
  next
    case (fd_closed fd)
    then show ?thesis using loop_fd_closed_ok [OF step.IH] by simp
  qed
qed

section \<open>Properties\<close>

text \<open>
  C19: The kernel watches what the channels want.  In every reachable state of a loop,
  whatever calls of \<^verbatim>\<open>epoll_ctl\<close> the kernel refused and whatever descriptors were closed: all it
  watches are channels that are registered for their descriptor, and a descriptor whose last
  call it did not refuse and that was not closed while watched is in its list exactly if a
  channel with that descriptor is registered, with that channel's events.  Changing a
  channel's events succeeds whenever no other channel is registered for its descriptor, and
  fails an assertion otherwise.  When it succeeds, a watched channel that wants no events any
  more is no longer in the list; otherwise the kernel has the new events if it accepts the
  call and, for a channel registered before, still has the descriptor, and if not, its list is as
  before and the descriptor counts as refused, although the code goes on; every other
  descriptor is as before.
\<close>

theorem kernel_watches_channels:
  assumes "poll_reachable w"
  shows "(\<forall>fd ev c. map_of (kernel w) fd = Some (ev, c) \<longrightarrow>
          c < length (chans w) \<and> ch_fd (chans w ! c) = fd \<and> ch_index (chans w ! c) = kAdded)
    \<and> (\<forall>fd ev c. fd \<notin> set (refused w) \<longrightarrow> (map_of (kernel w) fd = Some (ev, c) \<longleftrightarrow>
          c < length (chans w) \<and> ch_fd (chans w ! c) = fd \<and> ch_events (chans w ! c) = ev \<and> ch_index (chans w ! c) = kAdded))
    \<and> (\<forall>c f. c < length (chans w) \<longrightarrow>
        (let ch = chans w ! c; fd = ch_fd ch; ev = f (ch_events ch); gone = (ch_index ch = kAdded \<and> ev = kNoneEvent);
             taken = (ctl_accepts w (ctl_calls w) fd \<and> (ch_index ch = kAdded \<longrightarrow> map_of (kernel w) fd \<noteq> None)) in
         if map_of (channels w) fd \<in> {None, Some c}
         then \<exists>w'. set_events f c w = Inr w'
           \<and> map_of (kernel w') = (map_of (kernel w))
               (fd := if gone then None else if taken then Some (ev, c) else map_of (kernel w) fd)
           \<and> set (refused w') = set (refused w) - {fd} \<union> (if gone \<or> taken then {} else {fd})
         else set_events f c w = Inl Assert_failed))"
proof (intro conjI allI impI)
  have ok: "poll_ok w" by (rule poll_reachable_ok [OF assms])
  fix fd ev c assume "map_of (kernel w) fd = Some (ev, c)"
  from kernel_sound [OF ok this] channels_iff [OF ok, of fd c]
  show "c < length (chans w)" "ch_fd (chans w ! c) = fd" "ch_index (chans w ! c) = kAdded" by simp_all
next
  have ok: "poll_ok w" by (rule poll_reachable_ok [OF assms])
  fix fd ev c assume fd: "fd \<notin> set (refused w)"
  have "map_of (channels w) fd = Some c" if "c < length (chans w)" "ch_fd (chans w ! c) = fd" "ch_index (chans w ! c) = kAdded"
    using chan_okD [OF ok that(1)] that by (auto simp: chan_ok_def index_defs)
  then show "map_of (kernel w) fd = Some (ev, c) \<longleftrightarrow> c < length (chans w) \<and> ch_fd (chans w ! c) = fd
        \<and> ch_events (chans w ! c) = ev \<and> ch_index (chans w ! c) = kAdded"
    using kernel_iff [OF ok fd, of ev c] channels_iff [OF ok, of fd c] by auto
next
  have ok: "poll_ok w" by (rule poll_reachable_ok [OF assms])
  fix c and f :: "u32 \<Rightarrow> u32" assume c: "c < length (chans w)"
  let ?ch = "chans w ! c"
  show "let ch = chans w ! c; fd = ch_fd ch; ev = f (ch_events ch); gone = (ch_index ch = kAdded \<and> ev = kNoneEvent);
             taken = (ctl_accepts w (ctl_calls w) fd \<and> (ch_index ch = kAdded \<longrightarrow> map_of (kernel w) fd \<noteq> None)) in
         if map_of (channels w) fd \<in> {None, Some c}
         then \<exists>w'. set_events f c w = Inr w'
           \<and> map_of (kernel w') = (map_of (kernel w))
               (fd := if gone then None else if taken then Some (ev, c) else map_of (kernel w) fd)
           \<and> set (refused w') = set (refused w) - {fd} \<union> (if gone \<or> taken then {} else {fd})
         else set_events f c w = Inl Assert_failed"
  proof (cases "map_of (channels w) (ch_fd ?ch) \<in> {None, Some c}")
    case True
    have "(new_index ev ?ch \<noteq> kAdded) = (ch_index ?ch = kAdded \<and> ev = kNoneEvent)" for ev by (simp add: new_index_def index_defs)
    then show ?thesis using True set_events_run [OF ok c, of f]
      by (auto simp: events_set_kernel ctl_taken_def Let_def)
  next
    case False
    then have "ch_index ?ch = kNew" using chan_okD [OF ok c] by (auto simp: chan_ok_def)
    then show ?thesis using False c
      by (auto simp: set_events_def get_chan_def set_chan_def channel_update_def loop_updateChannel_def poller_updateChannel_def Let_def)
  qed
qed

definition demo_loop :: loop_state where
  "demo_loop = snd (Channel_ctor 5 (no_loop [] None))"

lemma demo_loop_reachable: "poll_reachable demo_loop"
proof -
  have "poll_step (no_loop [] None) demo_loop"
    by (rule poll_step.new [of 5 _ 0]) (simp add: demo_loop_def Channel_ctor_def no_loop_def)
  moreover have "poll_reachable (no_loop [] None)"
    using poll_reachable.start [where fs = "[]" and mf = None and accepts = "\<lambda>_ _. True"] by (simp add: no_loop_def)
  ultimately show ?thesis by (rule poll_reachable.step [rotated])
qed

theorem kernel_watches_channels_witness:
  "\<exists>w'. enableReading 0 demo_loop = Inr w' \<and> map_of (kernel w') 5 = Some (kReadEvent, 0)"
proof -
  have d: "length (chans demo_loop) = 1" "chans demo_loop ! 0 = new_channel 5" "channels demo_loop = []"
    "ctl_accepts demo_loop (ctl_calls demo_loop) 5"
    by (simp_all add: demo_loop_def Channel_ctor_def no_loop_def)
  show ?thesis
    using kernel_watches_channels [OF demo_loop_reachable, THEN conjunct2, THEN conjunct2, rule_format, of 0 "\<lambda>e. e OR kReadEvent"]
    by (auto simp: d new_channel_def enableReading_def index_defs Let_def)
qed

lemma fill_run:
  "poll_ok w \<Longrightarrow> \<forall>(ev, c) \<in> set evs. map_of (channels w) (ch_fd (chans w ! c)) = Some c \<and> c < length (chans w) \<Longrightarrow>
   \<exists>w'. fillActiveChannels evs w = Inr w' \<and> activeChannels w' = activeChannels w @ map snd evs \<and> events_size w' = events_size w"
proof (induction evs arbitrary: w)
  case (Cons e evs)
  obtain ev c where e: "e = (ev, c)" by (cases e)
  let ?w = "(set_chan c ((chans w ! c)\<lparr>ch_revents := ev\<rparr>) w)\<lparr>activeChannels := activeChannels w @ [c]\<rparr>"
  have c: "c < length (chans w)" "map_of (channels w) (ch_fd (chans w ! c)) = Some c" using Cons.prems(2) e by auto
  have ok: "poll_ok ?w"
    by (rule poll_ok_cong [OF set_chan_ok [OF Cons.prems(1), of "(chans w ! c)\<lparr>ch_revents := ev\<rparr>" c]]) simp_all
  have "\<forall>(ev', d) \<in> set evs. map_of (channels ?w) (ch_fd (chans ?w ! d)) = Some d \<and> d < length (chans ?w)"
    using Cons.prems(2) c(1) by (auto simp: set_chan_def nth_list_update)
  from Cons.IH [OF ok this] show ?case using e c by (auto simp: get_chan_def set_chan_def)
qed simp

text \<open>
  Reported events become active channels.  In a reachable state, when \<^verbatim>\<open>epoll_wait\<close> reports
  at most as many events as there is room for, each for a channel the kernel watches, the
  poll succeeds, the reported channels are the active ones in that order, and the array is
  doubled exactly if it was full.
\<close>

theorem poll_fills_active:
  assumes "poll_reachable w" "length evs \<le> events_size w" "activeChannels w = []"
    and "\<forall>(ev, c) \<in> set evs. \<exists>fd interest. map_of (kernel w) fd = Some (interest, c)"
  shows "\<exists>w'. poller_poll evs w = Inr w' \<and> activeChannels w' = map snd evs
    \<and> events_size w' = (if evs \<noteq> [] \<and> length evs = events_size w then events_size w * 2 else events_size w)"
proof -
  have ok: "poll_ok w" by (rule poll_reachable_ok [OF assms(1)])
  have "\<forall>(ev, c) \<in> set evs. map_of (channels w) (ch_fd (chans w ! c)) = Some c \<and> c < length (chans w)"
    using assms(4) kernel_sound [OF ok] channels_iff [OF ok] by fastforce
  then show ?thesis using fill_run [OF ok, of evs] assms(2,3) by (fastforce simp: poller_poll_def)
qed

text \<open>
  Dispatch.  A channel whose callbacks only do work of their own calls, in this order:
  the close callback if the peer hung up and nothing is readable, the error callback on an
  error or an invalid descriptor, the read callback if anything is readable, and the write
  callback if it is writable; a channel tied to an object that is gone calls none.
\<close>

theorem dispatch_order:
  assumes "c < length (chans w)" "ch = chans w ! c"
    and "closeCallback ch = Some [L_work 1]" "errorCallback ch = Some [L_work 2]"
    and "readCallback ch = Some [L_work 3]" "writeCallback ch = Some [L_work 4]"
  shows "\<exists>w'. handleEvent c w = Inr w' \<and> trace w' = trace w @
      (if tied ch \<and> \<not> tie_alive ch then []
       else filter (\<lambda>n. n = 1 \<and> ch_revents ch AND POLLHUP \<noteq> 0 \<and> ch_revents ch AND POLLIN = 0
              \<or> n = 2 \<and> ch_revents ch AND (POLLERR OR POLLNVAL) \<noteq> 0
              \<or> n = 3 \<and> ch_revents ch AND (POLLIN OR POLLPRI OR POLLRDHUP) \<noteq> 0
              \<or> n = 4 \<and> ch_revents ch AND POLLOUT \<noteq> 0) [1, 2, 3, 4])"
proof -
  let ?r = "ch_revents ch"
  let ?b = "\<lambda>n. if n = (1 :: nat) then ?r AND POLLHUP \<noteq> 0 \<and> ?r AND POLLIN = 0 else if n = 2 then ?r AND (POLLERR OR POLLNVAL) \<noteq> 0
    else if n = 3 then ?r AND (POLLIN OR POLLPRI OR POLLRDHUP) \<noteq> 0 else ?r AND POLLOUT \<noteq> 0"
  define cs where "cs = (chans w)[c := ch\<lparr>ch_eventHandling := True\<rparr>]"
  have call: "call_if b sel c v = Inr (v\<lparr>trace := trace v @ (if b then [n] else [])\<rparr>)"
    if "sel (cs ! c) = Some [L_work n]" "chans v = cs" for b sel n v
    using that assms(1) by (simp add: call_if_def get_chan_def run_cb_def cs_def)
  have sels: "closeCallback (cs ! c) = Some [L_work 1]" "errorCallback (cs ! c) = Some [L_work 2]"
    "readCallback (cs ! c) = Some [L_work 3]" "writeCallback (cs ! c) = Some [L_work 4]"
    using assms by (simp_all add: cs_def)
  have g: "get_chan c w = Inr ch" "get_chan c v = Inr (ch\<lparr>ch_eventHandling := True\<rparr>)" if "chans v = cs" for v
    using assms(1,2) that by (simp_all add: get_chan_def cs_def)
  have w: "chans (set_chan c (ch\<lparr>ch_eventHandling := True\<rparr>) w) = cs" "trace (set_chan c ch' v) = trace v" for ch' v
    by (simp_all add: set_chan_def cs_def)
  have "\<exists>w'. handleEventWithGuard c w = Inr w' \<and> trace w' = trace w @ (if ?b 1 then [1] else []) @ (if ?b 2 then [2] else [])
      @ (if ?b 3 then [3] else []) @ (if ?b 4 then [4] else [])"
    unfolding handleEventWithGuard_def Let_def g(1) [OF w(1)] rbind_Inr
    by (simp add: g(2) w call [of closeCallback, OF sels(1)] call [of errorCallback, OF sels(2)]
        call [of readCallback, OF sels(3)] call [of writeCallback, OF sels(4)] del: if_split)
  then show ?thesis using assms(1,2) by (auto simp: handleEvent_def get_chan_def)
qed

definition demo_watching :: loop_state where
  "demo_watching = events_set kReadEvent 0 demo_loop"

lemma demo_watching_reachable: "poll_reachable demo_watching"
proof -
  have "run_cmd (L_enableReading 0) demo_loop = Inr demo_watching"
    using set_events_run [OF poll_reachable_ok [OF demo_loop_reachable], of 0 "\<lambda>e. e OR kReadEvent"]
    by (simp add: enableReading_def demo_watching_def) (simp add: demo_loop_def Channel_ctor_def no_loop_def new_channel_def)
  then show ?thesis by (rule poll_reachable.step [OF demo_loop_reachable poll_step.cmd])
qed

theorem poll_fills_active_witness: "\<exists>w'. poller_poll [(POLLIN, 0)] demo_watching = Inr w' \<and> activeChannels w' = [0]"
proof -
  have "map_of (kernel demo_watching) 5 = Some (kReadEvent, 0)"
    by (simp add: demo_watching_def demo_loop_def events_set_def ctl_done_def ctl_taken_def Channel_ctor_def no_loop_def new_channel_def new_index_def index_defs)
  moreover have "events_size demo_watching = 16" "activeChannels demo_watching = []"
    by (simp_all add: demo_watching_def demo_loop_def events_set_def ctl_done_def Channel_ctor_def no_loop_def Let_def)
  ultimately show ?thesis using poll_fills_active [OF demo_watching_reachable, of "[(POLLIN, 0)]"] by auto
qed

theorem dispatch_order_witness:
  "\<exists>w'. handleEvent 0 ((no_loop [] None)\<lparr>chans := [(new_channel 5)\<lparr>ch_revents := 5, closeCallback := Some [L_work 1],
      errorCallback := Some [L_work 2], readCallback := Some [L_work 3], writeCallback := Some [L_work 4]\<rparr>]\<rparr>) = Inr w'
    \<and> trace w' = [3, 4]"
  using dispatch_order [of 0 "(no_loop [] None)\<lparr>chans := [(new_channel 5)\<lparr>ch_revents := 5, closeCallback := Some [L_work 1],
      errorCallback := Some [L_work 2], readCallback := Some [L_work 3], writeCallback := Some [L_work 4]\<rparr>]\<rparr>"]
  by (simp add: new_channel_def poll_bits no_loop_def)

end
