(* ===== verification/EventLoop.thy ===== *)
theory EventLoop
  imports Poll
begin

text \<open>
  The event loop (\<^verbatim>\<open>net/EventLoop.h\<close>, \<^verbatim>\<open>EventLoop.cc\<close>) and its thread (\<^verbatim>\<open>EventLoopThread.cc\<close>):
  construction, the loop with its polling rounds, the queue of functors, which are run as
  fibers, and the timers it hands to the timer queue.  What \<^verbatim>\<open>epoll_wait\<close> stores in each
  round is an argument; \<open>None\<close> is a loop that still waits when the given rounds are over.

  The loop is the second host of fibers beside the scheduler: a functor's calls reach the
  loop through \<open>loop_call\<close>, for which the fibers' interface is interpreted here.
\<close>

section \<open>Definitions\<close>

text \<open>
  \<^verbatim>\<open>handleRead\<close> has an empty body, so the wake-up channel's read callback does nothing.
\<close>

(* net/EventLoop.cc 47: EventLoop::EventLoop *)
definition EventLoop_ctor :: "int \<Rightarrow> loop_state \<Rightarrow> loop_state result" where
  "EventLoop_ctor wakeupFd w =
     (let (c, w1) = Channel_ctor wakeupFd
            (w\<lparr>looping := False, quit_flag := False, eventHandling := False, callingPendingFunctors := False, iteration := 0,
               currentActiveChannel := None\<rparr>) in
      enableReading c (set_callbacks c (\<lambda>ch. ch\<lparr>readCallback := Some []\<rparr>) (w1\<lparr>wakeupChannel := c\<rparr>)))"

(* net/EventLoop.cc 66: EventLoop::~EventLoop *)
definition EventLoop_dtor :: "loop_state \<Rightarrow> loop_state result" where
  "EventLoop_dtor w = rbind (disableAll (wakeupChannel w) w) (channel_remove (wakeupChannel w))"

text \<open>What a functor's calls do: the queueing call is \<^verbatim>\<open>queueInLoop\<close>.\<close>

fun loop_call :: "instr \<Rightarrow> loop_state \<Rightarrow> loop_state result" where
  "loop_call (Call_scheduler cb) w = Inr (queueInLoop (Some cb) w)"
| "loop_call _ w = Inr w"

abbreviation loop_swapIn :: "nat \<Rightarrow> loop_state \<Rightarrow> loop_state result" where
  "loop_swapIn \<equiv> swapIn loop_call (\<lambda>_. True)"

(* net/EventLoop.cc 229-243: EventLoop::doPendingFunctors, loop body *)
definition run_functor :: "nat \<Rightarrow> loop_state \<Rightarrow> loop_state result" where
  "run_functor p w =
     rbind (get_fiber p w) (\<lambda>f.
     rbind (if f_state f \<noteq> FTERM \<and> f_state f \<noteq> EXCEPTION
            then rbind (loop_swapIn p w) (\<lambda>w1.
                 rbind (get_fiber p w1) (\<lambda>f1.
                   fiber_reset None p
                     (if f_state f1 = READY then queueInLoop (f_cb f1) w1
                      else if f_state f1 \<noteq> FTERM \<and> f_state f1 \<noteq> EXCEPTION
                      then set_fiber p (f1\<lparr>f_state := HOLD\<rparr>) w1 else w1)))
            else Inr w) (\<lambda>w2. Inr (w2\<lparr>callingPendingFunctors := False\<rparr>)))"

fun run_functors :: "nat list \<Rightarrow> loop_state \<Rightarrow> loop_state result" where
  "run_functors [] w = Inr w"
| "run_functors (p # ps) w = rbind (run_functor p w) (run_functors ps)"

(* net/EventLoop.cc 217: EventLoop::doPendingFunctors *)
definition doPendingFunctors :: "loop_state \<Rightarrow> loop_state result" where
  "doPendingFunctors w =
     run_functors (pendingFibers w) (w\<lparr>callingPendingFunctors := True, pendingFibers := []\<rparr>)"

fun handle_active :: "nat list \<Rightarrow> loop_state \<Rightarrow> loop_state result" where
  "handle_active [] w = Inr w"
| "handle_active (c # cs) w =
     rbind (handleEvent c (w\<lparr>currentActiveChannel := Some c\<rparr>)) (handle_active cs)"

(* net/EventLoop.cc 84-96: EventLoop::loop, loop body *)
definition loop_round :: "(u32 \<times> nat) list \<Rightarrow> timestamp \<Rightarrow> loop_state \<Rightarrow> loop_state result" where
  "loop_round evs now w =
     rbind (poller_poll evs (w\<lparr>activeChannels := []\<rparr>)) (\<lambda>w1.
     rbind (handle_active (activeChannels w1)
              (w1\<lparr>pollReturnTime := now, iteration := iteration w1 + 1, eventHandling := True\<rparr>)) (\<lambda>w2.
       doPendingFunctors (w2\<lparr>currentActiveChannel := None, eventHandling := False\<rparr>)))"

fun loop_rounds :: "((u32 \<times> nat) list \<times> timestamp) list \<Rightarrow> loop_state \<Rightarrow> loop_state result option" where
  "loop_rounds rounds w =
     (if quit_flag w then Some (Inr (w\<lparr>looping := False\<rparr>))
      else case rounds of [] \<Rightarrow> None
        | (evs, now) # rs \<Rightarrow>
            (case loop_round evs now w of Inl e \<Rightarrow> Some (Inl e) | Inr w' \<Rightarrow> loop_rounds rs w'))"

declare loop_rounds.simps [simp del]

(* net/EventLoop.cc 75: EventLoop::loop *)
definition loop :: "((u32 \<times> nat) list \<times> timestamp) list \<Rightarrow> loop_state \<Rightarrow> loop_state result option" where
  "loop rounds w =
     (if looping w then Some (Inl Assert_failed)
      else loop_rounds rounds (w\<lparr>looping := True, quit_flag := False\<rparr>))"

text \<open>\<open>direct\<close>: the effect of the functor when it is called at once, in the loop's thread.\<close>

(* net/EventLoop.cc 115: EventLoop::runInLoop *)
definition runInLoop :: "bool \<Rightarrow> (loop_state \<Rightarrow> loop_state result) \<Rightarrow> callback \<Rightarrow> loop_state \<Rightarrow> loop_state result" where
  "runInLoop inLoopThread direct cb w = (if inLoopThread then direct w else Inr (queueInLoop (Some cb) w))"

(* net/EventLoop.cc 140: EventLoop::queueSize *)
definition queueSize :: "loop_state \<Rightarrow> nat" where
  "queueSize w = length (pendingFibers w)"

definition with_timers :: "('a \<times> timer_manger) result \<Rightarrow> loop_state \<Rightarrow> ('a \<times> loop_state) result" where
  "with_timers r w = rbind r (\<lambda>(x, m). Inr (x, w\<lparr>timerManger := m\<rparr>))"

(* net/EventLoop.cc 146: EventLoop::runAt *)
definition loop_runAt :: "(addr list \<Rightarrow> addr option) \<Rightarrow> timestamp \<Rightarrow> timestamp \<Rightarrow> timer_cmd list \<Rightarrow> loop_state
    \<Rightarrow> (timer_id \<times> loop_state) result" where
  "loop_runAt malloc now time cb w = with_timers (addTimer malloc now cb time (double_of_int 0) (timerManger w)) w"

(* net/EventLoop.cc 151: EventLoop::runAfter *)
definition loop_runAfter :: "(addr list \<Rightarrow> addr option) \<Rightarrow> timestamp \<Rightarrow> timestamp \<Rightarrow> double \<Rightarrow> timer_cmd list \<Rightarrow> loop_state
    \<Rightarrow> (timer_id \<times> loop_state) result" where
  "loop_runAfter malloc now now' delay cb w = rbind (addTime now delay) (\<lambda>time. loop_runAt malloc now' time cb w)"

(* net/EventLoop.cc 157: EventLoop::runEvery *)
definition loop_runEvery :: "(addr list \<Rightarrow> addr option) \<Rightarrow> timestamp \<Rightarrow> timestamp \<Rightarrow> double \<Rightarrow> timer_cmd list \<Rightarrow> loop_state
    \<Rightarrow> (timer_id \<times> loop_state) result" where
  "loop_runEvery malloc now now' interval cb w =
     rbind (addTime now interval) (\<lambda>time. with_timers (addTimer malloc now' cb time interval (timerManger w)) w)"

(* net/EventLoop.cc 163: EventLoop::cancel *)
definition loop_cancel :: "timer_id \<Rightarrow> loop_state \<Rightarrow> loop_state result" where
  "loop_cancel timerId w = rbind (cancel timerId (timerManger w)) (\<lambda>m. Inr (w\<lparr>timerManger := m\<rparr>))"

section \<open>The loop as a host of fibers\<close>

definition loop_inv :: "loop_state \<Rightarrow> bool" where
  "loop_inv w \<longleftrightarrow> (\<forall>p \<in> set (pendingFibers w). p < length (fibers w))"

lemma loop_more:
  "fiber_world.more w' = fiber_world.more w \<Longrightarrow> pendingFibers (w' :: loop_state) = pendingFibers w"
  by (cases w, cases w') simp

lemma queueInLoop_fields [simp]:
  "fibers (queueInLoop cb w) = fibers w @ [\<lparr>f_id = s_fiber_id w + 1, f_stacksize = word_of_int (g_fiber_stack_size w),
     f_state = INIT, f_ctx = Ctx_start, f_stack = True, f_cb = cb\<rparr>]"
  "pendingFibers (queueInLoop cb w) = pendingFibers w @ [length (fibers w)]"
  "sched_main_fiber (queueInLoop cb w) = sched_main_fiber w"
  "thread_current_fiber (queueInLoop cb w) = thread_current_fiber w"
  "trace (queueInLoop cb w) = trace w" "callingPendingFunctors (queueInLoop cb w) = callingPendingFunctors w"
  by (simp_all add: queueInLoop_def Fiber_ctor_def Let_def)

lemma running_queue: "running mf p w \<Longrightarrow> cb_ok (length (fibers w)) cb \<Longrightarrow> running mf p (queueInLoop cb w)"
  by (rule running_grow) simp_all

interpretation lh: fiber_host loop_call "\<lambda>_. True" loop_inv
proof unfold_locales
  fix w w' :: loop_state
  assume a: "loop_inv w" "length (fibers w') = length (fibers w)" "fiber_world.more w' = fiber_world.more w"
  show "loop_inv w'" using a(1,2) loop_more [OF a(3)] by (simp add: loop_inv_def)
next
  fix mf p and w :: loop_state and i
  assume a: "running mf p w" "loop_inv w" "instr_ok (length (fibers w)) i"
  show "rsafe (\<lambda>w'. running mf p w' \<and> loop_inv w' \<and> length (fibers w) \<le> length (fibers w')) (loop_call i w)"
  proof (cases i)
    case (Call_scheduler b)
    then show ?thesis using a running_queue [of mf p w "Some b"] by (auto simp: loop_inv_def)
  qed (use a in auto)
qed

section \<open>Functors that run to their end\<close>

text \<open>
  A straight functor does not yield; \<open>works\<close> is the work it does, up to an exception, and
  \<open>queued\<close> the number of functors it queues.
\<close>

fun straight_instr :: "instr \<Rightarrow> bool" where
  "straight_instr (Work n) = True"
| "straight_instr Throw = True"
| "straight_instr (Call_scheduler b) = True"
| "straight_instr _ = False"

fun works :: "callback \<Rightarrow> nat list" where
  "works [] = []"
| "works (Work n # b) = n # works b"
| "works (Throw # b) = []"
| "works (i # b) = works b"

fun queued :: "callback \<Rightarrow> nat" where
  "queued [] = 0"
| "queued (Throw # b) = 0"
| "queued (Call_scheduler c # b) = Suc (queued b)"
| "queued (i # b) = queued b"

text \<open>\<open>ran_to_end\<close>: fiber \<open>p\<close> has finished; the fibers there were are otherwise unchanged.\<close>

definition ran_to_end :: "nat \<Rightarrow> nat \<Rightarrow> callback \<Rightarrow> loop_state \<Rightarrow> loop_state \<Rightarrow> bool" where
  "ran_to_end mf p b w w' \<longleftrightarrow> resting mf w' \<and> trace w' = trace w @ works b
     \<and> length (fibers w') = length (fibers w) + queued b
     \<and> pendingFibers w' = pendingFibers w @ [length (fibers w) ..< length (fibers w) + queued b]
     \<and> f_state (fibers w' ! p) \<in> {FTERM, EXCEPTION} \<and> f_stack (fibers w' ! p)
     \<and> (\<forall>q < length (fibers w). q \<noteq> p \<longrightarrow> fibers w' ! q = fibers w ! q)"

lemma leave_pending [simp]: "pendingFibers (leave mf p f w) = pendingFibers w"
  by (simp add: leave_def set_fiber_def SetThreadCurrentFiber_def)

lemma leave_ran_to_end:
  assumes "running mf p w" "f_ctx f = Ctx_dead" "f_state f \<in> {FTERM, EXCEPTION}" "f_stack f" "cb_ok (length (fibers w)) (f_cb f)"
    and "works b = []" "queued b = 0"
  shows "ran_to_end mf p b w (leave mf p f w)"
proof -
  have "resting mf (leave mf p f w)" by (rule leave_resting [OF assms(1)]) (use assms in \<open>auto simp: fiber_ok_def\<close>)
  then show ?thesis using assms by (auto simp: ran_to_end_def running_def)
qed

lemma run_straight:
  "running mf p w \<Longrightarrow> body_ok (length (fibers w)) b \<Longrightarrow> list_all straight_instr b \<Longrightarrow>
   \<exists>w'. run_body loop_call (\<lambda>_. True) p b w = Inr w' \<and> ran_to_end mf p b w w'"
proof (induction b arbitrary: w)
  case Nil
  have "ran_to_end mf p [] w (leave mf p ((fibers w ! p)\<lparr>f_cb := None, f_state := FTERM, f_ctx := Ctx_dead\<rparr>) w)"
    by (rule leave_ran_to_end [OF Nil(1)]) (use Nil(1) in \<open>simp_all add: running_def\<close>)
  then show ?case by (simp add: run_return_running [OF Nil(1)])
next
  case (Cons i b)
  have r: "running mf p w" and b: "body_ok (length (fibers w)) b" "list_all straight_instr b" "straight_instr i"
    using Cons.prems by simp_all
  consider n where "i = Work n" | "i = Throw" | c where "i = Call_scheduler c" using b(3) by (cases i) auto
  then show ?case
  proof cases
    case 1
    let ?w = "w\<lparr>trace := trace w @ [n]\<rparr>"
    obtain w' where "run_body loop_call (\<lambda>_. True) p b ?w = Inr w'" "ran_to_end mf p b ?w w'"
      using Cons.IH [OF running_more_cong [OF r]] b by auto
    then show ?thesis using 1 by (auto simp: ran_to_end_def)
  next
    case 2
    have "ran_to_end mf p (Throw # b) w (leave mf p ((fibers w ! p)\<lparr>f_state := EXCEPTION, f_ctx := Ctx_dead\<rparr>) w)"
      by (rule leave_ran_to_end [OF r]) (use r in \<open>simp_all add: running_def\<close>)
    then show ?thesis using 2 by (simp add: run_catch_running [OF r])
  next
    case 3
    let ?w = "queueInLoop (Some c) w"
    have "running mf p ?w" using running_queue [OF r] Cons.prems(2) 3 by simp
    moreover have "body_ok (length (fibers ?w)) b" using body_ok_mono [OF b(1)] by simp
    ultimately obtain w' where w': "run_body loop_call (\<lambda>_. True) p b ?w = Inr w'" "ran_to_end mf p b ?w w'"
      using Cons.IH b(2) by blast
    have "[length (fibers w) ..< length (fibers w) + Suc (queued b)] =
        length (fibers w) # [Suc (length (fibers w)) ..< Suc (length (fibers w)) + queued b]"
      by (subst upt_conv_Cons) simp_all
    then have "ran_to_end mf p (i # b) w w'" using w'(2) 3 by (auto simp: ran_to_end_def nth_append)
    then show ?thesis using w'(1) 3 by auto
  qed
qed

definition fresh_functor :: "nat \<Rightarrow> nat \<Rightarrow> callback \<Rightarrow> loop_state \<Rightarrow> bool" where
  "fresh_functor mf p b w \<longleftrightarrow> p < length (fibers w) \<and> p \<noteq> mf \<and> f_state (fibers w ! p) = INIT \<and> f_cb (fibers w ! p) = Some b
     \<and> f_ctx (fibers w ! p) = Ctx_start"

lemma functor_swapIn:
  assumes "resting mf w" "fresh_functor mf p b w"
  shows "loop_swapIn p w = run_body loop_call (\<lambda>_. True) p b (enter p w)" "running mf p (enter p w)"
    "body_ok (length (fibers w)) b"
proof -
  have "fiber_ok (length (fibers w)) (fibers w ! p)"
    using assms by (simp add: resting_def others_ok_def fresh_functor_def)
  then show "body_ok (length (fibers w)) b" using assms(2) by (simp add: fiber_ok_def fresh_functor_def)
  show "loop_swapIn p w = run_body loop_call (\<lambda>_. True) p b (enter p w)" "running mf p (enter p w)"
    using assms swapIn_resting [OF assms(1), of p] enter_running [OF assms(1), of p] by (simp_all add: fresh_functor_def)
qed

lemma run_functor_straight:
  assumes "resting mf w" "fresh_functor mf p b w" "list_all straight_instr b"
  shows "\<exists>w'. run_functor p w = Inr w' \<and> resting mf w' \<and> trace w' = trace w @ works b \<and> \<not> callingPendingFunctors w'
    \<and> pendingFibers w' = pendingFibers w @ [length (fibers w) ..< length (fibers w) + queued b]
    \<and> length (fibers w') = length (fibers w) + queued b
    \<and> (\<forall>q < length (fibers w). q \<noteq> p \<longrightarrow> fibers w' ! q = fibers w ! q)"
proof -
  note s = functor_swapIn [OF assms(1,2)]
  have e: "pendingFibers (enter p w) = pendingFibers w" using loop_more [of "enter p w" w] by simp
  obtain w1 where w1: "loop_swapIn p w = Inr w1" "ran_to_end mf p b (enter p w) w1"
    using run_straight [OF s(2), of b] s(1,3) assms(3) by auto
  have p: "p < length (fibers w1)" "p \<noteq> mf" using w1(2) assms(2) by (auto simp: ran_to_end_def fresh_functor_def)
  let ?f = "(fibers w1 ! p)\<lparr>f_cb := None, f_ctx := Ctx_start, f_state := INIT\<rparr>"
  let ?w = "(set_fiber p ?f w1)\<lparr>callingPendingFunctors := False\<rparr>"
  have "run_functor p w = Inr ?w"
    using assms(2) w1 p by (auto simp: run_functor_def fresh_functor_def fiber_reset_def ran_to_end_def)
  moreover have "resting mf ?w"
  proof -
    have "resting mf w1" "fiber_ok (length (fibers w1)) ?f" using w1(2) by (simp_all add: ran_to_end_def fiber_ok_def)
    then show ?thesis using p by (auto simp: resting_def others_ok_def nth_list_update)
  qed
  ultimately show ?thesis using w1(2) e by (auto simp: ran_to_end_def set_fiber_def)
qed

lemma run_functors_straight:
  "resting mf w \<Longrightarrow> list_all2 (\<lambda>p b. fresh_functor mf p b w \<and> list_all straight_instr b) ps bs \<Longrightarrow> distinct ps \<Longrightarrow>
   \<exists>w'. run_functors ps w = Inr w' \<and> resting mf w' \<and> trace w' = trace w @ concat (map works bs)
     \<and> pendingFibers w' = pendingFibers w @ [length (fibers w) ..< length (fibers w) + sum_list (map queued bs)]
     \<and> (callingPendingFunctors w' \<longleftrightarrow> ps = [] \<and> callingPendingFunctors w)"
proof (induction ps arbitrary: w bs)
  case Nil
  then show ?case by simp
next
  case (Cons p ps)
  then obtain b bs' where bs: "bs = b # bs'" and f: "fresh_functor mf p b w" "list_all straight_instr b"
    and rest: "list_all2 (\<lambda>p b. fresh_functor mf p b w \<and> list_all straight_instr b) ps bs'" "p \<notin> set ps" "distinct ps"
    by (auto simp: list_all2_Cons1)
  obtain w1 where w1: "run_functor p w = Inr w1" "resting mf w1" "trace w1 = trace w @ works b" "\<not> callingPendingFunctors w1"
    "pendingFibers w1 = pendingFibers w @ [length (fibers w) ..< length (fibers w) + queued b]"
    "length (fibers w1) = length (fibers w) + queued b" "\<forall>q < length (fibers w). q \<noteq> p \<longrightarrow> fibers w1 ! q = fibers w ! q"
    using run_functor_straight [OF Cons.prems(1) f] by blast
  have "list_all2 (\<lambda>p b. fresh_functor mf p b w1 \<and> list_all straight_instr b) ps bs'"
    by (rule list_all2_mono [OF rest(1), THEN list.rel_mono_strong [where R = "\<lambda>p b. fresh_functor mf p b w \<and> list_all straight_instr b \<and> True"]])
      (use rest(2) w1(6,7) in \<open>auto simp: fresh_functor_def\<close>)
  then obtain w' where w': "run_functors ps w1 = Inr w'" "resting mf w'" "trace w' = trace w1 @ concat (map works bs')"
    "pendingFibers w' = pendingFibers w1 @ [length (fibers w1) ..< length (fibers w1) + sum_list (map queued bs')]"
    "callingPendingFunctors w' \<longleftrightarrow> ps = [] \<and> callingPendingFunctors w1"
    using Cons.IH [OF w1(2) _ rest(3)] by blast
  have "[length (fibers w) ..< length (fibers w) + queued b] @ [length (fibers w1) ..< length (fibers w1) + sum_list (map queued bs')]
      = [length (fibers w) ..< length (fibers w) + sum_list (map queued bs)]"
    unfolding w1(6) bs using upt_add_eq_append [of "length (fibers w)" "length (fibers w) + queued b" "sum_list (map queued bs')"]
    by (simp add: add.assoc)
  then show ?case using w1 w' bs by simp
qed

lemma run_until_yield:
  "running mf p w \<Longrightarrow> list_all straight_instr b \<Longrightarrow> Throw \<notin> set b \<Longrightarrow> y = Yield_to_ready \<or> y = Yield_to_hold \<Longrightarrow>
   body_ok (length (fibers w)) b \<Longrightarrow>
   \<exists>w'. run_body loop_call (\<lambda>_. True) p (b @ y # rest) w = Inr w' \<and> p < length (fibers w')
     \<and> f_state (fibers w' ! p) \<in> {READY, HOLD} \<and> f_stack (fibers w' ! p)"
proof (induction b arbitrary: w)
  case Nil
  then have "p < length (fibers w)" "f_stack (fibers w ! p)" by (simp_all add: running_def)
  then show ?case using Nil by (auto simp: YieldToReady_def YieldToHold_def yield_as_running)
next
  case (Cons i b)
  consider n where "i = Work n" | c where "i = Call_scheduler c" using Cons.prems(2,3) by (cases i) auto
  then show ?case
  proof cases
    case 1
    then show ?thesis using Cons running_more_cong [OF Cons.prems(1)] by simp
  next
    case 2
    have "running mf p (queueInLoop (Some c) w)" using running_queue [OF Cons.prems(1)] Cons.prems(5) 2 by simp
    moreover have "body_ok (Suc (length (fibers w))) b" using body_ok_mono [of "length (fibers w)" b] Cons.prems(5) by simp
    ultimately show ?thesis using Cons 2 by simp
  qed
qed

section \<open>Properties\<close>

text \<open>
  C20: Queued functors run once, in order.  In a thread with a scheduler fiber, a loop whose
  queue holds new functors that do not yield runs each of them to its end (or its
  exception), in the order of the queue; what they queue waits for the next round.  The
  flag \<^verbatim>\<open>callingPendingFunctors_\<close> stays set exactly when the queue was empty.
\<close>

theorem pending_functors_run:
  assumes "resting mf w" "distinct (pendingFibers w)"
    and "list_all2 (\<lambda>p b. fresh_functor mf p b w \<and> list_all straight_instr b) (pendingFibers w) bs"
  shows "\<exists>w'. doPendingFunctors w = Inr w' \<and> resting mf w' \<and> trace w' = trace w @ concat (map works bs)
    \<and> pendingFibers w' = [length (fibers w) ..< length (fibers w) + sum_list (map queued bs)]
    \<and> (callingPendingFunctors w' \<longleftrightarrow> pendingFibers w = [])"
proof -
  let ?w = "w\<lparr>callingPendingFunctors := True, pendingFibers := []\<rparr>"
  have "resting mf ?w" by (rule resting_fiber_fields [OF assms(1)]) simp_all
  moreover have "list_all2 (\<lambda>p b. fresh_functor mf p b ?w \<and> list_all straight_instr b) (pendingFibers w) bs"
    using assms(3) by (simp add: fresh_functor_def)
  ultimately show ?thesis using run_functors_straight [OF _ _ assms(2)] by (fastforce simp: doPendingFunctors_def)
qed

definition demo_queue :: loop_state where
  "demo_queue = queueInLoop (Some [Work 8]) (queueInLoop (Some [Work 7, Call_scheduler [Work 9]])
     (no_loop [\<lparr>f_id = 1, f_stacksize = 0, f_state = EXEC, f_ctx = Ctx_thread, f_stack = False, f_cb = None\<rparr>] (Some 0)))"

lemma demo_queue_facts:
  "resting 0 demo_queue" "pendingFibers demo_queue = [1, 2]" "length (fibers demo_queue) = 3" "trace demo_queue = []"
  "fresh_functor 0 1 [Work 7, Call_scheduler [Work 9]] demo_queue" "fresh_functor 0 2 [Work 8] demo_queue"
  by (auto simp: demo_queue_def no_loop_def resting_def others_ok_def fresh_functor_def fiber_ok_def less_Suc_eq nth_append)

theorem pending_functors_run_witness:
  "\<exists>w'. doPendingFunctors demo_queue = Inr w' \<and> trace w' = [7, 8] \<and> pendingFibers w' = [3]"
  using pending_functors_run [OF demo_queue_facts(1), of "[[Work 7, Call_scheduler [Work 9]], [Work 8]]"]
  using demo_queue_facts(2-6) by auto

text \<open>
  When functors fail.  In a thread without a scheduler fiber, running any queued functor
  is undefined behaviour, because the fiber switches through the scheduler's main fiber.
  In a thread that has one, a functor that yields, to READY or to HOLD, ends the loop in a
  failed assertion: the fiber is reset although it is suspended.
\<close>

theorem functor_failures:
  assumes "fresh_functor mf p b w" "pendingFibers w = p # ps"
  shows "(sched_main_fiber w = None \<longrightarrow> doPendingFunctors w = Inl Undefined_behaviour)
    \<and> (resting mf w \<and> b = c @ y # rest \<and> (y = Yield_to_ready \<or> y = Yield_to_hold)
        \<and> list_all straight_instr c \<and> Throw \<notin> set c \<longrightarrow> doPendingFunctors w = Inl Assert_failed)"
proof (intro conjI impI)
  assume "sched_main_fiber w = None"
  then show "doPendingFunctors w = Inl Undefined_behaviour"
    using assms by (simp add: doPendingFunctors_def run_functor_def swapIn_def fresh_functor_def get_fiber_def Let_def)
next
  assume h: "resting mf w \<and> b = c @ y # rest \<and> (y = Yield_to_ready \<or> y = Yield_to_hold)
        \<and> list_all straight_instr c \<and> Throw \<notin> set c"
  let ?w = "w\<lparr>callingPendingFunctors := True, pendingFibers := []\<rparr>"
  have r: "resting mf ?w" by (rule resting_fiber_fields [of mf w]) (use h in simp_all)
  have f: "fresh_functor mf p b ?w" using assms(1) by (simp add: fresh_functor_def)
  note s = functor_swapIn [OF r f]
  have b: "b = c @ y # rest" using h by blast
  have c: "body_ok (length (fibers (enter p ?w))) c" using s(3) unfolding b by simp
  have "\<exists>w1. run_body loop_call (\<lambda>_. True) p (c @ y # rest) (enter p ?w) = Inr w1 \<and> p < length (fibers w1)
      \<and> f_state (fibers w1 ! p) \<in> {READY, HOLD} \<and> f_stack (fibers w1 ! p)"
    by (rule run_until_yield [OF s(2) _ _ _ c]) (use h in blast)+
  then obtain w1 where w1: "loop_swapIn p ?w = Inr w1" "p < length (fibers w1)" "f_state (fibers w1 ! p) \<in> {READY, HOLD}"
      "f_stack (fibers w1 ! p)"
    unfolding s(1) b by blast
  have "run_functor p ?w = Inl Assert_failed"
    using f w1 by (auto simp: run_functor_def fresh_functor_def get_fiber_def fiber_reset_def nth_append split: if_splits)
  then show "doPendingFunctors w = Inl Assert_failed" using assms(2) by (simp add: doPendingFunctors_def)
qed

theorem functor_failures_witness:
  "doPendingFunctors (demo_queue\<lparr>sched_main_fiber := None\<rparr>) = Inl Undefined_behaviour"
  using functor_failures [of 0 1 "[Work 7, Call_scheduler [Work 9]]" "demo_queue\<lparr>sched_main_fiber := None\<rparr>" "[2]"] demo_queue_facts
  by (simp add: fresh_functor_def)

end
