(* ===== verification/Ragel.thy ===== *)
theory Ragel
  imports Prelude
begin

text \<open>
  The shape of the goto-style scanners that Ragel generates (\<^verbatim>\<open>http_response_parser.cc\<close>
  and others under \<^verbatim>\<open>qslary\<close>): a list of items in the order of the file.  An item is a
  state (\<^verbatim>\<open>case n:\<close>), with the ranges of the current character it tests, in order, where
  each leads, and where the rest leads; or a transition (\<^verbatim>\<open>trn:\<close>), with its actions and
  the state it goes to.  A character is compared as a signed \<^verbatim>\<open>char\<close>.  State 0 is the
  error state.  What an action does is an argument: it gets the position of the character
  and gives the callbacks it makes, the new scanner data, and the state in which the
  scanner leaves (\<^verbatim>\<open>p++; cs = n; goto _out\<close>), if it does.
\<close>

section \<open>Definitions\<close>

datatype jump =
    St nat
  | Tr nat

datatype 'a item =
    State nat "(int \<times> int \<times> jump) list" jump
  | Trans nat "'a list" nat

type_synonym ('a, 'q, 'e) action_fun = "'a \<Rightarrow> nat \<Rightarrow> 'q \<Rightarrow> 'e list \<times> 'q \<times> nat option"

definition char_val :: "char \<Rightarrow> int" where
  "char_val c = (let n = of_char c in if n < 128 then n else n - 256)"

fun select :: "int \<Rightarrow> (int \<times> int \<times> jump) list \<Rightarrow> jump \<Rightarrow> jump" where
  "select v [] j = j"
| "select v ((lo, hi, t) # ts) j = (if lo \<le> v \<and> v \<le> hi then t else select v ts j)"

fun find_state :: "nat \<Rightarrow> 'a item list \<Rightarrow> ((int \<times> int \<times> jump) list \<times> jump) option" where
  "find_state n [] = None"
| "find_state n (State k ts j # items) = (if k = n then Some (ts, j) else find_state n items)"
| "find_state n (Trans k as s # items) = find_state n items"

fun find_trans :: "nat \<Rightarrow> 'a item list \<Rightarrow> 'a list \<times> nat" where
  "find_trans n [] = ([], 0)"
| "find_trans n (State k ts j # items) = find_trans n items"
| "find_trans n (Trans k as s # items) = (if k = n then (as, s) else find_trans n items)"

text \<open>The actions and the next state on a character, or nothing in a state without a case.\<close>

definition move :: "'a item list \<Rightarrow> nat \<Rightarrow> char \<Rightarrow> ('a list \<times> nat) option" where
  "move m cs c =
     (case find_state cs m of
        None \<Rightarrow> None
      | Some (ts, j) \<Rightarrow> Some (case select (char_val c) ts j of St s \<Rightarrow> ([], s) | Tr t \<Rightarrow> find_trans t m))"

fun do_actions :: "('a, 'q, 'e) action_fun \<Rightarrow> 'a list \<Rightarrow> nat \<Rightarrow> 'q \<Rightarrow> 'e list \<times> 'q \<times> nat option" where
  "do_actions act [] p q = ([], q, None)"
| "do_actions act (a # as) p q =
     (case act a p q of
        (es, q1, Some n) \<Rightarrow> (es, q1, Some n)
      | (es, q1, None) \<Rightarrow> (case do_actions act as p q1 of (es', q2, out) \<Rightarrow> (es @ es', q2, out)))"

fun scan :: "'a item list \<Rightarrow> ('a, 'q, 'e) action_fun \<Rightarrow> nat \<Rightarrow> nat \<Rightarrow> string \<Rightarrow> 'q \<Rightarrow> 'e list \<times> nat \<times> nat \<times> 'q" where
  "scan m act cs p [] q = ([], cs, p, q)"
| "scan m act cs p (c # rest) q =
     (case move m cs c of
        None \<Rightarrow> ([], cs, p, q)
      | Some (as, s) \<Rightarrow>
          (case do_actions act as p q of
             (es, q1, Some n) \<Rightarrow> (es, n, Suc p, q1)
           | (es, q1, None) \<Rightarrow>
               if s = 0 then (es, 0, p, q1)
               else (case scan m act s (Suc p) rest q1 of (es', cs', p', q') \<Rightarrow> (es @ es', cs', p', q'))))"

text \<open>\<^verbatim>\<open>strtol (s, NULL, base)\<close> for the bases 10 and 16, and its conversion to \<^verbatim>\<open>int\<close>.\<close>

definition xdigit_val :: "char \<Rightarrow> nat option" where
  "xdigit_val c =
     (let n = of_char c in
      if 48 \<le> n \<and> n \<le> 57 then Some (n - 48)
      else if 65 \<le> n \<and> n \<le> 70 then Some (n - 55)
      else if 97 \<le> n \<and> n \<le> 102 then Some (n - 87) else None)"

fun digits_val :: "nat \<Rightarrow> nat \<Rightarrow> string \<Rightarrow> nat" where
  "digits_val base acc [] = acc"
| "digits_val base acc (c # cs) =
     (case xdigit_val c of
        None \<Rightarrow> acc
      | Some d \<Rightarrow> if d < base then digits_val base (acc * base + d) cs else acc)"

definition hex_prefix :: "string \<Rightarrow> bool" where
  "hex_prefix s = (case s of z # x # d # _ \<Rightarrow> z = CHR ''0'' \<and> (x = CHR ''x'' \<or> x = CHR ''X'') \<and> xdigit_val d \<noteq> None | _ \<Rightarrow> False)"

definition strtol_clamp :: "int \<Rightarrow> int" where
  "strtol_clamp v = (if v > int64_max then int64_max else if v < int64_min then int64_min else v)"

definition strtol :: "nat \<Rightarrow> string \<Rightarrow> int" where
  "strtol base str =
     (let s = dropWhile is_space (c_str str);
          neg = (case s of c # _ \<Rightarrow> c = CHR ''-'' | [] \<Rightarrow> False);
          s1 = (case s of c # r \<Rightarrow> if c = CHR ''-'' \<or> c = CHR ''+'' then r else s | [] \<Rightarrow> []);
          s2 = (if base = 16 \<and> hex_prefix s1 then drop 2 s1 else s1);
          v = int (digits_val base 0 s2) in
      strtol_clamp (if neg then - v else v))"

definition int_of_long :: "int \<Rightarrow> int" where
  "int_of_long v = sint (word_of_int v :: u32)"

section \<open>Lemmas\<close>

text \<open>
  The states and transitions of a machine, a test of a row of a state on an interval of
  characters, and the callbacks of a run put before those of the run that follows it.
\<close>

fun state_nums :: "'a item list \<Rightarrow> nat list" where
  "state_nums [] = []"
| "state_nums (State n ts j # items) = n # state_nums items"
| "state_nums (Trans n as s # items) = state_nums items"

fun trans_nums :: "'a item list \<Rightarrow> nat list" where
  "trans_nums [] = []"
| "trans_nums (State n ts j # items) = trans_nums items"
| "trans_nums (Trans n as s # items) = n # trans_nums items"

fun row_all :: "(int \<Rightarrow> int \<Rightarrow> jump \<Rightarrow> bool) \<Rightarrow> int \<Rightarrow> int \<Rightarrow> (int \<times> int \<times> jump) list \<Rightarrow> jump \<Rightarrow> bool" where
  "row_all P lo hi [] j = (if hi < lo then True else P lo hi j)"
| "row_all P lo hi ((a, b, t) # ts) j =
     (if hi < lo then True else if b < lo then row_all P lo hi ts j else if hi < a then row_all P lo hi ts j
      else if P (max lo a) (min hi b) t then (if row_all P lo (a - 1) ts j then row_all P (b + 1) hi ts j else False) else False)"

definition in_ranges :: "(int \<times> int) list \<Rightarrow> char \<Rightarrow> bool" where
  "in_ranges rs c = list_ex (\<lambda>(lo, hi). lo \<le> char_val c \<and> char_val c \<le> hi) rs"

definition on_ranges :: "(int \<times> int) list \<Rightarrow> (int \<Rightarrow> int \<Rightarrow> jump \<Rightarrow> bool) \<Rightarrow> (int \<times> int \<times> jump) list \<Rightarrow> jump \<Rightarrow> bool" where
  "on_ranges rs P ts j = list_all (\<lambda>(lo, hi). row_all P lo hi ts j) rs"

definition prepend :: "'e list \<Rightarrow> 'e list \<times> 'r \<Rightarrow> 'e list \<times> 'r" where
  "prepend es r = (es @ fst r, snd r)"

lemma do_actions_append:
  "do_actions act (as @ bs) p q =
     (case do_actions act as p q of
        (es, q1, Some n) \<Rightarrow> (es, q1, Some n)
      | (es, q1, None) \<Rightarrow> (case do_actions act bs p q1 of (es', q2, out) \<Rightarrow> (es @ es', q2, out)))"
  by (induction as arbitrary: q) (auto split: prod.splits option.splits)

text \<open>A property of the scanner data that may depend on the position, and that every action
  keeps and that holds at later positions, holds at the end of a run.\<close>

lemma do_actions_inv:
  assumes "\<And>a q es q1 out. I p q \<Longrightarrow> act a p q = (es, q1, out) \<Longrightarrow> if out = None then I p q1 else I (Suc p) q1"
  shows "I p q \<Longrightarrow> do_actions act as p q = (es, q', out) \<Longrightarrow> if out = None then I p q' else I (Suc p) q'"
proof (induction as arbitrary: q es q' out)
  case (Cons a as)
  obtain es1 q1 o1 where a: "act a p q = (es1, q1, o1)" by (metis surj_pair)
  note i1 = assms [OF Cons.prems(1) a]
  obtain es2 q2 o2 where r: "do_actions act as p q1 = (es2, q2, o2)" by (metis surj_pair)
  show ?case
  proof (cases o1)
    case None
    then show ?thesis using Cons.IH [OF _ r] Cons.prems(2) a r i1 by auto
  next
    case (Some n)
    then show ?thesis using Cons.prems(2) a i1 by auto
  qed
qed simp

lemma scan_inv:
  assumes act: "\<And>a p q es q1 out. p < N \<Longrightarrow> I p q \<Longrightarrow> act a p q = (es, q1, out) \<Longrightarrow> if out = None then I p q1 else I (Suc p) q1"
    and mono: "\<And>p q. I p q \<Longrightarrow> I (Suc p) q"
  shows "p + length rest \<le> N \<Longrightarrow> I p q \<Longrightarrow> scan m act cs p rest q = (es, cs', p', q') \<Longrightarrow> I p' q' \<and> p \<le> p' \<and> p' \<le> p + length rest"
proof (induction rest arbitrary: cs p q es cs' p' q')
  case (Cons c rest)
  show ?case
  proof (cases "move m cs c")
    case None
    then show ?thesis using Cons.prems by simp
  next
    case (Some k)
    then obtain as s where k: "move m cs c = Some (as, s)" by (cases k) auto
    obtain es1 q1 out where d: "do_actions act as p q = (es1, q1, out)" by (metis surj_pair)
    have p: "p < N" using Cons.prems(1) by simp
    note i = do_actions_inv [of I p act, OF act [OF p] Cons.prems(2) d, simplified]
    obtain es2 cs2 p2 q2 where r: "scan m act s (Suc p) rest q1 = (es2, cs2, p2, q2)" by (metis surj_pair)
    show ?thesis
    proof (cases out)
      case None
      then have "I (Suc p) q1" using i mono by simp
      from Cons.IH [OF _ this r] show ?thesis using Cons.prems(1,3) k d r None i by (auto split: if_splits)
    next
      case (Some n)
      then show ?thesis using Cons.prems(3) k d i by auto
    qed
  qed
qed auto

lemma state_nums_append [simp]: "state_nums (xs @ ys) = state_nums xs @ state_nums ys"
  by (induction xs rule: state_nums.induct) auto

lemma trans_nums_append [simp]: "trans_nums (xs @ ys) = trans_nums xs @ trans_nums ys"
  by (induction xs rule: trans_nums.induct) auto

lemma state_nums_iff: "n \<in> set (state_nums m) \<longleftrightarrow> (\<exists>ts j. State n ts j \<in> set m)"
  by (induction m rule: state_nums.induct) auto

lemma trans_nums_iff: "n \<in> set (trans_nums m) \<longleftrightarrow> (\<exists>as s. Trans n as s \<in> set m)"
  by (induction m rule: trans_nums.induct) auto

lemma find_state_in: "distinct (state_nums m) \<Longrightarrow> State n ts j \<in> set m \<Longrightarrow> find_state n m = Some (ts, j)"
  by (induction n m rule: find_state.induct) (auto simp: state_nums_iff)

lemma find_trans_in: "distinct (trans_nums m) \<Longrightarrow> Trans n as s \<in> set m \<Longrightarrow> find_trans n m = (as, s)"
  by (induction n m rule: find_trans.induct) (auto simp: trans_nums_iff)

lemma row_all_select:
  "row_all P lo hi ts j \<Longrightarrow> lo \<le> v \<Longrightarrow> v \<le> hi \<Longrightarrow> \<exists>l h. l \<le> v \<and> v \<le> h \<and> P l h (select v ts j)"
proof (induction ts arbitrary: lo hi)
  case Nil
  then show ?case by auto
next
  case (Cons x ts)
  obtain a b t where x: "x = (a, b, t)" by (metis surj_pair)
  show ?case
  proof (cases "b < lo \<or> hi < a")
    case True
    then have "row_all P lo hi ts j" using Cons.prems by (auto simp: x split: if_splits)
    then show ?thesis using Cons.IH [of lo hi] Cons.prems True by (auto simp: x)
  next
    case False
    then have P: "P (max lo a) (min hi b) t" "row_all P lo (a - 1) ts j" "row_all P (b + 1) hi ts j"
      using Cons.prems by (auto simp: x split: if_splits)
    show ?thesis
    proof (cases "a \<le> v \<and> v \<le> b")
      case True
      then show ?thesis using P(1) Cons.prems by (intro exI [where x = "max lo a"] exI [where x = "min hi b"]) (auto simp: x)
    next
      case outside: False
      then show ?thesis using Cons.IH [OF P(2)] Cons.IH [OF P(3)] Cons.prems by (cases "v < a") (auto simp: x)
    qed
  qed
qed

lemma prepend_simps [simp]: "prepend [] r = r" "prepend es (prepend es' r) = prepend (es @ es') r" "prepend es (es', x) = (es @ es', x)"
  by (simp_all add: prepend_def)

lemma scan_step:
  assumes "move m s c = Some (as, s')" "s' \<noteq> 0" "do_actions act as p q = (es, q1, None)"
  shows "scan m act s p (c # rest) q = prepend es (scan m act s' (Suc p) rest q1)"
  using assms by (simp add: prepend_def split: prod.splits)

lemma scan_silent:
  assumes "move m s c = Some ([], s')" "s' \<noteq> 0"
  shows "scan m act s p (c # rest) q = scan m act s' (Suc p) rest q"
  using scan_step [OF assms, of act p q "[]" q rest] by simp

lemma char_val_range: "- 128 \<le> char_val c" "char_val c \<le> 127"
proof -
  have "(of_char c :: int) < 256" "0 \<le> (of_char c :: int)" unfolding of_char_int using nat_of_char_less_256 [of c] by linarith+
  then show "- 128 \<le> char_val c" "char_val c \<le> 127" by (auto simp: char_val_def Let_def)
qed

lemma char_val_inject: "char_val c = char_val d \<longleftrightarrow> c = d"
proof
  assume "char_val c = char_val d"
  moreover have "(of_char c :: int) < 256" "0 \<le> (of_char c :: int)" "(of_char d :: int) < 256" "0 \<le> (of_char d :: int)"
    unfolding of_char_int [of c] of_char_int [of d] using nat_of_char_less_256 [of c] nat_of_char_less_256 [of d] by linarith+
  ultimately have "(of_char c :: int) = of_char d" by (auto simp: char_val_def Let_def split: if_splits)
  then show "c = d" by (metis char_of_char)
qed simp

lemma char_val_ends: "char_val CR = 13" "char_val LF = 10"
  by (simp_all add: special_chars char_val_def)

lemma char_val_neq: "c \<noteq> CR \<Longrightarrow> char_val c \<noteq> 13" "c \<noteq> LF \<Longrightarrow> char_val c \<noteq> 10"
  using char_val_inject [of c CR] char_val_inject [of c LF] by (simp_all add: char_val_ends)

lemma on_ranges_select:
  assumes "on_ranges rs P ts j" "in_ranges rs c"
  obtains l h where "l \<le> char_val c" "char_val c \<le> h" "P l h (select (char_val c) ts j)"
  using assms row_all_select unfolding on_ranges_def in_ranges_def list_all_iff list_ex_iff by fast

lemma move_ranges:
  assumes "find_state n m = Some (ts, j)" "on_ranges rs (\<lambda>l h t. t = J) ts j" "in_ranges rs c"
  shows "move m n c = Some (case J of St s \<Rightarrow> ([], s) | Tr t \<Rightarrow> find_trans t m)"
  using on_ranges_select [OF assms(2,3)] assms(1) by (auto simp: move_def)

lemma scan_loop:
  assumes "find_state n m = Some (ts, j)" "on_ranges rs (\<lambda>l h t. t = St n) ts j" "n \<noteq> 0"
  shows "list_all (in_ranges rs) w \<Longrightarrow> scan m act n p (w @ rest) q = scan m act n (p + length w) rest q"
proof (induction w arbitrary: p)
  case (Cons c w)
  then have "move m n c = Some ([], n)" using move_ranges [OF assms(1,2)] by simp
  from scan_silent [OF this assms(3)] have "scan m act n p ((c # w) @ rest) q = scan m act n (Suc p) (w @ rest) q" by simp
  then show ?case using Cons by simp
qed simp

fun ascending :: "nat list \<Rightarrow> bool" where
  "ascending [] = True"
| "ascending [n] = True"
| "ascending (m # n # ns) = (if m < n then ascending (n # ns) else False)"

lemma ascending_less: "ascending (m # ns) \<Longrightarrow> \<forall>k \<in> set ns. m < k"
proof (induction ns arbitrary: m)
  case (Cons n ns)
  then show ?case by (fastforce split: if_splits)
qed simp

lemma ascending_distinct: "ascending ns \<Longrightarrow> distinct ns"
proof (induction ns)
  case (Cons n ns)
  have "ascending ns" using Cons.prems by (cases ns) (auto split: if_splits)
  then show ?case using Cons ascending_less [of n ns] by auto
qed simp

lemma distinct_parts: "distinct (filter P xs) \<Longrightarrow> distinct (filter (\<lambda>x. \<not> P x) xs) \<Longrightarrow> distinct xs"
  by (induction xs) (auto split: if_splits)

lemma digit_move:
  assumes "is_digit c"
  shows "48 \<le> char_val c" "char_val c \<le> 57"
  using assms unfolding is_digit_def char_val_def by (simp_all add: Let_def of_char_int)

lemma int_of_long_small: "0 \<le> v \<Longrightarrow> v < 2 ^ 31 \<Longrightarrow> int_of_long v = v"
  by (simp add: int_of_long_def signed_of_int signed_take_bit_int_eq_self)

lemma digits_val_show:
  "digits_val 10 acc (show_base 10 n @ rest) = digits_val 10 (acc * 10 ^ length (show_base 10 n) + n) rest"
proof (induction "10 :: nat" n arbitrary: rest rule: show_base.induct)
  case (1 n)
  have d: "xdigit_val (digit_char k) = Some k" if "k < 10" for k :: nat
    using that by (simp add: digit_char_def xdigit_val_def)
  show ?case
  proof (cases "n < 10")
    case True
    then show ?thesis by (simp add: show_base.simps [of 10 n] d)
  next
    case False
    then have s: "show_base 10 n = show_base 10 (n div 10) @ [digit_char (n mod 10)]" by (simp add: show_base.simps [of 10 n])
    have "digits_val 10 acc (show_base 10 n @ rest)
        = digits_val 10 (acc * 10 ^ length (show_base 10 (n div 10)) + n div 10) (digit_char (n mod 10) # rest)"
      using 1 False unfolding s by simp
    also have "\<dots> = digits_val 10 ((acc * 10 ^ length (show_base 10 (n div 10)) + n div 10) * 10 + n mod 10) rest" by (simp add: d)
    also have "(acc * 10 ^ length (show_base 10 (n div 10)) + n div 10) * 10 + n mod 10 = acc * 10 ^ length (show_base 10 n) + n"
      unfolding s by (simp add: algebra_simps div_mult_mod_eq)
    finally show ?thesis .
  qed
qed

lemma strtol_show:
  assumes "n < 2 ^ 31" "\<not> is_digit c" "c \<noteq> NUL"
  shows "strtol 10 (show_nat n @ c # rest) = int n"
proof -
  obtain d ds where d: "show_nat n = d # ds" "is_digit d" using show_nat_digits [of n] by (cases "show_nat n") auto
  have digit: "\<not> is_space x \<and> x \<noteq> CHR ''-'' \<and> x \<noteq> CHR ''+'' \<and> x \<noteq> NUL" if "is_digit x" for x
    using that by (auto simp: is_digit_def is_space_def special_chars)
  have "NUL \<notin> set (show_nat n)" using show_nat_digits(1) [of n] digit unfolding list_all_iff by blast
  then have c: "c_str (show_nat n @ c # rest) = show_nat n @ c # c_str rest"
    using assms(3) unfolding c_str_def by (subst takeWhile_append2) auto
  have "case xdigit_val c of None \<Rightarrow> True | Some k \<Rightarrow> \<not> k < 10"
    using assms(2) by (auto simp: xdigit_val_def is_digit_def Let_def split: if_splits)
  then have "digits_val 10 0 (show_nat n @ c # x) = n" for x
    using digits_val_show [of 0 n "c # x"] by (auto simp: show_nat_def split: option.splits)
  then show ?thesis
    using digit [OF d(2)] assms(1) unfolding strtol_def c by (simp add: d(1) strtol_clamp_def Let_def)
qed

text \<open>An invariant of the scan that may depend on the state.\<close>

lemma scan_state_inv:
  assumes step: "\<And>cs c as s p q es q1 out. I cs p q \<Longrightarrow> move m cs c = Some (as, s) \<Longrightarrow> do_actions act as p q = (es, q1, out) \<Longrightarrow> I (if out = None then s else 0) (Suc p) q1"
  shows "I cs p q \<Longrightarrow> scan m act cs p rest q = (es, cs', p', q') \<Longrightarrow> \<exists>s k. I s k q'"
proof (induction rest arbitrary: cs p q es cs' p' q')
  case (Cons c rest)
  show ?case
  proof (cases "move m cs c")
    case None
    then show ?thesis using Cons.prems by auto
  next
    case (Some k)
    then obtain as s where k: "move m cs c = Some (as, s)" by (cases k) auto
    obtain es1 q1 out where d: "do_actions act as p q = (es1, q1, out)" by (metis surj_pair)
    note i = step [OF Cons.prems(1) k d]
    show ?thesis
    proof (cases "out = None \<and> s \<noteq> 0")
      case True
      then show ?thesis using Cons.IH [of s "Suc p" q1] i Cons.prems(2) k d by (auto split: prod.splits)
    next
      case False
      then have "q' = q1" using Cons.prems(2) k d by (auto split: option.splits if_splits)
      then show ?thesis using i by blast
    qed
  qed
qed auto

lemma select_all: "P j \<Longrightarrow> list_all (\<lambda>(a, b, t). P t) ts \<Longrightarrow> P (select v ts j)"
  by (induction ts) auto

lemma find_state_member: "find_state n m = Some (ts, j) \<Longrightarrow> State n ts j \<in> set m"
  by (induction n m rule: find_state.induct) (auto split: if_splits)

lemma find_trans_member: "find_trans n m = (as, s) \<Longrightarrow> Trans n as s \<in> set m \<or> as = [] \<and> s = 0"
  by (induction n m rule: find_trans.induct) (auto split: if_splits)

end
