(* ===== verification/ResponseScanner.thy ===== *)
theory ResponseScanner
  imports Ragel HttpParser
begin

text \<open>
  The generated scanner of HTTP responses and chunk headers
  (\<^verbatim>\<open>qslary/http/http_response_parser.h\<close>, \<^verbatim>\<open>http_response_parser.cc\<close>), state by state.
  The buffer passed to \<^verbatim>\<open>httpclient_parser_execute\<close> is the list of the characters of its
  array; the scanner reads those from \<^verbatim>\<open>off\<close> up to \<^verbatim>\<open>len\<close> and asserts that a NUL follows them.
  The callbacks are all set, as \<^verbatim>\<open>HttpResponseParser\<close> does.  The marks are reset on every
  call, so that an element that began in an earlier buffer is taken from the start of
  the present one.
\<close>

section \<open>Definitions\<close>

(* http/http_response_parser.h 41-53: httpclient_parser *)
record httpclient_parser =
  hp_cs :: nat
  hp_body_start :: nat
  hp_content_len :: int
  hp_status :: int
  hp_chunked :: int
  hp_chunks_done :: int
  hp_close :: int
  hp_nread :: nat
  hp_mark :: nat
  hp_field_start :: nat
  hp_field_len :: nat

datatype rsp_action =
    Mark
  | Mark_field_start
  | Field_len
  | Content_len
  | Set_close
  | Http_field
  | Reason_phrase
  | Status_code
  | Http_version
  | Chunk_size
  | Set_chunked
  | Header_done nat

(* http/http_response_parser.cc 120-256: httpclient_parser_execute, states *)
definition rsp_items1 :: "rsp_action item list" where
  "rsp_items1 =
    [State 1 [(72, 72, Tr 2), (48, 57, Tr 0), (97, 102, Tr 0), (65, 70, Tr 0)] (St 0),
     Trans 0 [Mark] 2,
     State 2 [(10, 10, Tr 3), (13, 13, Tr 4), (59, 59, Tr 6), (48, 57, St 2), (97, 102, St 2), (65, 70, St 2)] (St 0),
     Trans 3 [Chunk_size, Header_done 120] 120,
     Trans 7 [Header_done 120] 120,
     Trans 9 [Field_len, Mark, Http_field, Header_done 120] 120,
     Trans 15 [Http_field, Header_done 120] 120,
     Trans 74 [Set_close, Header_done 120] 120,
     State 120 [] (St 0),
     Trans 4 [Chunk_size] 3]"

(* http/http_response_parser.cc 257-392: httpclient_parser_execute, states *)
definition rsp_items2 :: "rsp_action item list" where
  "rsp_items2 =
    [Trans 10 [Field_len, Mark, Http_field] 3,
     Trans 16 [Http_field] 3,
     Trans 75 [Set_close] 3,
     State 3 [(10, 10, Tr 7)] (St 0),
     Trans 6 [Chunk_size] 4,
     Trans 12 [Field_len, Mark, Http_field] 4,
     Trans 18 [Http_field] 4,
     State 4 [(33, 33, Tr 8), (124, 124, Tr 8), (126, 126, Tr 8), (42, 43, Tr 8), (35, 39, Tr 8), (48, 57, Tr 8), (94, 122, Tr 8), (65, 90, Tr 8), (45, 46, Tr 8)] (St 0),
     Trans 8 [Mark_field_start] 5,
     State 5 [(10, 10, Tr 9), (13, 13, Tr 10), (33, 33, St 5), (59, 59, Tr 12), (61, 61, Tr 13), (124, 124, St 5), (126, 126, St 5), (42, 43, St 5), (35, 39, St 5), (48, 57, St 5), (94, 122, St 5), (65, 90, St 5), (45, 46, St 5)] (St 0)]"

(* http/http_response_parser.cc 393-528: httpclient_parser_execute, states *)
definition rsp_items3 :: "rsp_action item list" where
  "rsp_items3 =
    [Trans 13 [Field_len, Mark] 6,
     State 6 [(33, 33, Tr 14), (124, 124, Tr 14), (126, 126, Tr 14), (42, 43, Tr 14), (35, 39, Tr 14), (48, 57, Tr 14), (94, 122, Tr 14), (65, 90, Tr 14), (45, 46, Tr 14)] (St 0),
     Trans 14 [Mark] 7,
     State 7 [(10, 10, Tr 15), (13, 13, Tr 16), (33, 33, St 7), (59, 59, Tr 18), (124, 124, St 7), (126, 126, St 7), (42, 43, St 7), (35, 39, St 7), (48, 57, St 7), (94, 122, St 7), (65, 90, St 7), (45, 46, St 7)] (St 0),
     Trans 2 [Mark] 8,
     State 8 [(84, 84, St 9)] (St 0),
     State 9 [(84, 84, St 10)] (St 0),
     State 10 [(80, 80, St 11)] (St 0),
     State 11 [(47, 47, St 12)] (St 0),
     State 12 [(48, 57, St 13)] (St 0),
     State 13 [(46, 46, St 14), (48, 57, St 13)] (St 0),
     State 14 [(48, 57, St 15)] (St 0),
     State 15 [(32, 32, Tr 26), (48, 57, St 15)] (St 0)]"

(* http/http_response_parser.cc 529-677: httpclient_parser_execute, states *)
definition rsp_items4 :: "rsp_action item list" where
  "rsp_items4 =
    [Trans 26 [Http_version] 16,
     State 16 [(48, 57, Tr 27)] (St 0),
     Trans 27 [Mark] 17,
     State 17 [(32, 32, Tr 28), (48, 57, St 17)] (St 0),
     Trans 28 [Status_code] 18,
     State 18 [(10, 10, St 0)] (Tr 30),
     Trans 30 [Mark] 19,
     State 19 [(10, 10, Tr 32), (13, 13, Tr 33)] (St 19),
     Trans 45 [Http_field] 20,
     Trans 32 [Reason_phrase] 20,
     Trans 42 [Mark, Http_field] 20,
     Trans 111 [Http_field, Set_chunked] 20,
     Trans 113 [Set_chunked] 20,
     Trans 158 [Content_len, Http_field] 20,
     State 20 [(10, 10, Tr 7), (13, 13, St 3), (33, 33, Tr 35), (67, 67, Tr 36), (84, 84, Tr 37), (99, 99, Tr 36), (116, 116, Tr 37), (124, 124, Tr 35), (126, 126, Tr 35), (42, 43, Tr 35), (35, 39, Tr 35), (48, 57, Tr 35), (94, 98, Tr 35), (100, 115, Tr 35), (117, 122, Tr 35), (65, 66, Tr 35), (68, 83, Tr 35), (85, 90, Tr 35), (45, 46, Tr 35)] (St 0)]"

(* http/http_response_parser.cc 678-843: httpclient_parser_execute, states *)
definition rsp_items5 :: "rsp_action item list" where
  "rsp_items5 =
    [Trans 35 [Mark_field_start] 21,
     Trans 76 [Set_close, Mark_field_start] 21,
     State 21 [(33, 33, St 21), (58, 58, Tr 39), (124, 124, St 21), (126, 126, St 21), (42, 43, St 21), (35, 39, St 21), (48, 57, St 21), (94, 122, St 21), (65, 90, St 21), (45, 46, St 21)] (St 0),
     Trans 41 [Mark] 22,
     Trans 39 [Field_len] 22,
     State 22 [(10, 10, Tr 42), (13, 13, Tr 43), (32, 32, Tr 41), (9, 9, Tr 41), (11, 12, Tr 41)] (Tr 40),
     Trans 40 [Mark] 23,
     State 23 [(10, 10, Tr 45), (13, 13, Tr 46)] (St 23),
     Trans 46 [Http_field] 24,
     Trans 33 [Reason_phrase] 24,
     Trans 43 [Mark, Http_field] 24,
     Trans 159 [Content_len, Http_field] 24,
     State 24 [(10, 10, St 20)] (St 0),
     Trans 36 [Mark_field_start] 25,
     Trans 77 [Set_close, Mark_field_start] 25,
     State 25 [(33, 33, St 21), (58, 58, Tr 39), (79, 79, St 26), (111, 111, St 26), (124, 124, St 21), (126, 126, St 21), (42, 43, St 21), (35, 39, St 21), (48, 57, St 21), (94, 110, St 21), (112, 122, St 21), (65, 78, St 21), (80, 90, St 21), (45, 46, St 21)] (St 0)]"

(* http/http_response_parser.cc 844-995: httpclient_parser_execute, states *)
definition rsp_items6 :: "rsp_action item list" where
  "rsp_items6 =
    [State 26 [(33, 33, St 21), (58, 58, Tr 39), (78, 78, St 27), (110, 110, St 27), (124, 124, St 21), (126, 126, St 21), (42, 43, St 21), (35, 39, St 21), (48, 57, St 21), (94, 109, St 21), (111, 122, St 21), (65, 77, St 21), (79, 90, St 21), (45, 46, St 21)] (St 0),
     State 27 [(33, 33, St 21), (58, 58, Tr 39), (78, 78, St 28), (84, 84, St 101), (110, 110, St 28), (116, 116, St 101), (124, 124, St 21), (126, 126, St 21), (42, 43, St 21), (35, 39, St 21), (48, 57, St 21), (94, 109, St 21), (111, 115, St 21), (117, 122, St 21), (65, 77, St 21), (79, 83, St 21), (85, 90, St 21), (45, 46, St 21)] (St 0),
     State 28 [(33, 33, St 21), (58, 58, Tr 39), (69, 69, St 29), (101, 101, St 29), (124, 124, St 21), (126, 126, St 21), (42, 43, St 21), (35, 39, St 21), (48, 57, St 21), (94, 100, St 21), (102, 122, St 21), (65, 68, St 21), (70, 90, St 21), (45, 46, St 21)] (St 0),
     State 29 [(33, 33, St 21), (58, 58, Tr 39), (67, 67, St 30), (99, 99, St 30), (124, 124, St 21), (126, 126, St 21), (42, 43, St 21), (35, 39, St 21), (48, 57, St 21), (94, 98, St 21), (100, 122, St 21), (65, 66, St 21), (68, 90, St 21), (45, 46, St 21)] (St 0),
     State 30 [(33, 33, St 21), (58, 58, Tr 39), (84, 84, St 31), (116, 116, St 31), (124, 124, St 21), (126, 126, St 21), (42, 43, St 21), (35, 39, St 21), (48, 57, St 21), (94, 115, St 21), (117, 122, St 21), (65, 83, St 21), (85, 90, St 21), (45, 46, St 21)] (St 0)]"

(* http/http_response_parser.cc 996-1138: httpclient_parser_execute, states *)
definition rsp_items7 :: "rsp_action item list" where
  "rsp_items7 =
    [State 31 [(33, 33, St 21), (58, 58, Tr 39), (73, 73, St 32), (105, 105, St 32), (124, 124, St 21), (126, 126, St 21), (42, 43, St 21), (35, 39, St 21), (48, 57, St 21), (94, 104, St 21), (106, 122, St 21), (65, 72, St 21), (74, 90, St 21), (45, 46, St 21)] (St 0),
     State 32 [(33, 33, St 21), (58, 58, Tr 39), (79, 79, St 33), (111, 111, St 33), (124, 124, St 21), (126, 126, St 21), (42, 43, St 21), (35, 39, St 21), (48, 57, St 21), (94, 110, St 21), (112, 122, St 21), (65, 78, St 21), (80, 90, St 21), (45, 46, St 21)] (St 0),
     State 33 [(33, 33, St 21), (58, 58, Tr 39), (78, 78, St 34), (110, 110, St 34), (124, 124, St 21), (126, 126, St 21), (42, 43, St 21), (35, 39, St 21), (48, 57, St 21), (94, 109, St 21), (111, 122, St 21), (65, 77, St 21), (79, 90, St 21), (45, 46, St 21)] (St 0),
     State 34 [(33, 33, St 21), (58, 58, Tr 58), (124, 124, St 21), (126, 126, St 21), (42, 43, St 21), (35, 39, St 21), (48, 57, St 21), (94, 122, St 21), (65, 90, St 21), (45, 46, St 21)] (St 0),
     Trans 59 [Mark] 35,
     Trans 58 [Field_len] 35,
     State 35 [(10, 10, Tr 60), (13, 13, Tr 61), (32, 32, Tr 59), (67, 67, Tr 62), (99, 99, Tr 62), (9, 9, Tr 59), (11, 12, Tr 59)] (Tr 40)]"

(* http/http_response_parser.cc 1139-1285: httpclient_parser_execute, states *)
definition rsp_items8 :: "rsp_action item list" where
  "rsp_items8 =
    [Trans 60 [Mark, Http_field] 36,
     State 36 [(10, 10, Tr 64), (13, 13, St 89), (32, 32, St 37), (33, 33, Tr 35), (67, 67, Tr 66), (84, 84, Tr 37), (99, 99, Tr 66), (116, 116, Tr 37), (124, 124, Tr 35), (126, 126, Tr 35), (9, 9, St 37), (11, 12, St 37), (42, 43, Tr 35), (35, 39, Tr 35), (48, 57, Tr 35), (94, 98, Tr 35), (100, 115, Tr 35), (117, 122, Tr 35), (65, 66, Tr 35), (68, 83, Tr 35), (85, 90, Tr 35), (45, 46, Tr 35)] (St 0),
     State 37 [(32, 32, St 37), (67, 67, St 38), (99, 99, St 38), (9, 13, St 37)] (St 0),
     State 38 [(76, 76, St 39), (108, 108, St 39)] (St 0),
     State 39 [(79, 79, St 40), (111, 111, St 40)] (St 0),
     State 40 [(83, 83, St 41), (115, 115, St 41)] (St 0),
     State 41 [(69, 69, St 42), (101, 101, St 42)] (St 0),
     State 42 [(10, 10, St 43), (13, 13, St 88)] (St 0),
     Trans 136 [Http_field] 43,
     State 43 [(10, 10, Tr 74), (13, 13, Tr 75), (33, 33, Tr 76), (67, 67, Tr 77), (84, 84, Tr 78), (99, 99, Tr 77), (116, 116, Tr 78), (124, 124, Tr 76), (126, 126, Tr 76), (42, 43, Tr 76), (35, 39, Tr 76), (48, 57, Tr 76), (94, 98, Tr 76), (100, 115, Tr 76), (117, 122, Tr 76), (65, 66, Tr 76), (68, 83, Tr 76), (85, 90, Tr 76), (45, 46, Tr 76)] (St 0)]"

(* http/http_response_parser.cc 1286-1448: httpclient_parser_execute, states *)
definition rsp_items9 :: "rsp_action item list" where
  "rsp_items9 =
    [Trans 37 [Mark_field_start] 44,
     Trans 78 [Set_close, Mark_field_start] 44,
     State 44 [(33, 33, St 21), (58, 58, Tr 39), (82, 82, St 45), (114, 114, St 45), (124, 124, St 21), (126, 126, St 21), (42, 43, St 21), (35, 39, St 21), (48, 57, St 21), (94, 113, St 21), (115, 122, St 21), (65, 81, St 21), (83, 90, St 21), (45, 46, St 21)] (St 0),
     State 45 [(33, 33, St 21), (58, 58, Tr 39), (65, 65, St 46), (97, 97, St 46), (124, 124, St 21), (126, 126, St 21), (42, 43, St 21), (35, 39, St 21), (48, 57, St 21), (94, 96, St 21), (98, 122, St 21), (66, 90, St 21), (45, 46, St 21)] (St 0),
     State 46 [(33, 33, St 21), (58, 58, Tr 39), (78, 78, St 47), (110, 110, St 47), (124, 124, St 21), (126, 126, St 21), (42, 43, St 21), (35, 39, St 21), (48, 57, St 21), (94, 109, St 21), (111, 122, St 21), (65, 77, St 21), (79, 90, St 21), (45, 46, St 21)] (St 0),
     State 47 [(33, 33, St 21), (58, 58, Tr 39), (83, 83, St 48), (115, 115, St 48), (124, 124, St 21), (126, 126, St 21), (42, 43, St 21), (35, 39, St 21), (48, 57, St 21), (94, 114, St 21), (116, 122, St 21), (65, 82, St 21), (84, 90, St 21), (45, 46, St 21)] (St 0),
     State 48 [(33, 33, St 21), (58, 58, Tr 39), (70, 70, St 49), (102, 102, St 49), (124, 124, St 21), (126, 126, St 21), (42, 43, St 21), (35, 39, St 21), (48, 57, St 21), (94, 101, St 21), (103, 122, St 21), (65, 69, St 21), (71, 90, St 21), (45, 46, St 21)] (St 0)]"

(* http/http_response_parser.cc 1449-1595: httpclient_parser_execute, states *)
definition rsp_items10 :: "rsp_action item list" where
  "rsp_items10 =
    [State 49 [(33, 33, St 21), (58, 58, Tr 39), (69, 69, St 50), (101, 101, St 50), (124, 124, St 21), (126, 126, St 21), (42, 43, St 21), (35, 39, St 21), (48, 57, St 21), (94, 100, St 21), (102, 122, St 21), (65, 68, St 21), (70, 90, St 21), (45, 46, St 21)] (St 0),
     State 50 [(33, 33, St 21), (58, 58, Tr 39), (82, 82, St 51), (114, 114, St 51), (124, 124, St 21), (126, 126, St 21), (42, 43, St 21), (35, 39, St 21), (48, 57, St 21), (94, 113, St 21), (115, 122, St 21), (65, 81, St 21), (83, 90, St 21), (45, 46, St 21)] (St 0),
     State 51 [(33, 33, St 21), (45, 45, St 52), (46, 46, St 21), (58, 58, Tr 39), (124, 124, St 21), (126, 126, St 21), (42, 43, St 21), (35, 39, St 21), (94, 122, St 21), (65, 90, St 21), (48, 57, St 21)] (St 0),
     State 52 [(33, 33, St 21), (58, 58, Tr 39), (69, 69, St 53), (101, 101, St 53), (124, 124, St 21), (126, 126, St 21), (42, 43, St 21), (35, 39, St 21), (48, 57, St 21), (94, 100, St 21), (102, 122, St 21), (65, 68, St 21), (70, 90, St 21), (45, 46, St 21)] (St 0),
     State 53 [(33, 33, St 21), (58, 58, Tr 39), (78, 78, St 54), (110, 110, St 54), (124, 124, St 21), (126, 126, St 21), (42, 43, St 21), (35, 39, St 21), (48, 57, St 21), (94, 109, St 21), (111, 122, St 21), (65, 77, St 21), (79, 90, St 21), (45, 46, St 21)] (St 0)]"

(* http/http_response_parser.cc 1596-1745: httpclient_parser_execute, states *)
definition rsp_items11 :: "rsp_action item list" where
  "rsp_items11 =
    [State 54 [(33, 33, St 21), (58, 58, Tr 39), (67, 67, St 55), (99, 99, St 55), (124, 124, St 21), (126, 126, St 21), (42, 43, St 21), (35, 39, St 21), (48, 57, St 21), (94, 98, St 21), (100, 122, St 21), (65, 66, St 21), (68, 90, St 21), (45, 46, St 21)] (St 0),
     State 55 [(33, 33, St 21), (58, 58, Tr 39), (79, 79, St 56), (111, 111, St 56), (124, 124, St 21), (126, 126, St 21), (42, 43, St 21), (35, 39, St 21), (48, 57, St 21), (94, 110, St 21), (112, 122, St 21), (65, 78, St 21), (80, 90, St 21), (45, 46, St 21)] (St 0),
     State 56 [(33, 33, St 21), (58, 58, Tr 39), (68, 68, St 57), (100, 100, St 57), (124, 124, St 21), (126, 126, St 21), (42, 43, St 21), (35, 39, St 21), (48, 57, St 21), (94, 99, St 21), (101, 122, St 21), (65, 67, St 21), (69, 90, St 21), (45, 46, St 21)] (St 0),
     State 57 [(33, 33, St 21), (58, 58, Tr 39), (73, 73, St 58), (105, 105, St 58), (124, 124, St 21), (126, 126, St 21), (42, 43, St 21), (35, 39, St 21), (48, 57, St 21), (94, 104, St 21), (106, 122, St 21), (65, 72, St 21), (74, 90, St 21), (45, 46, St 21)] (St 0),
     State 58 [(33, 33, St 21), (58, 58, Tr 39), (78, 78, St 59), (110, 110, St 59), (124, 124, St 21), (126, 126, St 21), (42, 43, St 21), (35, 39, St 21), (48, 57, St 21), (94, 109, St 21), (111, 122, St 21), (65, 77, St 21), (79, 90, St 21), (45, 46, St 21)] (St 0)]"

(* http/http_response_parser.cc 1746-1888: httpclient_parser_execute, states *)
definition rsp_items12 :: "rsp_action item list" where
  "rsp_items12 =
    [State 59 [(33, 33, St 21), (58, 58, Tr 39), (71, 71, St 60), (103, 103, St 60), (124, 124, St 21), (126, 126, St 21), (42, 43, St 21), (35, 39, St 21), (48, 57, St 21), (94, 102, St 21), (104, 122, St 21), (65, 70, St 21), (72, 90, St 21), (45, 46, St 21)] (St 0),
     State 60 [(33, 33, St 21), (58, 58, Tr 95), (124, 124, St 21), (126, 126, St 21), (42, 43, St 21), (35, 39, St 21), (48, 57, St 21), (94, 122, St 21), (65, 90, St 21), (45, 46, St 21)] (St 0),
     Trans 96 [Mark] 61,
     Trans 95 [Field_len] 61,
     State 61 [(10, 10, Tr 97), (13, 13, Tr 98), (32, 32, Tr 96), (67, 67, Tr 99), (99, 99, Tr 99), (9, 9, Tr 96), (11, 12, Tr 96)] (Tr 40),
     Trans 97 [Mark, Http_field] 62,
     State 62 [(10, 10, Tr 101), (13, 13, St 72), (32, 32, St 63), (33, 33, Tr 35), (67, 67, Tr 103), (84, 84, Tr 37), (99, 99, Tr 103), (116, 116, Tr 37), (124, 124, Tr 35), (126, 126, Tr 35), (9, 9, St 63), (11, 12, St 63), (42, 43, Tr 35), (35, 39, Tr 35), (48, 57, Tr 35), (94, 98, Tr 35), (100, 115, Tr 35), (117, 122, Tr 35), (65, 66, Tr 35), (68, 83, Tr 35), (85, 90, Tr 35), (45, 46, Tr 35)] (St 0),
     State 63 [(32, 32, St 63), (67, 67, Tr 104), (99, 99, Tr 104), (9, 13, St 63)] (St 0)]"

(* http/http_response_parser.cc 1889-2046: httpclient_parser_execute, states *)
definition rsp_items13 :: "rsp_action item list" where
  "rsp_items13 =
    [Trans 104 [Mark] 64,
     State 64 [(72, 72, St 65), (104, 104, St 65)] (St 0),
     State 65 [(85, 85, St 66), (117, 117, St 66)] (St 0),
     State 66 [(78, 78, St 67), (110, 110, St 67)] (St 0),
     State 67 [(75, 75, St 68), (107, 107, St 68)] (St 0),
     State 68 [(69, 69, St 69), (101, 101, St 69)] (St 0),
     State 69 [(68, 68, St 70), (100, 100, St 70)] (St 0),
     State 70 [(10, 10, Tr 111), (13, 13, Tr 112)] (St 0),
     Trans 112 [Http_field] 71,
     State 71 [(10, 10, Tr 113)] (St 0),
     Trans 101 [Header_done 121] 121,
     State 121 [(32, 32, St 63), (67, 67, Tr 104), (99, 99, Tr 104), (9, 13, St 63)] (St 0),
     State 72 [(10, 10, Tr 101), (32, 32, St 63), (67, 67, Tr 104), (99, 99, Tr 104), (9, 9, St 63), (11, 13, St 63)] (St 0),
     Trans 103 [Mark, Mark_field_start] 73,
     State 73 [(33, 33, St 21), (58, 58, Tr 39), (72, 72, St 74), (79, 79, St 26), (104, 104, St 74), (111, 111, St 26), (124, 124, St 21), (126, 126, St 21), (42, 43, St 21), (35, 39, St 21), (48, 57, St 21), (94, 103, St 21), (105, 110, St 21), (112, 122, St 21), (65, 71, St 21), (73, 78, St 21), (80, 90, St 21), (45, 46, St 21)] (St 0)]"

(* http/http_response_parser.cc 2047-2196: httpclient_parser_execute, states *)
definition rsp_items14 :: "rsp_action item list" where
  "rsp_items14 =
    [State 74 [(33, 33, St 21), (58, 58, Tr 39), (85, 85, St 75), (117, 117, St 75), (124, 124, St 21), (126, 126, St 21), (42, 43, St 21), (35, 39, St 21), (48, 57, St 21), (94, 116, St 21), (118, 122, St 21), (65, 84, St 21), (86, 90, St 21), (45, 46, St 21)] (St 0),
     State 75 [(33, 33, St 21), (58, 58, Tr 39), (78, 78, St 76), (110, 110, St 76), (124, 124, St 21), (126, 126, St 21), (42, 43, St 21), (35, 39, St 21), (48, 57, St 21), (94, 109, St 21), (111, 122, St 21), (65, 77, St 21), (79, 90, St 21), (45, 46, St 21)] (St 0),
     State 76 [(33, 33, St 21), (58, 58, Tr 39), (75, 75, St 77), (107, 107, St 77), (124, 124, St 21), (126, 126, St 21), (42, 43, St 21), (35, 39, St 21), (48, 57, St 21), (94, 106, St 21), (108, 122, St 21), (65, 74, St 21), (76, 90, St 21), (45, 46, St 21)] (St 0),
     State 77 [(33, 33, St 21), (58, 58, Tr 39), (69, 69, St 78), (101, 101, St 78), (124, 124, St 21), (126, 126, St 21), (42, 43, St 21), (35, 39, St 21), (48, 57, St 21), (94, 100, St 21), (102, 122, St 21), (65, 68, St 21), (70, 90, St 21), (45, 46, St 21)] (St 0),
     State 78 [(33, 33, St 21), (58, 58, Tr 39), (68, 68, St 79), (100, 100, St 79), (124, 124, St 21), (126, 126, St 21), (42, 43, St 21), (35, 39, St 21), (48, 57, St 21), (94, 99, St 21), (101, 122, St 21), (65, 67, St 21), (69, 90, St 21), (45, 46, St 21)] (St 0)]"

(* http/http_response_parser.cc 2197-2330: httpclient_parser_execute, states *)
definition rsp_items15 :: "rsp_action item list" where
  "rsp_items15 =
    [State 79 [(10, 10, Tr 111), (13, 13, Tr 112), (33, 33, St 21), (58, 58, Tr 39), (124, 124, St 21), (126, 126, St 21), (42, 43, St 21), (35, 39, St 21), (48, 57, St 21), (94, 122, St 21), (65, 90, St 21), (45, 46, St 21)] (St 0),
     Trans 98 [Mark, Http_field] 80,
     State 80 [(10, 10, St 62), (32, 32, St 63), (67, 67, Tr 104), (99, 99, Tr 104), (9, 9, St 63), (11, 13, St 63)] (St 0),
     Trans 99 [Mark] 81,
     State 81 [(10, 10, Tr 45), (13, 13, Tr 46), (72, 72, St 82), (104, 104, St 82)] (St 23),
     State 82 [(10, 10, Tr 45), (13, 13, Tr 46), (85, 85, St 83), (117, 117, St 83)] (St 23),
     State 83 [(10, 10, Tr 45), (13, 13, Tr 46), (78, 78, St 84), (110, 110, St 84)] (St 23),
     State 84 [(10, 10, Tr 45), (13, 13, Tr 46), (75, 75, St 85), (107, 107, St 85)] (St 23),
     State 85 [(10, 10, Tr 45), (13, 13, Tr 46), (69, 69, St 86), (101, 101, St 86)] (St 23),
     State 86 [(10, 10, Tr 45), (13, 13, Tr 46), (68, 68, St 87), (100, 100, St 87)] (St 23),
     State 87 [(10, 10, Tr 111), (13, 13, Tr 112)] (St 23)]"

(* http/http_response_parser.cc 2331-2478: httpclient_parser_execute, states *)
definition rsp_items16 :: "rsp_action item list" where
  "rsp_items16 =
    [Trans 137 [Http_field] 88,
     State 88 [(10, 10, St 43)] (St 0),
     Trans 64 [Header_done 122] 122,
     State 122 [(32, 32, St 37), (67, 67, St 38), (99, 99, St 38), (9, 13, St 37)] (St 0),
     State 89 [(10, 10, Tr 64), (32, 32, St 37), (67, 67, St 38), (99, 99, St 38), (9, 9, St 37), (11, 13, St 37)] (St 0),
     Trans 66 [Mark_field_start] 90,
     State 90 [(33, 33, St 21), (58, 58, Tr 39), (76, 76, St 91), (79, 79, St 26), (108, 108, St 91), (111, 111, St 26), (124, 124, St 21), (126, 126, St 21), (42, 43, St 21), (35, 39, St 21), (48, 57, St 21), (94, 107, St 21), (109, 110, St 21), (112, 122, St 21), (65, 75, St 21), (77, 78, St 21), (80, 90, St 21), (45, 46, St 21)] (St 0),
     State 91 [(33, 33, St 21), (58, 58, Tr 39), (79, 79, St 92), (111, 111, St 92), (124, 124, St 21), (126, 126, St 21), (42, 43, St 21), (35, 39, St 21), (48, 57, St 21), (94, 110, St 21), (112, 122, St 21), (65, 78, St 21), (80, 90, St 21), (45, 46, St 21)] (St 0),
     State 92 [(33, 33, St 21), (58, 58, Tr 39), (83, 83, St 93), (115, 115, St 93), (124, 124, St 21), (126, 126, St 21), (42, 43, St 21), (35, 39, St 21), (48, 57, St 21), (94, 114, St 21), (116, 122, St 21), (65, 82, St 21), (84, 90, St 21), (45, 46, St 21)] (St 0)]"

(* http/http_response_parser.cc 2479-2620: httpclient_parser_execute, states *)
definition rsp_items17 :: "rsp_action item list" where
  "rsp_items17 =
    [State 93 [(33, 33, St 21), (58, 58, Tr 39), (69, 69, St 94), (101, 101, St 94), (124, 124, St 21), (126, 126, St 21), (42, 43, St 21), (35, 39, St 21), (48, 57, St 21), (94, 100, St 21), (102, 122, St 21), (65, 68, St 21), (70, 90, St 21), (45, 46, St 21)] (St 0),
     State 94 [(10, 10, St 43), (13, 13, St 88), (33, 33, St 21), (58, 58, Tr 39), (124, 124, St 21), (126, 126, St 21), (42, 43, St 21), (35, 39, St 21), (48, 57, St 21), (94, 122, St 21), (65, 90, St 21), (45, 46, St 21)] (St 0),
     Trans 61 [Mark, Http_field] 95,
     State 95 [(10, 10, St 36), (32, 32, St 37), (67, 67, St 38), (99, 99, St 38), (9, 9, St 37), (11, 13, St 37)] (St 0),
     Trans 62 [Mark] 96,
     State 96 [(10, 10, Tr 45), (13, 13, Tr 46), (76, 76, St 97), (108, 108, St 97)] (St 23),
     State 97 [(10, 10, Tr 45), (13, 13, Tr 46), (79, 79, St 98), (111, 111, St 98)] (St 23),
     State 98 [(10, 10, Tr 45), (13, 13, Tr 46), (83, 83, St 99), (115, 115, St 99)] (St 23),
     State 99 [(10, 10, Tr 45), (13, 13, Tr 46), (69, 69, St 100), (101, 101, St 100)] (St 23),
     State 100 [(10, 10, Tr 136), (13, 13, Tr 137)] (St 23)]"

(* http/http_response_parser.cc 2621-2767: httpclient_parser_execute, states *)
definition rsp_items18 :: "rsp_action item list" where
  "rsp_items18 =
    [State 101 [(33, 33, St 21), (58, 58, Tr 39), (69, 69, St 102), (101, 101, St 102), (124, 124, St 21), (126, 126, St 21), (42, 43, St 21), (35, 39, St 21), (48, 57, St 21), (94, 100, St 21), (102, 122, St 21), (65, 68, St 21), (70, 90, St 21), (45, 46, St 21)] (St 0),
     State 102 [(33, 33, St 21), (58, 58, Tr 39), (78, 78, St 103), (110, 110, St 103), (124, 124, St 21), (126, 126, St 21), (42, 43, St 21), (35, 39, St 21), (48, 57, St 21), (94, 109, St 21), (111, 122, St 21), (65, 77, St 21), (79, 90, St 21), (45, 46, St 21)] (St 0),
     State 103 [(33, 33, St 21), (58, 58, Tr 39), (84, 84, St 104), (116, 116, St 104), (124, 124, St 21), (126, 126, St 21), (42, 43, St 21), (35, 39, St 21), (48, 57, St 21), (94, 115, St 21), (117, 122, St 21), (65, 83, St 21), (85, 90, St 21), (45, 46, St 21)] (St 0),
     State 104 [(33, 33, St 21), (45, 45, St 105), (46, 46, St 21), (58, 58, Tr 39), (124, 124, St 21), (126, 126, St 21), (42, 43, St 21), (35, 39, St 21), (94, 122, St 21), (65, 90, St 21), (48, 57, St 21)] (St 0),
     State 105 [(33, 33, St 21), (58, 58, Tr 39), (76, 76, St 106), (108, 108, St 106), (124, 124, St 21), (126, 126, St 21), (42, 43, St 21), (35, 39, St 21), (48, 57, St 21), (94, 107, St 21), (109, 122, St 21), (65, 75, St 21), (77, 90, St 21), (45, 46, St 21)] (St 0)]"

(* http/http_response_parser.cc 2768-2917: httpclient_parser_execute, states *)
definition rsp_items19 :: "rsp_action item list" where
  "rsp_items19 =
    [State 106 [(33, 33, St 21), (58, 58, Tr 39), (69, 69, St 107), (101, 101, St 107), (124, 124, St 21), (126, 126, St 21), (42, 43, St 21), (35, 39, St 21), (48, 57, St 21), (94, 100, St 21), (102, 122, St 21), (65, 68, St 21), (70, 90, St 21), (45, 46, St 21)] (St 0),
     State 107 [(33, 33, St 21), (58, 58, Tr 39), (78, 78, St 108), (110, 110, St 108), (124, 124, St 21), (126, 126, St 21), (42, 43, St 21), (35, 39, St 21), (48, 57, St 21), (94, 109, St 21), (111, 122, St 21), (65, 77, St 21), (79, 90, St 21), (45, 46, St 21)] (St 0),
     State 108 [(33, 33, St 21), (58, 58, Tr 39), (71, 71, St 109), (103, 103, St 109), (124, 124, St 21), (126, 126, St 21), (42, 43, St 21), (35, 39, St 21), (48, 57, St 21), (94, 102, St 21), (104, 122, St 21), (65, 70, St 21), (72, 90, St 21), (45, 46, St 21)] (St 0),
     State 109 [(33, 33, St 21), (58, 58, Tr 39), (84, 84, St 110), (116, 116, St 110), (124, 124, St 21), (126, 126, St 21), (42, 43, St 21), (35, 39, St 21), (48, 57, St 21), (94, 115, St 21), (117, 122, St 21), (65, 83, St 21), (85, 90, St 21), (45, 46, St 21)] (St 0),
     State 110 [(33, 33, St 21), (58, 58, Tr 39), (72, 72, St 111), (104, 104, St 111), (124, 124, St 21), (126, 126, St 21), (42, 43, St 21), (35, 39, St 21), (48, 57, St 21), (94, 103, St 21), (105, 122, St 21), (65, 71, St 21), (73, 90, St 21), (45, 46, St 21)] (St 0)]"

(* http/http_response_parser.cc 2918-3056: httpclient_parser_execute, states *)
definition rsp_items20 :: "rsp_action item list" where
  "rsp_items20 =
    [State 111 [(33, 33, St 21), (58, 58, Tr 148), (124, 124, St 21), (126, 126, St 21), (42, 43, St 21), (35, 39, St 21), (48, 57, St 21), (94, 122, St 21), (65, 90, St 21), (45, 46, St 21)] (St 0),
     Trans 149 [Mark] 112,
     Trans 148 [Field_len] 112,
     State 112 [(10, 10, Tr 150), (13, 13, Tr 151), (32, 32, Tr 149), (48, 57, Tr 152), (9, 9, Tr 149), (11, 12, Tr 149)] (Tr 40),
     Trans 150 [Mark, Http_field] 113,
     State 113 [(10, 10, Tr 154), (13, 13, St 116), (32, 32, St 114), (33, 33, Tr 35), (67, 67, Tr 36), (84, 84, Tr 37), (99, 99, Tr 36), (116, 116, Tr 37), (124, 124, Tr 35), (126, 126, Tr 35), (9, 9, St 114), (11, 12, St 114), (42, 43, Tr 35), (35, 39, Tr 35), (48, 57, Tr 156), (94, 98, Tr 35), (100, 115, Tr 35), (117, 122, Tr 35), (65, 66, Tr 35), (68, 83, Tr 35), (85, 90, Tr 35), (45, 46, Tr 35)] (St 0),
     State 114 [(32, 32, St 114), (48, 57, Tr 157), (9, 13, St 114)] (St 0),
     Trans 157 [Mark] 115,
     State 115 [(10, 10, Tr 158), (13, 13, Tr 159), (48, 57, St 115)] (St 0),
     Trans 154 [Header_done 123] 123]"

(* http/http_response_parser.cc 3057-3161: httpclient_parser_execute, states *)
definition rsp_items21 :: "rsp_action item list" where
  "rsp_items21 =
    [State 123 [(32, 32, St 114), (48, 57, Tr 157), (9, 13, St 114)] (St 0),
     State 116 [(10, 10, Tr 154), (32, 32, St 114), (48, 57, Tr 157), (9, 9, St 114), (11, 13, St 114)] (St 0),
     Trans 156 [Mark, Mark_field_start] 117,
     State 117 [(10, 10, Tr 158), (13, 13, Tr 159), (33, 33, St 21), (58, 58, Tr 39), (124, 124, St 21), (126, 126, St 21), (42, 43, St 21), (35, 39, St 21), (48, 57, St 117), (94, 122, St 21), (65, 90, St 21), (45, 46, St 21)] (St 0),
     Trans 151 [Mark, Http_field] 118,
     State 118 [(10, 10, St 113), (32, 32, St 114), (48, 57, Tr 157), (9, 9, St 114), (11, 13, St 114)] (St 0),
     Trans 152 [Mark] 119,
     State 119 [(10, 10, Tr 158), (13, 13, Tr 159), (48, 57, St 119)] (St 23)]"

definition rsp_machine :: "rsp_action item list" where
  "rsp_machine = rsp_items1 @ rsp_items2 @ rsp_items3 @ rsp_items4 @ rsp_items5 @ rsp_items6 @ rsp_items7 @ rsp_items8 @ rsp_items9 @ rsp_items10 @ rsp_items11 @ rsp_items12 @ rsp_items13 @ rsp_items14 @ rsp_items15 @ rsp_items16 @ rsp_items17 @ rsp_items18 @ rsp_items19 @ rsp_items20 @ rsp_items21"

text \<open>\<^verbatim>\<open>LEN\<close>, \<^verbatim>\<open>MARK\<close> and \<^verbatim>\<open>PTR_TO\<close> are written out; a callback gets the rest of the buffer.\<close>

(* http/http_response_parser.cc 43-45: LEN, MARK, PTR_TO and the actions *)
fun rsp_act :: "string \<Rightarrow> (rsp_action, httpclient_parser, response_event) action_fun" where
  "rsp_act buf Mark p q = ([], q\<lparr>hp_mark := p\<rparr>, None)"
| "rsp_act buf Mark_field_start p q = ([], q\<lparr>hp_field_start := p\<rparr>, None)"
| "rsp_act buf Field_len p q = ([], q\<lparr>hp_field_len := p - hp_field_start q\<rparr>, None)"
| "rsp_act buf Content_len p q = ([], q\<lparr>hp_content_len := int_of_long (strtol 10 (drop (hp_mark q) buf))\<rparr>, None)"
| "rsp_act buf Set_close p q = ([], q\<lparr>hp_close := 1\<rparr>, None)"
| "rsp_act buf Http_field p q =
     ([On_response_http_field (drop (hp_field_start q) buf) (hp_field_len q) (drop (hp_mark q) buf) (p - hp_mark q)], q, None)"
| "rsp_act buf Reason_phrase p q = ([On_response_reason (drop (hp_mark q) buf) (p - hp_mark q)], q, None)"
| "rsp_act buf Status_code p q =
     ([On_response_status (drop (hp_mark q) buf) (p - hp_mark q)], q\<lparr>hp_status := int_of_long (strtol 10 (drop (hp_mark q) buf))\<rparr>, None)"
| "rsp_act buf Http_version p q = ([On_response_version (drop (hp_mark q) buf) (p - hp_mark q)], q, None)"
| "rsp_act buf Chunk_size p q =
     (let len = int_of_long (strtol 16 (drop (hp_mark q) buf)) in
      ([if len \<le> 0 then On_response_last_chunk (drop (hp_mark q) buf) (p - hp_mark q)
        else On_response_chunk (drop (hp_mark q) buf) (p - hp_mark q)],
       q\<lparr>hp_chunked := 1, hp_content_len := len, hp_chunks_done := (if len \<le> 0 then 1 else 0)\<rparr>, None))"
| "rsp_act buf Set_chunked p q = ([], q\<lparr>hp_chunked := 1\<rparr>, None)"
| "rsp_act buf (Header_done n) p q =
     ([On_response_header_done (drop (Suc p) buf) (length buf - p - 1)], q\<lparr>hp_body_start := Suc p\<rparr>, Some n)"

text \<open>The structure the parser object allocates is not initialised; the fields that
  \<^verbatim>\<open>httpclient_parser_init\<close> leaves alone (\<open>status\<close>) keep their value.\<close>

(* http/http_response_parser.cc 67: httpclient_parser_init *)
definition httpclient_parser_init :: "httpclient_parser \<Rightarrow> httpclient_parser" where
  "httpclient_parser_init q =
     q\<lparr>hp_cs := 1, hp_body_start := 0, hp_content_len := - 1, hp_chunked := 0, hp_chunks_done := 0, hp_mark := 0, hp_nread := 0,
       hp_field_len := 0, hp_field_start := 0, hp_close := 0\<rparr>"

text \<open>
  The assertions at the start of a run: the offset is inside, a NUL follows the buffer (a
  place outside the array is read only in undefined behaviour), and the distance is that of
  the two sizes as \<^verbatim>\<open>int\<close>.
\<close>

(* http/http_response_parser.cc 104-110: httpclient_parser_execute, the assertions at the start *)
definition execute_checks :: "string \<Rightarrow> nat \<Rightarrow> nat \<Rightarrow> unit result" where
  "execute_checks buffer len off =
     rbind (assert_r (off \<le> len)) (\<lambda>_.
     rbind (if length buffer \<le> len then Inl Undefined_behaviour else assert_r (buffer ! len = NUL)) (\<lambda>_.
       let d = int_of_long (int len) - int_of_long (int off) in
       if d < - (2 ^ 31) \<or> 2 ^ 31 - 1 < d then Inl Signed_overflow else assert_r (int (len - off) = d)))"

(* http/http_response_parser.cc 94-3311: httpclient_parser_execute *)
definition httpclient_parser_execute :: "httpclient_parser \<Rightarrow> string \<Rightarrow> nat \<Rightarrow> nat
    \<Rightarrow> (response_event list \<times> httpclient_parser \<times> int) result" where
  "httpclient_parser_execute q buffer len off =
     (let q0 = q\<lparr>hp_nread := 0, hp_mark := 0, hp_field_len := 0, hp_field_start := 0\<rparr> in
      rbind (execute_checks buffer len off) (\<lambda>_.
      let buf = take len buffer;
          (es, cs', p, q1) = scan rsp_machine (rsp_act buf) (hp_cs q) off (drop off buf) q0;
          q2 = q1\<lparr>hp_cs := cs', hp_nread := hp_nread q1 + (p - off)\<rparr> in
      rbind (assert_r (p \<le> len)) (\<lambda>_.
      rbind (assert_r (hp_nread q2 \<le> len)) (\<lambda>_.
      rbind (assert_r (hp_body_start q2 \<le> len)) (\<lambda>_.
        Inr (es, q2,
          if \<not> hp_mark q2 < len \<or> \<not> hp_field_len q2 \<le> len \<or> \<not> hp_field_start q2 < len then - 1
          else int (hp_nread q2)))))))"

text \<open>
  The run that the parser object makes: its callers store a NUL behind what they have read, and
  it scans from the start.
\<close>

(* http/HttpParser.cc 190: HttpResponseParser::execute, the call *)
definition scan_response :: "httpclient_parser \<Rightarrow> string \<Rightarrow> (response_event list \<times> httpclient_parser \<times> int) result" where
  "scan_response q data = httpclient_parser_execute q (data @ [NUL]) (length data) 0"

(* http/http_response_parser.cc 3328: httpclient_parser_has_error *)
definition httpclient_parser_has_error :: "httpclient_parser \<Rightarrow> bool" where
  "httpclient_parser_has_error q \<longleftrightarrow> hp_cs q = 0"

(* http/http_response_parser.cc 3332: httpclient_parser_is_finished *)
definition httpclient_parser_is_finished :: "httpclient_parser \<Rightarrow> bool" where
  "httpclient_parser_is_finished q \<longleftrightarrow> hp_cs q = 120"

(* http/http_response_parser.cc 3313: httpclient_parser_finish *)
definition httpclient_parser_finish :: "httpclient_parser \<Rightarrow> int" where
  "httpclient_parser_finish q =
     (if httpclient_parser_has_error q then - 1 else if httpclient_parser_is_finished q then 1 else 0)"

section \<open>Lemmas\<close>

text \<open>The machine's states are 1 to 123, each with one row; some rows and transitions.\<close>

lemmas rsp_defs = rsp_items1_def rsp_items2_def rsp_items3_def rsp_items4_def rsp_items5_def rsp_items6_def rsp_items7_def rsp_items8_def
 rsp_items9_def rsp_items10_def rsp_items11_def rsp_items12_def rsp_items13_def rsp_items14_def rsp_items15_def rsp_items16_def rsp_items17_def rsp_items18_def rsp_items19_def rsp_items20_def rsp_items21_def

lemma rsp_distinct: "distinct (state_nums rsp_machine)" "distinct (trans_nums rsp_machine)"
  by (simp_all add: rsp_machine_def rsp_defs)

lemma rsp_states: "set (state_nums rsp_machine) = {1..123}"
proof (rule card_subset_eq)
  show "set (state_nums rsp_machine) \<subseteq> {1..123}" by (simp add: rsp_machine_def rsp_defs)
  have "length (state_nums rsp_machine) = 123" by (simp add: rsp_machine_def rsp_defs)
  then show "card (set (state_nums rsp_machine)) = card {1..123 :: nat}" using distinct_card [OF rsp_distinct(1)] by simp
qed simp

lemma rsp_trans:
  "find_trans 35 rsp_machine = ([Mark_field_start], 21)" "find_trans 36 rsp_machine = ([Mark_field_start], 25)"
  "find_trans 37 rsp_machine = ([Mark_field_start], 44)" "find_trans 76 rsp_machine = ([Set_close, Mark_field_start], 21)"
  "find_trans 77 rsp_machine = ([Set_close, Mark_field_start], 25)" "find_trans 78 rsp_machine = ([Set_close, Mark_field_start], 44)"
  "find_trans 39 rsp_machine = ([Field_len], 22)" "find_trans 58 rsp_machine = ([Field_len], 35)"
  "find_trans 95 rsp_machine = ([Field_len], 61)" "find_trans 148 rsp_machine = ([Field_len], 112)"
  "find_trans 41 rsp_machine = ([Mark], 22)" "find_trans 59 rsp_machine = ([Mark], 35)"
  "find_trans 96 rsp_machine = ([Mark], 61)" "find_trans 149 rsp_machine = ([Mark], 112)"
  "find_trans 40 rsp_machine = ([Mark], 23)" "find_trans 62 rsp_machine = ([Mark], 96)"
  "find_trans 99 rsp_machine = ([Mark], 81)" "find_trans 152 rsp_machine = ([Mark], 119)"
  "find_trans 46 rsp_machine = ([Http_field], 24)" "find_trans 159 rsp_machine = ([Content_len, Http_field], 24)"
  "find_trans 137 rsp_machine = ([Http_field], 88)" "find_trans 112 rsp_machine = ([Http_field], 71)"
  "find_trans 75 rsp_machine = ([Set_close], 3)" "find_trans 7 rsp_machine = ([Header_done 120], 120)"
  "find_trans 33 rsp_machine = ([Reason_phrase], 24)" "find_trans 30 rsp_machine = ([Mark], 19)"
  "find_trans 28 rsp_machine = ([Status_code], 18)" "find_trans 27 rsp_machine = ([Mark], 17)"
  "find_trans 26 rsp_machine = ([Http_version], 16)" "find_trans 2 rsp_machine = ([Mark], 8)"
  "find_trans 0 rsp_machine = ([Mark], 2)" "find_trans 4 rsp_machine = ([Chunk_size], 3)"
  by (rule find_trans_in [OF rsp_distinct(2)]; simp add: rsp_machine_def rsp_defs)+

lemma rsp_fixed_rows:
  "find_state 1 rsp_machine = Some ([(72, 72, Tr 2), (48, 57, Tr 0), (97, 102, Tr 0), (65, 70, Tr 0)], St 0)"
  "find_state 2 rsp_machine = Some ([(10, 10, Tr 3), (13, 13, Tr 4), (59, 59, Tr 6), (48, 57, St 2), (97, 102, St 2), (65, 70, St 2)], St 0)"
  "find_state 3 rsp_machine = Some ([(10, 10, Tr 7)], St 0)"
  "find_state 8 rsp_machine = Some ([(84, 84, St 9)], St 0)"
  "find_state 9 rsp_machine = Some ([(84, 84, St 10)], St 0)"
  "find_state 10 rsp_machine = Some ([(80, 80, St 11)], St 0)"
  "find_state 11 rsp_machine = Some ([(47, 47, St 12)], St 0)"
  "find_state 12 rsp_machine = Some ([(48, 57, St 13)], St 0)"
  "find_state 13 rsp_machine = Some ([(46, 46, St 14), (48, 57, St 13)], St 0)"
  "find_state 14 rsp_machine = Some ([(48, 57, St 15)], St 0)"
  "find_state 15 rsp_machine = Some ([(32, 32, Tr 26), (48, 57, St 15)], St 0)"
  "find_state 16 rsp_machine = Some ([(48, 57, Tr 27)], St 0)"
  "find_state 17 rsp_machine = Some ([(32, 32, Tr 28), (48, 57, St 17)], St 0)"
  "find_state 18 rsp_machine = Some ([(10, 10, St 0)], Tr 30)"
  "find_state 19 rsp_machine = Some ([(10, 10, Tr 32), (13, 13, Tr 33)], St 19)"
  "find_state 24 rsp_machine = Some ([(10, 10, St 20)], St 0)"
  "find_state 88 rsp_machine = Some ([(10, 10, St 43)], St 0)"
  by (rule find_state_in [OF rsp_distinct(1)]; simp add: rsp_machine_def rsp_defs)+

text \<open>The marks stay inside the buffer: the checks at the end of a run hold.\<close>

definition marks_ok :: "nat \<Rightarrow> nat \<Rightarrow> httpclient_parser \<Rightarrow> bool" where
  "marks_ok N p q \<longleftrightarrow> hp_mark q \<le> p \<and> hp_field_start q \<le> p \<and> hp_field_len q \<le> p \<and> hp_mark q < N \<and> hp_field_start q < N
     \<and> hp_body_start q \<le> N \<and> hp_nread q = 0"

lemma rsp_act_marks:
  assumes "p < length buf" "marks_ok (length buf) p q" "rsp_act buf a p q = (es, q1, out)"
  shows "if out = None then marks_ok (length buf) p q1 else marks_ok (length buf) (Suc p) q1"
  using assms by (cases a) (auto simp: marks_ok_def Let_def)

lemma marks_ok_Suc: "marks_ok N p q \<Longrightarrow> marks_ok N (Suc p) q"
  by (simp add: marks_ok_def)

lemma scan_marks:
  assumes "buf \<noteq> []" "hp_body_start q \<le> length buf" "off \<le> length buf"
    and "scan rsp_machine (rsp_act buf) cs off (drop off buf)
      (q\<lparr>hp_nread := 0, hp_mark := 0, hp_field_len := 0, hp_field_start := 0\<rparr>) = (es, cs', p, q')"
  shows "marks_ok (length buf) p q'" "off \<le> p" "p \<le> length buf"
proof -
  have "marks_ok (length buf) off (q\<lparr>hp_nread := 0, hp_mark := 0, hp_field_len := 0, hp_field_start := 0\<rparr>)"
    using assms(1,2) by (simp add: marks_ok_def)
  from scan_inv [of "length buf" "marks_ok (length buf)" "rsp_act buf", OF rsp_act_marks marks_ok_Suc _ this assms(4)]
  show "marks_ok (length buf) p q'" "off \<le> p" "p \<le> length buf" using assms(3) by simp_all
qed

lemma execute_checks_spec:
  assumes "len < length buffer" "len < 2 ^ 31"
  shows "execute_checks buffer len off = (if off \<le> len \<and> buffer ! len = NUL then Inr () else Inl Assert_failed)"
proof (cases "off \<le> len")
  case True
  then have "int_of_long (int len) - int_of_long (int off) = int (len - off)" using assms(2) by (simp add: int_of_long_small of_nat_diff)
  then show ?thesis using True assms by (simp add: execute_checks_def Let_def)
qed (simp add: execute_checks_def)

lemma execute_frame:
  assumes "data \<noteq> []" "length data < 2 ^ 31" "hp_body_start q \<le> length data"
    and "scan rsp_machine (rsp_act data) (hp_cs q) 0 data (q\<lparr>hp_nread := 0, hp_mark := 0, hp_field_len := 0, hp_field_start := 0\<rparr>) = (es, cs', p, q')"
  shows "scan_response q data = Inr (es, q'\<lparr>hp_cs := cs', hp_nread := p\<rparr>, int p)"
  using scan_marks [of data q 0 "hp_cs q" es cs' p q'] assms execute_checks_spec [of "length data" "data @ [NUL]" 0]
  by (simp add: scan_response_def httpclient_parser_execute_def marks_ok_def Let_def nth_append)

text \<open>
  C17: The response scanner stays in its buffer.  For a buffer of a positive length that an
  \<^verbatim>\<open>int\<close> can hold, in an array that is longer, when the start of the body recorded before is
  not beyond the buffer: if the offset is not beyond it either and the array has a NUL right
  behind the buffer, a run from any state and with any marks ends without a failed assertion,
  has read no more than what follows the offset, and leaves the start of the body within the
  buffer; otherwise it fails an assertion at the start.
\<close>

theorem response_scanner_in_bounds:
  assumes "0 < len" "len < 2 ^ 31" "len < length buffer" "hp_body_start q \<le> len"
  shows "if off \<le> len \<and> buffer ! len = NUL
    then \<exists>es q' n. httpclient_parser_execute q buffer len off = Inr (es, q', int n) \<and> n \<le> len - off \<and> hp_body_start q' \<le> len
    else httpclient_parser_execute q buffer len off = Inl Assert_failed"
proof (cases "off \<le> len \<and> buffer ! len = NUL")
  case True
  let ?buf = "take len buffer"
  obtain es cs' p q' where s: "scan rsp_machine (rsp_act ?buf) (hp_cs q) off (drop off ?buf)
      (q\<lparr>hp_nread := 0, hp_mark := 0, hp_field_len := 0, hp_field_start := 0\<rparr>) = (es, cs', p, q')" by (metis surj_pair)
  have "?buf \<noteq> []" "length ?buf = len" using assms(1,3) by auto
  then have m: "marks_ok len p q'" "off \<le> p" "p \<le> len" using scan_marks [OF _ _ _ s] assms(4) True by auto
  then have "p - off \<le> len" by simp
  with m have "httpclient_parser_execute q buffer len off
      = Inr (es, q'\<lparr>hp_cs := cs', hp_nread := p - off\<rparr>, int (p - off))" "p - off \<le> len - off" "hp_body_start q' \<le> len"
    using s True execute_checks_spec [OF assms(3,2), of off]
    by (simp_all add: httpclient_parser_execute_def marks_ok_def Let_def)
  then show ?thesis using True by auto
next
  case False
  then show ?thesis using execute_checks_spec [OF assms(3,2), of off] by (auto simp: httpclient_parser_execute_def Let_def)
qed

theorem response_scanner_in_bounds_witness:
  "\<forall>q. \<exists>es q' n. httpclient_parser_execute (httpclient_parser_init q) (''HTTP/1.1 200'' @ [NUL]) 12 0 = Inr (es, q', int n) \<and> n \<le> 12"
proof
  fix q
  show "\<exists>es q' n. httpclient_parser_execute (httpclient_parser_init q) (''HTTP/1.1 200'' @ [NUL]) 12 0 = Inr (es, q', int n) \<and> n \<le> 12"
    using response_scanner_in_bounds [of 12 "''HTTP/1.1 200'' @ [NUL]" "httpclient_parser_init q" 0]
    by (fastforce simp: httpclient_parser_init_def)
qed

end
