(* ===== verification/ResponseLines.thy ===== *)
theory ResponseLines
  imports ResponseScanner
begin

text \<open>
  What the response scanner makes of the text of a response head: a status line, header
  lines and an empty line.  The states of a header line are classified (inside a name,
  before a value, inside a value, at the start of a line) and every row of the machine is
  tested once against where its class may lead; the scan of a line then follows by
  induction on its name and its value, whichever of the machine's keywords they spell.
\<close>

section \<open>The states of a header line\<close>

definition te_state :: "nat \<Rightarrow> bool" where
  "te_state s \<longleftrightarrow> 44 \<le> s \<and> s \<le> 60"

definition name_state :: "nat \<Rightarrow> bool" where
  "name_state s \<longleftrightarrow> s = 21 \<or> (25 \<le> s \<and> s \<le> 34) \<or> te_state s \<or> (101 \<le> s \<and> s \<le> 111)"

definition chunked_state :: "nat \<Rightarrow> bool" where
  "chunked_state s \<longleftrightarrow> 81 \<le> s \<and> s \<le> 87"

definition value_state :: "nat \<Rightarrow> bool" where
  "value_state s \<longleftrightarrow> s = 23 \<or> chunked_state s \<or> (96 \<le> s \<and> s \<le> 100) \<or> s = 119"

definition gap_state :: "nat \<Rightarrow> bool" where
  "gap_state s \<longleftrightarrow> s = 22 \<or> s = 35 \<or> s = 61 \<or> s = 112"

definition line_state :: "nat \<Rightarrow> bool" where
  "line_state s \<longleftrightarrow> s = 20 \<or> s = 43"

definition te_codes :: "int list" where
  "te_codes = [116, 114, 97, 110, 115, 102, 101, 114, 45, 101, 110, 99, 111, 100, 105, 110, 103]"

definition token_ranges :: "(int \<times> int) list" where
  "token_ranges = [(33, 33), (35, 39), (42, 43), (45, 46), (48, 57), (65, 90), (94, 122), (124, 124), (126, 126)]"

definition lower_int :: "int \<Rightarrow> int" where
  "lower_int v = (if 65 \<le> v then if v \<le> 90 then v + 32 else v else v)"

text \<open>Where the states of a header line lead.\<close>

fun name_jump :: "nat \<Rightarrow> int \<Rightarrow> int \<Rightarrow> jump \<Rightarrow> bool" where
  "name_jump n lo hi (St s) = (if te_state s then te_state n \<and> s = Suc n \<and> lo = hi \<and> lower_int lo = te_codes ! (n - 43) else name_state s)"
| "name_jump n lo hi (Tr t) = False"

fun colon_jump :: "nat \<Rightarrow> jump \<Rightarrow> bool" where
  "colon_jump n (St s) = False"
| "colon_jump n (Tr t) = (t = 39 \<or> t = 58 \<or> t = 148 \<or> t = 95 \<and> n = 60)"

fun line_jump :: "int \<Rightarrow> int \<Rightarrow> jump \<Rightarrow> bool" where
  "line_jump lo hi (St s) = False"
| "line_jump lo hi (Tr t) = (t = 35 \<or> t = 36 \<or> t = 76 \<or> t = 77 \<or> (t = 37 \<or> t = 78) \<and> lo = hi \<and> lower_int lo = 116)"

fun gap_jump :: "nat \<Rightarrow> int \<Rightarrow> int \<Rightarrow> jump \<Rightarrow> bool" where
  "gap_jump n lo hi (St s) = False"
| "gap_jump n lo hi (Tr t) = (t = 40 \<or> t = 62 \<or> t = 152 \<or> t = 99 \<and> n = 61)"

fun value_jump :: "nat \<Rightarrow> int \<Rightarrow> int \<Rightarrow> jump \<Rightarrow> bool" where
  "value_jump n lo hi (St s) = (value_state s \<and> (chunked_state s \<longrightarrow> chunked_state n))"
| "value_jump n lo hi (Tr t) = False"

fun end_jump :: "nat \<Rightarrow> jump \<Rightarrow> bool" where
  "end_jump n (St s) = False"
| "end_jump n (Tr t) = (t = 46 \<or> t = 159 \<or> t = 137 \<or> t = 112 \<and> n = 87)"

definition state_check :: "nat \<Rightarrow> (int \<times> int \<times> jump) list \<Rightarrow> jump \<Rightarrow> bool" where
  "state_check n ts j =
     (if name_state n then on_ranges token_ranges (name_jump n) ts j \<and> colon_jump n (select 58 ts j)
      else if line_state n then on_ranges token_ranges line_jump ts j
      else if gap_state n then row_all (gap_jump n) (- 128) 8 ts j \<and> row_all (gap_jump n) 14 31 ts j \<and> row_all (gap_jump n) 33 127 ts j
      else if value_state n then row_all (value_jump n) (- 128) 9 ts j \<and> row_all (value_jump n) 11 12 ts j
        \<and> row_all (value_jump n) 14 127 ts j \<and> end_jump n (select 13 ts j)
      else True)"

fun item_check :: "'a item \<Rightarrow> bool" where
  "item_check (State n ts j) = state_check n ts j"
| "item_check (Trans t as s) = True"

lemmas check_defs = state_check_def on_ranges_def token_ranges_def name_state_def te_state_def chunked_state_def value_state_def gap_state_def
  line_state_def lower_int_def te_codes_def

lemma rsp_checked: "list_all item_check rsp_machine"
  by (simp add: rsp_machine_def rsp_defs check_defs)

lemma rsp_row:
  assumes "1 \<le> n" "n \<le> 123"
  obtains ts j where "find_state n rsp_machine = Some (ts, j)" "state_check n ts j"
proof -
  have "n \<in> set (state_nums rsp_machine)" using assms by (simp add: rsp_states)
  then obtain ts j where i: "State n ts j \<in> set rsp_machine" by (auto simp: state_nums_iff)
  then have "item_check (State n ts j :: rsp_action item)" using rsp_checked unfolding list_all_iff by blast
  then show thesis using that find_state_in [OF rsp_distinct(1) i] by simp
qed

definition is_token :: "char \<Rightarrow> bool" where
  "is_token c = in_ranges token_ranges c"

lemma name_move:
  assumes "name_state n" "is_token c"
  obtains s where "move rsp_machine n c = Some ([], s)" "name_state s" "te_state s \<Longrightarrow> te_state n \<and> s = Suc n \<and> lower_int (char_val c) = te_codes ! (n - 43)"
proof -
  have "1 \<le> n" "n \<le> 123" using assms(1) by (auto simp: name_state_def te_state_def)
  then obtain ts j where r: "find_state n rsp_machine = Some (ts, j)" "state_check n ts j" by (rule rsp_row)
  then have "on_ranges token_ranges (name_jump n) ts j" using assms(1) by (simp add: state_check_def)
  then obtain l h where lh: "l \<le> char_val c" "char_val c \<le> h" "name_jump n l h (select (char_val c) ts j)"
    using assms(2) unfolding is_token_def by (rule on_ranges_select)
  show thesis
  proof (cases "select (char_val c) ts j")
    case (St s)
    then show ?thesis using that [of s] lh r by (auto simp: move_def name_state_def split: if_splits)
  qed (use lh in simp)
qed

lemma colon_move:
  assumes "name_state n"
  obtains g where "move rsp_machine n (CHR '':'') = Some ([Field_len], g)" "gap_state g" "g = 61 \<longrightarrow> n = 60"
proof -
  have "1 \<le> n" "n \<le> 123" using assms(1) by (auto simp: name_state_def te_state_def)
  then obtain ts j where r: "find_state n rsp_machine = Some (ts, j)" "state_check n ts j" by (rule rsp_row)
  then have "colon_jump n (select 58 ts j)" using assms(1) by (simp add: state_check_def)
  moreover have "char_val (CHR '':'') = 58" by (simp add: char_val_def)
  ultimately show thesis
    using that r by (cases "select 58 ts j") (auto simp: move_def rsp_trans gap_state_def)
qed

lemma line_move:
  assumes "line_state n" "is_token c"
  obtains as s where "move rsp_machine n c = Some (as, s)" "as = [Mark_field_start] \<or> as = [Set_close, Mark_field_start]"
    "name_state s" "te_state s \<Longrightarrow> s = 44 \<and> lower_int (char_val c) = 116"
proof -
  have "1 \<le> n" "n \<le> 123" using assms(1) by (auto simp: line_state_def)
  then obtain ts j where r: "find_state n rsp_machine = Some (ts, j)" "state_check n ts j" by (rule rsp_row)
  then have "on_ranges token_ranges line_jump ts j" using assms(1) by (auto simp: state_check_def line_state_def name_state_def te_state_def)
  then obtain l h where lh: "l \<le> char_val c" "char_val c \<le> h" "line_jump l h (select (char_val c) ts j)"
    using assms(2) unfolding is_token_def by (rule on_ranges_select)
  show thesis
  proof (cases "select (char_val c) ts j")
    case (Tr t)
    then show ?thesis using that lh r by (auto simp: move_def name_state_def te_state_def rsp_trans)
  qed (use lh in simp)
qed

definition is_blank :: "char \<Rightarrow> bool" where
  "is_blank c \<longleftrightarrow> char_val c = 32 \<or> 9 \<le> char_val c \<and> char_val c \<le> 13"

lemma gap_move:
  assumes "gap_state n" "\<not> is_blank c"
  obtains s where "move rsp_machine n c = Some ([Mark], s)" "value_state s" "chunked_state s \<longrightarrow> n = 61"
proof -
  have "1 \<le> n" "n \<le> 123" using assms(1) by (auto simp: gap_state_def)
  then obtain ts j where r: "find_state n rsp_machine = Some (ts, j)" "state_check n ts j" by (rule rsp_row)
  then have "row_all (gap_jump n) (- 128) 8 ts j" "row_all (gap_jump n) 14 31 ts j" "row_all (gap_jump n) 33 127 ts j"
    using assms(1) by (auto simp: state_check_def line_state_def name_state_def te_state_def gap_state_def)
  from this [THEN row_all_select, of "char_val c"] obtain l h where "gap_jump n l h (select (char_val c) ts j)"
    using assms(2) char_val_range [of c] unfolding is_blank_def by fastforce
  then show thesis using that r
    by (cases "select (char_val c) ts j") (auto simp: move_def rsp_trans value_state_def chunked_state_def)
qed

lemma blank_move: "gap_state n \<Longrightarrow> move rsp_machine n (CHR '' '') = Some ([Mark], n)"
proof -
  have rows: "find_state 22 rsp_machine = Some ([(10, 10, Tr 42), (13, 13, Tr 43), (32, 32, Tr 41), (9, 9, Tr 41), (11, 12, Tr 41)], Tr 40)"
    "find_state 35 rsp_machine = Some ([(10, 10, Tr 60), (13, 13, Tr 61), (32, 32, Tr 59), (67, 67, Tr 62), (99, 99, Tr 62), (9, 9, Tr 59), (11, 12, Tr 59)], Tr 40)"
    "find_state 61 rsp_machine = Some ([(10, 10, Tr 97), (13, 13, Tr 98), (32, 32, Tr 96), (67, 67, Tr 99), (99, 99, Tr 99), (9, 9, Tr 96), (11, 12, Tr 96)], Tr 40)"
    "find_state 112 rsp_machine = Some ([(10, 10, Tr 150), (13, 13, Tr 151), (32, 32, Tr 149), (48, 57, Tr 152), (9, 9, Tr 149), (11, 12, Tr 149)], Tr 40)"
    by (rule find_state_in [OF rsp_distinct(1)]; simp add: rsp_machine_def rsp_defs)+
  show "gap_state n \<Longrightarrow> move rsp_machine n (CHR '' '') = Some ([Mark], n)"
    by (auto simp: gap_state_def move_def rows rsp_trans char_val_def)
qed

lemma value_move:
  assumes "value_state n" "c \<noteq> CR" "c \<noteq> LF"
  obtains s where "move rsp_machine n c = Some ([], s)" "value_state s" "chunked_state s \<longrightarrow> chunked_state n"
proof -
  have n: "1 \<le> n" "n \<le> 123" using assms(1) by (auto simp: value_state_def chunked_state_def)
  then obtain ts j where r: "find_state n rsp_machine = Some (ts, j)" "state_check n ts j" by (rule rsp_row)
  then have "row_all (value_jump n) (- 128) 9 ts j" "row_all (value_jump n) 11 12 ts j" "row_all (value_jump n) 14 127 ts j"
    using assms(1) by (auto simp: check_defs)
  from this [THEN row_all_select, of "char_val c"] obtain l h where "value_jump n l h (select (char_val c) ts j)"
    using char_val_neq(1) [OF assms(2)] char_val_neq(2) [OF assms(3)] char_val_range [of c] by fastforce
  then show thesis using that r by (cases "select (char_val c) ts j") (auto simp: move_def)
qed

lemma end_move:
  assumes "value_state n" "\<not> chunked_state n"
  obtains as s where "move rsp_machine n CR = Some (as, s)" "as = [Http_field] \<or> as = [Content_len, Http_field]" "s = 24 \<or> s = 88"
proof -
  have n: "1 \<le> n" "n \<le> 123" using assms(1) by (auto simp: value_state_def chunked_state_def)
  then obtain ts j where r: "find_state n rsp_machine = Some (ts, j)" "state_check n ts j" by (rule rsp_row)
  then have "end_jump n (select 13 ts j)" using assms(1) by (auto simp: check_defs)
  then show thesis using that r assms(2)
    by (cases "select 13 ts j") (auto simp: move_def rsp_trans char_val_ends chunked_state_def)
qed

lemma newline_move: "s = 24 \<or> s = 88 \<Longrightarrow> \<exists>n. move rsp_machine s LF = Some ([], n) \<and> line_state n"
  by (auto simp: move_def rsp_fixed_rows char_val_ends line_state_def)

lemma no_error_state [simp]: "\<not> name_state 0" "\<not> gap_state 0" "\<not> value_state 0" "\<not> line_state 0"
  by (simp_all add: check_defs)

section \<open>Header lines\<close>

definition lower_name :: "string \<Rightarrow> int list" where
  "lower_name w = map (\<lambda>c. lower_int (char_val c)) w"

lemma name_scan:
  assumes "name_state n" "list_all is_token w" "te_state n \<longrightarrow> lower_name u = take (n - 43) te_codes"
  obtains s where "name_state s" "te_state s \<longrightarrow> lower_name (u @ w) = take (s - 43) te_codes"
    "\<And>p rest q. scan rsp_machine act n p (w @ rest) q = scan rsp_machine act s (p + length w) rest q"
  using assms
proof (induction w arbitrary: n u thesis)
  case Nil
  then show ?case by simp
next
  case (Cons c w)
  obtain m where m: "move rsp_machine n c = Some ([], m)" "name_state m"
      "te_state m \<Longrightarrow> te_state n \<and> m = Suc n \<and> lower_int (char_val c) = te_codes ! (n - 43)"
    using name_move [OF Cons.prems(2), of c] Cons.prems(3) by auto
  have "te_state m \<longrightarrow> lower_name (u @ [c]) = take (m - 43) te_codes"
  proof
    assume t: "te_state m"
    then have "n - 43 < length te_codes" "m - 43 = Suc (n - 43)" using m(3) by (auto simp: te_state_def te_codes_def)
    then show "lower_name (u @ [c]) = take (m - 43) te_codes"
      using m(3) [OF t] Cons.prems(4) by (simp add: lower_name_def take_Suc_conv_app_nth)
  qed
  moreover have w: "list_all is_token w" using Cons.prems(3) by simp
  ultimately obtain s where s: "name_state s" "te_state s \<longrightarrow> lower_name ((u @ [c]) @ w) = take (s - 43) te_codes"
    "\<And>p rest q. scan rsp_machine act m p (w @ rest) q = scan rsp_machine act s (p + length w) rest q"
    using Cons.IH [OF _ m(2) w] by metis
  have "m \<noteq> 0" using m(2) by (metis no_error_state)
  then have "scan rsp_machine act n p ((c # w) @ rest) q = scan rsp_machine act s (p + length (c # w)) rest q" for p rest q
    using s(3) [of "Suc p" rest q] by (simp add: scan_silent [OF m(1)] del: scan.simps)
  then show ?case using Cons.prems(1) [OF s(1)] s(2) by (metis append.assoc append_Cons append_Nil)
qed

lemma value_scan:
  assumes "value_state n" "CR \<notin> set w" "LF \<notin> set w"
  obtains s where "value_state s" "chunked_state s \<longrightarrow> chunked_state n"
    "\<And>p rest q. scan rsp_machine act n p (w @ rest) q = scan rsp_machine act s (p + length w) rest q"
  using assms
proof (induction w arbitrary: n thesis)
  case Nil
  then show ?case by simp
next
  case (Cons c w)
  obtain m where m: "move rsp_machine n c = Some ([], m)" "value_state m" "chunked_state m \<longrightarrow> chunked_state n"
    using value_move [OF Cons.prems(2), of c] Cons.prems(3,4) by auto
  obtain s where s: "value_state s" "chunked_state s \<longrightarrow> chunked_state m"
    "\<And>p rest q. scan rsp_machine act m p (w @ rest) q = scan rsp_machine act s (p + length w) rest q"
    using Cons.IH [OF _ m(2)] Cons.prems(3,4) by (metis list.set_intros(2))
  have "m \<noteq> 0" using m(2) by (metis no_error_state)
  then have "scan rsp_machine act n p ((c # w) @ rest) q = scan rsp_machine act s (p + length (c # w)) rest q" for p rest q
    using s(3) [of "Suc p" rest q] by (simp add: scan_silent [OF m(1)] del: scan.simps)
  then show ?case using Cons.prems(1) [OF s(1)] s(2) m(3) by blast
qed

definition header_ok :: "string \<Rightarrow> string \<Rightarrow> bool" where
  "header_ok name val \<longleftrightarrow> name \<noteq> [] \<and> list_all is_token name \<and> lower_name name \<noteq> te_codes
     \<and> val \<noteq> [] \<and> \<not> is_blank (hd val) \<and> CR \<notin> set val \<and> LF \<notin> set val"

definition header_text :: "string \<Rightarrow> string \<Rightarrow> string" where
  "header_text name val = name @ '': '' @ val @ CRLF"

text \<open>What the scan of a header section leaves alone.\<close>

definition same_head :: "httpclient_parser \<Rightarrow> httpclient_parser \<Rightarrow> bool" where
  "same_head q q' \<longleftrightarrow> hp_chunked q' = hp_chunked q \<and> hp_nread q' = hp_nread q \<and> hp_body_start q' = hp_body_start q"

lemma header_scan:
  assumes "line_state n" "header_ok name val"
  obtains s q' where "line_state s" "same_head q q'"
    "\<And>rest. scan rsp_machine (rsp_act buf) n p (header_text name val @ rest) q
     = prepend [On_response_http_field (drop p buf) (length name) (drop (p + length name + 2) buf) (length val)]
        (scan rsp_machine (rsp_act buf) s (p + length (header_text name val)) rest q')"
proof -
  let ?scan = "scan rsp_machine (rsp_act buf)"
  obtain c w where name: "name = c # w" "is_token c" "list_all is_token w" using assms(2) by (cases name) (auto simp: header_ok_def)
  obtain v vs where val: "val = v # vs" "\<not> is_blank v" "CR \<notin> set vs" "LF \<notin> set vs" using assms(2) by (cases val) (auto simp: header_ok_def)
  obtain as a where a: "move rsp_machine n c = Some (as, a)" "as = [Mark_field_start] \<or> as = [Set_close, Mark_field_start]"
    "name_state a" "te_state a \<Longrightarrow> a = 44 \<and> lower_int (char_val c) = 116"
    using line_move [OF assms(1) name(2)] by metis
  have te: "te_state a \<longrightarrow> lower_name [c] = take (a - 43) te_codes" using a(4) by (auto simp: lower_name_def te_codes_def)
  obtain b where b: "name_state b" "te_state b \<longrightarrow> lower_name ([c] @ w) = take (b - 43) te_codes"
    "\<And>p rest q. ?scan a p (w @ rest) q = ?scan b (p + length w) rest q"
    using name_scan [OF a(3) name(3) te] by metis
  obtain g where g: "move rsp_machine b (CHR '':'') = Some ([Field_len], g)" "gap_state g" "g = 61 \<longrightarrow> b = 60"
    using colon_move [OF b(1)] by metis
  have not61: "g \<noteq> 61" using g(3) b(2) assms(2) name(1) by (auto simp: header_ok_def te_state_def te_codes_def)
  obtain d where d: "move rsp_machine g v = Some ([Mark], d)" "value_state d" "chunked_state d \<longrightarrow> g = 61"
    using gap_move [OF g(2) val(2)] by metis
  obtain e where e: "value_state e" "chunked_state e \<longrightarrow> chunked_state d"
    "\<And>p rest q. ?scan d p (vs @ rest) q = ?scan e (p + length vs) rest q"
    using value_scan [OF d(2) val(3,4)] by metis
  obtain as' f where f: "move rsp_machine e CR = Some (as', f)" "as' = [Http_field] \<or> as' = [Content_len, Http_field]" "f = 24 \<or> f = 88"
    using end_move [OF e(1)] e(2) d(3) not61 by metis
  obtain s where s: "move rsp_machine f LF = Some ([], s)" "line_state s" using newline_move [OF f(3)] by blast
  let ?p1 = "p + length name"
  obtain q1 where q1: "do_actions (rsp_act buf) as p q = ([], q1, None)" "same_head q q1" "hp_field_start q1 = p"
    using a(2) by (auto simp: same_head_def)
  define q2 where "q2 = q1\<lparr>hp_field_len := length name, hp_mark := Suc ?p1\<rparr>"
  define q3 where "q3 = q2\<lparr>hp_mark := ?p1 + 2\<rparr>"
  obtain q4 where q4: "do_actions (rsp_act buf) as' (?p1 + 2 + length val) q3
      = ([On_response_http_field (drop p buf) (length name) (drop (?p1 + 2) buf) (length val)], q4, None)" "same_head q3 q4"
    using f(2) q1(3) by (auto simp: same_head_def q3_def q2_def)
  have nz: "a \<noteq> 0" "g \<noteq> 0" "d \<noteq> 0" "f \<noteq> 0" "s \<noteq> 0" using a(3) g(2) d(2) f(3) s(2) by (metis no_error_state numeral_neq_zero)+
  have "?scan n p (header_text name val @ rest) q
     = prepend [On_response_http_field (drop p buf) (length name) (drop (?p1 + 2) buf) (length val)]
        (?scan s (p + length (header_text name val)) rest q4)" for rest
  proof -
    have "?scan n p (header_text name val @ rest) q = ?scan a (Suc p) (w @ '': '' @ val @ CRLF @ rest) q1"
      using scan_step [OF a(1) nz(1) q1(1)] by (simp add: header_text_def name(1) del: scan.simps)
    also have "\<dots> = ?scan b ?p1 ('': '' @ val @ CRLF @ rest) q1" using b(3) [of "Suc p"] by (simp add: name(1) del: scan.simps)
    also have "\<dots> = ?scan g (Suc ?p1) ('' '' @ val @ CRLF @ rest) (q1\<lparr>hp_field_len := length name\<rparr>)"
      using scan_step [OF g(1) nz(2), of "rsp_act buf" ?p1 q1] q1(3) by (simp del: scan.simps)
    also have "\<dots> = ?scan g (?p1 + 2) (val @ CRLF @ rest) q2"
      using scan_step [OF blank_move [OF g(2)] nz(2), of "rsp_act buf" "Suc ?p1"] by (simp add: q2_def del: scan.simps)
    also have "\<dots> = ?scan d (Suc (?p1 + 2)) (vs @ CRLF @ rest) q3"
      using scan_step [OF d(1) nz(3), of "rsp_act buf" "?p1 + 2" q2] by (simp add: val(1) q3_def del: scan.simps)
    also have "\<dots> = ?scan e (?p1 + 2 + length val) (CRLF @ rest) q3" using e(3) [of "Suc (?p1 + 2)"] by (simp add: val(1) del: scan.simps)
    also have "\<dots> = prepend [On_response_http_field (drop p buf) (length name) (drop (?p1 + 2) buf) (length val)]
        (?scan f (Suc (?p1 + 2 + length val)) ([LF] @ rest) q4)"
      using scan_step [OF f(1) nz(4) q4(1)] by (simp add: CRLF_def del: scan.simps)
    also have "?scan f (Suc (?p1 + 2 + length val)) ([LF] @ rest) q4 = ?scan s (?p1 + 2 + length val + 2) rest q4"
      using scan_silent [OF s(1) nz(5)] by (simp del: scan.simps)
    finally show ?thesis by (simp add: header_text_def CRLF_def add.assoc add.commute add.left_commute del: scan.simps)
  qed
  moreover have "same_head q q4" using q1(2) q4(2) by (simp add: same_head_def q3_def q2_def)
  ultimately show thesis using that s(2) by blast
qed

definition headers_text :: "(string \<times> string) list \<Rightarrow> string" where
  "headers_text hs = concat (map (\<lambda>(k, v). header_text k v) hs)"

fun header_events :: "string \<Rightarrow> nat \<Rightarrow> (string \<times> string) list \<Rightarrow> response_event list" where
  "header_events buf p [] = []"
| "header_events buf p ((k, v) # hs) =
     On_response_http_field (drop p buf) (length k) (drop (p + length k + 2) buf) (length v)
     # header_events buf (p + length (header_text k v)) hs"

lemma headers_scan:
  assumes "line_state n" "list_all (\<lambda>(k, v). header_ok k v) hs"
  obtains s q' where "line_state s" "same_head q q'"
    "\<And>rest. scan rsp_machine (rsp_act buf) n p (headers_text hs @ rest) q
     = prepend (header_events buf p hs) (scan rsp_machine (rsp_act buf) s (p + length (headers_text hs)) rest q')"
  using assms
proof (induction hs arbitrary: n p q thesis)
  case Nil
  then show ?case by (simp add: headers_text_def same_head_def)
next
  case (Cons h hs)
  obtain k v where h: "h = (k, v)" by fastforce
  have ok: "header_ok k v" "list_all (\<lambda>(k, v). header_ok k v) hs" using Cons.prems(3) by (simp_all add: h)
  obtain m q1 where m: "line_state m" "same_head q q1"
    "\<And>rest. scan rsp_machine (rsp_act buf) n p (header_text k v @ rest) q
     = prepend [On_response_http_field (drop p buf) (length k) (drop (p + length k + 2) buf) (length v)]
        (scan rsp_machine (rsp_act buf) m (p + length (header_text k v)) rest q1)"
    using header_scan [OF Cons.prems(2) ok(1), where q = q and p = p and buf = buf] by blast
  obtain s q' where s: "line_state s" "same_head q1 q'"
    "\<And>rest. scan rsp_machine (rsp_act buf) m (p + length (header_text k v)) (headers_text hs @ rest) q1
     = prepend (header_events buf (p + length (header_text k v)) hs)
        (scan rsp_machine (rsp_act buf) s (p + length (header_text k v) + length (headers_text hs)) rest q')"
    using Cons.IH [OF _ m(1) ok(2)] by metis
  have t: "headers_text (h # hs) = header_text k v @ headers_text hs" by (simp add: headers_text_def h)
  have "same_head q q'" using m(2) s(2) by (simp add: same_head_def)
  moreover have "scan rsp_machine (rsp_act buf) n p (headers_text (h # hs) @ rest) q
     = prepend (header_events buf p (h # hs)) (scan rsp_machine (rsp_act buf) s (p + length (headers_text (h # hs))) rest q')" for rest
    by (simp add: t m(3) s(3) add.assoc del: scan.simps) (simp add: h)
  ultimately show ?case using Cons.prems(1) [OF s(1)] by blast
qed

lemma head_end:
  assumes "line_state n"
  obtains q' where "scan rsp_machine (rsp_act buf) n p (CRLF @ rest) q
     = ([On_response_header_done (drop (p + 2) buf) (length buf - p - 2)], 120, p + 2, q')"
    "hp_chunked q' = hp_chunked q" "hp_nread q' = hp_nread q" "hp_body_start q' = p + 2"
proof -
  have rows: "find_state 20 rsp_machine = Some ([(10, 10, Tr 7), (13, 13, St 3), (33, 33, Tr 35), (67, 67, Tr 36), (84, 84, Tr 37), (99, 99, Tr 36), (116, 116, Tr 37), (124, 124, Tr 35), (126, 126, Tr 35), (42, 43, Tr 35), (35, 39, Tr 35), (48, 57, Tr 35), (94, 98, Tr 35), (100, 115, Tr 35), (117, 122, Tr 35), (65, 66, Tr 35), (68, 83, Tr 35), (85, 90, Tr 35), (45, 46, Tr 35)], St 0)"
   "find_state 43 rsp_machine = Some ([(10, 10, Tr 74), (13, 13, Tr 75), (33, 33, Tr 76), (67, 67, Tr 77), (84, 84, Tr 78), (99, 99, Tr 77), (116, 116, Tr 78), (124, 124, Tr 76), (126, 126, Tr 76), (42, 43, Tr 76), (35, 39, Tr 76), (48, 57, Tr 76), (94, 98, Tr 76), (100, 115, Tr 76), (117, 122, Tr 76), (65, 66, Tr 76), (68, 83, Tr 76), (85, 90, Tr 76), (45, 46, Tr 76)], St 0)"
    by (rule find_state_in [OF rsp_distinct(1)]; simp add: rsp_machine_def rsp_defs)+
  show thesis
    using assms that by (auto simp: line_state_def CRLF_def move_def rows rsp_fixed_rows rsp_trans char_val_ends)
qed

lemma digits_scan:
  "list_all is_digit ds \<Longrightarrow> scan rsp_machine act 17 p (ds @ rest) q = scan rsp_machine act 17 (p + length ds) rest q"
proof (induction ds arbitrary: p)
  case (Cons d ds)
  have "move rsp_machine 17 d = Some ([], 17)" using digit_move [of d] Cons.prems by (simp add: move_def rsp_fixed_rows)
  then show ?case using Cons by (simp add: scan_silent del: scan.simps)
qed simp

lemma reason_scan:
  "CR \<notin> set w \<Longrightarrow> LF \<notin> set w \<Longrightarrow> scan rsp_machine act 19 p (w @ rest) q = scan rsp_machine act 19 (p + length w) rest q"
proof (induction w arbitrary: p)
  case (Cons c w)
  have "move rsp_machine 19 c = Some ([], 19)" using char_val_neq [of c] Cons.prems by (auto simp: move_def rsp_fixed_rows)
  then show ?case using Cons by (simp add: scan_silent del: scan.simps)
qed simp

lemma version_scan:
  assumes "is_digit d"
  shows "scan rsp_machine (rsp_act buf) 1 0 (''HTTP/1.'' @ [d] @ '' '' @ rest) q
    = prepend [On_response_version buf 8] (scan rsp_machine (rsp_act buf) 16 9 rest (q\<lparr>hp_mark := 0\<rparr>))"
proof -
  have m: "move rsp_machine 1 (CHR ''H'') = Some ([Mark], 8)" "move rsp_machine 8 (CHR ''T'') = Some ([], 9)"
    "move rsp_machine 9 (CHR ''T'') = Some ([], 10)" "move rsp_machine 10 (CHR ''P'') = Some ([], 11)"
    "move rsp_machine 11 (CHR ''/'') = Some ([], 12)" "move rsp_machine 12 (CHR ''1'') = Some ([], 13)"
    "move rsp_machine 13 (CHR ''.'') = Some ([], 14)" "move rsp_machine 15 (CHR '' '') = Some ([Http_version], 16)"
    unfolding move_def rsp_fixed_rows by (simp_all add: rsp_trans char_val_def)
  have d: "move rsp_machine 14 d = Some ([], 15)" using digit_move [OF assms] by (simp add: move_def rsp_fixed_rows)
  let ?q = "q\<lparr>hp_mark := 0\<rparr>"
  have "scan rsp_machine (rsp_act buf) 1 0 (''HTTP/1.'' @ [d] @ '' '' @ rest) q
      = scan rsp_machine (rsp_act buf) 8 1 (''TTP/1.'' @ [d] @ '' '' @ rest) ?q"
    using scan_step [OF m(1), of "rsp_act buf" 0 q] by (simp del: scan.simps)
  also have "\<dots> = scan rsp_machine (rsp_act buf) 15 8 ('' '' @ rest) ?q"
    by (simp add: scan_silent [OF m(2)] scan_silent [OF m(3)] scan_silent [OF m(4)] scan_silent [OF m(5)] scan_silent [OF m(6)]
        scan_silent [OF m(7)] scan_silent [OF d] del: scan.simps) (simp add: numeral_eq_Suc del: scan.simps)
  also have "\<dots> = prepend [On_response_version buf 8] (scan rsp_machine (rsp_act buf) 16 9 rest ?q)"
    using scan_step [OF m(8), of "rsp_act buf" 8 ?q] by (simp del: scan.simps)
  finally show ?thesis .
qed

lemma status_scan:
  assumes "ds \<noteq> []" "list_all is_digit ds" "w \<noteq> []" "CR \<notin> set w" "LF \<notin> set w"
  obtains q' where "same_head q q'"
    "\<And>rest. scan rsp_machine (rsp_act buf) 16 p (ds @ '' '' @ w @ CRLF @ rest) q
    = prepend [On_response_status (drop p buf) (length ds), On_response_reason (drop (p + length ds + 1) buf) (length w)]
       (scan rsp_machine (rsp_act buf) 20 (p + length ds + length w + 3) rest q')"
proof -
  let ?scan = "scan rsp_machine (rsp_act buf)"
  obtain d ds' where d: "ds = d # ds'" "is_digit d" "list_all is_digit ds'" using assms(1,2) by (cases ds) auto
  obtain c w' where c: "w = c # w'" "c \<noteq> CR" "c \<noteq> LF" "CR \<notin> set w'" "LF \<notin> set w'" using assms(3-5) by (cases w) auto
  define q1 where "q1 = q\<lparr>hp_mark := p, hp_status := int_of_long (strtol 10 (drop p buf))\<rparr>"
  define q2 where "q2 = q1\<lparr>hp_mark := p + length ds + 1\<rparr>"
  have "?scan 16 p (ds @ '' '' @ w @ CRLF @ rest) q
    = prepend [On_response_status (drop p buf) (length ds), On_response_reason (drop (p + length ds + 1) buf) (length w)]
       (?scan 20 (p + length ds + length w + 3) rest q2)" for rest
  proof -
    have m: "move rsp_machine 16 d = Some ([Mark], 17)" "move rsp_machine 17 (CHR '' '') = Some ([Status_code], 18)"
      "move rsp_machine 18 c = Some ([Mark], 19)" "move rsp_machine 19 CR = Some ([Reason_phrase], 24)"
      "move rsp_machine 24 LF = Some ([], 20)"
      using digit_move [OF d(2)] char_val_neq [of c] c(2,3)
      by (simp_all add: move_def rsp_fixed_rows rsp_trans char_val_def [of "CHR '' ''"] char_val_ends)
    have "?scan 16 p (ds @ '' '' @ w @ CRLF @ rest) q = ?scan 17 (Suc p) (ds' @ '' '' @ w @ CRLF @ rest) (q\<lparr>hp_mark := p\<rparr>)"
      using scan_step [OF m(1), of "rsp_act buf" p q] by (simp add: d(1) del: scan.simps)
    also have "\<dots> = ?scan 17 (p + length ds) ('' '' @ w @ CRLF @ rest) (q\<lparr>hp_mark := p\<rparr>)"
      by (simp add: digits_scan [OF d(3)] d(1) del: scan.simps)
    also have "\<dots> = prepend [On_response_status (drop p buf) (length ds)] (?scan 18 (p + length ds + 1) (w @ CRLF @ rest) q1)"
      using scan_step [OF m(2), of "rsp_act buf" "p + length ds" "q\<lparr>hp_mark := p\<rparr>"] by (simp add: q1_def del: scan.simps)
    also have "?scan 18 (p + length ds + 1) (w @ CRLF @ rest) q1 = ?scan 19 (p + length ds + 2) (w' @ CRLF @ rest) q2"
      using scan_step [OF m(3), of "rsp_act buf" "p + length ds + 1" q1] by (simp add: q2_def c(1) del: scan.simps)
    also have "\<dots> = ?scan 19 (p + length ds + 1 + length w) (CRLF @ rest) q2"
      by (simp add: reason_scan [OF c(4,5)] c(1) del: scan.simps)
    also have "\<dots> = prepend [On_response_reason (drop (p + length ds + 1) buf) (length w)] (?scan 24 (p + length ds + length w + 2) ([LF] @ rest) q2)"
      using scan_step [OF m(4), of "rsp_act buf" "p + length ds + 1 + length w" q2] by (simp add: q2_def CRLF_def add.commute add.left_commute del: scan.simps)
    also have "?scan 24 (p + length ds + length w + 2) ([LF] @ rest) q2 = ?scan 20 (p + length ds + length w + 3) rest q2"
      using scan_silent [OF m(5)] by (simp del: scan.simps add: numeral_3_eq_3)
    finally show ?thesis by (simp del: scan.simps)
  qed
  moreover have "same_head q q2" by (simp add: same_head_def q2_def q1_def)
  ultimately show thesis using that by blast
qed

section \<open>Whole heads\<close>

definition response_head :: "char \<Rightarrow> nat \<Rightarrow> string \<Rightarrow> (string \<times> string) list \<Rightarrow> string" where
  "response_head d status reason hs =
     ''HTTP/1.'' @ [d] @ '' '' @ show_nat status @ '' '' @ reason @ CRLF @ headers_text hs @ CRLF"

lemma digits_value_show: "digits_value acc (show_base 10 n @ rest) = digits_value (acc * 10 ^ length (show_base 10 n) + int n) rest"
proof (induction "10 :: nat" n arbitrary: rest rule: show_base.induct)
  case (1 n)
  show ?case
  proof (cases "n < 10")
    case True
    then show ?thesis by (simp add: show_base.simps [of 10 n] digit_char_digit)
  next
    case False
    have "digits_value acc (show_base 10 n @ rest) = digits_value acc (show_base 10 (n div 10) @ digit_char (n mod 10) # rest)"
      using False by (simp add: show_base.simps [of 10 n])
    also have "\<dots> = digits_value (acc * 10 ^ length (show_base 10 (n div 10)) + int (n div 10)) (digit_char (n mod 10) # rest)"
      using 1 False by simp
    also have "\<dots> = digits_value ((acc * 10 ^ length (show_base 10 (n div 10)) + int (n div 10)) * 10 + int (n mod 10)) rest"
      by (simp add: digit_char_digit)
    also have "(acc * 10 ^ length (show_base 10 (n div 10)) + int (n div 10)) * 10 + int (n mod 10)
        = acc * 10 ^ length (show_base 10 n) + int n"
    proof -
      have "int (n div 10) * 10 + int (n mod 10) = int n" by (metis of_nat_add of_nat_mult of_nat_numeral div_mult_mod_eq)
      moreover have "length (show_base 10 n) = Suc (length (show_base 10 (n div 10)))" using False by (simp add: show_base.simps [of 10 n])
      ultimately show ?thesis by (simp add: algebra_simps)
    qed
    finally show ?thesis .
  qed
qed

lemma digit_facts: "is_digit c \<Longrightarrow> \<not> is_space c \<and> c \<noteq> CHR ''-'' \<and> c \<noteq> CHR ''+'' \<and> c \<noteq> NUL \<and> c \<noteq> CR \<and> c \<noteq> LF"
  by (auto simp: is_digit_def is_space_def special_chars)

lemma atoi_show: "\<not> is_digit c \<Longrightarrow> c \<noteq> NUL \<Longrightarrow> atoi (show_nat n @ c # rest) = int n"
proof -
  assume c: "\<not> is_digit c" "c \<noteq> NUL"
  obtain d ds where d: "show_nat n = d # ds" "is_digit d" using show_nat_digits [of n] by (cases "show_nat n") auto
  have "NUL \<notin> set (show_nat n)" using show_nat_digits(1) [of n] digit_facts unfolding list_all_iff by blast
  then have "c_str (show_nat n @ c # rest) = show_nat n @ c # c_str rest" 
    using c unfolding c_str_def by (subst takeWhile_append2) auto
  moreover have "digits_value 0 (show_nat n @ c # x) = int n" for x
    using c digits_value_show [of 0 n "c # x"] by (simp add: show_nat_def)
  ultimately show "atoi (show_nat n @ c # rest) = int n"
    using digit_facts [OF d(2)] by (simp add: atoi_def d(1))
qed

definition put_headers :: "(string \<times> string) list \<Rightarrow> http_response \<Rightarrow> http_response" where
  "put_headers hs r = fold (\<lambda>(k, v). rs_setHeaderEntry k v) hs r"

lemma header_callbacks:
  fixes P :: "'p response_parser"
  shows "list_all (\<lambda>(k, v). header_ok k v) hs \<Longrightarrow>
   fold response_callback (header_events (pre @ headers_text hs @ rest) (length pre) hs) P
     = P\<lparr>sp_data := put_headers hs (sp_data P)\<rparr>"
proof (induction hs arbitrary: pre P)
  case (Cons h hs)
  obtain k v where h: "h = (k, v)" by fastforce
  have ok: "k \<noteq> []" "list_all (\<lambda>(k, v). header_ok k v) hs" using Cons.prems by (auto simp: h header_ok_def)
  have "fold response_callback (header_events ((pre @ header_text k v) @ headers_text hs @ rest) (length (pre @ header_text k v)) hs) Q
      = Q\<lparr>sp_data := put_headers hs (sp_data Q)\<rparr>" for Q :: "'p response_parser"
    by (rule Cons.IH [OF ok(2)])
  then show ?case using ok(1)
    by (simp add: h headers_text_def header_text_def on_response_http_field_def put_headers_def)
qed (simp add: headers_text_def put_headers_def)

lemma head_scan:
  assumes "is_digit d" "reason \<noteq> []" "CR \<notin> set reason" "LF \<notin> set reason" "list_all (\<lambda>(k, v). header_ok k v) hs"
    and buf: "buf = response_head d status reason hs @ rest"
  obtains es q' where
    "scan rsp_machine (rsp_act buf) 1 0 buf q = (es, 120, length (response_head d status reason hs), q')"
    "es = [On_response_version buf 8, On_response_status (drop 9 buf) (length (show_nat status)),
       On_response_reason (drop (10 + length (show_nat status)) buf) (length reason)]
       @ header_events buf (12 + length (show_nat status) + length reason) hs
       @ [On_response_header_done rest (length rest)]"
    "hp_chunked q' = hp_chunked q" "hp_nread q' = hp_nread q" "hp_body_start q' = length (response_head d status reason hs)"
proof -
  let ?scan = "scan rsp_machine (rsp_act buf)" and ?n = "length (show_nat status)"
  let ?p = "12 + ?n + length reason"
  let ?tail = "headers_text hs @ CRLF @ rest"
  have b: "buf = ''HTTP/1.'' @ [d] @ '' '' @ show_nat status @ '' '' @ reason @ CRLF @ ?tail"
    by (simp add: buf response_head_def)
  obtain q1 where q1: "same_head (q\<lparr>hp_mark := 0\<rparr>) q1"
    "\<And>rest. ?scan 16 9 (show_nat status @ '' '' @ reason @ CRLF @ rest) (q\<lparr>hp_mark := 0\<rparr>)
    = prepend [On_response_status (drop 9 buf) ?n, On_response_reason (drop (9 + ?n + 1) buf) (length reason)]
       (?scan 20 (9 + ?n + length reason + 3) rest q1)"
    using status_scan [OF show_nat_digits(2,1) assms(2-4), where q = "q\<lparr>hp_mark := 0\<rparr>" and p = 9 and buf = buf] by blast
  have l20: "line_state 20" by (simp add: line_state_def)
  obtain s q2 where q2: "line_state s" "same_head q1 q2" "\<And>rest. ?scan 20 ?p (headers_text hs @ rest) q1
     = prepend (header_events buf ?p hs) (?scan s (?p + length (headers_text hs)) rest q2)"
    using headers_scan [OF l20 assms(5), where q = q1 and p = ?p and buf = buf] by blast
  let ?e = "?p + length (headers_text hs)"
  obtain q3 where q3: "?scan s ?e (CRLF @ rest) q2 = ([On_response_header_done (drop (?e + 2) buf) (length buf - ?e - 2)], 120, ?e + 2, q3)"
      "hp_chunked q3 = hp_chunked q2" "hp_nread q3 = hp_nread q2" "hp_body_start q3 = ?e + 2"
    using head_end [OF q2(1), where q = q2 and p = ?e and buf = buf and rest = rest] by blast
  have e: "?e + 2 = length (response_head d status reason hs)" by (simp add: response_head_def CRLF_def)
  then have ends: "drop (?e + 2) buf = rest" "length buf - ?e - 2 = length rest" using buf by auto
  have start: "?scan 1 0 buf q = prepend [On_response_version buf 8] (?scan 16 9 (show_nat status @ '' '' @ reason @ CRLF @ ?tail) (q\<lparr>hp_mark := 0\<rparr>))"
    using version_scan [OF assms(1), of buf "show_nat status @ '' '' @ reason @ CRLF @ ?tail" q] unfolding b [symmetric] .
  have pos: "9 + ?n + length reason + 3 = ?p" "9 + ?n + 1 = 10 + ?n" by simp_all
  have "?scan 1 0 buf q = ([On_response_version buf 8, On_response_status (drop 9 buf) ?n, On_response_reason (drop (10 + ?n) buf) (length reason)]
       @ header_events buf ?p hs @ [On_response_header_done rest (length rest)], 120, ?e + 2, q3)"
    unfolding start q1(2) pos q2(3) q3(1) ends by (simp del: add_2_eq_Suc')
  moreover have "hp_chunked q3 = hp_chunked q" "hp_nread q3 = hp_nread q" using q3(2,3) q2(2) q1(1) by (simp_all add: same_head_def)
  ultimately show thesis using that e q3(4) by metis
qed

lemma read_version_text:
  "d = CHR ''0'' \<or> d = CHR ''1'' \<Longrightarrow> read_version (''HTTP/1.'' @ [d] @ '' '' @ x) 8 = Some (if d = CHR ''1'' then 0x11 else 0x10)"
  by (auto simp: read_version_def strncmp_eq_def c_str_def special_chars)

lemma head_callbacks:
  fixes P :: "'p response_parser"
  assumes "d = CHR ''0'' \<or> d = CHR ''1''" "reason \<noteq> []" "CR \<notin> set reason" "LF \<notin> set reason" "list_all (\<lambda>(k, v). header_ok k v) hs"
    and buf: "buf = response_head d status reason hs @ rest"
  shows "fold response_callback ([On_response_version buf 8, On_response_status (drop 9 buf) (length (show_nat status)),
       On_response_reason (drop (10 + length (show_nat status)) buf) (length reason)]
       @ header_events buf (12 + length (show_nat status) + length reason) hs
       @ [On_response_header_done rest (length rest)]) P
    = P\<lparr>sp_data := put_headers hs ((sp_data P)\<lparr>rs_version := (if d = CHR ''1'' then 0x11 else 0x10), rs_status := status, rs_reason := reason\<rparr>)\<rparr>"
proof -
  let ?pre = "''HTTP/1.'' @ [d] @ '' '' @ show_nat status @ '' '' @ reason @ CRLF"
  have b: "buf = ?pre @ headers_text hs @ (CRLF @ rest)" "12 + length (show_nat status) + length reason = length ?pre"
    by (simp_all add: buf response_head_def CRLF_def)
  have h: "fold response_callback (header_events buf (12 + length (show_nat status) + length reason) hs) Q
      = Q\<lparr>sp_data := put_headers hs (sp_data Q)\<rparr>" for Q :: "'p response_parser"
    unfolding b by (rule header_callbacks [OF assms(5)])
  have "read_version buf 8 = Some (if d = CHR ''1'' then 0x11 else 0x10)"
    using read_version_text [OF assms(1), of "show_nat status @ '' '' @ reason @ CRLF @ headers_text hs @ (CRLF @ rest)"]
    unfolding b(1) append_assoc .
  moreover have "atoi (drop 9 buf) = int status" using atoi_show [of "CHR '' ''"] by (simp add: b(1) is_digit_def special_chars)
  moreover have "take (length reason) (drop (10 + length (show_nat status)) buf) = reason"
  proof -
    let ?a = "''HTTP/1.'' @ [d] @ '' '' @ show_nat status @ '' ''"
    have "buf = ?a @ reason @ CRLF @ headers_text hs @ CRLF @ rest" "10 + length (show_nat status) = length ?a" by (simp_all add: b(1))
    then show ?thesis by (simp only: append_eq_conv_conj drop_append take_append) simp
  qed
  ultimately show ?thesis
    by (simp add: h on_response_version_def on_response_status_def on_response_reason_def)
qed

lemma head_execute:
  assumes "d = CHR ''0'' \<or> d = CHR ''1''" "reason \<noteq> []" "CR \<notin> set reason" "LF \<notin> set reason" "list_all (\<lambda>(k, v). header_ok k v) hs"
    and q: "hp_cs q = 1" "hp_body_start q = 0"
    and small: "length (response_head d status reason hs @ rest) < 2 ^ 31"
  obtains es q' where "scan_response q (response_head d status reason hs @ rest) = Inr (es, q', int (length (response_head d status reason hs)))"
    "hp_cs q' = 120" "hp_chunked q' = hp_chunked q"
    "\<And>P :: 'p response_parser. fold response_callback es P
      = P\<lparr>sp_data := put_headers hs ((sp_data P)\<lparr>rs_version := (if d = CHR ''1'' then 0x11 else 0x10), rs_status := status, rs_reason := reason\<rparr>)\<rparr>"
proof -
  let ?buf = "response_head d status reason hs @ rest"
  let ?q = "q\<lparr>hp_nread := 0, hp_mark := 0, hp_field_len := 0, hp_field_start := 0\<rparr>"
  have d: "is_digit d" using assms(1) by (auto simp: is_digit_def)
  obtain es q' where s: "scan rsp_machine (rsp_act ?buf) 1 0 ?buf ?q = (es, 120, length (response_head d status reason hs), q')"
    and es: "es = [On_response_version ?buf 8, On_response_status (drop 9 ?buf) (length (show_nat status)),
       On_response_reason (drop (10 + length (show_nat status)) ?buf) (length reason)]
       @ header_events ?buf (12 + length (show_nat status) + length reason) hs @ [On_response_header_done rest (length rest)]"
    and ch: "hp_chunked q' = hp_chunked ?q"
    using head_scan [OF d assms(2-5) refl, where q = ?q] by metis
  have "?buf \<noteq> []" by (simp add: response_head_def)
  then have ex: "scan_response q ?buf
      = Inr (es, q'\<lparr>hp_cs := 120, hp_nread := length (response_head d status reason hs)\<rparr>, int (length (response_head d status reason hs)))"
    by (rule execute_frame [OF _ small]) (use q s in simp_all)
  have fold: "fold response_callback es P
      = P\<lparr>sp_data := put_headers hs ((sp_data P)\<lparr>rs_version := (if d = CHR ''1'' then 0x11 else 0x10), rs_status := status, rs_reason := reason\<rparr>)\<rparr>"
    for P :: "'p response_parser" unfolding es by (rule head_callbacks [OF assms(1-5) refl])
  show thesis by (rule that [OF ex _ _ fold]) (simp_all add: ch)
qed

section \<open>Chunk size lines\<close>

definition hex_value :: "string \<Rightarrow> nat" where
  "hex_value ds = digits_val 16 0 ds"

definition is_xdigit :: "char \<Rightarrow> bool" where
  "is_xdigit c \<longleftrightarrow> xdigit_val c \<noteq> None"

lemma xdigit_range:
  assumes "is_xdigit c"
  shows "48 \<le> char_val c \<and> char_val c \<le> 57 \<or> 65 \<le> char_val c \<and> char_val c \<le> 70 \<or> 97 \<le> char_val c \<and> char_val c \<le> 102"
  using assms unfolding is_xdigit_def xdigit_val_def char_val_def Let_def of_char_int by (auto split: if_splits)

lemma xdigit_less: "xdigit_val c = Some d \<Longrightarrow> d < 16"
  by (auto simp: xdigit_val_def Let_def split: if_splits)

lemma xdigit_facts:
  assumes "is_xdigit c"
  shows "\<not> is_space c" "c \<noteq> CHR ''-''" "c \<noteq> CHR ''+''" "c \<noteq> NUL" "c \<noteq> CHR ''x''" "c \<noteq> CHR ''X''"
  using assms by (auto simp: is_xdigit_def xdigit_val_def is_space_def special_chars Let_def split: if_splits)

lemma digits_val_stop: "list_all is_xdigit ds \<Longrightarrow> \<not> is_xdigit c \<Longrightarrow> digits_val 16 acc (ds @ c # rest) = digits_val 16 acc ds"
  by (induction ds arbitrary: acc) (auto simp: is_xdigit_def xdigit_less split: option.splits)

lemma CR_facts: "\<not> is_xdigit CR" "CR \<noteq> CHR ''x''" "CR \<noteq> CHR ''X''" "CR \<noteq> NUL"
  by (simp_all add: is_xdigit_def xdigit_val_def special_chars)

lemma strtol_hex:
  assumes "ds \<noteq> []" "list_all is_xdigit ds" "hex_value ds < 2 ^ 31"
  shows "strtol 16 (ds @ CRLF @ rest) = int (hex_value ds)"
proof -
  obtain d ds' where d: "ds = d # ds'" "is_xdigit d" "list_all is_xdigit ds'" using assms(1,2) by (cases ds) auto
  have "NUL \<notin> set ds" using assms(2) xdigit_facts(4) unfolding list_all_iff by blast
  then have c: "c_str (ds @ CRLF @ rest) = ds @ CR # c_str (LF # rest)"
    using CR_facts(4) unfolding c_str_def CRLF_def by (subst takeWhile_append2) auto
  have "\<not> hex_prefix (ds @ CR # x)" for x
    using d xdigit_facts(5,6) CR_facts by (cases ds') (auto simp: hex_prefix_def split: list.splits)
  moreover have "digits_val 16 0 (ds @ CR # x) = hex_value ds" for x
    using digits_val_stop [OF assms(2) CR_facts(1)] by (simp add: hex_value_def)
  ultimately show ?thesis
    using xdigit_facts [OF d(2)] assms(3) unfolding strtol_def c by (simp add: d(1) strtol_clamp_def Let_def)
qed

lemma chunk_digits_scan:
  "list_all is_xdigit ds \<Longrightarrow> scan rsp_machine act 2 p (ds @ rest) q = scan rsp_machine act 2 (p + length ds) rest q"
proof (induction ds arbitrary: p)
  case (Cons d ds)
  have "move rsp_machine 2 d = Some ([], 2)" using xdigit_range [of d] Cons.prems by (auto simp: move_def rsp_fixed_rows)
  then show ?case using Cons by (simp add: scan_silent del: scan.simps)
qed simp

lemma chunk_line_execute:
  assumes "ds \<noteq> []" "list_all is_xdigit ds" "hex_value ds < 2 ^ 31" "hp_cs q = 1" "hp_body_start q = 0"
    and small: "length (ds @ CRLF @ rest) < 2 ^ 31"
  obtains es q' where "scan_response q (ds @ CRLF @ rest) = Inr (es, q', int (length ds + 2))" "hp_cs q' = 120"
    "hp_content_len q' = int (hex_value ds)" "hp_chunks_done q' = (if hex_value ds = 0 then 1 else 0)" "hp_chunked q' = 1"
    "\<And>P :: 'p response_parser. fold response_callback es P = P"
proof -
  let ?buf = "ds @ CRLF @ rest" and ?q = "q\<lparr>hp_nread := 0, hp_mark := 0, hp_field_len := 0, hp_field_start := 0\<rparr>"
  let ?scan = "scan rsp_machine (rsp_act ?buf)"
  obtain d ds' where d: "ds = d # ds'" "is_xdigit d" "list_all is_xdigit ds'" using assms(1,2) by (cases ds) auto
  define v where "v = int (hex_value ds)"
  have v: "int_of_long (strtol 16 ?buf) = v" using strtol_hex [OF assms(1-3)] assms(3) by (simp add: v_def int_of_long_small)
  define q1 where "q1 = ?q\<lparr>hp_chunked := 1, hp_content_len := v, hp_chunks_done := (if v \<le> 0 then 1 else 0)\<rparr>"
  define e where "e = (if v \<le> 0 then On_response_last_chunk ?buf (length ds) else On_response_chunk ?buf (length ds))"
  have m: "move rsp_machine 1 d = Some ([Mark], 2)" "move rsp_machine 2 CR = Some ([Chunk_size], 3)"
    "move rsp_machine 3 LF = Some ([Header_done 120], 120)"
    unfolding move_def rsp_fixed_rows using xdigit_range [OF d(2)] by (auto simp: rsp_trans char_val_ends)
  have "?scan 1 0 ?buf ?q = ?scan 2 1 (ds' @ CRLF @ rest) ?q"
    using scan_step [OF m(1), of "rsp_act ?buf" 0 ?q "[]" "?q" "ds' @ CRLF @ rest"] by (simp add: d(1) del: scan.simps)
  also have "\<dots> = ?scan 2 (length ds) (CR # LF # rest) ?q" by (simp add: chunk_digits_scan [OF d(3)] d(1) CRLF_def del: scan.simps)
  also have "\<dots> = prepend [e] (?scan 3 (length ds + 1) (LF # rest) q1)"
    using scan_step [OF m(2), of "rsp_act ?buf" "length ds" ?q "[e]" q1 "LF # rest"] v by (simp add: q1_def e_def Let_def del: scan.simps)
  also have "\<dots> = ([e, On_response_header_done rest (length rest)], 120, length ds + 2, q1\<lparr>hp_body_start := length ds + 2\<rparr>)"
    using m(3) by (simp add: CRLF_def)
  finally have s: "?scan 1 0 ?buf ?q = ([e, On_response_header_done rest (length rest)], 120, length ds + 2, q1\<lparr>hp_body_start := length ds + 2\<rparr>)" .
  then have "scan_response q ?buf = Inr ([e, On_response_header_done rest (length rest)], q1\<lparr>hp_body_start := length ds + 2, hp_cs := 120, hp_nread := length ds + 2\<rparr>, int (length ds + 2))"
    using execute_frame [OF _ small, of q] assms(1,4,5) by simp
  then show thesis by (rule that) (simp_all add: q1_def v_def e_def)
qed

end
