(* ===== verification/RequestScanner.thy ===== *)
theory RequestScanner
  imports Ragel HttpParser
begin

text \<open>
  The generated scanner of HTTP requests (\<^verbatim>\<open>qslary/http/http_request_parser.h\<close>,
  \<^verbatim>\<open>http_request_parser.cc\<close>), state by state.  The buffer passed to
  \<^verbatim>\<open>http_parser_execute\<close> is the list of its characters, shorter than 2^31, scanned from its
  start; the callbacks are all set, as \<^verbatim>\<open>HttpRequestParser\<close> does.  Some states widen the
  characters \<open>^\<close>, \<open>{\<close> and \<open>}\<close> before they test them, by 256 and, when
  \<^verbatim>\<open>uri_relaxed\<close> is set, by 256 more.  Neither \<^verbatim>\<open>uri_relaxed\<close> nor the mark of the query is
  initialised; the mark of the query is not reset either, and when it lies past the end of
  a query the length of the query wraps around, which \<open>hq_fail\<close> records: the callback then
  makes a string of that length, which throws.
\<close>

section \<open>Definitions\<close>

(* http/http_request_parser.h 14-36: http_parser *)
record http_parser =
  hq_cs :: nat
  hq_body_start :: nat
  hq_content_len :: int
  hq_nread :: nat
  hq_mark :: nat
  hq_field_start :: nat
  hq_field_len :: nat
  hq_query_start :: nat
  hq_xml_sent :: int
  hq_json_sent :: int
  hq_uri_relaxed :: int
  hq_fail :: bool

datatype req_action =
    Req_mark
  | Req_mark_field
  | Req_mark_query
  | Req_field_len
  | Req_field
  | Req_method
  | Req_uri
  | Req_fragment
  | Req_path
  | Req_query
  | Req_version
  | Req_xml
  | Req_json
  | Req_done nat

text \<open>
  A row that tests a widened character: the listed characters are looked up at their
  widened value, all others as they are.
\<close>

definition wide :: "bool \<Rightarrow> int list \<Rightarrow> (int \<times> int \<times> jump) list \<Rightarrow> jump \<Rightarrow> (int \<times> int \<times> jump) list" where
  "wide relaxed cs ts j = map (\<lambda>v. (v, v, select (128 + (v - - 128) + (if relaxed then 256 else 0)) ts j)) cs @ ts"

(* http/http_request_parser.cc 113-240: http_parser_execute, states *)
definition req_items1 :: "bool \<Rightarrow> req_action item list" where
  "req_items1 relaxed =
    [State 1 [(60, 60, Tr 2), (64, 64, Tr 3), (65, 90, Tr 0), (48, 57, Tr 0)] (St 0),
     Trans 0 [Req_mark] 2,
     State 2 [(32, 32, Tr 4), (65, 90, St 175), (48, 57, St 175)] (St 0),
     Trans 4 [Req_method] 3,
     State 3 (wide relaxed [94, 123, 125] [(32, 32, Tr 6), (33, 33, Tr 7), (35, 35, Tr 8), (37, 37, Tr 9), (47, 47, Tr 10), (59, 59, Tr 7), (61, 61, Tr 7), (63, 63, Tr 11), (64, 64, Tr 7), (95, 95, Tr 7), (126, 126, Tr 7), (606, 606, Tr 7), (635, 635, Tr 7), (637, 637, Tr 7), (36, 36, Tr 7), (38, 46, Tr 7), (48, 57, Tr 7), (97, 122, Tr 12), (65, 90, Tr 12)] (St 0)) (St 0)]"

(* http/http_request_parser.cc 241-378: http_parser_execute, states *)
definition req_items2 :: "req_action item list" where
  "req_items2 =
    [Trans 6 [Req_mark, Req_path, Req_uri] 4,
     Trans 37 [Req_path, Req_uri] 4,
     Trans 44 [Req_mark, Req_fragment] 4,
     Trans 47 [Req_fragment] 4,
     Trans 54 [Req_mark_query, Req_query, Req_uri] 4,
     Trans 58 [Req_query, Req_uri] 4,
     State 4 [(72, 72, Tr 13)] (St 0),
     Trans 13 [Req_mark] 5,
     State 5 [(84, 84, St 6)] (St 0),
     State 6 [(84, 84, St 7)] (St 0),
     State 7 [(80, 80, St 8)] (St 0),
     State 8 [(47, 47, St 9)] (St 0),
     State 9 [(49, 49, St 10)] (St 0),
     State 10 [(46, 46, St 11)] (St 0)]"

(* http/http_request_parser.cc 379-546: http_parser_execute, states *)
definition req_items3 :: "req_action item list" where
  "req_items3 =
    [State 11 [(48, 49, St 12)] (St 0),
     State 12 [(10, 10, Tr 21), (13, 13, Tr 22)] (St 0),
     Trans 21 [Req_version] 13,
     Trans 30 [Req_mark, Req_field] 13,
     Trans 33 [Req_field] 13,
     State 13 [(10, 10, Tr 24), (13, 13, Tr 25), (33, 33, Tr 23), (124, 124, Tr 23), (126, 126, Tr 23), (1, 8, Tr 23), (35, 39, Tr 23), (11, 12, Tr 23), (14, 31, Tr 23), (45, 46, Tr 23), (94, 122, Tr 23), (65, 90, Tr 23), (48, 57, Tr 23), (42, 43, Tr 23)] (St 0),
     Trans 23 [Req_mark_field] 14,
     State 14 [(33, 33, St 14), (58, 58, Tr 27), (124, 124, St 14), (126, 126, St 14), (1, 8, St 14), (35, 39, St 14), (10, 31, St 14), (45, 46, St 14), (94, 122, St 14), (65, 90, St 14), (48, 57, St 14), (42, 43, St 14)] (St 0)]"

(* http/http_request_parser.cc 547-672: http_parser_execute, states *)
definition req_items4 :: "req_action item list" where
  "req_items4 =
    [Trans 27 [Req_field_len] 15,
     Trans 29 [Req_mark] 15,
     State 15 [(0, 0, St 0), (9, 9, Tr 29), (10, 10, Tr 30), (13, 13, Tr 31), (32, 32, Tr 29), (127, 127, St 0)] (Tr 28),
     Trans 28 [Req_mark] 16,
     State 16 [(0, 0, St 0), (10, 10, Tr 33), (13, 13, Tr 34), (127, 127, St 0)] (St 16),
     Trans 22 [Req_version] 17,
     Trans 31 [Req_mark, Req_field] 17,
     Trans 34 [Req_field] 17,
     State 17 [(10, 10, St 13)] (St 0),
     Trans 24 [Req_mark_field, Req_done 348] 348]"

(* http/http_request_parser.cc 673-813: http_parser_execute, states *)
definition req_items5 :: "req_action item list" where
  "req_items5 =
    [Trans 36 [Req_done 348] 348,
     State 348 [(33, 33, St 14), (58, 58, Tr 27), (124, 124, St 14), (126, 126, St 14), (1, 8, St 14), (35, 39, St 14), (10, 31, St 14), (45, 46, St 14), (94, 122, St 14), (65, 90, St 14), (48, 57, St 14), (42, 43, St 14)] (St 0),
     Trans 25 [Req_mark_field] 18,
     State 18 [(10, 10, Tr 36), (33, 33, St 14), (58, 58, Tr 27), (124, 124, St 14), (126, 126, St 14), (1, 8, St 14), (35, 39, St 14), (11, 31, St 14), (45, 46, St 14), (94, 122, St 14), (65, 90, St 14), (48, 57, St 14), (42, 43, St 14)] (St 0)]"

(* http/http_request_parser.cc 814-946: http_parser_execute, states *)
definition req_items6 :: "bool \<Rightarrow> req_action item list" where
  "req_items6 relaxed =
    [Trans 7 [Req_mark] 19,
     State 19 (wide relaxed [94, 123, 125] [(32, 32, Tr 37), (33, 33, St 19), (35, 35, Tr 39), (37, 37, St 24), (47, 47, St 26), (59, 59, St 19), (61, 61, St 19), (63, 63, Tr 42), (95, 95, St 19), (126, 126, St 19), (606, 606, St 19), (635, 635, St 19), (637, 637, St 19), (36, 36, St 19), (38, 46, St 19), (48, 57, St 19), (97, 122, St 19), (64, 90, St 19)] (St 0)) (St 0),
     Trans 8 [Req_mark, Req_path, Req_uri] 20,
     Trans 39 [Req_path, Req_uri] 20,
     Trans 55 [Req_mark_query, Req_query, Req_uri] 20]"

(* http/http_request_parser.cc 947-1116: http_parser_execute, states *)
definition req_items7 :: "bool \<Rightarrow> req_action item list" where
  "req_items7 relaxed =
    [Trans 59 [Req_query, Req_uri] 20,
     State 20 (wide relaxed [94, 123, 125] [(32, 32, Tr 44), (33, 33, Tr 43), (37, 37, Tr 45), (61, 61, Tr 43), (95, 95, Tr 43), (126, 126, Tr 43), (606, 606, Tr 43), (635, 635, Tr 43), (637, 637, Tr 43), (-128, -1, Tr 43), (97, 122, Tr 43), (63, 90, Tr 43), (36, 36, Tr 43), (38, 59, Tr 43)] (St 0)) (St 0),
     Trans 43 [Req_mark] 21,
     State 21 (wide relaxed [94, 123, 125] [(32, 32, Tr 47), (33, 33, St 21), (37, 37, St 22), (61, 61, St 21), (95, 95, St 21), (126, 126, St 21), (606, 606, St 21), (635, 635, St 21), (637, 637, St 21), (-128, -1, St 21), (97, 122, St 21), (63, 90, St 21), (36, 36, St 21), (38, 59, St 21)] (St 0)) (St 0)]"

(* http/http_request_parser.cc 1117-1283: http_parser_execute, states *)
definition req_items8 :: "bool \<Rightarrow> req_action item list" where
  "req_items8 relaxed =
    [Trans 45 [Req_mark] 22,
     State 22 [(48, 57, St 23), (97, 102, St 23), (65, 70, St 23)] (St 0),
     State 23 [(48, 57, St 21), (97, 102, St 21), (65, 70, St 21)] (St 0),
     Trans 9 [Req_mark] 24,
     State 24 [(48, 57, St 25), (97, 102, St 25), (65, 70, St 25)] (St 0),
     State 25 [(48, 57, St 19), (97, 102, St 19), (65, 70, St 19)] (St 0),
     Trans 203 [Req_mark] 26,
     State 26 (wide relaxed [94, 123, 125] [(32, 32, Tr 37), (33, 33, St 26), (35, 35, Tr 39), (37, 37, St 27), (61, 61, St 26), (63, 63, Tr 42), (95, 95, St 26), (126, 126, St 26), (606, 606, St 26), (635, 635, St 26), (637, 637, St 26), (-128, -1, St 26), (97, 122, St 26), (64, 90, St 26), (36, 36, St 26), (38, 59, St 26)] (St 0)) (St 0)]"

(* http/http_request_parser.cc 1284-1420: http_parser_execute, states *)
definition req_items9 :: "bool \<Rightarrow> req_action item list" where
  "req_items9 relaxed =
    [Trans 204 [Req_mark] 27,
     State 27 [(48, 57, St 28), (97, 102, St 28), (65, 70, St 28)] (St 0),
     State 28 [(48, 57, St 26), (97, 102, St 26), (65, 70, St 26)] (St 0),
     Trans 11 [Req_mark, Req_path] 29,
     Trans 42 [Req_path] 29,
     State 29 (wide relaxed [94, 123, 125] [(32, 32, Tr 54), (33, 33, Tr 53), (35, 35, Tr 55), (37, 37, Tr 56), (61, 61, Tr 53), (95, 95, Tr 53), (126, 126, Tr 53), (606, 606, Tr 53), (635, 635, Tr 53), (637, 637, Tr 53), (-128, -1, Tr 53), (97, 122, Tr 53), (63, 90, Tr 53), (36, 36, Tr 53), (38, 59, Tr 53)] (St 0)) (St 0)]"

(* http/http_request_parser.cc 1421-1631: http_parser_execute, states *)
definition req_items10 :: "bool \<Rightarrow> req_action item list" where
  "req_items10 relaxed =
    [Trans 53 [Req_mark_query] 30,
     State 30 (wide relaxed [94, 123, 125] [(32, 32, Tr 58), (33, 33, St 30), (35, 35, Tr 59), (37, 37, St 31), (61, 61, St 30), (95, 95, St 30), (126, 126, St 30), (606, 606, St 30), (635, 635, St 30), (637, 637, St 30), (-128, -1, St 30), (97, 122, St 30), (63, 90, St 30), (36, 36, St 30), (38, 59, St 30)] (St 0)) (St 0),
     Trans 56 [Req_mark_query] 31,
     State 31 [(48, 57, St 32), (97, 102, St 32), (65, 70, St 32)] (St 0),
     State 32 [(48, 57, St 30), (97, 102, St 30), (65, 70, St 30)] (St 0),
     Trans 10 [Req_mark] 33,
     State 33 (wide relaxed [94, 123, 125] [(32, 32, Tr 37), (33, 33, St 26), (35, 35, Tr 39), (37, 37, St 27), (47, 47, St 34), (61, 61, St 26), (63, 63, Tr 42), (95, 95, St 26), (126, 126, St 26), (606, 606, St 26), (635, 635, St 26), (637, 637, St 26), (-128, -1, St 26), (97, 122, St 26), (64, 90, St 26), (36, 36, St 26), (38, 46, St 26), (48, 59, St 26)] (St 0)) (St 0)]"

(* http/http_request_parser.cc 1632-1791: http_parser_execute, states *)
definition req_items11 :: "bool \<Rightarrow> req_action item list" where
  "req_items11 relaxed =
    [State 34 (wide relaxed [94, 123, 125] [(32, 32, Tr 37), (33, 33, St 35), (35, 35, Tr 39), (37, 37, St 36), (47, 47, St 26), (58, 58, St 38), (61, 61, St 35), (63, 63, Tr 42), (64, 64, St 42), (91, 91, St 47), (95, 95, St 35), (126, 126, St 35), (606, 606, St 35), (635, 635, St 35), (637, 637, St 35), (36, 36, St 35), (38, 46, St 35), (48, 57, St 35), (59, 59, St 35), (97, 122, St 35), (65, 90, St 35)] (St 0)) (St 0),
     State 35 (wide relaxed [94, 123, 125] [(32, 32, Tr 37), (33, 33, St 35), (35, 35, Tr 39), (37, 37, St 36), (47, 47, St 26), (58, 58, St 38), (61, 61, St 35), (63, 63, Tr 42), (64, 64, St 42), (95, 95, St 35), (126, 126, St 35), (606, 606, St 35), (635, 635, St 35), (637, 637, St 35), (36, 36, St 35), (38, 46, St 35), (48, 57, St 35), (59, 59, St 35), (97, 122, St 35), (65, 90, St 35)] (St 0)) (St 0)]"

(* http/http_request_parser.cc 1792-1986: http_parser_execute, states *)
definition req_items12 :: "bool \<Rightarrow> req_action item list" where
  "req_items12 relaxed =
    [State 36 [(48, 57, St 37), (97, 102, St 37), (65, 70, St 37)] (St 0),
     State 37 [(48, 57, St 35), (97, 102, St 35), (65, 70, St 35)] (St 0),
     State 38 (wide relaxed [94, 123, 125] [(32, 32, Tr 37), (33, 33, St 39), (35, 35, Tr 39), (37, 37, St 40), (47, 47, St 26), (61, 61, St 39), (63, 63, Tr 42), (64, 64, St 42), (95, 95, St 39), (126, 126, St 39), (606, 606, St 39), (635, 635, St 39), (637, 637, St 39), (48, 57, St 38), (36, 36, St 39), (38, 46, St 39), (97, 122, St 39), (65, 90, St 39), (58, 59, St 39)] (St 0)) (St 0),
     State 39 (wide relaxed [94, 123, 125] [(33, 33, St 39), (37, 37, St 40), (61, 61, St 39), (64, 64, St 42), (95, 95, St 39), (126, 126, St 39), (606, 606, St 39), (635, 635, St 39), (637, 637, St 39), (36, 36, St 39), (38, 46, St 39), (97, 122, St 39), (65, 90, St 39), (48, 59, St 39)] (St 0)) (St 0)]"

(* http/http_request_parser.cc 1987-2176: http_parser_execute, states *)
definition req_items13 :: "bool \<Rightarrow> req_action item list" where
  "req_items13 relaxed =
    [State 40 [(48, 57, St 41), (97, 102, St 41), (65, 70, St 41)] (St 0),
     State 41 [(48, 57, St 39), (97, 102, St 39), (65, 70, St 39)] (St 0),
     State 42 (wide relaxed [94, 123, 125] [(32, 32, Tr 37), (33, 33, St 43), (35, 35, Tr 39), (37, 37, St 44), (47, 47, St 26), (58, 58, St 46), (61, 61, St 43), (63, 63, Tr 42), (91, 91, St 47), (95, 95, St 43), (126, 126, St 43), (606, 606, St 43), (635, 635, St 43), (637, 637, St 43), (36, 36, St 43), (38, 46, St 43), (48, 57, St 43), (59, 59, St 43), (97, 122, St 43), (65, 90, St 43)] (St 0)) (St 0),
     State 43 (wide relaxed [94, 123, 125] [(32, 32, Tr 37), (33, 33, St 43), (35, 35, Tr 39), (37, 37, St 44), (47, 47, St 26), (58, 58, St 46), (61, 61, St 43), (63, 63, Tr 42), (95, 95, St 43), (126, 126, St 43), (606, 606, St 43), (635, 635, St 43), (637, 637, St 43), (36, 36, St 43), (38, 46, St 43), (48, 57, St 43), (59, 59, St 43), (97, 122, St 43), (65, 90, St 43)] (St 0)) (St 0)]"

(* http/http_request_parser.cc 2177-2328: http_parser_execute, states *)
definition req_items14 :: "req_action item list" where
  "req_items14 =
    [State 44 [(48, 57, St 45), (97, 102, St 45), (65, 70, St 45)] (St 0),
     State 45 [(48, 57, St 43), (97, 102, St 43), (65, 70, St 43)] (St 0),
     State 46 [(32, 32, Tr 37), (35, 35, Tr 39), (47, 47, St 26), (63, 63, Tr 42), (48, 57, St 46)] (St 0),
     State 47 [(6, 6, St 48), (58, 58, St 167), (118, 118, St 169), (48, 57, St 91), (97, 102, St 91), (65, 70, St 91)] (St 0),
     State 48 [(48, 57, St 49), (97, 102, St 49), (65, 70, St 49)] (St 0),
     State 49 [(58, 58, St 53), (48, 57, St 50), (97, 102, St 50), (65, 70, St 50)] (St 0),
     State 50 [(58, 58, St 53), (48, 57, St 51), (97, 102, St 51), (65, 70, St 51)] (St 0),
     State 51 [(58, 58, St 53), (48, 57, St 52), (97, 102, St 52), (65, 70, St 52)] (St 0)]"

(* http/http_request_parser.cc 2329-2473: http_parser_execute, states *)
definition req_items15 :: "req_action item list" where
  "req_items15 =
    [State 52 [(58, 58, St 53)] (St 0),
     State 53 [(49, 49, St 84), (50, 50, St 87), (48, 48, St 54), (51, 57, St 54), (97, 102, St 90), (65, 70, St 90)] (St 0),
     State 54 [(46, 46, St 55), (58, 58, St 80), (48, 57, St 77), (97, 102, St 77), (65, 70, St 77)] (St 0),
     State 55 [(49, 49, St 72), (50, 50, St 74), (48, 48, St 56), (51, 57, St 56)] (St 0),
     State 56 [(46, 46, St 57)] (St 0),
     State 57 [(49, 49, St 67), (50, 50, St 69), (48, 48, St 58), (51, 57, St 58)] (St 0),
     State 58 [(46, 46, St 59)] (St 0),
     State 59 [(49, 49, St 62), (50, 50, St 64), (48, 48, St 60), (51, 57, St 60)] (St 0),
     State 60 [(93, 93, St 61)] (St 0),
     State 61 [(32, 32, Tr 37), (35, 35, Tr 39), (47, 47, St 26), (58, 58, St 46), (63, 63, Tr 42)] (St 0),
     State 62 [(93, 93, St 61), (48, 57, St 63)] (St 0)]"

(* http/http_request_parser.cc 2474-2621: http_parser_execute, states *)
definition req_items16 :: "req_action item list" where
  "req_items16 =
    [State 63 [(93, 93, St 61), (48, 57, St 60)] (St 0),
     State 64 [(48, 48, St 65), (53, 53, St 66), (93, 93, St 61)] (St 0),
     State 65 [(48, 57, St 60)] (St 0),
     State 66 [(48, 48, St 60)] (St 0),
     State 67 [(46, 46, St 59), (48, 57, St 68)] (St 0),
     State 68 [(46, 46, St 59), (48, 57, St 58)] (St 0),
     State 69 [(46, 46, St 59), (48, 48, St 70), (53, 53, St 71)] (St 0),
     State 70 [(48, 57, St 58)] (St 0),
     State 71 [(48, 48, St 58)] (St 0),
     State 72 [(46, 46, St 57), (48, 57, St 73)] (St 0),
     State 73 [(46, 46, St 57), (48, 57, St 56)] (St 0),
     State 74 [(46, 46, St 57), (48, 48, St 75), (53, 53, St 76)] (St 0),
     State 75 [(48, 57, St 56)] (St 0),
     State 76 [(48, 48, St 56)] (St 0),
     State 77 [(58, 58, St 80), (48, 57, St 78), (97, 102, St 78), (65, 70, St 78)] (St 0)]"

(* http/http_request_parser.cc 2622-2769: http_parser_execute, states *)
definition req_items17 :: "req_action item list" where
  "req_items17 =
    [State 78 [(58, 58, St 80), (48, 57, St 79), (97, 102, St 79), (65, 70, St 79)] (St 0),
     State 79 [(58, 58, St 80)] (St 0),
     State 80 [(48, 57, St 81), (97, 102, St 81), (65, 70, St 81)] (St 0),
     State 81 [(93, 93, St 61), (48, 57, St 82), (97, 102, St 82), (65, 70, St 82)] (St 0),
     State 82 [(93, 93, St 61), (48, 57, St 83), (97, 102, St 83), (65, 70, St 83)] (St 0),
     State 83 [(93, 93, St 61), (48, 57, St 60), (97, 102, St 60), (65, 70, St 60)] (St 0),
     State 84 [(46, 46, St 55), (58, 58, St 80), (48, 57, St 85), (97, 102, St 77), (65, 70, St 77)] (St 0),
     State 85 [(46, 46, St 55), (58, 58, St 80), (48, 57, St 86), (97, 102, St 78), (65, 70, St 78)] (St 0)]"

(* http/http_request_parser.cc 2770-2921: http_parser_execute, states *)
definition req_items18 :: "req_action item list" where
  "req_items18 =
    [State 86 [(46, 46, St 55), (58, 58, St 80), (48, 57, St 79), (97, 102, St 79), (65, 70, St 79)] (St 0),
     State 87 [(46, 46, St 55), (48, 48, St 88), (53, 53, St 89), (58, 58, St 80), (49, 52, St 77), (54, 57, St 77), (97, 102, St 77), (65, 70, St 77)] (St 0),
     State 88 [(58, 58, St 80), (48, 57, St 86), (97, 102, St 78), (65, 70, St 78)] (St 0),
     State 89 [(48, 48, St 86), (58, 58, St 80), (49, 57, St 78), (97, 102, St 78), (65, 70, St 78)] (St 0),
     State 90 [(58, 58, St 80), (48, 57, St 77), (97, 102, St 77), (65, 70, St 77)] (St 0),
     State 91 [(58, 58, St 95), (48, 57, St 92), (97, 102, St 92), (65, 70, St 92)] (St 0),
     State 92 [(58, 58, St 95), (48, 57, St 93), (97, 102, St 93), (65, 70, St 93)] (St 0)]"

(* http/http_request_parser.cc 2922-3068: http_parser_execute, states *)
definition req_items19 :: "req_action item list" where
  "req_items19 =
    [State 93 [(58, 58, St 95), (48, 57, St 94), (97, 102, St 94), (65, 70, St 94)] (St 0),
     State 94 [(58, 58, St 95)] (St 0),
     State 95 [(58, 58, St 166), (48, 57, St 96), (97, 102, St 96), (65, 70, St 96)] (St 0),
     State 96 [(58, 58, St 100), (48, 57, St 97), (97, 102, St 97), (65, 70, St 97)] (St 0),
     State 97 [(58, 58, St 100), (48, 57, St 98), (97, 102, St 98), (65, 70, St 98)] (St 0),
     State 98 [(58, 58, St 100), (48, 57, St 99), (97, 102, St 99), (65, 70, St 99)] (St 0),
     State 99 [(58, 58, St 100)] (St 0),
     State 100 [(58, 58, St 165), (48, 57, St 101), (97, 102, St 101), (65, 70, St 101)] (St 0),
     State 101 [(58, 58, St 105), (48, 57, St 102), (97, 102, St 102), (65, 70, St 102)] (St 0)]"

(* http/http_request_parser.cc 3069-3215: http_parser_execute, states *)
definition req_items20 :: "req_action item list" where
  "req_items20 =
    [State 102 [(58, 58, St 105), (48, 57, St 103), (97, 102, St 103), (65, 70, St 103)] (St 0),
     State 103 [(58, 58, St 105), (48, 57, St 104), (97, 102, St 104), (65, 70, St 104)] (St 0),
     State 104 [(58, 58, St 105)] (St 0),
     State 105 [(58, 58, St 164), (48, 57, St 106), (97, 102, St 106), (65, 70, St 106)] (St 0),
     State 106 [(58, 58, St 110), (48, 57, St 107), (97, 102, St 107), (65, 70, St 107)] (St 0),
     State 107 [(58, 58, St 110), (48, 57, St 108), (97, 102, St 108), (65, 70, St 108)] (St 0),
     State 108 [(58, 58, St 110), (48, 57, St 109), (97, 102, St 109), (65, 70, St 109)] (St 0),
     State 109 [(58, 58, St 110)] (St 0),
     State 110 [(58, 58, St 163), (48, 57, St 111), (97, 102, St 111), (65, 70, St 111)] (St 0)]"

(* http/http_request_parser.cc 3216-3355: http_parser_execute, states *)
definition req_items21 :: "req_action item list" where
  "req_items21 =
    [State 111 [(58, 58, St 115), (48, 57, St 112), (97, 102, St 112), (65, 70, St 112)] (St 0),
     State 112 [(58, 58, St 115), (48, 57, St 113), (97, 102, St 113), (65, 70, St 113)] (St 0),
     State 113 [(58, 58, St 115), (48, 57, St 114), (97, 102, St 114), (65, 70, St 114)] (St 0),
     State 114 [(58, 58, St 115)] (St 0),
     State 115 [(58, 58, St 151), (48, 57, St 116), (97, 102, St 116), (65, 70, St 116)] (St 0),
     State 116 [(58, 58, St 120), (48, 57, St 117), (97, 102, St 117), (65, 70, St 117)] (St 0),
     State 117 [(58, 58, St 120), (48, 57, St 118), (97, 102, St 118), (65, 70, St 118)] (St 0),
     State 118 [(58, 58, St 120), (48, 57, St 119), (97, 102, St 119), (65, 70, St 119)] (St 0)]"

(* http/http_request_parser.cc 3356-3495: http_parser_execute, states *)
definition req_items22 :: "req_action item list" where
  "req_items22 =
    [State 119 [(58, 58, St 120)] (St 0),
     State 120 [(58, 58, St 150), (48, 57, St 121), (97, 102, St 121), (65, 70, St 121)] (St 0),
     State 121 [(58, 58, St 125), (48, 57, St 122), (97, 102, St 122), (65, 70, St 122)] (St 0),
     State 122 [(58, 58, St 125), (48, 57, St 123), (97, 102, St 123), (65, 70, St 123)] (St 0),
     State 123 [(58, 58, St 125), (48, 57, St 124), (97, 102, St 124), (65, 70, St 124)] (St 0),
     State 124 [(58, 58, St 125)] (St 0),
     State 125 [(58, 58, St 126), (48, 57, St 121), (97, 102, St 121), (65, 70, St 121)] (St 0),
     State 126 [(49, 49, St 143), (50, 50, St 146), (93, 93, St 61), (2, 3, St 48), (97, 102, St 149), (65, 70, St 149), (48, 48, St 127), (51, 57, St 127)] (St 0)]"

(* http/http_request_parser.cc 3496-3655: http_parser_execute, states *)
definition req_items23 :: "req_action item list" where
  "req_items23 =
    [State 127 [(46, 46, St 55), (58, 58, St 131), (93, 93, St 61), (48, 57, St 128), (97, 102, St 128), (65, 70, St 128)] (St 0),
     State 128 [(58, 58, St 131), (93, 93, St 61), (48, 57, St 129), (97, 102, St 129), (65, 70, St 129)] (St 0),
     State 129 [(58, 58, St 131), (93, 93, St 61), (48, 57, St 130), (97, 102, St 130), (65, 70, St 130)] (St 0),
     State 130 [(58, 58, St 131), (93, 93, St 61)] (St 0),
     State 131 [(49, 49, St 136), (50, 50, St 139), (48, 48, St 132), (51, 57, St 132), (97, 102, St 142), (65, 70, St 142)] (St 0),
     State 132 [(46, 46, St 55), (58, 58, St 80), (93, 93, St 61), (48, 57, St 133), (97, 102, St 133), (65, 70, St 133)] (St 0),
     State 133 [(58, 58, St 80), (93, 93, St 61), (48, 57, St 134), (97, 102, St 134), (65, 70, St 134)] (St 0)]"

(* http/http_request_parser.cc 3656-3799: http_parser_execute, states *)
definition req_items24 :: "req_action item list" where
  "req_items24 =
    [State 134 [(58, 58, St 80), (93, 93, St 61), (48, 57, St 135), (97, 102, St 135), (65, 70, St 135)] (St 0),
     State 135 [(58, 58, St 80), (93, 93, St 61)] (St 0),
     State 136 [(46, 46, St 55), (58, 58, St 80), (93, 93, St 61), (48, 57, St 137), (97, 102, St 133), (65, 70, St 133)] (St 0),
     State 137 [(46, 46, St 55), (58, 58, St 80), (93, 93, St 61), (48, 57, St 138), (97, 102, St 134), (65, 70, St 134)] (St 0),
     State 138 [(46, 46, St 55), (58, 58, St 80), (93, 93, St 61), (48, 57, St 135), (97, 102, St 135), (65, 70, St 135)] (St 0),
     State 139 [(46, 46, St 55), (48, 48, St 140), (53, 53, St 141), (58, 58, St 80), (93, 93, St 61), (49, 52, St 133), (54, 57, St 133), (97, 102, St 133), (65, 70, St 133)] (St 0)]"

(* http/http_request_parser.cc 3800-3951: http_parser_execute, states *)
definition req_items25 :: "req_action item list" where
  "req_items25 =
    [State 140 [(58, 58, St 80), (93, 93, St 61), (48, 57, St 138), (97, 102, St 134), (65, 70, St 134)] (St 0),
     State 141 [(48, 48, St 138), (58, 58, St 80), (93, 93, St 61), (49, 57, St 134), (97, 102, St 134), (65, 70, St 134)] (St 0),
     State 142 [(58, 58, St 80), (93, 93, St 61), (48, 57, St 133), (97, 102, St 133), (65, 70, St 133)] (St 0),
     State 143 [(46, 46, St 55), (58, 58, St 131), (93, 93, St 61), (48, 57, St 144), (97, 102, St 128), (65, 70, St 128)] (St 0),
     State 144 [(46, 46, St 55), (58, 58, St 131), (93, 93, St 61), (48, 57, St 145), (97, 102, St 129), (65, 70, St 129)] (St 0),
     State 145 [(46, 46, St 55), (58, 58, St 131), (93, 93, St 61), (48, 57, St 130), (97, 102, St 130), (65, 70, St 130)] (St 0)]"

(* http/http_request_parser.cc 3952-4113: http_parser_execute, states *)
definition req_items26 :: "req_action item list" where
  "req_items26 =
    [State 146 [(46, 46, St 55), (48, 48, St 147), (53, 53, St 148), (58, 58, St 131), (93, 93, St 61), (49, 52, St 128), (54, 57, St 128), (97, 102, St 128), (65, 70, St 128)] (St 0),
     State 147 [(58, 58, St 131), (93, 93, St 61), (48, 57, St 145), (97, 102, St 129), (65, 70, St 129)] (St 0),
     State 148 [(48, 48, St 145), (58, 58, St 131), (93, 93, St 61), (49, 57, St 129), (97, 102, St 129), (65, 70, St 129)] (St 0),
     State 149 [(58, 58, St 131), (93, 93, St 61), (48, 57, St 128), (97, 102, St 128), (65, 70, St 128)] (St 0),
     State 150 [(49, 49, St 143), (50, 50, St 146), (2, 3, St 48), (97, 102, St 149), (65, 70, St 149), (48, 48, St 127), (51, 57, St 127)] (St 0),
     State 151 [(49, 49, St 156), (50, 50, St 159), (2, 3, St 48), (97, 102, St 162), (65, 70, St 162), (48, 48, St 152), (51, 57, St 152)] (St 0)]"

(* http/http_request_parser.cc 4114-4254: http_parser_execute, states *)
definition req_items27 :: "req_action item list" where
  "req_items27 =
    [State 152 [(46, 46, St 55), (58, 58, St 131), (48, 57, St 153), (97, 102, St 153), (65, 70, St 153)] (St 0),
     State 153 [(58, 58, St 131), (48, 57, St 154), (97, 102, St 154), (65, 70, St 154)] (St 0),
     State 154 [(58, 58, St 131), (48, 57, St 155), (97, 102, St 155), (65, 70, St 155)] (St 0),
     State 155 [(58, 58, St 131)] (St 0),
     State 156 [(46, 46, St 55), (58, 58, St 131), (48, 57, St 157), (97, 102, St 153), (65, 70, St 153)] (St 0),
     State 157 [(46, 46, St 55), (58, 58, St 131), (48, 57, St 158), (97, 102, St 154), (65, 70, St 154)] (St 0),
     State 158 [(46, 46, St 55), (58, 58, St 131), (48, 57, St 155), (97, 102, St 155), (65, 70, St 155)] (St 0)]"

(* http/http_request_parser.cc 4255-4394: http_parser_execute, states *)
definition req_items28 :: "req_action item list" where
  "req_items28 =
    [State 159 [(46, 46, St 55), (48, 48, St 160), (53, 53, St 161), (58, 58, St 131), (49, 52, St 153), (54, 57, St 153), (97, 102, St 153), (65, 70, St 153)] (St 0),
     State 160 [(58, 58, St 131), (48, 57, St 158), (97, 102, St 154), (65, 70, St 154)] (St 0),
     State 161 [(48, 48, St 158), (58, 58, St 131), (49, 57, St 154), (97, 102, St 154), (65, 70, St 154)] (St 0),
     State 162 [(58, 58, St 131), (48, 57, St 153), (97, 102, St 153), (65, 70, St 153)] (St 0),
     State 163 [(2, 3, St 48), (97, 102, St 49), (65, 70, St 49), (48, 57, St 49)] (St 0),
     State 164 [(2, 3, St 48)] (St 0),
     State 165 [(3, 3, St 48)] (St 0),
     State 166 [(4, 4, St 48)] (St 0),
     State 167 [(58, 58, St 168)] (St 0)]"

(* http/http_request_parser.cc 4395-4533: http_parser_execute, states *)
definition req_items29 :: "bool \<Rightarrow> req_action item list" where
  "req_items29 relaxed =
    [State 168 [(49, 49, St 143), (50, 50, St 146), (93, 93, St 61), (2, 5, St 48), (97, 102, St 149), (65, 70, St 149), (48, 48, St 127), (51, 57, St 127)] (St 0),
     State 169 [(48, 57, St 170), (97, 102, St 170), (65, 70, St 170)] (St 0),
     State 170 [(46, 46, St 171), (48, 57, St 170), (97, 102, St 170), (65, 70, St 170)] (St 0),
     State 171 (wide relaxed [94, 123, 125] [(33, 33, St 172), (36, 36, St 172), (61, 61, St 172), (95, 95, St 172), (126, 126, St 172), (606, 606, St 172), (635, 635, St 172), (637, 637, St 172), (38, 46, St 172), (97, 122, St 172), (65, 90, St 172), (48, 59, St 172)] (St 0)) (St 0)]"

(* http/http_request_parser.cc 4534-4702: http_parser_execute, states *)
definition req_items30 :: "bool \<Rightarrow> req_action item list" where
  "req_items30 relaxed =
    [State 172 (wide relaxed [94, 123, 125] [(33, 33, St 172), (36, 36, St 172), (61, 61, St 172), (93, 93, St 61), (95, 95, St 172), (126, 126, St 172), (606, 606, St 172), (635, 635, St 172), (637, 637, St 172), (38, 46, St 172), (97, 122, St 172), (65, 90, St 172), (48, 59, St 172)] (St 0)) (St 0),
     Trans 12 [Req_mark] 173,
     State 173 (wide relaxed [94, 123, 125] [(32, 32, Tr 37), (33, 33, St 19), (35, 35, Tr 39), (37, 37, St 24), (43, 43, St 173), (47, 47, St 26), (58, 58, St 174), (59, 59, St 19), (61, 61, St 19), (63, 63, Tr 42), (64, 64, St 19), (95, 95, St 19), (126, 126, St 19), (606, 606, St 19), (635, 635, St 19), (637, 637, St 19), (36, 36, St 19), (38, 42, St 19), (44, 44, St 19), (97, 122, St 173), (65, 90, St 173), (45, 46, St 173), (48, 57, St 173)] (St 0)) (St 0)]"

(* http/http_request_parser.cc 4703-4852: http_parser_execute, states *)
definition req_items31 :: "bool \<Rightarrow> req_action item list" where
  "req_items31 relaxed =
    [State 174 (wide relaxed [94, 123, 125] [(32, 32, Tr 6), (33, 33, Tr 203), (35, 35, Tr 8), (37, 37, Tr 204), (47, 47, Tr 10), (61, 61, Tr 203), (63, 63, Tr 11), (95, 95, Tr 203), (126, 126, Tr 203), (606, 606, Tr 203), (635, 635, Tr 203), (637, 637, Tr 203), (-128, -1, Tr 203), (97, 122, Tr 203), (64, 90, Tr 203), (36, 36, Tr 203), (38, 46, Tr 203), (48, 59, Tr 203)] (St 0)) (St 0),
     State 175 [(32, 32, Tr 4), (65, 90, St 176), (48, 57, St 176)] (St 0),
     State 176 [(32, 32, Tr 4), (65, 90, St 177), (48, 57, St 177)] (St 0),
     State 177 [(32, 32, Tr 4), (65, 90, St 178), (48, 57, St 178)] (St 0),
     State 178 [(32, 32, Tr 4), (65, 90, St 179), (48, 57, St 179)] (St 0),
     State 179 [(32, 32, Tr 4), (65, 90, St 180), (48, 57, St 180)] (St 0)]"

(* http/http_request_parser.cc 4853-4992: http_parser_execute, states *)
definition req_items32 :: "req_action item list" where
  "req_items32 =
    [State 180 [(32, 32, Tr 4), (65, 90, St 181), (48, 57, St 181)] (St 0),
     State 181 [(32, 32, Tr 4), (65, 90, St 182), (48, 57, St 182)] (St 0),
     State 182 [(32, 32, Tr 4), (65, 90, St 183), (48, 57, St 183)] (St 0),
     State 183 [(32, 32, Tr 4), (65, 90, St 184), (48, 57, St 184)] (St 0),
     State 184 [(32, 32, Tr 4), (65, 90, St 185), (48, 57, St 185)] (St 0),
     State 185 [(32, 32, Tr 4), (65, 90, St 186), (48, 57, St 186)] (St 0),
     State 186 [(32, 32, Tr 4), (65, 90, St 187), (48, 57, St 187)] (St 0),
     State 187 [(32, 32, Tr 4), (65, 90, St 188), (48, 57, St 188)] (St 0),
     State 188 [(32, 32, Tr 4), (65, 90, St 189), (48, 57, St 189)] (St 0),
     State 189 [(32, 32, Tr 4), (65, 90, St 190), (48, 57, St 190)] (St 0)]"

(* http/http_request_parser.cc 4993-5128: http_parser_execute, states *)
definition req_items33 :: "req_action item list" where
  "req_items33 =
    [State 190 [(32, 32, Tr 4), (65, 90, St 191), (48, 57, St 191)] (St 0),
     State 191 [(32, 32, Tr 4), (65, 90, St 192), (48, 57, St 192)] (St 0),
     State 192 [(32, 32, Tr 4), (65, 90, St 193), (48, 57, St 193)] (St 0),
     State 193 [(32, 32, Tr 4)] (St 0),
     Trans 2 [Req_mark] 194,
     State 194 [(45, 46, St 195), (97, 122, St 195), (65, 90, St 195), (48, 57, St 195)] (St 0),
     State 195 [(32, 32, Tr 224), (47, 47, Tr 224), (62, 62, Tr 224), (9, 13, Tr 224), (97, 122, St 195), (65, 90, St 195), (45, 46, St 195), (48, 57, St 195)] (St 0),
     Trans 224 [Req_path] 196,
     State 196 [(62, 62, St 197)] (St 196),
     State 197 [(0, 0, Tr 227), (62, 62, St 197)] (St 196)]"

(* http/http_request_parser.cc 5129-5272: http_parser_execute, states *)
definition req_items34 :: "bool \<Rightarrow> req_action item list" where
  "req_items34 relaxed =
    [Trans 227 [Req_xml, Req_done 349] 349,
     Trans 235 [Req_json, Req_done 349] 349,
     State 349 [] (St 0),
     Trans 3 [Req_mark] 198,
     State 198 (wide relaxed [94, 123, 125] [(32, 32, Tr 228), (33, 33, St 202), (37, 37, St 203), (47, 47, St 208), (59, 59, St 202), (61, 61, St 202), (95, 95, St 202), (126, 126, St 202), (606, 606, St 202), (635, 635, St 202), (637, 637, St 202), (36, 36, St 202), (38, 46, St 202), (48, 57, St 202), (97, 122, St 202), (64, 90, St 202)] (St 0)) (St 0)]"

(* http/http_request_parser.cc 5273-5420: http_parser_execute, states *)
definition req_items35 :: "bool \<Rightarrow> req_action item list" where
  "req_items35 relaxed =
    [Trans 228 [Req_path] 199,
     State 199 [(123, 123, Tr 232)] (St 0),
     Trans 232 [Req_mark] 200,
     State 200 [(125, 125, St 201)] (St 200),
     State 201 [(0, 0, Tr 235), (125, 125, St 201)] (St 200),
     State 202 (wide relaxed [94, 123, 125] [(32, 32, Tr 228), (33, 33, St 202), (37, 37, St 203), (47, 47, St 205), (59, 59, St 202), (61, 61, St 202), (95, 95, St 202), (126, 126, St 202), (606, 606, St 202), (635, 635, St 202), (637, 637, St 202), (36, 36, St 202), (38, 46, St 202), (48, 57, St 202), (97, 122, St 202), (64, 90, St 202)] (St 0)) (St 0),
     State 203 [(48, 57, St 204), (97, 102, St 204), (65, 70, St 204)] (St 0),
     State 204 [(48, 57, St 202), (97, 102, St 202), (65, 70, St 202)] (St 0)]"

(* http/http_request_parser.cc 5421-5604: http_parser_execute, states *)
definition req_items36 :: "bool \<Rightarrow> req_action item list" where
  "req_items36 relaxed =
    [State 205 (wide relaxed [94, 123, 125] [(32, 32, Tr 228), (33, 33, St 205), (37, 37, St 206), (61, 61, St 205), (95, 95, St 205), (126, 126, St 205), (606, 606, St 205), (635, 635, St 205), (637, 637, St 205), (-128, -1, St 205), (97, 122, St 205), (64, 90, St 205), (36, 36, St 205), (38, 59, St 205)] (St 0)) (St 0),
     State 206 [(48, 57, St 207), (97, 102, St 207), (65, 70, St 207)] (St 0),
     State 207 [(48, 57, St 205), (97, 102, St 205), (65, 70, St 205)] (St 0),
     State 208 (wide relaxed [94, 123, 125] [(32, 32, Tr 228), (33, 33, St 205), (37, 37, St 206), (47, 47, St 209), (61, 61, St 205), (95, 95, St 205), (126, 126, St 205), (606, 606, St 205), (635, 635, St 205), (637, 637, St 205), (-128, -1, St 205), (97, 122, St 205), (64, 90, St 205), (36, 36, St 205), (38, 46, St 205), (48, 59, St 205)] (St 0)) (St 0)]"

(* http/http_request_parser.cc 5605-5756: http_parser_execute, states *)
definition req_items37 :: "bool \<Rightarrow> req_action item list" where
  "req_items37 relaxed =
    [State 209 (wide relaxed [94, 123, 125] [(32, 32, Tr 228), (33, 33, St 210), (37, 37, St 211), (47, 47, St 205), (58, 58, St 213), (61, 61, St 210), (64, 64, St 217), (91, 91, St 222), (95, 95, St 210), (126, 126, St 210), (606, 606, St 210), (635, 635, St 210), (637, 637, St 210), (36, 36, St 210), (38, 46, St 210), (48, 57, St 210), (59, 59, St 210), (97, 122, St 210), (65, 90, St 210)] (St 0)) (St 0),
     State 210 (wide relaxed [94, 123, 125] [(32, 32, Tr 228), (33, 33, St 210), (37, 37, St 211), (47, 47, St 205), (58, 58, St 213), (61, 61, St 210), (64, 64, St 217), (95, 95, St 210), (126, 126, St 210), (606, 606, St 210), (635, 635, St 210), (637, 637, St 210), (36, 36, St 210), (38, 46, St 210), (48, 57, St 210), (59, 59, St 210), (97, 122, St 210), (65, 90, St 210)] (St 0)) (St 0)]"

(* http/http_request_parser.cc 5757-5947: http_parser_execute, states *)
definition req_items38 :: "bool \<Rightarrow> req_action item list" where
  "req_items38 relaxed =
    [State 211 [(48, 57, St 212), (97, 102, St 212), (65, 70, St 212)] (St 0),
     State 212 [(48, 57, St 210), (97, 102, St 210), (65, 70, St 210)] (St 0),
     State 213 (wide relaxed [94, 123, 125] [(32, 32, Tr 228), (33, 33, St 214), (37, 37, St 215), (47, 47, St 205), (61, 61, St 214), (64, 64, St 217), (95, 95, St 214), (126, 126, St 214), (606, 606, St 214), (635, 635, St 214), (637, 637, St 214), (48, 57, St 213), (36, 36, St 214), (38, 46, St 214), (97, 122, St 214), (65, 90, St 214), (58, 59, St 214)] (St 0)) (St 0),
     State 214 (wide relaxed [94, 123, 125] [(33, 33, St 214), (37, 37, St 215), (61, 61, St 214), (64, 64, St 217), (95, 95, St 214), (126, 126, St 214), (606, 606, St 214), (635, 635, St 214), (637, 637, St 214), (36, 36, St 214), (38, 46, St 214), (97, 122, St 214), (65, 90, St 214), (48, 59, St 214)] (St 0)) (St 0)]"

(* http/http_request_parser.cc 5948-6129: http_parser_execute, states *)
definition req_items39 :: "bool \<Rightarrow> req_action item list" where
  "req_items39 relaxed =
    [State 215 [(48, 57, St 216), (97, 102, St 216), (65, 70, St 216)] (St 0),
     State 216 [(48, 57, St 214), (97, 102, St 214), (65, 70, St 214)] (St 0),
     State 217 (wide relaxed [94, 123, 125] [(32, 32, Tr 228), (33, 33, St 218), (37, 37, St 219), (47, 47, St 205), (58, 58, St 221), (61, 61, St 218), (91, 91, St 222), (95, 95, St 218), (126, 126, St 218), (606, 606, St 218), (635, 635, St 218), (637, 637, St 218), (36, 36, St 218), (38, 46, St 218), (48, 57, St 218), (59, 59, St 218), (97, 122, St 218), (65, 90, St 218)] (St 0)) (St 0),
     State 218 (wide relaxed [94, 123, 125] [(32, 32, Tr 228), (33, 33, St 218), (37, 37, St 219), (47, 47, St 205), (58, 58, St 221), (61, 61, St 218), (95, 95, St 218), (126, 126, St 218), (606, 606, St 218), (635, 635, St 218), (637, 637, St 218), (36, 36, St 218), (38, 46, St 218), (48, 57, St 218), (59, 59, St 218), (97, 122, St 218), (65, 90, St 218)] (St 0)) (St 0)]"

(* http/http_request_parser.cc 6130-6277: http_parser_execute, states *)
definition req_items40 :: "req_action item list" where
  "req_items40 =
    [State 219 [(48, 57, St 220), (97, 102, St 220), (65, 70, St 220)] (St 0),
     State 220 [(48, 57, St 218), (97, 102, St 218), (65, 70, St 218)] (St 0),
     State 221 [(32, 32, Tr 228), (47, 47, St 205), (48, 57, St 221)] (St 0),
     State 222 [(6, 6, St 223), (58, 58, St 342), (118, 118, St 344), (48, 57, St 266), (97, 102, St 266), (65, 70, St 266)] (St 0),
     State 223 [(48, 57, St 224), (97, 102, St 224), (65, 70, St 224)] (St 0),
     State 224 [(58, 58, St 228), (48, 57, St 225), (97, 102, St 225), (65, 70, St 225)] (St 0),
     State 225 [(58, 58, St 228), (48, 57, St 226), (97, 102, St 226), (65, 70, St 226)] (St 0),
     State 226 [(58, 58, St 228), (48, 57, St 227), (97, 102, St 227), (65, 70, St 227)] (St 0)]"

(* http/http_request_parser.cc 6278-6418: http_parser_execute, states *)
definition req_items41 :: "req_action item list" where
  "req_items41 =
    [State 227 [(58, 58, St 228)] (St 0),
     State 228 [(49, 49, St 259), (50, 50, St 262), (48, 48, St 229), (51, 57, St 229), (97, 102, St 265), (65, 70, St 265)] (St 0),
     State 229 [(46, 46, St 230), (58, 58, St 255), (48, 57, St 252), (97, 102, St 252), (65, 70, St 252)] (St 0),
     State 230 [(49, 49, St 247), (50, 50, St 249), (48, 48, St 231), (51, 57, St 231)] (St 0),
     State 231 [(46, 46, St 232)] (St 0),
     State 232 [(49, 49, St 242), (50, 50, St 244), (48, 48, St 233), (51, 57, St 233)] (St 0),
     State 233 [(46, 46, St 234)] (St 0),
     State 234 [(49, 49, St 237), (50, 50, St 239), (48, 48, St 235), (51, 57, St 235)] (St 0),
     State 235 [(93, 93, St 236)] (St 0),
     State 236 [(32, 32, Tr 228), (47, 47, St 205), (58, 58, St 221)] (St 0),
     State 237 [(93, 93, St 236), (48, 57, St 238)] (St 0)]"

(* http/http_request_parser.cc 6419-6566: http_parser_execute, states *)
definition req_items42 :: "req_action item list" where
  "req_items42 =
    [State 238 [(93, 93, St 236), (48, 57, St 235)] (St 0),
     State 239 [(48, 48, St 240), (53, 53, St 241), (93, 93, St 236)] (St 0),
     State 240 [(48, 57, St 235)] (St 0),
     State 241 [(48, 48, St 235)] (St 0),
     State 242 [(46, 46, St 234), (48, 57, St 243)] (St 0),
     State 243 [(46, 46, St 234), (48, 57, St 233)] (St 0),
     State 244 [(46, 46, St 234), (48, 48, St 245), (53, 53, St 246)] (St 0),
     State 245 [(48, 57, St 233)] (St 0),
     State 246 [(48, 48, St 233)] (St 0),
     State 247 [(46, 46, St 232), (48, 57, St 248)] (St 0),
     State 248 [(46, 46, St 232), (48, 57, St 231)] (St 0),
     State 249 [(46, 46, St 232), (48, 48, St 250), (53, 53, St 251)] (St 0),
     State 250 [(48, 57, St 231)] (St 0),
     State 251 [(48, 48, St 231)] (St 0),
     State 252 [(58, 58, St 255), (48, 57, St 253), (97, 102, St 253), (65, 70, St 253)] (St 0)]"

(* http/http_request_parser.cc 6567-6714: http_parser_execute, states *)
definition req_items43 :: "req_action item list" where
  "req_items43 =
    [State 253 [(58, 58, St 255), (48, 57, St 254), (97, 102, St 254), (65, 70, St 254)] (St 0),
     State 254 [(58, 58, St 255)] (St 0),
     State 255 [(48, 57, St 256), (97, 102, St 256), (65, 70, St 256)] (St 0),
     State 256 [(93, 93, St 236), (48, 57, St 257), (97, 102, St 257), (65, 70, St 257)] (St 0),
     State 257 [(93, 93, St 236), (48, 57, St 258), (97, 102, St 258), (65, 70, St 258)] (St 0),
     State 258 [(93, 93, St 236), (48, 57, St 235), (97, 102, St 235), (65, 70, St 235)] (St 0),
     State 259 [(46, 46, St 230), (58, 58, St 255), (48, 57, St 260), (97, 102, St 252), (65, 70, St 252)] (St 0),
     State 260 [(46, 46, St 230), (58, 58, St 255), (48, 57, St 261), (97, 102, St 253), (65, 70, St 253)] (St 0)]"

(* http/http_request_parser.cc 6715-6866: http_parser_execute, states *)
definition req_items44 :: "req_action item list" where
  "req_items44 =
    [State 261 [(46, 46, St 230), (58, 58, St 255), (48, 57, St 254), (97, 102, St 254), (65, 70, St 254)] (St 0),
     State 262 [(46, 46, St 230), (48, 48, St 263), (53, 53, St 264), (58, 58, St 255), (49, 52, St 252), (54, 57, St 252), (97, 102, St 252), (65, 70, St 252)] (St 0),
     State 263 [(58, 58, St 255), (48, 57, St 261), (97, 102, St 253), (65, 70, St 253)] (St 0),
     State 264 [(48, 48, St 261), (58, 58, St 255), (49, 57, St 253), (97, 102, St 253), (65, 70, St 253)] (St 0),
     State 265 [(58, 58, St 255), (48, 57, St 252), (97, 102, St 252), (65, 70, St 252)] (St 0),
     State 266 [(58, 58, St 270), (48, 57, St 267), (97, 102, St 267), (65, 70, St 267)] (St 0),
     State 267 [(58, 58, St 270), (48, 57, St 268), (97, 102, St 268), (65, 70, St 268)] (St 0)]"

(* http/http_request_parser.cc 6867-7013: http_parser_execute, states *)
definition req_items45 :: "req_action item list" where
  "req_items45 =
    [State 268 [(58, 58, St 270), (48, 57, St 269), (97, 102, St 269), (65, 70, St 269)] (St 0),
     State 269 [(58, 58, St 270)] (St 0),
     State 270 [(58, 58, St 341), (48, 57, St 271), (97, 102, St 271), (65, 70, St 271)] (St 0),
     State 271 [(58, 58, St 275), (48, 57, St 272), (97, 102, St 272), (65, 70, St 272)] (St 0),
     State 272 [(58, 58, St 275), (48, 57, St 273), (97, 102, St 273), (65, 70, St 273)] (St 0),
     State 273 [(58, 58, St 275), (48, 57, St 274), (97, 102, St 274), (65, 70, St 274)] (St 0),
     State 274 [(58, 58, St 275)] (St 0),
     State 275 [(58, 58, St 340), (48, 57, St 276), (97, 102, St 276), (65, 70, St 276)] (St 0),
     State 276 [(58, 58, St 280), (48, 57, St 277), (97, 102, St 277), (65, 70, St 277)] (St 0)]"

(* http/http_request_parser.cc 7014-7160: http_parser_execute, states *)
definition req_items46 :: "req_action item list" where
  "req_items46 =
    [State 277 [(58, 58, St 280), (48, 57, St 278), (97, 102, St 278), (65, 70, St 278)] (St 0),
     State 278 [(58, 58, St 280), (48, 57, St 279), (97, 102, St 279), (65, 70, St 279)] (St 0),
     State 279 [(58, 58, St 280)] (St 0),
     State 280 [(58, 58, St 339), (48, 57, St 281), (97, 102, St 281), (65, 70, St 281)] (St 0),
     State 281 [(58, 58, St 285), (48, 57, St 282), (97, 102, St 282), (65, 70, St 282)] (St 0),
     State 282 [(58, 58, St 285), (48, 57, St 283), (97, 102, St 283), (65, 70, St 283)] (St 0),
     State 283 [(58, 58, St 285), (48, 57, St 284), (97, 102, St 284), (65, 70, St 284)] (St 0),
     State 284 [(58, 58, St 285)] (St 0),
     State 285 [(58, 58, St 338), (48, 57, St 286), (97, 102, St 286), (65, 70, St 286)] (St 0)]"

(* http/http_request_parser.cc 7161-7300: http_parser_execute, states *)
definition req_items47 :: "req_action item list" where
  "req_items47 =
    [State 286 [(58, 58, St 290), (48, 57, St 287), (97, 102, St 287), (65, 70, St 287)] (St 0),
     State 287 [(58, 58, St 290), (48, 57, St 288), (97, 102, St 288), (65, 70, St 288)] (St 0),
     State 288 [(58, 58, St 290), (48, 57, St 289), (97, 102, St 289), (65, 70, St 289)] (St 0),
     State 289 [(58, 58, St 290)] (St 0),
     State 290 [(58, 58, St 326), (48, 57, St 291), (97, 102, St 291), (65, 70, St 291)] (St 0),
     State 291 [(58, 58, St 295), (48, 57, St 292), (97, 102, St 292), (65, 70, St 292)] (St 0),
     State 292 [(58, 58, St 295), (48, 57, St 293), (97, 102, St 293), (65, 70, St 293)] (St 0),
     State 293 [(58, 58, St 295), (48, 57, St 294), (97, 102, St 294), (65, 70, St 294)] (St 0)]"

(* http/http_request_parser.cc 7301-7440: http_parser_execute, states *)
definition req_items48 :: "req_action item list" where
  "req_items48 =
    [State 294 [(58, 58, St 295)] (St 0),
     State 295 [(58, 58, St 325), (48, 57, St 296), (97, 102, St 296), (65, 70, St 296)] (St 0),
     State 296 [(58, 58, St 300), (48, 57, St 297), (97, 102, St 297), (65, 70, St 297)] (St 0),
     State 297 [(58, 58, St 300), (48, 57, St 298), (97, 102, St 298), (65, 70, St 298)] (St 0),
     State 298 [(58, 58, St 300), (48, 57, St 299), (97, 102, St 299), (65, 70, St 299)] (St 0),
     State 299 [(58, 58, St 300)] (St 0),
     State 300 [(58, 58, St 301), (48, 57, St 296), (97, 102, St 296), (65, 70, St 296)] (St 0),
     State 301 [(49, 49, St 318), (50, 50, St 321), (93, 93, St 236), (2, 3, St 223), (97, 102, St 324), (65, 70, St 324), (48, 48, St 302), (51, 57, St 302)] (St 0)]"

(* http/http_request_parser.cc 7441-7600: http_parser_execute, states *)
definition req_items49 :: "req_action item list" where
  "req_items49 =
    [State 302 [(46, 46, St 230), (58, 58, St 306), (93, 93, St 236), (48, 57, St 303), (97, 102, St 303), (65, 70, St 303)] (St 0),
     State 303 [(58, 58, St 306), (93, 93, St 236), (48, 57, St 304), (97, 102, St 304), (65, 70, St 304)] (St 0),
     State 304 [(58, 58, St 306), (93, 93, St 236), (48, 57, St 305), (97, 102, St 305), (65, 70, St 305)] (St 0),
     State 305 [(58, 58, St 306), (93, 93, St 236)] (St 0),
     State 306 [(49, 49, St 311), (50, 50, St 314), (48, 48, St 307), (51, 57, St 307), (97, 102, St 317), (65, 70, St 317)] (St 0),
     State 307 [(46, 46, St 230), (58, 58, St 255), (93, 93, St 236), (48, 57, St 308), (97, 102, St 308), (65, 70, St 308)] (St 0),
     State 308 [(58, 58, St 255), (93, 93, St 236), (48, 57, St 309), (97, 102, St 309), (65, 70, St 309)] (St 0)]"

(* http/http_request_parser.cc 7601-7744: http_parser_execute, states *)
definition req_items50 :: "req_action item list" where
  "req_items50 =
    [State 309 [(58, 58, St 255), (93, 93, St 236), (48, 57, St 310), (97, 102, St 310), (65, 70, St 310)] (St 0),
     State 310 [(58, 58, St 255), (93, 93, St 236)] (St 0),
     State 311 [(46, 46, St 230), (58, 58, St 255), (93, 93, St 236), (48, 57, St 312), (97, 102, St 308), (65, 70, St 308)] (St 0),
     State 312 [(46, 46, St 230), (58, 58, St 255), (93, 93, St 236), (48, 57, St 313), (97, 102, St 309), (65, 70, St 309)] (St 0),
     State 313 [(46, 46, St 230), (58, 58, St 255), (93, 93, St 236), (48, 57, St 310), (97, 102, St 310), (65, 70, St 310)] (St 0),
     State 314 [(46, 46, St 230), (48, 48, St 315), (53, 53, St 316), (58, 58, St 255), (93, 93, St 236), (49, 52, St 308), (54, 57, St 308), (97, 102, St 308), (65, 70, St 308)] (St 0)]"

(* http/http_request_parser.cc 7745-7896: http_parser_execute, states *)
definition req_items51 :: "req_action item list" where
  "req_items51 =
    [State 315 [(58, 58, St 255), (93, 93, St 236), (48, 57, St 313), (97, 102, St 309), (65, 70, St 309)] (St 0),
     State 316 [(48, 48, St 313), (58, 58, St 255), (93, 93, St 236), (49, 57, St 309), (97, 102, St 309), (65, 70, St 309)] (St 0),
     State 317 [(58, 58, St 255), (93, 93, St 236), (48, 57, St 308), (97, 102, St 308), (65, 70, St 308)] (St 0),
     State 318 [(46, 46, St 230), (58, 58, St 306), (93, 93, St 236), (48, 57, St 319), (97, 102, St 303), (65, 70, St 303)] (St 0),
     State 319 [(46, 46, St 230), (58, 58, St 306), (93, 93, St 236), (48, 57, St 320), (97, 102, St 304), (65, 70, St 304)] (St 0),
     State 320 [(46, 46, St 230), (58, 58, St 306), (93, 93, St 236), (48, 57, St 305), (97, 102, St 305), (65, 70, St 305)] (St 0)]"

(* http/http_request_parser.cc 7897-8058: http_parser_execute, states *)
definition req_items52 :: "req_action item list" where
  "req_items52 =
    [State 321 [(46, 46, St 230), (48, 48, St 322), (53, 53, St 323), (58, 58, St 306), (93, 93, St 236), (49, 52, St 303), (54, 57, St 303), (97, 102, St 303), (65, 70, St 303)] (St 0),
     State 322 [(58, 58, St 306), (93, 93, St 236), (48, 57, St 320), (97, 102, St 304), (65, 70, St 304)] (St 0),
     State 323 [(48, 48, St 320), (58, 58, St 306), (93, 93, St 236), (49, 57, St 304), (97, 102, St 304), (65, 70, St 304)] (St 0),
     State 324 [(58, 58, St 306), (93, 93, St 236), (48, 57, St 303), (97, 102, St 303), (65, 70, St 303)] (St 0),
     State 325 [(49, 49, St 318), (50, 50, St 321), (2, 3, St 223), (97, 102, St 324), (65, 70, St 324), (48, 48, St 302), (51, 57, St 302)] (St 0),
     State 326 [(49, 49, St 331), (50, 50, St 334), (2, 3, St 223), (97, 102, St 337), (65, 70, St 337), (48, 48, St 327), (51, 57, St 327)] (St 0)]"

(* http/http_request_parser.cc 8059-8199: http_parser_execute, states *)
definition req_items53 :: "req_action item list" where
  "req_items53 =
    [State 327 [(46, 46, St 230), (58, 58, St 306), (48, 57, St 328), (97, 102, St 328), (65, 70, St 328)] (St 0),
     State 328 [(58, 58, St 306), (48, 57, St 329), (97, 102, St 329), (65, 70, St 329)] (St 0),
     State 329 [(58, 58, St 306), (48, 57, St 330), (97, 102, St 330), (65, 70, St 330)] (St 0),
     State 330 [(58, 58, St 306)] (St 0),
     State 331 [(46, 46, St 230), (58, 58, St 306), (48, 57, St 332), (97, 102, St 328), (65, 70, St 328)] (St 0),
     State 332 [(46, 46, St 230), (58, 58, St 306), (48, 57, St 333), (97, 102, St 329), (65, 70, St 329)] (St 0),
     State 333 [(46, 46, St 230), (58, 58, St 306), (48, 57, St 330), (97, 102, St 330), (65, 70, St 330)] (St 0)]"

(* http/http_request_parser.cc 8200-8339: http_parser_execute, states *)
definition req_items54 :: "req_action item list" where
  "req_items54 =
    [State 334 [(46, 46, St 230), (48, 48, St 335), (53, 53, St 336), (58, 58, St 306), (49, 52, St 328), (54, 57, St 328), (97, 102, St 328), (65, 70, St 328)] (St 0),
     State 335 [(58, 58, St 306), (48, 57, St 333), (97, 102, St 329), (65, 70, St 329)] (St 0),
     State 336 [(48, 48, St 333), (58, 58, St 306), (49, 57, St 329), (97, 102, St 329), (65, 70, St 329)] (St 0),
     State 337 [(58, 58, St 306), (48, 57, St 328), (97, 102, St 328), (65, 70, St 328)] (St 0),
     State 338 [(2, 3, St 223), (97, 102, St 224), (65, 70, St 224), (48, 57, St 224)] (St 0),
     State 339 [(2, 3, St 223)] (St 0),
     State 340 [(3, 3, St 223)] (St 0),
     State 341 [(4, 4, St 223)] (St 0),
     State 342 [(58, 58, St 343)] (St 0)]"

(* http/http_request_parser.cc 8340-8478: http_parser_execute, states *)
definition req_items55 :: "bool \<Rightarrow> req_action item list" where
  "req_items55 relaxed =
    [State 343 [(49, 49, St 318), (50, 50, St 321), (93, 93, St 236), (2, 5, St 223), (97, 102, St 324), (65, 70, St 324), (48, 48, St 302), (51, 57, St 302)] (St 0),
     State 344 [(48, 57, St 345), (97, 102, St 345), (65, 70, St 345)] (St 0),
     State 345 [(46, 46, St 346), (48, 57, St 345), (97, 102, St 345), (65, 70, St 345)] (St 0),
     State 346 (wide relaxed [94, 123, 125] [(33, 33, St 347), (36, 36, St 347), (61, 61, St 347), (95, 95, St 347), (126, 126, St 347), (606, 606, St 347), (635, 635, St 347), (637, 637, St 347), (38, 46, St 347), (97, 122, St 347), (65, 90, St 347), (48, 59, St 347)] (St 0)) (St 0)]"

(* http/http_request_parser.cc 8479-8552: http_parser_execute, states *)
definition req_items56 :: "bool \<Rightarrow> req_action item list" where
  "req_items56 relaxed =
    [State 347 (wide relaxed [94, 123, 125] [(33, 33, St 347), (36, 36, St 347), (61, 61, St 347), (93, 93, St 236), (95, 95, St 347), (126, 126, St 347), (606, 606, St 347), (635, 635, St 347), (637, 637, St 347), (38, 46, St 347), (97, 122, St 347), (65, 90, St 347), (48, 59, St 347)] (St 0)) (St 0)]"

definition req_machine :: "bool \<Rightarrow> req_action item list" where
  "req_machine relaxed =
     req_items1 relaxed @ req_items2 @ req_items3 @ req_items4 @ req_items5 @ req_items6 relaxed @ req_items7 relaxed @ req_items8 relaxed @ req_items9 relaxed @ req_items10 relaxed
     @ req_items11 relaxed @ req_items12 relaxed @ req_items13 relaxed @ req_items14 @ req_items15 @ req_items16 @ req_items17 @ req_items18 @ req_items19 @ req_items20
     @ req_items21 @ req_items22 @ req_items23 @ req_items24 @ req_items25 @ req_items26 @ req_items27 @ req_items28 @ req_items29 relaxed @ req_items30 relaxed
     @ req_items31 relaxed @ req_items32 @ req_items33 @ req_items34 relaxed @ req_items35 relaxed @ req_items36 relaxed @ req_items37 relaxed @ req_items38 relaxed @ req_items39 relaxed @ req_items40
     @ req_items41 @ req_items42 @ req_items43 @ req_items44 @ req_items45 @ req_items46 @ req_items47 @ req_items48 @ req_items49 @ req_items50
     @ req_items51 @ req_items52 @ req_items53 @ req_items54 @ req_items55 relaxed @ req_items56 relaxed"

text \<open>\<^verbatim>\<open>LEN\<close>, \<^verbatim>\<open>MARK\<close> and \<^verbatim>\<open>PTR_TO\<close> are written out; a callback gets the rest of the buffer.\<close>

(* http/http_request_parser.cc 43-45: LEN, MARK, PTR_TO and the actions *)
fun req_act :: "string \<Rightarrow> (req_action, http_parser, request_event) action_fun" where
  "req_act buf Req_mark p q = ([], q\<lparr>hq_mark := p\<rparr>, None)"
| "req_act buf Req_mark_field p q = ([], q\<lparr>hq_field_start := p\<rparr>, None)"
| "req_act buf Req_mark_query p q = ([], q\<lparr>hq_query_start := p\<rparr>, None)"
| "req_act buf Req_field_len p q = ([], q\<lparr>hq_field_len := p - hq_field_start q\<rparr>, None)"
| "req_act buf Req_field p q =
     ([On_request_http_field (drop (hq_field_start q) buf) (hq_field_len q) (drop (hq_mark q) buf) (p - hq_mark q)], q, None)"
| "req_act buf Req_method p q = ([On_request_method (drop (hq_mark q) buf) (p - hq_mark q)], q, None)"
| "req_act buf Req_uri p q = ([On_request_uri (drop (hq_mark q) buf) (p - hq_mark q)], q, None)"
| "req_act buf Req_fragment p q = ([On_request_fragment (drop (hq_mark q) buf) (p - hq_mark q)], q, None)"
| "req_act buf Req_path p q = ([On_request_path (drop (hq_mark q) buf) (p - hq_mark q)], q, None)"
| "req_act buf Req_query p q =
     (if hq_query_start q \<le> p then ([On_request_query (drop (hq_query_start q) buf) (p - hq_query_start q)], q, None)
      else ([], q\<lparr>hq_fail := True\<rparr>, None))"
| "req_act buf Req_version p q = ([On_request_version (drop (hq_mark q) buf) (p - hq_mark q)], q, None)"
| "req_act buf Req_xml p q = ([], q\<lparr>hq_xml_sent := 1\<rparr>, None)"
| "req_act buf Req_json p q = ([], q\<lparr>hq_json_sent := 1\<rparr>, None)"
| "req_act buf (Req_done n) p q =
     (if hq_xml_sent q \<noteq> 0 \<or> hq_json_sent q \<noteq> 0
      then ([], q\<lparr>hq_body_start := hq_mark q, hq_content_len := int_of_long (int p - int (hq_mark q) + 1)\<rparr>, Some n)
      else ([On_request_header_done (drop (Suc p) buf) (length buf - p - 1)], q\<lparr>hq_body_start := Suc p\<rparr>, Some n))"

(* http/http_request_parser.cc 62: http_parser_init *)
definition http_parser_init :: "http_parser \<Rightarrow> http_parser" where
  "http_parser_init q =
     q\<lparr>hq_cs := 1, hq_body_start := 0, hq_content_len := 0, hq_mark := 0, hq_nread := 0, hq_field_len := 0, hq_field_start := 0,
       hq_xml_sent := 0, hq_json_sent := 0\<rparr>"

(* http/http_request_parser.cc 9642: http_parser_has_error *)
definition http_parser_has_error :: "http_parser \<Rightarrow> bool" where
  "http_parser_has_error q \<longleftrightarrow> hq_cs q = 0"

(* http/http_request_parser.cc 9647: http_parser_is_finished *)
definition http_parser_is_finished :: "http_parser \<Rightarrow> bool" where
  "http_parser_is_finished q \<longleftrightarrow> hq_cs q \<ge> 348"

(* http/http_request_parser.cc 9626: http_parser_finish *)
definition http_parser_finish :: "http_parser \<Rightarrow> int" where
  "http_parser_finish q = (if http_parser_has_error q then - 1 else if http_parser_is_finished q then 1 else 0)"

(* http/http_request_parser.cc 9607-9624: http_parser_execute, the frame *)
definition http_parser_execute :: "http_parser \<Rightarrow> string \<Rightarrow> (request_event list \<times> http_parser \<times> nat) result" where
  "http_parser_execute q buf =
     (if buf = [] then Inr ([], q, 0)
      else
        let q0 = q\<lparr>hq_nread := 0, hq_mark := 0, hq_field_len := 0, hq_field_start := 0\<rparr>;
            (es, cs', p, q1) = scan (req_machine (hq_uri_relaxed q \<noteq> 0)) (req_act buf) (hq_cs q) 0 buf q0;
            q2 = (if http_parser_has_error q1 then q1 else q1\<lparr>hq_cs := cs'\<rparr>)\<lparr>hq_nread := hq_nread q1 + p\<rparr> in
        if hq_fail q1 then Inl Length_error
        else
          rbind (assert_r (p \<le> length buf)) (\<lambda>_.
          rbind (assert_r (hq_nread q2 \<le> length buf)) (\<lambda>_.
          rbind (assert_r (hq_body_start q2 \<le> length buf)) (\<lambda>_.
          rbind (assert_r (hq_mark q2 < length buf)) (\<lambda>_.
          rbind (assert_r (hq_field_len q2 \<le> length buf)) (\<lambda>_.
          rbind (assert_r (hq_field_start q2 < length buf)) (\<lambda>_.
            Inr (es, q2, hq_nread q2))))))))"

section \<open>Lemmas\<close>

text \<open>Widening: the row is the one of the widened character.\<close>

lemma wide_select:
  "select v (wide relaxed cs ts j) j
   = select (if v \<in> set cs then 128 + (v - - 128) + (if relaxed then 256 else 0) else v) ts j"
  unfolding wide_def by (induction cs) auto

lemmas req_defs = req_items1_def req_items2_def req_items3_def req_items4_def req_items5_def req_items6_def req_items7_def
  req_items8_def req_items9_def req_items10_def req_items11_def req_items12_def req_items13_def req_items14_def req_items15_def
  req_items16_def req_items17_def req_items18_def req_items19_def req_items20_def req_items21_def req_items22_def req_items23_def
  req_items24_def req_items25_def req_items26_def req_items27_def req_items28_def req_items29_def req_items30_def req_items31_def
  req_items32_def req_items33_def req_items34_def req_items35_def req_items36_def req_items37_def req_items38_def req_items39_def
  req_items40_def req_items41_def req_items42_def req_items43_def req_items44_def req_items45_def req_items46_def req_items47_def
  req_items48_def req_items49_def req_items50_def req_items51_def req_items52_def req_items53_def req_items54_def req_items55_def
  req_items56_def

lemma req_block_states:
  "state_nums (req_items1 relaxed) = [1, 2, 3]"
  "state_nums req_items2 = [4, 5, 6, 7, 8, 9, 10]"
  "state_nums req_items3 = [11, 12, 13, 14]"
  "state_nums req_items4 = [15, 16, 17]"
  "state_nums req_items5 = [348, 18]"
  "state_nums (req_items6 relaxed) = [19]"
  "state_nums (req_items7 relaxed) = [20, 21]"
  "state_nums (req_items8 relaxed) = [22, 23, 24, 25, 26]"
  "state_nums (req_items9 relaxed) = [27, 28, 29]"
  "state_nums (req_items10 relaxed) = [30, 31, 32, 33]"
  "state_nums (req_items11 relaxed) = [34, 35]"
  "state_nums (req_items12 relaxed) = [36, 37, 38, 39]"
  "state_nums (req_items13 relaxed) = [40, 41, 42, 43]"
  "state_nums req_items14 = [44, 45, 46, 47, 48, 49, 50, 51]"
  "state_nums req_items15 = [52, 53, 54, 55, 56, 57, 58, 59, 60, 61, 62]"
  "state_nums req_items16 = [63, 64, 65, 66, 67, 68, 69, 70, 71, 72, 73, 74, 75, 76, 77]"
  "state_nums req_items17 = [78, 79, 80, 81, 82, 83, 84, 85]"
  "state_nums req_items18 = [86, 87, 88, 89, 90, 91, 92]"
  "state_nums req_items19 = [93, 94, 95, 96, 97, 98, 99, 100, 101]"
  "state_nums req_items20 = [102, 103, 104, 105, 106, 107, 108, 109, 110]"
  "state_nums req_items21 = [111, 112, 113, 114, 115, 116, 117, 118]"
  "state_nums req_items22 = [119, 120, 121, 122, 123, 124, 125, 126]"
  "state_nums req_items23 = [127, 128, 129, 130, 131, 132, 133]"
  "state_nums req_items24 = [134, 135, 136, 137, 138, 139]"
  "state_nums req_items25 = [140, 141, 142, 143, 144, 145]"
  "state_nums req_items26 = [146, 147, 148, 149, 150, 151]"
  "state_nums req_items27 = [152, 153, 154, 155, 156, 157, 158]"
  "state_nums req_items28 = [159, 160, 161, 162, 163, 164, 165, 166, 167]"
  "state_nums (req_items29 relaxed) = [168, 169, 170, 171]"
  "state_nums (req_items30 relaxed) = [172, 173]"
  "state_nums (req_items31 relaxed) = [174, 175, 176, 177, 178, 179]"
  "state_nums req_items32 = [180, 181, 182, 183, 184, 185, 186, 187, 188, 189]"
  "state_nums req_items33 = [190, 191, 192, 193, 194, 195, 196, 197]"
  "state_nums (req_items34 relaxed) = [349, 198]"
  "state_nums (req_items35 relaxed) = [199, 200, 201, 202, 203, 204]"
  "state_nums (req_items36 relaxed) = [205, 206, 207, 208]"
  "state_nums (req_items37 relaxed) = [209, 210]"
  "state_nums (req_items38 relaxed) = [211, 212, 213, 214]"
  "state_nums (req_items39 relaxed) = [215, 216, 217, 218]"
  "state_nums req_items40 = [219, 220, 221, 222, 223, 224, 225, 226]"
  "state_nums req_items41 = [227, 228, 229, 230, 231, 232, 233, 234, 235, 236, 237]"
  "state_nums req_items42 = [238, 239, 240, 241, 242, 243, 244, 245, 246, 247, 248, 249, 250, 251, 252]"
  "state_nums req_items43 = [253, 254, 255, 256, 257, 258, 259, 260]"
  "state_nums req_items44 = [261, 262, 263, 264, 265, 266, 267]"
  "state_nums req_items45 = [268, 269, 270, 271, 272, 273, 274, 275, 276]"
  "state_nums req_items46 = [277, 278, 279, 280, 281, 282, 283, 284, 285]"
  "state_nums req_items47 = [286, 287, 288, 289, 290, 291, 292, 293]"
  "state_nums req_items48 = [294, 295, 296, 297, 298, 299, 300, 301]"
  "state_nums req_items49 = [302, 303, 304, 305, 306, 307, 308]"
  "state_nums req_items50 = [309, 310, 311, 312, 313, 314]"
  "state_nums req_items51 = [315, 316, 317, 318, 319, 320]"
  "state_nums req_items52 = [321, 322, 323, 324, 325, 326]"
  "state_nums req_items53 = [327, 328, 329, 330, 331, 332, 333]"
  "state_nums req_items54 = [334, 335, 336, 337, 338, 339, 340, 341, 342]"
  "state_nums (req_items55 relaxed) = [343, 344, 345, 346]"
  "state_nums (req_items56 relaxed) = [347]"
  by (simp_all add: req_defs)

lemma req_block_trans:
  "trans_nums (req_items1 relaxed) = [0, 4]"
  "trans_nums req_items2 = [6, 37, 44, 47, 54, 58, 13]"
  "trans_nums req_items3 = [21, 30, 33, 23]"
  "trans_nums req_items4 = [27, 29, 28, 22, 31, 34, 24]"
  "trans_nums req_items5 = [36, 25]"
  "trans_nums (req_items6 relaxed) = [7, 8, 39, 55]"
  "trans_nums (req_items7 relaxed) = [59, 43]"
  "trans_nums (req_items8 relaxed) = [45, 9, 203]"
  "trans_nums (req_items9 relaxed) = [204, 11, 42]"
  "trans_nums (req_items10 relaxed) = [53, 56, 10]"
  "trans_nums (req_items11 relaxed) = []"
  "trans_nums (req_items12 relaxed) = []"
  "trans_nums (req_items13 relaxed) = []"
  "trans_nums req_items14 = []"
  "trans_nums req_items15 = []"
  "trans_nums req_items16 = []"
  "trans_nums req_items17 = []"
  "trans_nums req_items18 = []"
  "trans_nums req_items19 = []"
  "trans_nums req_items20 = []"
  "trans_nums req_items21 = []"
  "trans_nums req_items22 = []"
  "trans_nums req_items23 = []"
  "trans_nums req_items24 = []"
  "trans_nums req_items25 = []"
  "trans_nums req_items26 = []"
  "trans_nums req_items27 = []"
  "trans_nums req_items28 = []"
  "trans_nums (req_items29 relaxed) = []"
  "trans_nums (req_items30 relaxed) = [12]"
  "trans_nums (req_items31 relaxed) = []"
  "trans_nums req_items32 = []"
  "trans_nums req_items33 = [2, 224]"
  "trans_nums (req_items34 relaxed) = [227, 235, 3]"
  "trans_nums (req_items35 relaxed) = [228, 232]"
  "trans_nums (req_items36 relaxed) = []"
  "trans_nums (req_items37 relaxed) = []"
  "trans_nums (req_items38 relaxed) = []"
  "trans_nums (req_items39 relaxed) = []"
  "trans_nums req_items40 = []"
  "trans_nums req_items41 = []"
  "trans_nums req_items42 = []"
  "trans_nums req_items43 = []"
  "trans_nums req_items44 = []"
  "trans_nums req_items45 = []"
  "trans_nums req_items46 = []"
  "trans_nums req_items47 = []"
  "trans_nums req_items48 = []"
  "trans_nums req_items49 = []"
  "trans_nums req_items50 = []"
  "trans_nums req_items51 = []"
  "trans_nums req_items52 = []"
  "trans_nums req_items53 = []"
  "trans_nums req_items54 = []"
  "trans_nums (req_items55 relaxed) = []"
  "trans_nums (req_items56 relaxed) = []"
  by (simp_all add: req_defs)

lemma req_distinct: "distinct (state_nums (req_machine relaxed))" "distinct (trans_nums (req_machine relaxed))"
proof -
  have "ascending (filter (\<lambda>n. n < 348) (state_nums (req_machine relaxed)))" "ascending (filter (\<lambda>n. \<not> n < 348) (state_nums (req_machine relaxed)))"
    unfolding req_machine_def state_nums_append req_block_states by simp_all
  then show "distinct (state_nums (req_machine relaxed))" using ascending_distinct distinct_parts by blast
  show "distinct (trans_nums (req_machine relaxed))"
    unfolding req_machine_def trans_nums_append req_block_trans by simp
qed

text \<open>The rows and transitions that a well-formed request takes.\<close>

lemma req_rows:
  "find_state 1 (req_machine relaxed) = Some ([(60, 60, Tr 2), (64, 64, Tr 3), (65, 90, Tr 0), (48, 57, Tr 0)], St 0)"
  "find_state 2 (req_machine relaxed) = Some ([(32, 32, Tr 4), (65, 90, St 175), (48, 57, St 175)], St 0)"
  "find_state 3 (req_machine relaxed) = Some (wide relaxed [94, 123, 125] [(32, 32, Tr 6), (33, 33, Tr 7), (35, 35, Tr 8), (37, 37, Tr 9), (47, 47, Tr 10), (59, 59, Tr 7), (61, 61, Tr 7), (63, 63, Tr 11), (64, 64, Tr 7), (95, 95, Tr 7), (126, 126, Tr 7), (606, 606, Tr 7), (635, 635, Tr 7), (637, 637, Tr 7), (36, 36, Tr 7), (38, 46, Tr 7), (48, 57, Tr 7), (97, 122, Tr 12), (65, 90, Tr 12)] (St 0), St 0)"
  "find_state 4 (req_machine relaxed) = Some ([(72, 72, Tr 13)], St 0)"
  "find_state 5 (req_machine relaxed) = Some ([(84, 84, St 6)], St 0)"
  "find_state 6 (req_machine relaxed) = Some ([(84, 84, St 7)], St 0)"
  "find_state 7 (req_machine relaxed) = Some ([(80, 80, St 8)], St 0)"
  "find_state 8 (req_machine relaxed) = Some ([(47, 47, St 9)], St 0)"
  "find_state 9 (req_machine relaxed) = Some ([(49, 49, St 10)], St 0)"
  "find_state 10 (req_machine relaxed) = Some ([(46, 46, St 11)], St 0)"
  "find_state 11 (req_machine relaxed) = Some ([(48, 49, St 12)], St 0)"
  "find_state 12 (req_machine relaxed) = Some ([(10, 10, Tr 21), (13, 13, Tr 22)], St 0)"
  "find_state 13 (req_machine relaxed) = Some ([(10, 10, Tr 24), (13, 13, Tr 25), (33, 33, Tr 23), (124, 124, Tr 23), (126, 126, Tr 23), (1, 8, Tr 23), (35, 39, Tr 23), (11, 12, Tr 23), (14, 31, Tr 23), (45, 46, Tr 23), (94, 122, Tr 23), (65, 90, Tr 23), (48, 57, Tr 23), (42, 43, Tr 23)], St 0)"
  "find_state 14 (req_machine relaxed) = Some ([(33, 33, St 14), (58, 58, Tr 27), (124, 124, St 14), (126, 126, St 14), (1, 8, St 14), (35, 39, St 14), (10, 31, St 14), (45, 46, St 14), (94, 122, St 14), (65, 90, St 14), (48, 57, St 14), (42, 43, St 14)], St 0)"
  "find_state 15 (req_machine relaxed) = Some ([(0, 0, St 0), (9, 9, Tr 29), (10, 10, Tr 30), (13, 13, Tr 31), (32, 32, Tr 29), (127, 127, St 0)], Tr 28)"
  "find_state 16 (req_machine relaxed) = Some ([(0, 0, St 0), (10, 10, Tr 33), (13, 13, Tr 34), (127, 127, St 0)], St 16)"
  "find_state 17 (req_machine relaxed) = Some ([(10, 10, St 13)], St 0)"
  "find_state 18 (req_machine relaxed) = Some ([(10, 10, Tr 36), (33, 33, St 14), (58, 58, Tr 27), (124, 124, St 14), (126, 126, St 14), (1, 8, St 14), (35, 39, St 14), (11, 31, St 14), (45, 46, St 14), (94, 122, St 14), (65, 90, St 14), (48, 57, St 14), (42, 43, St 14)], St 0)"
  "find_state 20 (req_machine relaxed) = Some (wide relaxed [94, 123, 125] [(32, 32, Tr 44), (33, 33, Tr 43), (37, 37, Tr 45), (61, 61, Tr 43), (95, 95, Tr 43), (126, 126, Tr 43), (606, 606, Tr 43), (635, 635, Tr 43), (637, 637, Tr 43), (-128, -1, Tr 43), (97, 122, Tr 43), (63, 90, Tr 43), (36, 36, Tr 43), (38, 59, Tr 43)] (St 0), St 0)"
  "find_state 21 (req_machine relaxed) = Some (wide relaxed [94, 123, 125] [(32, 32, Tr 47), (33, 33, St 21), (37, 37, St 22), (61, 61, St 21), (95, 95, St 21), (126, 126, St 21), (606, 606, St 21), (635, 635, St 21), (637, 637, St 21), (-128, -1, St 21), (97, 122, St 21), (63, 90, St 21), (36, 36, St 21), (38, 59, St 21)] (St 0), St 0)"
  "find_state 26 (req_machine relaxed) = Some (wide relaxed [94, 123, 125] [(32, 32, Tr 37), (33, 33, St 26), (35, 35, Tr 39), (37, 37, St 27), (61, 61, St 26), (63, 63, Tr 42), (95, 95, St 26), (126, 126, St 26), (606, 606, St 26), (635, 635, St 26), (637, 637, St 26), (-128, -1, St 26), (97, 122, St 26), (64, 90, St 26), (36, 36, St 26), (38, 59, St 26)] (St 0), St 0)"
  "find_state 29 (req_machine relaxed) = Some (wide relaxed [94, 123, 125] [(32, 32, Tr 54), (33, 33, Tr 53), (35, 35, Tr 55), (37, 37, Tr 56), (61, 61, Tr 53), (95, 95, Tr 53), (126, 126, Tr 53), (606, 606, Tr 53), (635, 635, Tr 53), (637, 637, Tr 53), (-128, -1, Tr 53), (97, 122, Tr 53), (63, 90, Tr 53), (36, 36, Tr 53), (38, 59, Tr 53)] (St 0), St 0)"
  "find_state 30 (req_machine relaxed) = Some (wide relaxed [94, 123, 125] [(32, 32, Tr 58), (33, 33, St 30), (35, 35, Tr 59), (37, 37, St 31), (61, 61, St 30), (95, 95, St 30), (126, 126, St 30), (606, 606, St 30), (635, 635, St 30), (637, 637, St 30), (-128, -1, St 30), (97, 122, St 30), (63, 90, St 30), (36, 36, St 30), (38, 59, St 30)] (St 0), St 0)"
  "find_state 33 (req_machine relaxed) = Some (wide relaxed [94, 123, 125] [(32, 32, Tr 37), (33, 33, St 26), (35, 35, Tr 39), (37, 37, St 27), (47, 47, St 34), (61, 61, St 26), (63, 63, Tr 42), (95, 95, St 26), (126, 126, St 26), (606, 606, St 26), (635, 635, St 26), (637, 637, St 26), (-128, -1, St 26), (97, 122, St 26), (64, 90, St 26), (36, 36, St 26), (38, 46, St 26), (48, 59, St 26)] (St 0), St 0)"
  by (rule find_state_in [OF req_distinct(1)]; simp add: req_machine_def req_items10_def req_items1_def req_items2_def req_items3_def req_items4_def req_items5_def req_items7_def req_items8_def req_items9_def)+

lemma req_trans:
  "find_trans 0 (req_machine relaxed) = ([Req_mark], 2)" "find_trans 4 (req_machine relaxed) = ([Req_method], 3)"
  "find_trans 37 (req_machine relaxed) = ([Req_path, Req_uri], 4)" "find_trans 39 (req_machine relaxed) = ([Req_path, Req_uri], 20)"
  "find_trans 42 (req_machine relaxed) = ([Req_path], 29)" "find_trans 53 (req_machine relaxed) = ([Req_mark_query], 30)"
  "find_trans 58 (req_machine relaxed) = ([Req_query, Req_uri], 4)" "find_trans 59 (req_machine relaxed) = ([Req_query, Req_uri], 20)"
  "find_trans 43 (req_machine relaxed) = ([Req_mark], 21)" "find_trans 47 (req_machine relaxed) = ([Req_fragment], 4)"
  "find_trans 13 (req_machine relaxed) = ([Req_mark], 5)" "find_trans 22 (req_machine relaxed) = ([Req_version], 17)"
  "find_trans 23 (req_machine relaxed) = ([Req_mark_field], 14)" "find_trans 27 (req_machine relaxed) = ([Req_field_len], 15)"
  "find_trans 29 (req_machine relaxed) = ([Req_mark], 15)" "find_trans 28 (req_machine relaxed) = ([Req_mark], 16)"
  "find_trans 34 (req_machine relaxed) = ([Req_field], 17)" "find_trans 25 (req_machine relaxed) = ([Req_mark_field], 18)"
  "find_trans 36 (req_machine relaxed) = ([Req_done 348], 348)" "find_trans 10 (req_machine relaxed) = ([Req_mark], 33)"
  by (rule find_trans_in [OF req_distinct(2)]; simp add: req_machine_def req_items10_def req_items1_def req_items2_def req_items3_def req_items4_def req_items5_def req_items6_def req_items7_def req_items9_def)+


text \<open>
  The states of a method of one to twenty letters: the first letter leads to state 2, the
  next to 175 and so on.
\<close>

definition method_state :: "nat \<Rightarrow> nat" where
  "method_state k = (if k = 1 then 2 else 173 + k)"

definition method_ranges :: "(int \<times> int) list" where
  "method_ranges = [(48, 57), (65, 90)]"

fun method_jump :: "nat \<Rightarrow> int \<Rightarrow> int \<Rightarrow> jump \<Rightarrow> bool" where
  "method_jump n lo hi (St s) = (s = (if n = 2 then 175 else Suc n))"
| "method_jump n lo hi (Tr t) = False"

definition method_check :: "nat \<Rightarrow> (int \<times> int \<times> jump) list \<Rightarrow> jump \<Rightarrow> bool" where
  "method_check n ts j =
     (if n = 2 \<or> 175 \<le> n \<and> n \<le> 192 then on_ranges method_ranges (method_jump n) ts j \<and> select 32 ts j = Tr 4
      else if n = 193 then select 32 ts j = Tr 4 else True)"

fun method_item :: "req_action item \<Rightarrow> bool" where
  "method_item (State n ts j) = method_check n ts j"
| "method_item (Trans t as s) = True"

lemma req_methods_checked: "list_all method_item (req_machine relaxed)"
  unfolding req_machine_def by (simp add: req_defs method_check_def method_ranges_def on_ranges_def)

lemma req_state_nums: "set (state_nums (req_machine relaxed)) = {1..349}"
proof (rule card_subset_eq)
  show "set (state_nums (req_machine relaxed)) \<subseteq> {1..349}"
    unfolding req_machine_def state_nums_append req_block_states by simp
  have "length (state_nums (req_machine relaxed)) = 349" unfolding req_machine_def state_nums_append req_block_states by simp
  then show "card (set (state_nums (req_machine relaxed))) = card {1..349 :: nat}" using distinct_card [OF req_distinct(1)] by simp
qed simp

text \<open>
  A query ends in a query state, or by a transition that has marked it: the length of a
  query is never computed from an old mark, unless the run began inside the query.
\<close>

definition query_state :: "nat \<Rightarrow> bool" where
  "query_state n \<longleftrightarrow> 30 \<le> n \<and> n \<le> 32"

definition query_trans :: "nat \<Rightarrow> bool" where
  "query_trans t \<longleftrightarrow> t = 58 \<or> t = 59"

fun query_jump :: "jump \<Rightarrow> bool" where
  "query_jump (St s) = (\<not> query_state s)"
| "query_jump (Tr t) = (\<not> query_trans t)"

fun marked :: "bool \<Rightarrow> req_action list \<Rightarrow> bool option" where
  "marked b [] = Some b"
| "marked b (a # as) = (if a = Req_mark_query then marked True as else if a = Req_query \<and> \<not> b then None else marked b as)"

fun query_item :: "req_action item \<Rightarrow> bool" where
  "query_item (State n ts j) = (if query_state n then True else if query_jump j then list_all (\<lambda>(a, b, t). query_jump t) ts else False)"
| "query_item (Trans t as s) = (if query_trans t then True else case marked False as of None \<Rightarrow> False | Some b \<Rightarrow> query_state s \<longrightarrow> b)"

lemma wide_jumps: "query_jump j \<Longrightarrow> list_all (\<lambda>(a, b, t). query_jump t) (wide relaxed cs ts j) = list_all (\<lambda>(a, b, t). query_jump t) ts"
  using select_all [of query_jump j ts] by (induction cs) (auto simp: wide_def)

lemma req_queries_checked: "list_all query_item (req_machine relaxed)"
  unfolding req_machine_def by (simp add: req_defs query_state_def query_trans_def wide_jumps)

definition query_ok :: "nat \<Rightarrow> nat \<Rightarrow> http_parser \<Rightarrow> bool" where
  "query_ok cs p q \<longleftrightarrow> \<not> hq_fail q \<and> (query_state cs \<longrightarrow> hq_query_start q \<le> p)"

lemma marked_True: "marked True as = Some True"
  by (induction as) auto

lemma marked_actions:
  "marked b as = Some b' \<Longrightarrow> (b \<longrightarrow> hq_query_start q \<le> p) \<Longrightarrow> \<not> hq_fail q \<Longrightarrow> do_actions (req_act buf) as p q = (es, q1, out) \<Longrightarrow>
     \<not> hq_fail q1 \<and> (out = None \<longrightarrow> b' \<longrightarrow> hq_query_start q1 \<le> p)"
proof (induction as arbitrary: b q es q1)
  case (Cons a as)
  obtain es1 q2 o2 where a: "req_act buf a p q = (es1, q2, o2)" by (metis surj_pair)
  have "\<not> hq_fail q2 \<and> ((b \<or> a = Req_mark_query) \<longrightarrow> hq_query_start q2 \<le> p)"
    using a Cons.prems(1-3) by (cases a) (auto split: if_splits)
  then show ?case using Cons.IH [of "b \<or> a = Req_mark_query" q2] Cons.prems(1,4) a
    by (cases o2) (auto split: if_splits prod.splits)
qed auto

lemma move_query:
  assumes "query_ok cs p q" "move (req_machine relaxed) cs c = Some (as, s)" "do_actions (req_act buf) as p q = (es, q1, out)"
  shows "query_ok (if out = None then s else 0) (Suc p) q1"
proof -
  obtain ts j where row: "find_state cs (req_machine relaxed) = Some (ts, j)"
    and t: "(as, s) = (case select (char_val c) ts j of St s \<Rightarrow> ([], s) | Tr t \<Rightarrow> find_trans t (req_machine relaxed))"
    using assms(2) by (auto simp: move_def split: option.splits)
  have item: "query_item (State cs ts j)"
    using find_state_member [OF row] req_queries_checked [of relaxed] unfolding list_all_iff by blast
  have ok: "\<not> hq_fail q" "query_state cs \<Longrightarrow> hq_query_start q \<le> p" using assms(1) by (auto simp: query_ok_def)
  have "\<exists>b'. marked (query_state cs) as = Some b' \<and> (query_state s \<longrightarrow> b')"
  proof (cases "query_state cs")
    case True
    then show ?thesis using marked_True by auto
  next
    case False
    then have jump: "query_jump (select (char_val c) ts j)" using item select_all [of query_jump j ts] by (auto split: if_splits)
    show ?thesis
    proof (cases "select (char_val c) ts j")
      case (St n)
      then show ?thesis using t jump False by auto
    next
      case (Tr n)
      then have "find_trans n (req_machine relaxed) = (as, s)" "\<not> query_trans n" using t jump by simp_all
      then have "query_item (Trans n as s) \<or> as = [] \<and> s = 0"
        using find_trans_member [of n] req_queries_checked [of relaxed] unfolding list_all_iff by blast
      then show ?thesis using \<open>\<not> query_trans n\<close> False by (auto simp: query_state_def split: option.splits)
    qed
  qed
  then show ?thesis using marked_actions [OF _ _ ok(1) assms(3)] ok(2) by (fastforce simp: query_ok_def query_state_def)
qed

lemma scan_query:
  assumes "query_ok cs p q" "scan (req_machine relaxed) (req_act buf) cs p rest q = (es, cs', p', q')"
  shows "\<not> hq_fail q'"
  using scan_state_inv [of query_ok, OF move_query assms] by (auto simp: query_ok_def)

text \<open>The marks stay inside the buffer: the checks at the end of a run hold.\<close>

definition req_marks :: "nat \<Rightarrow> nat \<Rightarrow> http_parser \<Rightarrow> bool" where
  "req_marks N p q \<longleftrightarrow> hq_mark q \<le> p \<and> hq_field_start q \<le> p \<and> hq_field_len q \<le> p \<and> hq_mark q < N \<and> hq_field_start q < N
     \<and> hq_body_start q \<le> N \<and> hq_nread q = 0"

lemma req_act_marks:
  assumes "p < length buf" "req_marks (length buf) p q" "req_act buf a p q = (es, q1, out)"
  shows "if out = None then req_marks (length buf) p q1 else req_marks (length buf) (Suc p) q1"
  using assms by (cases a) (auto simp: req_marks_def split: if_splits)

lemma req_marks_Suc: "req_marks N p q \<Longrightarrow> req_marks N (Suc p) q"
  by (simp add: req_marks_def)

lemma req_cs:
  assumes "scan m (req_act buf) cs p rest q = (es, cs', p', q')"
  shows "hq_cs q' = hq_cs q"
proof -
  have "hq_cs q1 = hq_cs q" if "do_actions (req_act buf) as p q = (es, q1, out)" for as p es out and q q1
    using that
  proof (induction as arbitrary: q es q1 out)
    case (Cons a as)
    obtain es1 q2 o2 where a: "req_act buf a p q = (es1, q2, o2)" by (metis surj_pair)
    have "hq_cs q2 = hq_cs q" using a by (cases a) (auto split: if_splits)
    then show ?case using Cons a by (cases o2) (auto split: prod.splits)
  qed simp
  then have "\<And>cs c as s p q' es q1 out. hq_cs q' = hq_cs q \<Longrightarrow> do_actions (req_act buf) as p q' = (es, q1, out) \<Longrightarrow> hq_cs q1 = hq_cs q"
    by metis
  then show ?thesis using scan_state_inv [of "\<lambda>cs p q'. hq_cs q' = hq_cs q" m "req_act buf" cs p q rest es cs' p' q'] assms by blast
qed

abbreviation unmarked :: "http_parser \<Rightarrow> http_parser" where
  "unmarked q \<equiv> q\<lparr>hq_nread := 0, hq_mark := 0, hq_field_len := 0, hq_field_start := 0\<rparr>"

lemma request_frame:
  assumes "buf \<noteq> []" "hq_body_start q \<le> length buf" "hq_cs q \<noteq> 0"
    and "scan (req_machine (hq_uri_relaxed q \<noteq> 0)) (req_act buf) (hq_cs q) 0 buf (unmarked q) = (es, cs', p, q')"
  shows "http_parser_execute q buf = (if hq_fail q' then Inl Length_error else Inr (es, q'\<lparr>hq_cs := cs', hq_nread := p\<rparr>, p)) \<and> p \<le> length buf
    \<and> hq_body_start q' \<le> length buf"
proof -
  have "req_marks (length buf) 0 (unmarked q)" using assms(1,2) by (simp add: req_marks_def)
  from scan_inv [of "length buf" "req_marks (length buf)" "req_act buf", OF req_act_marks req_marks_Suc _ this assms(4)]
  have "req_marks (length buf) p q'" "p \<le> length buf" by simp_all
  moreover have "hq_cs q' = hq_cs q" using req_cs [OF assms(4)] by simp
  ultimately show ?thesis using assms by (simp add: http_parser_execute_def req_marks_def http_parser_has_error_def)
qed


definition blank_memory :: http_parser where
  "blank_memory = \<lparr>hq_cs = 0, hq_body_start = 0, hq_content_len = 0, hq_nread = 0, hq_mark = 0, hq_field_start = 0, hq_field_len = 0,
     hq_query_start = 0, hq_xml_sent = 0, hq_json_sent = 0, hq_uri_relaxed = 0, hq_fail = False\<rparr>"


end
