(* ===== verification/UriScanner.thy ===== *)
theory UriScanner
  imports Ragel
begin

text \<open>
  The generated scanner of \<^verbatim>\<open>URI::Create\<close> (\<^verbatim>\<open>qslary/net/URI.h\<close>, \<^verbatim>\<open>uri.cc\<close>), state by
  state.  \<^verbatim>\<open>mark\<close> is a position of the text or null; making a \<^verbatim>\<open>std::string\<close> from a null
  mark throws \<^verbatim>\<open>std::logic_error\<close>, which \<open>us_fail\<close> records.  \<^verbatim>\<open>atoi\<close> is \<^verbatim>\<open>strtol\<close>
  converted to \<^verbatim>\<open>int\<close>, as the C library documents it.
\<close>

section \<open>Definitions\<close>

(* net/URI.h 47-53: URI *)
record uri =
  u_scheme :: string
  u_userinfo :: string
  u_host :: string
  u_path :: string
  u_query :: string
  u_fragment :: string
  u_port :: int

datatype uri_action =
    Set_mark
  | Save_scheme
  | Save_port
  | Save_userinfo
  | Save_host
  | Save_path
  | Save_query
  | Save_fragment

(* net/uri.cc 41-171: URI::Create, states *)
definition uri_items1 :: "uri_action item list" where
  "uri_items1 =
    [State 451 [(34, 34, St 0), (35, 35, St 453), (37, 37, St 3), (47, 47, St 458), (58, 58, St 0), (60, 60, St 0), (62, 62, St 0), (63, 63, St 456), (96, 96, St 0), (127, 127, St 0), (65, 90, Tr 461), (0, 32, St 0), (123, 125, St 0), (97, 122, Tr 461), (91, 94, St 0)] (St 452),
     State 452 [(34, 34, St 0), (35, 35, St 453), (37, 37, St 3), (47, 47, St 455), (58, 58, St 0), (60, 60, St 0), (62, 62, St 0), (63, 63, St 456), (96, 96, St 0), (127, 127, St 0), (0, 32, St 0), (123, 125, St 0), (91, 94, St 0)] (St 452),
     Trans 467 [Set_mark, Save_query] 453,
     Trans 469 [Save_query] 453,
     Trans 474 [Set_mark, Save_host] 453,
     Trans 485 [Save_host] 453,
     Trans 489 [Set_mark, Save_port] 453,
     Trans 493 [Save_port] 453,
     Trans 548 [Set_mark, Save_host, Save_path] 453]"

(* net/uri.cc 172-313: URI::Create, states *)
definition uri_items2 :: "uri_action item list" where
  "uri_items2 =
    [Trans 559 [Save_host, Set_mark, Save_path] 453,
     Trans 563 [Save_path] 453,
     Trans 566 [Set_mark, Save_port, Save_path] 453,
     Trans 570 [Save_port, Set_mark, Save_path] 453,
     State 453 [(37, 37, Tr 463), (60, 60, St 0), (62, 62, St 0), (96, 96, St 0), (127, 127, St 0), (0, 32, St 0), (123, 125, St 0), (91, 94, St 0), (34, 35, St 0)] (Tr 462),
     Trans 462 [Set_mark] 454,
     State 454 [(37, 37, St 1), (60, 60, St 0), (62, 62, St 0), (96, 96, St 0), (127, 127, St 0), (0, 32, St 0), (123, 125, St 0), (91, 94, St 0), (34, 35, St 0)] (St 454),
     Trans 463 [Set_mark] 1,
     State 1 [(48, 57, St 2), (97, 102, St 2), (65, 70, St 2)] (St 0),
     State 2 [(48, 57, St 454), (97, 102, St 454), (65, 70, St 454)] (St 0)]"

(* net/uri.cc 314-449: URI::Create, states *)
definition uri_items3 :: "uri_action item list" where
  "uri_items3 =
    [State 3 [(48, 57, St 4), (97, 102, St 4), (65, 70, St 4)] (St 0),
     State 4 [(48, 57, St 452), (97, 102, St 452), (65, 70, St 452)] (St 0),
     Trans 476 [Set_mark, Save_host] 455,
     Trans 486 [Save_host] 455,
     Trans 490 [Set_mark, Save_port] 455,
     Trans 494 [Save_port] 455,
     State 455 [(34, 34, St 0), (35, 35, St 453), (37, 37, St 5), (60, 60, St 0), (62, 62, St 0), (63, 63, St 456), (96, 96, St 0), (127, 127, St 0), (0, 32, St 0), (123, 125, St 0), (91, 94, St 0)] (St 455),
     State 5 [(48, 57, St 6), (97, 102, St 6), (65, 70, St 6)] (St 0),
     State 6 [(48, 57, St 455), (97, 102, St 455), (65, 70, St 455)] (St 0),
     Trans 482 [Set_mark, Save_host] 456,
     Trans 488 [Save_host] 456]"

(* net/uri.cc 450-595: URI::Create, states *)
definition uri_items4 :: "uri_action item list" where
  "uri_items4 =
    [Trans 492 [Set_mark, Save_port] 456,
     Trans 496 [Save_port] 456,
     Trans 556 [Set_mark, Save_host, Save_path] 456,
     Trans 562 [Save_host, Set_mark, Save_path] 456,
     Trans 565 [Save_path] 456,
     Trans 569 [Set_mark, Save_port, Save_path] 456,
     Trans 573 [Save_port, Set_mark, Save_path] 456,
     State 456 [(34, 34, St 0), (35, 35, Tr 467), (37, 37, Tr 468), (60, 60, St 0), (62, 62, St 0), (96, 96, St 0), (127, 127, St 0), (0, 32, St 0), (123, 125, St 0), (91, 94, St 0)] (Tr 466),
     Trans 466 [Set_mark] 457,
     State 457 [(34, 34, St 0), (35, 35, Tr 469), (37, 37, St 7), (60, 60, St 0), (62, 62, St 0), (96, 96, St 0), (127, 127, St 0), (0, 32, St 0), (123, 125, St 0), (91, 94, St 0)] (St 457)]"

(* net/uri.cc 596-737: URI::Create, states *)
definition uri_items5 :: "uri_action item list" where
  "uri_items5 =
    [Trans 468 [Set_mark] 7,
     State 7 [(48, 57, St 8), (97, 102, St 8), (65, 70, St 8)] (St 0),
     State 8 [(48, 57, St 457), (97, 102, St 457), (65, 70, St 457)] (St 0),
     State 458 [(34, 34, St 0), (35, 35, St 453), (37, 37, St 5), (47, 47, St 459), (60, 60, St 0), (62, 62, St 0), (63, 63, St 456), (96, 96, St 0), (127, 127, St 0), (0, 32, St 0), (123, 125, St 0), (91, 94, St 0)] (St 455),
     State 459 [(2, 2, Tr 472), (33, 33, Tr 473), (35, 35, Tr 474), (37, 37, Tr 475), (47, 47, Tr 476), (48, 48, Tr 477), (49, 49, Tr 478), (50, 50, Tr 479), (58, 58, Tr 481), (59, 59, Tr 473), (61, 61, Tr 473), (63, 63, Tr 482), (64, 64, Tr 483), (91, 91, Tr 484), (95, 95, Tr 473), (126, 126, Tr 473), (36, 36, Tr 473), (38, 46, Tr 473), (97, 122, Tr 473), (65, 90, Tr 473), (51, 57, Tr 480)] (St 0),
     Trans 472 [Set_mark] 9,
     State 9 [(48, 52, St 10)] (St 0),
     State 10 [(48, 57, St 11)] (St 0),
     State 11 [(46, 46, St 12)] (St 0),
     State 12 [(2, 2, St 13), (48, 48, St 15), (49, 49, St 27), (50, 50, St 29), (51, 57, St 28)] (St 0),
     State 13 [(48, 52, St 14)] (St 0),
     State 14 [(48, 57, St 15)] (St 0)]"

(* net/uri.cc 738-879: URI::Create, states *)
definition uri_items6 :: "uri_action item list" where
  "uri_items6 =
    [State 15 [(46, 46, St 16)] (St 0),
     State 16 [(2, 2, St 17), (48, 48, St 19), (49, 49, St 23), (50, 50, St 25), (51, 57, St 24)] (St 0),
     State 17 [(48, 52, St 18)] (St 0),
     State 18 [(48, 57, St 19)] (St 0),
     State 19 [(46, 46, St 20)] (St 0),
     State 20 [(2, 2, St 21), (48, 48, St 460), (49, 49, St 463), (50, 50, St 465), (51, 57, St 464)] (St 0),
     State 21 [(48, 52, St 22)] (St 0),
     State 22 [(48, 57, St 460)] (St 0),
     State 460 [(35, 35, Tr 485), (47, 47, Tr 486), (58, 58, Tr 487), (63, 63, Tr 488)] (St 0),
     Trans 507 [Set_mark, Save_host] 461,
     Trans 487 [Save_host] 461,
     State 461 [(35, 35, Tr 489), (47, 47, Tr 490), (63, 63, Tr 492), (48, 57, Tr 491)] (St 0),
     Trans 491 [Set_mark] 462,
     State 462 [(35, 35, Tr 493), (47, 47, Tr 494), (63, 63, Tr 496), (48, 57, St 462)] (St 0),
     State 463 [(35, 35, Tr 485), (47, 47, Tr 486), (58, 58, Tr 487), (63, 63, Tr 488), (48, 57, St 464)] (St 0)]"

(* net/uri.cc 880-1025: URI::Create, states *)
definition uri_items7 :: "uri_action item list" where
  "uri_items7 =
    [State 464 [(35, 35, Tr 485), (47, 47, Tr 486), (58, 58, Tr 487), (63, 63, Tr 488), (48, 57, St 460)] (St 0),
     State 465 [(35, 35, Tr 485), (47, 47, Tr 486), (53, 53, St 466), (58, 58, Tr 487), (63, 63, Tr 488), (48, 52, St 460), (54, 57, St 460)] (St 0),
     State 466 [(35, 35, Tr 485), (47, 47, Tr 486), (58, 58, Tr 487), (63, 63, Tr 488), (48, 53, St 460)] (St 0),
     State 23 [(46, 46, St 20), (48, 57, St 24)] (St 0),
     State 24 [(46, 46, St 20), (48, 57, St 19)] (St 0),
     State 25 [(46, 46, St 20), (53, 53, St 26), (48, 52, St 19), (54, 57, St 19)] (St 0),
     State 26 [(46, 46, St 20), (48, 53, St 19)] (St 0),
     State 27 [(46, 46, St 16), (48, 57, St 28)] (St 0),
     State 28 [(46, 46, St 16), (48, 57, St 15)] (St 0),
     State 29 [(46, 46, St 16), (53, 53, St 30), (48, 52, St 15), (54, 57, St 15)] (St 0),
     State 30 [(46, 46, St 16), (48, 53, St 15)] (St 0),
     Trans 473 [Set_mark] 467,
     State 467 [(33, 33, St 467), (35, 35, Tr 485), (37, 37, St 31), (47, 47, Tr 486), (58, 58, Tr 499), (61, 61, St 467), (63, 63, Tr 488), (64, 64, Tr 38), (95, 95, St 467), (126, 126, St 467), (36, 36, St 467), (38, 46, St 467), (48, 57, St 467), (59, 59, St 467), (97, 122, St 467), (65, 90, St 467)] (St 0)]"

(* net/uri.cc 1026-1157: URI::Create, states *)
definition uri_items8 :: "uri_action item list" where
  "uri_items8 =
    [Trans 475 [Set_mark] 31,
     State 31 [(48, 57, St 32), (97, 102, St 32), (65, 70, St 32)] (St 0),
     State 32 [(48, 57, St 467), (97, 102, St 467), (65, 70, St 467)] (St 0),
     Trans 481 [Set_mark, Save_host] 468,
     Trans 499 [Save_host] 468,
     State 468 [(33, 33, St 33), (35, 35, Tr 489), (37, 37, St 34), (47, 47, Tr 490), (61, 61, St 33), (63, 63, Tr 492), (64, 64, Tr 38), (95, 95, St 33), (126, 126, St 33), (48, 57, Tr 500), (36, 36, St 33), (38, 46, St 33), (97, 122, St 33), (65, 90, St 33), (58, 59, St 33)] (St 0),
     State 33 [(33, 33, St 33), (37, 37, St 34), (61, 61, St 33), (64, 64, Tr 38), (95, 95, St 33), (126, 126, St 33), (36, 36, St 33), (38, 46, St 33), (97, 122, St 33), (65, 90, St 33), (48, 59, St 33)] (St 0),
     State 34 [(48, 57, St 35), (97, 102, St 35), (65, 70, St 35)] (St 0),
     State 35 [(48, 57, St 33), (97, 102, St 33), (65, 70, St 33)] (St 0)]"

(* net/uri.cc 1158-1303: URI::Create, states *)
definition uri_items9 :: "uri_action item list" where
  "uri_items9 =
    [Trans 38 [Save_userinfo] 469,
     Trans 483 [Set_mark, Save_userinfo] 469,
     State 469 [(2, 2, Tr 472), (33, 33, Tr 501), (35, 35, Tr 474), (37, 37, Tr 502), (47, 47, Tr 476), (48, 48, Tr 503), (49, 49, Tr 504), (50, 50, Tr 505), (58, 58, Tr 507), (59, 59, Tr 501), (61, 61, Tr 501), (63, 63, Tr 482), (91, 91, Tr 484), (95, 95, Tr 501), (126, 126, Tr 501), (36, 36, Tr 501), (38, 46, Tr 501), (97, 122, Tr 501), (65, 90, Tr 501), (51, 57, Tr 506)] (St 0),
     Trans 501 [Set_mark] 470,
     State 470 [(33, 33, St 470), (35, 35, Tr 485), (37, 37, St 36), (47, 47, Tr 486), (58, 58, Tr 487), (61, 61, St 470), (63, 63, Tr 488), (95, 95, St 470), (126, 126, St 470), (36, 36, St 470), (38, 46, St 470), (48, 57, St 470), (59, 59, St 470), (97, 122, St 470), (65, 90, St 470)] (St 0),
     Trans 502 [Set_mark] 36,
     State 36 [(48, 57, St 37), (97, 102, St 37), (65, 70, St 37)] (St 0),
     State 37 [(48, 57, St 470), (97, 102, St 470), (65, 70, St 470)] (St 0),
     Trans 503 [Set_mark] 471,
     State 471 [(33, 33, St 470), (35, 35, Tr 485), (37, 37, St 36), (46, 46, St 472), (47, 47, Tr 486), (58, 58, Tr 487), (61, 61, St 470), (63, 63, Tr 488), (95, 95, St 470), (126, 126, St 470), (36, 36, St 470), (38, 45, St 470), (48, 57, St 470), (59, 59, St 470), (97, 122, St 470), (65, 90, St 470)] (St 0)]"

(* net/uri.cc 1304-1442: URI::Create, states *)
definition uri_items10 :: "uri_action item list" where
  "uri_items10 =
    [State 472 [(2, 2, St 13), (33, 33, St 470), (35, 35, Tr 485), (37, 37, St 36), (47, 47, Tr 486), (48, 48, St 473), (49, 49, St 481), (50, 50, St 483), (58, 58, Tr 487), (59, 59, St 470), (61, 61, St 470), (63, 63, Tr 488), (95, 95, St 470), (126, 126, St 470), (36, 36, St 470), (38, 46, St 470), (97, 122, St 470), (65, 90, St 470), (51, 57, St 482)] (St 0),
     State 473 [(33, 33, St 470), (35, 35, Tr 485), (37, 37, St 36), (46, 46, St 474), (47, 47, Tr 486), (58, 58, Tr 487), (61, 61, St 470), (63, 63, Tr 488), (95, 95, St 470), (126, 126, St 470), (36, 36, St 470), (38, 45, St 470), (48, 57, St 470), (59, 59, St 470), (97, 122, St 470), (65, 90, St 470)] (St 0),
     State 474 [(2, 2, St 17), (33, 33, St 470), (35, 35, Tr 485), (37, 37, St 36), (47, 47, Tr 486), (48, 48, St 475), (49, 49, St 477), (50, 50, St 479), (58, 58, Tr 487), (59, 59, St 470), (61, 61, St 470), (63, 63, Tr 488), (95, 95, St 470), (126, 126, St 470), (36, 36, St 470), (38, 46, St 470), (97, 122, St 470), (65, 90, St 470), (51, 57, St 478)] (St 0),
     State 475 [(33, 33, St 470), (35, 35, Tr 485), (37, 37, St 36), (46, 46, St 476), (47, 47, Tr 486), (58, 58, Tr 487), (61, 61, St 470), (63, 63, Tr 488), (95, 95, St 470), (126, 126, St 470), (36, 36, St 470), (38, 45, St 470), (48, 57, St 470), (59, 59, St 470), (97, 122, St 470), (65, 90, St 470)] (St 0),
     State 476 [(2, 2, St 21), (33, 33, St 470), (35, 35, Tr 485), (37, 37, St 36), (47, 47, Tr 486), (58, 58, Tr 487), (61, 61, St 470), (63, 63, Tr 488), (95, 95, St 470), (126, 126, St 470), (36, 36, St 470), (38, 46, St 470), (48, 57, St 470), (59, 59, St 470), (97, 122, St 470), (65, 90, St 470)] (St 0)]"

(* net/uri.cc 1443-1590: URI::Create, states *)
definition uri_items11 :: "uri_action item list" where
  "uri_items11 =
    [State 477 [(33, 33, St 470), (35, 35, Tr 485), (37, 37, St 36), (46, 46, St 476), (47, 47, Tr 486), (58, 58, Tr 487), (59, 59, St 470), (61, 61, St 470), (63, 63, Tr 488), (95, 95, St 470), (126, 126, St 470), (36, 36, St 470), (38, 45, St 470), (97, 122, St 470), (65, 90, St 470), (48, 57, St 478)] (St 0),
     State 478 [(33, 33, St 470), (35, 35, Tr 485), (37, 37, St 36), (46, 46, St 476), (47, 47, Tr 486), (58, 58, Tr 487), (59, 59, St 470), (61, 61, St 470), (63, 63, Tr 488), (95, 95, St 470), (126, 126, St 470), (36, 36, St 470), (38, 45, St 470), (97, 122, St 470), (65, 90, St 470), (48, 57, St 475)] (St 0),
     State 479 [(33, 33, St 470), (35, 35, Tr 485), (37, 37, St 36), (46, 46, St 476), (47, 47, Tr 486), (53, 53, St 480), (58, 58, Tr 487), (59, 59, St 470), (61, 61, St 470), (63, 63, Tr 488), (95, 95, St 470), (126, 126, St 470), (36, 36, St 470), (38, 45, St 470), (97, 122, St 470), (65, 90, St 470), (48, 52, St 475), (54, 57, St 475)] (St 0),
     State 480 [(33, 33, St 470), (35, 35, Tr 485), (37, 37, St 36), (46, 46, St 476), (47, 47, Tr 486), (58, 58, Tr 487), (61, 61, St 470), (63, 63, Tr 488), (95, 95, St 470), (126, 126, St 470), (48, 53, St 475), (36, 36, St 470), (38, 45, St 470), (97, 122, St 470), (65, 90, St 470), (54, 57, St 470), (59, 59, St 470)] (St 0),
     State 481 [(33, 33, St 470), (35, 35, Tr 485), (37, 37, St 36), (46, 46, St 474), (47, 47, Tr 486), (58, 58, Tr 487), (59, 59, St 470), (61, 61, St 470), (63, 63, Tr 488), (95, 95, St 470), (126, 126, St 470), (36, 36, St 470), (38, 45, St 470), (97, 122, St 470), (65, 90, St 470), (48, 57, St 482)] (St 0)]"

(* net/uri.cc 1591-1748: URI::Create, states *)
definition uri_items12 :: "uri_action item list" where
  "uri_items12 =
    [State 482 [(33, 33, St 470), (35, 35, Tr 485), (37, 37, St 36), (46, 46, St 474), (47, 47, Tr 486), (58, 58, Tr 487), (59, 59, St 470), (61, 61, St 470), (63, 63, Tr 488), (95, 95, St 470), (126, 126, St 470), (36, 36, St 470), (38, 45, St 470), (97, 122, St 470), (65, 90, St 470), (48, 57, St 473)] (St 0),
     State 483 [(33, 33, St 470), (35, 35, Tr 485), (37, 37, St 36), (46, 46, St 474), (47, 47, Tr 486), (53, 53, St 484), (58, 58, Tr 487), (59, 59, St 470), (61, 61, St 470), (63, 63, Tr 488), (95, 95, St 470), (126, 126, St 470), (36, 36, St 470), (38, 45, St 470), (97, 122, St 470), (65, 90, St 470), (48, 52, St 473), (54, 57, St 473)] (St 0),
     State 484 [(33, 33, St 470), (35, 35, Tr 485), (37, 37, St 36), (46, 46, St 474), (47, 47, Tr 486), (58, 58, Tr 487), (61, 61, St 470), (63, 63, Tr 488), (95, 95, St 470), (126, 126, St 470), (48, 53, St 473), (36, 36, St 470), (38, 45, St 470), (97, 122, St 470), (65, 90, St 470), (54, 57, St 470), (59, 59, St 470)] (St 0),
     Trans 504 [Set_mark] 485,
     State 485 [(33, 33, St 470), (35, 35, Tr 485), (37, 37, St 36), (46, 46, St 472), (47, 47, Tr 486), (58, 58, Tr 487), (59, 59, St 470), (61, 61, St 470), (63, 63, Tr 488), (95, 95, St 470), (126, 126, St 470), (36, 36, St 470), (38, 45, St 470), (97, 122, St 470), (65, 90, St 470), (48, 57, St 486)] (St 0),
     Trans 506 [Set_mark] 486,
     State 486 [(33, 33, St 470), (35, 35, Tr 485), (37, 37, St 36), (46, 46, St 472), (47, 47, Tr 486), (58, 58, Tr 487), (59, 59, St 470), (61, 61, St 470), (63, 63, Tr 488), (95, 95, St 470), (126, 126, St 470), (36, 36, St 470), (38, 45, St 470), (97, 122, St 470), (65, 90, St 470), (48, 57, St 471)] (St 0)]"

(* net/uri.cc 1749-1888: URI::Create, states *)
definition uri_items13 :: "uri_action item list" where
  "uri_items13 =
    [Trans 505 [Set_mark] 487,
     State 487 [(33, 33, St 470), (35, 35, Tr 485), (37, 37, St 36), (46, 46, St 472), (47, 47, Tr 486), (53, 53, St 488), (58, 58, Tr 487), (59, 59, St 470), (61, 61, St 470), (63, 63, Tr 488), (95, 95, St 470), (126, 126, St 470), (36, 36, St 470), (38, 45, St 470), (97, 122, St 470), (65, 90, St 470), (48, 52, St 471), (54, 57, St 471)] (St 0),
     State 488 [(33, 33, St 470), (35, 35, Tr 485), (37, 37, St 36), (46, 46, St 472), (47, 47, Tr 486), (58, 58, Tr 487), (61, 61, St 470), (63, 63, Tr 488), (95, 95, St 470), (126, 126, St 470), (48, 53, St 471), (36, 36, St 470), (38, 45, St 470), (97, 122, St 470), (65, 90, St 470), (54, 57, St 470), (59, 59, St 470)] (St 0),
     Trans 484 [Set_mark] 38,
     State 38 [(58, 58, St 146), (118, 118, St 225), (48, 57, St 39), (97, 102, St 39), (65, 70, St 39)] (St 0),
     State 39 [(58, 58, St 43), (48, 57, St 40), (97, 102, St 40), (65, 70, St 40)] (St 0),
     State 40 [(58, 58, St 43), (48, 57, St 41), (97, 102, St 41), (65, 70, St 41)] (St 0),
     State 41 [(58, 58, St 43), (48, 57, St 42), (97, 102, St 42), (65, 70, St 42)] (St 0),
     State 42 [(58, 58, St 43)] (St 0)]"

(* net/uri.cc 1889-2037: URI::Create, states *)
definition uri_items14 :: "uri_action item list" where
  "uri_items14 =
    [State 43 [(58, 58, St 141), (48, 57, St 44), (97, 102, St 44), (65, 70, St 44)] (St 0),
     State 44 [(58, 58, St 48), (48, 57, St 45), (97, 102, St 45), (65, 70, St 45)] (St 0),
     State 45 [(58, 58, St 48), (48, 57, St 46), (97, 102, St 46), (65, 70, St 46)] (St 0),
     State 46 [(58, 58, St 48), (48, 57, St 47), (97, 102, St 47), (65, 70, St 47)] (St 0),
     State 47 [(58, 58, St 48)] (St 0),
     State 48 [(58, 58, St 136), (48, 57, St 49), (97, 102, St 49), (65, 70, St 49)] (St 0),
     State 49 [(58, 58, St 53), (48, 57, St 50), (97, 102, St 50), (65, 70, St 50)] (St 0),
     State 50 [(58, 58, St 53), (48, 57, St 51), (97, 102, St 51), (65, 70, St 51)] (St 0),
     State 51 [(58, 58, St 53), (48, 57, St 52), (97, 102, St 52), (65, 70, St 52)] (St 0),
     State 52 [(58, 58, St 53)] (St 0),
     State 53 [(58, 58, St 131), (48, 57, St 54), (97, 102, St 54), (65, 70, St 54)] (St 0)]"

(* net/uri.cc 2038-2186: URI::Create, states *)
definition uri_items15 :: "uri_action item list" where
  "uri_items15 =
    [State 54 [(58, 58, St 58), (48, 57, St 55), (97, 102, St 55), (65, 70, St 55)] (St 0),
     State 55 [(58, 58, St 58), (48, 57, St 56), (97, 102, St 56), (65, 70, St 56)] (St 0),
     State 56 [(58, 58, St 58), (48, 57, St 57), (97, 102, St 57), (65, 70, St 57)] (St 0),
     State 57 [(58, 58, St 58)] (St 0),
     State 58 [(58, 58, St 126), (48, 57, St 59), (97, 102, St 59), (65, 70, St 59)] (St 0),
     State 59 [(58, 58, St 63), (48, 57, St 60), (97, 102, St 60), (65, 70, St 60)] (St 0),
     State 60 [(58, 58, St 63), (48, 57, St 61), (97, 102, St 61), (65, 70, St 61)] (St 0),
     State 61 [(58, 58, St 63), (48, 57, St 62), (97, 102, St 62), (65, 70, St 62)] (St 0),
     State 62 [(58, 58, St 63)] (St 0),
     State 63 [(58, 58, St 113), (48, 57, St 64), (97, 102, St 64), (65, 70, St 64)] (St 0),
     State 64 [(58, 58, St 68), (48, 57, St 65), (97, 102, St 65), (65, 70, St 65)] (St 0)]"

(* net/uri.cc 2187-2325: URI::Create, states *)
definition uri_items16 :: "uri_action item list" where
  "uri_items16 =
    [State 65 [(58, 58, St 68), (48, 57, St 66), (97, 102, St 66), (65, 70, St 66)] (St 0),
     State 66 [(58, 58, St 68), (48, 57, St 67), (97, 102, St 67), (65, 70, St 67)] (St 0),
     State 67 [(58, 58, St 68)] (St 0),
     State 68 [(2, 2, St 69), (48, 48, St 96), (49, 49, St 104), (50, 50, St 107), (58, 58, St 111), (51, 57, St 110), (97, 102, St 112), (65, 70, St 112)] (St 0),
     State 69 [(48, 52, St 70)] (St 0),
     State 70 [(48, 57, St 71)] (St 0),
     State 71 [(46, 46, St 72)] (St 0),
     State 72 [(2, 2, St 73), (48, 48, St 75), (49, 49, St 92), (50, 50, St 94), (51, 57, St 93)] (St 0),
     State 73 [(48, 52, St 74)] (St 0),
     State 74 [(48, 57, St 75)] (St 0),
     State 75 [(46, 46, St 76)] (St 0),
     State 76 [(2, 2, St 77), (48, 48, St 79), (49, 49, St 88), (50, 50, St 90), (51, 57, St 89)] (St 0),
     State 77 [(48, 52, St 78)] (St 0),
     State 78 [(48, 57, St 79)] (St 0)]"

(* net/uri.cc 2326-2471: URI::Create, states *)
definition uri_items17 :: "uri_action item list" where
  "uri_items17 =
    [State 79 [(46, 46, St 80)] (St 0),
     State 80 [(2, 2, St 81), (48, 48, St 83), (49, 49, St 84), (50, 50, St 86), (51, 57, St 85)] (St 0),
     State 81 [(48, 52, St 82)] (St 0),
     State 82 [(48, 57, St 83)] (St 0),
     State 83 [(93, 93, St 460)] (St 0),
     State 84 [(93, 93, St 460), (48, 57, St 85)] (St 0),
     State 85 [(93, 93, St 460), (48, 57, St 83)] (St 0),
     State 86 [(53, 53, St 87), (93, 93, St 460), (48, 52, St 83), (54, 57, St 83)] (St 0),
     State 87 [(93, 93, St 460), (48, 53, St 83)] (St 0),
     State 88 [(46, 46, St 80), (48, 57, St 89)] (St 0),
     State 89 [(46, 46, St 80), (48, 57, St 79)] (St 0),
     State 90 [(46, 46, St 80), (53, 53, St 91), (48, 52, St 79), (54, 57, St 79)] (St 0),
     State 91 [(46, 46, St 80), (48, 53, St 79)] (St 0),
     State 92 [(46, 46, St 76), (48, 57, St 93)] (St 0),
     State 93 [(46, 46, St 76), (48, 57, St 75)] (St 0),
     State 94 [(46, 46, St 76), (53, 53, St 95), (48, 52, St 75), (54, 57, St 75)] (St 0)]"

(* net/uri.cc 2472-2611: URI::Create, states *)
definition uri_items18 :: "uri_action item list" where
  "uri_items18 =
    [State 95 [(46, 46, St 76), (48, 53, St 75)] (St 0),
     State 96 [(46, 46, St 72), (58, 58, St 100), (48, 57, St 97), (97, 102, St 97), (65, 70, St 97)] (St 0),
     State 97 [(58, 58, St 100), (48, 57, St 98), (97, 102, St 98), (65, 70, St 98)] (St 0),
     State 98 [(58, 58, St 100), (48, 57, St 99), (97, 102, St 99), (65, 70, St 99)] (St 0),
     State 99 [(58, 58, St 100)] (St 0),
     State 100 [(58, 58, St 83), (48, 57, St 101), (97, 102, St 101), (65, 70, St 101)] (St 0),
     State 101 [(93, 93, St 460), (48, 57, St 102), (97, 102, St 102), (65, 70, St 102)] (St 0),
     State 102 [(93, 93, St 460), (48, 57, St 103), (97, 102, St 103), (65, 70, St 103)] (St 0),
     State 103 [(93, 93, St 460), (48, 57, St 83), (97, 102, St 83), (65, 70, St 83)] (St 0),
     State 104 [(46, 46, St 72), (58, 58, St 100), (48, 57, St 105), (97, 102, St 97), (65, 70, St 97)] (St 0)]"

(* net/uri.cc 2612-2764: URI::Create, states *)
definition uri_items19 :: "uri_action item list" where
  "uri_items19 =
    [State 105 [(46, 46, St 72), (58, 58, St 100), (48, 57, St 106), (97, 102, St 98), (65, 70, St 98)] (St 0),
     State 106 [(46, 46, St 72), (58, 58, St 100), (48, 57, St 99), (97, 102, St 99), (65, 70, St 99)] (St 0),
     State 107 [(46, 46, St 72), (53, 53, St 109), (58, 58, St 100), (48, 52, St 108), (54, 57, St 108), (97, 102, St 97), (65, 70, St 97)] (St 0),
     State 108 [(46, 46, St 72), (58, 58, St 100), (48, 57, St 98), (97, 102, St 98), (65, 70, St 98)] (St 0),
     State 109 [(46, 46, St 72), (58, 58, St 100), (48, 53, St 106), (97, 102, St 98), (65, 70, St 98), (54, 57, St 98)] (St 0),
     State 110 [(46, 46, St 72), (58, 58, St 100), (48, 57, St 108), (97, 102, St 97), (65, 70, St 97)] (St 0),
     State 111 [(48, 57, St 101), (97, 102, St 101), (65, 70, St 101)] (St 0),
     State 112 [(58, 58, St 100), (48, 57, St 97), (97, 102, St 97), (65, 70, St 97)] (St 0),
     State 113 [(2, 2, St 69), (48, 48, St 114), (49, 49, St 118), (50, 50, St 121), (51, 57, St 124), (97, 102, St 125), (65, 70, St 125)] (St 0)]"

(* net/uri.cc 2765-2904: URI::Create, states *)
definition uri_items20 :: "uri_action item list" where
  "uri_items20 =
    [State 114 [(46, 46, St 72), (58, 58, St 111), (48, 57, St 115), (97, 102, St 115), (65, 70, St 115)] (St 0),
     State 115 [(58, 58, St 111), (48, 57, St 116), (97, 102, St 116), (65, 70, St 116)] (St 0),
     State 116 [(58, 58, St 111), (48, 57, St 117), (97, 102, St 117), (65, 70, St 117)] (St 0),
     State 117 [(58, 58, St 111)] (St 0),
     State 118 [(46, 46, St 72), (58, 58, St 111), (48, 57, St 119), (97, 102, St 115), (65, 70, St 115)] (St 0),
     State 119 [(46, 46, St 72), (58, 58, St 111), (48, 57, St 120), (97, 102, St 116), (65, 70, St 116)] (St 0),
     State 120 [(46, 46, St 72), (58, 58, St 111), (48, 57, St 117), (97, 102, St 117), (65, 70, St 117)] (St 0),
     State 121 [(46, 46, St 72), (53, 53, St 123), (58, 58, St 111), (48, 52, St 122), (54, 57, St 122), (97, 102, St 115), (65, 70, St 115)] (St 0),
     State 122 [(46, 46, St 72), (58, 58, St 111), (48, 57, St 116), (97, 102, St 116), (65, 70, St 116)] (St 0)]"

(* net/uri.cc 2905-3049: URI::Create, states *)
definition uri_items21 :: "uri_action item list" where
  "uri_items21 =
    [State 123 [(46, 46, St 72), (58, 58, St 111), (48, 53, St 120), (97, 102, St 116), (65, 70, St 116), (54, 57, St 116)] (St 0),
     State 124 [(46, 46, St 72), (58, 58, St 111), (48, 57, St 122), (97, 102, St 115), (65, 70, St 115)] (St 0),
     State 125 [(58, 58, St 111), (48, 57, St 115), (97, 102, St 115), (65, 70, St 115)] (St 0),
     State 126 [(48, 57, St 127), (97, 102, St 127), (65, 70, St 127)] (St 0),
     State 127 [(58, 58, St 113), (48, 57, St 128), (97, 102, St 128), (65, 70, St 128)] (St 0),
     State 128 [(58, 58, St 113), (48, 57, St 129), (97, 102, St 129), (65, 70, St 129)] (St 0),
     State 129 [(58, 58, St 113), (48, 57, St 130), (97, 102, St 130), (65, 70, St 130)] (St 0),
     State 130 [(58, 58, St 113)] (St 0),
     State 131 [(48, 57, St 132), (97, 102, St 132), (65, 70, St 132)] (St 0),
     State 132 [(58, 58, St 126), (48, 57, St 133), (97, 102, St 133), (65, 70, St 133)] (St 0)]"

(* net/uri.cc 3050-3194: URI::Create, states *)
definition uri_items22 :: "uri_action item list" where
  "uri_items22 =
    [State 133 [(58, 58, St 126), (48, 57, St 134), (97, 102, St 134), (65, 70, St 134)] (St 0),
     State 134 [(58, 58, St 126), (48, 57, St 135), (97, 102, St 135), (65, 70, St 135)] (St 0),
     State 135 [(58, 58, St 126)] (St 0),
     State 136 [(48, 57, St 137), (97, 102, St 137), (65, 70, St 137)] (St 0),
     State 137 [(58, 58, St 131), (48, 57, St 138), (97, 102, St 138), (65, 70, St 138)] (St 0),
     State 138 [(58, 58, St 131), (48, 57, St 139), (97, 102, St 139), (65, 70, St 139)] (St 0),
     State 139 [(58, 58, St 131), (48, 57, St 140), (97, 102, St 140), (65, 70, St 140)] (St 0),
     State 140 [(58, 58, St 131)] (St 0),
     State 141 [(48, 57, St 142), (97, 102, St 142), (65, 70, St 142)] (St 0),
     State 142 [(58, 58, St 136), (48, 57, St 143), (97, 102, St 143), (65, 70, St 143)] (St 0),
     State 143 [(58, 58, St 136), (48, 57, St 144), (97, 102, St 144), (65, 70, St 144)] (St 0)]"

(* net/uri.cc 3195-3341: URI::Create, states *)
definition uri_items23 :: "uri_action item list" where
  "uri_items23 =
    [State 144 [(58, 58, St 136), (48, 57, St 145), (97, 102, St 145), (65, 70, St 145)] (St 0),
     State 145 [(58, 58, St 136)] (St 0),
     State 146 [(58, 58, St 147)] (St 0),
     State 147 [(2, 2, St 69), (48, 48, St 148), (49, 49, St 217), (50, 50, St 220), (93, 93, St 460), (51, 57, St 223), (97, 102, St 224), (65, 70, St 224)] (St 0),
     State 148 [(46, 46, St 72), (58, 58, St 152), (93, 93, St 460), (48, 57, St 149), (97, 102, St 149), (65, 70, St 149)] (St 0),
     State 149 [(58, 58, St 152), (93, 93, St 460), (48, 57, St 150), (97, 102, St 150), (65, 70, St 150)] (St 0),
     State 150 [(58, 58, St 152), (93, 93, St 460), (48, 57, St 151), (97, 102, St 151), (65, 70, St 151)] (St 0),
     State 151 [(58, 58, St 152), (93, 93, St 460)] (St 0),
     State 152 [(2, 2, St 69), (48, 48, St 153), (49, 49, St 209), (50, 50, St 212), (51, 57, St 215), (97, 102, St 216), (65, 70, St 216)] (St 0),
     State 153 [(46, 46, St 72), (58, 58, St 157), (93, 93, St 460), (48, 57, St 154), (97, 102, St 154), (65, 70, St 154)] (St 0)]"

(* net/uri.cc 3342-3483: URI::Create, states *)
definition uri_items24 :: "uri_action item list" where
  "uri_items24 =
    [State 154 [(58, 58, St 157), (93, 93, St 460), (48, 57, St 155), (97, 102, St 155), (65, 70, St 155)] (St 0),
     State 155 [(58, 58, St 157), (93, 93, St 460), (48, 57, St 156), (97, 102, St 156), (65, 70, St 156)] (St 0),
     State 156 [(58, 58, St 157), (93, 93, St 460)] (St 0),
     State 157 [(2, 2, St 69), (48, 48, St 158), (49, 49, St 201), (50, 50, St 204), (51, 57, St 207), (97, 102, St 208), (65, 70, St 208)] (St 0),
     State 158 [(46, 46, St 72), (58, 58, St 162), (93, 93, St 460), (48, 57, St 159), (97, 102, St 159), (65, 70, St 159)] (St 0),
     State 159 [(58, 58, St 162), (93, 93, St 460), (48, 57, St 160), (97, 102, St 160), (65, 70, St 160)] (St 0),
     State 160 [(58, 58, St 162), (93, 93, St 460), (48, 57, St 161), (97, 102, St 161), (65, 70, St 161)] (St 0),
     State 161 [(58, 58, St 162), (93, 93, St 460)] (St 0),
     State 162 [(2, 2, St 69), (48, 48, St 163), (49, 49, St 193), (50, 50, St 196), (51, 57, St 199), (97, 102, St 200), (65, 70, St 200)] (St 0)]"

(* net/uri.cc 3484-3624: URI::Create, states *)
definition uri_items25 :: "uri_action item list" where
  "uri_items25 =
    [State 163 [(46, 46, St 72), (58, 58, St 167), (93, 93, St 460), (48, 57, St 164), (97, 102, St 164), (65, 70, St 164)] (St 0),
     State 164 [(58, 58, St 167), (93, 93, St 460), (48, 57, St 165), (97, 102, St 165), (65, 70, St 165)] (St 0),
     State 165 [(58, 58, St 167), (93, 93, St 460), (48, 57, St 166), (97, 102, St 166), (65, 70, St 166)] (St 0),
     State 166 [(58, 58, St 167), (93, 93, St 460)] (St 0),
     State 167 [(2, 2, St 69), (48, 48, St 168), (49, 49, St 185), (50, 50, St 188), (51, 57, St 191), (97, 102, St 192), (65, 70, St 192)] (St 0),
     State 168 [(46, 46, St 72), (58, 58, St 172), (93, 93, St 460), (48, 57, St 169), (97, 102, St 169), (65, 70, St 169)] (St 0),
     State 169 [(58, 58, St 172), (93, 93, St 460), (48, 57, St 170), (97, 102, St 170), (65, 70, St 170)] (St 0),
     State 170 [(58, 58, St 172), (93, 93, St 460), (48, 57, St 171), (97, 102, St 171), (65, 70, St 171)] (St 0),
     State 171 [(58, 58, St 172), (93, 93, St 460)] (St 0)]"

(* net/uri.cc 3625-3777: URI::Create, states *)
definition uri_items26 :: "uri_action item list" where
  "uri_items26 =
    [State 172 [(2, 2, St 69), (48, 48, St 173), (49, 49, St 177), (50, 50, St 180), (51, 57, St 183), (97, 102, St 184), (65, 70, St 184)] (St 0),
     State 173 [(46, 46, St 72), (58, 58, St 111), (93, 93, St 460), (48, 57, St 174), (97, 102, St 174), (65, 70, St 174)] (St 0),
     State 174 [(58, 58, St 111), (93, 93, St 460), (48, 57, St 175), (97, 102, St 175), (65, 70, St 175)] (St 0),
     State 175 [(58, 58, St 111), (93, 93, St 460), (48, 57, St 176), (97, 102, St 176), (65, 70, St 176)] (St 0),
     State 176 [(58, 58, St 111), (93, 93, St 460)] (St 0),
     State 177 [(46, 46, St 72), (58, 58, St 111), (93, 93, St 460), (48, 57, St 178), (97, 102, St 174), (65, 70, St 174)] (St 0),
     State 178 [(46, 46, St 72), (58, 58, St 111), (93, 93, St 460), (48, 57, St 179), (97, 102, St 175), (65, 70, St 175)] (St 0),
     State 179 [(46, 46, St 72), (58, 58, St 111), (93, 93, St 460), (48, 57, St 176), (97, 102, St 176), (65, 70, St 176)] (St 0),
     State 180 [(46, 46, St 72), (53, 53, St 182), (58, 58, St 111), (93, 93, St 460), (48, 52, St 181), (54, 57, St 181), (97, 102, St 174), (65, 70, St 174)] (St 0)]"

(* net/uri.cc 3778-3924: URI::Create, states *)
definition uri_items27 :: "uri_action item list" where
  "uri_items27 =
    [State 181 [(46, 46, St 72), (58, 58, St 111), (93, 93, St 460), (48, 57, St 175), (97, 102, St 175), (65, 70, St 175)] (St 0),
     State 182 [(46, 46, St 72), (58, 58, St 111), (93, 93, St 460), (48, 53, St 179), (97, 102, St 175), (65, 70, St 175), (54, 57, St 175)] (St 0),
     State 183 [(46, 46, St 72), (58, 58, St 111), (93, 93, St 460), (48, 57, St 181), (97, 102, St 174), (65, 70, St 174)] (St 0),
     State 184 [(58, 58, St 111), (93, 93, St 460), (48, 57, St 174), (97, 102, St 174), (65, 70, St 174)] (St 0),
     State 185 [(46, 46, St 72), (58, 58, St 172), (93, 93, St 460), (48, 57, St 186), (97, 102, St 169), (65, 70, St 169)] (St 0),
     State 186 [(46, 46, St 72), (58, 58, St 172), (93, 93, St 460), (48, 57, St 187), (97, 102, St 170), (65, 70, St 170)] (St 0),
     State 187 [(46, 46, St 72), (58, 58, St 172), (93, 93, St 460), (48, 57, St 171), (97, 102, St 171), (65, 70, St 171)] (St 0),
     State 188 [(46, 46, St 72), (53, 53, St 190), (58, 58, St 172), (93, 93, St 460), (48, 52, St 189), (54, 57, St 189), (97, 102, St 169), (65, 70, St 169)] (St 0)]"

(* net/uri.cc 3925-4071: URI::Create, states *)
definition uri_items28 :: "uri_action item list" where
  "uri_items28 =
    [State 189 [(46, 46, St 72), (58, 58, St 172), (93, 93, St 460), (48, 57, St 170), (97, 102, St 170), (65, 70, St 170)] (St 0),
     State 190 [(46, 46, St 72), (58, 58, St 172), (93, 93, St 460), (48, 53, St 187), (97, 102, St 170), (65, 70, St 170), (54, 57, St 170)] (St 0),
     State 191 [(46, 46, St 72), (58, 58, St 172), (93, 93, St 460), (48, 57, St 189), (97, 102, St 169), (65, 70, St 169)] (St 0),
     State 192 [(58, 58, St 172), (93, 93, St 460), (48, 57, St 169), (97, 102, St 169), (65, 70, St 169)] (St 0),
     State 193 [(46, 46, St 72), (58, 58, St 167), (93, 93, St 460), (48, 57, St 194), (97, 102, St 164), (65, 70, St 164)] (St 0),
     State 194 [(46, 46, St 72), (58, 58, St 167), (93, 93, St 460), (48, 57, St 195), (97, 102, St 165), (65, 70, St 165)] (St 0),
     State 195 [(46, 46, St 72), (58, 58, St 167), (93, 93, St 460), (48, 57, St 166), (97, 102, St 166), (65, 70, St 166)] (St 0),
     State 196 [(46, 46, St 72), (53, 53, St 198), (58, 58, St 167), (93, 93, St 460), (48, 52, St 197), (54, 57, St 197), (97, 102, St 164), (65, 70, St 164)] (St 0)]"

(* net/uri.cc 4072-4218: URI::Create, states *)
definition uri_items29 :: "uri_action item list" where
  "uri_items29 =
    [State 197 [(46, 46, St 72), (58, 58, St 167), (93, 93, St 460), (48, 57, St 165), (97, 102, St 165), (65, 70, St 165)] (St 0),
     State 198 [(46, 46, St 72), (58, 58, St 167), (93, 93, St 460), (48, 53, St 195), (97, 102, St 165), (65, 70, St 165), (54, 57, St 165)] (St 0),
     State 199 [(46, 46, St 72), (58, 58, St 167), (93, 93, St 460), (48, 57, St 197), (97, 102, St 164), (65, 70, St 164)] (St 0),
     State 200 [(58, 58, St 167), (93, 93, St 460), (48, 57, St 164), (97, 102, St 164), (65, 70, St 164)] (St 0),
     State 201 [(46, 46, St 72), (58, 58, St 162), (93, 93, St 460), (48, 57, St 202), (97, 102, St 159), (65, 70, St 159)] (St 0),
     State 202 [(46, 46, St 72), (58, 58, St 162), (93, 93, St 460), (48, 57, St 203), (97, 102, St 160), (65, 70, St 160)] (St 0),
     State 203 [(46, 46, St 72), (58, 58, St 162), (93, 93, St 460), (48, 57, St 161), (97, 102, St 161), (65, 70, St 161)] (St 0),
     State 204 [(46, 46, St 72), (53, 53, St 206), (58, 58, St 162), (93, 93, St 460), (48, 52, St 205), (54, 57, St 205), (97, 102, St 159), (65, 70, St 159)] (St 0)]"

(* net/uri.cc 4219-4365: URI::Create, states *)
definition uri_items30 :: "uri_action item list" where
  "uri_items30 =
    [State 205 [(46, 46, St 72), (58, 58, St 162), (93, 93, St 460), (48, 57, St 160), (97, 102, St 160), (65, 70, St 160)] (St 0),
     State 206 [(46, 46, St 72), (58, 58, St 162), (93, 93, St 460), (48, 53, St 203), (97, 102, St 160), (65, 70, St 160), (54, 57, St 160)] (St 0),
     State 207 [(46, 46, St 72), (58, 58, St 162), (93, 93, St 460), (48, 57, St 205), (97, 102, St 159), (65, 70, St 159)] (St 0),
     State 208 [(58, 58, St 162), (93, 93, St 460), (48, 57, St 159), (97, 102, St 159), (65, 70, St 159)] (St 0),
     State 209 [(46, 46, St 72), (58, 58, St 157), (93, 93, St 460), (48, 57, St 210), (97, 102, St 154), (65, 70, St 154)] (St 0),
     State 210 [(46, 46, St 72), (58, 58, St 157), (93, 93, St 460), (48, 57, St 211), (97, 102, St 155), (65, 70, St 155)] (St 0),
     State 211 [(46, 46, St 72), (58, 58, St 157), (93, 93, St 460), (48, 57, St 156), (97, 102, St 156), (65, 70, St 156)] (St 0),
     State 212 [(46, 46, St 72), (53, 53, St 214), (58, 58, St 157), (93, 93, St 460), (48, 52, St 213), (54, 57, St 213), (97, 102, St 154), (65, 70, St 154)] (St 0)]"

(* net/uri.cc 4366-4512: URI::Create, states *)
definition uri_items31 :: "uri_action item list" where
  "uri_items31 =
    [State 213 [(46, 46, St 72), (58, 58, St 157), (93, 93, St 460), (48, 57, St 155), (97, 102, St 155), (65, 70, St 155)] (St 0),
     State 214 [(46, 46, St 72), (58, 58, St 157), (93, 93, St 460), (48, 53, St 211), (97, 102, St 155), (65, 70, St 155), (54, 57, St 155)] (St 0),
     State 215 [(46, 46, St 72), (58, 58, St 157), (93, 93, St 460), (48, 57, St 213), (97, 102, St 154), (65, 70, St 154)] (St 0),
     State 216 [(58, 58, St 157), (93, 93, St 460), (48, 57, St 154), (97, 102, St 154), (65, 70, St 154)] (St 0),
     State 217 [(46, 46, St 72), (58, 58, St 152), (93, 93, St 460), (48, 57, St 218), (97, 102, St 149), (65, 70, St 149)] (St 0),
     State 218 [(46, 46, St 72), (58, 58, St 152), (93, 93, St 460), (48, 57, St 219), (97, 102, St 150), (65, 70, St 150)] (St 0),
     State 219 [(46, 46, St 72), (58, 58, St 152), (93, 93, St 460), (48, 57, St 151), (97, 102, St 151), (65, 70, St 151)] (St 0),
     State 220 [(46, 46, St 72), (53, 53, St 222), (58, 58, St 152), (93, 93, St 460), (48, 52, St 221), (54, 57, St 221), (97, 102, St 149), (65, 70, St 149)] (St 0)]"

(* net/uri.cc 4513-4661: URI::Create, states *)
definition uri_items32 :: "uri_action item list" where
  "uri_items32 =
    [State 221 [(46, 46, St 72), (58, 58, St 152), (93, 93, St 460), (48, 57, St 150), (97, 102, St 150), (65, 70, St 150)] (St 0),
     State 222 [(46, 46, St 72), (58, 58, St 152), (93, 93, St 460), (48, 53, St 219), (97, 102, St 150), (65, 70, St 150), (54, 57, St 150)] (St 0),
     State 223 [(46, 46, St 72), (58, 58, St 152), (93, 93, St 460), (48, 57, St 221), (97, 102, St 149), (65, 70, St 149)] (St 0),
     State 224 [(58, 58, St 152), (93, 93, St 460), (48, 57, St 149), (97, 102, St 149), (65, 70, St 149)] (St 0),
     State 225 [(48, 57, St 226), (97, 102, St 226), (65, 70, St 226)] (St 0),
     State 226 [(46, 46, St 227), (48, 57, St 226), (97, 102, St 226), (65, 70, St 226)] (St 0),
     State 227 [(33, 33, St 228), (36, 36, St 228), (61, 61, St 228), (95, 95, St 228), (126, 126, St 228), (38, 46, St 228), (97, 122, St 228), (65, 90, St 228), (48, 59, St 228)] (St 0),
     State 228 [(33, 33, St 228), (36, 36, St 228), (61, 61, St 228), (93, 93, St 460), (95, 95, St 228), (126, 126, St 228), (38, 46, St 228), (97, 122, St 228), (65, 90, St 228), (48, 59, St 228)] (St 0)]"

(* net/uri.cc 4662-4819: URI::Create, states *)
definition uri_items33 :: "uri_action item list" where
  "uri_items33 =
    [Trans 500 [Set_mark] 489,
     State 489 [(33, 33, St 33), (35, 35, Tr 493), (37, 37, St 34), (47, 47, Tr 494), (61, 61, St 33), (63, 63, Tr 496), (64, 64, Tr 38), (95, 95, St 33), (126, 126, St 33), (48, 57, St 489), (36, 36, St 33), (38, 46, St 33), (97, 122, St 33), (65, 90, St 33), (58, 59, St 33)] (St 0),
     Trans 477 [Set_mark] 490,
     State 490 [(33, 33, St 467), (35, 35, Tr 485), (37, 37, St 31), (46, 46, St 491), (47, 47, Tr 486), (58, 58, Tr 499), (61, 61, St 467), (63, 63, Tr 488), (64, 64, Tr 38), (95, 95, St 467), (126, 126, St 467), (36, 36, St 467), (38, 45, St 467), (48, 57, St 467), (59, 59, St 467), (97, 122, St 467), (65, 90, St 467)] (St 0),
     State 491 [(2, 2, St 13), (33, 33, St 467), (35, 35, Tr 485), (37, 37, St 31), (47, 47, Tr 486), (48, 48, St 492), (49, 49, St 500), (50, 50, St 502), (58, 58, Tr 499), (59, 59, St 467), (61, 61, St 467), (63, 63, Tr 488), (64, 64, Tr 38), (95, 95, St 467), (126, 126, St 467), (36, 36, St 467), (38, 46, St 467), (97, 122, St 467), (65, 90, St 467), (51, 57, St 501)] (St 0),
     State 492 [(33, 33, St 467), (35, 35, Tr 485), (37, 37, St 31), (46, 46, St 493), (47, 47, Tr 486), (58, 58, Tr 499), (61, 61, St 467), (63, 63, Tr 488), (64, 64, Tr 38), (95, 95, St 467), (126, 126, St 467), (36, 36, St 467), (38, 45, St 467), (48, 57, St 467), (59, 59, St 467), (97, 122, St 467), (65, 90, St 467)] (St 0),
     State 493 [(2, 2, St 17), (33, 33, St 467), (35, 35, Tr 485), (37, 37, St 31), (47, 47, Tr 486), (48, 48, St 494), (49, 49, St 496), (50, 50, St 498), (58, 58, Tr 499), (59, 59, St 467), (61, 61, St 467), (63, 63, Tr 488), (64, 64, Tr 38), (95, 95, St 467), (126, 126, St 467), (36, 36, St 467), (38, 46, St 467), (97, 122, St 467), (65, 90, St 467), (51, 57, St 497)] (St 0)]"

(* net/uri.cc 4820-4962: URI::Create, states *)
definition uri_items34 :: "uri_action item list" where
  "uri_items34 =
    [State 494 [(33, 33, St 467), (35, 35, Tr 485), (37, 37, St 31), (46, 46, St 495), (47, 47, Tr 486), (58, 58, Tr 499), (61, 61, St 467), (63, 63, Tr 488), (64, 64, Tr 38), (95, 95, St 467), (126, 126, St 467), (36, 36, St 467), (38, 45, St 467), (48, 57, St 467), (59, 59, St 467), (97, 122, St 467), (65, 90, St 467)] (St 0),
     State 495 [(2, 2, St 21), (33, 33, St 467), (35, 35, Tr 485), (37, 37, St 31), (47, 47, Tr 486), (58, 58, Tr 499), (61, 61, St 467), (63, 63, Tr 488), (64, 64, Tr 38), (95, 95, St 467), (126, 126, St 467), (36, 36, St 467), (38, 46, St 467), (48, 57, St 467), (59, 59, St 467), (97, 122, St 467), (65, 90, St 467)] (St 0),
     State 496 [(33, 33, St 467), (35, 35, Tr 485), (37, 37, St 31), (46, 46, St 495), (47, 47, Tr 486), (58, 58, Tr 499), (59, 59, St 467), (61, 61, St 467), (63, 63, Tr 488), (64, 64, Tr 38), (95, 95, St 467), (126, 126, St 467), (36, 36, St 467), (38, 45, St 467), (97, 122, St 467), (65, 90, St 467), (48, 57, St 497)] (St 0),
     State 497 [(33, 33, St 467), (35, 35, Tr 485), (37, 37, St 31), (46, 46, St 495), (47, 47, Tr 486), (58, 58, Tr 499), (59, 59, St 467), (61, 61, St 467), (63, 63, Tr 488), (64, 64, Tr 38), (95, 95, St 467), (126, 126, St 467), (36, 36, St 467), (38, 45, St 467), (97, 122, St 467), (65, 90, St 467), (48, 57, St 494)] (St 0),
     State 498 [(33, 33, St 467), (35, 35, Tr 485), (37, 37, St 31), (46, 46, St 495), (47, 47, Tr 486), (53, 53, St 499), (58, 58, Tr 499), (59, 59, St 467), (61, 61, St 467), (63, 63, Tr 488), (64, 64, Tr 38), (95, 95, St 467), (126, 126, St 467), (36, 36, St 467), (38, 45, St 467), (97, 122, St 467), (65, 90, St 467), (48, 52, St 494), (54, 57, St 494)] (St 0)]"

(* net/uri.cc 4963-5117: URI::Create, states *)
definition uri_items35 :: "uri_action item list" where
  "uri_items35 =
    [State 499 [(33, 33, St 467), (35, 35, Tr 485), (37, 37, St 31), (46, 46, St 495), (47, 47, Tr 486), (58, 58, Tr 499), (61, 61, St 467), (63, 63, Tr 488), (64, 64, Tr 38), (95, 95, St 467), (126, 126, St 467), (48, 53, St 494), (36, 36, St 467), (38, 45, St 467), (97, 122, St 467), (65, 90, St 467), (54, 57, St 467), (59, 59, St 467)] (St 0),
     State 500 [(33, 33, St 467), (35, 35, Tr 485), (37, 37, St 31), (46, 46, St 493), (47, 47, Tr 486), (58, 58, Tr 499), (59, 59, St 467), (61, 61, St 467), (63, 63, Tr 488), (64, 64, Tr 38), (95, 95, St 467), (126, 126, St 467), (36, 36, St 467), (38, 45, St 467), (97, 122, St 467), (65, 90, St 467), (48, 57, St 501)] (St 0),
     State 501 [(33, 33, St 467), (35, 35, Tr 485), (37, 37, St 31), (46, 46, St 493), (47, 47, Tr 486), (58, 58, Tr 499), (59, 59, St 467), (61, 61, St 467), (63, 63, Tr 488), (64, 64, Tr 38), (95, 95, St 467), (126, 126, St 467), (36, 36, St 467), (38, 45, St 467), (97, 122, St 467), (65, 90, St 467), (48, 57, St 492)] (St 0),
     State 502 [(33, 33, St 467), (35, 35, Tr 485), (37, 37, St 31), (46, 46, St 493), (47, 47, Tr 486), (53, 53, St 503), (58, 58, Tr 499), (59, 59, St 467), (61, 61, St 467), (63, 63, Tr 488), (64, 64, Tr 38), (95, 95, St 467), (126, 126, St 467), (36, 36, St 467), (38, 45, St 467), (97, 122, St 467), (65, 90, St 467), (48, 52, St 492), (54, 57, St 492)] (St 0),
     State 503 [(33, 33, St 467), (35, 35, Tr 485), (37, 37, St 31), (46, 46, St 493), (47, 47, Tr 486), (58, 58, Tr 499), (61, 61, St 467), (63, 63, Tr 488), (64, 64, Tr 38), (95, 95, St 467), (126, 126, St 467), (48, 53, St 492), (36, 36, St 467), (38, 45, St 467), (97, 122, St 467), (65, 90, St 467), (54, 57, St 467), (59, 59, St 467)] (St 0)]"

(* net/uri.cc 5118-5255: URI::Create, states *)
definition uri_items36 :: "uri_action item list" where
  "uri_items36 =
    [Trans 478 [Set_mark] 504,
     State 504 [(33, 33, St 467), (35, 35, Tr 485), (37, 37, St 31), (46, 46, St 491), (47, 47, Tr 486), (58, 58, Tr 499), (59, 59, St 467), (61, 61, St 467), (63, 63, Tr 488), (64, 64, Tr 38), (95, 95, St 467), (126, 126, St 467), (36, 36, St 467), (38, 45, St 467), (97, 122, St 467), (65, 90, St 467), (48, 57, St 505)] (St 0),
     Trans 480 [Set_mark] 505,
     State 505 [(33, 33, St 467), (35, 35, Tr 485), (37, 37, St 31), (46, 46, St 491), (47, 47, Tr 486), (58, 58, Tr 499), (59, 59, St 467), (61, 61, St 467), (63, 63, Tr 488), (64, 64, Tr 38), (95, 95, St 467), (126, 126, St 467), (36, 36, St 467), (38, 45, St 467), (97, 122, St 467), (65, 90, St 467), (48, 57, St 490)] (St 0),
     Trans 479 [Set_mark] 506,
     State 506 [(33, 33, St 467), (35, 35, Tr 485), (37, 37, St 31), (46, 46, St 491), (47, 47, Tr 486), (53, 53, St 507), (58, 58, Tr 499), (59, 59, St 467), (61, 61, St 467), (63, 63, Tr 488), (64, 64, Tr 38), (95, 95, St 467), (126, 126, St 467), (36, 36, St 467), (38, 45, St 467), (97, 122, St 467), (65, 90, St 467), (48, 52, St 490), (54, 57, St 490)] (St 0),
     State 507 [(33, 33, St 467), (35, 35, Tr 485), (37, 37, St 31), (46, 46, St 491), (47, 47, Tr 486), (58, 58, Tr 499), (61, 61, St 467), (63, 63, Tr 488), (64, 64, Tr 38), (95, 95, St 467), (126, 126, St 467), (48, 53, St 490), (36, 36, St 467), (38, 45, St 467), (97, 122, St 467), (65, 90, St 467), (54, 57, St 467), (59, 59, St 467)] (St 0)]"

(* net/uri.cc 5256-5397: URI::Create, states *)
definition uri_items37 :: "uri_action item list" where
  "uri_items37 =
    [Trans 461 [Set_mark] 508,
     State 508 [(34, 34, St 0), (35, 35, St 453), (37, 37, St 3), (43, 43, St 508), (47, 47, St 455), (58, 58, Tr 543), (60, 60, St 0), (62, 62, St 0), (63, 63, St 456), (96, 96, St 0), (127, 127, St 0), (45, 46, St 508), (48, 57, St 508), (0, 32, St 0), (91, 94, St 0), (123, 125, St 0), (97, 122, St 508), (65, 90, St 508)] (St 452),
     Trans 543 [Save_scheme] 509,
     State 509 [(34, 34, St 0), (35, 35, St 453), (37, 37, St 5), (47, 47, St 510), (60, 60, St 0), (62, 62, St 0), (63, 63, St 456), (96, 96, St 0), (127, 127, St 0), (0, 32, St 0), (123, 125, St 0), (91, 94, St 0)] (St 455),
     State 510 [(34, 34, St 0), (35, 35, St 453), (37, 37, St 5), (47, 47, St 511), (60, 60, St 0), (62, 62, St 0), (63, 63, St 456), (96, 96, St 0), (127, 127, St 0), (0, 32, St 0), (123, 125, St 0), (91, 94, St 0)] (St 455),
     State 511 [(2, 2, Tr 546), (33, 33, Tr 547), (35, 35, Tr 548), (37, 37, Tr 549), (47, 47, Tr 550), (48, 48, Tr 551), (49, 49, Tr 552), (50, 50, Tr 553), (58, 58, Tr 555), (59, 59, Tr 547), (61, 61, Tr 547), (63, 63, Tr 556), (64, 64, Tr 557), (91, 91, Tr 558), (95, 95, Tr 547), (126, 126, Tr 547), (36, 36, Tr 547), (38, 46, Tr 547), (97, 122, Tr 547), (65, 90, Tr 547), (51, 57, Tr 554)] (St 0),
     Trans 546 [Set_mark] 229,
     State 229 [(48, 52, St 230)] (St 0)]"

(* net/uri.cc 5398-5528: URI::Create, states *)
definition uri_items38 :: "uri_action item list" where
  "uri_items38 =
    [State 230 [(48, 57, St 231)] (St 0),
     State 231 [(46, 46, St 232)] (St 0),
     State 232 [(2, 2, St 233), (48, 48, St 235), (49, 49, St 249), (50, 50, St 251), (51, 57, St 250)] (St 0),
     State 233 [(48, 52, St 234)] (St 0),
     State 234 [(48, 57, St 235)] (St 0),
     State 235 [(46, 46, St 236)] (St 0),
     State 236 [(2, 2, St 237), (48, 48, St 239), (49, 49, St 245), (50, 50, St 247), (51, 57, St 246)] (St 0),
     State 237 [(48, 52, St 238)] (St 0),
     State 238 [(48, 57, St 239)] (St 0),
     State 239 [(46, 46, St 240)] (St 0),
     State 240 [(2, 2, St 241), (48, 48, St 512), (49, 49, St 516), (50, 50, St 518), (51, 57, St 517)] (St 0),
     State 241 [(48, 52, St 242)] (St 0),
     State 242 [(48, 57, St 512)] (St 0),
     State 512 [(35, 35, Tr 559), (47, 47, Tr 560), (58, 58, Tr 561), (63, 63, Tr 562)] (St 0),
     Trans 550 [Set_mark, Save_host] 513]"

(* net/uri.cc 5529-5674: URI::Create, states *)
definition uri_items39 :: "uri_action item list" where
  "uri_items39 =
    [Trans 567 [Set_mark, Save_port] 513,
     Trans 560 [Save_host, Set_mark] 513,
     Trans 571 [Save_port, Set_mark] 513,
     State 513 [(34, 34, St 0), (35, 35, Tr 563), (37, 37, St 243), (60, 60, St 0), (62, 62, St 0), (63, 63, Tr 565), (96, 96, St 0), (127, 127, St 0), (0, 32, St 0), (123, 125, St 0), (91, 94, St 0)] (St 513),
     State 243 [(48, 57, St 244), (97, 102, St 244), (65, 70, St 244)] (St 0),
     State 244 [(48, 57, St 513), (97, 102, St 513), (65, 70, St 513)] (St 0),
     Trans 584 [Set_mark, Save_host] 514,
     Trans 561 [Save_host] 514,
     State 514 [(35, 35, Tr 566), (47, 47, Tr 567), (63, 63, Tr 569), (48, 57, Tr 568)] (St 0),
     Trans 568 [Set_mark] 515,
     State 515 [(35, 35, Tr 570), (47, 47, Tr 571), (63, 63, Tr 573), (48, 57, St 515)] (St 0),
     State 516 [(35, 35, Tr 559), (47, 47, Tr 560), (58, 58, Tr 561), (63, 63, Tr 562), (48, 57, St 517)] (St 0)]"

(* net/uri.cc 5675-5820: URI::Create, states *)
definition uri_items40 :: "uri_action item list" where
  "uri_items40 =
    [State 517 [(35, 35, Tr 559), (47, 47, Tr 560), (58, 58, Tr 561), (63, 63, Tr 562), (48, 57, St 512)] (St 0),
     State 518 [(35, 35, Tr 559), (47, 47, Tr 560), (53, 53, St 519), (58, 58, Tr 561), (63, 63, Tr 562), (48, 52, St 512), (54, 57, St 512)] (St 0),
     State 519 [(35, 35, Tr 559), (47, 47, Tr 560), (58, 58, Tr 561), (63, 63, Tr 562), (48, 53, St 512)] (St 0),
     State 245 [(46, 46, St 240), (48, 57, St 246)] (St 0),
     State 246 [(46, 46, St 240), (48, 57, St 239)] (St 0),
     State 247 [(46, 46, St 240), (53, 53, St 248), (48, 52, St 239), (54, 57, St 239)] (St 0),
     State 248 [(46, 46, St 240), (48, 53, St 239)] (St 0),
     State 249 [(46, 46, St 236), (48, 57, St 250)] (St 0),
     State 250 [(46, 46, St 236), (48, 57, St 235)] (St 0),
     State 251 [(46, 46, St 236), (53, 53, St 252), (48, 52, St 235), (54, 57, St 235)] (St 0),
     State 252 [(46, 46, St 236), (48, 53, St 235)] (St 0),
     Trans 547 [Set_mark] 520,
     State 520 [(33, 33, St 520), (35, 35, Tr 559), (37, 37, St 253), (47, 47, Tr 560), (58, 58, Tr 576), (61, 61, St 520), (63, 63, Tr 562), (64, 64, Tr 263), (95, 95, St 520), (126, 126, St 520), (36, 36, St 520), (38, 46, St 520), (48, 57, St 520), (59, 59, St 520), (97, 122, St 520), (65, 90, St 520)] (St 0)]"

(* net/uri.cc 5821-5952: URI::Create, states *)
definition uri_items41 :: "uri_action item list" where
  "uri_items41 =
    [Trans 549 [Set_mark] 253,
     State 253 [(48, 57, St 254), (97, 102, St 254), (65, 70, St 254)] (St 0),
     State 254 [(48, 57, St 520), (97, 102, St 520), (65, 70, St 520)] (St 0),
     Trans 555 [Set_mark, Save_host] 521,
     Trans 576 [Save_host] 521,
     State 521 [(33, 33, St 255), (35, 35, Tr 566), (37, 37, St 256), (47, 47, Tr 567), (61, 61, St 255), (63, 63, Tr 569), (64, 64, Tr 263), (95, 95, St 255), (126, 126, St 255), (48, 57, Tr 577), (36, 36, St 255), (38, 46, St 255), (97, 122, St 255), (65, 90, St 255), (58, 59, St 255)] (St 0),
     State 255 [(33, 33, St 255), (37, 37, St 256), (61, 61, St 255), (64, 64, Tr 263), (95, 95, St 255), (126, 126, St 255), (36, 36, St 255), (38, 46, St 255), (97, 122, St 255), (65, 90, St 255), (48, 59, St 255)] (St 0),
     State 256 [(48, 57, St 257), (97, 102, St 257), (65, 70, St 257)] (St 0),
     State 257 [(48, 57, St 255), (97, 102, St 255), (65, 70, St 255)] (St 0)]"

(* net/uri.cc 5953-6098: URI::Create, states *)
definition uri_items42 :: "uri_action item list" where
  "uri_items42 =
    [Trans 263 [Save_userinfo] 522,
     Trans 557 [Set_mark, Save_userinfo] 522,
     State 522 [(2, 2, Tr 546), (33, 33, Tr 578), (35, 35, Tr 548), (37, 37, Tr 579), (47, 47, Tr 550), (48, 48, Tr 580), (49, 49, Tr 581), (50, 50, Tr 582), (58, 58, Tr 584), (59, 59, Tr 578), (61, 61, Tr 578), (63, 63, Tr 556), (91, 91, Tr 558), (95, 95, Tr 578), (126, 126, Tr 578), (36, 36, Tr 578), (38, 46, Tr 578), (97, 122, Tr 578), (65, 90, Tr 578), (51, 57, Tr 583)] (St 0),
     Trans 578 [Set_mark] 523,
     State 523 [(33, 33, St 523), (35, 35, Tr 559), (37, 37, St 258), (47, 47, Tr 560), (58, 58, Tr 561), (61, 61, St 523), (63, 63, Tr 562), (95, 95, St 523), (126, 126, St 523), (36, 36, St 523), (38, 46, St 523), (48, 57, St 523), (59, 59, St 523), (97, 122, St 523), (65, 90, St 523)] (St 0),
     Trans 579 [Set_mark] 258,
     State 258 [(48, 57, St 259), (97, 102, St 259), (65, 70, St 259)] (St 0),
     State 259 [(48, 57, St 523), (97, 102, St 523), (65, 70, St 523)] (St 0),
     Trans 580 [Set_mark] 524,
     State 524 [(33, 33, St 523), (35, 35, Tr 559), (37, 37, St 258), (46, 46, St 525), (47, 47, Tr 560), (58, 58, Tr 561), (61, 61, St 523), (63, 63, Tr 562), (95, 95, St 523), (126, 126, St 523), (36, 36, St 523), (38, 45, St 523), (48, 57, St 523), (59, 59, St 523), (97, 122, St 523), (65, 90, St 523)] (St 0)]"

(* net/uri.cc 6099-6237: URI::Create, states *)
definition uri_items43 :: "uri_action item list" where
  "uri_items43 =
    [State 525 [(2, 2, St 233), (33, 33, St 523), (35, 35, Tr 559), (37, 37, St 258), (47, 47, Tr 560), (48, 48, St 526), (49, 49, St 534), (50, 50, St 536), (58, 58, Tr 561), (59, 59, St 523), (61, 61, St 523), (63, 63, Tr 562), (95, 95, St 523), (126, 126, St 523), (36, 36, St 523), (38, 46, St 523), (97, 122, St 523), (65, 90, St 523), (51, 57, St 535)] (St 0),
     State 526 [(33, 33, St 523), (35, 35, Tr 559), (37, 37, St 258), (46, 46, St 527), (47, 47, Tr 560), (58, 58, Tr 561), (61, 61, St 523), (63, 63, Tr 562), (95, 95, St 523), (126, 126, St 523), (36, 36, St 523), (38, 45, St 523), (48, 57, St 523), (59, 59, St 523), (97, 122, St 523), (65, 90, St 523)] (St 0),
     State 527 [(2, 2, St 237), (33, 33, St 523), (35, 35, Tr 559), (37, 37, St 258), (47, 47, Tr 560), (48, 48, St 528), (49, 49, St 530), (50, 50, St 532), (58, 58, Tr 561), (59, 59, St 523), (61, 61, St 523), (63, 63, Tr 562), (95, 95, St 523), (126, 126, St 523), (36, 36, St 523), (38, 46, St 523), (97, 122, St 523), (65, 90, St 523), (51, 57, St 531)] (St 0),
     State 528 [(33, 33, St 523), (35, 35, Tr 559), (37, 37, St 258), (46, 46, St 529), (47, 47, Tr 560), (58, 58, Tr 561), (61, 61, St 523), (63, 63, Tr 562), (95, 95, St 523), (126, 126, St 523), (36, 36, St 523), (38, 45, St 523), (48, 57, St 523), (59, 59, St 523), (97, 122, St 523), (65, 90, St 523)] (St 0),
     State 529 [(2, 2, St 241), (33, 33, St 523), (35, 35, Tr 559), (37, 37, St 258), (47, 47, Tr 560), (58, 58, Tr 561), (61, 61, St 523), (63, 63, Tr 562), (95, 95, St 523), (126, 126, St 523), (36, 36, St 523), (38, 46, St 523), (48, 57, St 523), (59, 59, St 523), (97, 122, St 523), (65, 90, St 523)] (St 0)]"

(* net/uri.cc 6238-6385: URI::Create, states *)
definition uri_items44 :: "uri_action item list" where
  "uri_items44 =
    [State 530 [(33, 33, St 523), (35, 35, Tr 559), (37, 37, St 258), (46, 46, St 529), (47, 47, Tr 560), (58, 58, Tr 561), (59, 59, St 523), (61, 61, St 523), (63, 63, Tr 562), (95, 95, St 523), (126, 126, St 523), (36, 36, St 523), (38, 45, St 523), (97, 122, St 523), (65, 90, St 523), (48, 57, St 531)] (St 0),
     State 531 [(33, 33, St 523), (35, 35, Tr 559), (37, 37, St 258), (46, 46, St 529), (47, 47, Tr 560), (58, 58, Tr 561), (59, 59, St 523), (61, 61, St 523), (63, 63, Tr 562), (95, 95, St 523), (126, 126, St 523), (36, 36, St 523), (38, 45, St 523), (97, 122, St 523), (65, 90, St 523), (48, 57, St 528)] (St 0),
     State 532 [(33, 33, St 523), (35, 35, Tr 559), (37, 37, St 258), (46, 46, St 529), (47, 47, Tr 560), (53, 53, St 533), (58, 58, Tr 561), (59, 59, St 523), (61, 61, St 523), (63, 63, Tr 562), (95, 95, St 523), (126, 126, St 523), (36, 36, St 523), (38, 45, St 523), (97, 122, St 523), (65, 90, St 523), (48, 52, St 528), (54, 57, St 528)] (St 0),
     State 533 [(33, 33, St 523), (35, 35, Tr 559), (37, 37, St 258), (46, 46, St 529), (47, 47, Tr 560), (58, 58, Tr 561), (61, 61, St 523), (63, 63, Tr 562), (95, 95, St 523), (126, 126, St 523), (48, 53, St 528), (36, 36, St 523), (38, 45, St 523), (97, 122, St 523), (65, 90, St 523), (54, 57, St 523), (59, 59, St 523)] (St 0),
     State 534 [(33, 33, St 523), (35, 35, Tr 559), (37, 37, St 258), (46, 46, St 527), (47, 47, Tr 560), (58, 58, Tr 561), (59, 59, St 523), (61, 61, St 523), (63, 63, Tr 562), (95, 95, St 523), (126, 126, St 523), (36, 36, St 523), (38, 45, St 523), (97, 122, St 523), (65, 90, St 523), (48, 57, St 535)] (St 0)]"

(* net/uri.cc 6386-6543: URI::Create, states *)
definition uri_items45 :: "uri_action item list" where
  "uri_items45 =
    [State 535 [(33, 33, St 523), (35, 35, Tr 559), (37, 37, St 258), (46, 46, St 527), (47, 47, Tr 560), (58, 58, Tr 561), (59, 59, St 523), (61, 61, St 523), (63, 63, Tr 562), (95, 95, St 523), (126, 126, St 523), (36, 36, St 523), (38, 45, St 523), (97, 122, St 523), (65, 90, St 523), (48, 57, St 526)] (St 0),
     State 536 [(33, 33, St 523), (35, 35, Tr 559), (37, 37, St 258), (46, 46, St 527), (47, 47, Tr 560), (53, 53, St 537), (58, 58, Tr 561), (59, 59, St 523), (61, 61, St 523), (63, 63, Tr 562), (95, 95, St 523), (126, 126, St 523), (36, 36, St 523), (38, 45, St 523), (97, 122, St 523), (65, 90, St 523), (48, 52, St 526), (54, 57, St 526)] (St 0),
     State 537 [(33, 33, St 523), (35, 35, Tr 559), (37, 37, St 258), (46, 46, St 527), (47, 47, Tr 560), (58, 58, Tr 561), (61, 61, St 523), (63, 63, Tr 562), (95, 95, St 523), (126, 126, St 523), (48, 53, St 526), (36, 36, St 523), (38, 45, St 523), (97, 122, St 523), (65, 90, St 523), (54, 57, St 523), (59, 59, St 523)] (St 0),
     Trans 581 [Set_mark] 538,
     State 538 [(33, 33, St 523), (35, 35, Tr 559), (37, 37, St 258), (46, 46, St 525), (47, 47, Tr 560), (58, 58, Tr 561), (59, 59, St 523), (61, 61, St 523), (63, 63, Tr 562), (95, 95, St 523), (126, 126, St 523), (36, 36, St 523), (38, 45, St 523), (97, 122, St 523), (65, 90, St 523), (48, 57, St 539)] (St 0),
     Trans 583 [Set_mark] 539,
     State 539 [(33, 33, St 523), (35, 35, Tr 559), (37, 37, St 258), (46, 46, St 525), (47, 47, Tr 560), (58, 58, Tr 561), (59, 59, St 523), (61, 61, St 523), (63, 63, Tr 562), (95, 95, St 523), (126, 126, St 523), (36, 36, St 523), (38, 45, St 523), (97, 122, St 523), (65, 90, St 523), (48, 57, St 524)] (St 0)]"

(* net/uri.cc 6544-6683: URI::Create, states *)
definition uri_items46 :: "uri_action item list" where
  "uri_items46 =
    [Trans 582 [Set_mark] 540,
     State 540 [(33, 33, St 523), (35, 35, Tr 559), (37, 37, St 258), (46, 46, St 525), (47, 47, Tr 560), (53, 53, St 541), (58, 58, Tr 561), (59, 59, St 523), (61, 61, St 523), (63, 63, Tr 562), (95, 95, St 523), (126, 126, St 523), (36, 36, St 523), (38, 45, St 523), (97, 122, St 523), (65, 90, St 523), (48, 52, St 524), (54, 57, St 524)] (St 0),
     State 541 [(33, 33, St 523), (35, 35, Tr 559), (37, 37, St 258), (46, 46, St 525), (47, 47, Tr 560), (58, 58, Tr 561), (61, 61, St 523), (63, 63, Tr 562), (95, 95, St 523), (126, 126, St 523), (48, 53, St 524), (36, 36, St 523), (38, 45, St 523), (97, 122, St 523), (65, 90, St 523), (54, 57, St 523), (59, 59, St 523)] (St 0),
     Trans 558 [Set_mark] 260,
     State 260 [(58, 58, St 368), (118, 118, St 447), (48, 57, St 261), (97, 102, St 261), (65, 70, St 261)] (St 0),
     State 261 [(58, 58, St 265), (48, 57, St 262), (97, 102, St 262), (65, 70, St 262)] (St 0),
     State 262 [(58, 58, St 265), (48, 57, St 263), (97, 102, St 263), (65, 70, St 263)] (St 0),
     State 263 [(58, 58, St 265), (48, 57, St 264), (97, 102, St 264), (65, 70, St 264)] (St 0),
     State 264 [(58, 58, St 265)] (St 0)]"

(* net/uri.cc 6684-6832: URI::Create, states *)
definition uri_items47 :: "uri_action item list" where
  "uri_items47 =
    [State 265 [(58, 58, St 363), (48, 57, St 266), (97, 102, St 266), (65, 70, St 266)] (St 0),
     State 266 [(58, 58, St 270), (48, 57, St 267), (97, 102, St 267), (65, 70, St 267)] (St 0),
     State 267 [(58, 58, St 270), (48, 57, St 268), (97, 102, St 268), (65, 70, St 268)] (St 0),
     State 268 [(58, 58, St 270), (48, 57, St 269), (97, 102, St 269), (65, 70, St 269)] (St 0),
     State 269 [(58, 58, St 270)] (St 0),
     State 270 [(58, 58, St 358), (48, 57, St 271), (97, 102, St 271), (65, 70, St 271)] (St 0),
     State 271 [(58, 58, St 275), (48, 57, St 272), (97, 102, St 272), (65, 70, St 272)] (St 0),
     State 272 [(58, 58, St 275), (48, 57, St 273), (97, 102, St 273), (65, 70, St 273)] (St 0),
     State 273 [(58, 58, St 275), (48, 57, St 274), (97, 102, St 274), (65, 70, St 274)] (St 0),
     State 274 [(58, 58, St 275)] (St 0),
     State 275 [(58, 58, St 353), (48, 57, St 276), (97, 102, St 276), (65, 70, St 276)] (St 0)]"

(* net/uri.cc 6833-6981: URI::Create, states *)
definition uri_items48 :: "uri_action item list" where
  "uri_items48 =
    [State 276 [(58, 58, St 280), (48, 57, St 277), (97, 102, St 277), (65, 70, St 277)] (St 0),
     State 277 [(58, 58, St 280), (48, 57, St 278), (97, 102, St 278), (65, 70, St 278)] (St 0),
     State 278 [(58, 58, St 280), (48, 57, St 279), (97, 102, St 279), (65, 70, St 279)] (St 0),
     State 279 [(58, 58, St 280)] (St 0),
     State 280 [(58, 58, St 348), (48, 57, St 281), (97, 102, St 281), (65, 70, St 281)] (St 0),
     State 281 [(58, 58, St 285), (48, 57, St 282), (97, 102, St 282), (65, 70, St 282)] (St 0),
     State 282 [(58, 58, St 285), (48, 57, St 283), (97, 102, St 283), (65, 70, St 283)] (St 0),
     State 283 [(58, 58, St 285), (48, 57, St 284), (97, 102, St 284), (65, 70, St 284)] (St 0),
     State 284 [(58, 58, St 285)] (St 0),
     State 285 [(58, 58, St 335), (48, 57, St 286), (97, 102, St 286), (65, 70, St 286)] (St 0),
     State 286 [(58, 58, St 290), (48, 57, St 287), (97, 102, St 287), (65, 70, St 287)] (St 0)]"

(* net/uri.cc 6982-7120: URI::Create, states *)
definition uri_items49 :: "uri_action item list" where
  "uri_items49 =
    [State 287 [(58, 58, St 290), (48, 57, St 288), (97, 102, St 288), (65, 70, St 288)] (St 0),
     State 288 [(58, 58, St 290), (48, 57, St 289), (97, 102, St 289), (65, 70, St 289)] (St 0),
     State 289 [(58, 58, St 290)] (St 0),
     State 290 [(2, 2, St 291), (48, 48, St 318), (49, 49, St 326), (50, 50, St 329), (58, 58, St 333), (51, 57, St 332), (97, 102, St 334), (65, 70, St 334)] (St 0),
     State 291 [(48, 52, St 292)] (St 0),
     State 292 [(48, 57, St 293)] (St 0),
     State 293 [(46, 46, St 294)] (St 0),
     State 294 [(2, 2, St 295), (48, 48, St 297), (49, 49, St 314), (50, 50, St 316), (51, 57, St 315)] (St 0),
     State 295 [(48, 52, St 296)] (St 0),
     State 296 [(48, 57, St 297)] (St 0),
     State 297 [(46, 46, St 298)] (St 0),
     State 298 [(2, 2, St 299), (48, 48, St 301), (49, 49, St 310), (50, 50, St 312), (51, 57, St 311)] (St 0),
     State 299 [(48, 52, St 300)] (St 0),
     State 300 [(48, 57, St 301)] (St 0)]"

(* net/uri.cc 7121-7266: URI::Create, states *)
definition uri_items50 :: "uri_action item list" where
  "uri_items50 =
    [State 301 [(46, 46, St 302)] (St 0),
     State 302 [(2, 2, St 303), (48, 48, St 305), (49, 49, St 306), (50, 50, St 308), (51, 57, St 307)] (St 0),
     State 303 [(48, 52, St 304)] (St 0),
     State 304 [(48, 57, St 305)] (St 0),
     State 305 [(93, 93, St 512)] (St 0),
     State 306 [(93, 93, St 512), (48, 57, St 307)] (St 0),
     State 307 [(93, 93, St 512), (48, 57, St 305)] (St 0),
     State 308 [(53, 53, St 309), (93, 93, St 512), (48, 52, St 305), (54, 57, St 305)] (St 0),
     State 309 [(93, 93, St 512), (48, 53, St 305)] (St 0),
     State 310 [(46, 46, St 302), (48, 57, St 311)] (St 0),
     State 311 [(46, 46, St 302), (48, 57, St 301)] (St 0),
     State 312 [(46, 46, St 302), (53, 53, St 313), (48, 52, St 301), (54, 57, St 301)] (St 0),
     State 313 [(46, 46, St 302), (48, 53, St 301)] (St 0),
     State 314 [(46, 46, St 298), (48, 57, St 315)] (St 0),
     State 315 [(46, 46, St 298), (48, 57, St 297)] (St 0),
     State 316 [(46, 46, St 298), (53, 53, St 317), (48, 52, St 297), (54, 57, St 297)] (St 0)]"

(* net/uri.cc 7267-7406: URI::Create, states *)
definition uri_items51 :: "uri_action item list" where
  "uri_items51 =
    [State 317 [(46, 46, St 298), (48, 53, St 297)] (St 0),
     State 318 [(46, 46, St 294), (58, 58, St 322), (48, 57, St 319), (97, 102, St 319), (65, 70, St 319)] (St 0),
     State 319 [(58, 58, St 322), (48, 57, St 320), (97, 102, St 320), (65, 70, St 320)] (St 0),
     State 320 [(58, 58, St 322), (48, 57, St 321), (97, 102, St 321), (65, 70, St 321)] (St 0),
     State 321 [(58, 58, St 322)] (St 0),
     State 322 [(58, 58, St 305), (48, 57, St 323), (97, 102, St 323), (65, 70, St 323)] (St 0),
     State 323 [(93, 93, St 512), (48, 57, St 324), (97, 102, St 324), (65, 70, St 324)] (St 0),
     State 324 [(93, 93, St 512), (48, 57, St 325), (97, 102, St 325), (65, 70, St 325)] (St 0),
     State 325 [(93, 93, St 512), (48, 57, St 305), (97, 102, St 305), (65, 70, St 305)] (St 0),
     State 326 [(46, 46, St 294), (58, 58, St 322), (48, 57, St 327), (97, 102, St 319), (65, 70, St 319)] (St 0)]"

(* net/uri.cc 7407-7559: URI::Create, states *)
definition uri_items52 :: "uri_action item list" where
  "uri_items52 =
    [State 327 [(46, 46, St 294), (58, 58, St 322), (48, 57, St 328), (97, 102, St 320), (65, 70, St 320)] (St 0),
     State 328 [(46, 46, St 294), (58, 58, St 322), (48, 57, St 321), (97, 102, St 321), (65, 70, St 321)] (St 0),
     State 329 [(46, 46, St 294), (53, 53, St 331), (58, 58, St 322), (48, 52, St 330), (54, 57, St 330), (97, 102, St 319), (65, 70, St 319)] (St 0),
     State 330 [(46, 46, St 294), (58, 58, St 322), (48, 57, St 320), (97, 102, St 320), (65, 70, St 320)] (St 0),
     State 331 [(46, 46, St 294), (58, 58, St 322), (48, 53, St 328), (97, 102, St 320), (65, 70, St 320), (54, 57, St 320)] (St 0),
     State 332 [(46, 46, St 294), (58, 58, St 322), (48, 57, St 330), (97, 102, St 319), (65, 70, St 319)] (St 0),
     State 333 [(48, 57, St 323), (97, 102, St 323), (65, 70, St 323)] (St 0),
     State 334 [(58, 58, St 322), (48, 57, St 319), (97, 102, St 319), (65, 70, St 319)] (St 0),
     State 335 [(2, 2, St 291), (48, 48, St 336), (49, 49, St 340), (50, 50, St 343), (51, 57, St 346), (97, 102, St 347), (65, 70, St 347)] (St 0)]"

(* net/uri.cc 7560-7699: URI::Create, states *)
definition uri_items53 :: "uri_action item list" where
  "uri_items53 =
    [State 336 [(46, 46, St 294), (58, 58, St 333), (48, 57, St 337), (97, 102, St 337), (65, 70, St 337)] (St 0),
     State 337 [(58, 58, St 333), (48, 57, St 338), (97, 102, St 338), (65, 70, St 338)] (St 0),
     State 338 [(58, 58, St 333), (48, 57, St 339), (97, 102, St 339), (65, 70, St 339)] (St 0),
     State 339 [(58, 58, St 333)] (St 0),
     State 340 [(46, 46, St 294), (58, 58, St 333), (48, 57, St 341), (97, 102, St 337), (65, 70, St 337)] (St 0),
     State 341 [(46, 46, St 294), (58, 58, St 333), (48, 57, St 342), (97, 102, St 338), (65, 70, St 338)] (St 0),
     State 342 [(46, 46, St 294), (58, 58, St 333), (48, 57, St 339), (97, 102, St 339), (65, 70, St 339)] (St 0),
     State 343 [(46, 46, St 294), (53, 53, St 345), (58, 58, St 333), (48, 52, St 344), (54, 57, St 344), (97, 102, St 337), (65, 70, St 337)] (St 0),
     State 344 [(46, 46, St 294), (58, 58, St 333), (48, 57, St 338), (97, 102, St 338), (65, 70, St 338)] (St 0)]"

(* net/uri.cc 7700-7844: URI::Create, states *)
definition uri_items54 :: "uri_action item list" where
  "uri_items54 =
    [State 345 [(46, 46, St 294), (58, 58, St 333), (48, 53, St 342), (97, 102, St 338), (65, 70, St 338), (54, 57, St 338)] (St 0),
     State 346 [(46, 46, St 294), (58, 58, St 333), (48, 57, St 344), (97, 102, St 337), (65, 70, St 337)] (St 0),
     State 347 [(58, 58, St 333), (48, 57, St 337), (97, 102, St 337), (65, 70, St 337)] (St 0),
     State 348 [(48, 57, St 349), (97, 102, St 349), (65, 70, St 349)] (St 0),
     State 349 [(58, 58, St 335), (48, 57, St 350), (97, 102, St 350), (65, 70, St 350)] (St 0),
     State 350 [(58, 58, St 335), (48, 57, St 351), (97, 102, St 351), (65, 70, St 351)] (St 0),
     State 351 [(58, 58, St 335), (48, 57, St 352), (97, 102, St 352), (65, 70, St 352)] (St 0),
     State 352 [(58, 58, St 335)] (St 0),
     State 353 [(48, 57, St 354), (97, 102, St 354), (65, 70, St 354)] (St 0),
     State 354 [(58, 58, St 348), (48, 57, St 355), (97, 102, St 355), (65, 70, St 355)] (St 0)]"

(* net/uri.cc 7845-7989: URI::Create, states *)
definition uri_items55 :: "uri_action item list" where
  "uri_items55 =
    [State 355 [(58, 58, St 348), (48, 57, St 356), (97, 102, St 356), (65, 70, St 356)] (St 0),
     State 356 [(58, 58, St 348), (48, 57, St 357), (97, 102, St 357), (65, 70, St 357)] (St 0),
     State 357 [(58, 58, St 348)] (St 0),
     State 358 [(48, 57, St 359), (97, 102, St 359), (65, 70, St 359)] (St 0),
     State 359 [(58, 58, St 353), (48, 57, St 360), (97, 102, St 360), (65, 70, St 360)] (St 0),
     State 360 [(58, 58, St 353), (48, 57, St 361), (97, 102, St 361), (65, 70, St 361)] (St 0),
     State 361 [(58, 58, St 353), (48, 57, St 362), (97, 102, St 362), (65, 70, St 362)] (St 0),
     State 362 [(58, 58, St 353)] (St 0),
     State 363 [(48, 57, St 364), (97, 102, St 364), (65, 70, St 364)] (St 0),
     State 364 [(58, 58, St 358), (48, 57, St 365), (97, 102, St 365), (65, 70, St 365)] (St 0),
     State 365 [(58, 58, St 358), (48, 57, St 366), (97, 102, St 366), (65, 70, St 366)] (St 0)]"

(* net/uri.cc 7990-8136: URI::Create, states *)
definition uri_items56 :: "uri_action item list" where
  "uri_items56 =
    [State 366 [(58, 58, St 358), (48, 57, St 367), (97, 102, St 367), (65, 70, St 367)] (St 0),
     State 367 [(58, 58, St 358)] (St 0),
     State 368 [(58, 58, St 369)] (St 0),
     State 369 [(2, 2, St 291), (48, 48, St 370), (49, 49, St 439), (50, 50, St 442), (93, 93, St 512), (51, 57, St 445), (97, 102, St 446), (65, 70, St 446)] (St 0),
     State 370 [(46, 46, St 294), (58, 58, St 374), (93, 93, St 512), (48, 57, St 371), (97, 102, St 371), (65, 70, St 371)] (St 0),
     State 371 [(58, 58, St 374), (93, 93, St 512), (48, 57, St 372), (97, 102, St 372), (65, 70, St 372)] (St 0),
     State 372 [(58, 58, St 374), (93, 93, St 512), (48, 57, St 373), (97, 102, St 373), (65, 70, St 373)] (St 0),
     State 373 [(58, 58, St 374), (93, 93, St 512)] (St 0),
     State 374 [(2, 2, St 291), (48, 48, St 375), (49, 49, St 431), (50, 50, St 434), (51, 57, St 437), (97, 102, St 438), (65, 70, St 438)] (St 0),
     State 375 [(46, 46, St 294), (58, 58, St 379), (93, 93, St 512), (48, 57, St 376), (97, 102, St 376), (65, 70, St 376)] (St 0)]"

(* net/uri.cc 8137-8278: URI::Create, states *)
definition uri_items57 :: "uri_action item list" where
  "uri_items57 =
    [State 376 [(58, 58, St 379), (93, 93, St 512), (48, 57, St 377), (97, 102, St 377), (65, 70, St 377)] (St 0),
     State 377 [(58, 58, St 379), (93, 93, St 512), (48, 57, St 378), (97, 102, St 378), (65, 70, St 378)] (St 0),
     State 378 [(58, 58, St 379), (93, 93, St 512)] (St 0),
     State 379 [(2, 2, St 291), (48, 48, St 380), (49, 49, St 423), (50, 50, St 426), (51, 57, St 429), (97, 102, St 430), (65, 70, St 430)] (St 0),
     State 380 [(46, 46, St 294), (58, 58, St 384), (93, 93, St 512), (48, 57, St 381), (97, 102, St 381), (65, 70, St 381)] (St 0),
     State 381 [(58, 58, St 384), (93, 93, St 512), (48, 57, St 382), (97, 102, St 382), (65, 70, St 382)] (St 0),
     State 382 [(58, 58, St 384), (93, 93, St 512), (48, 57, St 383), (97, 102, St 383), (65, 70, St 383)] (St 0),
     State 383 [(58, 58, St 384), (93, 93, St 512)] (St 0),
     State 384 [(2, 2, St 291), (48, 48, St 385), (49, 49, St 415), (50, 50, St 418), (51, 57, St 421), (97, 102, St 422), (65, 70, St 422)] (St 0)]"

(* net/uri.cc 8279-8419: URI::Create, states *)
definition uri_items58 :: "uri_action item list" where
  "uri_items58 =
    [State 385 [(46, 46, St 294), (58, 58, St 389), (93, 93, St 512), (48, 57, St 386), (97, 102, St 386), (65, 70, St 386)] (St 0),
     State 386 [(58, 58, St 389), (93, 93, St 512), (48, 57, St 387), (97, 102, St 387), (65, 70, St 387)] (St 0),
     State 387 [(58, 58, St 389), (93, 93, St 512), (48, 57, St 388), (97, 102, St 388), (65, 70, St 388)] (St 0),
     State 388 [(58, 58, St 389), (93, 93, St 512)] (St 0),
     State 389 [(2, 2, St 291), (48, 48, St 390), (49, 49, St 407), (50, 50, St 410), (51, 57, St 413), (97, 102, St 414), (65, 70, St 414)] (St 0),
     State 390 [(46, 46, St 294), (58, 58, St 394), (93, 93, St 512), (48, 57, St 391), (97, 102, St 391), (65, 70, St 391)] (St 0),
     State 391 [(58, 58, St 394), (93, 93, St 512), (48, 57, St 392), (97, 102, St 392), (65, 70, St 392)] (St 0),
     State 392 [(58, 58, St 394), (93, 93, St 512), (48, 57, St 393), (97, 102, St 393), (65, 70, St 393)] (St 0),
     State 393 [(58, 58, St 394), (93, 93, St 512)] (St 0)]"

(* net/uri.cc 8420-8572: URI::Create, states *)
definition uri_items59 :: "uri_action item list" where
  "uri_items59 =
    [State 394 [(2, 2, St 291), (48, 48, St 395), (49, 49, St 399), (50, 50, St 402), (51, 57, St 405), (97, 102, St 406), (65, 70, St 406)] (St 0),
     State 395 [(46, 46, St 294), (58, 58, St 333), (93, 93, St 512), (48, 57, St 396), (97, 102, St 396), (65, 70, St 396)] (St 0),
     State 396 [(58, 58, St 333), (93, 93, St 512), (48, 57, St 397), (97, 102, St 397), (65, 70, St 397)] (St 0),
     State 397 [(58, 58, St 333), (93, 93, St 512), (48, 57, St 398), (97, 102, St 398), (65, 70, St 398)] (St 0),
     State 398 [(58, 58, St 333), (93, 93, St 512)] (St 0),
     State 399 [(46, 46, St 294), (58, 58, St 333), (93, 93, St 512), (48, 57, St 400), (97, 102, St 396), (65, 70, St 396)] (St 0),
     State 400 [(46, 46, St 294), (58, 58, St 333), (93, 93, St 512), (48, 57, St 401), (97, 102, St 397), (65, 70, St 397)] (St 0),
     State 401 [(46, 46, St 294), (58, 58, St 333), (93, 93, St 512), (48, 57, St 398), (97, 102, St 398), (65, 70, St 398)] (St 0),
     State 402 [(46, 46, St 294), (53, 53, St 404), (58, 58, St 333), (93, 93, St 512), (48, 52, St 403), (54, 57, St 403), (97, 102, St 396), (65, 70, St 396)] (St 0)]"

(* net/uri.cc 8573-8719: URI::Create, states *)
definition uri_items60 :: "uri_action item list" where
  "uri_items60 =
    [State 403 [(46, 46, St 294), (58, 58, St 333), (93, 93, St 512), (48, 57, St 397), (97, 102, St 397), (65, 70, St 397)] (St 0),
     State 404 [(46, 46, St 294), (58, 58, St 333), (93, 93, St 512), (48, 53, St 401), (97, 102, St 397), (65, 70, St 397), (54, 57, St 397)] (St 0),
     State 405 [(46, 46, St 294), (58, 58, St 333), (93, 93, St 512), (48, 57, St 403), (97, 102, St 396), (65, 70, St 396)] (St 0),
     State 406 [(58, 58, St 333), (93, 93, St 512), (48, 57, St 396), (97, 102, St 396), (65, 70, St 396)] (St 0),
     State 407 [(46, 46, St 294), (58, 58, St 394), (93, 93, St 512), (48, 57, St 408), (97, 102, St 391), (65, 70, St 391)] (St 0),
     State 408 [(46, 46, St 294), (58, 58, St 394), (93, 93, St 512), (48, 57, St 409), (97, 102, St 392), (65, 70, St 392)] (St 0),
     State 409 [(46, 46, St 294), (58, 58, St 394), (93, 93, St 512), (48, 57, St 393), (97, 102, St 393), (65, 70, St 393)] (St 0),
     State 410 [(46, 46, St 294), (53, 53, St 412), (58, 58, St 394), (93, 93, St 512), (48, 52, St 411), (54, 57, St 411), (97, 102, St 391), (65, 70, St 391)] (St 0)]"

(* net/uri.cc 8720-8866: URI::Create, states *)
definition uri_items61 :: "uri_action item list" where
  "uri_items61 =
    [State 411 [(46, 46, St 294), (58, 58, St 394), (93, 93, St 512), (48, 57, St 392), (97, 102, St 392), (65, 70, St 392)] (St 0),
     State 412 [(46, 46, St 294), (58, 58, St 394), (93, 93, St 512), (48, 53, St 409), (97, 102, St 392), (65, 70, St 392), (54, 57, St 392)] (St 0),
     State 413 [(46, 46, St 294), (58, 58, St 394), (93, 93, St 512), (48, 57, St 411), (97, 102, St 391), (65, 70, St 391)] (St 0),
     State 414 [(58, 58, St 394), (93, 93, St 512), (48, 57, St 391), (97, 102, St 391), (65, 70, St 391)] (St 0),
     State 415 [(46, 46, St 294), (58, 58, St 389), (93, 93, St 512), (48, 57, St 416), (97, 102, St 386), (65, 70, St 386)] (St 0),
     State 416 [(46, 46, St 294), (58, 58, St 389), (93, 93, St 512), (48, 57, St 417), (97, 102, St 387), (65, 70, St 387)] (St 0),
     State 417 [(46, 46, St 294), (58, 58, St 389), (93, 93, St 512), (48, 57, St 388), (97, 102, St 388), (65, 70, St 388)] (St 0),
     State 418 [(46, 46, St 294), (53, 53, St 420), (58, 58, St 389), (93, 93, St 512), (48, 52, St 419), (54, 57, St 419), (97, 102, St 386), (65, 70, St 386)] (St 0)]"

(* net/uri.cc 8867-9013: URI::Create, states *)
definition uri_items62 :: "uri_action item list" where
  "uri_items62 =
    [State 419 [(46, 46, St 294), (58, 58, St 389), (93, 93, St 512), (48, 57, St 387), (97, 102, St 387), (65, 70, St 387)] (St 0),
     State 420 [(46, 46, St 294), (58, 58, St 389), (93, 93, St 512), (48, 53, St 417), (97, 102, St 387), (65, 70, St 387), (54, 57, St 387)] (St 0),
     State 421 [(46, 46, St 294), (58, 58, St 389), (93, 93, St 512), (48, 57, St 419), (97, 102, St 386), (65, 70, St 386)] (St 0),
     State 422 [(58, 58, St 389), (93, 93, St 512), (48, 57, St 386), (97, 102, St 386), (65, 70, St 386)] (St 0),
     State 423 [(46, 46, St 294), (58, 58, St 384), (93, 93, St 512), (48, 57, St 424), (97, 102, St 381), (65, 70, St 381)] (St 0),
     State 424 [(46, 46, St 294), (58, 58, St 384), (93, 93, St 512), (48, 57, St 425), (97, 102, St 382), (65, 70, St 382)] (St 0),
     State 425 [(46, 46, St 294), (58, 58, St 384), (93, 93, St 512), (48, 57, St 383), (97, 102, St 383), (65, 70, St 383)] (St 0),
     State 426 [(46, 46, St 294), (53, 53, St 428), (58, 58, St 384), (93, 93, St 512), (48, 52, St 427), (54, 57, St 427), (97, 102, St 381), (65, 70, St 381)] (St 0)]"

(* net/uri.cc 9014-9160: URI::Create, states *)
definition uri_items63 :: "uri_action item list" where
  "uri_items63 =
    [State 427 [(46, 46, St 294), (58, 58, St 384), (93, 93, St 512), (48, 57, St 382), (97, 102, St 382), (65, 70, St 382)] (St 0),
     State 428 [(46, 46, St 294), (58, 58, St 384), (93, 93, St 512), (48, 53, St 425), (97, 102, St 382), (65, 70, St 382), (54, 57, St 382)] (St 0),
     State 429 [(46, 46, St 294), (58, 58, St 384), (93, 93, St 512), (48, 57, St 427), (97, 102, St 381), (65, 70, St 381)] (St 0),
     State 430 [(58, 58, St 384), (93, 93, St 512), (48, 57, St 381), (97, 102, St 381), (65, 70, St 381)] (St 0),
     State 431 [(46, 46, St 294), (58, 58, St 379), (93, 93, St 512), (48, 57, St 432), (97, 102, St 376), (65, 70, St 376)] (St 0),
     State 432 [(46, 46, St 294), (58, 58, St 379), (93, 93, St 512), (48, 57, St 433), (97, 102, St 377), (65, 70, St 377)] (St 0),
     State 433 [(46, 46, St 294), (58, 58, St 379), (93, 93, St 512), (48, 57, St 378), (97, 102, St 378), (65, 70, St 378)] (St 0),
     State 434 [(46, 46, St 294), (53, 53, St 436), (58, 58, St 379), (93, 93, St 512), (48, 52, St 435), (54, 57, St 435), (97, 102, St 376), (65, 70, St 376)] (St 0)]"

(* net/uri.cc 9161-9307: URI::Create, states *)
definition uri_items64 :: "uri_action item list" where
  "uri_items64 =
    [State 435 [(46, 46, St 294), (58, 58, St 379), (93, 93, St 512), (48, 57, St 377), (97, 102, St 377), (65, 70, St 377)] (St 0),
     State 436 [(46, 46, St 294), (58, 58, St 379), (93, 93, St 512), (48, 53, St 433), (97, 102, St 377), (65, 70, St 377), (54, 57, St 377)] (St 0),
     State 437 [(46, 46, St 294), (58, 58, St 379), (93, 93, St 512), (48, 57, St 435), (97, 102, St 376), (65, 70, St 376)] (St 0),
     State 438 [(58, 58, St 379), (93, 93, St 512), (48, 57, St 376), (97, 102, St 376), (65, 70, St 376)] (St 0),
     State 439 [(46, 46, St 294), (58, 58, St 374), (93, 93, St 512), (48, 57, St 440), (97, 102, St 371), (65, 70, St 371)] (St 0),
     State 440 [(46, 46, St 294), (58, 58, St 374), (93, 93, St 512), (48, 57, St 441), (97, 102, St 372), (65, 70, St 372)] (St 0),
     State 441 [(46, 46, St 294), (58, 58, St 374), (93, 93, St 512), (48, 57, St 373), (97, 102, St 373), (65, 70, St 373)] (St 0),
     State 442 [(46, 46, St 294), (53, 53, St 444), (58, 58, St 374), (93, 93, St 512), (48, 52, St 443), (54, 57, St 443), (97, 102, St 371), (65, 70, St 371)] (St 0)]"

(* net/uri.cc 9308-9456: URI::Create, states *)
definition uri_items65 :: "uri_action item list" where
  "uri_items65 =
    [State 443 [(46, 46, St 294), (58, 58, St 374), (93, 93, St 512), (48, 57, St 372), (97, 102, St 372), (65, 70, St 372)] (St 0),
     State 444 [(46, 46, St 294), (58, 58, St 374), (93, 93, St 512), (48, 53, St 441), (97, 102, St 372), (65, 70, St 372), (54, 57, St 372)] (St 0),
     State 445 [(46, 46, St 294), (58, 58, St 374), (93, 93, St 512), (48, 57, St 443), (97, 102, St 371), (65, 70, St 371)] (St 0),
     State 446 [(58, 58, St 374), (93, 93, St 512), (48, 57, St 371), (97, 102, St 371), (65, 70, St 371)] (St 0),
     State 447 [(48, 57, St 448), (97, 102, St 448), (65, 70, St 448)] (St 0),
     State 448 [(46, 46, St 449), (48, 57, St 448), (97, 102, St 448), (65, 70, St 448)] (St 0),
     State 449 [(33, 33, St 450), (36, 36, St 450), (61, 61, St 450), (95, 95, St 450), (126, 126, St 450), (38, 46, St 450), (97, 122, St 450), (65, 90, St 450), (48, 59, St 450)] (St 0),
     State 450 [(33, 33, St 450), (36, 36, St 450), (61, 61, St 450), (93, 93, St 512), (95, 95, St 450), (126, 126, St 450), (38, 46, St 450), (97, 122, St 450), (65, 90, St 450), (48, 59, St 450)] (St 0)]"

(* net/uri.cc 9457-9614: URI::Create, states *)
definition uri_items66 :: "uri_action item list" where
  "uri_items66 =
    [Trans 577 [Set_mark] 542,
     State 542 [(33, 33, St 255), (35, 35, Tr 570), (37, 37, St 256), (47, 47, Tr 571), (61, 61, St 255), (63, 63, Tr 573), (64, 64, Tr 263), (95, 95, St 255), (126, 126, St 255), (48, 57, St 542), (36, 36, St 255), (38, 46, St 255), (97, 122, St 255), (65, 90, St 255), (58, 59, St 255)] (St 0),
     Trans 551 [Set_mark] 543,
     State 543 [(33, 33, St 520), (35, 35, Tr 559), (37, 37, St 253), (46, 46, St 544), (47, 47, Tr 560), (58, 58, Tr 576), (61, 61, St 520), (63, 63, Tr 562), (64, 64, Tr 263), (95, 95, St 520), (126, 126, St 520), (36, 36, St 520), (38, 45, St 520), (48, 57, St 520), (59, 59, St 520), (97, 122, St 520), (65, 90, St 520)] (St 0),
     State 544 [(2, 2, St 233), (33, 33, St 520), (35, 35, Tr 559), (37, 37, St 253), (47, 47, Tr 560), (48, 48, St 545), (49, 49, St 553), (50, 50, St 555), (58, 58, Tr 576), (59, 59, St 520), (61, 61, St 520), (63, 63, Tr 562), (64, 64, Tr 263), (95, 95, St 520), (126, 126, St 520), (36, 36, St 520), (38, 46, St 520), (97, 122, St 520), (65, 90, St 520), (51, 57, St 554)] (St 0),
     State 545 [(33, 33, St 520), (35, 35, Tr 559), (37, 37, St 253), (46, 46, St 546), (47, 47, Tr 560), (58, 58, Tr 576), (61, 61, St 520), (63, 63, Tr 562), (64, 64, Tr 263), (95, 95, St 520), (126, 126, St 520), (36, 36, St 520), (38, 45, St 520), (48, 57, St 520), (59, 59, St 520), (97, 122, St 520), (65, 90, St 520)] (St 0),
     State 546 [(2, 2, St 237), (33, 33, St 520), (35, 35, Tr 559), (37, 37, St 253), (47, 47, Tr 560), (48, 48, St 547), (49, 49, St 549), (50, 50, St 551), (58, 58, Tr 576), (59, 59, St 520), (61, 61, St 520), (63, 63, Tr 562), (64, 64, Tr 263), (95, 95, St 520), (126, 126, St 520), (36, 36, St 520), (38, 46, St 520), (97, 122, St 520), (65, 90, St 520), (51, 57, St 550)] (St 0)]"

(* net/uri.cc 9615-9757: URI::Create, states *)
definition uri_items67 :: "uri_action item list" where
  "uri_items67 =
    [State 547 [(33, 33, St 520), (35, 35, Tr 559), (37, 37, St 253), (46, 46, St 548), (47, 47, Tr 560), (58, 58, Tr 576), (61, 61, St 520), (63, 63, Tr 562), (64, 64, Tr 263), (95, 95, St 520), (126, 126, St 520), (36, 36, St 520), (38, 45, St 520), (48, 57, St 520), (59, 59, St 520), (97, 122, St 520), (65, 90, St 520)] (St 0),
     State 548 [(2, 2, St 241), (33, 33, St 520), (35, 35, Tr 559), (37, 37, St 253), (47, 47, Tr 560), (58, 58, Tr 576), (61, 61, St 520), (63, 63, Tr 562), (64, 64, Tr 263), (95, 95, St 520), (126, 126, St 520), (36, 36, St 520), (38, 46, St 520), (48, 57, St 520), (59, 59, St 520), (97, 122, St 520), (65, 90, St 520)] (St 0),
     State 549 [(33, 33, St 520), (35, 35, Tr 559), (37, 37, St 253), (46, 46, St 548), (47, 47, Tr 560), (58, 58, Tr 576), (59, 59, St 520), (61, 61, St 520), (63, 63, Tr 562), (64, 64, Tr 263), (95, 95, St 520), (126, 126, St 520), (36, 36, St 520), (38, 45, St 520), (97, 122, St 520), (65, 90, St 520), (48, 57, St 550)] (St 0),
     State 550 [(33, 33, St 520), (35, 35, Tr 559), (37, 37, St 253), (46, 46, St 548), (47, 47, Tr 560), (58, 58, Tr 576), (59, 59, St 520), (61, 61, St 520), (63, 63, Tr 562), (64, 64, Tr 263), (95, 95, St 520), (126, 126, St 520), (36, 36, St 520), (38, 45, St 520), (97, 122, St 520), (65, 90, St 520), (48, 57, St 547)] (St 0),
     State 551 [(33, 33, St 520), (35, 35, Tr 559), (37, 37, St 253), (46, 46, St 548), (47, 47, Tr 560), (53, 53, St 552), (58, 58, Tr 576), (59, 59, St 520), (61, 61, St 520), (63, 63, Tr 562), (64, 64, Tr 263), (95, 95, St 520), (126, 126, St 520), (36, 36, St 520), (38, 45, St 520), (97, 122, St 520), (65, 90, St 520), (48, 52, St 547), (54, 57, St 547)] (St 0)]"

(* net/uri.cc 9758-9912: URI::Create, states *)
definition uri_items68 :: "uri_action item list" where
  "uri_items68 =
    [State 552 [(33, 33, St 520), (35, 35, Tr 559), (37, 37, St 253), (46, 46, St 548), (47, 47, Tr 560), (58, 58, Tr 576), (61, 61, St 520), (63, 63, Tr 562), (64, 64, Tr 263), (95, 95, St 520), (126, 126, St 520), (48, 53, St 547), (36, 36, St 520), (38, 45, St 520), (97, 122, St 520), (65, 90, St 520), (54, 57, St 520), (59, 59, St 520)] (St 0),
     State 553 [(33, 33, St 520), (35, 35, Tr 559), (37, 37, St 253), (46, 46, St 546), (47, 47, Tr 560), (58, 58, Tr 576), (59, 59, St 520), (61, 61, St 520), (63, 63, Tr 562), (64, 64, Tr 263), (95, 95, St 520), (126, 126, St 520), (36, 36, St 520), (38, 45, St 520), (97, 122, St 520), (65, 90, St 520), (48, 57, St 554)] (St 0),
     State 554 [(33, 33, St 520), (35, 35, Tr 559), (37, 37, St 253), (46, 46, St 546), (47, 47, Tr 560), (58, 58, Tr 576), (59, 59, St 520), (61, 61, St 520), (63, 63, Tr 562), (64, 64, Tr 263), (95, 95, St 520), (126, 126, St 520), (36, 36, St 520), (38, 45, St 520), (97, 122, St 520), (65, 90, St 520), (48, 57, St 545)] (St 0),
     State 555 [(33, 33, St 520), (35, 35, Tr 559), (37, 37, St 253), (46, 46, St 546), (47, 47, Tr 560), (53, 53, St 556), (58, 58, Tr 576), (59, 59, St 520), (61, 61, St 520), (63, 63, Tr 562), (64, 64, Tr 263), (95, 95, St 520), (126, 126, St 520), (36, 36, St 520), (38, 45, St 520), (97, 122, St 520), (65, 90, St 520), (48, 52, St 545), (54, 57, St 545)] (St 0),
     State 556 [(33, 33, St 520), (35, 35, Tr 559), (37, 37, St 253), (46, 46, St 546), (47, 47, Tr 560), (58, 58, Tr 576), (61, 61, St 520), (63, 63, Tr 562), (64, 64, Tr 263), (95, 95, St 520), (126, 126, St 520), (48, 53, St 545), (36, 36, St 520), (38, 45, St 520), (97, 122, St 520), (65, 90, St 520), (54, 57, St 520), (59, 59, St 520)] (St 0)]"

(* net/uri.cc 9913-10050: URI::Create, states *)
definition uri_items69 :: "uri_action item list" where
  "uri_items69 =
    [Trans 552 [Set_mark] 557,
     State 557 [(33, 33, St 520), (35, 35, Tr 559), (37, 37, St 253), (46, 46, St 544), (47, 47, Tr 560), (58, 58, Tr 576), (59, 59, St 520), (61, 61, St 520), (63, 63, Tr 562), (64, 64, Tr 263), (95, 95, St 520), (126, 126, St 520), (36, 36, St 520), (38, 45, St 520), (97, 122, St 520), (65, 90, St 520), (48, 57, St 558)] (St 0),
     Trans 554 [Set_mark] 558,
     State 558 [(33, 33, St 520), (35, 35, Tr 559), (37, 37, St 253), (46, 46, St 544), (47, 47, Tr 560), (58, 58, Tr 576), (59, 59, St 520), (61, 61, St 520), (63, 63, Tr 562), (64, 64, Tr 263), (95, 95, St 520), (126, 126, St 520), (36, 36, St 520), (38, 45, St 520), (97, 122, St 520), (65, 90, St 520), (48, 57, St 543)] (St 0),
     Trans 553 [Set_mark] 559,
     State 559 [(33, 33, St 520), (35, 35, Tr 559), (37, 37, St 253), (46, 46, St 544), (47, 47, Tr 560), (53, 53, St 560), (58, 58, Tr 576), (59, 59, St 520), (61, 61, St 520), (63, 63, Tr 562), (64, 64, Tr 263), (95, 95, St 520), (126, 126, St 520), (36, 36, St 520), (38, 45, St 520), (97, 122, St 520), (65, 90, St 520), (48, 52, St 543), (54, 57, St 543)] (St 0),
     State 560 [(33, 33, St 520), (35, 35, Tr 559), (37, 37, St 253), (46, 46, St 544), (47, 47, Tr 560), (58, 58, Tr 576), (61, 61, St 520), (63, 63, Tr 562), (64, 64, Tr 263), (95, 95, St 520), (126, 126, St 520), (48, 53, St 543), (36, 36, St 520), (38, 45, St 520), (97, 122, St 520), (65, 90, St 520), (54, 57, St 520), (59, 59, St 520)] (St 0)]"

definition uri_machine :: "uri_action item list" where
  "uri_machine =
     uri_items1 @ uri_items2 @ uri_items3 @ uri_items4 @ uri_items5 @ uri_items6 @ uri_items7 @ uri_items8 @ uri_items9 @ uri_items10
     @ uri_items11 @ uri_items12 @ uri_items13 @ uri_items14 @ uri_items15 @ uri_items16 @ uri_items17 @ uri_items18 @ uri_items19 @ uri_items20
     @ uri_items21 @ uri_items22 @ uri_items23 @ uri_items24 @ uri_items25 @ uri_items26 @ uri_items27 @ uri_items28 @ uri_items29 @ uri_items30
     @ uri_items31 @ uri_items32 @ uri_items33 @ uri_items34 @ uri_items35 @ uri_items36 @ uri_items37 @ uri_items38 @ uri_items39 @ uri_items40
     @ uri_items41 @ uri_items42 @ uri_items43 @ uri_items44 @ uri_items45 @ uri_items46 @ uri_items47 @ uri_items48 @ uri_items49 @ uri_items50
     @ uri_items51 @ uri_items52 @ uri_items53 @ uri_items54 @ uri_items55 @ uri_items56 @ uri_items57 @ uri_items58 @ uri_items59 @ uri_items60
     @ uri_items61 @ uri_items62 @ uri_items63 @ uri_items64 @ uri_items65 @ uri_items66 @ uri_items67 @ uri_items68 @ uri_items69"

text \<open>What the scanner does at the end of the text, by state.\<close>

(* net/uri.cc 10612-10860: URI::Create, end of the text *)
definition uri_eof_actions :: "(nat list \<times> uri_action list) list" where
  "uri_eof_actions =
    [([462, 489], [Save_port]),
     ([460, 463, 464, 465, 466, 467, 470, 471, 472, 473, 474, 475, 476, 477, 478, 479, 480, 481, 482, 483, 484, 485, 486, 487, 488, 490, 491, 492, 493, 494, 495, 496, 497, 498, 499, 500, 501, 502, 503, 504, 505, 506, 507], [Save_host]),
     ([513], [Save_path]),
     ([457], [Save_query]),
     ([454], [Save_fragment]),
     ([456], [Set_mark, Save_query]),
     ([453], [Set_mark, Save_fragment]),
     ([461, 468], [Set_mark, Save_port]),
     ([459, 469], [Set_mark, Save_host]),
     ([514, 521], [Set_mark, Save_port, Save_path]),
     ([511, 522], [Set_mark, Save_host, Save_path]),
     ([515, 542], [Save_port, Set_mark, Save_path]),
     ([512, 516, 517, 518, 519, 520, 523, 524, 525, 526, 527, 528, 529, 530, 531, 532, 533, 534, 535, 536, 537, 538, 539, 540, 541, 543, 544, 545, 546, 547, 548, 549, 550, 551, 552, 553, 554, 555, 556, 557, 558, 559, 560], [Save_host, Set_mark, Save_path])]"

fun find_eof :: "nat \<Rightarrow> (nat list \<times> uri_action list) list \<Rightarrow> uri_action list" where
  "find_eof cs [] = []"
| "find_eof cs ((ns, as) # rest) = (if cs \<in> set ns then as else find_eof cs rest)"

record uri_scan =
  us_uri :: uri
  us_mark :: "nat option"
  us_fail :: bool

text \<open>\<^verbatim>\<open>std::string (mark, p - mark)\<close>, handed to a setter; the mark is cleared.\<close>

definition save_marked :: "string \<Rightarrow> nat \<Rightarrow> (string \<Rightarrow> uri \<Rightarrow> uri) \<Rightarrow> uri_scan \<Rightarrow> uri_scan" where
  "save_marked s p set_field q =
     (case us_mark q of
        None \<Rightarrow> q\<lparr>us_fail := True\<rparr>
      | Some m \<Rightarrow> q\<lparr>us_uri := set_field (take (p - m) (drop m s)) (us_uri q), us_mark := None\<rparr>)"

(* net/URI.h 28-34: URI::setScheme and the other setters, with the actions of the scanner *)
fun uri_act :: "string \<Rightarrow> (uri_action, uri_scan, unit) action_fun" where
  "uri_act s Set_mark p q = ([], q\<lparr>us_mark := Some p\<rparr>, None)"
| "uri_act s Save_scheme p q = ([], save_marked s p (\<lambda>x. u_scheme_update (\<lambda>_. x)) q, None)"
| "uri_act s Save_port p q =
     ([], case us_mark q of
            None \<Rightarrow> q\<lparr>us_fail := True\<rparr>
          | Some m \<Rightarrow>
              q\<lparr>us_uri := (if p \<noteq> m then (us_uri q)\<lparr>u_port := int_of_long (strtol 10 (drop m s))\<rparr> else us_uri q),
                us_mark := None\<rparr>, None)"
| "uri_act s Save_userinfo p q =
     ([], if us_mark q = None then q else save_marked s p (\<lambda>x. u_userinfo_update (\<lambda>_. x)) q, None)"
| "uri_act s Save_host p q =
     ([], if us_mark q = None then q
          else (save_marked s p (\<lambda>x. u_host_update (\<lambda>_. x)) q)\<lparr>us_mark := us_mark q\<rparr>, None)"
| "uri_act s Save_path p q = ([], save_marked s p (\<lambda>x. u_path_update (\<lambda>_. x)) q, None)"
| "uri_act s Save_query p q = ([], save_marked s p (\<lambda>x. u_query_update (\<lambda>_. x)) q, None)"
| "uri_act s Save_fragment p q = ([], save_marked s p (\<lambda>x. u_fragment_update (\<lambda>_. x)) q, None)"

(* net/uri.cc 10874: URI::URI *)
definition URI_ctor :: uri where
  "URI_ctor = \<lparr>u_scheme = [], u_userinfo = [], u_host = [], u_path = [], u_query = [], u_fragment = [], u_port = 0\<rparr>"

text \<open>At the end of the text a scanner in the error state or outside its final states gives no
  URI; the actions of the end are only done when the whole text was read.\<close>

definition uri_finish :: "string \<Rightarrow> unit list \<times> nat \<times> nat \<times> uri_scan \<Rightarrow> nat \<times> uri_scan" where
  "uri_finish s r =
     (case r of (_, cs, p, q) \<Rightarrow>
        if cs \<noteq> 0 \<and> p = length s
        then let (_, q1, _) = do_actions (uri_act s) (find_eof cs uri_eof_actions) p q in (cs, q1)
        else (cs, q))"

definition uri_run :: "string \<Rightarrow> nat \<times> uri_scan" where
  "uri_run s =
     uri_finish s (scan uri_machine (uri_act s) 451 0 s \<lparr>us_uri = URI_ctor, us_mark = None, us_fail = False\<rparr>)"

(* net/uri.cc 18-38: URI::Create *)
definition URI_Create :: "string \<Rightarrow> uri option result" where
  "URI_Create s =
     (let (cs, q) = uri_run s in
      if us_fail q then Inl Logic_error
      else Inr (if cs = 0 then None else if cs \<ge> 451 then Some (us_uri q) else None))"

(* net/uri.cc 10878: URI::isDefaultPort *)
definition isDefaultPort :: "uri \<Rightarrow> bool" where
  "isDefaultPort u =
     (if u_port u = 0 then True
      else if u_scheme u = ''http'' \<or> u_scheme u = ''ws'' then u_port u = 80
      else if u_scheme u = ''https'' \<or> u_scheme u = ''wss'' then u_port u = 443
      else False)"

(* net/uri.cc 10892: URI::getPath *)
definition getPath :: "uri \<Rightarrow> string" where
  "getPath u = (if u_path u = [] then ''/'' else u_path u)"

(* net/uri.cc 10897: URI::GetPort *)
definition uri_GetPort :: "uri \<Rightarrow> int" where
  "uri_GetPort u =
     (if u_port u \<noteq> 0 then u_port u
      else if u_scheme u = ''http'' \<or> u_scheme u = ''ws'' then 80
      else if u_scheme u = ''https'' \<or> u_scheme u = ''wss'' then 443
      else u_port u)"

(* net/uri.cc 10912: URI::dump *)
definition uri_dump :: "uri \<Rightarrow> string" where
  "uri_dump u =
     u_scheme u @ ''://'' @ u_userinfo u @ (if u_userinfo u = [] then [] else ''@'') @ u_host u
     @ (if isDefaultPort u then [] else '':'' @ show_int (u_port u)) @ getPath u
     @ (if u_query u = [] then [] else ''?'') @ u_query u @ (if u_fragment u = [] then [] else ''#'') @ u_fragment u"

(* net/uri.cc 10926: URI::toString *)
definition uri_toString :: "uri \<Rightarrow> string" where
  "uri_toString u = uri_dump u"

section \<open>Lemmas\<close>

text \<open>The states and transitions of the machine are numbered apart.\<close>

lemmas uri_defs = uri_items1_def uri_items2_def uri_items3_def uri_items4_def uri_items5_def uri_items6_def uri_items7_def uri_items8_def
  uri_items9_def uri_items10_def uri_items11_def uri_items12_def uri_items13_def uri_items14_def uri_items15_def uri_items16_def
  uri_items17_def uri_items18_def uri_items19_def uri_items20_def uri_items21_def uri_items22_def uri_items23_def uri_items24_def
  uri_items25_def uri_items26_def uri_items27_def uri_items28_def uri_items29_def uri_items30_def uri_items31_def uri_items32_def
  uri_items33_def uri_items34_def uri_items35_def uri_items36_def uri_items37_def uri_items38_def uri_items39_def uri_items40_def
  uri_items41_def uri_items42_def uri_items43_def uri_items44_def uri_items45_def uri_items46_def uri_items47_def uri_items48_def
  uri_items49_def uri_items50_def uri_items51_def uri_items52_def uri_items53_def uri_items54_def uri_items55_def uri_items56_def
  uri_items57_def uri_items58_def uri_items59_def uri_items60_def uri_items61_def uri_items62_def uri_items63_def uri_items64_def
  uri_items65_def uri_items66_def uri_items67_def uri_items68_def uri_items69_def

lemma uri_block_states:
  "state_nums uri_items1 = [451, 452]"
  "state_nums uri_items2 = [453, 454, 1, 2]"
  "state_nums uri_items3 = [3, 4, 455, 5, 6]"
  "state_nums uri_items4 = [456, 457]"
  "state_nums uri_items5 = [7, 8, 458, 459, 9, 10, 11, 12, 13, 14]"
  "state_nums uri_items6 = [15, 16, 17, 18, 19, 20, 21, 22, 460, 461, 462, 463]"
  "state_nums uri_items7 = [464, 465, 466, 23, 24, 25, 26, 27, 28, 29, 30, 467]"
  "state_nums uri_items8 = [31, 32, 468, 33, 34, 35]"
  "state_nums uri_items9 = [469, 470, 36, 37, 471]"
  "state_nums uri_items10 = [472, 473, 474, 475, 476]"
  "state_nums uri_items11 = [477, 478, 479, 480, 481]"
  "state_nums uri_items12 = [482, 483, 484, 485, 486]"
  "state_nums uri_items13 = [487, 488, 38, 39, 40, 41, 42]"
  "state_nums uri_items14 = [43, 44, 45, 46, 47, 48, 49, 50, 51, 52, 53]"
  "state_nums uri_items15 = [54, 55, 56, 57, 58, 59, 60, 61, 62, 63, 64]"
  "state_nums uri_items16 = [65, 66, 67, 68, 69, 70, 71, 72, 73, 74, 75, 76, 77, 78]"
  "state_nums uri_items17 = [79, 80, 81, 82, 83, 84, 85, 86, 87, 88, 89, 90, 91, 92, 93, 94]"
  "state_nums uri_items18 = [95, 96, 97, 98, 99, 100, 101, 102, 103, 104]"
  "state_nums uri_items19 = [105, 106, 107, 108, 109, 110, 111, 112, 113]"
  "state_nums uri_items20 = [114, 115, 116, 117, 118, 119, 120, 121, 122]"
  "state_nums uri_items21 = [123, 124, 125, 126, 127, 128, 129, 130, 131, 132]"
  "state_nums uri_items22 = [133, 134, 135, 136, 137, 138, 139, 140, 141, 142, 143]"
  "state_nums uri_items23 = [144, 145, 146, 147, 148, 149, 150, 151, 152, 153]"
  "state_nums uri_items24 = [154, 155, 156, 157, 158, 159, 160, 161, 162]"
  "state_nums uri_items25 = [163, 164, 165, 166, 167, 168, 169, 170, 171]"
  "state_nums uri_items26 = [172, 173, 174, 175, 176, 177, 178, 179, 180]"
  "state_nums uri_items27 = [181, 182, 183, 184, 185, 186, 187, 188]"
  "state_nums uri_items28 = [189, 190, 191, 192, 193, 194, 195, 196]"
  "state_nums uri_items29 = [197, 198, 199, 200, 201, 202, 203, 204]"
  "state_nums uri_items30 = [205, 206, 207, 208, 209, 210, 211, 212]"
  "state_nums uri_items31 = [213, 214, 215, 216, 217, 218, 219, 220]"
  "state_nums uri_items32 = [221, 222, 223, 224, 225, 226, 227, 228]"
  "state_nums uri_items33 = [489, 490, 491, 492, 493]"
  "state_nums uri_items34 = [494, 495, 496, 497, 498]"
  "state_nums uri_items35 = [499, 500, 501, 502, 503]"
  "state_nums uri_items36 = [504, 505, 506, 507]"
  "state_nums uri_items37 = [508, 509, 510, 511, 229]"
  "state_nums uri_items38 = [230, 231, 232, 233, 234, 235, 236, 237, 238, 239, 240, 241, 242, 512]"
  "state_nums uri_items39 = [513, 243, 244, 514, 515, 516]"
  "state_nums uri_items40 = [517, 518, 519, 245, 246, 247, 248, 249, 250, 251, 252, 520]"
  "state_nums uri_items41 = [253, 254, 521, 255, 256, 257]"
  "state_nums uri_items42 = [522, 523, 258, 259, 524]"
  "state_nums uri_items43 = [525, 526, 527, 528, 529]"
  "state_nums uri_items44 = [530, 531, 532, 533, 534]"
  "state_nums uri_items45 = [535, 536, 537, 538, 539]"
  "state_nums uri_items46 = [540, 541, 260, 261, 262, 263, 264]"
  "state_nums uri_items47 = [265, 266, 267, 268, 269, 270, 271, 272, 273, 274, 275]"
  "state_nums uri_items48 = [276, 277, 278, 279, 280, 281, 282, 283, 284, 285, 286]"
  "state_nums uri_items49 = [287, 288, 289, 290, 291, 292, 293, 294, 295, 296, 297, 298, 299, 300]"
  "state_nums uri_items50 = [301, 302, 303, 304, 305, 306, 307, 308, 309, 310, 311, 312, 313, 314, 315, 316]"
  "state_nums uri_items51 = [317, 318, 319, 320, 321, 322, 323, 324, 325, 326]"
  "state_nums uri_items52 = [327, 328, 329, 330, 331, 332, 333, 334, 335]"
  "state_nums uri_items53 = [336, 337, 338, 339, 340, 341, 342, 343, 344]"
  "state_nums uri_items54 = [345, 346, 347, 348, 349, 350, 351, 352, 353, 354]"
  "state_nums uri_items55 = [355, 356, 357, 358, 359, 360, 361, 362, 363, 364, 365]"
  "state_nums uri_items56 = [366, 367, 368, 369, 370, 371, 372, 373, 374, 375]"
  "state_nums uri_items57 = [376, 377, 378, 379, 380, 381, 382, 383, 384]"
  "state_nums uri_items58 = [385, 386, 387, 388, 389, 390, 391, 392, 393]"
  "state_nums uri_items59 = [394, 395, 396, 397, 398, 399, 400, 401, 402]"
  "state_nums uri_items60 = [403, 404, 405, 406, 407, 408, 409, 410]"
  "state_nums uri_items61 = [411, 412, 413, 414, 415, 416, 417, 418]"
  "state_nums uri_items62 = [419, 420, 421, 422, 423, 424, 425, 426]"
  "state_nums uri_items63 = [427, 428, 429, 430, 431, 432, 433, 434]"
  "state_nums uri_items64 = [435, 436, 437, 438, 439, 440, 441, 442]"
  "state_nums uri_items65 = [443, 444, 445, 446, 447, 448, 449, 450]"
  "state_nums uri_items66 = [542, 543, 544, 545, 546]"
  "state_nums uri_items67 = [547, 548, 549, 550, 551]"
  "state_nums uri_items68 = [552, 553, 554, 555, 556]"
  "state_nums uri_items69 = [557, 558, 559, 560]"
  by (simp_all add: uri_defs)

lemma uri_block_trans:
  "trans_nums uri_items1 = [467, 469, 474, 485, 489, 493, 548]"
  "trans_nums uri_items2 = [559, 563, 566, 570, 462, 463]"
  "trans_nums uri_items3 = [476, 486, 490, 494, 482, 488]"
  "trans_nums uri_items4 = [492, 496, 556, 562, 565, 569, 573, 466]"
  "trans_nums uri_items5 = [468, 472]"
  "trans_nums uri_items6 = [507, 487, 491]"
  "trans_nums uri_items7 = [473]"
  "trans_nums uri_items8 = [475, 481, 499]"
  "trans_nums uri_items9 = [38, 483, 501, 502, 503]"
  "trans_nums uri_items10 = []"
  "trans_nums uri_items11 = []"
  "trans_nums uri_items12 = [504, 506]"
  "trans_nums uri_items13 = [505, 484]"
  "trans_nums uri_items14 = []"
  "trans_nums uri_items15 = []"
  "trans_nums uri_items16 = []"
  "trans_nums uri_items17 = []"
  "trans_nums uri_items18 = []"
  "trans_nums uri_items19 = []"
  "trans_nums uri_items20 = []"
  "trans_nums uri_items21 = []"
  "trans_nums uri_items22 = []"
  "trans_nums uri_items23 = []"
  "trans_nums uri_items24 = []"
  "trans_nums uri_items25 = []"
  "trans_nums uri_items26 = []"
  "trans_nums uri_items27 = []"
  "trans_nums uri_items28 = []"
  "trans_nums uri_items29 = []"
  "trans_nums uri_items30 = []"
  "trans_nums uri_items31 = []"
  "trans_nums uri_items32 = []"
  "trans_nums uri_items33 = [500, 477]"
  "trans_nums uri_items34 = []"
  "trans_nums uri_items35 = []"
  "trans_nums uri_items36 = [478, 480, 479]"
  "trans_nums uri_items37 = [461, 543, 546]"
  "trans_nums uri_items38 = [550]"
  "trans_nums uri_items39 = [567, 560, 571, 584, 561, 568]"
  "trans_nums uri_items40 = [547]"
  "trans_nums uri_items41 = [549, 555, 576]"
  "trans_nums uri_items42 = [263, 557, 578, 579, 580]"
  "trans_nums uri_items43 = []"
  "trans_nums uri_items44 = []"
  "trans_nums uri_items45 = [581, 583]"
  "trans_nums uri_items46 = [582, 558]"
  "trans_nums uri_items47 = []"
  "trans_nums uri_items48 = []"
  "trans_nums uri_items49 = []"
  "trans_nums uri_items50 = []"
  "trans_nums uri_items51 = []"
  "trans_nums uri_items52 = []"
  "trans_nums uri_items53 = []"
  "trans_nums uri_items54 = []"
  "trans_nums uri_items55 = []"
  "trans_nums uri_items56 = []"
  "trans_nums uri_items57 = []"
  "trans_nums uri_items58 = []"
  "trans_nums uri_items59 = []"
  "trans_nums uri_items60 = []"
  "trans_nums uri_items61 = []"
  "trans_nums uri_items62 = []"
  "trans_nums uri_items63 = []"
  "trans_nums uri_items64 = []"
  "trans_nums uri_items65 = []"
  "trans_nums uri_items66 = [577, 551]"
  "trans_nums uri_items67 = []"
  "trans_nums uri_items68 = []"
  "trans_nums uri_items69 = [552, 554, 553]"
  by (simp_all add: uri_defs)

lemma uri_distinct: "distinct (state_nums uri_machine)" "distinct (trans_nums uri_machine)"
proof -
  have "ascending (filter (\<lambda>n. n < 451) (state_nums uri_machine))" "ascending (filter (\<lambda>n. \<not> n < 451) (state_nums uri_machine))"
    unfolding uri_machine_def state_nums_append uri_block_states by simp_all
  then show "distinct (state_nums uri_machine)" using ascending_distinct distinct_parts by blast
  show "distinct (trans_nums uri_machine)"
    unfolding uri_machine_def trans_nums_append uri_block_trans by simp
qed

lemma uri_states: "set (state_nums uri_machine) = {1..560}"
proof (rule card_subset_eq)
  show "set (state_nums uri_machine) \<subseteq> {1..560}"
    unfolding uri_machine_def state_nums_append uri_block_states by simp
  have "length (state_nums uri_machine) = 560" unfolding uri_machine_def state_nums_append uri_block_states by simp
  then show "card (set (state_nums uri_machine)) = card {1..560 :: nat}" using distinct_card [OF uri_distinct(1)] by simp
qed simp

text \<open>
  The states in which the scanner reads a host name, and the rows and transitions that a
  URL with a host, a port, a path, a query and a fragment takes.
\<close>

definition host_state :: "nat \<Rightarrow> bool" where
  "host_state n \<longleftrightarrow> n = 520 \<or> (543 \<le> n \<and> n \<le> 560)"

definition alpha_ranges :: "(int \<times> int) list" where
  "alpha_ranges = [(65, 90), (97, 122)]"

definition scheme_ranges :: "(int \<times> int) list" where
  "scheme_ranges = [(43, 43), (45, 46), (48, 57), (65, 90), (97, 122)]"

definition host_ranges :: "(int \<times> int) list" where
  "host_ranges = [(45, 46), (48, 57), (65, 90), (95, 95), (97, 122), (126, 126)]"

definition digit_ranges :: "(int \<times> int) list" where
  "digit_ranges = [(48, 57)]"

definition path_ranges :: "(int \<times> int) list" where
  "path_ranges = [(- 128, - 1), (33, 33), (36, 36), (38, 59), (61, 61), (64, 90), (95, 95), (97, 122), (126, 126)]"

definition query_ranges :: "(int \<times> int) list" where
  "query_ranges = [(- 128, - 1), (33, 33), (36, 36), (38, 59), (61, 61), (63, 90), (95, 95), (97, 122), (126, 126)]"

lemmas range_defs = alpha_ranges_def scheme_ranges_def host_ranges_def digit_ranges_def path_ranges_def query_ranges_def on_ranges_def

fun host_jump :: "int \<Rightarrow> int \<Rightarrow> jump \<Rightarrow> bool" where
  "host_jump lo hi (St s) = host_state s"
| "host_jump lo hi (Tr t) = False"

definition host_check :: "nat \<Rightarrow> (int \<times> int \<times> jump) list \<Rightarrow> jump \<Rightarrow> bool" where
  "host_check n ts j =
     (if host_state n then on_ranges host_ranges host_jump ts j \<and> select 47 ts j = Tr 560 \<and> select 58 ts j = Tr 576 else True)"

fun host_item :: "uri_action item \<Rightarrow> bool" where
  "host_item (State n ts j) = host_check n ts j"
| "host_item (Trans t as s) = True"

lemma uri_hosts_checked: "list_all host_item uri_machine"
  unfolding uri_machine_def by (simp add: uri_defs host_check_def host_state_def range_defs)

lemma uri_rows:
  "find_state 451 uri_machine = Some ([(34, 34, St 0), (35, 35, St 453), (37, 37, St 3), (47, 47, St 458), (58, 58, St 0), (60, 60, St 0), (62, 62, St 0), (63, 63, St 456), (96, 96, St 0), (127, 127, St 0), (65, 90, Tr 461), (0, 32, St 0), (123, 125, St 0), (97, 122, Tr 461), (91, 94, St 0)], St 452)"
  "find_state 508 uri_machine = Some ([(34, 34, St 0), (35, 35, St 453), (37, 37, St 3), (43, 43, St 508), (47, 47, St 455), (58, 58, Tr 543), (60, 60, St 0), (62, 62, St 0), (63, 63, St 456), (96, 96, St 0), (127, 127, St 0), (45, 46, St 508), (48, 57, St 508), (0, 32, St 0), (91, 94, St 0), (123, 125, St 0), (97, 122, St 508), (65, 90, St 508)], St 452)"
  "find_state 509 uri_machine = Some ([(34, 34, St 0), (35, 35, St 453), (37, 37, St 5), (47, 47, St 510), (60, 60, St 0), (62, 62, St 0), (63, 63, St 456), (96, 96, St 0), (127, 127, St 0), (0, 32, St 0), (123, 125, St 0), (91, 94, St 0)], St 455)"
  "find_state 510 uri_machine = Some ([(34, 34, St 0), (35, 35, St 453), (37, 37, St 5), (47, 47, St 511), (60, 60, St 0), (62, 62, St 0), (63, 63, St 456), (96, 96, St 0), (127, 127, St 0), (0, 32, St 0), (123, 125, St 0), (91, 94, St 0)], St 455)"
  "find_state 511 uri_machine = Some ([(2, 2, Tr 546), (33, 33, Tr 547), (35, 35, Tr 548), (37, 37, Tr 549), (47, 47, Tr 550), (48, 48, Tr 551), (49, 49, Tr 552), (50, 50, Tr 553), (58, 58, Tr 555), (59, 59, Tr 547), (61, 61, Tr 547), (63, 63, Tr 556), (64, 64, Tr 557), (91, 91, Tr 558), (95, 95, Tr 547), (126, 126, Tr 547), (36, 36, Tr 547), (38, 46, Tr 547), (97, 122, Tr 547), (65, 90, Tr 547), (51, 57, Tr 554)], St 0)"
  "find_state 521 uri_machine = Some ([(33, 33, St 255), (35, 35, Tr 566), (37, 37, St 256), (47, 47, Tr 567), (61, 61, St 255), (63, 63, Tr 569), (64, 64, Tr 263), (95, 95, St 255), (126, 126, St 255), (48, 57, Tr 577), (36, 36, St 255), (38, 46, St 255), (97, 122, St 255), (65, 90, St 255), (58, 59, St 255)], St 0)"
  "find_state 542 uri_machine = Some ([(33, 33, St 255), (35, 35, Tr 570), (37, 37, St 256), (47, 47, Tr 571), (61, 61, St 255), (63, 63, Tr 573), (64, 64, Tr 263), (95, 95, St 255), (126, 126, St 255), (48, 57, St 542), (36, 36, St 255), (38, 46, St 255), (97, 122, St 255), (65, 90, St 255), (58, 59, St 255)], St 0)"
  "find_state 513 uri_machine = Some ([(34, 34, St 0), (35, 35, Tr 563), (37, 37, St 243), (60, 60, St 0), (62, 62, St 0), (63, 63, Tr 565), (96, 96, St 0), (127, 127, St 0), (0, 32, St 0), (123, 125, St 0), (91, 94, St 0)], St 513)"
  "find_state 456 uri_machine = Some ([(34, 34, St 0), (35, 35, Tr 467), (37, 37, Tr 468), (60, 60, St 0), (62, 62, St 0), (96, 96, St 0), (127, 127, St 0), (0, 32, St 0), (123, 125, St 0), (91, 94, St 0)], Tr 466)"
  "find_state 457 uri_machine = Some ([(34, 34, St 0), (35, 35, Tr 469), (37, 37, St 7), (60, 60, St 0), (62, 62, St 0), (96, 96, St 0), (127, 127, St 0), (0, 32, St 0), (123, 125, St 0), (91, 94, St 0)], St 457)"
  "find_state 453 uri_machine = Some ([(37, 37, Tr 463), (60, 60, St 0), (62, 62, St 0), (96, 96, St 0), (127, 127, St 0), (0, 32, St 0), (123, 125, St 0), (91, 94, St 0), (34, 35, St 0)], Tr 462)"
  "find_state 454 uri_machine = Some ([(37, 37, St 1), (60, 60, St 0), (62, 62, St 0), (96, 96, St 0), (127, 127, St 0), (0, 32, St 0), (123, 125, St 0), (91, 94, St 0), (34, 35, St 0)], St 454)"
  by (rule find_state_in [OF uri_distinct(1)]; simp add: uri_machine_def uri_items1_def uri_items2_def uri_items4_def uri_items37_def uri_items39_def uri_items41_def uri_items66_def)+

lemma uri_trans:
  "find_trans 461 uri_machine = ([Set_mark], 508)"
  "find_trans 462 uri_machine = ([Set_mark], 454)"
  "find_trans 466 uri_machine = ([Set_mark], 457)"
  "find_trans 467 uri_machine = ([Set_mark, Save_query], 453)"
  "find_trans 469 uri_machine = ([Save_query], 453)"
  "find_trans 543 uri_machine = ([Save_scheme], 509)"
  "find_trans 547 uri_machine = ([Set_mark], 520)"
  "find_trans 551 uri_machine = ([Set_mark], 543)"
  "find_trans 552 uri_machine = ([Set_mark], 557)"
  "find_trans 553 uri_machine = ([Set_mark], 559)"
  "find_trans 554 uri_machine = ([Set_mark], 558)"
  "find_trans 560 uri_machine = ([Save_host, Set_mark], 513)"
  "find_trans 563 uri_machine = ([Save_path], 453)"
  "find_trans 565 uri_machine = ([Save_path], 456)"
  "find_trans 571 uri_machine = ([Save_port, Set_mark], 513)"
  "find_trans 576 uri_machine = ([Save_host], 521)"
  "find_trans 577 uri_machine = ([Set_mark], 542)"
  by (rule find_trans_in [OF uri_distinct(2)]; simp add: uri_machine_def uri_items1_def uri_items2_def uri_items4_def uri_items37_def uri_items39_def uri_items40_def uri_items41_def uri_items66_def uri_items69_def)+

lemma host_row:
  assumes "host_state n"
  obtains ts j where "find_state n uri_machine = Some (ts, j)" "host_check n ts j"
proof -
  have "n \<in> set (state_nums uri_machine)" using assms by (auto simp: uri_states host_state_def)
  then obtain ts j where i: "State n ts j \<in> set uri_machine" by (auto simp: state_nums_iff)
  then have "host_item (State n ts j)" using uri_hosts_checked unfolding list_all_iff by blast
  then show thesis using that find_state_in [OF uri_distinct(1) i] by simp
qed

end
