(* ===== verification/Uri.thy ===== *)
theory Uri
  imports UriScanner Address
begin

text \<open>
  URIs (\<^verbatim>\<open>qslary/net/URI.h\<close>, \<^verbatim>\<open>uri.cc\<close>): the address a URI is resolved to, and what the
  scanner makes of the text of a URL with a host: scheme, host, port, path, query and
  fragment are read one after the other, each by its own lemma on the rows the scanner
  goes through.
\<close>

section \<open>Definitions\<close>

(* net/uri.cc 10932: URI::createAddress *)
definition createAddress :: "bool \<Rightarrow> (string \<Rightarrow> string option \<Rightarrow> nat \<Rightarrow> nat \<Rightarrow> sockaddr list option)
    \<Rightarrow> uri \<Rightarrow> address option result" where
  "createAddress big getaddrinfo u =
     rbind (HostNameToAddress getaddrinfo (u_host u) AF_UNSPEC 0) (\<lambda>addr.
       Inr (case addr of [] \<Rightarrow> None | a # _ \<Rightarrow> Some (SetPort big (word_of_int (uri_GetPort u)) a)))"

section \<open>Reading a URL\<close>

lemma uri_ends:
  "find_eof 513 uri_eof_actions = [Save_path]" "find_eof 457 uri_eof_actions = [Save_query]"
  "find_eof 454 uri_eof_actions = [Save_fragment]" "find_eof 521 uri_eof_actions = [Set_mark, Save_port, Save_path]"
  by (simp_all add: uri_eof_actions_def)

lemma save_marked_prefix:
  assumes "us_mark q = Some m" "drop m s = x @ y" "p = m + length x"
  shows "save_marked s p f q = q\<lparr>us_uri := f x (us_uri q), us_mark := None\<rparr>"
  using assms by (simp add: save_marked_def)

text \<open>The query and fragment of a URL, with the characters that introduce them.\<close>

definition url_tail :: "string \<Rightarrow> string \<Rightarrow> string" where
  "url_tail qs fs = (if qs = [] then [] else ''?'' @ qs) @ (if fs = [] then [] else ''#'' @ fs)"

abbreviation in_query :: "string \<Rightarrow> bool" where
  "in_query w \<equiv> list_all (in_ranges query_ranges) w"

lemma loop_513: "list_all (in_ranges path_ranges) w \<Longrightarrow> scan uri_machine act 513 p (w @ rest) q = scan uri_machine act 513 (p + length w) rest q"
  by (rule scan_loop [OF uri_rows(8)]) (simp_all add: range_defs)

lemma loop_457: "in_query w \<Longrightarrow> scan uri_machine act 457 p (w @ rest) q = scan uri_machine act 457 (p + length w) rest q"
  by (rule scan_loop [OF uri_rows(10)]) (simp_all add: range_defs)

lemma loop_454: "in_query w \<Longrightarrow> scan uri_machine act 454 p (w @ rest) q = scan uri_machine act 454 (p + length w) rest q"
  by (rule scan_loop [OF uri_rows(12)]) (simp_all add: range_defs)

lemma loop_508: "list_all (in_ranges scheme_ranges) w \<Longrightarrow> scan uri_machine act 508 p (w @ rest) q = scan uri_machine act 508 (p + length w) rest q"
  by (rule scan_loop [OF uri_rows(2)]) (simp_all add: range_defs)

lemma loop_542: "list_all (in_ranges digit_ranges) w \<Longrightarrow> scan uri_machine act 542 p (w @ rest) q = scan uri_machine act 542 (p + length w) rest q"
  by (rule scan_loop [OF uri_rows(7)]) (simp_all add: range_defs)

lemma class_moves:
  "in_ranges alpha_ranges c \<Longrightarrow> move uri_machine 451 c = Some ([Set_mark], 508)"
  "in_ranges query_ranges c \<Longrightarrow> move uri_machine 456 c = Some ([Set_mark], 457)"
  "in_ranges query_ranges c \<Longrightarrow> move uri_machine 453 c = Some ([Set_mark], 454)"
  "in_ranges digit_ranges c \<Longrightarrow> move uri_machine 521 c = Some ([Set_mark], 542)"
  using move_ranges [OF uri_rows(1), of alpha_ranges "Tr 461" c] move_ranges [OF uri_rows(9), of query_ranges "Tr 466" c]
    move_ranges [OF uri_rows(11), of query_ranges "Tr 462" c] move_ranges [OF uri_rows(6), of digit_ranges "Tr 577" c]
  by (simp_all add: range_defs uri_trans)

lemma char_moves:
  "move uri_machine 508 (CHR '':'') = Some ([Save_scheme], 509)" "move uri_machine 509 (CHR ''/'') = Some ([], 510)"
  "move uri_machine 510 (CHR ''/'') = Some ([], 511)" "move uri_machine 542 (CHR ''/'') = Some ([Save_port, Set_mark], 513)"
  "move uri_machine 513 (CHR ''?'') = Some ([Save_path], 456)" "move uri_machine 513 (CHR ''#'') = Some ([Save_path], 453)"
  "move uri_machine 457 (CHR ''#'') = Some ([Save_query], 453)"
  by (simp_all add: move_def uri_rows uri_trans char_val_def)

lemma fragment_finish:
  assumes "fs \<noteq> []" "in_query fs" "drop p s = fs" "p \<le> length s"
  shows "uri_finish s (scan uri_machine (uri_act s) 453 p fs q) = (454, q\<lparr>us_uri := (us_uri q)\<lparr>u_fragment := fs\<rparr>, us_mark := None\<rparr>)"
proof -
  obtain c w where c: "fs = c # w" "in_ranges query_ranges c" "in_query w" using assms(1,2) by (cases fs) auto
  let ?q = "q\<lparr>us_mark := Some p\<rparr>"
  have "scan uri_machine (uri_act s) 453 p fs q = scan uri_machine (uri_act s) 454 (Suc p) (w @ []) ?q"
    using scan_step [OF class_moves(3) [OF c(2)], of "uri_act s" p q "[]" ?q w] by (simp add: c(1) del: scan.simps)
  also have "\<dots> = ([], 454, p + length fs, ?q)" unfolding loop_454 [OF c(3)] by (simp add: c(1))
  finally have scan: "scan uri_machine (uri_act s) 453 p fs q = ([], 454, p + length fs, ?q)" .
  have "p + length fs = length s" using assms(3,4) by (metis length_drop le_add_diff_inverse)
  then show ?thesis
    using save_marked_prefix [of ?q p s fs "[]"] assms(3) by (simp add: scan uri_finish_def uri_ends)
qed

lemma query_finish:
  assumes "qs \<noteq> []" "in_query qs" "in_query fs" "drop p s = qs @ (if fs = [] then [] else ''#'' @ fs)" "p \<le> length s"
  obtains n where "451 \<le> n"
    "uri_finish s (scan uri_machine (uri_act s) 456 p (qs @ (if fs = [] then [] else ''#'' @ fs)) q)
      = (n, q\<lparr>us_uri := (us_uri q)\<lparr>u_query := qs, u_fragment := (if fs = [] then u_fragment (us_uri q) else fs)\<rparr>, us_mark := None\<rparr>)"
proof -
  obtain c w where c: "qs = c # w" "in_ranges query_ranges c" "in_query w" using assms(1,2) by (cases qs) auto
  let ?q = "q\<lparr>us_mark := Some p\<rparr>" and ?f = "if fs = [] then [] else ''#'' @ fs"
  have "scan uri_machine (uri_act s) 456 p (qs @ ?f) q = scan uri_machine (uri_act s) 457 (Suc p) (w @ ?f) ?q"
    using scan_step [OF class_moves(2) [OF c(2)], of "uri_act s" p q "[]" ?q "w @ ?f"] by (simp add: c(1) del: scan.simps)
  also have "\<dots> = scan uri_machine (uri_act s) 457 (p + length qs) ?f ?q" unfolding loop_457 [OF c(3)] by (simp add: c(1))
  finally have scan: "scan uri_machine (uri_act s) 456 p (qs @ ?f) q = scan uri_machine (uri_act s) 457 (p + length qs) ?f ?q" .
  have len: "p + length qs + length ?f = length s" using arg_cong [OF assms(4), of length] assms(5) by simp
  have save: "save_marked s (p + length qs) (\<lambda>x. u_query_update (\<lambda>_. x)) ?q = q\<lparr>us_uri := (us_uri q)\<lparr>u_query := qs\<rparr>, us_mark := None\<rparr>"
    using save_marked_prefix [of ?q p s qs ?f] assms(4) by simp
  show thesis
  proof (cases "fs = []")
    case True
    then show ?thesis using that [of 457] save len by (simp add: scan [simplified True, simplified] uri_finish_def uri_ends True)
  next
    case False
    let ?q2 = "q\<lparr>us_uri := (us_uri q)\<lparr>u_query := qs\<rparr>, us_mark := None\<rparr>"
    have "scan uri_machine (uri_act s) 457 (p + length qs) ?f ?q = scan uri_machine (uri_act s) 453 (Suc (p + length qs)) fs ?q2"
      using scan_step [OF char_moves(7), of "uri_act s" "p + length qs" ?q "[]" ?q2 fs] save False by (simp del: scan.simps)
    moreover have "drop (Suc (p + length qs)) s = fs"
    proof -
      have "drop (Suc (p + length qs)) s = drop (Suc (length qs)) (drop p s)" by (simp add: add.commute)
      then show ?thesis using assms(4) False by simp
    qed
    moreover have "Suc (p + length qs) \<le> length s" using len False by simp
    ultimately show ?thesis using that [of 454] fragment_finish [OF False assms(3), of "Suc (p + length qs)" s ?q2] False scan by simp
  qed
qed

lemma path_finish:
  assumes "list_all (in_ranges path_ranges) w" "in_query qs" "in_query fs" "us_mark q = Some m"
    and "drop m s = pre @ w @ url_tail qs fs" "m \<le> length s"
  obtains n where "451 \<le> n"
    "uri_finish s (scan uri_machine (uri_act s) 513 (m + length pre) (w @ url_tail qs fs) q)
      = (n, q\<lparr>us_uri := (us_uri q)\<lparr>u_path := pre @ w, u_query := (if qs = [] then u_query (us_uri q) else qs),
           u_fragment := (if fs = [] then u_fragment (us_uri q) else fs)\<rparr>, us_mark := None\<rparr>)"
proof -
  let ?p = "m + length pre + length w" and ?q = "q\<lparr>us_uri := (us_uri q)\<lparr>u_path := pre @ w\<rparr>, us_mark := None\<rparr>"
  have scan: "scan uri_machine (uri_act s) 513 (m + length pre) (w @ url_tail qs fs) q = scan uri_machine (uri_act s) 513 ?p (url_tail qs fs) q"
    by (rule loop_513 [OF assms(1)])
  have len: "?p + length (url_tail qs fs) = length s" using arg_cong [OF assms(5), of length] assms(6) by simp
  have save: "save_marked s ?p (\<lambda>x. u_path_update (\<lambda>_. x)) q = ?q"
    by (rule save_marked_prefix [of q m s "pre @ w" "url_tail qs fs"]) (simp_all add: assms(4,5))
  have dr: "drop (Suc ?p) s = tl (url_tail qs fs)"
  proof -
    have "drop (Suc ?p) s = drop (Suc (length (pre @ w))) (drop m s)" by (simp add: add.commute add.left_commute)
    then show ?thesis using assms(5) by (simp add: drop_Suc tl_append)
  qed
  consider "qs = []" "fs = []" | "qs = []" "fs \<noteq> []" | "qs \<noteq> []" by blast
  then show thesis
  proof cases
    case 1
    then have "uri_finish s (scan uri_machine (uri_act s) 513 (m + length pre) (w @ url_tail qs fs) q) = uri_finish s ([], 513, length s, q)"
      using len unfolding scan by (simp add: url_tail_def)
    then show ?thesis using that [of 513] save len 1 by (simp add: uri_finish_def uri_ends url_tail_def)
  next
    case 2
    have "scan uri_machine (uri_act s) 513 ?p (url_tail qs fs) q = scan uri_machine (uri_act s) 453 (Suc ?p) fs ?q"
      using scan_step [OF char_moves(6), of "uri_act s" ?p q "[]" ?q fs] save 2 by (simp add: url_tail_def del: scan.simps)
    then show ?thesis using that [of 454] fragment_finish [OF 2(2) assms(3), of "Suc ?p" s ?q] dr len scan 2 by (simp add: url_tail_def del: scan.simps)
  next
    case 3
    let ?f = "if fs = [] then [] else ''#'' @ fs"
    have "scan uri_machine (uri_act s) 513 ?p (url_tail qs fs) q = scan uri_machine (uri_act s) 456 (Suc ?p) (qs @ ?f) ?q"
      using scan_step [OF char_moves(5), of "uri_act s" ?p q "[]" ?q "qs @ ?f"] save 3 by (simp add: url_tail_def del: scan.simps)
    moreover have "drop (Suc ?p) s = qs @ ?f" "Suc ?p \<le> length s" using dr len 3 by (simp_all add: url_tail_def)
    then obtain n where "451 \<le> n" "uri_finish s (scan uri_machine (uri_act s) 456 (Suc ?p) (qs @ ?f) ?q)
      = (n, ?q\<lparr>us_uri := (us_uri ?q)\<lparr>u_query := qs, u_fragment := (if fs = [] then u_fragment (us_uri ?q) else fs)\<rparr>, us_mark := None\<rparr>)"
      using query_finish [OF 3 assms(2,3), where q = ?q and p = "Suc ?p"] by blast
    ultimately show ?thesis using that [of n] scan 3 by simp
  qed
qed

lemma host_move:
  assumes "host_state n" "in_ranges host_ranges c"
  obtains m where "move uri_machine n c = Some ([], m)" "host_state m"
proof -
  obtain ts j where r: "find_state n uri_machine = Some (ts, j)" "host_check n ts j" using host_row [OF assms(1)] .
  then have "on_ranges host_ranges host_jump ts j" using assms(1) by (simp add: host_check_def)
  then obtain l h where "host_jump l h (select (char_val c) ts j)" using assms(2) by (rule on_ranges_select)
  then show thesis using that r(1) by (cases "select (char_val c) ts j") (auto simp: move_def)
qed

lemma host_stops:
  assumes "host_state n"
  shows "move uri_machine n (CHR ''/'') = Some ([Save_host, Set_mark], 513)" "move uri_machine n (CHR '':'') = Some ([Save_host], 521)"
proof -
  obtain ts j where "find_state n uri_machine = Some (ts, j)" "host_check n ts j" using host_row [OF assms] .
  then show "move uri_machine n (CHR ''/'') = Some ([Save_host, Set_mark], 513)" "move uri_machine n (CHR '':'') = Some ([Save_host], 521)"
    using assms by (simp_all add: move_def host_check_def char_val_def uri_trans)
qed

lemma not_host_0 [simp]: "\<not> host_state 0"
  by (simp add: host_state_def)

lemma host_loop:
  assumes "host_state n" "list_all (in_ranges host_ranges) w"
  obtains m where "host_state m" "\<And>p rest q. scan uri_machine act n p (w @ rest) q = scan uri_machine act m (p + length w) rest q"
  using assms
proof (induction w arbitrary: n thesis)
  case (Cons c w)
  obtain k where k: "move uri_machine n c = Some ([], k)" "host_state k" using host_move [OF Cons.prems(2), of c] Cons.prems(3) by auto
  then obtain m where m: "host_state m" "\<And>p rest q. scan uri_machine act k p (w @ rest) q = scan uri_machine act m (p + length w) rest q"
    using Cons.IH [of k] Cons.prems(3) by auto
  have "k \<noteq> 0" using k(2) by (metis not_host_0)
  then have "scan uri_machine act n p ((c # w) @ rest) q = scan uri_machine act m (p + length (c # w)) rest q" for p rest q
    using m(2) [of "Suc p" rest q] by (simp add: scan_silent [OF k(1)] del: scan.simps)
  then show ?case using Cons.prems(1) m(1) by blast
qed simp

lemma host_scan:
  assumes "hs \<noteq> []" "list_all (in_ranges host_ranges) hs"
  obtains n where "host_state n"
    "\<And>p rest q. scan uri_machine (uri_act s) 511 p (hs @ rest) q = scan uri_machine (uri_act s) n (p + length hs) rest (q\<lparr>us_mark := Some p\<rparr>)"
proof -
  obtain c w where c: "hs = c # w" "in_ranges host_ranges c" "list_all (in_ranges host_ranges) w" using assms by (cases hs) auto
  have "on_ranges host_ranges (\<lambda>l h t. t \<in> {Tr 547, Tr 551, Tr 552, Tr 553, Tr 554}) (fst (the (find_state 511 uri_machine))) (snd (the (find_state 511 uri_machine)))"
    by (simp add: uri_rows range_defs)
  then have "select (char_val c) (fst (the (find_state 511 uri_machine))) (snd (the (find_state 511 uri_machine))) \<in> {Tr 547, Tr 551, Tr 552, Tr 553, Tr 554}"
    using on_ranges_select [OF _ c(2)] by blast
  then obtain k where k: "move uri_machine 511 c = Some ([Set_mark], k)" "host_state k"
    by (auto simp: move_def uri_rows uri_trans host_state_def)
  obtain n where n: "host_state n" "\<And>p rest q. scan uri_machine (uri_act s) k p (w @ rest) q = scan uri_machine (uri_act s) n (p + length w) rest q"
    using host_loop [OF k(2) c(3)] by blast
  have "k \<noteq> 0" using k(2) by (metis not_host_0)
  then have "scan uri_machine (uri_act s) 511 p (hs @ rest) q = scan uri_machine (uri_act s) n (p + length hs) rest (q\<lparr>us_mark := Some p\<rparr>)" for p rest q
    using scan_step [OF k(1), of "uri_act s" p q "[]" "q\<lparr>us_mark := Some p\<rparr>" "w @ rest"] n(2) [of "Suc p"] by (simp add: c(1) del: scan.simps)
  then show thesis using that n(1) by blast
qed

lemma scheme_scan:
  assumes "sch = c # w" "in_ranges alpha_ranges c" "list_all (in_ranges scheme_ranges) w" "s = sch @ ''://'' @ r" "us_mark q = None"
  shows "scan uri_machine (uri_act s) 451 0 s q
    = scan uri_machine (uri_act s) 511 (length sch + 3) r (q\<lparr>us_uri := (us_uri q)\<lparr>u_scheme := sch\<rparr>\<rparr>)"
proof -
  let ?q = "q\<lparr>us_mark := Some 0\<rparr>" and ?q2 = "q\<lparr>us_uri := (us_uri q)\<lparr>u_scheme := sch\<rparr>, us_mark := None\<rparr>"
  have "scan uri_machine (uri_act s) 451 0 (c # w @ ''://'' @ r) q = scan uri_machine (uri_act s) 508 1 (w @ ''://'' @ r) ?q"
    using scan_step [OF class_moves(1) [OF assms(2)], of "uri_act s" 0 q "[]" ?q "w @ ''://'' @ r"] by (simp del: scan.simps)
  also have "\<dots> = scan uri_machine (uri_act s) 508 (length sch) (CHR '':'' # ''//'' @ r) ?q" unfolding loop_508 [OF assms(3)] by (simp add: assms(1))
  also have "\<dots> = scan uri_machine (uri_act s) 509 (Suc (length sch)) (''//'' @ r) ?q2"
    using scan_step [OF char_moves(1), of "uri_act s" "length sch" ?q "[]" ?q2 "''//'' @ r"] save_marked_prefix [of ?q 0 s sch "''://'' @ r"] assms(4)
    by (simp del: scan.simps)
  also have "\<dots> = scan uri_machine (uri_act s) 511 (length sch + 3) r ?q2"
    by (simp add: scan_silent [OF char_moves(2)] scan_silent [OF char_moves(3)] numeral_3_eq_3 del: scan.simps)
  also have "?q2 = q\<lparr>us_uri := (us_uri q)\<lparr>u_scheme := sch\<rparr>\<rparr>" using assms(5) by (cases q) simp
  finally show ?thesis by (simp add: assms(1,4))
qed

lemma show_nat_ranges: "list_all (in_ranges digit_ranges) (show_nat n)"
  using show_nat_digits(1) [of n] digit_move unfolding list_all_iff by (simp add: in_ranges_def digit_ranges_def)

lemma authority_scan:
  assumes "hs \<noteq> []" "list_all (in_ranges host_ranges) hs" "pt = 0 \<or> 0 < pt \<and> pt < 2 ^ 31"
    and "drop p s = hs @ (if pt = 0 then [] else '':'' @ show_int pt) @ ''/'' @ r"
  obtains m where "m = p + length hs + length (if pt = 0 then [] else '':'' @ show_int pt)"
   "scan uri_machine (uri_act s) 511 p (hs @ (if pt = 0 then [] else '':'' @ show_int pt) @ ''/'' @ r) q
    = scan uri_machine (uri_act s) 513 (Suc m) r (q\<lparr>us_uri := (us_uri q)\<lparr>u_host := hs, u_port := (if pt = 0 then u_port (us_uri q) else pt)\<rparr>,
        us_mark := Some m\<rparr>)"
proof -
  let ?pt = "if pt = 0 then [] else '':'' @ show_int pt"
  obtain n where n: "host_state n" "\<And>p rest q. scan uri_machine (uri_act s) 511 p (hs @ rest) q
      = scan uri_machine (uri_act s) n (p + length hs) rest (q\<lparr>us_mark := Some p\<rparr>)"
    using host_scan [OF assms(1,2), where s = s] by blast
  let ?h = "p + length hs" and ?q = "q\<lparr>us_mark := Some p\<rparr>"
  let ?q1 = "q\<lparr>us_uri := (us_uri q)\<lparr>u_host := hs\<rparr>, us_mark := Some p\<rparr>"
  have save: "save_marked s ?h (\<lambda>x. u_host_update (\<lambda>_. x)) ?q = q\<lparr>us_uri := (us_uri q)\<lparr>u_host := hs\<rparr>, us_mark := None\<rparr>"
    using save_marked_prefix [of ?q p s hs "?pt @ ''/'' @ r"] assms(4) by simp
  show thesis
  proof (cases "pt = 0")
    case True
    have "scan uri_machine (uri_act s) n ?h (CHR ''/'' # r) ?q = scan uri_machine (uri_act s) 513 (Suc ?h) r (?q1\<lparr>us_mark := Some ?h\<rparr>)"
      using scan_step [OF host_stops(1) [OF n(1)], of "uri_act s" ?h ?q "[]" "?q1\<lparr>us_mark := Some ?h\<rparr>" r] save by (simp del: scan.simps)
    then show ?thesis using that [of ?h] n(2) True by simp
  next
    case False
    then have pt: "0 < pt" "pt < 2 ^ 31" "show_int pt = show_nat (nat pt)" using assms(3) by (auto simp: show_int_def)
    obtain d ds where d: "show_nat (nat pt) = d # ds" "in_ranges digit_ranges d" "list_all (in_ranges digit_ranges) ds"
      using show_nat_ranges [of "nat pt"] show_nat_digits(2) [of "nat pt"] by (cases "show_nat (nat pt)") auto
    let ?d = "Suc ?h" and ?e = "Suc ?h + length (show_nat (nat pt))"
    let ?q2 = "?q1\<lparr>us_mark := Some ?d\<rparr>"
    let ?q3 = "?q1\<lparr>us_uri := (us_uri ?q1)\<lparr>u_port := pt\<rparr>, us_mark := Some ?e\<rparr>"
    have dr: "drop ?d s = show_nat (nat pt) @ CHR ''/'' # r"
    proof -
      have "drop ?d s = drop (Suc (length hs)) (drop p s)" by (simp add: add.commute)
      then show ?thesis using assms(4) False pt(3) by simp
    qed
    have port: "int_of_long (strtol 10 (drop ?d s)) = pt"
      unfolding dr using strtol_show [of "nat pt" "CHR ''/''"] pt by (simp add: is_digit_def int_of_long_small special_chars)
    have "scan uri_machine (uri_act s) n ?h (CHR '':'' # show_nat (nat pt) @ ''/'' @ r) ?q
        = scan uri_machine (uri_act s) 521 ?d (show_nat (nat pt) @ ''/'' @ r) ?q1"
      using scan_step [OF host_stops(2) [OF n(1)], of "uri_act s" ?h ?q "[]" ?q1 "show_nat (nat pt) @ ''/'' @ r"] save by (simp del: scan.simps)
    also have "\<dots> = scan uri_machine (uri_act s) 542 (Suc ?d) (ds @ ''/'' @ r) ?q2"
      using scan_step [OF class_moves(4) [OF d(2)], of "uri_act s" ?d ?q1 "[]" ?q2 "ds @ ''/'' @ r"] by (simp add: d(1) del: scan.simps)
    also have "\<dots> = scan uri_machine (uri_act s) 542 ?e (CHR ''/'' # r) ?q2" unfolding loop_542 [OF d(3)] by (simp add: d(1))
    also have "\<dots> = scan uri_machine (uri_act s) 513 (Suc ?e) r ?q3"
      using scan_step [OF char_moves(4), of "uri_act s" ?e ?q2 "[]" ?q3 r] port show_nat_digits(2) [of "nat pt"] by (simp del: scan.simps)
    finally show ?thesis using that [of ?e] n(2) False pt(3) by simp
  qed
qed

section \<open>Properties\<close>

text \<open>
  A URL with a host: a scheme, no user information, a host name of letters, digits and
  \<^verbatim>\<open>- . _ ~\<close>, no port or one that is not the scheme's own, an absolute path without
  percent escapes, and a query and a fragment that may be empty.
\<close>

definition url_ok :: "uri \<Rightarrow> bool" where
  "url_ok u \<longleftrightarrow>
     u_scheme u \<noteq> [] \<and> in_ranges alpha_ranges (hd (u_scheme u)) \<and> list_all (in_ranges scheme_ranges) (tl (u_scheme u))
     \<and> u_userinfo u = [] \<and> u_host u \<noteq> [] \<and> list_all (in_ranges host_ranges) (u_host u)
     \<and> 0 \<le> u_port u \<and> u_port u < 2 ^ 31
     \<and> (u_path u = [] \<or> hd (u_path u) = CHR ''/'' \<and> list_all (in_ranges path_ranges) (tl (u_path u)))
     \<and> in_query (u_query u) \<and> in_query (u_fragment u)"

text \<open>The same URL as it is printed: a default port is left out, an empty path is a slash.\<close>

definition normal_url :: "uri \<Rightarrow> uri" where
  "normal_url u = u\<lparr>u_port := (if isDefaultPort u then 0 else u_port u), u_path := getPath u\<rparr>"

lemma normal_url_ok:
  assumes "url_ok u"
  shows "url_ok (normal_url u)" "u_port (normal_url u) = 0 \<or> \<not> isDefaultPort (normal_url u)" "u_path (normal_url u) \<noteq> []"
    "uri_toString (normal_url u) = uri_toString u" "uri_GetPort (normal_url u) = uri_GetPort u"
  using assms
  by (auto simp: url_ok_def normal_url_def getPath_def isDefaultPort_def uri_toString_def uri_dump_def uri_GetPort_def)

lemma normal_url_parsed:
  assumes "url_ok u" "u_port u = 0 \<or> \<not> isDefaultPort u" "u_path u \<noteq> []"
  shows "URI_Create (uri_toString u) = Inr (Some u)"
proof -
  let ?s = "uri_toString u" and ?pt = "if u_port u = 0 then [] else '':'' @ show_int (u_port u)"
  have ok: "u_host u \<noteq> []" "list_all (in_ranges host_ranges) (u_host u)" "u_port u = 0 \<or> 0 < u_port u \<and> u_port u < 2 ^ 31"
    "in_query (u_query u)" "in_query (u_fragment u)" using assms(1) by (auto simp: url_ok_def)
  obtain c w where c: "u_scheme u = c # w" "in_ranges alpha_ranges c" "list_all (in_ranges scheme_ranges) w"
    using assms(1) by (cases "u_scheme u") (auto simp: url_ok_def)
  obtain v where v: "u_path u = CHR ''/'' # v" "list_all (in_ranges path_ranges) v"
    using assms by (cases "u_path u") (auto simp: url_ok_def)
  have "(if isDefaultPort u then [] else '':'' @ show_int (u_port u)) = ?pt" using assms by (auto simp: url_ok_def isDefaultPort_def)
  then have s: "?s = u_scheme u @ ''://'' @ u_host u @ ?pt @ ''/'' @ v @ url_tail (u_query u) (u_fragment u)"
    using assms by (simp add: uri_toString_def uri_dump_def url_ok_def getPath_def v(1) url_tail_def)
  let ?r = "v @ url_tail (u_query u) (u_fragment u)" and ?q0 = "\<lparr>us_uri = URI_ctor, us_mark = None, us_fail = False\<rparr>"
  let ?q1 = "?q0\<lparr>us_uri := URI_ctor\<lparr>u_scheme := u_scheme u\<rparr>\<rparr>" and ?p = "length (u_scheme u) + 3"
  have 1: "scan uri_machine (uri_act ?s) 451 0 ?s ?q0 = scan uri_machine (uri_act ?s) 511 ?p (u_host u @ ?pt @ ''/'' @ ?r) ?q1"
    using scheme_scan [OF c s, of ?q0] by simp
  have dr: "drop ?p ?s = u_host u @ ?pt @ ''/'' @ ?r" by (simp add: s)
  obtain m where m: "m = ?p + length (u_host u) + length ?pt"
    "scan uri_machine (uri_act ?s) 511 ?p (u_host u @ ?pt @ ''/'' @ ?r) ?q1
     = scan uri_machine (uri_act ?s) 513 (Suc m) ?r (?q1\<lparr>us_uri := (us_uri ?q1)\<lparr>u_host := u_host u, u_port := (if u_port u = 0 then u_port (us_uri ?q1) else u_port u)\<rparr>,
        us_mark := Some m\<rparr>)"
    using authority_scan [OF ok(1-3) dr, where q = ?q1] by blast
  define q2 where "q2 = ?q1\<lparr>us_uri := (us_uri ?q1)\<lparr>u_host := u_host u, u_port := (if u_port u = 0 then u_port (us_uri ?q1) else u_port u)\<rparr>, us_mark := Some m\<rparr>"
  have dr2: "drop m ?s = ''/'' @ v @ url_tail (u_query u) (u_fragment u)" 
  proof -
    have "drop m ?s = drop (length (u_host u) + length ?pt) (drop ?p ?s)" unfolding m(1) by (simp add: add.commute add.left_commute)
    then show ?thesis unfolding dr by simp
  qed
  have "m \<le> length ?s" unfolding m(1) s by simp
  then obtain n where n: "451 \<le> n" "uri_finish ?s (scan uri_machine (uri_act ?s) 513 (m + length ''/'') ?r q2)
      = (n, q2\<lparr>us_uri := (us_uri q2)\<lparr>u_path := ''/'' @ v, u_query := (if u_query u = [] then u_query (us_uri q2) else u_query u),
           u_fragment := (if u_fragment u = [] then u_fragment (us_uri q2) else u_fragment u)\<rparr>, us_mark := None\<rparr>)"
    using path_finish [OF v(2) ok(4,5) _ dr2, where q = q2] by (auto simp: q2_def)
  have run: "uri_run ?s = uri_finish ?s (scan uri_machine (uri_act ?s) 513 (m + length ''/'') ?r q2)"
    unfolding uri_run_def 1 m(2) by (simp add: q2_def del: scan.simps)
  have "(us_uri q2)\<lparr>u_path := ''/'' @ v, u_query := (if u_query u = [] then u_query (us_uri q2) else u_query u),
           u_fragment := (if u_fragment u = [] then u_fragment (us_uri q2) else u_fragment u)\<rparr> = u"
    using assms v(1) by (cases u) (auto simp: q2_def URI_ctor_def url_ok_def)
  then show ?thesis using n(1) unfolding URI_Create_def run n(2) by (simp add: q2_def)
qed

lemma printed_url_parsed: "url_ok u \<Longrightarrow> URI_Create (uri_toString u) = Inr (Some (normal_url u))"
  using normal_url_parsed [OF normal_url_ok(1-3)] normal_url_ok(4) by metis

lemma createAddress_normal: "createAddress big getaddrinfo (normal_url u) = createAddress big getaddrinfo u"
proof -
  have "u_host (normal_url u) = u_host u" "uri_GetPort (normal_url u) = uri_GetPort u"
    by (auto simp: normal_url_def uri_GetPort_def isDefaultPort_def)
  then show ?thesis unfolding createAddress_def by presburger
qed

text \<open>
  C13: URLs read back.  Take a URL whose scheme is a letter followed by letters, digits,
  \<^verbatim>\<open>+\<close>, \<^verbatim>\<open>-\<close> and \<^verbatim>\<open>.\<close>, that has no user information, whose host is a non-empty text of letters,
  digits, \<^verbatim>\<open>-\<close>, \<^verbatim>\<open>.\<close>, \<^verbatim>\<open>_\<close> and \<^verbatim>\<open>~\<close>, whose port is from 0 up to 2^31 - 1, whose path is empty
  or begins with a slash, and whose path, query and fragment are of the characters the scanner
  takes there without a percent sign.  Printing it and parsing the text gives scheme, host,
  query and fragment back exactly; an explicit port that is the scheme's default comes back as
  0 and an empty path as \<^verbatim>\<open>/\<close>, every other port and path exactly; so the URL that is read prints
  the same and stands for the same port.
\<close>

theorem url_round_trip:
  assumes "url_ok u"
  shows "\<exists>v. URI_Create (uri_toString u) = Inr (Some v)
    \<and> v = u\<lparr>u_port := (if isDefaultPort u then 0 else u_port u), u_path := (if u_path u = [] then ''/'' else u_path u)\<rparr>
    \<and> uri_toString v = uri_toString u \<and> uri_GetPort v = uri_GetPort u"
  using printed_url_parsed [OF assms] normal_url_ok(4,5) [OF assms] unfolding normal_url_def getPath_def by blast

theorem url_round_trip_witness:
  "URI_Create ''http://www.sylar.top:8080/index.html?q=1#top''
   = Inr (Some \<lparr>u_scheme = ''http'', u_userinfo = [], u_host = ''www.sylar.top'', u_path = ''/index.html'', u_query = ''q=1'',
       u_fragment = ''top'', u_port = 8080\<rparr>)"
proof -
  let ?u = "\<lparr>u_scheme = ''http'', u_userinfo = [], u_host = ''www.sylar.top'', u_path = ''/index.html'', u_query = ''q=1'',
       u_fragment = ''top'', u_port = 8080\<rparr>"
  have "url_ok ?u" by (simp add: url_ok_def in_ranges_def range_defs isDefaultPort_def char_val_def)
  moreover have "uri_toString ?u = ''http://www.sylar.top:8080/index.html?q=1#top''"
    by (simp add: uri_toString_def uri_dump_def isDefaultPort_def getPath_def show_int_def show_nat_def show_base.simps
        digit_char_def char_of_def bit_Suc_0_iff)
  ultimately show ?thesis using url_round_trip [of ?u] by (simp add: isDefaultPort_def)
qed

text \<open>
  An empty port ends in an exception.  A URL whose host is followed by a colon and nothing
  else is not rejected: \<^verbatim>\<open>URI::Create\<close> makes a string from the null mark that the empty
  port left behind, which throws.
\<close>

theorem empty_port_throws:
  assumes "sch \<noteq> []" "in_ranges alpha_ranges (hd sch)" "list_all (in_ranges scheme_ranges) (tl sch)"
    and "hs \<noteq> []" "list_all (in_ranges host_ranges) hs"
  shows "URI_Create (sch @ ''://'' @ hs @ '':'') = Inl Logic_error"
proof -
  let ?s = "sch @ ''://'' @ hs @ '':''" and ?q0 = "\<lparr>us_uri = URI_ctor, us_mark = None, us_fail = False\<rparr>"
  let ?q1 = "?q0\<lparr>us_uri := URI_ctor\<lparr>u_scheme := sch\<rparr>\<rparr>" and ?p = "length sch + 3"
  obtain c w where c: "sch = c # w" "in_ranges alpha_ranges c" "list_all (in_ranges scheme_ranges) w" using assms(1-3) by (cases sch) auto
  have 1: "scan uri_machine (uri_act ?s) 451 0 ?s ?q0 = scan uri_machine (uri_act ?s) 511 ?p (hs @ '':'') ?q1"
    using scheme_scan [OF c refl, of ?q0] by simp
  obtain n where n: "host_state n" "\<And>p rest q. scan uri_machine (uri_act ?s) 511 p (hs @ rest) q
      = scan uri_machine (uri_act ?s) n (p + length hs) rest (q\<lparr>us_mark := Some p\<rparr>)"
    using host_scan [OF assms(4,5), where s = ?s] by blast
  let ?q2 = "(save_marked ?s (?p + length hs) (\<lambda>x. u_host_update (\<lambda>_. x)) (?q1\<lparr>us_mark := Some ?p\<rparr>))\<lparr>us_mark := Some ?p\<rparr>"
  have 2: "scan uri_machine (uri_act ?s) n (?p + length hs) '':'' (?q1\<lparr>us_mark := Some ?p\<rparr>) = ([], 521, Suc (?p + length hs), ?q2)"
    using scan_step [OF host_stops(2) [OF n(1)], of "uri_act ?s" "?p + length hs" "?q1\<lparr>us_mark := Some ?p\<rparr>" "[]" ?q2 "[]"] by simp
  have "us_fail (snd (uri_finish ?s ([], 521, length ?s, q)))" for q
    by (simp add: uri_finish_def uri_ends save_marked_def)
  moreover have "Suc (?p + length hs) = length ?s" by simp
  ultimately have "us_fail (snd (uri_run ?s))" unfolding uri_run_def 1 n(2) 2 by metis
  then show ?thesis by (cases "uri_run ?s") (simp add: URI_Create_def)
qed

theorem empty_port_throws_witness: "URI_Create ''http://localhost:'' = Inl Logic_error"
  using empty_port_throws [of "''http''" "''localhost''"] by (simp add: in_ranges_def range_defs char_val_def)

end
