(* ===== verification/HttpConnection.thy ===== *)
theory HttpConnection
  imports HttpServer ResponseLines Uri
begin

text \<open>
  The client side of HTTP (\<^verbatim>\<open>qslary/http/HttpConnection.h\<close>, \<^verbatim>\<open>HttpConnection.cc\<close>, with the
  clock of \<^verbatim>\<open>qslary/base/util.cc\<close>): receiving a response with its header, chunked or
  fixed body, sending a request, the one-shot requests, and the connection pool.  The
  scanner is the one of \<open>ResponseScanner\<close>.  What the outside answers is an argument, a
  record \<open>client_env\<close>: name resolution, the system calls of a socket, what the peer
  sends and accepts, \<^verbatim>\<open>errno\<close>, and the clock when a connection is taken and given back.
  The receive loops have fuel, \<open>None\<close> being a run that did not end within it.  Debugging
  output and the printing of a request on it are left out; allocation of a body succeeds.
\<close>

section \<open>Definitions\<close>

subsection \<open>Results\<close>

(* http/HttpConnection.h 21-32: HttpResult::Error *)
datatype http_error =
    OK
  | INVALID_URL
  | INVALID_HOST
  | CONNECTION_FALID
  | SEND_CLOSE_BY_PEER
  | SEND_SOCKET_ERROR
  | TIMEOUT
  | POLL_GET_CONNECTION

fun error_code :: "http_error \<Rightarrow> int" where
  "error_code OK = 0"
| "error_code INVALID_URL = 1"
| "error_code INVALID_HOST = 2"
| "error_code CONNECTION_FALID = 3"
| "error_code SEND_CLOSE_BY_PEER = 4"
| "error_code SEND_SOCKET_ERROR = 5"
| "error_code TIMEOUT = 6"
| "error_code POLL_GET_CONNECTION = 7"

(* http/HttpConnection.h 33-37: HttpResult *)
record http_result =
  hr_result :: int
  hr_response :: "http_response option"
  hr_error :: string

definition HttpResult_ctor :: "http_error \<Rightarrow> http_response option \<Rightarrow> string \<Rightarrow> http_result" where
  "HttpResult_ctor e rsp err = \<lparr>hr_result = error_code e, hr_response = rsp, hr_error = err\<rparr>"

(* http/HttpConnection.cc 25: HttpResult::toString *)
definition HttpResult_toString :: "http_result \<Rightarrow> string" where
  "HttpResult_toString r =
     ''[HttpResult result='' @ show_int (hr_result r) @ '' error='' @ hr_error r
     @ '' response='' @ (case hr_response r of None \<Rightarrow> ''nullptr'' | Some rsp \<Rightarrow> rs_toString rsp) @ '']''"

subsection \<open>Receiving a response\<close>

type_synonym client_parser = "httpclient_parser response_parser"

definition blank_parser :: httpclient_parser where
  "blank_parser = httpclient_parser_init
     \<lparr>hp_cs = 0, hp_body_start = 0, hp_content_len = 0, hp_status = 0, hp_chunked = 0, hp_chunks_done = 0, hp_close = 0,
      hp_nread = 0, hp_mark = 0, hp_field_start = 0, hp_field_len = 0\<rparr>"

text \<open>
  The scanner as the parser object uses it.  A run that fails one of the scanner's
  assertions ends the program; one that returns \<^verbatim>\<open>-1\<close> moves the buffer from before its
  start.  Otherwise the object's \<^verbatim>\<open>execute\<close> is the one of \<open>HttpParser\<close>.
\<close>

definition client_scanner :: "(httpclient_parser, response_event) scanner" where
  "client_scanner =
     \<lparr>sc_init = blank_parser,
      sc_execute = \<lambda>q d. case scan_response q d of Inl _ \<Rightarrow> ([], q, 0) | Inr (es, q', n) \<Rightarrow> (es, q', nat n),
      sc_finish = httpclient_parser_finish,
      sc_has_error = httpclient_parser_has_error\<rparr>"

definition client_execute :: "string \<Rightarrow> bool \<Rightarrow> client_parser \<Rightarrow> (nat \<times> string \<times> client_parser) result" where
  "client_execute data chunck p =
     rbind (scan_response (if chunck then blank_parser else sp_parser p) data) (\<lambda>(_, _, n).
       if n < 0 then Inl Undefined_behaviour else Inr (sp_execute client_scanner data chunck p))"

(* http/HttpConnection.cc 48-75: HttpConnection::recvResponse, the header *)
fun recv_head :: "nat \<Rightarrow> client_parser \<Rightarrow> string \<Rightarrow> session \<Rightarrow> ((client_parser \<times> string) option \<times> session) result option" where
  "recv_head 0 parser data s = None"
| "recv_head (Suc fuel) parser data s =
     (case st_read (buff_size - length data) s of (n, bs, s1) \<Rightarrow>
        if n \<le> 0 then Some (Inr (None, st_close s1))
        else case client_execute (data @ bs) False parser of
          Inl e \<Rightarrow> Some (Inl e)
        | Inr (nparse, rest, parser1) \<Rightarrow>
            if sp_hasError client_scanner parser1 then Some (Inr (None, st_close s1))
            else if length rest = buff_size then Some (Inr (None, st_close s1))
            else if sp_isFinished client_scanner parser1 \<noteq> 0 then Some (Inr (Some (parser1, rest), s1))
            else recv_head fuel parser1 rest s1)"

(* http/HttpConnection.cc 83-111: HttpConnection::recvResponse, a chunk's size line *)
fun chunk_head :: "nat \<Rightarrow> bool \<Rightarrow> client_parser \<Rightarrow> string \<Rightarrow> session \<Rightarrow> ((client_parser \<times> string) option \<times> session) result option" where
  "chunk_head 0 begin parser data s = None"
| "chunk_head (Suc fuel) begin parser data s =
     (let (rt, bs, s1) = (if \<not> begin \<or> data = [] then st_read (buff_size - length data) s else (1, [], s)) in
      if rt \<le> 0 then Some (Inr (None, st_close s1))
      else case client_execute (data @ bs) True parser of
        Inl e \<Rightarrow> Some (Inl e)
      | Inr (nparse, rest, parser1) \<Rightarrow>
          if sp_hasError client_scanner parser1 then Some (Inr (None, st_close s1))
          else if length rest = buff_size then Some (Inr (None, st_close s1))
          else if sp_isFinished client_scanner parser1 \<noteq> 0 then Some (Inr (Some (parser1, rest), s1))
          else chunk_head fuel False parser1 rest s1)"

(* http/HttpConnection.cc 126-138: HttpConnection::recvResponse, the rest of a chunk *)
function read_left :: "int \<Rightarrow> string \<Rightarrow> session \<Rightarrow> string option \<times> session" where
  "read_left left body s =
     (if left \<le> 0 then (Some body, s)
      else case st_read (nat (if left > int buff_size then int buff_size else left)) s of (rt, bs, s1) \<Rightarrow>
        if rt \<le> 0 then (None, st_close s1) else read_left (left - rt) (body @ bs) s1)"
  by pat_completeness auto
termination
  by (relation "measure (\<lambda>(left, body, s). nat left)") auto

declare read_left.simps [simp del]

text \<open>\<^verbatim>\<open>body.resize (body.size () - 2)\<close>: on a shorter body the size wraps around and is too long.\<close>

definition drop_crlf :: "string \<Rightarrow> string result" where
  "drop_crlf body = (if length body < 2 then Inl Length_error else Inr (take (length body - 2) body))"

(* http/HttpConnection.cc 116-141: HttpConnection::recvResponse, a chunk's data *)
definition chunk_data :: "int \<Rightarrow> string \<Rightarrow> string \<Rightarrow> session \<Rightarrow> ((string \<times> string) option \<times> session) result" where
  "chunk_data content_len body data s =
     (if content_len + 2 > 2 ^ 31 - 1 then Inl Signed_overflow
      else if content_len + 2 \<le> int (length data)
      then if content_len < 0 then Inl Length_error
           else Inr (Some (body @ take (nat content_len) data, drop (nat content_len + 2) data), s)
      else case read_left (content_len - int (length data) + 2) (body @ data) s of
        (None, s1) \<Rightarrow> Inr (None, s1)
      | (Some body1, s1) \<Rightarrow> rbind (drop_crlf body1) (\<lambda>body2. Inr (Some (body2, []), s1)))"

(* http/HttpConnection.cc 78-144: HttpConnection::recvResponse, the chunks *)
fun recv_chunks :: "nat \<Rightarrow> nat \<Rightarrow> client_parser \<Rightarrow> string \<Rightarrow> string \<Rightarrow> session
    \<Rightarrow> ((client_parser \<times> string) option \<times> session) result option" where
  "recv_chunks 0 fuel parser body data s = None"
| "recv_chunks (Suc rounds) fuel parser body data s =
     (case chunk_head fuel True parser data s of
        None \<Rightarrow> None
      | Some (Inl e) \<Rightarrow> Some (Inl e)
      | Some (Inr (None, s1)) \<Rightarrow> Some (Inr (None, s1))
      | Some (Inr (Some (parser1, rest), s1)) \<Rightarrow>
          (case chunk_data (hp_content_len (sp_parser parser1)) body rest s1 of
             Inl e \<Rightarrow> Some (Inl e)
           | Inr (None, s2) \<Rightarrow> Some (Inr (None, s2))
           | Inr (Some (body1, data1), s2) \<Rightarrow>
               if hp_chunks_done (sp_parser parser1) \<noteq> 0 then Some (Inr (Some (parser1, body1), s2))
               else recv_chunks rounds fuel parser1 body1 data1 s2))"

(* http/HttpConnection.cc 147-172: HttpConnection::recvResponse, a body of known length *)
definition recv_fixed :: "int \<Rightarrow> string \<Rightarrow> session \<Rightarrow> string option \<times> session" where
  "recv_fixed length' rest s = (if length' > 0 then recv_body length' rest s else (Some [], s))"

(* http/HttpConnection.cc 37-173: HttpConnection::recvResponse *)
definition recvResponse :: "(string \<Rightarrow> u64 option) \<Rightarrow> nat \<Rightarrow> nat \<Rightarrow> session \<Rightarrow> (http_response option \<times> session) result option" where
  "recvResponse lexical_cast rounds fuel s =
     (case recv_head fuel (HttpResponseParser_ctor client_scanner) [] s of
        None \<Rightarrow> None
      | Some (Inl e) \<Rightarrow> Some (Inl e)
      | Some (Inr (None, s1)) \<Rightarrow> Some (Inr (None, s1))
      | Some (Inr (Some (parser, rest), s1)) \<Rightarrow>
          if hp_chunked (sp_parser parser) \<noteq> 0
          then map_option (\<lambda>r. rbind r (\<lambda>(r1, s2).
                 Inr (map_option (\<lambda>(parser1, body). (sp_data parser1)\<lparr>rs_body := body\<rparr>) r1, s2)))
                 (recv_chunks rounds fuel parser [] rest s1)
          else (case recv_fixed (int64_of_u64 (sp_getContentLength lexical_cast parser)) rest s1 of
                  (None, s2) \<Rightarrow> Some (Inr (None, s2))
                | (Some body, s2) \<Rightarrow> Some (Inr (Some ((sp_data parser)\<lparr>rs_body := body\<rparr>), s2))))"

(* http/HttpConnection.cc 311: HttpConnection::sendRequest *)
definition sendRequest :: "http_request \<Rightarrow> session \<Rightarrow> int \<times> session" where
  "sendRequest request s =
     (let data = rq_dump request; (_, s1) = writeFixSize st_write data s in (int_of_size (length data), s1))"

(* http/HttpConnection.h 42-45: HttpConnection *)
record http_connection =
  hc_stream :: session
  hc_create_time :: u64

(* http/HttpConnection.cc 33: HttpConnection::HttpConnection *)
definition HttpConnection_ctor :: "socket \<Rightarrow> bool \<Rightarrow> char connection \<Rightarrow> http_connection" where
  "HttpConnection_ctor sock ower c = \<lparr>hc_stream = SockStream_ctor (Some sock) ower c, hc_create_time = 0\<rparr>"

subsection \<open>One-shot requests\<close>

text \<open>What the outside answers while a request is made.\<close>

record client_env =
  ce_big :: bool
  ce_getaddrinfo :: "string \<Rightarrow> string option \<Rightarrow> nat \<Rightarrow> nat \<Rightarrow> sockaddr list option"
  ce_os :: sock_os
  ce_conn :: "char connection"
  ce_lexical_cast :: "string \<Rightarrow> u64 option"
  ce_errno :: int
  ce_strerror :: string

(* base/util.cc 19: GetCurrentMs *)
definition GetCurrentMs :: "timeval \<Rightarrow> u64" where
  "GetCurrentMs tv = word_of_int (tval_sec tv * 1000 + tval_usec tv)"

(* base/util.cc 27: GetCurrentUs *)
definition GetCurrentUs :: "timeval \<Rightarrow> u64" where
  "GetCurrentUs tv = word_of_int (tval_usec tv * 1000 * 1000 + tval_usec tv * 1000)"

text \<open>The loop over the given headers, which both kinds of request have.\<close>

(* http/HttpConnection.cc 389-405: HttpConnection::DoRequest, the headers *)
fun request_headers :: "(string \<times> string) list \<Rightarrow> bool \<Rightarrow> http_request \<Rightarrow> bool \<times> http_request" where
  "request_headers [] has_host req = (has_host, req)"
| "request_headers ((k, v) # headers) has_host req =
     (if strcasecmp (c_str k) ''connection'' = 0
      then request_headers headers has_host (if strcasecmp (c_str v) ''keep-alive'' = 0 then req\<lparr>rq_close := False\<rparr> else req)
      else let has_host1 = (if \<not> has_host \<and> strcasecmp (c_str k) ''host'' = 0 then v \<noteq> [] else has_host) in
           request_headers headers has_host1 (rq_setHeaderEntry k v req))"

(* http/HttpConnection.cc 382-410: HttpConnection::DoRequest, the request *)
definition uri_request :: "http_method \<Rightarrow> uri \<Rightarrow> (string \<times> string) list \<Rightarrow> string \<Rightarrow> http_request" where
  "uri_request method u headers body =
     (let req = HttpRequest_default\<lparr>rq_path := getPath u, rq_method := method, rq_query := u_query u, rq_fragment := u_fragment u\<rparr>;
          (has_host, req1) = request_headers headers False req;
          req2 = (if has_host then req1 else rq_setHeaderEntry ''Host'' (u_host u) req1) in
      req2\<lparr>rq_body := body\<rparr>)"

definition failed :: "http_error \<Rightarrow> string \<Rightarrow> http_result" where
  "failed e err = HttpResult_ctor e None err"

definition errno_text :: "client_env \<Rightarrow> string" where
  "errno_text env = ''send request socket error errno='' @ show_int (ce_errno env) @ '' errstr='' @ ce_strerror env"

text \<open>The result, and the connection after its destruction when there was one.\<close>

(* http/HttpConnection.cc 414: HttpConnection::DoRequest *)
definition DoRequest_req :: "client_env \<Rightarrow> nat \<Rightarrow> nat \<Rightarrow> http_request \<Rightarrow> uri \<Rightarrow> u64 \<Rightarrow> (http_result \<times> session option) result option" where
  "DoRequest_req env rounds fuel req u timeout =
     (case createAddress (ce_big env) (ce_getaddrinfo env) u of
        Inl e \<Rightarrow> Some (Inl e)
      | Inr None \<Rightarrow> Some (Inr (failed INVALID_HOST (''Invalid host '' @ u_host u), None))
      | Inr (Some addr) \<Rightarrow>
          (case connect (ce_os env) addr (- 1) (CreateTCPSocket_addr addr) of
             Inl e \<Rightarrow> Some (Inl e)
           | Inr (False, sock) \<Rightarrow>
               Some (Inr (failed CONNECTION_FALID (''Connection falid '' @ addr_ToString (ce_big env) addr), None))
           | Inr (True, sock) \<Rightarrow>
               (case setRecvTimeout (ce_os env) timeout of
                  Inl e \<Rightarrow> Some (Inl e)
                | Inr _ \<Rightarrow>
                    let conn = HttpConnection_ctor sock True (ce_conn env); (rt, s1) = sendRequest req (hc_stream conn) in
                    if rt = 0
                    then Some (Inr (failed SEND_CLOSE_BY_PEER (''send request closed by peer: '' @ addr_ToString (ce_big env) addr),
                           Some (SockStream_dtor s1)))
                    else if rt < 0 then Some (Inr (failed SEND_SOCKET_ERROR (errno_text env), Some (SockStream_dtor s1)))
                    else map_option (\<lambda>r. rbind r (\<lambda>(rsp, s2). Inr
                      (case rsp of
                         None \<Rightarrow> failed TIMEOUT (''recv response timeout: '' @ addr_ToString (ce_big env) addr
                           @ '' timeout_ms:'' @ show_nat (unat timeout))
                       | Some rsp \<Rightarrow> HttpResult_ctor OK (Some rsp) ''OK'',
                       Some (SockStream_dtor s2))))
                      (recvResponse (ce_lexical_cast env) rounds fuel s1))))"

(* http/HttpConnection.cc 377: HttpConnection::DoRequest *)
definition DoRequest_uri :: "client_env \<Rightarrow> nat \<Rightarrow> nat \<Rightarrow> http_method \<Rightarrow> uri \<Rightarrow> u64 \<Rightarrow> (string \<times> string) list \<Rightarrow> string
    \<Rightarrow> (http_result \<times> session option) result option" where
  "DoRequest_uri env rounds fuel method u timeout headers body =
     DoRequest_req env rounds fuel (uri_request method u headers body) u timeout"

text \<open>\<^verbatim>\<open>URI::Create\<close> and, when it made a URI, what follows.\<close>

definition with_uri :: "string \<Rightarrow> (uri \<Rightarrow> (http_result \<times> session option) result option) \<Rightarrow> (http_result \<times> session option) result option" where
  "with_uri url f =
     (case URI_Create url of
        Inl e \<Rightarrow> Some (Inl e)
      | Inr None \<Rightarrow> Some (Inr (failed INVALID_URL (''Invalid uri: '' @ url), None))
      | Inr (Some u) \<Rightarrow> f u)"

(* http/HttpConnection.cc 365: HttpConnection::DoRequest *)
definition DoRequest :: "client_env \<Rightarrow> nat \<Rightarrow> nat \<Rightarrow> http_method \<Rightarrow> string \<Rightarrow> u64 \<Rightarrow> (string \<times> string) list \<Rightarrow> string
    \<Rightarrow> (http_result \<times> session option) result option" where
  "DoRequest env rounds fuel method url timeout headers body =
     with_uri url (\<lambda>u. DoRequest_uri env rounds fuel method u timeout headers body)"

(* http/HttpConnection.cc 334: HttpConnection::DoGet *)
definition DoGet_uri :: "client_env \<Rightarrow> nat \<Rightarrow> nat \<Rightarrow> uri \<Rightarrow> u64 \<Rightarrow> (string \<times> string) list \<Rightarrow> string
    \<Rightarrow> (http_result \<times> session option) result option" where
  "DoGet_uri env rounds fuel u timeout headers body = DoRequest_uri env rounds fuel method_GET u timeout headers body"

(* http/HttpConnection.cc 320: HttpConnection::DoGet *)
definition DoGet :: "client_env \<Rightarrow> nat \<Rightarrow> nat \<Rightarrow> string \<Rightarrow> u64 \<Rightarrow> (string \<times> string) list \<Rightarrow> string
    \<Rightarrow> (http_result \<times> session option) result option" where
  "DoGet env rounds fuel url timeout headers body = with_uri url (\<lambda>u. DoGet_uri env rounds fuel u timeout headers body)"

(* http/HttpConnection.cc 356: HttpConnection::DoPost *)
definition DoPost_uri :: "client_env \<Rightarrow> nat \<Rightarrow> nat \<Rightarrow> uri \<Rightarrow> u64 \<Rightarrow> (string \<times> string) list \<Rightarrow> string
    \<Rightarrow> (http_result \<times> session option) result option" where
  "DoPost_uri env rounds fuel u timeout headers body = DoRequest_uri env rounds fuel method_POST u timeout headers body"

(* http/HttpConnection.cc 342: HttpConnection::DoPost *)
definition DoPost :: "client_env \<Rightarrow> nat \<Rightarrow> nat \<Rightarrow> string \<Rightarrow> u64 \<Rightarrow> (string \<times> string) list \<Rightarrow> string
    \<Rightarrow> (http_result \<times> session option) result option" where
  "DoPost env rounds fuel url timeout headers body = with_uri url (\<lambda>u. DoPost_uri env rounds fuel u timeout headers body)"

subsection \<open>The connection pool\<close>

(* http/HttpConnection.h 147-156: HttpConnectionPool, members *)
record http_pool =
  pl_host :: string
  pl_vhost :: string
  pl_port :: u32
  pl_maxSize :: u32
  pl_maxAliveTime :: u32
  pl_maxRequest :: u32
  pl_conns :: "http_connection list"
  pl_total :: u32

(* http/HttpConnection.cc 464: HttpConnectionPool::HttpConnectionPool *)
definition HttpConnectionPool_ctor :: "string \<Rightarrow> string \<Rightarrow> u32 \<Rightarrow> bool \<Rightarrow> u32 \<Rightarrow> u32 \<Rightarrow> u32 \<Rightarrow> http_pool" where
  "HttpConnectionPool_ctor host vhost port is_https max_size max_alive_time max_request =
     \<lparr>pl_host = host, pl_vhost = vhost, pl_port = (if port \<noteq> 0 then port else if is_https then 443 else 80),
      pl_maxSize = max_size, pl_maxAliveTime = max_alive_time, pl_maxRequest = max_request, pl_conns = [], pl_total = 0\<rparr>"

text \<open>The loop that takes a pooled connection: those found unusable, the one taken, the rest.\<close>

(* http/HttpConnection.cc 480-496: HttpConnectionPool::getConnection, the loop *)
fun take_conn :: "u64 \<Rightarrow> u32 \<Rightarrow> http_connection list \<Rightarrow> http_connection list \<times> http_connection option \<times> http_connection list" where
  "take_conn now_ms alive [] = ([], None, [])"
| "take_conn now_ms alive (conn # conns) =
     (if \<not> st_isConnected (hc_stream conn) \<or> hc_create_time conn + ucast alive > now_ms
      then (case take_conn now_ms alive conns of (invalid, ptr, rest) \<Rightarrow> (conn # invalid, ptr, rest))
      else ([], Some conn, conns))"

(* http/HttpConnection.cc 503-524: HttpConnectionPool::getConnection, a new connection *)
definition new_conn :: "client_env \<Rightarrow> http_pool \<Rightarrow> (http_connection option \<times> http_pool) result" where
  "new_conn env p =
     rbind (HostNameToAddress (ce_getaddrinfo env) (pl_host p) AF_UNSPEC 0) (\<lambda>addrs.
       case addrs of
         [] \<Rightarrow> Inl Undefined_behaviour
       | a # _ \<Rightarrow>
           (let addr = SetPort (ce_big env) (ucast (pl_port p)) a in
            rbind (connect (ce_os env) addr (- 1) (CreateTCPSocket_addr addr)) (\<lambda>(ok, sock).
              Inr (if ok then (Some (HttpConnection_ctor sock True (ce_conn env)), p\<lparr>pl_total := pl_total p + 1\<rparr>) else (None, p)))))"

(* http/HttpConnection.cc 474: HttpConnectionPool::getConnection *)
definition getConnection :: "client_env \<Rightarrow> u64 \<Rightarrow> http_pool \<Rightarrow> (http_connection option \<times> http_pool) result" where
  "getConnection env now_ms p =
     (let (invalid_conns, ptr, rest) = take_conn now_ms (pl_maxAliveTime p) (pl_conns p);
          p1 = p\<lparr>pl_conns := rest, pl_total := pl_total p - word_of_nat (length invalid_conns)\<rparr> in
      case ptr of Some conn \<Rightarrow> Inr (Some conn, p1) | None \<Rightarrow> new_conn env p1)"

(* http/HttpConnection.cc 529: HttpConnectionPool::ReleasePtr *)
definition ReleasePtr :: "u64 \<Rightarrow> http_connection \<Rightarrow> http_pool \<Rightarrow> http_pool" where
  "ReleasePtr now_ms ptr p =
     (if \<not> st_isConnected (hc_stream ptr) \<or> hc_create_time ptr + ucast (pl_maxAliveTime p) \<ge> now_ms
      then p\<lparr>pl_total := pl_total p - 1\<rparr>
      else p\<lparr>pl_conns := pl_conns p @ [ptr]\<rparr>)"

text \<open>
  The peer's address in an error message: it is kept in the socket, and a null one is
  dereferenced.
\<close>

definition peer_text :: "client_env \<Rightarrow> session \<Rightarrow> (string \<times> session) result" where
  "peer_text env s =
     (case st_sock s of
        None \<Rightarrow> Inl Undefined_behaviour
      | Some sock \<Rightarrow> rbind (getRemoteAddress (ce_os env) sock) (\<lambda>(a, sock1).
          case a of None \<Rightarrow> Inl Undefined_behaviour
          | Some a \<Rightarrow> Inr (addr_ToString (ce_big env) a, s\<lparr>st_sock := Some sock1\<rparr>)))"

(* http/HttpConnection.cc 652-683: HttpConnectionPool::doRequest, on a connection *)
definition request_on :: "client_env \<Rightarrow> nat \<Rightarrow> nat \<Rightarrow> http_request \<Rightarrow> u64 \<Rightarrow> session \<Rightarrow> (http_result \<times> session) result option" where
  "request_on env rounds fuel req timeout_ms s =
     (case setRecvTimeout (ce_os env) timeout_ms of
        Inl e \<Rightarrow> Some (Inl e)
      | Inr _ \<Rightarrow>
          let (rt, s1) = sendRequest req s in
          if rt = 0 then Some (rbind (peer_text env s1) (\<lambda>(peer, s2). Inr (failed SEND_CLOSE_BY_PEER (''send request closed by peer: '' @ peer), s2)))
          else if rt < 0 then Some (Inr (failed SEND_SOCKET_ERROR (errno_text env), s1))
          else map_option (\<lambda>r. rbind r (\<lambda>(rsp, s2).
            case rsp of
              None \<Rightarrow> rbind (peer_text env s2) (\<lambda>(peer, s3). Inr (failed TIMEOUT
                (''recv response timeout: '' @ peer @ '' timeout_ms:'' @ show_nat (unat timeout_ms)), s3))
            | Some rsp \<Rightarrow> Inr (HttpResult_ctor OK (Some rsp) ''ok'', s2)))
            (recvResponse (ce_lexical_cast env) rounds fuel s1))"

(* http/HttpConnection.cc 638: HttpConnectionPool::doRequest *)
definition doRequest_req :: "client_env \<Rightarrow> nat \<Rightarrow> nat \<Rightarrow> u64 \<Rightarrow> u64 \<Rightarrow> http_request \<Rightarrow> u64 \<Rightarrow> http_pool \<Rightarrow> (http_result \<times> http_pool) result option" where
  "doRequest_req env rounds fuel now later req timeout_ms p =
     (case getConnection env now p of
        Inl e \<Rightarrow> Some (Inl e)
      | Inr (None, p1) \<Rightarrow> Some (Inl Assert_failed)
      | Inr (Some conn, p1) \<Rightarrow>
          if st_sock (hc_stream conn) = None then Some (Inl Assert_failed)
          else map_option (\<lambda>r. rbind r (\<lambda>(result, s1). Inr (result, ReleasePtr later (conn\<lparr>hc_stream := s1\<rparr>) p1)))
            (request_on env rounds fuel req timeout_ms (hc_stream conn)))"

(* http/HttpConnection.cc 588-623: HttpConnectionPool::doRequest, the request *)
definition pool_request :: "http_method \<Rightarrow> string \<Rightarrow> (string \<times> string) list \<Rightarrow> string \<Rightarrow> http_pool \<Rightarrow> http_request" where
  "pool_request method url headers body p =
     (let req = HttpRequest_default\<lparr>rq_path := url, rq_method := method, rq_close := False\<rparr>;
          (has_host, req1) = request_headers headers False req;
          req2 = (if has_host then req1 else rq_setHeaderEntry ''Host'' (if pl_vhost p = [] then pl_host p else pl_vhost p) req1) in
      req2\<lparr>rq_body := body\<rparr>)"

(* http/HttpConnection.cc 584: HttpConnectionPool::doRequest *)
definition doRequest :: "client_env \<Rightarrow> nat \<Rightarrow> nat \<Rightarrow> u64 \<Rightarrow> u64 \<Rightarrow> http_method \<Rightarrow> string \<Rightarrow> u64 \<Rightarrow> (string \<times> string) list \<Rightarrow> string
    \<Rightarrow> http_pool \<Rightarrow> (http_result \<times> http_pool) result option" where
  "doRequest env rounds fuel now later method url timeout_ms headers body p =
     doRequest_req env rounds fuel now later (pool_request method url headers body p) timeout_ms p"

text \<open>The target of a request for a URI, printed the same way in three places.\<close>

definition uri_target :: "uri \<Rightarrow> string" where
  "uri_target u = getPath u @ (if u_query u = [] then [] else ''?'') @ u_query u @ (if u_fragment u = [] then [] else ''#'') @ u_fragment u"

(* http/HttpConnection.cc 627: HttpConnectionPool::doRequest *)
definition doRequest_uri :: "client_env \<Rightarrow> nat \<Rightarrow> nat \<Rightarrow> u64 \<Rightarrow> u64 \<Rightarrow> http_method \<Rightarrow> uri \<Rightarrow> u64 \<Rightarrow> (string \<times> string) list \<Rightarrow> string
    \<Rightarrow> http_pool \<Rightarrow> (http_result \<times> http_pool) result option" where
  "doRequest_uri env rounds fuel now later method u timeout_ms headers body p =
     doRequest env rounds fuel now later method (uri_target u) timeout_ms headers body p"

(* http/HttpConnection.cc 576: HttpConnectionPool::doGet *)
definition doGet :: "client_env \<Rightarrow> nat \<Rightarrow> nat \<Rightarrow> u64 \<Rightarrow> u64 \<Rightarrow> string \<Rightarrow> u64 \<Rightarrow> (string \<times> string) list \<Rightarrow> string
    \<Rightarrow> http_pool \<Rightarrow> (http_result \<times> http_pool) result option" where
  "doGet env rounds fuel now later url timeout_ms headers body p =
     doRequest env rounds fuel now later method_GET url timeout_ms headers body p"

(* http/HttpConnection.cc 564: HttpConnectionPool::doGet *)
definition doGet_uri :: "client_env \<Rightarrow> nat \<Rightarrow> nat \<Rightarrow> u64 \<Rightarrow> u64 \<Rightarrow> uri \<Rightarrow> u64 \<Rightarrow> (string \<times> string) list \<Rightarrow> string
    \<Rightarrow> http_pool \<Rightarrow> (http_result \<times> http_pool) result option" where
  "doGet_uri env rounds fuel now later u timeout_ms headers body p =
     doGet env rounds fuel now later (uri_target u) timeout_ms headers body p"

(* http/HttpConnection.cc 544: HttpConnectionPool::doPost *)
definition doPost :: "client_env \<Rightarrow> nat \<Rightarrow> nat \<Rightarrow> u64 \<Rightarrow> u64 \<Rightarrow> string \<Rightarrow> u64 \<Rightarrow> (string \<times> string) list \<Rightarrow> string
    \<Rightarrow> http_pool \<Rightarrow> (http_result \<times> http_pool) result option" where
  "doPost env rounds fuel now later url timeout_ms headers body p =
     doRequest env rounds fuel now later method_POST url timeout_ms headers body p"

(* http/HttpConnection.cc 552: HttpConnectionPool::doPost *)
definition doPost_uri :: "client_env \<Rightarrow> nat \<Rightarrow> nat \<Rightarrow> u64 \<Rightarrow> u64 \<Rightarrow> uri \<Rightarrow> u64 \<Rightarrow> (string \<times> string) list \<Rightarrow> string
    \<Rightarrow> http_pool \<Rightarrow> (http_result \<times> http_pool) result option" where
  "doPost_uri env rounds fuel now later u timeout_ms headers body p =
     doPost env rounds fuel now later (uri_target u) timeout_ms headers body p"

section \<open>The pool\<close>

text \<open>
  A pool and the connections it has lent.  A step takes a connection or fails to, a
  holder uses a lent connection, which changes its stream, or gives it back.
\<close>

inductive pool_step :: "http_pool \<times> http_connection list \<Rightarrow> http_pool \<times> http_connection list \<Rightarrow> bool" where
  taken: "getConnection env now p = Inr (Some c, p') \<Longrightarrow> pool_step (p, lent) (p', lent @ [c])"
| refused: "getConnection env now p = Inr (None, p') \<Longrightarrow> pool_step (p, lent) (p', lent)"
| used: "pool_step (p, a @ c # b) (p, a @ c\<lparr>hc_stream := s\<rparr> # b)"
| released: "pool_step (p, a @ c # b) (ReleasePtr now c p, a @ b)"

definition pool_ok :: "http_pool \<times> http_connection list \<Rightarrow> bool" where
  "pool_ok st \<longleftrightarrow> (case st of (p, lent) \<Rightarrow>
     pl_total p = word_of_nat (length (pl_conns p) + length lent) \<and> list_all (\<lambda>c. hc_create_time c = 0) (pl_conns p @ lent))"

lemma take_conn_spec:
  "take_conn now alive conns = (invalid, ptr, rest) \<Longrightarrow>
     conns = invalid @ (case ptr of None \<Rightarrow> [] | Some c \<Rightarrow> [c]) @ rest
     \<and> (ptr = None \<longrightarrow> rest = []) \<and> (\<forall>c. ptr = Some c \<longrightarrow> st_isConnected (hc_stream c) \<and> \<not> hc_create_time c + ucast alive > now)"
proof (induction conns arbitrary: invalid)
  case (Cons c conns)
  then show ?case by (cases "take_conn now alive conns") (auto split: if_splits)
qed auto

lemma address_asked:
  assumes "getRemoteAddress os s = Inr (a, s1)" "getLocalAddress os s1 = Inr (b, s2)"
  shows "isConnected s2 = isConnected s"
  using assms by (auto simp: getRemoteAddress_def getLocalAddress_def assert_r_def split: if_splits option.splits)

lemma connect_connected:
  assumes "connect os addr t s = Inr (True, s')"
  shows "isConnected s'"
  using assms address_asked [of os "_\<lparr>isConnected := True\<rparr>"]
  by (auto simp: connect_def result_simps split: if_splits)

lemma new_conn_cases:
  assumes "new_conn env p = Inr (r, p')"
  shows "(r = None \<and> p' = p) \<or>
    (\<exists>c. r = Some c \<and> p' = p\<lparr>pl_total := pl_total p + 1\<rparr> \<and> hc_create_time c = 0 \<and> st_isConnected (hc_stream c))"
proof -
  obtain addrs where a: "HostNameToAddress (ce_getaddrinfo env) (pl_host p) AF_UNSPEC 0 = Inr addrs"
    using assms by (auto simp: new_conn_def result_simps)
  let ?a = "SetPort (ce_big env) (ucast (pl_port p)) (hd addrs)"
  obtain ok sock where c: "connect (ce_os env) ?a (- 1) (CreateTCPSocket_addr ?a) = Inr (ok, sock)"
    "(r, p') = (if ok then (Some (HttpConnection_ctor sock True (ce_conn env)), p\<lparr>pl_total := pl_total p + 1\<rparr>) else (None, p))"
    using assms a by (cases addrs) (auto simp: new_conn_def result_simps Let_def)
  then show ?thesis using connect_connected by (cases ok) (auto simp: HttpConnection_ctor_def SockStream_ctor_def st_isConnected_def)
qed

lemma getConnection_cases:
  assumes "getConnection env now p = Inr (r, p')"
  obtains invalid where "pl_conns p = invalid @ pl_conns p'" "r = None"
      "pl_total p' = pl_total p - word_of_nat (length invalid)"
  | invalid c where "pl_conns p = invalid @ c # pl_conns p'" "r = Some c" "pl_total p' = pl_total p - word_of_nat (length invalid)"
      "st_isConnected (hc_stream c)"
  | c where "pl_conns p' = []" "r = Some c" "pl_total p' = pl_total p - word_of_nat (length (pl_conns p)) + 1"
      "hc_create_time c = 0" "st_isConnected (hc_stream c)"
proof -
  obtain invalid ptr rest where t: "take_conn now (pl_maxAliveTime p) (pl_conns p) = (invalid, ptr, rest)" by (metis surj_pair)
  note s = take_conn_spec [OF t]
  let ?p = "p\<lparr>pl_conns := rest, pl_total := pl_total p - word_of_nat (length invalid)\<rparr>"
  show thesis
  proof (cases ptr)
    case None
    then have "new_conn env ?p = Inr (r, p')" using assms by (simp add: getConnection_def t)
    then show thesis using new_conn_cases [of env ?p r p'] s None that(1) [of invalid] that(3) by auto
  next
    case (Some c)
    then have "r = Some c" "p' = ?p" using assms by (simp_all add: getConnection_def t)
    then show thesis using s Some that(2) [of invalid c] by auto
  qed
qed

lemma pool_step_ok: "pool_step st st' \<Longrightarrow> pool_ok st \<Longrightarrow> pool_ok st'"
proof (induction rule: pool_step.induct)
  case (taken env now p c p' lent)
  from taken(1) show ?case
    by (cases rule: getConnection_cases) (use taken(2) in \<open>auto simp: pool_ok_def algebra_simps\<close>)
next
  case (refused env now p p' lent)
  from refused(1) show ?case
    by (cases rule: getConnection_cases) (use refused(2) in \<open>auto simp: pool_ok_def algebra_simps\<close>)
qed (auto simp: pool_ok_def ReleasePtr_def algebra_simps)

lemma pool_run_ok: "pool_step\<^sup>*\<^sup>* st st' \<Longrightarrow> pool_ok st \<Longrightarrow> pool_ok st'"
  by (induction rule: rtranclp_induct) (auto intro: pool_step_ok)

text \<open>
  C18: The pool's count is right.  After any interleaving of connections taken, refused,
  used and given back, \<^verbatim>\<open>total_\<close> is the number of connections in the pool and lent.  A
  connection that is taken is connected.
\<close>

theorem pool_accounting:
  assumes "pool_step\<^sup>*\<^sup>* (HttpConnectionPool_ctor host vhost port https max_size alive requests, []) (p, lent)"
  shows "pl_total p = word_of_nat (length (pl_conns p) + length lent)
    \<and> (\<forall>env now c p'. getConnection env now p = Inr (Some c, p') \<longrightarrow> st_isConnected (hc_stream c))"
proof -
  have "pool_ok (p, lent)" using pool_run_ok [OF assms] by (simp add: pool_ok_def HttpConnectionPool_ctor_def)
  then show ?thesis by (auto simp: pool_ok_def elim: getConnection_cases)
qed

definition demo_conn :: http_connection where
  "demo_conn = HttpConnection_ctor (CreateTCPSocket\<lparr>socketfd := 7, isConnected := True\<rparr>) True \<lparr>c_in = [], c_out = [], c_caps = []\<rparr>"

definition demo_pool :: http_pool where
  "demo_pool = HttpConnectionPool_ctor ''sylar.top'' [] 0 False 10 30000 5"

definition demo_env :: client_env where
  "demo_env = \<lparr>ce_big = False, ce_getaddrinfo = \<lambda>node service family protocol. Some [SA_in (IPv4_ctor False 0x7F000001 0)],
     ce_os = \<lparr>os_socket = 7, os_accept = - 1, os_setsockopt = [(SOL_SOCKET, SO_REUSEADDR), (IPPROTO_TCP, TCP_NODELAY), (SOL_SOCKET, SO_RCVTIMEO)],
       os_bind = True, os_connect = True, os_listen = True, os_getsockname = None, os_getpeername = None\<rparr>,
     ce_conn = \<lparr>c_in = [], c_out = [], c_caps = []\<rparr>, ce_lexical_cast = \<lambda>s. None, ce_errno = 0, ce_strerror = []\<rparr>"

lemma demo_get: "getConnection demo_env now demo_pool = Inr (Some demo_conn, demo_pool\<lparr>pl_total := 1\<rparr>)"
  by (simp add: getConnection_def demo_pool_def demo_env_def demo_conn_def HttpConnectionPool_ctor_def new_conn_def HostNameToAddress_def
      collect_addresses.simps connect_def CreateTCPSocket_addr_def CreateTCPSocket_def Socket_ctor_def isVaild_def newSock_def initSock_def
      setOption_def getRemoteAddress_def getLocalAddress_def known_family_def assert_r_def split_hostname_def Let_def
      IPv4_SetPort_def IPv4_ctor_def IPv4_default_def AF_INET_def)

theorem pool_accounting_witness:
  "pl_total (demo_pool\<lparr>pl_total := 1\<rparr>) = word_of_nat (length (pl_conns (demo_pool\<lparr>pl_total := 1\<rparr>)) + length [demo_conn])"
proof -
  have "pool_step\<^sup>*\<^sup>* (demo_pool, []) (demo_pool\<lparr>pl_total := 1\<rparr>, [demo_conn])"
    using pool_step.taken [OF demo_get, of "[]"] by auto
  then show ?thesis unfolding demo_pool_def by (rule pool_accounting [THEN conjunct1])
qed

text \<open>
  A live connection is reused however old it is.  A connection that is given back alive
  is the one the empty pool lends next, and the pool is as before, for every limit on the
  alive time and every two times of the clock after the first 2^32 milliseconds of its
  epoch: the time of creation that the limit is added to is never set.
\<close>

theorem pool_reuses:
  assumes "pool_step\<^sup>*\<^sup>* (HttpConnectionPool_ctor host vhost port https max_size alive requests, []) (p, lent)"
    and "pl_conns p = []" "c \<in> set lent" "st_isConnected (hc_stream c)" "2 ^ 32 \<le> unat now" "2 ^ 32 \<le> unat later"
  shows "getConnection env later (ReleasePtr now c p) = Inr (Some c, p)"
proof -
  have "pool_ok (p, lent)" using pool_run_ok [OF assms(1)] by (simp add: pool_ok_def HttpConnectionPool_ctor_def)
  then have "hc_create_time c = 0" using assms(3) by (auto simp: pool_ok_def list_all_iff)
  moreover have "(ucast (pl_maxAliveTime p) :: u64) < t" if "2 ^ 32 \<le> unat t" for t
  proof -
    have "unat (pl_maxAliveTime p) < 2 ^ 32" using unsigned_less [of "pl_maxAliveTime p", where 'a = nat] by simp
    then show ?thesis using that by (simp add: word_less_nat_alt unsigned_ucast_eq take_bit_nat_eq_self)
  qed
  ultimately have "hc_create_time c = 0" "\<not> now \<le> ucast (pl_maxAliveTime p)" "\<not> later < ucast (pl_maxAliveTime p)"
    using assms(5,6) by (auto simp: not_le not_less less_imp_le)
  then show ?thesis using assms(2,4) by (simp add: ReleasePtr_def getConnection_def)
qed

theorem pool_reuses_witness:
  "getConnection demo_env (9000000000) (ReleasePtr (5000000000) demo_conn (demo_pool\<lparr>pl_total := 1\<rparr>)) = Inr (Some demo_conn, demo_pool\<lparr>pl_total := 1\<rparr>)"
proof -
  have "pool_step\<^sup>*\<^sup>* (demo_pool, []) (demo_pool\<lparr>pl_total := 1\<rparr>, [demo_conn])"
    using pool_step.taken [OF demo_get, of "[]"] by auto
  moreover have "st_isConnected (hc_stream demo_conn)" "pl_conns demo_pool = []"
    by (simp_all add: demo_conn_def demo_pool_def HttpConnection_ctor_def SockStream_ctor_def st_isConnected_def HttpConnectionPool_ctor_def)
  moreover have "2 ^ 32 \<le> unat (5000000000 :: u64)" "2 ^ 32 \<le> unat (9000000000 :: u64)" by simp_all
  ultimately show ?thesis
    using pool_reuses [of "''sylar.top''" "[]" 0 False 10 30000 5 "demo_pool\<lparr>pl_total := 1\<rparr>" "[demo_conn]" demo_conn "5000000000" "9000000000" demo_env]
    by (simp add: demo_pool_def)
qed

end
