(* ===== verification/HttpClient.thy ===== *)
theory HttpClient
  imports HttpConnection
begin

text \<open>
  What the client makes of the bytes a server sends (\<^verbatim>\<open>HttpConnection::recvResponse\<close>,
  defined in \<open>HttpConnection\<close>): a printed response is read back, with the line end after
  its body that breaks the next one, a chunked body is put together, and a size line that
  is split over two reads is misread.
\<close>

section \<open>The scanner's runs\<close>

lemma blank_parser_simps [simp]:
  "hp_cs blank_parser = 1" "hp_body_start blank_parser = 0" "hp_chunked blank_parser = 0" "hp_chunks_done blank_parser = 0"
  by (simp_all add: blank_parser_def httpclient_parser_init_def)

lemma client_scanner_simps [simp]:
  "sc_init client_scanner = blank_parser" "sc_finish client_scanner = httpclient_parser_finish"
  "sc_has_error client_scanner = httpclient_parser_has_error"
  by (simp_all add: client_scanner_def)

lemma client_execute_ok:
  assumes "scan_response (if chunck then blank_parser else sp_parser p) data = Inr (es, q, int n)"
  shows "client_execute data chunck p = Inr (n, drop n data, fold response_callback es (p\<lparr>sp_parser := q\<rparr>))"
  using assms by (simp add: client_execute_def sp_execute_def client_scanner_def split: if_splits)

lemma buffered: "length xs \<le> buff_size \<Longrightarrow> length xs < 2 ^ 31"
  by (simp add: buff_size_def)

lemma finished_flags:
  assumes "hp_cs (sp_parser p) = 120" "sp_error p = 0"
  shows "\<not> sp_hasError client_scanner p" "sp_isFinished client_scanner p = 1"
  using assms by (simp_all add: sp_hasError_def sp_isFinished_def httpclient_parser_has_error_def httpclient_parser_finish_def
      httpclient_parser_is_finished_def)

section \<open>Responses\<close>

text \<open>The printed reason, the version digit and the headers of a response, as it is printed.\<close>

definition printed_reason :: "http_response \<Rightarrow> string" where
  "printed_reason r = (if rs_reason r = [] then HttpStatusToString (rs_status r) else rs_reason r)"

definition version_digit :: "http_response \<Rightarrow> char" where
  "version_digit r = (if rs_version r = 0x11 then CHR ''1'' else CHR ''0'')"

definition printed_headers :: "http_response \<Rightarrow> (string \<times> string) list" where
  "printed_headers r =
     filter (\<lambda>(k, v). k \<noteq> ''connection'') (rs_headers r) @ [(''connection'', if rs_close r then ''close'' else ''keep-alive'')]
     @ (if rs_body r = [] then [] else [(''content-length'', show_nat (length (rs_body r)))])"

definition response_ok :: "http_response \<Rightarrow> bool" where
  "response_ok r \<longleftrightarrow> (rs_version r = 0x10 \<or> rs_version r = 0x11)
     \<and> printed_reason r \<noteq> [] \<and> CR \<notin> set (printed_reason r) \<and> LF \<notin> set (printed_reason r)
     \<and> list_all (\<lambda>(k, v). header_ok k v) (filter (\<lambda>(k, v). k \<noteq> ''connection'') (rs_headers r))"

definition head_text :: "http_response \<Rightarrow> string" where
  "head_text r = response_head (version_digit r) (rs_status r) (printed_reason r) (printed_headers r)"

lemma header_lines_text: "header_lines m = headers_text (filter (\<lambda>(k, v). k \<noteq> ''connection'') m)"
  by (simp add: header_lines_def headers_text_def header_text_def case_prod_unfold)

lemma version_text_digit: "rs_version r = 0x10 \<or> rs_version r = 0x11 \<Longrightarrow> version_text (rs_version r) = ''1.'' @ [version_digit r]"
proof -
  have "show_nat 1 = ''1''" "show_nat 0 = ''0''"
    by (simp_all add: show_nat_def show_base.simps digit_char_def char_of_def bit_Suc_0_iff)
  moreover have "unat (drop_bit 4 (0x10 :: u8)) = 1" "unat (drop_bit 4 (0x11 :: u8)) = 1" "unat ((0x10 :: u8) AND 15) = 0" "unat ((0x11 :: u8) AND 15) = 1"
    by code_simp+
  ultimately show "rs_version r = 0x10 \<or> rs_version r = 0x11 \<Longrightarrow> version_text (rs_version r) = ''1.'' @ [version_digit r]"
    by (auto simp: version_text_def version_digit_def)
qed

lemma dump_text:
  assumes "response_ok r"
  shows "rs_dump r = head_text r @ (if rs_body r = [] then [] else rs_body r @ CRLF)"
  using assms version_text_digit [of r]
  by (auto simp: rs_dump_def head_text_def response_head_def printed_headers_def printed_reason_def header_lines_text headers_text_def
      header_text_def response_ok_def)

lemma printed_headers_ok:
  assumes "response_ok r"
  shows "list_all (\<lambda>(k, v). header_ok k v) (printed_headers r)"
proof -
  have "header_ok ''connection'' ''close''" "header_ok ''connection'' ''keep-alive''"
    by (simp_all add: header_ok_def is_token_def in_ranges_def token_ranges_def char_val_def lower_name_def lower_int_def te_codes_def is_blank_def special_chars)
  moreover have "header_ok ''content-length'' (show_nat n)" for n
  proof -
    have "\<forall>c \<in> set (show_nat n). c \<noteq> CR \<and> c \<noteq> LF \<and> \<not> is_blank c"
      using show_nat_digits(1) [of n] digit_move digit_facts unfolding list_all_iff is_blank_def by fastforce
    moreover have "list_all is_token ''content-length''" "lower_name ''content-length'' \<noteq> te_codes"
      by (simp_all add: is_token_def in_ranges_def token_ranges_def char_val_def lower_name_def lower_int_def te_codes_def)
    ultimately show ?thesis using show_nat_digits(2) [of n] by (auto simp: header_ok_def)
  qed
  ultimately show ?thesis using assms by (simp add: printed_headers_def response_ok_def)
qed

text \<open>What the parser makes of the head of a printed response.\<close>

definition parsed_head :: "http_response \<Rightarrow> http_response" where
  "parsed_head r = put_headers (printed_headers r)
     (HttpResponse_default\<lparr>rs_version := rs_version r, rs_status := rs_status r, rs_reason := printed_reason r\<rparr>)"

lemma client_execute_head:
  assumes "response_ok r" "length (head_text r @ rest) < 2 ^ 31"
  obtains q where "client_execute (head_text r @ rest) False (HttpResponseParser_ctor client_scanner)
      = Inr (length (head_text r), rest, \<lparr>sp_parser = q, sp_data = parsed_head r, sp_error = 0\<rparr>)"
    "hp_cs q = 120" "hp_chunked q = 0"
proof -
  let ?P = "HttpResponseParser_ctor client_scanner" and ?d = "version_digit r"
  have d: "?d = CHR ''0'' \<or> ?d = CHR ''1''" "(if ?d = CHR ''1'' then 0x11 else 0x10) = rs_version r"
    using assms(1) by (auto simp: version_digit_def response_ok_def)
  have c: "hp_cs (sp_parser ?P) = 1" "hp_body_start (sp_parser ?P) = 0" "hp_chunked (sp_parser ?P) = 0" by (simp_all add: HttpResponseParser_ctor_def)
  have ok: "printed_reason r \<noteq> []" "CR \<notin> set (printed_reason r)" "LF \<notin> set (printed_reason r)" using assms(1) by (simp_all add: response_ok_def)
  obtain es q where e: "scan_response (sp_parser ?P) (head_text r @ rest) = Inr (es, q, int (length (head_text r)))"
      "hp_cs q = 120" "hp_chunked q = 0"
      "fold response_callback es (?P\<lparr>sp_parser := q\<rparr>) = (?P\<lparr>sp_parser := q\<rparr>)\<lparr>sp_data := parsed_head r\<rparr>"
  proof -
    obtain es q where "scan_response (sp_parser ?P) (head_text r @ rest) = Inr (es, q, int (length (head_text r)))"
        "hp_cs q = 120" "hp_chunked q = 0" "\<And>P :: client_parser. fold response_callback es P = P\<lparr>sp_data := put_headers (printed_headers r)
        ((sp_data P)\<lparr>rs_version := (if ?d = CHR ''1'' then 0x11 else 0x10), rs_status := rs_status r, rs_reason := printed_reason r\<rparr>)\<rparr>"
      using head_execute [OF d(1) ok printed_headers_ok [OF assms(1)] c(1,2) assms(2) [unfolded head_text_def]] c(3) unfolding head_text_def by metis
    then show thesis using that [of es q] d(2) by (simp add: parsed_head_def HttpResponseParser_ctor_def)
  qed
  then show thesis
    using that [of q] client_execute_ok [of False ?P "head_text r @ rest" es q "length (head_text r)"] by (simp add: HttpResponseParser_ctor_def)
qed

abbreviation incoming :: "session \<Rightarrow> string list" where
  "incoming s \<equiv> c_in (st_conn s)"

definition after_reading :: "string list \<Rightarrow> session \<Rightarrow> session" where
  "after_reading segs s = s\<lparr>st_conn := (st_conn s)\<lparr>c_in := segs\<rparr>\<rparr>"

lemma after_reading_simps [simp]:
  "st_isConnected (after_reading segs s) = st_isConnected s" "incoming (after_reading segs s) = segs"
  "after_reading a (after_reading b s) = after_reading a s"
  by (simp_all add: after_reading_def st_isConnected_def)

lemma st_read_segment:
  assumes "st_isConnected s" "incoming s = seg # segs" "length seg \<le> n"
  shows "st_read n s = (int (length seg), seg, after_reading segs s)"
  using assms by (auto simp: st_read_def recv_def st_isConnected_def after_reading_def split: option.splits)

lemma put_headers_append: "put_headers (hs @ hs') r = put_headers hs' (put_headers hs r)"
  by (simp add: put_headers_def)

lemma put_headers_map: "smap CaseInsensitiveLess (rs_headers r) \<Longrightarrow> smap CaseInsensitiveLess (rs_headers (put_headers hs r))"
  unfolding put_headers_def by (induction hs arbitrary: r) (auto simp: rs_setHeaderEntry_def ci.smap_put_smap)

lemma parsed_length:
  assumes "rs_body r \<noteq> []"
  shows "ci_find ''content-length'' (rs_headers (parsed_head r)) = Some (show_nat (length (rs_body r)))"
proof -
  let ?hs = "filter (\<lambda>(k, v). k \<noteq> ''connection'') (rs_headers r) @ [(''connection'', if rs_close r then ''close'' else ''keep-alive'')]"
  let ?r = "put_headers ?hs (HttpResponse_default\<lparr>rs_version := rs_version r, rs_status := rs_status r, rs_reason := printed_reason r\<rparr>)"
  have "parsed_head r = rs_setHeaderEntry ''content-length'' (show_nat (length (rs_body r))) ?r"
    using assms by (simp add: parsed_head_def printed_headers_def put_headers_def)
  moreover have "smap CaseInsensitiveLess (rs_headers ?r)" by (rule put_headers_map) (simp add: HttpResponse_default_def)
  ultimately show ?thesis by (simp add: rs_setHeaderEntry_def ci.find_put key_equiv_def ci.irrefl)
qed

lemma put_headers_fields [simp]:
  "rs_version (put_headers hs r) = rs_version r" "rs_status (put_headers hs r) = rs_status r" "rs_reason (put_headers hs r) = rs_reason r"
  "rs_headers (put_headers hs r) = fold (\<lambda>(a, v). ci_put a v) hs (rs_headers r)"
  unfolding put_headers_def by (induction hs arbitrary: r) (auto simp: rs_setHeaderEntry_def)

lemma smap_fold_put: "smap CaseInsensitiveLess m \<Longrightarrow> smap CaseInsensitiveLess (fold (\<lambda>(a, v). ci_put a v) hs m)"
  by (induction hs arbitrary: m) (auto simp: ci.smap_put_smap)

lemma parsed_headers:
  "rs_headers (parsed_head r) =
     (let m = ci_put ''connection'' (if rs_close r then ''close'' else ''keep-alive'')
            (fold (\<lambda>(a, v). ci_put a v) (filter (\<lambda>(k, v). k \<noteq> ''connection'') (rs_headers r)) []) in
      if rs_body r = [] then m else ci_put ''content-length'' (show_nat (length (rs_body r))) m)"
  by (simp add: parsed_head_def printed_headers_def HttpResponse_default_def)

lemma parsed_header:
  assumes "smap CaseInsensitiveLess (rs_headers r)"
    and "strcasecmp (c_str ''connection'') (c_str k) \<noteq> 0"
    and "rs_body r = [] \<or> strcasecmp (c_str ''content-length'') (c_str k) \<noteq> 0"
  shows "ci_find k (rs_headers (parsed_head r)) = ci_find k (rs_headers r)"
proof -
  let ?hs = "filter (\<lambda>(k, v). k \<noteq> ''connection'') (rs_headers r)"
  let ?m = "fold (\<lambda>(a, v). ci_put a v) ?hs []" and ?v = "if rs_close r then ''close'' else ''keep-alive''"
  have m: "smap CaseInsensitiveLess ?m" "smap CaseInsensitiveLess (ci_put ''connection'' ?v ?m)"
    by (simp_all only: smap_fold_put ci.smap_put_smap smap_Nil)
  have "ci_find k ?m = ci_find k ?hs"
    using ci.find_fold_put [OF ci.smap_filter [OF assms(1)], of "[]" k "\<lambda>(k, v). k \<noteq> ''connection''"] by (simp split: option.splits)
  also have "\<dots> = ci_find k (rs_headers r)" using ci.find_filter_key [OF assms(1)] assms(2) by (simp add: key_equiv_ci)
  finally have "ci_find k ?m = ci_find k (rs_headers r)" .
  then show ?thesis using assms(2,3) m by (auto simp: parsed_headers ci.find_put key_equiv_ci Let_def)
qed

text \<open>
  A response whose length the client can tell: it has a body shorter than 2^31, of whose
  length \<^verbatim>\<open>boost::lexical_cast\<close> reads the decimal digits, or it has none and no header that
  gives a length.
\<close>

definition framed :: "(string \<Rightarrow> u64 option) \<Rightarrow> http_response \<Rightarrow> bool" where
  "framed lexical_cast r \<longleftrightarrow>
     (if rs_body r = [] then smap CaseInsensitiveLess (rs_headers r) \<and> ci_find ''content-length'' (rs_headers r) = None
      else length (rs_body r) < 2 ^ 31
        \<and> lexical_cast (show_nat (length (rs_body r))) = Some (word_of_nat (length (rs_body r))))"

lemma framed_length:
  assumes "framed lexical_cast r"
  shows "int64_of_u64 (sp_getContentLength lexical_cast \<lparr>sp_parser = q, sp_data = parsed_head r, sp_error = 0\<rparr>) = int (length (rs_body r))"
proof (cases "rs_body r = []")
  case True
  have "strcasecmp (c_str ''connection'') (c_str ''content-length'') \<noteq> 0"
    by (simp add: c_str_def lower_code_def to_lower_def is_upper_def special_chars)
  then have "ci_find ''content-length'' (rs_headers (parsed_head r)) = None"
    using parsed_header [of r "''content-length''"] assms True by (simp add: framed_def)
  then show ?thesis using True by (simp add: sp_getContentLength_def rs_getHeaderEntryAs_def getAs_def int64_of_u64_def)
next
  case False
  have "sint (word_of_nat (length (rs_body r)) :: u64) = int (length (rs_body r))"
    using assms False by (simp add: framed_def signed_of_nat signed_take_bit_int_eq_self)
  then show ?thesis using parsed_length [OF False] assms False
    by (simp add: framed_def sp_getContentLength_def rs_getHeaderEntryAs_def getAs_def int64_of_u64_def)
qed

lemma response_received:
  assumes "response_ok r" "framed lexical_cast r"
    and "st_isConnected s" "incoming s = (head_text r @ b) # segs" "[] \<notin> set segs" "length (head_text r @ b) \<le> buff_size"
    and "is_prefix (rs_body r) (b @ concat segs)"
  shows "\<exists>s'. recvResponse lexical_cast rounds (Suc fuel) s = Some (Inr (Some ((parsed_head r)\<lparr>rs_body := rs_body r\<rparr>), s'))
    \<and> in_ok s' \<and> in_data s' = drop (length (rs_body r) - length b) (concat segs)"
proof -
  let ?n = "length (rs_body r)"
  obtain q where q: "client_execute (head_text r @ b) False (HttpResponseParser_ctor client_scanner)
      = Inr (length (head_text r), b, \<lparr>sp_parser = q, sp_data = parsed_head r, sp_error = 0\<rparr>)" "hp_cs q = 120" "hp_chunked q = 0"
    using client_execute_head [OF assms(1) buffered [OF assms(6)]] by blast
  let ?p = "\<lparr>sp_parser = q, sp_data = parsed_head r, sp_error = 0\<rparr>" and ?s = "after_reading segs s"
  have "0 < length (head_text r)" by (simp add: head_text_def response_head_def)
  then have nonempty: "length b \<noteq> buff_size" "\<not> int (length (head_text r)) + int (length b) \<le> 0"
    using assms(6) [unfolded length_append] by linarith+
  have head: "recv_head (Suc fuel) (HttpResponseParser_ctor client_scanner) [] s = Some (Inr (Some (?p, b), ?s))"
    using st_read_segment [OF assms(3,4,6)] q finished_flags [of ?p] nonempty by simp
  have ok: "in_ok ?s" "in_data ?s = concat segs" using assms(3,5) by (simp_all add: in_ok_def in_data_def)
  have "\<exists>s'. recv_fixed (int ?n) b ?s = (Some (rs_body r), s') \<and> in_ok s' \<and> in_data s' = drop (?n - length b) (concat segs)"
  proof (cases "rs_body r = []")
    case True
    then show ?thesis using ok by (simp add: recv_fixed_def)
  next
    case False
    obtain zs where zs: "b @ concat segs = rs_body r @ zs" using assms(7) by (auto simp: is_prefix_iff)
    then have "length (b @ concat segs) = length (rs_body r @ zs)" by (rule arg_cong)
    moreover have "take ?n (b @ concat segs) = rs_body r" unfolding zs by simp
    ultimately show ?thesis using recv_body_spec [of ?s "int ?n" b] assms(2) False ok by (simp add: recv_fixed_def framed_def)
  qed
  then show ?thesis using head framed_length [OF assms(2), of q] q(3) by (auto simp: recvResponse_def)
qed

section \<open>Chunks\<close>

text \<open>A chunk is its size as it is written and its data.\<close>

definition chunk_ok :: "string \<times> string \<Rightarrow> bool" where
  "chunk_ok c \<longleftrightarrow> (case c of (ds, b) \<Rightarrow> ds \<noteq> [] \<and> list_all is_xdigit ds \<and> hex_value ds = length b \<and> length b + 2 < 2 ^ 31)"

definition chunk_text :: "string \<times> string \<Rightarrow> string" where
  "chunk_text c = (case c of (ds, b) \<Rightarrow> ds @ CRLF @ b @ CRLF)"

text \<open>The segments that are left when some bytes have been read.\<close>

fun drop_bytes :: "nat \<Rightarrow> string list \<Rightarrow> string list" where
  "drop_bytes n [] = []"
| "drop_bytes n (seg # segs) =
     (if n = 0 then seg # segs else if length seg \<le> n then drop_bytes (n - length seg) segs else drop n seg # segs)"

text \<open>
  No size line is split: when a chunk begins in an empty buffer the next segment has all
  of its size line, otherwise the buffer has.
\<close>

fun unsplit :: "(string \<times> string) list \<Rightarrow> string \<Rightarrow> string list \<Rightarrow> bool" where
  "unsplit [] data segs = True"
| "unsplit ((ds, b) # cs) data segs =
     (let cur = (if data = [] \<and> segs \<noteq> [] then hd segs else data); segs1 = (if data = [] then tl segs else segs);
          rest = drop (length ds + 2) cur in
      is_prefix (ds @ CRLF) cur \<and> length cur \<le> buff_size
      \<and> (if length b + 2 \<le> length rest then unsplit cs (drop (length b + 2) rest) segs1
         else unsplit cs [] (drop_bytes (length b + 2 - length rest) segs1)))"

lemma concat_drop_bytes: "concat (drop_bytes n segs) = drop n (concat segs)"
  by (induction n segs rule: drop_bytes.induct) auto

lemma drop_bytes_nonempty: "[] \<notin> set segs \<Longrightarrow> [] \<notin> set (drop_bytes n segs)"
  by (induction n segs rule: drop_bytes.induct) auto

lemma drop_bytes_0 [simp]: "drop_bytes 0 segs = segs"
  by (cases segs) auto

lemma drop_bytes_add: "[] \<notin> set segs \<Longrightarrow> drop_bytes m (drop_bytes n segs) = drop_bytes (n + m) segs"
proof (induction n segs rule: drop_bytes.induct)
  case (2 n seg segs)
  then show ?case by (cases "n = 0"; cases m) (auto simp: add.commute Suc_diff_le)
qed simp

lemma st_read_bytes:
  assumes "st_isConnected s" "incoming s \<noteq> []" "[] \<notin> set (incoming s)" "0 < n"
  obtains bs where "st_read n s = (int (length bs), bs, after_reading (drop_bytes (length bs) (incoming s)) s)"
    "bs \<noteq> []" "length bs \<le> n" "concat (incoming s) = bs @ drop (length bs) (concat (incoming s))"
proof -
  obtain seg segs where i: "incoming s = seg # segs" "seg \<noteq> []" using assms(2,3) by (cases "incoming s") auto
  have "st_read n s = (int (length (take n seg)), take n seg, after_reading (drop_bytes (length (take n seg)) (incoming s)) s)"
    using assms(1,4) i by (auto simp: st_read_def recv_def st_isConnected_def after_reading_def min_def split: option.splits)
  then show thesis using that [of "take n seg"] i assms(4) by (simp add: min_def)
qed

lemma read_left_spec:
  "st_isConnected s \<Longrightarrow> [] \<notin> set (incoming s) \<Longrightarrow> n \<le> length (concat (incoming s)) \<Longrightarrow>
   read_left (int n) body s = (Some (body @ take n (concat (incoming s))), after_reading (drop_bytes n (incoming s)) s)"
proof (induction n arbitrary: body s rule: less_induct)
  case (less n)
  show ?case
  proof (cases "n = 0")
    case True
    then show ?thesis by (simp add: read_left.simps after_reading_def)
  next
    case False
    let ?k = "min n buff_size"
    have k: "nat (if int n > int buff_size then int buff_size else int n) = ?k" "0 < ?k" using False by (auto simp: buff_size_def)
    have "incoming s \<noteq> []" using less.prems(3) False by auto
    then obtain bs where bs: "st_read ?k s = (int (length bs), bs, after_reading (drop_bytes (length bs) (incoming s)) s)"
      "bs \<noteq> []" "length bs \<le> ?k" "concat (incoming s) = bs @ drop (length bs) (concat (incoming s))"
      using st_read_bytes [OF less.prems(1) _ less.prems(2) k(2)] by blast
    let ?s = "after_reading (drop_bytes (length bs) (incoming s)) s" and ?m = "n - length bs"
    have m: "?m < n" "int n - int (length bs) = int ?m" "length bs + ?m = n" using bs(2,3) False by auto
    have c: "concat (incoming ?s) = drop (length bs) (concat (incoming s))" by (simp add: concat_drop_bytes)
    have "read_left (int n) body s = read_left (int ?m) (body @ bs) ?s"
    proof -
      have "\<not> int n \<le> 0" "\<not> int (length bs) \<le> 0" using False bs(2) by simp_all
      then show ?thesis unfolding read_left.simps [of "int n"] k(1) bs(1) m(2) [symmetric] by (simp only: if_False prod.case)
    qed
    also have "\<dots> = (Some ((body @ bs) @ take ?m (concat (incoming ?s))), after_reading (drop_bytes ?m (incoming ?s)) ?s)"
      by (rule less.IH [OF m(1)]) (use less.prems c in \<open>simp_all add: drop_bytes_nonempty\<close>)
    also have "(body @ bs) @ take ?m (concat (incoming ?s)) = body @ take n (concat (incoming s))"
    proof -
      have "take n (concat (incoming s)) = take (length bs) (concat (incoming s)) @ take ?m (drop (length bs) (concat (incoming s)))"
        using take_add [of "length bs" ?m "concat (incoming s)"] m(3) by simp
      moreover have "take (length bs) (concat (incoming s)) = bs" using bs(4) by (metis append_eq_conv_conj)
      ultimately show ?thesis unfolding c by simp
    qed
    also have "drop_bytes ?m (incoming ?s) = drop_bytes n (incoming s)"
      using drop_bytes_add [OF less.prems(2)] m(3) by simp
    finally show ?thesis by simp
  qed
qed

lemma size_line_execute:
  assumes "ds \<noteq> []" "list_all is_xdigit ds" "hex_value ds < 2 ^ 31" "length (ds @ CRLF @ rest) < 2 ^ 31"
  obtains q where "client_execute (ds @ CRLF @ rest) True p = Inr (length ds + 2, rest, p\<lparr>sp_parser := q\<rparr>)"
    "hp_cs q = 120" "hp_content_len q = int (hex_value ds)" "hp_chunks_done q = (if hex_value ds = 0 then 1 else 0)"
proof -
  obtain es q where e: "scan_response blank_parser (ds @ CRLF @ rest) = Inr (es, q, int (length ds + 2))" "hp_cs q = 120"
    "hp_content_len q = int (hex_value ds)" "hp_chunks_done q = (if hex_value ds = 0 then 1 else 0)"
    "\<And>P :: client_parser. fold response_callback es P = P"
    by (rule chunk_line_execute [OF assms(1-3) blank_parser_simps(1,2) assms(4)]) blast
  have "drop (length ds + 2) (ds @ CRLF @ rest) = rest" by (simp add: CRLF_def)
  then have "client_execute (ds @ CRLF @ rest) True p = Inr (length ds + 2, rest, p\<lparr>sp_parser := q\<rparr>)"
    using client_execute_ok [of True p "ds @ CRLF @ rest" es q "length ds + 2"] e(1,5) by simp
  then show thesis using that [of q] e(2-4) by simp
qed

lemma client_execute_chunk:
  assumes "chunk_ok (ds, b)" "length (ds @ CRLF @ rest) < 2 ^ 31"
  obtains q where "client_execute (ds @ CRLF @ rest) True p = Inr (length ds + 2, rest, p\<lparr>sp_parser := q\<rparr>)"
    "hp_cs q = 120" "hp_content_len q = int (length b)" "hp_chunks_done q \<noteq> 0 \<longleftrightarrow> b = []"
proof -
  have c: "ds \<noteq> []" "list_all is_xdigit ds" "hex_value ds < 2 ^ 31" "hex_value ds = length b" using assms(1) by (auto simp: chunk_ok_def)
  show thesis by (rule size_line_execute [OF c(1-3) assms(2), of p], rule that) (auto simp: c(4) split: if_splits)
qed

definition size_line_at :: "string \<Rightarrow> session \<Rightarrow> string \<times> session" where
  "size_line_at data s = (if data = [] \<and> incoming s \<noteq> [] then (hd (incoming s), after_reading (tl (incoming s)) s) else (data, s))"

lemma chunk_head_spec:
  assumes "chunk_ok (ds, b)" "in_ok s" "sp_error parser = 0"
    and "size_line_at data s = (ds @ CRLF @ rest, s1)" "length (ds @ CRLF @ rest) \<le> buff_size"
  obtains q where "chunk_head (Suc fuel) True parser data s = Some (Inr (Some (parser\<lparr>sp_parser := q\<rparr>, rest), s1))"
    "hp_content_len q = int (length b)" "hp_chunks_done q \<noteq> 0 \<longleftrightarrow> b = []"
proof -
  obtain q where q: "client_execute (ds @ CRLF @ rest) True parser = Inr (length ds + 2, rest, parser\<lparr>sp_parser := q\<rparr>)"
    "hp_cs q = 120" "hp_content_len q = int (length b)" "hp_chunks_done q \<noteq> 0 \<longleftrightarrow> b = []"
    using client_execute_chunk [OF assms(1) buffered [OF assms(5)]] by metis
  have ends: "\<not> sp_hasError client_scanner (parser\<lparr>sp_parser := q\<rparr>)" "sp_isFinished client_scanner (parser\<lparr>sp_parser := q\<rparr>) \<noteq> 0"
    using finished_flags [of "parser\<lparr>sp_parser := q\<rparr>"] q(2) assms(3) by simp_all
  have short: "length rest \<noteq> buff_size" using assms(5) by (simp add: CRLF_def)
  have "chunk_head (Suc fuel) True parser data s = Some (Inr (Some (parser\<lparr>sp_parser := q\<rparr>, rest), s1))"
  proof (cases "data = []")
    case True
    then have i: "incoming s = (ds @ CRLF @ rest) # tl (incoming s)" "s1 = after_reading (tl (incoming s)) s"
      using assms(4) by (cases "incoming s"; simp add: size_line_at_def CRLF_def)+
    have "st_read buff_size s = (int (length (ds @ CRLF @ rest)), ds @ CRLF @ rest, s1)"
      using st_read_segment [OF _ i(1) assms(5)] assms(2) i(2) by (simp add: in_ok_def)
    moreover have "\<not> int (length (ds @ CRLF @ rest)) \<le> 0" by (simp add: CRLF_def)
    ultimately show ?thesis using True q(1) ends short by (simp del: length_append append_assoc)
  next
    case False
    then have "data = ds @ CRLF @ rest" "s1 = s" using assms(4) by (auto simp: size_line_at_def)
    then show ?thesis using False q(1) ends short by (simp add: CRLF_def)
  qed
  then show thesis using that q(3,4) by blast
qed

lemma chunk_data_spec:
  assumes "in_ok s" "rest @ concat (incoming s) = b @ CRLF @ extra" "length b + 2 < 2 ^ 31"
  shows "chunk_data (int (length b)) body rest s
    = Inr (Some (body @ b, if length b + 2 \<le> length rest then drop (length b + 2) rest else []),
        if length b + 2 \<le> length rest then s else after_reading (drop_bytes (length b + 2 - length rest) (incoming s)) s)"
proof (cases "length b + 2 \<le> length rest")
  case True
  have "take (length b) rest = take (length b) (rest @ concat (incoming s))" using True by simp
  then have "take (length b) rest = b" unfolding assms(2) by simp
  then show ?thesis using True assms(3) by (simp add: chunk_data_def nat_add_distrib)
next
  case False
  let ?n = "length b + 2 - length rest"
  have len: "length rest + length (concat (incoming s)) = length b + 2 + length extra" using arg_cong [OF assms(2), of length] by (simp add: CRLF_def)
  have n: "int (length b) - int (length rest) + 2 = int ?n" using False by simp
  have "read_left (int ?n) (body @ rest) s = (Some ((body @ rest) @ take ?n (concat (incoming s))), after_reading (drop_bytes ?n (incoming s)) s)"
    by (rule read_left_spec) (use assms(1) len in \<open>simp_all add: in_ok_def\<close>)
  moreover have "rest @ take ?n (concat (incoming s)) = b @ CRLF"
  proof -
    have "rest @ take ?n (concat (incoming s)) = take (length b + 2) (rest @ concat (incoming s))" using False by simp
    also have "\<dots> = take (length (b @ CRLF)) ((b @ CRLF) @ extra)" unfolding assms(2) by (simp add: CRLF_def)
    also have "\<dots> = b @ CRLF" by (metis append_eq_conv_conj)
    finally show ?thesis .
  qed
  moreover have "drop_crlf (body @ b @ CRLF) = Inr (body @ b)" by (simp add: drop_crlf_def CRLF_def)
  ultimately have "read_left (int (length b) - int (length rest) + 2) (body @ rest) s
      = (Some (body @ b @ CRLF), after_reading (drop_bytes ?n (incoming s)) s)" "drop_crlf (body @ b @ CRLF) = Inr (body @ b)"
    unfolding n by simp_all
  then show ?thesis using False assms(3) unfolding chunk_data_def by simp
qed

text \<open>A whole chunked body: every chunk but the last has data, the last has none.\<close>

definition chunks_ok :: "(string \<times> string) list \<Rightarrow> bool" where
  "chunks_ok cs \<longleftrightarrow> cs \<noteq> [] \<and> list_all chunk_ok cs \<and> list_all (\<lambda>c. snd c \<noteq> []) (butlast cs) \<and> snd (last cs) = []"

lemma unsplit_first:
  assumes "unsplit ((ds, b) # cs) data (incoming s)" "size_line_at data s = (cur, s1)"
  shows "\<exists>rest. cur = ds @ CRLF @ rest \<and> length cur \<le> buff_size
    \<and> (if length b + 2 \<le> length rest then unsplit cs (drop (length b + 2) rest) (incoming s1)
       else unsplit cs [] (drop_bytes (length b + 2 - length rest) (incoming s1)))"
proof -
  have c: "cur = (if data = [] \<and> incoming s \<noteq> [] then hd (incoming s) else data)"
    "incoming s1 = (if data = [] then tl (incoming s) else incoming s)"
    using assms(2) by (auto simp: size_line_at_def split: if_splits)
  have u: "is_prefix (ds @ CRLF) cur" "length cur \<le> buff_size"
    "let rest = drop (length ds + 2) cur in
     if length b + 2 \<le> length rest then unsplit cs (drop (length b + 2) rest) (incoming s1)
       else unsplit cs [] (drop_bytes (length b + 2 - length rest) (incoming s1))"
    using assms(1) unfolding c unsplit.simps Let_def by blast+
  from u(1) obtain rest where r: "cur = ds @ CRLF @ rest" by (auto simp: is_prefix_iff)
  have "drop (length ds + 2) cur = rest" unfolding r by (simp add: CRLF_def)
  then show ?thesis using r u(2,3) unfolding Let_def by metis
qed

lemma size_line_data:
  assumes "in_ok s" "size_line_at data s = (cur, s1)"
  shows "in_ok s1" "cur @ concat (incoming s1) = data @ concat (incoming s)"
  using assms by (cases "incoming s"; auto simp: size_line_at_def in_ok_def split: if_splits)+

lemma recv_chunks_spec:
  "chunks_ok cs \<Longrightarrow> in_ok s \<Longrightarrow> data @ concat (incoming s) = concat (map chunk_text cs) @ extra \<Longrightarrow>
   unsplit cs data (incoming s) \<Longrightarrow> sp_error parser = 0 \<Longrightarrow>
   \<exists>q s'. recv_chunks (length cs) (Suc fuel) parser body data s
     = Some (Inr (Some (parser\<lparr>sp_parser := q\<rparr>, body @ concat (map snd cs)), s')) \<and> in_ok s'"
proof (induction cs arbitrary: data s parser body)
  case (Cons c cs)
  obtain ds b where c: "c = (ds, b)" by (cases c)
  obtain cur s1 where cur: "size_line_at data s = (cur, s1)" by fastforce
  obtain rest where rest: "cur = ds @ CRLF @ rest" "length cur \<le> buff_size"
    "if length b + 2 \<le> length rest then unsplit cs (drop (length b + 2) rest) (incoming s1)
       else unsplit cs [] (drop_bytes (length b + 2 - length rest) (incoming s1))"
    using unsplit_first [OF Cons.prems(4) [unfolded c] cur] by blast
  have ok: "chunk_ok (ds, b)" "length b + 2 < 2 ^ 31" using Cons.prems(1) by (auto simp: chunks_ok_def c chunk_ok_def)
  note s1 = size_line_data [OF Cons.prems(2) cur]
  obtain q where q: "chunk_head (Suc fuel) True parser data s = Some (Inr (Some (parser\<lparr>sp_parser := q\<rparr>, rest), s1))"
    "hp_content_len q = int (length b)" "hp_chunks_done q \<noteq> 0 \<longleftrightarrow> b = []"
    using chunk_head_spec [OF ok(1) Cons.prems(2,5) cur [unfolded rest(1)] rest(2) [unfolded rest(1)]] by metis
  have t: "rest @ concat (incoming s1) = b @ CRLF @ concat (map chunk_text cs) @ extra"
    using s1(2) Cons.prems(3) unfolding rest(1) by (simp add: c chunk_text_def [of "(ds, b)"])
  let ?data = "if length b + 2 \<le> length rest then drop (length b + 2) rest else []"
  let ?s = "if length b + 2 \<le> length rest then s1 else after_reading (drop_bytes (length b + 2 - length rest) (incoming s1)) s1"
  have d: "chunk_data (int (length b)) body rest s1 = Inr (Some (body @ b, ?data), ?s)"
    by (rule chunk_data_spec [OF s1(1) t ok(2)])
  have s2: "in_ok ?s" using s1(1) by (simp add: in_ok_def drop_bytes_nonempty)
  show ?case
  proof (cases "cs = []")
    case True
    then have "b = []" using Cons.prems(1) by (simp add: chunks_ok_def c)
    then show ?thesis using q d True s2 by (auto simp: c)
  next
    case False
    have cs: "chunks_ok cs" "b \<noteq> []" using Cons.prems(1) False by (auto simp: chunks_ok_def c)
    have "drop (length b + 2) (rest @ concat (incoming s1)) = concat (map chunk_text cs) @ extra" unfolding t by (simp add: CRLF_def)
    then have m: "?data @ concat (incoming ?s) = concat (map chunk_text cs) @ extra" by (auto simp: concat_drop_bytes)
    have u: "unsplit cs ?data (incoming ?s)" using rest(3) by (simp split: if_splits)
    have e: "sp_error (parser\<lparr>sp_parser := q\<rparr>) = 0" using Cons.prems(5) by simp
    obtain q' s' where r: "recv_chunks (length cs) (Suc fuel) (parser\<lparr>sp_parser := q\<rparr>) (body @ b) ?data ?s
        = Some (Inr (Some ((parser\<lparr>sp_parser := q\<rparr>)\<lparr>sp_parser := q'\<rparr>, (body @ b) @ concat (map snd cs)), s'))" "in_ok s'"
      using Cons.IH [OF cs(1) s2 m u e] by blast
    have "recv_chunks (length (c # cs)) (Suc fuel) parser body data s
        = recv_chunks (length cs) (Suc fuel) (parser\<lparr>sp_parser := q\<rparr>) (body @ b) ?data ?s"
      using q d cs(2) by (simp del: if_split)
    then show ?thesis using r by (auto simp: c simp del: if_split)
  qed
qed (simp add: chunks_ok_def)

lemma size_digits_execute:
  assumes "ds \<noteq> []" "list_all is_xdigit ds" "length ds < 2 ^ 31"
  obtains q where "client_execute ds True p = Inr (length ds, [], p\<lparr>sp_parser := q\<rparr>)" "hp_cs q = 2"
proof -
  let ?q = "blank_parser\<lparr>hp_nread := 0, hp_mark := 0, hp_field_len := 0, hp_field_start := 0\<rparr>"
  obtain d ds' where d: "ds = d # ds'" "is_xdigit d" "list_all is_xdigit ds'" using assms(1,2) by (cases ds) auto
  have m: "move rsp_machine 1 d = Some ([Mark], 2)"
    unfolding move_def rsp_fixed_rows using xdigit_range [OF d(2)] by (auto simp: rsp_trans char_val_ends)
  have "scan rsp_machine (rsp_act ds) 1 0 ds ?q = scan rsp_machine (rsp_act ds) 2 1 (ds' @ []) ?q"
    using scan_step [OF m, of "rsp_act ds" 0 ?q "[]" "?q" ds'] by (simp add: d(1) del: scan.simps)
  also have "\<dots> = ([], 2, length ds, ?q)" unfolding chunk_digits_scan [OF d(3)] by (simp add: d(1))
  finally have "scan_response blank_parser ds = Inr ([], ?q\<lparr>hp_cs := 2, hp_nread := length ds\<rparr>, int (length ds))"
    using execute_frame [of ds blank_parser] assms(1,3) by simp
  then have "client_execute ds True p = Inr (length ds, [], p\<lparr>sp_parser := ?q\<lparr>hp_cs := 2, hp_nread := length ds\<rparr>\<rparr>)"
    using client_execute_ok [of True p ds "[]" _ "length ds"] by simp
  then show thesis by (rule that) simp
qed

lemma unfinished_flags:
  assumes "hp_cs (sp_parser p) = 2" "sp_error p = 0"
  shows "\<not> sp_hasError client_scanner p" "sp_isFinished client_scanner p = 0"
  using assms by (simp_all add: sp_hasError_def sp_isFinished_def httpclient_parser_has_error_def httpclient_parser_finish_def
      httpclient_parser_is_finished_def)

lemma CR_execute:
  assumes "sp_parser p = blank_parser" "length (CR # rest) < 2 ^ 31"
  obtains q where "client_execute (CR # rest) False p = Inr (0, CR # rest, p\<lparr>sp_parser := q\<rparr>)" "hp_cs q = 0"
proof -
  let ?q = "blank_parser\<lparr>hp_nread := 0, hp_mark := 0, hp_field_len := 0, hp_field_start := 0\<rparr>"
  have "move rsp_machine 1 CR = Some ([], 0)" unfolding move_def rsp_fixed_rows by (simp add: char_val_ends)
  then have "scan rsp_machine (rsp_act (CR # rest)) 1 0 (CR # rest) ?q = ([], 0, 0, ?q)" by simp
  then have "scan_response blank_parser (CR # rest) = Inr ([], ?q\<lparr>hp_cs := 0, hp_nread := 0\<rparr>, int 0)"
    using execute_frame [of "CR # rest" blank_parser] assms(2) by simp
  then have "client_execute (CR # rest) False p = Inr (0, CR # rest, p\<lparr>sp_parser := ?q\<lparr>hp_cs := 0, hp_nread := 0\<rparr>\<rparr>)"
    using client_execute_ok [of False p "CR # rest" "[]" _ 0] assms by simp
  then show thesis by (rule that) simp
qed

lemma CR_rejected:
  assumes "in_ok s" "in_data s = CR # extra"
  shows "\<exists>s'. recvResponse lexical_cast rounds (Suc fuel) s = Some (Inr (None, s')) \<and> \<not> st_isConnected s'"
proof -
  let ?p = "HttpResponseParser_ctor client_scanner"
  have i: "st_isConnected s" "incoming s \<noteq> []" "[] \<notin> set (incoming s)" "concat (incoming s) = CR # extra"
    using assms by (auto simp: in_ok_def in_data_def)
  obtain bs where bs: "st_read buff_size s = (int (length bs), bs, after_reading (drop_bytes (length bs) (incoming s)) s)"
    "bs \<noteq> []" "length bs \<le> buff_size" "concat (incoming s) = bs @ drop (length bs) (concat (incoming s))"
    using st_read_bytes [OF i(1-3), of buff_size] by (auto simp: buff_size_def)
  obtain rest where rest: "bs = CR # rest" using bs(2,4) i(4) by (cases bs) auto
  obtain q where q: "client_execute (CR # rest) False ?p = Inr (0, CR # rest, ?p\<lparr>sp_parser := q\<rparr>)" "hp_cs q = 0"
    using CR_execute [of ?p rest] buffered [OF bs(3)] rest by (auto simp: HttpResponseParser_ctor_def)
  have "sp_hasError client_scanner (?p\<lparr>sp_parser := q\<rparr>)" using q(2) by (simp add: sp_hasError_def httpclient_parser_has_error_def)
  then have "recv_head (Suc fuel) ?p [] s = Some (Inr (None, st_close (after_reading (drop_bytes (length bs) (incoming s)) s)))"
    using bs(1) q(1) rest by simp
  then show ?thesis by (simp add: recvResponse_def)
qed

lemma dump_received:
  assumes "response_ok r" "framed lexical_cast r"
    and "in_ok s" "incoming s = (head_text r @ b) # segs" "length (head_text r @ b) \<le> buff_size" "in_data s = rs_dump r @ extra"
  shows "\<exists>s'. recvResponse lexical_cast rounds (Suc fuel) s = Some (Inr (Some ((parsed_head r)\<lparr>rs_body := rs_body r\<rparr>), s'))
    \<and> in_ok s' \<and> (length b \<le> length (rs_body r) \<longrightarrow> in_data s' = (if rs_body r = [] then [] else CRLF) @ extra)"
proof -
  let ?tail = "(if rs_body r = [] then [] else CRLF) @ extra"
  have e: "b @ concat segs = rs_body r @ ?tail"
    using assms(4,6) dump_text [OF assms(1)] by (simp add: in_data_def split: if_splits)
  have "drop (length (rs_body r) - length b) (concat segs) = ?tail" if "length b \<le> length (rs_body r)"
  proof -
    have "drop (length (rs_body r)) (b @ concat segs) = ?tail" unfolding e by simp
    then show ?thesis using that by simp
  qed
  moreover have "st_isConnected s" "[] \<notin> set segs" "is_prefix (rs_body r) (b @ concat segs)"
    using assms(3,4) e by (auto simp: in_ok_def is_prefix_iff)
  ultimately show ?thesis
    using response_received [where lexical_cast = lexical_cast and rounds = rounds and fuel = fuel, OF assms(1,2) _ assms(4) _ assms(5)] by metis
qed

text \<open>
  C12: The client reads what the server prints.  The response is of version 1.0 or 1.1 (the
  version 0 of a new one is refused as malformed), its printed reason has a character and no
  line end, its headers, \<^verbatim>\<open>connection\<close> aside, have names and values
  that the scanner's syntax allows and none is \<^verbatim>\<open>transfer-encoding\<close>; its body, if it has one,
  is shorter than 2^31 and \<^verbatim>\<open>lexical_cast\<close> reads the digits of its length, and if it has none it
  has no \<^verbatim>\<open>content-length\<close> header.  When the head
  of such a response, as it is printed, arrives in one piece that the buffer has room for,
  the response that \<^verbatim>\<open>recvResponse\<close> returns has its version, status, printed reason and body,
  however the rest is divided into segments, and each header except \<^verbatim>\<open>connection\<close> and
  \<^verbatim>\<open>content-length\<close>.
\<close>

theorem response_read_back:
  assumes "response_ok r" "framed lexical_cast r" "smap CaseInsensitiveLess (rs_headers r)"
    and "in_ok s" "incoming s = (head_text r @ b) # segs" "length (head_text r @ b) \<le> buff_size" "in_data s = rs_dump r @ extra"
  shows "\<exists>rsp s'. recvResponse lexical_cast rounds (Suc fuel) s = Some (Inr (Some rsp, s'))
    \<and> rs_version rsp = rs_version r \<and> rs_status rsp = rs_status r \<and> rs_reason rsp = printed_reason r \<and> rs_body rsp = rs_body r
    \<and> (\<forall>k. strcasecmp (c_str ''connection'') (c_str k) \<noteq> 0 \<longrightarrow> strcasecmp (c_str ''content-length'') (c_str k) \<noteq> 0 \<longrightarrow>
         rs_getHeaderEntry k rsp = rs_getHeaderEntry k r)"
proof -
  have "rs_getHeaderEntry k ((parsed_head r)\<lparr>rs_body := b\<rparr>) = rs_getHeaderEntry k r"
    if "strcasecmp (c_str ''connection'') (c_str k) \<noteq> 0" "strcasecmp (c_str ''content-length'') (c_str k) \<noteq> 0" for b k
    using parsed_header [OF assms(3), of k] that by (simp add: rs_getHeaderEntry_def find_or_empty_def)
  moreover have "rs_version (parsed_head r) = rs_version r" "rs_status (parsed_head r) = rs_status r" "rs_reason (parsed_head r) = printed_reason r"
    by (simp_all add: parsed_head_def)
  ultimately show ?thesis using dump_received [where lexical_cast = lexical_cast and rounds = rounds and fuel = fuel, OF assms(1,2,4-7)] by fastforce
qed

text \<open>
  The line end after a body breaks a kept connection.  The server prints a line end
  after the body that the length does not count.  When the client has read a response
  whose first segment ended within the body, its next call of \<^verbatim>\<open>recvResponse\<close> finds that
  line end, takes it for a malformed response, closes the connection and returns null,
  whatever follows.
\<close>

theorem line_end_breaks_next:
  assumes "response_ok r" "rs_body r \<noteq> []" "framed lexical_cast r"
    and "in_ok s" "incoming s = (head_text r @ b) # segs" "length (head_text r @ b) \<le> buff_size" "in_data s = rs_dump r @ extra"
    and "length b \<le> length (rs_body r)"
  shows "\<exists>rsp s' s''. recvResponse lexical_cast rounds (Suc fuel) s = Some (Inr (Some rsp, s'))
    \<and> recvResponse lexical_cast rounds (Suc fuel) s' = Some (Inr (None, s'')) \<and> \<not> st_isConnected s''"
proof -
  obtain s' where s': "recvResponse lexical_cast rounds (Suc fuel) s = Some (Inr (Some ((parsed_head r)\<lparr>rs_body := rs_body r\<rparr>), s'))"
    "in_ok s'" "in_data s' = CRLF @ extra"
    using dump_received [where lexical_cast = lexical_cast and rounds = rounds and fuel = fuel, OF assms(1,3-7)] assms(2,8) by auto
  then have "in_data s' = CR # LF # extra" by (simp add: CRLF_def)
  then show ?thesis using CR_rejected [OF s'(2)] s'(1) by blast
qed

text \<open>
  C15: A chunked body is put together.  When the chunks follow, each a size line, its data
  and a line end, the last empty, and no size line is split over two reads, the body is
  the data of the chunks in order, for any division into segments.
\<close>

theorem chunked_body_received:
  assumes "chunks_ok cs" "in_ok s" "data @ in_data s = concat (map chunk_text cs) @ extra" "unsplit cs data (incoming s)" "sp_error parser = 0"
  shows "\<exists>q s'. recv_chunks (length cs) (Suc fuel) parser [] data s
    = Some (Inr (Some (parser\<lparr>sp_parser := q\<rparr>, concat (map snd cs)), s')) \<and> in_ok s'"
  using recv_chunks_spec [OF assms(1,2) _ assms(4,5), of extra fuel "[]"] assms(3) by (simp add: in_data_def)

text \<open>
  A split size line is misread.  When the digits of a chunk's size arrive in two
  reads, the parser is initialised again for the second: the size is that of the digits
  in the second read alone.
\<close>

theorem split_size_line:
  assumes "d1 \<noteq> []" "list_all is_xdigit d1" "d2 \<noteq> []" "list_all is_xdigit d2" "hex_value d2 < 2 ^ 31"
    and "in_ok s" "incoming s = d1 # (d2 @ CRLF @ rest) # segs" "length d1 \<le> buff_size" "length (d2 @ CRLF @ rest) \<le> buff_size" "sp_error parser = 0"
  shows "\<exists>q s'. chunk_head (Suc (Suc fuel)) True parser [] s = Some (Inr (Some (parser\<lparr>sp_parser := q\<rparr>, rest), s'))
    \<and> hp_content_len q = int (hex_value d2)"
proof -
  let ?s = "after_reading ((d2 @ CRLF @ rest) # segs) s"
  obtain q where q: "client_execute d1 True parser = Inr (length d1, [], parser\<lparr>sp_parser := q\<rparr>)" "hp_cs q = 2"
    using size_digits_execute [OF assms(1,2) buffered [OF assms(8)]] by metis
  obtain q' where q': "client_execute (d2 @ CRLF @ rest) True (parser\<lparr>sp_parser := q\<rparr>)
      = Inr (length d2 + 2, rest, (parser\<lparr>sp_parser := q\<rparr>)\<lparr>sp_parser := q'\<rparr>)"
    "hp_cs q' = 120" "hp_content_len q' = int (hex_value d2)"
    using size_line_execute [OF assms(3-5) buffered [OF assms(9)]] by metis
  have flags: "\<not> sp_hasError client_scanner (parser\<lparr>sp_parser := q\<rparr>)" "sp_isFinished client_scanner (parser\<lparr>sp_parser := q\<rparr>) = 0"
    "\<not> sp_hasError client_scanner (parser\<lparr>sp_parser := q'\<rparr>)" "sp_isFinished client_scanner (parser\<lparr>sp_parser := q'\<rparr>) = 1"
    using unfinished_flags [of "parser\<lparr>sp_parser := q\<rparr>"] finished_flags [of "parser\<lparr>sp_parser := q'\<rparr>"] q(2) q'(2) assms(10) by simp_all
  have reads: "st_read buff_size s = (int (length d1), d1, ?s)"
    "st_read buff_size ?s = (int (length (d2 @ CRLF @ rest)), d2 @ CRLF @ rest, after_reading segs s)"
    using st_read_segment [OF _ assms(7,8)] st_read_segment [of ?s "d2 @ CRLF @ rest" segs buff_size] assms(6,9) by (simp_all add: in_ok_def)
  have len: "\<not> int (length d1) \<le> 0" "\<not> int (length (d2 @ CRLF @ rest)) \<le> 0" "length rest \<noteq> buff_size" "0 \<noteq> buff_size"
    using assms(1,3,9) by (simp_all add: CRLF_def buff_size_def)
  have "chunk_head (Suc fuel) False (parser\<lparr>sp_parser := q\<rparr>) [] ?s = Some (Inr (Some (parser\<lparr>sp_parser := q'\<rparr>, rest), after_reading segs s))"
    using reads(2) q'(1) flags(3,4) len(2,3) by (simp del: length_append)
  then have "chunk_head (Suc (Suc fuel)) True parser [] s = Some (Inr (Some (parser\<lparr>sp_parser := q'\<rparr>, rest), after_reading segs s))"
    using reads(1) q(1) flags(1,2) len(1,4) by (simp del: chunk_head.simps add: chunk_head.simps(2) [of "Suc fuel"])
  then show ?thesis using q'(3) by blast
qed

definition demo_response :: http_response where
  "demo_response = (HttpResponse_ctor status_OK 0x11 False)\<lparr>rs_reason := ''OK'', rs_body := ''hi'', rs_headers := [(''server'', ''q'')]\<rparr>"

definition demo_cast :: "string \<Rightarrow> u64 option" where
  "demo_cast s = (if s = ''2'' then Some 2 else None)"

lemma show_digit: "show_nat (Suc (Suc 0)) = ''2''" "show_nat 200 = ''200''"
  by (simp_all add: show_nat_def show_base.simps digit_char_def char_of_def bit_Suc_0_iff numeral_2_eq_2 [symmetric])

lemma demo_response_facts:
  "response_ok demo_response" "rs_body demo_response = ''hi''" "length (head_text demo_response @ ''h'') \<le> buff_size"
  "smap CaseInsensitiveLess (rs_headers demo_response)" "framed demo_cast demo_response"
proof -
  have "header_ok ''server'' ''q''"
    by (simp add: header_ok_def is_token_def in_ranges_def token_ranges_def char_val_def lower_name_def lower_int_def te_codes_def is_blank_def special_chars)
  then show "response_ok demo_response"
    by (simp add: response_ok_def demo_response_def printed_reason_def HttpResponse_ctor_def special_chars)
  show "rs_body demo_response = ''hi''" by (simp add: demo_response_def)
  show "length (head_text demo_response @ ''h'') \<le> buff_size"
    by (simp add: head_text_def response_head_def printed_headers_def printed_reason_def demo_response_def headers_text_def header_text_def
        HttpResponse_ctor_def status_OK_def CRLF_def show_digit buff_size_def)
  show "smap CaseInsensitiveLess (rs_headers demo_response)" by (simp add: demo_response_def smap_def)
  show "framed demo_cast demo_response" by (simp add: framed_def demo_cast_def demo_response_def show_digit)
qed

abbreviation demo_in :: session where
  "demo_in \<equiv> demo_stream [head_text demo_response @ ''h'', ''i'' @ CRLF]"

lemma demo_in_facts:
  "in_ok demo_in" "incoming demo_in = (head_text demo_response @ ''h'') # [''i'' @ CRLF]" "in_data demo_in = rs_dump demo_response @ []"
  by (simp_all add: in_ok_def in_data_def demo_stream_def SockStream_ctor_def st_isConnected_def dump_text [OF demo_response_facts(1)] demo_response_facts(2))

theorem response_read_back_witness:
  "\<exists>rsp s'. recvResponse demo_cast 0 1 demo_in = Some (Inr (Some rsp, s')) \<and> rs_body rsp = ''hi'' \<and> rs_status rsp = status_OK
     \<and> rs_getHeaderEntry ''Server'' rsp = ''q''"
proof -
  have "strcasecmp (c_str ''connection'') (c_str ''Server'') \<noteq> 0" "strcasecmp (c_str ''content-length'') (c_str ''Server'') \<noteq> 0"
    "rs_getHeaderEntry ''Server'' demo_response = ''q''" "rs_status demo_response = status_OK"
    by (simp_all add: c_str_def lower_code_def to_lower_def is_upper_def rs_getHeaderEntry_def find_or_empty_def demo_response_def CaseInsensitiveLess_def HttpResponse_ctor_def special_chars)
  then show ?thesis
    using response_read_back [where lexical_cast = demo_cast and rounds = 0 and fuel = 0, OF demo_response_facts(1,5,4) demo_in_facts(1,2) demo_response_facts(3) demo_in_facts(3)]
    by (auto simp: demo_response_facts(2))
qed

theorem line_end_breaks_next_witness:
  "\<exists>rsp s' s''. recvResponse demo_cast 0 1 demo_in = Some (Inr (Some rsp, s')) \<and> recvResponse demo_cast 0 1 s' = Some (Inr (None, s''))"
  using line_end_breaks_next [where lexical_cast = demo_cast and rounds = 0 and fuel = 0, OF demo_response_facts(1) _ demo_response_facts(5) demo_in_facts(1,2) demo_response_facts(3) demo_in_facts(3)]
  by (auto simp: demo_response_facts(2))

lemma demo_digits: "is_xdigit (CHR ''3'')" "is_xdigit (CHR ''0'')" "list_all is_xdigit ''3''" "list_all is_xdigit ''0''" "list_all is_xdigit ''1''" "hex_value ''3'' = 3" "hex_value ''0'' = 0"
  by (simp_all add: is_xdigit_def xdigit_val_def hex_value_def)

theorem chunked_body_received_witness:
  "\<exists>parser s'. recv_chunks 2 1 (HttpResponseParser_ctor client_scanner) [] [] (demo_stream [''3'' @ CRLF @ ''ab'', ''c'' @ CRLF, ''0'' @ CRLF @ CRLF])
     = Some (Inr (Some (parser, ''abc''), s'))"
proof -
  let ?cs = "[(''3'', ''abc''), (''0'', [])]" and ?s = "demo_stream [''3'' @ CRLF @ ''ab'', ''c'' @ CRLF, ''0'' @ CRLF @ CRLF]"
  have "chunks_ok ?cs" "in_ok ?s" "[] @ in_data ?s = concat (map chunk_text ?cs) @ []" "unsplit ?cs [] (incoming ?s)"
    "sp_error (HttpResponseParser_ctor client_scanner) = 0"
    by (simp_all add: chunks_ok_def chunk_ok_def demo_digits in_ok_def in_data_def demo_stream_def SockStream_ctor_def st_isConnected_def chunk_text_def
        CRLF_def is_prefix_iff buff_size_def HttpResponseParser_ctor_def)
  from chunked_body_received [OF this, of 0] show ?thesis by (auto simp: numeral_2_eq_2 simp del: recv_chunks.simps)
qed

theorem split_size_line_witness:
  "\<exists>parser s'. chunk_head 2 True (HttpResponseParser_ctor client_scanner) [] (demo_stream [''1'', ''3'' @ CRLF @ ''ab''])
     = Some (Inr (Some (parser, ''ab''), s')) \<and> hp_content_len (sp_parser parser) = 3"
proof -
  let ?s = "demo_stream [''1'', ''3'' @ CRLF @ ''ab'']"
  have "in_ok ?s" "incoming ?s = ''1'' # (''3'' @ CRLF @ ''ab'') # []" "sp_error (HttpResponseParser_ctor client_scanner) = 0"
    by (simp_all add: in_ok_def demo_stream_def SockStream_ctor_def st_isConnected_def CRLF_def HttpResponseParser_ctor_def)
  then obtain q s' where "chunk_head (Suc (Suc 0)) True (HttpResponseParser_ctor client_scanner) [] ?s
      = Some (Inr (Some ((HttpResponseParser_ctor client_scanner)\<lparr>sp_parser := q\<rparr>, ''ab''), s'))" "hp_content_len q = int (hex_value ''3'')"
    using split_size_line [OF _ demo_digits(5) _ demo_digits(3), of ?s "''ab''" "[]" "HttpResponseParser_ctor client_scanner" 0] by (auto simp: demo_digits CRLF_def buff_size_def simp del: chunk_head.simps)
  then show ?thesis
    by (intro exI [of _ "(HttpResponseParser_ctor client_scanner)\<lparr>sp_parser := q\<rparr>"] exI [of _ s'])
      (simp add: numeral_2_eq_2 demo_digits del: chunk_head.simps)
qed

section \<open>Requests\<close>

lemma request_headers_frame:
  "request_headers hs h req = (h', req') \<Longrightarrow>
     rq_method req' = rq_method req \<and> rq_url req' = rq_url req \<and> rq_version req' = rq_version req"
  by (induction hs h req arbitrary: h' req' rule: request_headers.induct) (auto simp: Let_def rq_setHeaderEntry_def split: if_splits)

lemma request_headers_host:
  "list_all (\<lambda>(k, v). strcasecmp (c_str k) ''host'' \<noteq> 0) hs \<Longrightarrow> request_headers hs False req = (h', req') \<Longrightarrow> \<not> h'"
  by (induction hs "False" req arbitrary: h' req' rule: request_headers.induct) (auto split: if_splits)

lemma request_headers_map:
  "request_headers hs h req = (h', req') \<Longrightarrow> smap CaseInsensitiveLess (rq_headers req) \<Longrightarrow> smap CaseInsensitiveLess (rq_headers req')"
  by (induction hs h req arbitrary: h' req' rule: request_headers.induct)
    (auto simp: Let_def rq_setHeaderEntry_def ci.smap_put_smap split: if_splits)

lemma version_zero: "version_text 0 = ''0.0''"
  by (simp add: version_text_def show_nat_def show_base.simps digit_char_def char_of_def bit_Suc_0_iff)

lemma request_line_empty:
  "(\<exists>rest. rq_dump (uri_request method u headers body) = HttpMethodToString method @ ''  HTTP/0.0'' @ CRLF @ rest)
   \<and> (\<exists>rest. rq_dump (pool_request method path headers body p) = HttpMethodToString method @ ''  HTTP/0.0'' @ CRLF @ rest)"
proof -
  have r: "\<exists>rest. rq_dump r = HttpMethodToString m @ ''  HTTP/0.0'' @ CRLF @ rest"
    if "rq_method r = m" "rq_url r = []" "rq_version r = 0" for r m
    using that by (auto simp: rq_dump_def version_zero)
  show ?thesis unfolding uri_request_def pool_request_def
    by (intro conjI r) (auto simp: Let_def rq_setHeaderEntry_def HttpRequest_default_def split: prod.splits dest!: request_headers_frame)
qed

text \<open>
  A request is sent without its target.  The request of the client for a URI, and of
  the pool for a path, is printed with an empty target and as HTTP 0.0, whatever the URI,
  the path, the headers and the body: the printed members are never set.
\<close>

theorem request_line_lost:
  "(\<exists>rest. rq_dump (uri_request method u headers body) = HttpMethodToString method @ ''  HTTP/0.0'' @ CRLF @ rest)
   \<and> (\<exists>rest. rq_dump (pool_request method path headers body p) = HttpMethodToString method @ ''  HTTP/0.0'' @ CRLF @ rest)"
  by (rule request_line_empty)

text \<open>
  A request names the host.  When no \<^verbatim>\<open>host\<close> header is given, the request for a URI has
  the URI's host, and the one of a pool the pool's virtual host or, without one, its host.
\<close>

theorem request_names_host:
  assumes "list_all (\<lambda>(k, v). strcasecmp (c_str k) ''host'' \<noteq> 0) headers"
  shows "rq_getHeaderEntry ''host'' (uri_request method u headers body) = u_host u
    \<and> rq_getHeaderEntry ''host'' (pool_request method path headers body p) = (if pl_vhost p = [] then pl_host p else pl_vhost p)"
proof -
  have "key_equiv CaseInsensitiveLess ''Host'' ''host''"
    by (simp add: key_equiv_ci c_str_def special_chars lower_code_def to_lower_def is_upper_def)
  then have g: "rq_getHeaderEntry ''host'' ((rq_setHeaderEntry ''Host'' v r)\<lparr>rq_body := b\<rparr>) = v" if "smap CaseInsensitiveLess (rq_headers r)" for v r b
    using that by (simp add: rq_getHeaderEntry_def find_or_empty_def rq_setHeaderEntry_def ci.find_put)
  have "smap CaseInsensitiveLess (rq_headers HttpRequest_default)" by (simp add: HttpRequest_default_def)
  then show ?thesis unfolding uri_request_def pool_request_def
    using request_headers_host [OF assms] request_headers_map g by (auto simp: Let_def split: prod.splits)
qed

definition demo_uri :: uri where
  "demo_uri = \<lparr>u_scheme = ''http'', u_userinfo = [], u_host = ''sylar.top'', u_path = ''/'', u_query = [], u_fragment = [], u_port = 0\<rparr>"

theorem request_names_host_witness:
  "rq_getHeaderEntry ''host'' (uri_request method_GET demo_uri [(''Accept'', ''*'')] []) = ''sylar.top''"
  using request_names_host [of "[(''Accept'', ''*'')]" method_GET demo_uri "[]"]
  by (simp add: demo_uri_def c_str_def special_chars lower_code_def to_lower_def is_upper_def)

section \<open>What an exchange keeps\<close>

text \<open>Sending leaves what is to be received alone: the sink's contract, with the input fixed.\<close>

definition duplex_ok :: "string list \<Rightarrow> session \<Rightarrow> bool" where
  "duplex_ok segs s \<longleftrightarrow> out_ok s \<and> incoming s = segs \<and> st_ower s"

interpretation duplex: sink st_write out_data "duplex_ok segs" for segs
proof unfold_locales
  fix s :: session and data len s'
  assume a: "duplex_ok segs s" "data \<noteq> []" "st_write data s = (len, s')"
  then have o: "out_ok s" by (simp add: duplex_ok_def)
  have "incoming s' = incoming s" "st_ower s' = st_ower s"
    using a(3) by (auto simp: st_write_def Socket.send_def Let_def split: if_splits option.splits prod.splits)
  then show "duplex_ok segs s' \<and> 0 < len \<and> len \<le> int (length data) \<and> out_data s' = out_data s @ take (nat len) data"
    using snk.wr_ok [OF o a(2,3)] a(1) by (simp add: duplex_ok_def)
qed

lemma sendRequest_spec:
  assumes "duplex_ok segs s" "length (rq_dump r) < 2 ^ 31"
  shows "\<exists>s'. sendRequest r s = (int (length (rq_dump r)), s') \<and> duplex_ok segs s' \<and> out_data s' = out_data s @ rq_dump r"
  using duplex.writeFixSize_spec [OF assms] assms(2) by (auto simp: sendRequest_def Let_def int_of_size_small)

lemma dump_positive: "0 < length (rq_dump r)"
  by (simp add: rq_dump_def)

text \<open>What receiving keeps: the bytes that were sent, and who closes the socket.\<close>

definition kept :: "'x sock_stream \<Rightarrow> 'x list \<times> nat list \<times> bool" where
  "kept s = (out_data s, c_caps (st_conn s), st_ower s)"

lemma kept_close [simp]: "kept (st_close s) = kept s"
  by (simp add: kept_def st_close_def out_data_def)

lemma after_reading_kept [simp]: "kept (after_reading segs s) = kept s"
  by (simp add: kept_def after_reading_def out_data_def)

lemma st_read_kept [simp]: "st_read n s = (k, bs, s') \<Longrightarrow> kept s' = kept s"
  by (auto simp: st_read_def Socket.recv_def kept_def out_data_def split: if_splits list.splits prod.splits)

lemma read_loop_kept: "read_loop st_read left bs s = (e, bs', s') \<Longrightarrow> kept s' = kept s" for bs :: "'x list"
  by (induction "st_read :: nat \<Rightarrow> 'x sock_stream \<Rightarrow> int \<times> 'x list \<times> 'x sock_stream" left bs s arbitrary: e bs' s' rule: read_loop.induct)
    (force simp: read_loop.simps split: if_splits prod.splits)

lemma recv_body_kept: "recv_body len rest s = (r, s') \<Longrightarrow> kept s' = kept s"
  by (auto simp: recv_body_def readFixSize_def Let_def dest: read_loop_kept split: if_splits prod.splits option.splits)

lemma recv_head_kept: "recv_head fuel parser data s = Some (Inr (r, s')) \<Longrightarrow> kept s' = kept s"
  by (induction fuel parser data s arbitrary: r s' rule: recv_head.induct)
    (auto split: if_splits prod.splits sum.splits)

lemma chunk_head_kept: "chunk_head fuel bg parser data s = Some (Inr (r, s')) \<Longrightarrow> kept s' = kept s"
proof (induction fuel arbitrary: bg parser data s)
  case (Suc fuel)
  obtain rt bs s1 where rd: "(if \<not> bg \<or> data = [] then st_read (buff_size - length data) s else (1, [], s)) = (rt, bs, s1)" by (metis surj_pair)
  then have "kept s1 = kept s" by (auto split: if_splits)
  then show ?case using Suc by (auto simp: rd split: if_splits prod.splits sum.splits)
qed simp

lemma read_left_kept: "read_left left body s = (r, s') \<Longrightarrow> kept s' = kept s"
  by (induction left body s arbitrary: r s' rule: read_left.induct) (force simp: read_left.simps split: if_splits prod.splits)

lemma recv_chunks_kept: "recv_chunks rounds fuel parser body data s = Some (Inr (r, s')) \<Longrightarrow> kept s' = kept s"
proof (induction rounds arbitrary: parser body data s)
  case (Suc rounds)
  then show ?case
    by (auto simp: chunk_data_def result_simps split: option.splits sum.splits prod.splits if_splits dest!: chunk_head_kept read_left_kept)
qed simp

lemma recvResponse_kept:
  assumes "recvResponse lexical_cast rounds fuel s = Some (Inr (r, s'))"
  shows "kept s' = kept s"
  using assms
  by (auto simp: recvResponse_def recv_fixed_def result_simps split: option.splits sum.splits prod.splits if_splits
      dest!: recv_head_kept recv_chunks_kept recv_body_kept)

end
