(* ===== verification/RequestLines.thy ===== *)
theory RequestLines
  imports RequestScanner HttpClient
begin

text \<open>
  What the server makes of the bytes a client sends (\<^verbatim>\<open>HttpSession::recvRequest\<close>, defined
  in \<open>HttpServer\<close>, over the scanner of \<open>RequestScanner\<close>): a printed request is read back, a
  query that is split over two reads throws, and a request line with the version that this
  library's client prints is rejected.  The scan is composed of phases, one for each part
  of a request.
\<close>

section \<open>Phases\<close>

text \<open>The scan of a part of the buffer: from one state to another, with the calls' effect on the request.\<close>

definition same_req :: "http_parser \<Rightarrow> http_parser \<Rightarrow> bool" where
  "same_req q q' \<longleftrightarrow> hq_xml_sent q' = hq_xml_sent q \<and> hq_json_sent q' = hq_json_sent q \<and> hq_fail q' = hq_fail q \<and> hq_body_start q' = hq_body_start q"

definition phase :: "bool \<Rightarrow> string \<Rightarrow> nat \<Rightarrow> nat \<Rightarrow> string \<Rightarrow> nat \<Rightarrow> (http_request \<Rightarrow> http_request) \<Rightarrow> bool" where
  "phase relaxed buf s p w s' f \<longleftrightarrow> (\<forall>rest q. drop p buf = w @ rest \<longrightarrow>
     (\<exists>es q'. scan (req_machine relaxed) (req_act buf) s p (w @ rest) q
        = prepend es (scan (req_machine relaxed) (req_act buf) s' (p + length w) rest q')
      \<and> same_req q q' \<and> (\<forall>P :: http_parser request_parser. fold request_callback es P = P\<lparr>rp_data := f (rp_data P)\<rparr>)))"

lemma phaseI:
  assumes "\<And>rest q. drop p buf = w @ rest \<Longrightarrow> \<exists>es q'. scan (req_machine relaxed) (req_act buf) s p (w @ rest) q
        = prepend es (scan (req_machine relaxed) (req_act buf) s' (p + length w) rest q')
      \<and> same_req q q' \<and> (\<forall>P :: http_parser request_parser. fold request_callback es P = P\<lparr>rp_data := f (rp_data P)\<rparr>)"
  shows "phase relaxed buf s p w s' f"
  using assms by (simp add: phase_def)

lemma phase_seq:
  assumes "phase relaxed buf s p w s1 f" "phase relaxed buf s1 (p + length w) w' s2 g"
  shows "phase relaxed buf s p (w @ w') s2 (\<lambda>r. g (f r))"
proof (rule phaseI)
  fix rest q
  assume d: "drop p buf = (w @ w') @ rest"
  let ?scan = "scan (req_machine relaxed) (req_act buf)"
  obtain es q1 where 1: "?scan s p (w @ w' @ rest) q = prepend es (?scan s1 (p + length w) (w' @ rest) q1)" "same_req q q1"
    "\<And>P :: http_parser request_parser. fold request_callback es P = P\<lparr>rp_data := f (rp_data P)\<rparr>"
    using assms(1) d unfolding phase_def append_assoc by blast
  have "drop (p + length w) buf = drop (length w) (drop p buf)" by (simp add: add.commute)
  then have "drop (p + length w) buf = w' @ rest" unfolding d by simp
  then obtain es' q2 where 2: "?scan s1 (p + length w) (w' @ rest) q1 = prepend es' (?scan s2 (p + length w + length w') rest q2)" "same_req q1 q2"
    "\<And>P :: http_parser request_parser. fold request_callback es' P = P\<lparr>rp_data := g (rp_data P)\<rparr>"
    using assms(2) unfolding phase_def by blast
  have "?scan s p ((w @ w') @ rest) q = prepend (es @ es') (?scan s2 (p + length (w @ w')) rest q2)"
    using 1(1) 2(1) by (simp add: add.assoc del: scan.simps)
  moreover have "same_req q q2" using 1(2) 2(2) by (simp add: same_req_def)
  ultimately show "\<exists>es q'. ?scan s p ((w @ w') @ rest) q = prepend es (?scan s2 (p + length (w @ w')) rest q')
      \<and> same_req q q' \<and> (\<forall>P :: http_parser request_parser. fold request_callback es P = P\<lparr>rp_data := g (f (rp_data P))\<rparr>)"
    using 1(3) 2(3) by (intro exI [of _ "es @ es'"] exI [of _ q2]) simp
qed

text \<open>A part that marks its first character, passes over the rest and ends with a character that acts on it.\<close>

lemma phase_marked:
  assumes first: "move (req_machine relaxed) s c = Some ([a], s1)" "s1 \<noteq> 0"
    and loop: "\<And>p rest q. scan (req_machine relaxed) (req_act buf) s1 p (w @ rest) q = scan (req_machine relaxed) (req_act buf) s2 (p + length w) rest q"
    and last: "move (req_machine relaxed) s2 d = Some (as, s3)" "s3 \<noteq> 0"
    and acts: "\<And>rest q. drop p buf = c # w @ d # rest \<Longrightarrow> \<exists>q1 es q'. req_act buf a p q = ([], q1, None)
       \<and> do_actions (req_act buf) as (p + length w + 1) q1 = (es, q', None) \<and> same_req q q'
       \<and> (\<forall>P :: http_parser request_parser. fold request_callback es P = P\<lparr>rp_data := f (rp_data P)\<rparr>)"
  shows "phase relaxed buf s p (c # w @ [d]) s3 f"
proof (rule phaseI)
  fix rest q
  assume "drop p buf = (c # w @ [d]) @ rest"
  then obtain q1 es q' where q: "req_act buf a p q = ([], q1, None)" "do_actions (req_act buf) as (p + length w + 1) q1 = (es, q', None)"
    "same_req q q'" "\<And>P :: http_parser request_parser. fold request_callback es P = P\<lparr>rp_data := f (rp_data P)\<rparr>"
    using acts [of rest q] by auto
  let ?scan = "scan (req_machine relaxed) (req_act buf)"
  have "?scan s p ((c # w @ [d]) @ rest) q = ?scan s1 (Suc p) (w @ d # rest) q1"
    using scan_step [OF first, of "req_act buf" p q "[]" q1 "w @ d # rest"] q(1) by (simp del: scan.simps)
  also have "\<dots> = ?scan s2 (p + length w + 1) (d # rest) q1" unfolding loop by simp
  also have "\<dots> = prepend es (?scan s3 (p + length (c # w @ [d])) rest q')"
    using scan_step [OF last q(2), of rest] by (simp del: scan.simps)
  finally show "\<exists>es q'. ?scan s p ((c # w @ [d]) @ rest) q = prepend es (?scan s3 (p + length (c # w @ [d])) rest q')
      \<and> same_req q q' \<and> (\<forall>P :: http_parser request_parser. fold request_callback es P = P\<lparr>rp_data := f (rp_data P)\<rparr>)"
    using q(3,4) by blast
qed

lemma phase_silent:
  assumes "\<And>p rest q. scan (req_machine relaxed) (req_act buf) s p (w @ rest) q = scan (req_machine relaxed) (req_act buf) s1 (p + length w) rest q"
  shows "phase relaxed buf s p w s1 (\<lambda>r. r)"
  using assms by (intro phaseI exI [of _ "[]"]) (auto simp: same_req_def)

subsection \<open>The method\<close>

lemma method_move:
  assumes "1 \<le> k" "k < 20" "in_ranges method_ranges c"
  shows "move (req_machine relaxed) (method_state k) c = Some ([], method_state (Suc k))"
proof -
  let ?n = "method_state k"
  have n: "?n = 2 \<or> 175 \<le> ?n \<and> ?n \<le> 192" "(if ?n = 2 then 175 else Suc ?n) = method_state (Suc k)" using assms(1,2) by (auto simp: method_state_def)
  then have "?n \<in> set (state_nums (req_machine relaxed))" unfolding req_state_nums by auto
  then obtain ts j where m: "State ?n ts j \<in> set (req_machine relaxed)" by (auto simp: state_nums_iff)
  then have "method_check ?n ts j" using req_methods_checked [of relaxed] unfolding list_all_iff by force
  then have "on_ranges method_ranges (method_jump ?n) ts j" using n(1) by (auto simp: method_check_def)
  then obtain l h where "method_jump ?n l h (select (char_val c) ts j)" using on_ranges_select [OF _ assms(3)] by metis
  then have "select (char_val c) ts j = St (method_state (Suc k))" using n(2) by (auto elim: method_jump.elims)
  then show ?thesis using find_state_in [OF req_distinct(1) m] by (simp add: move_def)
qed

lemma method_end:
  assumes "1 \<le> k" "k \<le> 20"
  shows "move (req_machine relaxed) (method_state k) (CHR '' '') = Some ([Req_method], 3)"
proof -
  let ?n = "method_state k"
  have n: "?n = 2 \<or> 175 \<le> ?n \<and> ?n \<le> 193" using assms by (auto simp: method_state_def)
  then have "?n \<in> set (state_nums (req_machine relaxed))" unfolding req_state_nums by auto
  then obtain ts j where m: "State ?n ts j \<in> set (req_machine relaxed)" by (auto simp: state_nums_iff)
  then have "method_check ?n ts j" using req_methods_checked [of relaxed] unfolding list_all_iff by force
  then have "select 32 ts j = Tr 4" using n by (auto simp: method_check_def split: if_splits)
  then show ?thesis using find_state_in [OF req_distinct(1) m] by (simp add: move_def req_trans char_val_def)
qed

lemma method_loop:
  "1 \<le> k \<Longrightarrow> k + length w \<le> 20 \<Longrightarrow> list_all (in_ranges method_ranges) w \<Longrightarrow>
   scan (req_machine relaxed) act (method_state k) p (w @ rest) q = scan (req_machine relaxed) act (method_state (k + length w)) (p + length w) rest q"
proof (induction w arbitrary: k p)
  case (Cons c w)
  have "method_state (Suc k) \<noteq> 0" by (simp add: method_state_def)
  then show ?case using Cons.IH [of "Suc k" "Suc p"] Cons.prems by (simp add: scan_silent [OF method_move] del: scan.simps)
qed simp

lemma request_moves:
  "move (req_machine relaxed) 3 (CHR ''/'') = Some ([Req_mark], 33)"
  "n = 26 \<or> n = 33 \<Longrightarrow> move (req_machine relaxed) n (CHR '' '') = Some ([Req_path, Req_uri], 4)"
  "n = 26 \<or> n = 33 \<Longrightarrow> move (req_machine relaxed) n (CHR ''?'') = Some ([Req_path], 29)"
  "n = 26 \<or> n = 33 \<Longrightarrow> move (req_machine relaxed) n (CHR ''#'') = Some ([Req_path, Req_uri], 20)"
  "move (req_machine relaxed) 30 (CHR '' '') = Some ([Req_query, Req_uri], 4)"
  "move (req_machine relaxed) 30 (CHR ''#'') = Some ([Req_query, Req_uri], 20)"
  "move (req_machine relaxed) 21 (CHR '' '') = Some ([Req_fragment], 4)"
  "move (req_machine relaxed) 4 (CHR ''H'') = Some ([Req_mark], 5)" "move (req_machine relaxed) 5 (CHR ''T'') = Some ([], 6)"
  "move (req_machine relaxed) 6 (CHR ''T'') = Some ([], 7)" "move (req_machine relaxed) 7 (CHR ''P'') = Some ([], 8)"
  "move (req_machine relaxed) 8 (CHR ''/'') = Some ([], 9)" "move (req_machine relaxed) 9 (CHR ''1'') = Some ([], 10)"
  "move (req_machine relaxed) 10 (CHR ''.'') = Some ([], 11)" "move (req_machine relaxed) 12 CR = Some ([Req_version], 17)"
  "move (req_machine relaxed) 17 LF = Some ([], 13)" "move (req_machine relaxed) 14 (CHR '':'') = Some ([Req_field_len], 15)"
  "move (req_machine relaxed) 15 (CHR '' '') = Some ([Req_mark], 15)" "move (req_machine relaxed) 16 CR = Some ([Req_field], 17)"
  "move (req_machine relaxed) 13 CR = Some ([Req_mark_field], 18)" "move (req_machine relaxed) 18 LF = Some ([Req_done 348], 348)"
  unfolding move_def by (auto simp: req_rows req_trans char_val_def special_chars wide_def)

lemma request_class_moves:
  "in_ranges method_ranges c \<Longrightarrow> move (req_machine relaxed) 1 c = Some ([Req_mark], 2)"
  "in_ranges query_ranges c \<Longrightarrow> move (req_machine relaxed) 29 c = Some ([Req_mark_query], 30)"
  "in_ranges query_ranges c \<Longrightarrow> move (req_machine relaxed) 20 c = Some ([Req_mark], 21)"
  "is_token c \<Longrightarrow> move (req_machine relaxed) 13 c = Some ([Req_mark_field], 14)"
  using move_ranges [OF req_rows(1), where rs = method_ranges and J = "Tr 0" and c = c] move_ranges [OF req_rows(22), where rs = query_ranges and J = "Tr 53" and c = c]
    move_ranges [OF req_rows(19), where rs = query_ranges and J = "Tr 43" and c = c] move_ranges [OF req_rows(13), where rs = token_ranges and J = "Tr 23" and c = c]
  by (simp_all add: range_defs method_ranges_def token_ranges_def is_token_def req_trans wide_def)

lemma path_first:
  assumes "in_ranges path_ranges c" "c \<noteq> CHR ''/''"
  shows "move (req_machine relaxed) 33 c = Some ([], 26)"
proof -
  have "char_val c \<noteq> 47" using assms(2) char_val_inject [of c "CHR ''/''"] by (simp add: char_val_def [of "CHR ''/''"])
  then have "in_ranges [(- 128, - 1), (33, 33), (36, 36), (38, 46), (48, 59), (61, 61), (64, 90), (95, 95), (97, 122), (126, 126)] c"
    using assms(1) by (auto simp: in_ranges_def path_ranges_def)
  from move_ranges [OF req_rows(24) _ this, where J = "St 26"] show ?thesis by (simp add: on_ranges_def wide_def)
qed

lemma request_loops:
  "list_all (in_ranges path_ranges) w \<Longrightarrow> scan (req_machine relaxed) act 26 p (w @ rest) q = scan (req_machine relaxed) act 26 (p + length w) rest q"
  "list_all (in_ranges query_ranges) w \<Longrightarrow> scan (req_machine relaxed) act 30 p (w @ rest) q = scan (req_machine relaxed) act 30 (p + length w) rest q"
  "list_all (in_ranges query_ranges) w \<Longrightarrow> scan (req_machine relaxed) act 21 p (w @ rest) q = scan (req_machine relaxed) act 21 (p + length w) rest q"
  "list_all is_token w \<Longrightarrow> scan (req_machine relaxed) act 14 p (w @ rest) q = scan (req_machine relaxed) act 14 (p + length w) rest q"
proof -
  show "scan (req_machine relaxed) act 26 p (w @ rest) q = scan (req_machine relaxed) act 26 (p + length w) rest q" if "list_all (in_ranges path_ranges) w"
    by (rule scan_loop [OF req_rows(21) _ _ that]) (simp_all add: range_defs wide_def)
  show "scan (req_machine relaxed) act 30 p (w @ rest) q = scan (req_machine relaxed) act 30 (p + length w) rest q" if "list_all (in_ranges query_ranges) w"
    by (rule scan_loop [OF req_rows(23) _ _ that]) (simp_all add: range_defs wide_def)
  show "scan (req_machine relaxed) act 21 p (w @ rest) q = scan (req_machine relaxed) act 21 (p + length w) rest q" if "list_all (in_ranges query_ranges) w"
    by (rule scan_loop [OF req_rows(20) _ _ that]) (simp_all add: range_defs wide_def)
  show "scan (req_machine relaxed) act 14 p (w @ rest) q = scan (req_machine relaxed) act 14 (p + length w) rest q" if "list_all is_token w"
    by (rule scan_loop [OF req_rows(14), of token_ranges]) (use that in \<open>simp_all add: range_defs token_ranges_def is_token_def [abs_def]\<close>)
qed

subsection \<open>The parts of a request\<close>

lemma take_prefix: "drop p buf = w @ rest \<Longrightarrow> take (length w) (drop p buf) = w"
  by simp

lemma method_phase:
  assumes "m \<noteq> []" "length m \<le> 20" "list_all (in_ranges method_ranges) m" "\<And>rest. CharsToHttpMethod (m @ rest) = k" "k \<noteq> method_UNKNOW"
  shows "phase relaxed buf 1 p (m @ '' '') 3 (\<lambda>r. r\<lparr>rq_method := k\<rparr>)"
proof -
  obtain c w where m: "m = c # w" "in_ranges method_ranges c" "list_all (in_ranges method_ranges) w" using assms(1,3) by (cases m) auto
  have "phase relaxed buf 1 p (c # w @ [CHR '' '']) 3 (\<lambda>r. r\<lparr>rq_method := k\<rparr>)"
  proof (rule phase_marked [OF request_class_moves(1) [OF m(2)]])
    show "scan (req_machine relaxed) (req_act buf) 2 p (w @ rest) q
        = scan (req_machine relaxed) (req_act buf) (method_state (1 + length w)) (p + length w) rest q" for p rest q
      using method_loop [of 1 w relaxed "req_act buf" p rest q] assms(2) m by (simp add: method_state_def [of "Suc 0"])
    show "move (req_machine relaxed) (method_state (1 + length w)) (CHR '' '') = Some ([Req_method], 3)"
      using method_end [of "1 + length w"] assms(2) m(1) by simp
    fix rest q
    assume "drop p buf = c # w @ CHR '' '' # rest"
    then show "\<exists>q1 es q'. req_act buf Req_mark p q = ([], q1, None)
       \<and> do_actions (req_act buf) [Req_method] (p + length w + 1) q1 = (es, q', None) \<and> same_req q q'
       \<and> (\<forall>P :: http_parser request_parser. fold request_callback es P = P\<lparr>rp_data := (rp_data P)\<lparr>rq_method := k\<rparr>\<rparr>)"
      using assms(4,5) by (simp add: same_req_def on_request_method_def m(1))
  qed simp_all
  then show ?thesis by (simp add: m(1))
qed

text \<open>A path, up to and including the character that ends it.\<close>

definition target_path :: "string \<Rightarrow> bool" where
  "target_path path \<longleftrightarrow> path \<noteq> [] \<and> hd path = CHR ''/'' \<and> list_all (in_ranges path_ranges) (tl path)
     \<and> (tl path = [] \<or> hd (tl path) \<noteq> CHR ''/'')"

lemma path_loop:
  assumes "list_all (in_ranges path_ranges) v" "v = [] \<or> hd v \<noteq> CHR ''/''"
  obtains n where "n = 26 \<or> n = 33"
    "\<And>p rest q. scan (req_machine relaxed) (req_act buf) 33 p (v @ rest) q = scan (req_machine relaxed) (req_act buf) n (p + length v) rest q"
proof (cases v)
  case Nil
  then show thesis using that [of 33] by simp
next
  case (Cons c w)
  then have "move (req_machine relaxed) 33 c = Some ([], 26)" using path_first assms by simp
  then show thesis using that [of 26] assms(1) by (simp add: Cons scan_silent request_loops(1) del: scan.simps)
qed

lemma path_phase:
  assumes "target_path path"
    and d: "d = CHR '' '' \<and> s = 4 \<and> as = [Req_path, Req_uri] \<or> d = CHR ''?'' \<and> s = 29 \<and> as = [Req_path] \<or> d = CHR ''#'' \<and> s = 20 \<and> as = [Req_path, Req_uri]"
  shows "phase relaxed buf 3 p (path @ [d]) s (\<lambda>r. r\<lparr>rq_path := path\<rparr>)"
proof -
  obtain v where v: "path = CHR ''/'' # v" "list_all (in_ranges path_ranges) v" "v = [] \<or> hd v \<noteq> CHR ''/''"
    using assms(1) by (cases path) (auto simp: target_path_def)
  obtain n where n: "n = 26 \<or> n = 33"
    "\<And>p rest q. scan (req_machine relaxed) (req_act buf) 33 p (v @ rest) q = scan (req_machine relaxed) (req_act buf) n (p + length v) rest q"
    using path_loop [OF v(2,3)] by metis
  have "phase relaxed buf 3 p (CHR ''/'' # v @ [d]) s (\<lambda>r. r\<lparr>rq_path := path\<rparr>)"
  proof (rule phase_marked [OF request_moves(1) _ n(2)])
    show "move (req_machine relaxed) n d = Some (as, s)" "s \<noteq> 0" using d request_moves(2-4) [OF n(1)] by auto
    fix rest q
    assume "drop p buf = CHR ''/'' # v @ d # rest"
    then show "\<exists>q1 es q'. req_act buf Req_mark p q = ([], q1, None)
       \<and> do_actions (req_act buf) as (p + length v + 1) q1 = (es, q', None) \<and> same_req q q'
       \<and> (\<forall>P :: http_parser request_parser. fold request_callback es P = P\<lparr>rp_data := (rp_data P)\<lparr>rq_path := path\<rparr>\<rparr>)"
      using d by (auto simp: same_req_def on_request_path_def v(1))
  qed simp_all
  then show ?thesis by (simp add: v(1))
qed

lemma query_phase:
  assumes "query \<noteq> []" "list_all (in_ranges query_ranges) query" "d = CHR '' '' \<and> s = 4 \<or> d = CHR ''#'' \<and> s = 20"
  shows "phase relaxed buf 29 p (query @ [d]) s (\<lambda>r. r\<lparr>rq_query := query\<rparr>)"
proof -
  obtain c w where c: "query = c # w" "in_ranges query_ranges c" "list_all (in_ranges query_ranges) w" using assms(1,2) by (cases query) auto
  have "phase relaxed buf 29 p (c # w @ [d]) s (\<lambda>r. r\<lparr>rq_query := query\<rparr>)"
  proof (rule phase_marked [OF request_class_moves(2) [OF c(2)] _ request_loops(2) [OF c(3)]])
    show "move (req_machine relaxed) 30 d = Some ([Req_query, Req_uri], s)" "s \<noteq> 0" using assms(3) request_moves(5,6) by auto
    fix rest q
    assume "drop p buf = c # w @ d # rest"
    then show "\<exists>q1 es q'. req_act buf Req_mark_query p q = ([], q1, None)
       \<and> do_actions (req_act buf) [Req_query, Req_uri] (p + length w + 1) q1 = (es, q', None) \<and> same_req q q'
       \<and> (\<forall>P :: http_parser request_parser. fold request_callback es P = P\<lparr>rp_data := (rp_data P)\<lparr>rq_query := query\<rparr>\<rparr>)"
      by (simp add: same_req_def on_request_query_def c(1))
  qed simp_all
  then show ?thesis by (simp add: c(1))
qed

lemma fragment_phase:
  assumes "frag \<noteq> []" "list_all (in_ranges query_ranges) frag"
  shows "phase relaxed buf 20 p (frag @ '' '') 4 (\<lambda>r. r\<lparr>rq_fragment := frag\<rparr>)"
proof -
  obtain c w where c: "frag = c # w" "in_ranges query_ranges c" "list_all (in_ranges query_ranges) w" using assms by (cases frag) auto
  have "phase relaxed buf 20 p (c # w @ [CHR '' '']) 4 (\<lambda>r. r\<lparr>rq_fragment := frag\<rparr>)"
  proof (rule phase_marked [OF request_class_moves(3) [OF c(2)] _ request_loops(3) [OF c(3)] request_moves(7)])
    fix rest q
    assume "drop p buf = c # w @ CHR '' '' # rest"
    then show "\<exists>q1 es q'. req_act buf Req_mark p q = ([], q1, None)
       \<and> do_actions (req_act buf) [Req_fragment] (p + length w + 1) q1 = (es, q', None) \<and> same_req q q'
       \<and> (\<forall>P :: http_parser request_parser. fold request_callback es P = P\<lparr>rp_data := (rp_data P)\<lparr>rq_fragment := frag\<rparr>\<rparr>)"
      by (simp add: same_req_def on_request_fragment_def c(1))
  qed simp_all
  then show ?thesis by (simp add: c(1))
qed

lemma version_phase:
  assumes "d = CHR ''0'' \<or> d = CHR ''1''"
  shows "phase relaxed buf 4 p (''HTTP/1.'' @ [d] @ CRLF) 13 (\<lambda>r. r\<lparr>rq_version := (if d = CHR ''1'' then 0x11 else 0x10)\<rparr>)"
proof -
  have d: "move (req_machine relaxed) 11 d = Some ([], 12)" using assms unfolding move_def req_rows by (auto simp: char_val_def)
  have loop: "scan (req_machine relaxed) (req_act buf) 5 p ((''TTP/1.'' @ [d]) @ rest) q
      = scan (req_machine relaxed) (req_act buf) 12 (p + length (''TTP/1.'' @ [d])) rest q" for p rest q
    by (simp add: scan_silent [OF request_moves(9)] scan_silent [OF request_moves(10)] scan_silent [OF request_moves(11)]
        scan_silent [OF request_moves(12)] scan_silent [OF request_moves(13)] scan_silent [OF request_moves(14)] scan_silent [OF d] del: scan.simps)
  have v: "read_version (''HTTP/1.'' @ d # x) 8 = Some (if d = CHR ''1'' then 0x11 else 0x10)" for x
    using assms by (auto simp: read_version_def strncmp_eq_def c_str_def special_chars)
  have "phase relaxed buf 4 p (CHR ''H'' # (''TTP/1.'' @ [d]) @ [CR]) 17 (\<lambda>r. r\<lparr>rq_version := (if d = CHR ''1'' then 0x11 else 0x10)\<rparr>)"
  proof (rule phase_marked [OF request_moves(8) _ loop request_moves(15)])
    fix rest q
    assume "drop p buf = CHR ''H'' # (''TTP/1.'' @ [d]) @ CR # rest"
    then show "\<exists>q1 es q'. req_act buf Req_mark p q = ([], q1, None)
       \<and> do_actions (req_act buf) [Req_version] (p + length (''TTP/1.'' @ [d]) + 1) q1 = (es, q', None) \<and> same_req q q'
       \<and> (\<forall>P :: http_parser request_parser. fold request_callback es P = P\<lparr>rp_data := (rp_data P)\<lparr>rq_version := (if d = CHR ''1'' then 0x11 else 0x10)\<rparr>\<rparr>)"
      using v by (simp add: same_req_def on_request_version_def)
  qed simp_all
  moreover have "phase relaxed buf 17 (p + length (CHR ''H'' # (''TTP/1.'' @ [d]) @ [CR])) [LF] 13 (\<lambda>r. r)"
    by (rule phase_silent) (simp add: scan_silent [OF request_moves(16)] del: scan.simps)
  ultimately show ?thesis using phase_seq by (fastforce simp: CRLF_def)
qed

definition value_char :: "char \<Rightarrow> bool" where
  "value_char c \<longleftrightarrow> c \<noteq> NUL \<and> c \<noteq> CR \<and> c \<noteq> LF \<and> char_val c \<noteq> 127"

definition req_header_ok :: "string \<Rightarrow> string \<Rightarrow> bool" where
  "req_header_ok k v \<longleftrightarrow> k \<noteq> [] \<and> list_all is_token k \<and> v \<noteq> [] \<and> \<not> is_blank (hd v) \<and> list_all value_char v"

lemma value_moves:
  assumes "value_char c"
  shows "move (req_machine relaxed) 16 c = Some ([], 16)" "\<not> is_blank c \<Longrightarrow> move (req_machine relaxed) 15 c = Some ([Req_mark], 16)"
proof -
  have "char_val NUL = 0" by (simp add: char_val_def special_chars)
  then have "char_val c \<noteq> 0" "char_val c \<noteq> 13" "char_val c \<noteq> 10" "char_val c \<noteq> 127"
    using assms char_val_neq [of c] char_val_inject [of c NUL] by (auto simp: value_char_def)
  then show "move (req_machine relaxed) 16 c = Some ([], 16)" "\<not> is_blank c \<Longrightarrow> move (req_machine relaxed) 15 c = Some ([Req_mark], 16)"
    unfolding move_def req_rows by (auto simp: req_trans is_blank_def)
qed

lemma value_loop:
  "list_all value_char w \<Longrightarrow> scan (req_machine relaxed) act 16 p (w @ rest) q = scan (req_machine relaxed) act 16 (p + length w) rest q"
  by (induction w arbitrary: p) (simp_all add: scan_silent [OF value_moves(1)] del: scan.simps)

lemma header_phase:
  assumes "req_header_ok k v"
  shows "phase relaxed buf 13 p (header_text k v) 13 (rq_setHeaderEntry k v)"
proof (rule phaseI)
  fix rest and q :: http_parser
  assume dr: "drop p buf = header_text k v @ rest"
  obtain c w where c: "k = c # w" "is_token c" "list_all is_token w" using assms by (cases k) (auto simp: req_header_ok_def)
  obtain d x where d: "v = d # x" "\<not> is_blank d" "value_char d" "list_all value_char x" using assms by (cases v) (auto simp: req_header_ok_def)
  let ?scan = "scan (req_machine relaxed) (req_act buf)" and ?p = "p + length k + 2"
  let ?q1 = "q\<lparr>hq_field_start := p\<rparr>" let ?q2 = "?q1\<lparr>hq_field_len := length k\<rparr>" let ?q4 = "?q2\<lparr>hq_mark := ?p\<rparr>"
  let ?e = "On_request_http_field (drop p buf) (length k) (drop ?p buf) (length v)"
  have "?scan 13 p (header_text k v @ rest) q = ?scan 14 (Suc p) (w @ '': '' @ v @ CRLF @ rest) ?q1"
    using scan_step [OF request_class_moves(4) [OF c(2)], where act = "req_act buf" and p = p and q = q] by (simp add: c(1) header_text_def del: scan.simps)
  also have "\<dots> = ?scan 14 (p + length k) ('': '' @ v @ CRLF @ rest) ?q1" by (simp add: request_loops(4) [OF c(3)] c(1) del: scan.simps)
  also have "\<dots> = ?scan 15 (p + length k + 1) ('' '' @ v @ CRLF @ rest) ?q2"
    using scan_step [OF request_moves(17), where act = "req_act buf" and p = "p + length k" and q = ?q1] by (simp del: scan.simps)
  also have "\<dots> = ?scan 15 ?p (v @ CRLF @ rest) (?q2\<lparr>hq_mark := p + length k + 1\<rparr>)"
    using scan_step [OF request_moves(18), where act = "req_act buf" and p = "p + length k + 1" and q = ?q2] by (simp del: scan.simps)
  also have "\<dots> = ?scan 16 (Suc ?p) (x @ CRLF @ rest) ?q4"
    using scan_step [OF value_moves(2) [OF d(3,2)], where act = "req_act buf" and p = ?p and q = "?q2\<lparr>hq_mark := p + length k + 1\<rparr>"]
    by (simp add: d(1) del: scan.simps)
  also have "\<dots> = ?scan 16 (?p + length v) (CRLF @ rest) ?q4" by (simp add: value_loop [OF d(4)] d(1) del: scan.simps)
  also have "\<dots> = prepend [?e] (?scan 17 (?p + length v + 1) (LF # rest) ?q4)"
    using scan_step [OF request_moves(19), where act = "req_act buf" and p = "?p + length v" and q = ?q4] by (simp add: CRLF_def del: scan.simps)
  also have "\<dots> = prepend [?e] (?scan 13 (p + length (header_text k v)) rest ?q4)"
    by (simp add: scan_silent [OF request_moves(16)] header_text_def CRLF_def add.commute add.left_commute del: scan.simps)
  finally have "?scan 13 p (header_text k v @ rest) q = prepend [?e] (?scan 13 (p + length (header_text k v)) rest ?q4)" .
  moreover have "fold request_callback [?e] P = P\<lparr>rp_data := rq_setHeaderEntry k v (rp_data P)\<rparr>" for P :: "http_parser request_parser"
  proof -
    have "drop ?p buf = drop (length k + 2) (drop p buf)" by (simp add: add.commute add.left_commute)
    then have "take (length v) (drop ?p buf) = v" "take (length k) (drop p buf) = k" unfolding dr by (simp_all add: header_text_def)
    then show ?thesis by (simp add: on_request_http_field_def c(1))
  qed
  ultimately show "\<exists>es q'. ?scan 13 p (header_text k v @ rest) q = prepend es (?scan 13 (p + length (header_text k v)) rest q')
      \<and> same_req q q' \<and> (\<forall>P :: http_parser request_parser. fold request_callback es P = P\<lparr>rp_data := rq_setHeaderEntry k v (rp_data P)\<rparr>)"
    by (intro exI [of _ "[?e]"] exI [of _ ?q4]) (simp add: same_req_def)
qed

definition put_request_headers :: "(string \<times> string) list \<Rightarrow> http_request \<Rightarrow> http_request" where
  "put_request_headers hs r = fold (\<lambda>(k, v). rq_setHeaderEntry k v) hs r"

lemma headers_phase:
  "list_all (\<lambda>(k, v). req_header_ok k v) hs \<Longrightarrow> phase relaxed buf 13 p (headers_text hs) 13 (put_request_headers hs)"
proof (induction hs arbitrary: p)
  case Nil
  show ?case unfolding phase_def by (auto simp: headers_text_def put_request_headers_def same_req_def intro!: exI [of _ "[]"])
next
  case (Cons h hs)
  obtain k v where h: "h = (k, v)" by fastforce
  have "phase relaxed buf 13 p (header_text k v @ headers_text hs) 13 (\<lambda>r. put_request_headers hs (rq_setHeaderEntry k v r))"
    by (rule phase_seq [OF header_phase Cons.IH]) (use Cons.prems in \<open>simp_all add: h\<close>)
  then show ?case by (simp add: h headers_text_def put_request_headers_def)
qed

lemma method_names:
  "list_all (\<lambda>(n, s). s \<noteq> [] \<and> length s \<le> 20 \<and> list_all (in_ranges method_ranges) s) HTTP_METHOD_MAP"
  by (simp add: HTTP_METHOD_MAP_def in_ranges_def method_ranges_def char_val_def)

lemma method_name_ok:
  assumes "m < 34"
  shows "HttpMethodToString m \<noteq> []" "length (HttpMethodToString m) \<le> 20" "list_all (in_ranges method_ranges) (HttpMethodToString m)"
proof -
  have "m \<in> set [0..<34]" using assms(1) by simp
  then have "map_of HTTP_METHOD_MAP m \<noteq> None" by (simp add: upt_conv_Cons HTTP_METHOD_MAP_def) (elim disjE; simp)
  then have "(m, HttpMethodToString m) \<in> set HTTP_METHOD_MAP" by (auto simp: HttpMethodToString_def enum_name_def dest: map_of_SomeD)
  then show "HttpMethodToString m \<noteq> []" "length (HttpMethodToString m) \<le> 20" "list_all (in_ranges method_ranges) (HttpMethodToString m)"
    using method_names unfolding list_all_iff [of _ HTTP_METHOD_MAP] by fastforce+
qed

subsection \<open>Whole requests\<close>

definition target_text :: "string \<Rightarrow> string \<Rightarrow> string \<Rightarrow> string" where
  "target_text path query frag = path @ (if query = [] then [] else ''?'' @ query) @ (if frag = [] then [] else ''#'' @ frag)"

definition set_target :: "string \<Rightarrow> string \<Rightarrow> string \<Rightarrow> http_request \<Rightarrow> http_request" where
  "set_target path query frag r =
     r\<lparr>rq_path := path, rq_query := (if query = [] then rq_query r else query), rq_fragment := (if frag = [] then rq_fragment r else frag)\<rparr>"

definition target_ok :: "string \<Rightarrow> string \<Rightarrow> string \<Rightarrow> bool" where
  "target_ok path query frag \<longleftrightarrow> target_path path \<and> list_all (in_ranges query_ranges) query \<and> list_all (in_ranges query_ranges) frag"

lemma target_phase:
  assumes "target_ok path query frag"
  shows "phase relaxed buf 3 p (target_text path query frag @ '' '') 4 (set_target path query frag)"
proof -
  have t: "target_path path" "list_all (in_ranges query_ranges) query" "list_all (in_ranges query_ranges) frag"
    using assms by (simp_all add: target_ok_def)
  note f = fragment_phase [OF _ t(3)]
  have path: "phase relaxed buf 3 p (path @ '' '') 4 (\<lambda>r. r\<lparr>rq_path := path\<rparr>)"
    "phase relaxed buf 3 p (path @ ''?'') 29 (\<lambda>r. r\<lparr>rq_path := path\<rparr>)" "phase relaxed buf 3 p (path @ ''#'') 20 (\<lambda>r. r\<lparr>rq_path := path\<rparr>)"
    using path_phase [OF t(1)] by simp_all
  show ?thesis
  proof (cases "query = []")
    case True
    show ?thesis
    proof (cases "frag = []")
      case True
      then show ?thesis using path(1) \<open>query = []\<close> by (simp add: target_text_def set_target_def [abs_def])
    next
      case False
      then show ?thesis using phase_seq [OF path(3) f] True by (simp add: target_text_def set_target_def [abs_def])
    qed
  next
    case False
    have query: "phase relaxed buf 29 p' (query @ '' '') 4 (\<lambda>r. r\<lparr>rq_query := query\<rparr>)"
      "phase relaxed buf 29 p' (query @ ''#'') 20 (\<lambda>r. r\<lparr>rq_query := query\<rparr>)" for p'
      using query_phase [OF False t(2)] by simp_all
    show ?thesis
    proof (cases "frag = []")
      case True
      then show ?thesis using phase_seq [OF path(2) query(1)] False by (simp add: target_text_def set_target_def [abs_def])
    next
      case frag: False
      show ?thesis using phase_seq [OF path(2) phase_seq [OF query(2) f [OF frag]]] False frag by (simp add: target_text_def set_target_def [abs_def] add.assoc)
    qed
  qed
qed

definition request_text :: "http_method \<Rightarrow> string \<Rightarrow> char \<Rightarrow> (string \<times> string) list \<Rightarrow> string" where
  "request_text m target d hs = HttpMethodToString m @ '' '' @ target @ '' HTTP/1.'' @ [d] @ CRLF @ headers_text hs @ CRLF"

lemma request_phase:
  assumes "m < 34" "target_ok path query frag" "d = CHR ''0'' \<or> d = CHR ''1''"
    and "list_all (\<lambda>(k, v). req_header_ok k v) hs"
  shows "phase relaxed buf 1 p (HttpMethodToString m @ '' '' @ target_text path query frag @ '' HTTP/1.'' @ [d] @ CRLF @ headers_text hs) 13
    (\<lambda>r. put_request_headers hs ((set_target path query frag (r\<lparr>rq_method := m\<rparr>))\<lparr>rq_version := (if d = CHR ''1'' then 0x11 else 0x10)\<rparr>))"
proof -
  have "m \<noteq> method_UNKNOW" using assms(1) by (simp add: method_UNKNOW_def)
  note 1 = method_phase [OF method_name_ok [OF assms(1)] method_prefix [OF assms(1)] this]
  from phase_seq [OF 1 phase_seq [OF target_phase [OF assms(2)] phase_seq [OF version_phase [OF assms(3)] headers_phase [OF assms(4)]]], of relaxed buf p]
  show ?thesis by (simp add: add.assoc)
qed

lemma request_execute:
  assumes "m < 34" "target_ok path query frag" "d = CHR ''0'' \<or> d = CHR ''1''"
    and "list_all (\<lambda>(k, v). req_header_ok k v) hs"
    and "text = request_text m (target_text path query frag) d hs" "\<not> hq_fail q0"
  obtains es q where "http_parser_execute (http_parser_init q0) (text @ rest) = Inr (es, q, length text)" "hq_cs q = 348"
    "\<And>P :: http_parser request_parser. fold request_callback es P = P\<lparr>rp_data :=
      put_request_headers hs ((set_target path query frag ((rp_data P)\<lparr>rq_method := m\<rparr>))\<lparr>rq_version := (if d = CHR ''1'' then 0x11 else 0x10)\<rparr>)\<rparr>"
proof -
  let ?q = "http_parser_init q0" and ?buf = "text @ rest"
  let ?w = "HttpMethodToString m @ '' '' @ target_text path query frag @ '' HTTP/1.'' @ [d] @ CRLF @ headers_text hs"
  let ?M = "req_machine (hq_uri_relaxed q0 \<noteq> 0)"
  have buf: "drop 0 ?buf = ?w @ CRLF @ rest" "text = ?w @ CRLF" by (simp_all add: assms(5) request_text_def)
  obtain es q1 where 1: "scan ?M (req_act ?buf) 1 0 (?w @ CRLF @ rest) (unmarked ?q) = prepend es (scan ?M (req_act ?buf) 13 (0 + length ?w) (CRLF @ rest) q1)"
    "same_req (unmarked ?q) q1"
    and es: "\<And>P :: http_parser request_parser. fold request_callback es P = P\<lparr>rp_data :=
      put_request_headers hs ((set_target path query frag ((rp_data P)\<lparr>rq_method := m\<rparr>))\<lparr>rq_version := (if d = CHR ''1'' then 0x11 else 0x10)\<rparr>)\<rparr>"
    using request_phase [OF assms(1-4), of "hq_uri_relaxed q0 \<noteq> 0" ?buf 0] buf(1) unfolding phase_def by blast
  have s: "hq_xml_sent q1 = 0" "hq_json_sent q1 = 0" "hq_fail q1 = hq_fail q0" using 1(2) by (simp_all add: same_req_def http_parser_init_def)
  let ?e = "On_request_header_done (drop (length ?w + 2) ?buf) (length ?buf - (length ?w + 1) - 1)"
  let ?q1 = "q1\<lparr>hq_field_start := length ?w, hq_body_start := length ?w + 2\<rparr>"
  have "scan ?M (req_act ?buf) 13 (length ?w) (CRLF @ rest) q1 = ([?e], 348, length ?w + 2, ?q1)"
    using s request_moves(20,21) [where relaxed = "hq_uri_relaxed q0 \<noteq> 0"] by (simp add: CRLF_def)
  then have scan: "scan ?M (req_act ?buf) 1 0 ?buf (unmarked ?q) = (es @ [?e], 348, length text, ?q1)"
    using 1(1) buf by (simp add: CRLF_def del: scan.simps)
  have "?buf \<noteq> []" using buf(2) by (simp add: CRLF_def)
  then have "http_parser_execute ?q ?buf = Inr (es @ [?e], ?q1\<lparr>hq_cs := 348, hq_nread := length text\<rparr>, length text)"
    using request_frame [of ?buf ?q] scan s(3) assms(6) by (simp add: http_parser_init_def)
  then show thesis by (rule that) (simp_all add: es)
qed

section \<open>Receiving a request\<close>

text \<open>
  The scanner as \<^verbatim>\<open>HttpRequestParser\<close> uses it.  \<open>q0\<close> is the memory the structure is
  created in.  A run that throws or fails an assertion ends the program.
\<close>

definition request_scanner :: "http_parser \<Rightarrow> (http_parser, request_event) scanner" where
  "request_scanner q0 =
     \<lparr>sc_init = http_parser_init (q0\<lparr>hq_fail := False\<rparr>),
      sc_execute = \<lambda>q d. case http_parser_execute q d of Inl _ \<Rightarrow> ([], q, 0) | Inr r \<Rightarrow> r,
      sc_finish = http_parser_finish,
      sc_has_error = http_parser_has_error\<rparr>"

definition request_digit :: "http_request \<Rightarrow> char" where
  "request_digit r = (if rq_version r = 0x11 then CHR ''1'' else CHR ''0'')"

definition printed_request_headers :: "http_request \<Rightarrow> (string \<times> string) list" where
  "printed_request_headers r =
     filter (\<lambda>(k, v). k \<noteq> ''connection'') (rq_headers r) @ (if rq_body r = [] then [] else [(''content-length'', show_nat (length (rq_body r)))])"

definition request_head :: "http_request \<Rightarrow> string" where
  "request_head r = request_text (rq_method r) (rq_url r) (request_digit r) (printed_request_headers r)"

definition request_ok :: "http_request \<Rightarrow> bool" where
  "request_ok r \<longleftrightarrow> rq_method r < 34 \<and> (rq_version r = 0x10 \<or> rq_version r = 0x11)
     \<and> list_all (\<lambda>(k, v). req_header_ok k v) (filter (\<lambda>(k, v). k \<noteq> ''connection'') (rq_headers r))"

lemma version_texts: "version_text 0x10 = ''1.0''" "version_text 0x11 = ''1.1''"
proof -
  have "show_nat 1 = ''1''" "show_nat 0 = ''0''"
    by (simp_all add: show_nat_def show_base.simps digit_char_def char_of_def bit_Suc_0_iff)
  moreover have "unat (drop_bit 4 (0x10 :: u8)) = 1" "unat (drop_bit 4 (0x11 :: u8)) = 1" "unat ((0x10 :: u8) AND 15) = 0" "unat ((0x11 :: u8) AND 15) = 1"
    by code_simp+
  ultimately show "version_text 0x10 = ''1.0''" "version_text 0x11 = ''1.1''" by (auto simp: version_text_def)
qed

lemma request_dump_text:
  assumes "request_ok r"
  shows "rq_dump r = request_head r @ rq_body r"
  using assms version_texts
  by (auto simp: rq_dump_def request_head_def request_text_def printed_request_headers_def request_digit_def header_lines_text headers_text_def
      header_text_def request_ok_def)

lemma length_header_ok: "req_header_ok ''content-length'' (show_nat n)"
proof -
  have d: "value_char c \<and> \<not> is_blank c" if "is_digit c" for c
    using that digit_move [OF that] by (auto simp: value_char_def is_blank_def is_digit_def special_chars)
  then have "list_all value_char (show_nat n)" "\<not> is_blank (hd (show_nat n))"
    using show_nat_digits [of n] unfolding list_all_iff by (auto simp: hd_in_set)
  then show ?thesis using show_nat_digits(2) [of n]
    by (auto simp: req_header_ok_def is_token_def in_ranges_def token_ranges_def char_val_def)
qed

definition parsed_request :: "http_request \<Rightarrow> string \<Rightarrow> string \<Rightarrow> string \<Rightarrow> http_request" where
  "parsed_request r path query frag = put_request_headers (printed_request_headers r)
     ((set_target path query frag (HttpRequest_default\<lparr>rq_method := rq_method r\<rparr>))\<lparr>rq_version := rq_version r\<rparr>)"

lemma request_head_received:
  assumes "request_ok r" "rq_url r = target_text path query frag" "target_ok path query frag"
    and "st_isConnected s" "incoming s = (request_head r @ b) # segs" "length (request_head r @ b) \<le> buff_size"
  obtains q where "recv_loop (request_scanner q0) (Suc fuel) (HttpRequestParser_ctor (request_scanner q0)) [] s
    = Some (Some (\<lparr>rp_parser = q, rp_data = parsed_request r path query frag, rp_error = 0\<rparr>, b), after_reading segs s)"
proof -
  let ?sc = "request_scanner q0" and ?h = "request_head r" and ?d = "request_digit r"
  have d: "?d = CHR ''0'' \<or> ?d = CHR ''1''" "(if ?d = CHR ''1'' then 0x11 else 0x10) = rq_version r" "rq_method r < 34"
    using assms(1) by (auto simp: request_digit_def request_ok_def)
  have hs: "list_all (\<lambda>(k, v). req_header_ok k v) (printed_request_headers r)"
    using assms(1) length_header_ok by (simp add: printed_request_headers_def request_ok_def)
  have h: "?h = request_text (rq_method r) (target_text path query frag) ?d (printed_request_headers r)" by (simp add: request_head_def assms(2))
  obtain es q where e: "http_parser_execute (http_parser_init (q0\<lparr>hq_fail := False\<rparr>)) (?h @ b) = Inr (es, q, length ?h)" "hq_cs q = 348"
    "\<And>P :: http_parser request_parser. fold request_callback es P = P\<lparr>rp_data :=
      put_request_headers (printed_request_headers r) ((set_target path query frag ((rp_data P)\<lparr>rq_method := rq_method r\<rparr>))\<lparr>rq_version := (if ?d = CHR ''1'' then 0x11 else 0x10)\<rparr>)\<rparr>"
    by (rule request_execute [OF d(3) assms(3) d(1) hs h, of "q0\<lparr>hq_fail := False\<rparr>" b]) auto
  let ?p = "\<lparr>rp_parser = q, rp_data = parsed_request r path query frag, rp_error = 0\<rparr>"
  have x: "rp_execute ?sc (?h @ b) (HttpRequestParser_ctor ?sc) = (length ?h, b, ?p)"
    using e(1,3) d(2) by (simp add: rp_execute_def request_scanner_def HttpRequestParser_ctor_def parsed_request_def)
  have flags: "\<not> rp_hasError ?sc ?p" "rp_isFinished ?sc ?p = 1"
    using e(2) by (simp_all add: rp_hasError_def rp_isFinished_def request_scanner_def http_parser_has_error_def http_parser_finish_def http_parser_is_finished_def)
  have "0 < length ?h" by (simp add: h request_text_def)
  then have nonempty: "length b \<noteq> buff_size" "\<not> int (length ?h) + int (length b) \<le> 0" using assms(6) [unfolded length_append] by linarith+
  have "recv_loop ?sc (Suc fuel) (HttpRequestParser_ctor ?sc) [] s = Some (Some (?p, b), after_reading segs s)"
    using st_read_segment [OF assms(4-6)] x flags nonempty by simp
  then show thesis by (rule that)
qed

lemma rq_init_fields [simp]:
  "rq_method (rq_init r) = rq_method r" "rq_path (rq_init r) = rq_path r" "rq_query (rq_init r) = rq_query r" "rq_fragment (rq_init r) = rq_fragment r"
  "rq_version (rq_init r) = rq_version r" "rq_body (rq_init r) = rq_body r" "rq_headers (rq_init r) = rq_headers r"
  by (simp_all add: rq_init_def Let_def)

lemma put_request_headers_fields [simp]:
  "rq_method (put_request_headers hs r) = rq_method r" "rq_path (put_request_headers hs r) = rq_path r"
  "rq_query (put_request_headers hs r) = rq_query r" "rq_fragment (put_request_headers hs r) = rq_fragment r"
  "rq_version (put_request_headers hs r) = rq_version r" "rq_headers (put_request_headers hs r) = fold (\<lambda>(a, v). ci_put a v) hs (rq_headers r)"
  "rq_body (put_request_headers hs r) = rq_body r"
  unfolding put_request_headers_def by (induction hs arbitrary: r) (auto simp: rq_setHeaderEntry_def)

lemma parsed_request_fields:
  "rq_method (parsed_request r path query frag) = rq_method r" "rq_path (parsed_request r path query frag) = path"
  "rq_query (parsed_request r path query frag) = query" "rq_fragment (parsed_request r path query frag) = frag"
  "rq_version (parsed_request r path query frag) = rq_version r" "rq_body (parsed_request r path query frag) = []"
  by (simp_all add: parsed_request_def set_target_def HttpRequest_default_def)

lemma parsed_request_header:
  assumes "smap CaseInsensitiveLess (rq_headers r)"
  shows "ci_find k (rq_headers (parsed_request r path query frag))
    = (if rq_body r \<noteq> [] \<and> strcasecmp (c_str ''content-length'') (c_str k) = 0 then Some (show_nat (length (rq_body r)))
       else ci_find k (filter (\<lambda>(k, v). k \<noteq> ''connection'') (rq_headers r)))"
proof -
  let ?hs = "filter (\<lambda>(k, v). k \<noteq> ''connection'') (rq_headers r)"
  let ?m = "fold (\<lambda>(a, v). ci_put a v) ?hs []"
  have m: "smap CaseInsensitiveLess ?m" by (simp only: smap_fold_put smap_Nil)
  have "ci_find k ?m = ci_find k ?hs"
    using ci.find_fold_put [OF ci.smap_filter [OF assms(1)], of "[]" k "\<lambda>(k, v). k \<noteq> ''connection''"] by (simp split: option.splits)
  moreover have "rq_headers (parsed_request r path query frag)
      = (if rq_body r = [] then ?m else ci_put ''content-length'' (show_nat (length (rq_body r))) ?m)"
    by (simp add: parsed_request_def printed_request_headers_def HttpRequest_default_def set_target_def)
  ultimately show ?thesis using m by (simp add: ci.find_put key_equiv_ci)
qed

lemma no_length_find:
  assumes "smap CaseInsensitiveLess m" "strcasecmp (c_str ''connection'') (c_str k) \<noteq> 0"
  shows "ci_find k (filter (\<lambda>(k, v). k \<noteq> ''connection'') m) = ci_find k m"
  using ci.find_filter_key [OF assms(1)] assms(2) by (simp add: key_equiv_ci)

lemma content_length_name: "strcasecmp (c_str ''connection'') (c_str ''content-length'') \<noteq> 0" "strcasecmp (c_str ''content-length'') (c_str ''content-length'') = 0"
  by (simp_all add: c_str_def special_chars lower_code_def to_lower_def is_upper_def)

lemma request_received:
  assumes "request_ok r" "rq_url r = target_text path query frag" "target_ok path query frag" "smap CaseInsensitiveLess (rq_headers r)"
    and "length (rq_body r) < 2 ^ 31" "rq_body r = [] \<longrightarrow> ci_find ''content-length'' (rq_headers r) = None"
    and "in_ok s" "incoming s = (request_head r @ b) # segs" "length (request_head r @ b) \<le> buff_size" "in_data s = rq_dump r @ extra"
    and "lexical_cast (show_nat (length (rq_body r))) = Some (word_of_nat (length (rq_body r)))"
  shows "\<exists>s'. recvRequest (request_scanner q0) lexical_cast (Suc fuel) s = Some (Some (rq_init ((parsed_request r path query frag)\<lparr>rq_body := rq_body r\<rparr>)), s')
    \<and> st_isConnected s' \<and> kept s' = kept s"
proof -
  let ?n = "length (rq_body r)" and ?r = "parsed_request r path query frag" and ?s = "after_reading segs s"
  obtain q where q: "recv_loop (request_scanner q0) (Suc fuel) (HttpRequestParser_ctor (request_scanner q0)) [] s
    = Some (Some (\<lparr>rp_parser = q, rp_data = ?r, rp_error = 0\<rparr>, b), ?s)"
    using request_head_received [OF assms(1-3) _ assms(8,9)] assms(7) by (metis in_ok_def)
  let ?p = "\<lparr>rp_parser = q, rp_data = ?r, rp_error = 0\<rparr>"
  have len: "int64_of_u64 (rp_getContentLength lexical_cast ?p) = int ?n"
  proof -
    have "rp_getContentLength lexical_cast ?p = word_of_nat ?n"
      using parsed_request_header [OF assms(4), of "''content-length''"] no_length_find [OF assms(4) content_length_name(1)] content_length_name(2) assms(6,11)
      by (auto simp: rp_getContentLength_def rq_getHeaderEntryAs_def getAs_def)
    moreover have "sint (word_of_nat ?n :: u64) = int ?n" using assms(5) by (simp add: signed_of_nat signed_take_bit_int_eq_self)
    ultimately show ?thesis by (simp add: int64_of_u64_def)
  qed
  have ok: "in_ok ?s" "in_data ?s = concat segs" using assms(7,8) by (simp_all add: in_ok_def in_data_def)
  show ?thesis
  proof (cases "rq_body r = []")
    case True
    then have "?r\<lparr>rq_body := []\<rparr> = ?r" using parsed_request_fields(6) [of r] by simp
    then show ?thesis using q len True ok(1) by (simp add: recvRequest_def in_ok_def)
  next
    case False
    have e: "b @ concat segs = rq_body r @ extra" using assms(8,10) request_dump_text [OF assms(1)] by (simp add: in_data_def)
    have "?n \<le> length b + length (concat segs)" using arg_cong [OF e, of length] by simp
    then obtain s' where s': "recv_body (int ?n) b ?s = (Some (take ?n (b @ concat segs)), s')" "in_ok s'"
      using ok recv_body_spec [of ?s "int ?n" b] False assms(5) by auto
    moreover have "take ?n (b @ concat segs) = rq_body r" unfolding e by simp
    ultimately show ?thesis using q len False recv_body_kept [OF s'(1)] by (simp add: recvRequest_def in_ok_def)
  qed
qed

text \<open>
  C11: The server reads what a client prints.  The request has one of the 34 methods and the
  version 1.0 or 1.1 (the version 0 of a new one is refused as malformed); its URL is a path
  with an optional query and fragment, the path beginning with one slash, not two, and all
  three of the characters the scanner takes there without a percent sign; its headers,
  \<^verbatim>\<open>connection\<close> aside, have names of token characters and non-empty values without control
  characters that do not begin with a blank; its body is shorter than 2^31, and if it has none
  it has no \<^verbatim>\<open>content-length\<close> header; \<^verbatim>\<open>lexical_cast\<close> reads the digits of its length.  Such a request, printed, is received when its head
  comes in one piece that the buffer has room for, the rest in any division, with the same
  method, path, query, fragment, version and body, and the same headers except
  \<^verbatim>\<open>connection\<close> and \<^verbatim>\<open>content-length\<close>, for any content of the memory the scanner's structure is
  created in.
\<close>

theorem request_read_back:
  assumes "request_ok r" "rq_url r = target_text path query frag" "target_ok path query frag" "smap CaseInsensitiveLess (rq_headers r)"
    and "length (rq_body r) < 2 ^ 31" "rq_body r = [] \<longrightarrow> ci_find ''content-length'' (rq_headers r) = None"
    and "in_ok s" "incoming s = (request_head r @ b) # segs" "length (request_head r @ b) \<le> buff_size" "in_data s = rq_dump r @ extra"
    and "lexical_cast (show_nat (length (rq_body r))) = Some (word_of_nat (length (rq_body r)))"
  shows "\<exists>r' s'. recvRequest (request_scanner q0) lexical_cast (Suc fuel) s = Some (Some r', s')
    \<and> rq_method r' = rq_method r \<and> rq_path r' = path \<and> rq_query r' = query \<and> rq_fragment r' = frag \<and> rq_version r' = rq_version r \<and> rq_body r' = rq_body r
    \<and> (\<forall>k. strcasecmp (c_str ''connection'') (c_str k) \<noteq> 0 \<longrightarrow> strcasecmp (c_str ''content-length'') (c_str k) \<noteq> 0 \<longrightarrow>
         rq_getHeaderEntry k r' = rq_getHeaderEntry k r)"
proof -
  let ?r = "rq_init ((parsed_request r path query frag)\<lparr>rq_body := rq_body r\<rparr>)"
  have "rq_getHeaderEntry k ?r = rq_getHeaderEntry k r"
    if "strcasecmp (c_str ''connection'') (c_str k) \<noteq> 0" "strcasecmp (c_str ''content-length'') (c_str k) \<noteq> 0" for k
    using parsed_request_header [OF assms(4)] no_length_find [OF assms(4) that(1)] that(2) by (simp add: rq_getHeaderEntry_def find_or_empty_def)
  then show ?thesis
    using request_received [where lexical_cast = lexical_cast and fuel = fuel and ?q0.0 = q0, OF assms] parsed_request_fields [of r path query frag] by fastforce
qed

lemma fail_stays:
  assumes "hq_fail q" "scan m (req_act buf) cs p rest q = (es, cs', p', q')"
  shows "hq_fail q'"
proof -
  have "hq_fail q1" if "do_actions (req_act buf) as p q = (es, q1, out)" "hq_fail q" for as p q es q1 out
    using that
  proof (induction as arbitrary: q es q1 out)
    case (Cons a as)
    obtain es1 q2 o2 where a: "req_act buf a p q = (es1, q2, o2)" by (metis surj_pair)
    have "hq_fail q2" using a Cons.prems(2) by (cases a) (auto split: if_splits)
    then show ?case using Cons a by (cases o2) (auto split: prod.splits)
  qed simp
  then show ?thesis using scan_state_inv [of "\<lambda>cs p. hq_fail" m "req_act buf" cs p q rest es cs' p' q'] assms by blast
qed

text \<open>
  A query that is split over two reads ends the program.  When a buffer ends within
  the query of a request and the query ends in the next one, at a smaller position than
  where it began, its length is computed from the mark of the first buffer and wraps
  around: the callback's string throws, and nothing catches the exception.
\<close>

theorem split_query_throws:
  assumes "m < 34" "target_path path" "query \<noteq> []" "list_all (in_ranges query_ranges) query"
    and "list_all (in_ranges query_ranges) w" "length w < length (HttpMethodToString m) + length path + 2" "\<not> hq_fail q0"
  shows "\<exists>es q n. http_parser_execute (http_parser_init q0) (HttpMethodToString m @ '' '' @ path @ ''?'' @ query) = Inr (es, q, n)
    \<and> http_parser_execute q (w @ '' '' @ rest) = Inl Length_error"
proof -
  let ?M = "req_machine (hq_uri_relaxed q0 \<noteq> 0)" and ?h = "HttpMethodToString m @ '' '' @ path @ ''?''" let ?buf = "?h @ query"
  obtain c v where c: "query = c # v" "in_ranges query_ranges c" "list_all (in_ranges query_ranges) v" using assms(3,4) by (cases query) auto
  have "m \<noteq> method_UNKNOW" using assms(1) by (simp add: method_UNKNOW_def)
  note 1 = method_phase [OF method_name_ok [OF assms(1)] method_prefix [OF assms(1)] this]
  have "phase (hq_uri_relaxed q0 \<noteq> 0) ?buf 1 0 ((HttpMethodToString m @ '' '') @ path @ ''?'') 29 (\<lambda>r. r\<lparr>rq_method := m, rq_path := path\<rparr>)"
    using phase_seq [OF 1 path_phase [OF assms(2)]] by simp
  moreover have "drop 0 ?buf = ((HttpMethodToString m @ '' '') @ path @ ''?'') @ query" by simp
  ultimately obtain es q1 where 2: "scan ?M (req_act ?buf) 1 0 (((HttpMethodToString m @ '' '') @ path @ ''?'') @ query) (unmarked (http_parser_init q0))
      = prepend es (scan ?M (req_act ?buf) 29 (0 + length ((HttpMethodToString m @ '' '') @ path @ ''?'')) query q1)"
    "same_req (unmarked (http_parser_init q0)) q1"
    unfolding phase_def by blast
  let ?p = "length ?h" let ?q2 = "q1\<lparr>hq_query_start := ?p\<rparr>"
  have "scan ?M (req_act ?buf) 29 ?p query q1 = scan ?M (req_act ?buf) 30 (Suc ?p) (v @ []) ?q2"
    using scan_step [OF request_class_moves(2) [OF c(2)], where act = "req_act ?buf" and p = ?p and q = q1] by (simp add: c(1) del: scan.simps)
  also have "\<dots> = ([], 30, Suc ?p + length v, ?q2)" unfolding request_loops(2) [OF c(3)] by simp
  finally have "scan ?M (req_act ?buf) 1 0 ?buf (unmarked (http_parser_init q0)) = (es, 30, Suc ?p + length v, ?q2)"
    using 2(1) by (simp del: scan.simps)
  moreover have start: "\<not> hq_fail ?q2" "hq_body_start q1 = 0" using 2(2) assms(7) by (simp_all add: same_req_def http_parser_init_def)
  ultimately have q: "http_parser_execute (http_parser_init q0) ?buf = Inr (es, ?q2\<lparr>hq_cs := 30, hq_nread := Suc ?p + length v\<rparr>, Suc ?p + length v)"
    using request_frame [of ?buf "http_parser_init q0" es 30 "Suc ?p + length v" ?q2] by (simp add: http_parser_init_def)
  define q where "q = ?q2\<lparr>hq_cs := 30, hq_nread := Suc ?p + length v\<rparr>"
  let ?b = "w @ '' '' @ rest" and ?R = "req_machine (hq_uri_relaxed q \<noteq> 0)"
  let ?q = "(unmarked q)\<lparr>hq_fail := True\<rparr>"
  have "scan ?R (req_act ?b) 30 0 ?b (unmarked q) = scan ?R (req_act ?b) 30 (length w) ('' '' @ rest) (unmarked q)"
    using request_loops(2) [OF assms(5), of "hq_uri_relaxed q \<noteq> 0" "req_act ?b" 0] by simp
  also have "\<dots> = prepend [On_request_uri ?b (length w)] (scan ?R (req_act ?b) 4 (Suc (length w)) rest ?q)"
    using scan_step [OF request_moves(5), where act = "req_act ?b" and p = "length w" and q = "unmarked q"] assms(6) by (simp add: q_def del: scan.simps)
  finally have s: "scan ?R (req_act ?b) 30 0 ?b (unmarked q) = prepend [On_request_uri ?b (length w)] (scan ?R (req_act ?b) 4 (Suc (length w)) rest ?q)" .
  obtain es' cs' p' q' where r: "scan ?R (req_act ?b) 4 (Suc (length w)) rest ?q = (es', cs', p', q')" by (metis surj_pair)
  have "hq_fail q'" using fail_stays [OF _ r] by simp
  moreover have "hq_cs q = 30" "hq_body_start q = 0" using start by (simp_all add: q_def)
  ultimately have "http_parser_execute q ?b = Inl Length_error" using request_frame [of ?b q] s r by simp
  then show ?thesis using q unfolding q_def by auto
qed

lemma empty_target_move: "move (req_machine relaxed) 3 (CHR '' '') = Some ([Req_mark, Req_path, Req_uri], 4)"
proof -
  have "find_trans 6 (req_machine relaxed) = ([Req_mark, Req_path, Req_uri], 4)"
    by (rule find_trans_in [OF req_distinct(2)]) (simp add: req_machine_def req_items2_def)
  then show ?thesis unfolding move_def req_rows by (simp add: wide_def char_val_def)
qed

text \<open>A request line with an empty target and a version that does not begin with 1.\<close>

lemma bad_version_rejected:
  assumes "m < 34" "st_isConnected s" "incoming s = (HttpMethodToString m @ ''  HTTP/0'' @ x) # segs"
    and "length (HttpMethodToString m @ ''  HTTP/0'' @ x) \<le> buff_size"
  shows "recvRequest (request_scanner q0) lexical_cast (Suc fuel) s = Some (None, st_close (after_reading segs s))"
proof -
  let ?q = "http_parser_init (q0\<lparr>hq_fail := False\<rparr>)" and ?w = "HttpMethodToString m @ '' ''"
  let ?buf = "HttpMethodToString m @ ''  HTTP/0'' @ x" and ?M = "req_machine (hq_uri_relaxed q0 \<noteq> 0)" and ?sc = "request_scanner q0"
  have "m \<noteq> method_UNKNOW" using assms(1) by (simp add: method_UNKNOW_def)
  note 1 = method_phase [OF method_name_ok [OF assms(1)] method_prefix [OF assms(1)] this]
  have "drop 0 ?buf = ?w @ '' HTTP/0'' @ x" by simp
  then obtain es q1 where 2: "scan ?M (req_act ?buf) 1 0 (?w @ '' HTTP/0'' @ x) (unmarked ?q) = prepend es (scan ?M (req_act ?buf) 3 (0 + length ?w) ('' HTTP/0'' @ x) q1)"
    "same_req (unmarked ?q) q1"
    "\<And>P :: http_parser request_parser. fold request_callback es P = P\<lparr>rp_data := (rp_data P)\<lparr>rq_method := m\<rparr>\<rparr>"
    using 1 [of "hq_uri_relaxed q0 \<noteq> 0" ?buf 0] unfolding phase_def by blast
  let ?p = "length ?w" let ?q2 = "q1\<lparr>hq_mark := ?p\<rparr>" let ?q3 = "?q2\<lparr>hq_mark := Suc ?p\<rparr>"
  let ?e = "[On_request_path (drop ?p ?buf) 0, On_request_uri (drop ?p ?buf) 0]"
  have z: "move ?M 9 (CHR ''0'') = Some ([], 0)" unfolding move_def req_rows by (simp add: char_val_def)
  have "scan ?M (req_act ?buf) 3 ?p ('' HTTP/0'' @ x) q1 = prepend ?e (scan ?M (req_act ?buf) 4 (Suc ?p) (''HTTP/0'' @ x) ?q2)"
    using scan_step [OF empty_target_move, where act = "req_act ?buf" and p = ?p and q = q1] by (simp del: scan.simps)
  also have "scan ?M (req_act ?buf) 4 (Suc ?p) (''HTTP/0'' @ x) ?q2 = scan ?M (req_act ?buf) 5 (Suc (Suc ?p)) (''TTP/0'' @ x) ?q3"
    using scan_step [OF request_moves(8), where act = "req_act ?buf" and p = "Suc ?p" and q = ?q2] by (simp del: scan.simps)
  also have "\<dots> = scan ?M (req_act ?buf) 9 (?p + 6) (''0'' @ x) ?q3"
    by (simp add: scan_silent [OF request_moves(9)] scan_silent [OF request_moves(10)] scan_silent [OF request_moves(11)]
        scan_silent [OF request_moves(12)] del: scan.simps) (simp add: numeral_eq_Suc del: scan.simps)
  also have "\<dots> = ([], 0, ?p + 6, ?q3)" using z by simp
  finally have s: "scan ?M (req_act ?buf) 1 0 ?buf (unmarked ?q) = (es @ ?e, 0, ?p + 6, ?q3)" using 2(1) by (simp del: scan.simps)
  have "\<not> hq_fail ?q3" using 2(2) by (simp add: same_req_def http_parser_init_def)
  then have ex: "http_parser_execute ?q ?buf = Inr (es @ ?e, ?q3\<lparr>hq_cs := 0, hq_nread := ?p + 6\<rparr>, ?p + 6)"
    using request_frame [of ?buf ?q] s by (simp add: http_parser_init_def)
  let ?q4 = "?q3\<lparr>hq_cs := 0, hq_nread := ?p + 6\<rparr>"
  obtain P where P: "rp_execute ?sc ?buf (HttpRequestParser_ctor ?sc) = (?p + 6, drop (?p + 6) ?buf, P)" "rp_parser P = ?q4"
    using ex 2(3) by (simp add: rp_execute_def request_scanner_def HttpRequestParser_ctor_def on_request_path_def)
  have "rp_hasError ?sc P" using P(2) by (simp add: rp_hasError_def request_scanner_def http_parser_has_error_def)
  moreover have "\<not> int (length ?buf) \<le> 0" by simp
  ultimately have "recv_loop ?sc (Suc fuel) (HttpRequestParser_ctor ?sc) [] s = Some (None, st_close (after_reading segs s))"
    using st_read_segment [OF assms(2-4)] P(1) by (simp del: length_append)
  then show ?thesis by (simp add: recvRequest_def)
qed

lemma request_line_prefix:
  assumes "rq_dump (uri_request m u headers body) = seg @ extra" "length (HttpMethodToString m) + 8 \<le> length seg"
  obtains x where "seg = HttpMethodToString m @ ''  HTTP/0'' @ x"
proof -
  let ?w = "HttpMethodToString m @ ''  HTTP/0''"
  obtain rest where "rq_dump (uri_request m u headers body) = HttpMethodToString m @ ''  HTTP/0.0'' @ CRLF @ rest"
    using request_line_empty [of m u headers body] by blast
  then have "seg @ extra = ?w @ ''.0'' @ CRLF @ rest" using assms(1) by simp
  then have "take (length ?w) (seg @ extra) = ?w" by simp
  then have "take (length ?w) seg = ?w" using assms(2) by simp
  then show thesis using that [of "drop (length ?w) seg"] by (metis append_assoc append_take_drop_id)
qed

definition demo_request :: http_request where
  "demo_request = HttpRequest_default\<lparr>rq_method := 3, rq_url := ''/a?b=1#c'', rq_version := 0x11, rq_headers := [(''host'', ''q'')], rq_body := ''hi''\<rparr>"

lemma demo_request_facts:
  "request_ok demo_request" "rq_url demo_request = target_text ''/a'' ''b=1'' ''c''" "target_ok ''/a'' ''b=1'' ''c''"
  "smap CaseInsensitiveLess (rq_headers demo_request)" "length (rq_body demo_request) < 2 ^ 31"
  "rq_body demo_request = [] \<longrightarrow> ci_find ''content-length'' (rq_headers demo_request) = None" "rq_body demo_request = ''hi''"
  "length (request_head demo_request @ ''h'') \<le> buff_size"
  "demo_cast (show_nat (length (rq_body demo_request))) = Some (word_of_nat (length (rq_body demo_request)))"
proof -
  have "req_header_ok ''host'' ''q''"
    by (simp add: req_header_ok_def value_char_def is_token_def in_ranges_def token_ranges_def char_val_def is_blank_def special_chars)
  then show "request_ok demo_request" by (simp add: request_ok_def demo_request_def)
  show "rq_url demo_request = target_text ''/a'' ''b=1'' ''c''" by (simp add: demo_request_def target_text_def)
  show "target_ok ''/a'' ''b=1'' ''c''" by (simp add: target_ok_def target_path_def in_ranges_def range_defs char_val_def)
  show "smap CaseInsensitiveLess (rq_headers demo_request)" "length (rq_body demo_request) < 2 ^ 31"
    "rq_body demo_request = [] \<longrightarrow> ci_find ''content-length'' (rq_headers demo_request) = None" "rq_body demo_request = ''hi''"
    by (simp_all add: demo_request_def smap_def)
  show "length (request_head demo_request @ ''h'') \<le> buff_size"
    by (simp add: request_head_def request_text_def printed_request_headers_def demo_request_def headers_text_def header_text_def show_digit CRLF_def
        HttpMethodToString_def enum_name_def HTTP_METHOD_MAP_def buff_size_def)
  show "demo_cast (show_nat (length (rq_body demo_request))) = Some (word_of_nat (length (rq_body demo_request)))"
    by (simp add: demo_request_def demo_cast_def show_digit)
qed

theorem request_read_back_witness:
  "\<exists>r' s'. recvRequest (request_scanner blank_memory) demo_cast 1 (demo_stream [request_head demo_request @ ''h'', ''i'']) = Some (Some r', s')
     \<and> rq_path r' = ''/a'' \<and> rq_query r' = ''b=1'' \<and> rq_body r' = ''hi''"
proof -
  let ?s = "demo_stream [request_head demo_request @ ''h'', ''i'']"
  note d = demo_request_facts
  have i: "in_ok ?s" "incoming ?s = (request_head demo_request @ ''h'') # [''i'']" "in_data ?s = rq_dump demo_request @ []"
    using request_dump_text [OF d(1)] d(7) by (simp_all add: in_ok_def in_data_def demo_stream_def SockStream_ctor_def st_isConnected_def)
  show ?thesis
    using request_read_back [where lexical_cast = demo_cast and fuel = 0 and ?q0.0 = blank_memory, OF d(1-6) i(1,2) d(8) i(3) d(9)] d(7) by auto
qed

theorem split_query_throws_witness:
  "\<exists>es q n. http_parser_execute (http_parser_init blank_memory) ''GET /a?b'' = Inr (es, q, n)
     \<and> http_parser_execute q '' HTTP/1.1'' = Inl Length_error"
proof -
  have "target_path ''/a''" "list_all (in_ranges query_ranges) ''b''" "HttpMethodToString 1 = ''GET''"
    by (simp_all add: target_path_def in_ranges_def range_defs char_val_def HttpMethodToString_def enum_name_def HTTP_METHOD_MAP_def)
  then show ?thesis using split_query_throws [of 1 "''/a''" "''b''" "[]" blank_memory "''HTTP/1.1''"] by (simp add: blank_memory_def)
qed

end
