(* ===== verification/Spec2Isabelle.thy ===== *)
theory Spec2Isabelle
  imports Thread TcpServer Hook ByteArray Timer IOManager FdManager Servlet Address Socket SockStream HttpParser HttpServer Logger EventLoop ResponseLines RequestLines
begin

text \<open>
  A verification of qslary, a C++ network library: fibers over \<^verbatim>\<open>ucontext\<close>, an epoll-driven
  I/O manager, hooks of blocking system calls, an HTTP server and client, and their
  supporting parts.  Each theory translates one part of \<^verbatim>\<open>src/qslary\<close>; the comment before a
  definition gives the file, the line and the member it translates.

  \<^bold>\<open>The parts and how they interact.\<close>  A \<^verbatim>\<open>Scheduler\<close> runs callbacks as fibers of one thread
  (\<^verbatim>\<open>base/Fiber\<close>, \<^verbatim>\<open>net/Scheduler\<close>).  An \<^verbatim>\<open>IOManager\<close> is a scheduler with a timer queue
  (\<^verbatim>\<open>net/Timer\<close>) and an epoll instance whose events queue callbacks.  The hooks
  (\<^verbatim>\<open>base/Hook\<close>) turn a blocking call into a registration with the manager and a yield, using
  the table of descriptor contexts (\<^verbatim>\<open>net/FdManager\<close>).  Sockets and addresses carry byte
  streams (\<^verbatim>\<open>net/Socket\<close>, \<^verbatim>\<open>Address\<close>, \<^verbatim>\<open>Stream\<close>, \<^verbatim>\<open>ByteArray\<close>); \<^verbatim>\<open>TcpServer\<close> accepts clients
  on workers; \<^verbatim>\<open>HttpServer\<close> reads requests from them with a generated scanner and answers
  through servlets; \<^verbatim>\<open>HttpConnection\<close> is the client, with URLs, response scanning,
  chunked bodies and a pool.  A second, independent loop is \<^verbatim>\<open>EventLoop\<close> with its channels and
  poller, started in a thread of its own by \<^verbatim>\<open>EventLoopThread\<close>.  Locks, latches and threads
  are in \<^verbatim>\<open>base\<close>, as are the configuration and the loggers it configures.

  \<^bold>\<open>Theories and sources.\<close>
  \<^item> \<open>Prelude\<close>, \<open>Containers\<close>: integer types, errors as values (\<^verbatim>\<open>assert\<close>, exceptions and undefined
    behaviour are the left of a sum), \<^verbatim>\<open>size_t\<close> arithmetic, memory blocks, printing; ordered
    sets and maps as sorted lists with locales for the orders they use.
  \<^item> \<open>Sync\<close>: \<^verbatim>\<open>base/Mutex.h\<close>, \<^verbatim>\<open>Condition\<close>, \<^verbatim>\<open>CountDownLatch\<close>, \<^verbatim>\<open>Atomic.h\<close>; \<open>Thread\<close>: \<^verbatim>\<open>base/Thread\<close>,
    \<^verbatim>\<open>CurrentThread.h\<close>, \<^verbatim>\<open>net/EventLoopThread\<close>.  Threads are lists of steps on shared objects,
    interleaved by a step relation.
  \<^item> \<open>Fiber\<close>, \<open>Scheduler\<close>: a callback is a list of what it does; a saved context is where the
    callback continues; a fiber pointer is a position in the list of fibers.
  \<^item> \<open>Timestamp\<close>, \<open>Timer\<close>: microseconds in 64 bits, doubles as mantissa and exponent rounded as
    IEEE does; timers in an explicit heap, so that dangling pointers are visible.
  \<^item> \<open>FdManager\<close>, \<open>IOManager\<close>, \<open>Hook\<close>: the vector of contexts, the epoll interest list, and the
    hooked calls up to and from the yield.
  \<^item> \<open>Poll\<close>, \<open>EventLoop\<close>: \<^verbatim>\<open>net/Channel\<close>, \<^verbatim>\<open>net/Poller\<close>, \<^verbatim>\<open>poller/Epoller\<close>, \<^verbatim>\<open>net/EventLoop\<close>.
  \<^item> \<open>Endian\<close>, \<open>ByteArray\<close>: byte order, the buffer of \<^verbatim>\<open>net/ByteArray\<close> and its integer codecs.
  \<^item> \<open>Address\<close>, \<open>Socket\<close>, \<open>SockStream\<close>, \<open>TcpServer\<close>: the files of these names in \<^verbatim>\<open>net\<close>, \<open>SockStream\<close>
    with \<^verbatim>\<open>Stream\<close>.
  \<^item> \<open>Http\<close>, \<open>Servlet\<close>, \<open>HttpParser\<close>, \<open>HttpServer\<close>, \<open>HttpConnection\<close>: the files of these names in
    \<^verbatim>\<open>http\<close>, \<open>HttpServer\<close> with \<^verbatim>\<open>HttpSession\<close> and \<open>HttpConnection\<close> with \<^verbatim>\<open>base/util\<close>; \<open>HttpClient\<close> has the
    theorems about the client.
  \<^item> \<open>Ragel\<close>: what generated scanners have in common, a table of states with the actions of each
    transition, and its checkers; \<open>RequestScanner\<close>, \<open>ResponseScanner\<close>, \<open>UriScanner\<close>: the state
    machines of \<^verbatim>\<open>http_request_parser.cc\<close>, \<^verbatim>\<open>http_response_parser.cc\<close> and \<^verbatim>\<open>uri.cc\<close>, label by label;
    \<open>RequestLines\<close>, \<open>ResponseLines\<close>, \<open>Uri\<close>: what they make of printed messages and URLs.
  \<^item> \<open>LogFormat\<close>, \<open>Logger\<close>, \<open>Config\<close>: \<^verbatim>\<open>base/Logger\<close> and \<^verbatim>\<open>base/Config\<close>, over an explicit store of
    shared loggers and appenders.
  \<^item> This theory: theorems across the client, the server and the scanners.

  \<^bold>\<open>What the lemmas show.\<close>  Invariants: the two sets of the timer queue and its heap agree under
  every operation and under callbacks that change the queue while it runs; the epoll interest
  list is what the channels ask for, except where the kernel refused a call or a descriptor was
  closed, which the code does not notice; the pool counts its connections; a configuration variable
  keeps its type.  Safety: no assertion fails and no fiber, timer, descriptor, logger or lock is
  misused in any reachable state of its component; the generated scanners read inside their
  input; threads inside a lock are alone and recorded as its holder.  Liveness: a stopped
  scheduler ends after running its callbacks in order; queued functors run; a latch leaves no
  waiter behind; a sleeping fiber is resumed.  Refinement: the byte buffer is a queue of bytes.
  Round trips: integers, methods, status codes, URLs, requests and responses are read back from
  what is printed, in any division into reads that the code can handle; log patterns and the
  flags of \<^verbatim>\<open>fcntl\<close> likewise.  Termination: receiving a request ends.  Error behaviour: where the
  code ends in an assertion, an exception or undefined behaviour, a theorem says exactly when.

  \<^bold>\<open>Arguments of the model.\<close>  What the code does not define is an argument: the system calls of
  a socket, the results of \<^verbatim>\<open>epoll_wait\<close>, the clock, \<^verbatim>\<open>malloc\<close>, \<^verbatim>\<open>getaddrinfo\<close>, \<^verbatim>\<open>strftime\<close>, the
  YAML library, \<^verbatim>\<open>lexical_cast\<close>, and how the network divides a stream into reads.  Hypotheses on
  them state documented behaviour and are instantiated in the witnesses.

  \<^bold>\<open>The kernel.\<close>  \<^verbatim>\<open>epoll_ctl\<close> is modelled as documented, in \<open>IOManager\<close> and \<open>Poll\<close>: it refuses a
  descriptor the kernel does not accept in that call (not open, not to be watched, no room),
  an addition of one that is there and a change or removal of one that is not; and a descriptor
  that is closed leaves the interest list, a descriptor being taken for the only one of its open
  file.  \<^verbatim>\<open>F_SETFL\<close> changes the flags that \<^verbatim>\<open>fcntl\<close> documents as changeable and no others.

  \<^bold>\<open>Bounds and fuel.\<close>  Loops that may run for ever have fuel, and \<open>None\<close> is running out of it.  The
  scheduler's loop is shown to end for all large enough fuel; the receive loops need one round per
  byte that arrives, as each read takes at least one, and one more; one more round serves each
  request of a connection; the scanners take one step per character and need no fuel.  Integers
  keep their width wherever it matters; lengths of messages are below 2^31, and what is received
  into one buffer is at most the configured size of it.

  \<^bold>\<open>Not modelled.\<close>  Stack traces and exception texts (\<^verbatim>\<open>base/CurrentThread.cc\<close>, \<^verbatim>\<open>Exception\<close>) and
  the terminal and log output of the other parts, which have no effect on their state; the lookup
  of original functions with \<^verbatim>\<open>dlsym\<close>; tag classes and macros; the file \<^verbatim>\<open>poller/DefaultPoller.cc\<close>,
  one factory line; tests, experiments and files that CMake generates.  Schedulers and event
  loops have one thread here: the locks around their queues, which \<open>Sync\<close> treats, do not appear
  in them, and \<^verbatim>\<open>is_thread_scheduler\<close>, which is \<^verbatim>\<open>thread_local\<close>, is one flag.  Fibers stay in the list
  of fibers when the last pointer to them is gone: the destructor's assertions on their state,
  and its count, are not modelled, and neither is their memory.  Stacks of fibers are as large as
  they need to be, and spin locks are left out.
\<close>

section \<open>A request and its answer\<close>

text \<open>
  C4: A request is answered from end to end.  The URL has no user information, a port
  from 0 up to 2^31 - 1 and a path that is empty or begins with a slash, and its parts are of
  the characters the URL scanner takes there without a percent sign; its host resolves, the
  connection is accepted and the socket takes a receive timeout; the printed request is shorter than 2^31, and no write of the connection comes to nothing.  The server's
  answer is a printed response of version 1.0 or 1.1 whose printed reason and headers are in
  the scanner's syntax, none of them \<^verbatim>\<open>transfer-encoding\<close>, with a body shorter than 2^31 or with
  neither a body nor a \<^verbatim>\<open>content-length\<close> header; \<^verbatim>\<open>lexical_cast\<close> reads the digits of a length; its head comes in one piece that the buffer
  has room for, the rest in any division.  Then \<^verbatim>\<open>DoGet\<close> of the printed URL sends exactly the
  printed request and returns \<^verbatim>\<open>OK\<close> with the response's status and body; the connection is
  closed.
\<close>

theorem get_answered:
  assumes "url_ok u" "createAddress (ce_big env) (ce_getaddrinfo env) u = Inr (Some addr)"
    and "connect (ce_os env) addr (- 1) (CreateTCPSocket_addr addr) = Inr (True, sock)"
    and "(SOL_SOCKET, SO_RCVTIMEO) \<in> set (os_setsockopt (ce_os env))"
    and "length (rq_dump (uri_request method_GET u headers body)) < 2 ^ 31"
    and "0 \<notin> set (c_caps (ce_conn env))" "c_out (ce_conn env) = []"
    and "c_in (ce_conn env) = (head_text r @ b) # segs" "[] \<notin> set segs" "length (head_text r @ b) \<le> buff_size"
    and "response_ok r" "framed (ce_lexical_cast env) r" "head_text r @ b @ concat segs = rs_dump r"
  shows "\<exists>rsp s. DoGet env rounds (Suc fuel) (uri_toString u) timeout headers body = Some (Inr (HttpResult_ctor OK (Some rsp) ''OK'', Some s))
    \<and> rs_status rsp = rs_status r \<and> rs_body rsp = rs_body r
    \<and> out_data s = rq_dump (uri_request method_GET u headers body) \<and> \<not> st_isConnected s"
proof -
  let ?req = "uri_request method_GET u headers body" and ?segs = "(head_text r @ b) # segs"
  let ?s = "hc_stream (HttpConnection_ctor sock True (ce_conn env))"
  have "duplex_ok ?segs ?s" using connect_connected [OF assms(3)] assms(6,8)
    by (simp add: duplex_ok_def out_ok_def HttpConnection_ctor_def SockStream_ctor_def st_isConnected_def)
  moreover have "out_data ?s = []" using assms(7) by (simp add: out_data_def HttpConnection_ctor_def SockStream_ctor_def)
  ultimately obtain s1 where s1: "sendRequest ?req ?s = (int (length (rq_dump ?req)), s1)" "duplex_ok ?segs s1" "out_data s1 = rq_dump ?req"
    using sendRequest_spec [OF _ assms(5)] by fastforce
  then have i: "in_ok s1" "incoming s1 = ?segs" "in_data s1 = rs_dump r @ []"
    using assms(9,11,13) dump_text [of r] by (auto simp: duplex_ok_def out_ok_def in_ok_def in_data_def head_text_def response_head_def)
  obtain s2 where s2: "recvResponse (ce_lexical_cast env) rounds (Suc fuel) s1 = Some (Inr (Some ((parsed_head r)\<lparr>rs_body := rs_body r\<rparr>), s2))"
    using dump_received [where lexical_cast = "ce_lexical_cast env" and rounds = rounds and fuel = fuel, OF assms(11,12) i(1,2) assms(10) i(3)] by blast
  have k: "out_data s2 = rq_dump ?req" "st_ower s2" using recvResponse_kept [OF s2] s1(2,3) by (simp_all add: kept_def duplex_ok_def)
  then have gone: "out_data (SockStream_dtor s2) = rq_dump ?req" "\<not> st_isConnected (SockStream_dtor s2)"
    by (simp_all add: SockStream_dtor_def) (simp add: st_isConnected_def)
  have normal_request: "uri_request method_GET (normal_url u) headers body = ?req"
    by (simp add: uri_request_def normal_url_def getPath_def Let_def split: prod.split)
  have "createAddress (ce_big env) (ce_getaddrinfo env) (normal_url u) = Inr (Some addr)" using assms(2) by (simp add: createAddress_normal)
  moreover have "setRecvTimeout (ce_os env) timeout = Inr (True, send_timeval timeout)" using assms(4) by (simp add: setRecvTimeout_def setOption_def)
  ultimately have "DoRequest_req env rounds (Suc fuel) ?req (normal_url u) timeout
      = Some (Inr (HttpResult_ctor OK (Some ((parsed_head r)\<lparr>rs_body := rs_body r\<rparr>)) ''OK'', Some (SockStream_dtor s2)))"
    using assms(3) s1(1) s2 dump_positive [of ?req] by (simp add: DoRequest_req_def Let_def)
  then have "DoGet env rounds (Suc fuel) (uri_toString u) timeout headers body
      = Some (Inr (HttpResult_ctor OK (Some ((parsed_head r)\<lparr>rs_body := rs_body r\<rparr>)) ''OK'', Some (SockStream_dtor s2)))"
    using normal_request by (simp add: DoGet_def with_uri_def printed_url_parsed [OF assms(1)] DoGet_uri_def DoRequest_uri_def)
  then show ?thesis using gone by (auto simp: parsed_head_def)
qed

definition answering_env :: client_env where
  "answering_env = demo_env\<lparr>ce_conn := \<lparr>c_in = [head_text demo_response @ ''h'', ''i'' @ CRLF], c_out = [], c_caps = []\<rparr>, ce_lexical_cast := demo_cast\<rparr>"

theorem get_answered_witness:
  "\<exists>rsp s. DoGet answering_env 0 1 (uri_toString demo_uri) 1000 [] [] = Some (Inr (HttpResult_ctor OK (Some rsp) ''OK'', Some s)) \<and> rs_body rsp = ''hi''"
proof -
  let ?addr = "SetPort False 80 (IPv4Address (IPv4_ctor False 0x7F000001 0))"
  have u: "url_ok demo_uri" by (simp add: demo_uri_def url_ok_def in_ranges_def range_defs char_val_def)
  have a: "createAddress (ce_big answering_env) (ce_getaddrinfo answering_env) demo_uri = Inr (Some ?addr)"
    by (simp add: createAddress_def answering_env_def demo_env_def demo_uri_def HostNameToAddress_def split_hostname_def uri_GetPort_def assert_r_def Let_def)
  have c: "connect (ce_os answering_env) ?addr (- 1) (CreateTCPSocket_addr ?addr) = Inr (True, (CreateTCPSocket_addr ?addr)\<lparr>socketfd := 7, isConnected := True\<rparr>)"
    by (simp add: answering_env_def demo_env_def connect_def CreateTCPSocket_addr_def Socket_ctor_def isVaild_def newSock_def initSock_def
      setOption_def getRemoteAddress_def getLocalAddress_def known_family_def assert_r_def IPv4_SetPort_def IPv4_ctor_def IPv4_default_def AF_INET_def)
  have l: "length (rq_dump (uri_request method_GET demo_uri [] [])) < 2 ^ 31"
    by (simp add: rq_dump_def uri_request_def demo_uri_def HttpRequest_default_def rq_setHeaderEntry_def version_zero header_lines_def CRLF_def
      method_GET_def HttpMethodToString_def enum_name_def HTTP_METHOD_MAP_def)
  have e: "(SOL_SOCKET, SO_RCVTIMEO) \<in> set (os_setsockopt (ce_os answering_env))" "0 \<notin> set (c_caps (ce_conn answering_env))"
    "c_out (ce_conn answering_env) = []" "c_in (ce_conn answering_env) = (head_text demo_response @ ''h'') # [''i'' @ CRLF]"
    "ce_lexical_cast answering_env = demo_cast"
    by (simp_all add: answering_env_def demo_env_def)
  have d: "head_text demo_response @ ''h'' @ concat [''i'' @ CRLF] = rs_dump demo_response"
    using dump_text [OF demo_response_facts(1)] demo_response_facts(2) by simp
  show ?thesis
    using get_answered [OF u a c e(1) l e(2-4) _ demo_response_facts(3,1) _ d, of 0 0 1000] demo_response_facts(2,5) unfolding e(5) by auto
qed

text \<open>The not-found page of a new server is a response that the client's scanner accepts.\<close>

lemma not_found_headers: "header_ok ''Server'' ''sylar/1.0.0''" "header_ok ''Content-Type'' ''text/html''"
  by (simp_all add: header_ok_def is_token_def in_ranges_def token_ranges_def char_val_def lower_name_def lower_int_def te_codes_def is_blank_def special_chars)

lemma not_found_readable:
  assumes "v = 0x10 \<or> v = 0x11"
  shows "response_ok (not_found_answer v)" "rs_status (not_found_answer v) = status_NOT_FOUND"
    "rs_body (not_found_answer v) = NotFoundServlet_content ''NotFound''"
proof -
  let ?h = "rs_headers (not_found_answer v)"
  have h: "?h = [(''Content-Type'', ''text/html''), (''Server'', ''sylar/1.0.0'')]"
    by (simp add: not_found_answer_def rs_setHeaderEntry_def HttpResponse_ctor_def HttpResponse_default_def CaseInsensitiveLess_def
        c_str_def special_chars lower_code_def to_lower_def is_upper_def)
  have "printed_reason (not_found_answer v) = ''NOT_FOUND''"
    by (simp add: printed_reason_def not_found_answer_def HttpResponse_ctor_def HttpResponse_default_def rs_setHeaderEntry_def
        status_NOT_FOUND_def HttpStatusToString_def enum_name_def HTTP_STATUS_MAP_def)
  moreover have "rs_version (not_found_answer v) = v" by (simp add: not_found_answer_def rs_setHeaderEntry_def HttpResponse_ctor_def)
  ultimately show "response_ok (not_found_answer v)" using assms not_found_headers by (simp add: response_ok_def h special_chars)
  show "rs_status (not_found_answer v) = status_NOT_FOUND" "rs_body (not_found_answer v) = NotFoundServlet_content ''NotFound''"
    by (simp_all add: not_found_answer_def rs_setHeaderEntry_def)
qed

text \<open>
  C5: The server serves a request from end to end, and its peer understands the answer.  A
  printed request of one of the 34 methods and of version 1.0 or 1.1 (not the version 0 of a new
  one, which is refused and on which the server asserts), whose target is a path with one slash
  in front, not two, and an optional query and fragment, all without a percent sign, with headers
  in the scanner's syntax, a body shorter than 2^31 and, if it has none, no \<^verbatim>\<open>content-length\<close>
  header, arrives at a new server on a connected socket, with a \<^verbatim>\<open>lexical_cast\<close> on both sides
  that reads the digits of a length, its head in one piece that the buffer
  has room for and the rest in any division, over a connection on which no write comes to
  nothing.  \<^verbatim>\<open>handleClient\<close> sends exactly the printed not-found page of the request's version
  and closes the connection; a client to which those bytes come, the head in one piece, reads
  status 404 and the page.
\<close>

theorem request_served:
  assumes "request_ok r" "rq_url r = target_text path query frag" "target_ok path query frag" "smap CaseInsensitiveLess (rq_headers r)"
    and "length (rq_body r) < 2 ^ 31" "rq_body r = [] \<longrightarrow> ci_find ''content-length'' (rq_headers r) = None"
    and "isConnected client" "c_in c = (request_head r @ b) # segs" "[] \<notin> set segs" "length (request_head r @ b) \<le> buff_size"
    and "request_head r @ b @ concat segs = rq_dump r @ extra" "0 \<notin> set (c_caps c)" "c_out c = []"
    and "lexical_cast (show_nat (length (rq_body r))) = Some (word_of_nat (length (rq_body r)))"
    and "page = NotFoundServlet_content ''NotFound''" "peer_cast (show_nat (length page)) = Some (word_of_nat (length page))"
  shows "\<exists>s. handleClient (request_scanner q0) lexical_cast (HttpServer_ctor False) (Suc rounds) (Suc fuel) client c = Some (Inr s)
    \<and> \<not> st_isConnected s \<and> out_data s = rs_dump (not_found_answer (rq_version r))
    \<and> (\<forall>peer b segs. in_ok peer \<and> incoming peer = (head_text (not_found_answer (rq_version r)) @ b) # segs
         \<and> length (head_text (not_found_answer (rq_version r)) @ b) \<le> buff_size \<and> in_data peer = out_data s \<longrightarrow>
         (\<exists>rsp peer'. recvResponse peer_cast 0 1 peer = Some (Inr (Some rsp, peer'))
            \<and> rs_status rsp = status_NOT_FOUND \<and> rs_body rsp = page))"
proof -
  let ?s = "HttpSession_ctor client False c" and ?a = "not_found_answer (rq_version r)"
  have "in_ok ?s" "incoming ?s = (request_head r @ b) # segs" "in_data ?s = rq_dump r @ extra"
    using assms(7-9,11) by (auto simp: in_ok_def in_data_def HttpSession_ctor_def SockStream_ctor_def st_isConnected_def request_head_def request_text_def)
  then obtain s1 where s1: "recvRequest (request_scanner q0) lexical_cast (Suc fuel) ?s
      = Some (Some (rq_init ((parsed_request r path query frag)\<lparr>rq_body := rq_body r\<rparr>)), s1)" "st_isConnected s1" "kept s1 = kept ?s"
    using request_received [where lexical_cast = lexical_cast and fuel = fuel and ?q0.0 = q0, OF assms(1-6) _ _ assms(10) _ assms(14)] by blast
  then have "out_ok s1" "out_data s1 = []"
    using assms(12,13) by (simp_all add: kept_def out_ok_def out_data_def HttpSession_ctor_def SockStream_ctor_def)
  then obtain s where s: "handleClient (request_scanner q0) lexical_cast (HttpServer_ctor False) (Suc rounds) (Suc fuel) client c = Some (Inr s)"
      "out_data s = rs_dump ?a" "\<not> st_isConnected s"
    using new_server_answers [OF s1(1)] by (auto simp: parsed_request_fields)
  have v: "rq_version r = 0x10 \<or> rq_version r = 0x11" using assms(1) by (simp add: request_ok_def)
  note a = not_found_readable [OF v]
  have framed: "framed peer_cast ?a" using assms(15,16) unfolding framed_def a(3) by (simp add: NotFoundServlet_content_def)
  have "\<exists>rsp peer'. recvResponse peer_cast 0 1 peer = Some (Inr (Some rsp, peer'))
      \<and> rs_status rsp = status_NOT_FOUND \<and> rs_body rsp = page"
    if "in_ok peer" "incoming peer = (head_text ?a @ b) # segs" "length (head_text ?a @ b) \<le> buff_size" "in_data peer = out_data s" for peer b segs
  proof -
    have "in_data peer = rs_dump ?a @ []" using that(4) s(2) by simp
    then show ?thesis
      using dump_received [where lexical_cast = peer_cast and rounds = 0 and fuel = 0, OF a(1) framed that(1-3)] assms(15) a(2,3)
      by (fastforce simp: parsed_head_def)
  qed
  then show ?thesis using s by blast
qed

definition page_cast :: "string \<Rightarrow> u64 option" where
  "page_cast s = (if s = show_nat (length (NotFoundServlet_content ''NotFound'')) then Some (word_of_nat (length (NotFoundServlet_content ''NotFound''))) else None)"

theorem request_served_witness:
  "\<exists>s. handleClient (request_scanner blank_memory) demo_cast (HttpServer_ctor False) 1 1 (CreateTCPSocket\<lparr>socketfd := 3, isConnected := True\<rparr>)
       \<lparr>c_in = [request_head demo_request @ ''h'', ''i''], c_out = [], c_caps = [7]\<rparr> = Some (Inr s)
     \<and> out_data s = rs_dump (not_found_answer 0x11)
     \<and> (\<exists>rsp peer. recvResponse page_cast 0 1 (demo_stream [rs_dump (not_found_answer 0x11)]) = Some (Inr (Some rsp, peer)) \<and> rs_status rsp = status_NOT_FOUND)"
proof -
  let ?a = "not_found_answer 0x11" and ?n = "NotFoundServlet_content ''NotFound''" and ?k = "CreateTCPSocket\<lparr>socketfd := 3, isConnected := True\<rparr>"
  let ?c = "\<lparr>c_in = [request_head demo_request @ ''h'', ''i''], c_out = [], c_caps = [7]\<rparr>" and ?p = "demo_stream [rs_dump (not_found_answer 0x11)]"
  note d = demo_request_facts
  have c: "page_cast (show_nat (length ?n)) = Some (word_of_nat (length ?n))" by (simp only: page_cast_def if_True simp_thms)
  have e: "request_head demo_request @ ''h'' @ concat [''i''] = rq_dump demo_request @ []" using request_dump_text [OF d(1)] d(7) by simp
  note r = not_found_readable [OF disjI2 [OF refl]]
  have n: "NotFoundServlet_content ''NotFound'' \<noteq> []" by (simp add: NotFoundServlet_content_def)
  have a: "rs_dump ?a = head_text ?a @ NotFoundServlet_content ''NotFound'' @ CRLF" using dump_text [OF r(1)] r(3) n by simp
  note short = not_found_answer_fits [of "0x11"]
  have p: "in_ok ?p" "incoming ?p = (head_text ?a @ NotFoundServlet_content ''NotFound'' @ CRLF) # []" "in_data ?p = rs_dump ?a"
    using a n by (simp_all add: in_ok_def in_data_def demo_stream_def SockStream_ctor_def st_isConnected_def)
  have v: "rq_version demo_request = 0x11" by (simp add: demo_request_def)
  show ?thesis
    using request_served [where lexical_cast = demo_cast and peer_cast = page_cast and fuel = 0 and rounds = 0 and ?q0.0 = blank_memory and client = ?k and c = ?c,
        OF d(1-6) _ _ _ d(8) e _ _ d(9) refl c] p short unfolding v a by auto
qed

text \<open>
  C39: The library's client ends the library's server.  A server that receives the request of
  this client, at least up to the first digit of its version in one piece, finds the version
  0 malformed, gets no request, and runs into an assertion.
\<close>

theorem client_request_aborts_server:
  assumes "rq_dump (uri_request m u headers body) = seg @ extra" "length (HttpMethodToString m) + 8 \<le> length seg" "length seg \<le> buff_size"
    and "m < 34" "isConnected client" "c_in c = seg # segs"
  shows "handleClient (request_scanner q0) lexical_cast srv (Suc rounds) (Suc fuel) client c = Some (Inl Assert_failed)"
proof -
  obtain x where x: "seg = HttpMethodToString m @ ''  HTTP/0'' @ x" using request_line_prefix [OF assms(1,2)] by metis
  have "st_isConnected (HttpSession_ctor client False c)" "incoming (HttpSession_ctor client False c) = seg # segs"
    using assms(5,6) by (simp_all add: HttpSession_ctor_def SockStream_ctor_def st_isConnected_def)
  then show ?thesis using bad_version_rejected [OF assms(4)] assms(3) by (simp add: handleClient_def x)
qed

theorem client_request_aborts_server_witness:
  "handleClient (request_scanner blank_memory) demo_cast (HttpServer_ctor False) 1 1 (CreateTCPSocket\<lparr>socketfd := 3, isConnected := True\<rparr>)
     \<lparr>c_in = [rq_dump (uri_request method_GET demo_uri [] [])], c_out = [], c_caps = []\<rparr> = Some (Inl Assert_failed)"
proof -
  let ?d = "rq_dump (uri_request method_GET demo_uri [] [])"
  have get: "HttpMethodToString method_GET = ''GET''" by (simp add: method_GET_def HttpMethodToString_def enum_name_def HTTP_METHOD_MAP_def)
  have "length ?d \<le> buff_size" "11 \<le> length ?d"
    by (simp_all add: rq_dump_def uri_request_def demo_uri_def HttpRequest_default_def rq_setHeaderEntry_def version_zero header_lines_def CRLF_def get buff_size_def)
  then show ?thesis
    using client_request_aborts_server [where m = method_GET and u = demo_uri and headers = "[]" and body = "[]" and seg = ?d and extra = "[]"
        and client = "CreateTCPSocket\<lparr>socketfd := 3, isConnected := True\<rparr>" and c = "\<lparr>c_in = [?d], c_out = [], c_caps = []\<rparr>" and segs = "[]"
        and ?q0.0 = blank_memory and lexical_cast = demo_cast and srv = "HttpServer_ctor False" and rounds = 0 and fuel = 0]
    by (simp add: get) (simp add: method_GET_def)
qed

end
